(* ===== verification/Prelude.thy ===== *)
theory Prelude
  imports Main "HOL-Library.Word" "HOL-Library.Sublist"
begin

text \<open>
  Shared vocabulary of the development: names for the machine integers of the
  C++ code, the error-or-value results in which every exception, failed
  assertion and null dereference of the source is a value, and the facts on
  lists that the component theories use.
\<close>

unbundle bit_operations_syntax

type_synonym u8 = "8 word"
type_synonym u16 = "16 word"
type_synonym u32 = "32 word"
type_synonym u64 = "64 word"
type_synonym i32 = "32 word"
type_synonym i64 = "64 word"

named_theorems result_simps \<open>computation rules of error-or-value results\<close>

subsection \<open>Error-or-value results\<close>

definition bindR :: "'e + 'a \<Rightarrow> ('a \<Rightarrow> 'e + 'b) \<Rightarrow> 'e + 'b" where
  "bindR m f = (case m of Inl e \<Rightarrow> Inl e | Inr x \<Rightarrow> f x)"

lemma bindR_Inl [simp, result_simps]: "bindR (Inl e) f = Inl e"
  by (simp add: bindR_def)

lemma bindR_Inr [simp, result_simps]: "bindR (Inr x) f = f x"
  by (simp add: bindR_def)

lemma bindR_eq_Inr: "bindR m f = Inr y \<longleftrightarrow> (\<exists>x. m = Inr x \<and> f x = Inr y)"
  by (cases m) auto

lemma bindR_eq_Inl: "bindR m f = Inl e \<longleftrightarrow> m = Inl e \<or> (\<exists>x. m = Inr x \<and> f x = Inl e)"
  by (cases m) auto

lemma bindR_assoc: "bindR (bindR m f) g = bindR m (\<lambda>x. bindR (f x) g)"
  by (cases m) auto

lemma bindR_cong [fundef_cong]:
  "m = m' \<Longrightarrow> (\<And>x. m' = Inr x \<Longrightarrow> f x = f' x) \<Longrightarrow> bindR m f = bindR m' f'"
  by (cases m') auto

lemma bindR_InrE:
  assumes "bindR m f = Inr y"
  obtains x where "m = Inr x" "f x = Inr y"
  using assms by (cases m) auto

subsection \<open>Unsigned subtraction at 64 bits\<close>

text \<open>The difference of two \<open>size_t\<close> values below \<open>2 ^ 64\<close>, with its wrap-around.\<close>

definition usub64 :: "nat \<Rightarrow> nat \<Rightarrow> nat" where
  "usub64 a b = (if b \<le> a then a - b else 2 ^ 64 + a - b)"

lemma usub64_le [simp]: "b \<le> a \<Longrightarrow> usub64 a b = a - b"
  by (simp add: usub64_def)

lemma usub64_less [simp]: "\<not> b \<le> a \<Longrightarrow> usub64 a b = 2 ^ 64 + a - b"
  by (simp add: usub64_def)

subsection \<open>Overwriting part of a list\<close>

definition overwrite :: "'a list \<Rightarrow> nat \<Rightarrow> 'a list \<Rightarrow> 'a list" where
  "overwrite xs p ys = take p xs @ ys @ drop (p + length ys) xs"

lemma overwrite_Nil [simp]: "overwrite xs p [] = xs"
  by (simp add: overwrite_def)

lemma length_overwrite [simp]:
  "p + length ys \<le> length xs \<Longrightarrow> length (overwrite xs p ys) = length xs"
  by (simp add: overwrite_def)

lemma length_overwrite_max:
  "p \<le> length xs \<Longrightarrow> length (overwrite xs p ys) = max (length xs) (p + length ys)"
  by (simp add: overwrite_def max_def)

lemma take_overwrite [simp]: "p \<le> length xs \<Longrightarrow> take p (overwrite xs p ys) = take p xs"
  by (simp add: overwrite_def)

lemma overwrite_read_back:
  "p \<le> length xs \<Longrightarrow> take (length ys) (drop p (overwrite xs p ys)) = ys"
  by (simp add: overwrite_def)

lemma overwrite_append_left:
  "p + length ys \<le> length xs \<Longrightarrow> overwrite (xs @ zs) p ys = overwrite xs p ys @ zs"
  by (simp add: overwrite_def)

lemma overwrite_append_right:
  "overwrite (zs @ xs) (length zs + p) ys = zs @ overwrite xs p ys"
  by (simp add: overwrite_def)

lemma overwrite_append_split:
  assumes "p \<le> length xs" "length xs - p \<le> length ys"
  shows "overwrite (xs @ zs) p ys =
    overwrite xs p (take (length xs - p) ys) @ overwrite zs 0 (drop (length xs - p) ys)"
proof -
  have "ys @ zs' = take n ys @ drop n ys @ zs'" for n zs'
    by (metis append.assoc append_take_drop_id)
  with assms show ?thesis by (simp add: overwrite_def add.commute)
qed

lemma overwrite_at_end: "overwrite xs (length xs) ys = xs @ ys"
  by (simp add: overwrite_def)

lemma take_overwrite_grow:
  assumes "p \<le> s" "s \<le> length xs"
  shows "take (max s (p + length ys)) (overwrite xs p ys) = overwrite (take s xs) p ys"
proof (cases "p + length ys \<le> s")
  case True
  then have "max s (p + length ys) = s" by simp
  moreover have "take s (overwrite xs p ys) = overwrite (take s xs) p ys"
  proof -
    from True obtain d where d: "s = p + length ys + d" by (auto simp: le_iff_add)
    with assms have "p \<le> length xs" by simp
    with d show ?thesis by (simp add: overwrite_def drop_take min_def)
  qed
  ultimately show ?thesis by simp
next
  case False
  then have "max s (p + length ys) = p + length ys" by simp
  moreover from assms have "p \<le> length xs" by simp
  ultimately show ?thesis
    using False assms by (auto simp: overwrite_def min_def)
qed

lemma concat_length_const:
  "(\<forall>x \<in> set xss. length x = b) \<Longrightarrow> length (concat xss) = b * length xss"
  by (induction xss) auto

lemma concat_take_const:
  "(\<forall>x \<in> set xss. length x = b) \<Longrightarrow> concat (take k xss) = take (b * k) (concat xss)"
proof (induction xss arbitrary: k)
  case Nil
  then show ?case by simp
next
  case (Cons x xss)
  then show ?case by (cases k) (auto simp: take_append)
qed

lemma concat_drop_const:
  "(\<forall>x \<in> set xss. length x = b) \<Longrightarrow> concat (drop k xss) = drop (b * k) (concat xss)"
proof (induction xss arbitrary: k)
  case Nil
  then show ?case by simp
next
  case (Cons x xss)
  then show ?case by (cases k) (auto simp: drop_append)
qed

subsection \<open>Lists in ascending order of a key\<close>

lemma ascending_dropWhile:
  fixes f :: "'b \<Rightarrow> 'a::linorder"
  assumes "sorted_wrt (\<lambda>x y. f x \<le> f y) xs"
  shows "dropWhile (\<lambda>x. f x \<le> n) xs = filter (\<lambda>x. \<not> f x \<le> n) xs"
  using assms
proof (induction xs)
  case (Cons x xs)
  show ?case
  proof (cases "f x \<le> n")
    case False
    with Cons.prems have "\<forall>y \<in> set (x # xs). \<not> f y \<le> n" by (auto dest: order.trans)
    then have "filter (\<lambda>x. \<not> f x \<le> n) (x # xs) = x # xs" by (rule filter_True)
    with False show ?thesis by simp
  qed (use Cons in simp)
qed simp

lemma ascending_takeWhile:
  fixes f :: "'b \<Rightarrow> 'a::linorder"
  assumes "sorted_wrt (\<lambda>x y. f x \<le> f y) xs"
  shows "takeWhile (\<lambda>x. f x \<le> n) xs = filter (\<lambda>x. f x \<le> n) xs"
  using assms
proof (induction xs)
  case (Cons x xs)
  show ?case
  proof (cases "f x \<le> n")
    case False
    with Cons.prems have "\<forall>y \<in> set (x # xs). \<not> f y \<le> n" by (auto dest: order.trans)
    then have "filter (\<lambda>x. f x \<le> n) (x # xs) = []" by (simp only: filter_False simp_thms)
    with False show ?thesis by simp
  qed (use Cons in simp)
qed simp

lemma ascending_bounds:
  fixes f :: "'b \<Rightarrow> 'a::linorder"
  assumes "sorted_wrt (\<lambda>x y. f x \<le> f y) xs"
  shows "dropWhile (\<lambda>x. f x = n) (dropWhile (\<lambda>x. f x < n \<or> f x = n \<and> P x) xs) =
    dropWhile (\<lambda>x. f x \<le> n) xs"
  using assms
proof (induction xs)
  case (Cons x xs)
  consider "f x < n" | "f x = n" | "n < f x" by fastforce
  then show ?case
  proof cases
    case 2
    then have "dropWhile (\<lambda>x. f x = n) xs = dropWhile (\<lambda>x. f x \<le> n) xs"
      using Cons.prems by (intro dropWhile_cong) auto
    with 2 Cons show ?thesis by simp
  qed (use Cons in auto)
qed simp

lemma take_takeWhile_dropWhile:
  "take (length xs - length (dropWhile P xs)) xs = takeWhile P xs"
proof -
  have "length xs - length (dropWhile P xs) = length (takeWhile P xs)"
    by (metis add_diff_cancel_right' length_append takeWhile_dropWhile_id)
  then show ?thesis by (simp only: takeWhile_eq_take [symmetric])
qed

text \<open>The most a \<open>std::string\<close> holds, \<open>max_size()\<close>.\<close>

definition max_string :: nat where
  "max_string = 2 ^ 62"

end
