(* ===== verification/Endian.thy ===== *)
theory Endian
  imports Prelude
begin

text \<open>
  Byte order: \<open>inc/mnser_endian.h\<close>. A word is laid out in memory as its bytes,
  least significant first on a little-endian host and last on a big-endian one;
  \<open>byteswap\<close> reverses them.
\<close>

datatype endian = LittleEndian | BigEndian

subsection \<open>The bytes of a word\<close>

fun le_bytes :: "nat \<Rightarrow> 'a::len word \<Rightarrow> u8 list" where
  "le_bytes 0 w = []"
| "le_bytes (Suc n) w = ucast w # le_bytes n (drop_bit 8 w)"

fun of_le_bytes :: "u8 list \<Rightarrow> 'a::len word" where
  "of_le_bytes [] = 0"
| "of_le_bytes (b # bs) = ucast b OR push_bit 8 (of_le_bytes bs)"

lemma length_le_bytes [simp]: "length (le_bytes n w) = n"
  by (induction n arbitrary: w) auto

lemma of_le_bytes_le_bytes: "of_le_bytes (le_bytes n w) = take_bit (8 * n) w"
proof (induction n arbitrary: w)
  case 0
  then show ?case by simp
next
  case (Suc n)
  then show ?case
    by simp (rule bit_word_eqI, auto simp: bit_simps)
qed

lemma ucast_or_push_bit8:
  "8 \<le> LENGTH('a::len) \<Longrightarrow> (ucast (ucast (b :: u8) OR push_bit 8 (w :: 'a word)) :: u8) = b"
  by (rule bit_word_eqI) (auto simp: bit_simps dest: bit_imp_le_length)

lemma drop_or_push_bit8:
  "drop_bit 8 (ucast (b :: u8) OR push_bit 8 (w :: 'a::len word)) = take_bit (LENGTH('a) - 8) w"
  by (rule bit_word_eqI) (auto simp: bit_simps dest: bit_imp_le_length)

lemma le_bytes_take_bit: "8 * n \<le> m \<Longrightarrow> le_bytes n (take_bit m w) = le_bytes n w"
proof (induction n arbitrary: m w)
  case 0
  then show ?case by simp
next
  case (Suc n)
  then have "drop_bit 8 (take_bit m w) = take_bit (m - 8) (drop_bit 8 w)"
    by (simp add: drop_bit_take_bit)
  moreover from Suc.prems have "(ucast (take_bit m w) :: u8) = ucast w"
    by (intro bit_word_eqI) (auto simp: bit_simps)
  ultimately show ?case using Suc.prems Suc.IH [of "m - 8" "drop_bit 8 w"] by simp
qed

lemma le_bytes_of_le_bytes:
  "8 * length bs \<le> LENGTH('a) \<Longrightarrow> le_bytes (length bs) (of_le_bytes bs :: 'a::len word) = bs"
proof (induction bs)
  case Nil
  then show ?case by simp
next
  case (Cons b bs)
  then have "8 \<le> LENGTH('a)" "8 * length bs \<le> LENGTH('a) - 8" by auto
  moreover have "drop_bit 8 (of_le_bytes (b # bs) :: 'a word) =
      take_bit (LENGTH('a) - 8) (of_le_bytes bs)"
    by (simp only: of_le_bytes.simps drop_or_push_bit8)
  moreover from \<open>8 \<le> LENGTH('a)\<close> have "(ucast (of_le_bytes (b # bs) :: 'a word) :: u8) = b"
    by (simp only: of_le_bytes.simps ucast_or_push_bit8)
  ultimately show ?case
    using Cons by (simp only: le_bytes.simps length_Cons) (simp add: le_bytes_take_bit)
qed

subsection \<open>Memory layout and byteswap\<close>

text \<open>
  \<open>word_size w\<close> is \<open>sizeof\<close>; \<open>to_mem h w\<close> is what \<open>memcpy\<close> from the address of
  a variable holding \<open>w\<close> copies on a host of byte order \<open>h\<close>, \<open>of_mem\<close> its inverse.
\<close>

definition word_size :: "'a::len word \<Rightarrow> nat" where
  "word_size w = LENGTH('a) div 8"

definition to_mem :: "endian \<Rightarrow> 'a::len word \<Rightarrow> u8 list" where
  "to_mem h w = (let bs = le_bytes (word_size w) w in if h = LittleEndian then bs else rev bs)"

definition of_mem :: "endian \<Rightarrow> u8 list \<Rightarrow> 'a::len word" where
  "of_mem h bs = of_le_bytes (if h = LittleEndian then bs else rev bs)"

definition byteswap :: "'a::len word \<Rightarrow> 'a word" where
  "byteswap w = of_le_bytes (rev (le_bytes (word_size w) w))"

definition byteswapOnLittleEndian :: "endian \<Rightarrow> 'a::len word \<Rightarrow> 'a word" where
  "byteswapOnLittleEndian h t = (if h = BigEndian then t else byteswap t)"

definition byteswapOnBigEndian :: "endian \<Rightarrow> 'a::len word \<Rightarrow> 'a word" where
  "byteswapOnBigEndian h t = (if h = BigEndian then byteswap t else t)"

text \<open>The widths the templates are enabled for are whole numbers of bytes.\<close>

abbreviation byte_sized :: "'a::len word \<Rightarrow> bool" where
  "byte_sized w \<equiv> 8 * (LENGTH('a) div 8) = LENGTH('a)"

lemma length_to_mem [simp]: "length (to_mem h w) = word_size w"
  by (simp add: to_mem_def Let_def)

lemma of_le_bytes_full: "byte_sized (w :: 'a::len word) \<Longrightarrow> of_le_bytes (le_bytes (word_size w) w) = w"
  by (simp add: of_le_bytes_le_bytes word_size_def)

lemma le_bytes_full:
  "length bs = LENGTH('a::len) div 8 \<Longrightarrow> le_bytes (LENGTH('a) div 8) (of_le_bytes bs :: 'a word) = bs"
  using le_bytes_of_le_bytes [of bs, where 'a = 'a] by simp

lemma of_mem_to_mem: "byte_sized (w :: 'a::len word) \<Longrightarrow> of_mem h (to_mem h w) = w"
  by (simp add: of_mem_def to_mem_def Let_def of_le_bytes_full)

lemma to_mem_of_mem:
  "length bs = LENGTH('a::len) div 8 \<Longrightarrow> to_mem h (of_mem h bs :: 'a word) = bs"
  by (simp add: of_mem_def to_mem_def Let_def word_size_def le_bytes_full rev_swap)

lemma byteswap_byteswap: "byte_sized (w :: 'a::len word) \<Longrightarrow> byteswap (byteswap w) = w"
  by (simp add: byteswap_def word_size_def le_bytes_full of_le_bytes_le_bytes)

lemma to_mem_byteswap:
  "to_mem h (byteswap (w :: 'a::len word)) =
    to_mem (if h = LittleEndian then BigEndian else LittleEndian) w"
  by (cases h) (simp_all add: to_mem_def byteswap_def Let_def word_size_def le_bytes_full)

end
