(* ===== verification/Byte_Array.thy ===== *)
theory Byte_Array
  imports Endian
begin

text \<open>
  The chunked byte buffer of \<open>inc/bytearray.h\<close> and \<open>src/bytearray.cpp\<close>: a chain
  of equally sized heap blocks with a cursor. The chain is the list of its
  blocks from \<open>m_root\<close>; a pointer into it is the index of a block, or \<open>None\<close> for
  a null pointer; a byte of a fresh block is \<open>None\<close> until it is written
  (\<open>new char[s]\<close> leaves it indeterminate). Sizes are \<open>nat\<close>: they count bytes of
  live memory, so only subtraction can leave the range of \<open>size_t\<close>, and there it
  is written with its wrap-around. The double computation \<open>ceil(1.0 * size / base)\<close>
  of \<open>addCapacity\<close> is exact below \<open>2 ^ 53\<close> bytes and is modelled as the exact ceiling.

  The second half proves that the chain implements a flat byte sequence with a
  position: the abstract contents after every operation depend only on the
  abstract contents before it.
\<close>

subsection \<open>State\<close>

type_synonym cell = "u8 option"
type_synonym node = "cell list"

datatype ba_error =
    NullDeref
  | Aborted
  | OutOfRange
  | DivByZero
  | NegativeLength
  | Indeterminate
  | Diverges
  | StringTooLong

record bytearray =
  ba_baseSize :: nat
  ba_position :: nat
  ba_capacity :: nat
  ba_size :: nat
  ba_endian :: endian
  ba_nodes :: "node list"
  ba_cur :: "nat option"

definition new_node :: "nat \<Rightarrow> node" where
  "new_node s = replicate s None"

definition new_bytearray :: "nat \<Rightarrow> bytearray" where
  "new_bytearray base_size =
    \<lparr>ba_baseSize = base_size, ba_position = 0, ba_capacity = base_size, ba_size = 0,
     ba_endian = BigEndian, ba_nodes = [new_node base_size], ba_cur = Some 0\<rparr>"

subsection \<open>Pointers into the chain\<close>

definition next_node :: "node list \<Rightarrow> nat option \<Rightarrow> nat option" where
  "next_node nodes c =
    (case c of None \<Rightarrow> None | Some k \<Rightarrow> if Suc k < length nodes then Some (Suc k) else None)"

fun walk :: "node list \<Rightarrow> nat option \<Rightarrow> nat \<Rightarrow> nat option" where
  "walk nodes c 0 = c"
| "walk nodes c (Suc n) = walk nodes (next_node nodes c) n"

definition chain_from :: "node list \<Rightarrow> nat option \<Rightarrow> node list" where
  "chain_from nodes c = (case c of None \<Rightarrow> [] | Some k \<Rightarrow> drop k nodes)"

definition with_chain :: "node list \<Rightarrow> nat option \<Rightarrow> node list \<Rightarrow> node list" where
  "with_chain nodes c chain = (case c of None \<Rightarrow> nodes | Some k \<Rightarrow> take k nodes @ chain)"

subsection \<open>Sizes\<close>

definition getReadSize :: "bytearray \<Rightarrow> nat" where
  "getReadSize ba = usub64 (ba_size ba) (ba_position ba)"

definition getCapacity :: "bytearray \<Rightarrow> nat" where
  "getCapacity ba = usub64 (ba_capacity ba) (ba_position ba)"

definition ceil_div :: "nat \<Rightarrow> nat \<Rightarrow> nat" where
  "ceil_div a b = (a + b - 1) div b"

definition addCapacity :: "bytearray \<Rightarrow> nat \<Rightarrow> ba_error + bytearray" where
  "addCapacity ba sz =
    (if sz = 0 then Inr ba
     else let old_cap = getCapacity ba in
       if old_cap \<ge> sz then Inr ba
       else if ba_baseSize ba = 0 then Inl DivByZero
       else
         let count = ceil_div (sz - old_cap) (ba_baseSize ba);
             first = (if count = 0 then None else Some (length (ba_nodes ba)))
         in Inr (ba\<lparr>ba_nodes := ba_nodes ba @ replicate count (new_node (ba_baseSize ba)),
                    ba_capacity := ba_capacity ba + count * ba_baseSize ba,
                    ba_cur := (if old_cap = 0 then first else ba_cur ba)\<rparr>))"

subsection \<open>Writing\<close>

text \<open>
  The loop of \<open>write\<close> from the block \<open>m_cur\<close> on: it returns the blocks it has
  rewritten and how many steps \<open>m_cur = m_cur->next\<close> it took. An empty chain is a
  null \<open>m_cur\<close>.
\<close>

fun write_loop :: "node list \<Rightarrow> nat \<Rightarrow> cell list \<Rightarrow> ba_error + (node list \<times> nat)" where
  "write_loop [] npos buf = Inl NullDeref"
| "write_loop (n # ns) npos buf =
    (let ncap = length n - npos in
     if ncap \<ge> length buf then
       Inr (overwrite n npos buf # ns, if length n = npos + length buf then 1 else 0)
     else
       bindR (write_loop ns 0 (drop ncap buf)) (\<lambda>(ns', k).
         Inr (overwrite n npos (take ncap buf) # ns', Suc k)))"

definition ba_write :: "bytearray \<Rightarrow> cell list \<Rightarrow> ba_error + bytearray" where
  "ba_write ba buf =
    (if buf = [] then Inr ba
     else bindR (addCapacity ba (length buf)) (\<lambda>ba.
       if ba_baseSize ba = 0 then Inl DivByZero
       else
         let npos = ba_position ba mod ba_baseSize ba in
         bindR (write_loop (chain_from (ba_nodes ba) (ba_cur ba)) npos buf) (\<lambda>(chain, k).
           let nodes = with_chain (ba_nodes ba) (ba_cur ba) chain;
               pos = ba_position ba + length buf
           in Inr (ba\<lparr>ba_nodes := nodes, ba_cur := walk nodes (ba_cur ba) k,
                      ba_position := pos,
                      ba_size := (if pos > ba_size ba then pos else ba_size ba)\<rparr>))))"

subsection \<open>Reading\<close>

text \<open>
  The loop of both \<open>read\<close> functions. \<open>ncap\<close> is computed from \<open>m_cur\<close> before the loop
  starts, so a null \<open>m_cur\<close> is dereferenced even when no byte is asked for.
\<close>

fun read_loop :: "node list \<Rightarrow> nat \<Rightarrow> nat \<Rightarrow> ba_error + (cell list \<times> nat)" where
  "read_loop [] npos sz = Inl NullDeref"
| "read_loop (n # ns) npos sz =
    (let ncap = length n - npos in
     if sz = 0 then Inr ([], 0)
     else if ncap \<ge> sz then
       Inr (take sz (drop npos n), if length n = npos + sz then 1 else 0)
     else
       bindR (read_loop ns 0 (sz - ncap)) (\<lambda>(bs, k).
         Inr (take ncap (drop npos n) @ bs, Suc k)))"

definition ba_read :: "bytearray \<Rightarrow> nat \<Rightarrow> ba_error + (cell list \<times> bytearray)" where
  "ba_read ba sz =
    (if sz > getReadSize ba then Inl Aborted
     else if ba_baseSize ba = 0 then Inl DivByZero
     else
       let npos = ba_position ba mod ba_baseSize ba in
       bindR (read_loop (chain_from (ba_nodes ba) (ba_cur ba)) npos sz) (\<lambda>(bs, k).
         Inr (bs, ba\<lparr>ba_position := ba_position ba + sz,
                     ba_cur := walk (ba_nodes ba) (ba_cur ba) k\<rparr>)))"

text \<open>The overload with an explicit position; it too starts at \<open>m_cur\<close>.\<close>

definition ba_read_at :: "bytearray \<Rightarrow> nat \<Rightarrow> nat \<Rightarrow> ba_error + cell list" where
  "ba_read_at ba sz position =
    (if sz > usub64 (ba_size ba) position then Inl OutOfRange
     else if ba_baseSize ba = 0 then Inl DivByZero
     else
       let npos = position mod ba_baseSize ba in
       bindR (read_loop (chain_from (ba_nodes ba) (ba_cur ba)) npos sz) (\<lambda>(bs, k). Inr bs))"

subsection \<open>Position and clearing\<close>

fun seek_loop :: "node list \<Rightarrow> nat \<Rightarrow> nat \<Rightarrow> ba_error + nat option" where
  "seek_loop [] i v = Inl NullDeref"
| "seek_loop (n # ns) i v =
    (if v > length n then seek_loop ns (Suc i) (v - length n)
     else Inr (if v = length n then (if ns = [] then None else Some (Suc i)) else Some i))"

definition setPosition :: "bytearray \<Rightarrow> nat \<Rightarrow> ba_error + bytearray" where
  "setPosition ba v =
    (if v > ba_capacity ba then Inl OutOfRange
     else bindR (seek_loop (ba_nodes ba) 0 v) (\<lambda>c.
       Inr (ba\<lparr>ba_position := v, ba_size := (if v > ba_size ba then v else ba_size ba),
               ba_cur := c\<rparr>)))"

definition ba_clear :: "bytearray \<Rightarrow> bytearray" where
  "ba_clear ba = ba\<lparr>ba_position := 0, ba_size := 0, ba_capacity := ba_baseSize ba,
                    ba_nodes := take 1 (ba_nodes ba), ba_cur := Some 0\<rparr>"

definition isLittleEndian :: "bytearray \<Rightarrow> bool" where
  "isLittleEndian ba = (ba_endian ba = LittleEndian)"

definition setIsLittleEndian :: "bytearray \<Rightarrow> bool \<Rightarrow> bytearray" where
  "setIsLittleEndian ba val = ba\<lparr>ba_endian := (if val then LittleEndian else BigEndian)\<rparr>"

subsection \<open>Conversions\<close>

definition ba_toString :: "bytearray \<Rightarrow> ba_error + cell list" where
  "ba_toString ba =
    (if getReadSize ba = 0 then Inr [] else ba_read_at ba (getReadSize ba) (ba_position ba))"

definition hex_digit :: "nat \<Rightarrow> char" where
  "hex_digit d = (if d < 10 then char_of (48 + d) else char_of (87 + d))"

definition hex2 :: "u8 \<Rightarrow> string" where
  "hex2 b = [hex_digit (unat b div 16), hex_digit (unat b mod 16)]"

fun hex_dump :: "nat \<Rightarrow> u8 list \<Rightarrow> string" where
  "hex_dump i [] = []"
| "hex_dump i (b # bs) =
    (if i > 0 \<and> i mod 32 = 0 then [char_of (10 :: nat)] else []) @ hex2 b @ [CHR '' ''] @
    hex_dump (Suc i) bs"

definition toHexString :: "bytearray \<Rightarrow> ba_error + string" where
  "toHexString ba = bindR (ba_toString ba) (\<lambda>cs.
    if None \<in> set cs then Inl Indeterminate else Inr (hex_dump 0 (map the cs)))"

subsection \<open>Scatter/gather buffers\<close>

text \<open>An \<open>iovec\<close>: a block of the chain, the offset of \<open>iov_base\<close> in it, and \<open>iov_len\<close>.\<close>

record iovec =
  iov_node :: nat
  iov_off :: nat
  iov_len :: nat

fun iov_loop :: "node list \<Rightarrow> nat \<Rightarrow> nat \<Rightarrow> nat \<Rightarrow> ba_error + iovec list" where
  "iov_loop [] i npos len = Inl NullDeref"
| "iov_loop (n # ns) i npos len =
    (let ncap = length n - npos in
     if len = 0 then Inr []
     else if ncap \<ge> len then Inr [\<lparr>iov_node = i, iov_off = npos, iov_len = len\<rparr>]
     else
       bindR (iov_loop ns (Suc i) 0 (len - ncap)) (\<lambda>iovs.
         Inr (\<lparr>iov_node = i, iov_off = npos, iov_len = ncap\<rparr> # iovs)))"

definition getReadBuffers :: "bytearray \<Rightarrow> nat \<Rightarrow> ba_error + (iovec list \<times> nat)" where
  "getReadBuffers ba len =
    (let len = (if len > getReadSize ba then getReadSize ba else len) in
     if len = 0 then Inr ([], 0)
     else if ba_baseSize ba = 0 then Inl DivByZero
     else
       bindR (iov_loop (chain_from (ba_nodes ba) (ba_cur ba))
                (case ba_cur ba of None \<Rightarrow> 0 | Some k \<Rightarrow> k)
                (ba_position ba mod ba_baseSize ba) len)
         (\<lambda>iovs. Inr (iovs, len)))"

definition getReadBuffers_at :: "bytearray \<Rightarrow> nat \<Rightarrow> nat \<Rightarrow> ba_error + (iovec list \<times> nat)" where
  "getReadBuffers_at ba len position =
    (let len = (if len > getReadSize ba then getReadSize ba else len) in
     if len = 0 then Inr ([], 0)
     else if ba_baseSize ba = 0 then Inl DivByZero
     else
       let npos = position mod ba_baseSize ba; count = position div ba_baseSize ba in
       bindR (iov_loop (drop count (ba_nodes ba)) count npos len) (\<lambda>iovs. Inr (iovs, len)))"

definition getWriteBuffers :: "bytearray \<Rightarrow> nat \<Rightarrow> ba_error + (iovec list \<times> nat \<times> bytearray)" where
  "getWriteBuffers ba len =
    (if len = 0 then Inr ([], 0, ba)
     else bindR (addCapacity ba len) (\<lambda>ba.
       if ba_baseSize ba = 0 then Inl DivByZero
       else bindR (iov_loop (chain_from (ba_nodes ba) (ba_cur ba))
                     (case ba_cur ba of None \<Rightarrow> 0 | Some k \<Rightarrow> k)
                     (ba_position ba mod ba_baseSize ba) len)
              (\<lambda>iovs. Inr (iovs, len, ba))))"

subsection \<open>Files\<close>

text \<open>
  \<open>writeToFile\<close> walks the chain from \<open>m_cur\<close>, one block per round; \<open>pos\<close>, the number
  of bytes left and \<open>len\<close> are signed. Whether the file opens is the environment's
  answer \<open>opened\<close>; the result carries the bytes written.
\<close>

fun file_loop :: "node list \<Rightarrow> nat \<Rightarrow> int \<Rightarrow> int \<Rightarrow> ba_error + cell list" where
  "file_loop [] base pos rs = (if rs > 0 then Inl NullDeref else Inr [])"
| "file_loop (n # ns) base pos rs =
    (if rs > 0 then
       let diff = pos mod int base;
           len = (if rs > int base then int base else rs) - diff
       in if len < 0 then Inl NegativeLength
          else bindR (file_loop ns base (pos + len) (rs - len)) (\<lambda>out.
                 Inr (take (nat len) (drop (nat diff) n) @ out))
     else Inr [])"

definition writeToFile :: "bytearray \<Rightarrow> bool \<Rightarrow> ba_error + (bool \<times> cell list)" where
  "writeToFile ba opened =
    (if \<not> opened then Inr (False, [])
     else if getReadSize ba > 0 \<and> ba_baseSize ba = 0 then Inl DivByZero
     else bindR (file_loop (chain_from (ba_nodes ba) (ba_cur ba)) (ba_baseSize ba)
                   (int (ba_position ba)) (int (getReadSize ba)))
            (\<lambda>out. Inr (True, out)))"

text \<open>
  \<open>readFromFile\<close> reads the file in pieces of \<open>m_baseSize\<close> bytes until a read hits the
  end of the file, and writes each piece; \<open>None\<close> is a file that does not open.
\<close>

function readFile_loop :: "bytearray \<Rightarrow> nat \<Rightarrow> u8 list \<Rightarrow> ba_error + bytearray" where
  "readFile_loop ba base file =
    (if base = 0 then Inl Diverges
     else if length file < base then ba_write ba (map Some file)
     else bindR (ba_write ba (map Some (take base file))) (\<lambda>ba.
            readFile_loop ba base (drop base file)))"
  by pat_completeness auto
termination
  by (relation "measure (\<lambda>(ba, base, file). length file)") auto

declare readFile_loop.simps [simp del]

definition readFromFile :: "bytearray \<Rightarrow> u8 list option \<Rightarrow> ba_error + (bool \<times> bytearray)" where
  "readFromFile ba file =
    (case file of None \<Rightarrow> Inr (False, ba)
     | Some bs \<Rightarrow> bindR (readFile_loop ba (ba_baseSize ba) bs) (\<lambda>ba. Inr (True, ba)))"

subsection \<open>Invariant and abstraction\<close>

text \<open>
  Every block has the base size, the capacity counts the blocks, and the cursor is the
  block that holds \<open>m_position\<close>, null exactly when the position is at the capacity.
\<close>

definition ba_ok :: "bytearray \<Rightarrow> bool" where
  "ba_ok ba \<longleftrightarrow>
     0 < ba_baseSize ba \<and> ba_nodes ba \<noteq> [] \<and>
     (\<forall>n \<in> set (ba_nodes ba). length n = ba_baseSize ba) \<and>
     ba_capacity ba = ba_baseSize ba * length (ba_nodes ba) \<and>
     ba_position ba \<le> ba_size ba \<and> ba_size ba \<le> ba_capacity ba \<and>
     ba_cur ba = (if ba_position ba < ba_capacity ba
                  then Some (ba_position ba div ba_baseSize ba) else None)"

definition ba_contents :: "bytearray \<Rightarrow> cell list" where
  "ba_contents ba = take (ba_size ba) (concat (ba_nodes ba))"

named_theorems ba_intros \<open>preservation of the buffer invariant\<close>

lemma ba_okD:
  assumes "ba_ok ba"
  shows "0 < ba_baseSize ba" "ba_nodes ba \<noteq> []"
    "\<And>n. n \<in> set (ba_nodes ba) \<Longrightarrow> length n = ba_baseSize ba"
    "ba_capacity ba = ba_baseSize ba * length (ba_nodes ba)"
    "ba_position ba \<le> ba_size ba" "ba_size ba \<le> ba_capacity ba"
    "ba_position ba \<le> ba_capacity ba"
    "length (concat (ba_nodes ba)) = ba_capacity ba"
  using assms by (auto simp: ba_ok_def concat_length_const)

lemma length_ba_contents: "ba_ok ba \<Longrightarrow> length (ba_contents ba) = ba_size ba"
  by (simp add: ba_contents_def ba_okD(6,8))

lemma new_bytearray_ok [ba_intros]: "0 < b \<Longrightarrow> ba_ok (new_bytearray b)"
  by (simp add: ba_ok_def new_bytearray_def new_node_def)

lemma getReadSize_ok: "ba_ok ba \<Longrightarrow> getReadSize ba = ba_size ba - ba_position ba"
  by (simp add: getReadSize_def ba_okD(5))

lemma getCapacity_ok: "ba_ok ba \<Longrightarrow> getCapacity ba = ba_capacity ba - ba_position ba"
  by (simp add: getCapacity_def ba_okD(7))

subsection \<open>The cursor\<close>

lemma walk_None [simp]: "walk nodes None n = None"
  by (induction n) (simp_all add: next_node_def)

lemma walk_Some:
  "k < length nodes \<Longrightarrow>
    walk nodes (Some k) n = (if k + n < length nodes then Some (k + n) else None)"
  by (induction n arbitrary: k) (auto simp: next_node_def)

lemma block_step:
  assumes "0 < (b :: nat)" "p < b * n" "p + l \<le> b * n" "length ns = n"
  shows "walk ns (Some (p div b)) ((p mod b + l) div b) =
      (if p + l < b * n then Some ((p + l) div b) else None)"
proof -
  have k: "p div b < length ns"
    using assms(1,2,4) by (simp add: less_mult_imp_div_less mult.commute)
  have "(p + l) div b = (p mod b + l + p div b * b) div b"
    by (simp add: add.assoc [symmetric] add.commute)
  also have "\<dots> = p div b + (p mod b + l) div b"
    using assms(1) by (intro div_mult_self1) simp
  finally have "p div b + (p mod b + l) div b = (p + l) div b" ..
  moreover have "(p + l) div b < n \<longleftrightarrow> p + l < b * n"
    using assms(1) by (simp add: div_less_iff_less_mult mult.commute)
  ultimately show ?thesis
    using k assms(4) by (simp add: walk_Some)
qed

lemma concat_chain:
  assumes "\<forall>n \<in> set nodes. length n = b"
  shows "concat (chain_from nodes (Some k)) = drop (b * k) (concat nodes)"
  using assms by (simp add: chain_from_def concat_drop_const)

subsection \<open>The loops\<close>

lemma write_loop_spec:
  assumes "\<forall>n \<in> set ns. length n = b" "npos < b" "buf \<noteq> []"
    "npos + length buf \<le> b * length ns"
  shows "\<exists>ns'. write_loop ns npos buf = Inr (ns', (npos + length buf) div b) \<and>
    concat ns' = overwrite (concat ns) npos buf \<and>
    (\<forall>n \<in> set ns'. length n = b) \<and> length ns' = length ns"
  using assms
proof (induction ns arbitrary: npos buf)
  case Nil
  then show ?case by simp
next
  case (Cons n ns)
  from Cons.prems have n: "length n = b" and ns: "\<forall>n \<in> set ns. length n = b" by auto
  show ?case
  proof (cases "length buf \<le> b - npos")
    case True
    with Cons.prems(2) have le: "npos + length buf \<le> b" by simp
    then have "(npos + length buf) div b = (if b = npos + length buf then 1 else 0)"
      using Cons.prems(2) by auto
    with True le n ns show ?thesis
      by (auto simp: Let_def overwrite_append_left)
  next
    case False
    define rest where "rest = drop (b - npos) buf"
    have rest: "rest \<noteq> []" "0 + length rest \<le> b * length ns" "0 < b"
      using False Cons.prems by (auto simp: rest_def)
    from Cons.IH [OF ns rest(3,1,2)] obtain ns' where
      IH: "write_loop ns 0 rest = Inr (ns', length rest div b)"
        "concat ns' = overwrite (concat ns) 0 rest"
        "\<forall>n \<in> set ns'. length n = b" "length ns' = length ns" by auto
    have e: "npos + length buf = length rest + b"
      using False Cons.prems(2) by (simp add: rest_def)
    have k: "(npos + length buf) div b = Suc (length rest div b)"
      unfolding e by (subst div_add_self2) (use rest(3) in auto)
    have "overwrite (n @ concat ns) npos buf =
        overwrite n npos (take (b - npos) buf) @ overwrite (concat ns) 0 rest"
      using False Cons.prems(2) n overwrite_append_split [of npos n buf "concat ns"]
      by (simp add: rest_def)
    with False IH k n Cons.prems(2) show ?thesis
      by (simp add: Let_def rest_def [symmetric])
  qed
qed

lemma read_loop_spec:
  assumes "\<forall>n \<in> set ns. length n = b" "npos < b" "ns \<noteq> []" "npos + sz \<le> b * length ns"
  shows "read_loop ns npos sz = Inr (take sz (drop npos (concat ns)), (npos + sz) div b)"
  using assms
proof (induction ns arbitrary: npos sz)
  case Nil
  then show ?case by simp
next
  case (Cons n ns)
  from Cons.prems have n: "length n = b" and ns: "\<forall>n \<in> set ns. length n = b" by auto
  consider "sz = 0" | "0 < sz" "sz \<le> b - npos" | "b - npos < sz" by linarith
  then show ?case
  proof cases
    case 1
    with Cons.prems(2) show ?thesis by (simp add: Let_def)
  next
    case 2
    with Cons.prems(2) have "(npos + sz) div b = (if b = npos + sz then 1 else 0)" by auto
    with 2 n Cons.prems(2) show ?thesis by (simp add: Let_def)
  next
    case 3
    then have "ns \<noteq> []" using Cons.prems(2,4) by auto
    moreover have "0 + (sz - (b - npos)) \<le> b * length ns"
      using 3 Cons.prems(2,4) by simp
    ultimately have "read_loop ns 0 (sz - (b - npos)) =
        Inr (take (sz - (b - npos)) (concat ns), (sz - (b - npos)) div b)"
      using Cons.IH [OF ns, of 0 "sz - (b - npos)"] Cons.prems(2) by simp
    moreover have "(npos + sz) div b = Suc ((sz - (b - npos)) div b)"
    proof -
      have "npos + sz = (sz - (b - npos)) + b" using 3 Cons.prems(2) by simp
      moreover have "((sz - (b - npos)) + b) div b = (sz - (b - npos)) div b + 1"
        using Cons.prems(2) by (intro div_add_self2) auto
      ultimately show ?thesis by (metis Suc_eq_plus1)
    qed
    ultimately show ?thesis
      using 3 n Cons.prems(2) by (simp add: Let_def)
  qed
qed

lemma seek_loop_spec:
  assumes "\<forall>n \<in> set ns. length n = b" "0 < b" "ns \<noteq> []" "v \<le> b * length ns"
  shows "seek_loop ns i v = Inr (if v < b * length ns then Some (i + v div b) else None)"
  using assms
proof (induction ns arbitrary: i v)
  case Nil
  then show ?case by simp
next
  case (Cons n ns)
  then have n: "length n = b" and ns: "\<forall>n \<in> set ns. length n = b" by auto
  show ?case
  proof (cases "v > b")
    case True
    then have "ns \<noteq> []" using Cons.prems(4) by auto
    moreover have "v - b \<le> b * length ns" using Cons.prems(4) by simp
    ultimately have "seek_loop ns (Suc i) (v - b) =
        Inr (if v - b < b * length ns then Some (Suc i + (v - b) div b) else None)"
      by (intro Cons.IH ns Cons.prems(2))
    moreover have "v div b = Suc ((v - b) div b)"
      using True Cons.prems(2) by (simp add: le_div_geq)
    ultimately show ?thesis using True n Cons.prems(2) by auto
  next
    case False
    with n Cons.prems(2) show ?thesis by (cases ns) auto
  qed
qed

subsection \<open>Operations on the abstract contents\<close>

lemma ceil_div_le:
  assumes "0 < b"
  shows "a \<le> b * ceil_div a b"
proof -
  define q where "q = a + b - 1"
  have "q mod b < b" using assms by simp
  moreover have "b * (q div b) + q mod b = q" by simp
  ultimately have "q < b * (q div b) + b" by linarith
  then show ?thesis using assms by (simp add: ceil_div_def q_def)
qed

lemma ceil_div_pos: "0 < b \<Longrightarrow> 0 < a \<Longrightarrow> 0 < ceil_div a b"
  by (simp add: ceil_div_def div_greater_zero_iff)

lemma concat_replicate_new: "concat (replicate k (new_node b)) = replicate (k * b) None"
  by (induction k) (auto simp: new_node_def replicate_add)

lemma addCapacity_spec:
  assumes ok: "ba_ok ba"
  obtains ba' where "addCapacity ba sz = Inr ba'" "ba_ok ba'"
    "ba_position ba + sz \<le> ba_capacity ba'"
    "\<exists>k. concat (ba_nodes ba') = concat (ba_nodes ba) @ replicate k None"
    "ba_position ba' = ba_position ba" "ba_size ba' = ba_size ba"
    "ba_baseSize ba' = ba_baseSize ba" "ba_endian ba' = ba_endian ba"
    "ba_contents ba' = ba_contents ba"
proof (cases "sz \<le> getCapacity ba")
  case True
  then have "addCapacity ba sz = Inr ba" by (simp add: addCapacity_def Let_def)
  moreover have "\<exists>k. concat (ba_nodes ba) = concat (ba_nodes ba) @ replicate k None"
    by (rule exI [of _ 0]) simp
  moreover have "ba_position ba + sz \<le> ba_capacity ba"
    using True ok by (simp add: getCapacity_ok ba_okD(7) le_diff_conv2 add.commute)
  ultimately show ?thesis using that ok by blast
next
  case False
  define b where "b = ba_baseSize ba"
  define n where "n = ceil_div (sz - getCapacity ba) b"
  define ba' where "ba' = ba\<lparr>ba_nodes := ba_nodes ba @ replicate n (new_node b),
    ba_capacity := ba_capacity ba + n * b,
    ba_cur := (if getCapacity ba = 0 then Some (length (ba_nodes ba)) else ba_cur ba)\<rparr>"
  have b: "0 < b" using ok by (simp add: b_def ba_okD(1))
  have n: "0 < n" "sz - getCapacity ba \<le> b * n"
    using False b by (auto simp: n_def ceil_div_pos ceil_div_le)
  have run: "addCapacity ba sz = Inr ba'"
    using False b n(1)
    by (simp add: addCapacity_def Let_def ba'_def b_def [symmetric] n_def [symmetric])
  have flat: "concat (ba_nodes ba') = concat (ba_nodes ba) @ replicate (n * b) None"
    by (simp add: ba'_def concat_replicate_new)
  have cap: "ba_capacity ba = b * length (ba_nodes ba)"
    using ok by (simp add: b_def ba_okD(4))
  have ok': "ba_ok ba'"
  proof (cases "ba_position ba = ba_capacity ba")
    case True
    then have "ba_position ba div b = length (ba_nodes ba)" using b cap by simp
    with True ok b n(1) cap show ?thesis
      by (auto simp: ba_ok_def ba'_def b_def getCapacity_def new_node_def algebra_simps)
  next
    case False
    with ok have "ba_position ba < ba_capacity ba" using ba_okD(7) [OF ok] by simp
    with ok b cap show ?thesis
      by (auto simp: ba_ok_def ba'_def b_def getCapacity_def new_node_def algebra_simps)
  qed
  have "ba_position ba + sz \<le> ba_capacity ba'"
    using n(2) False ok ba_okD(7) [OF ok]
    by (simp add: ba'_def getCapacity_ok mult.commute)
  moreover have "ba_contents ba' = ba_contents ba"
    unfolding ba_contents_def flat using ok ba_okD(6,8) [OF ok] by (simp add: ba'_def)
  ultimately show ?thesis
    using that [of ba'] run ok' flat by (auto simp: ba'_def)
qed

lemma chain_write:
  assumes lens: "\<forall>n \<in> set ns. length n = b" and b: "0 < b"
    and p: "p < b * length ns" and fit: "p + length buf \<le> b * length ns" and buf: "buf \<noteq> []"
  obtains chain where
    "write_loop (chain_from ns (Some (p div b))) (p mod b) buf =
      Inr (chain, (p mod b + length buf) div b)"
    "concat (with_chain ns (Some (p div b)) chain) = overwrite (concat ns) p buf"
    "\<forall>n \<in> set (with_chain ns (Some (p div b)) chain). length n = b"
    "length (with_chain ns (Some (p div b)) chain) = length ns"
proof -
  have k: "p div b < length ns" using p b by (simp add: less_mult_imp_div_less mult.commute)
  have pdm: "b * (p div b) + p mod b = p" by simp
  have "b * length (drop (p div b) ns) = b * length ns - b * (p div b)"
    by (simp add: diff_mult_distrib2)
  then have "p mod b + length buf \<le> b * length (drop (p div b) ns)"
    using fit pdm by linarith
  moreover have "\<forall>n \<in> set (drop (p div b) ns). length n = b"
    using lens by (meson in_set_dropD)
  ultimately obtain chain where loop:
    "write_loop (drop (p div b) ns) (p mod b) buf = Inr (chain, (p mod b + length buf) div b)"
    "concat chain = overwrite (concat (drop (p div b) ns)) (p mod b) buf"
    "\<forall>n \<in> set chain. length n = b" "length chain = length (drop (p div b) ns)"
    using write_loop_spec [of "drop (p div b) ns" b "p mod b" buf] buf b by auto
  have "length (take (b * (p div b)) (concat ns)) = b * (p div b)"
    using k by (simp add: concat_length_const [OF lens])
  then have "concat (take (p div b) ns @ chain) =
      overwrite (take (b * (p div b)) (concat ns) @ drop (b * (p div b)) (concat ns))
        (b * (p div b) + p mod b) buf"
    using overwrite_append_right [of "take (b * (p div b)) (concat ns)" _ "p mod b" buf]
    by (simp only: concat_append loop(2) concat_take_const [OF lens] concat_drop_const [OF lens])
  moreover have "\<forall>n \<in> set (take (p div b) ns @ chain). length n = b"
    using loop(3) lens by (auto dest: in_set_takeD)
  moreover have "length (take (p div b) ns @ chain) = length ns" using loop(4) k by simp
  ultimately show ?thesis
    using that [of chain] loop(1) by (simp add: chain_from_def with_chain_def)
qed

lemma chain_read:
  assumes lens: "\<forall>n \<in> set ns. length n = b" and b: "0 < b"
    and p: "p < b * length ns" and fit: "p + sz \<le> b * length ns"
  shows "read_loop (chain_from ns (Some (p div b))) (p mod b) sz =
    Inr (take sz (drop p (concat ns)), (p mod b + sz) div b)"
proof -
  have k: "p div b < length ns" using p b by (simp add: less_mult_imp_div_less mult.commute)
  have pdm: "b * (p div b) + p mod b = p" by simp
  have "b * length (drop (p div b) ns) = b * length ns - b * (p div b)"
    by (simp add: diff_mult_distrib2)
  then have "p mod b + sz \<le> b * length (drop (p div b) ns)" using fit pdm by linarith
  moreover have "\<forall>n \<in> set (drop (p div b) ns). length n = b"
    using lens by (meson in_set_dropD)
  ultimately have "read_loop (drop (p div b) ns) (p mod b) sz =
      Inr (take sz (drop (p mod b) (concat (drop (p div b) ns))), (p mod b + sz) div b)"
    using k b by (intro read_loop_spec) auto
  moreover have "drop (p mod b) (concat (drop (p div b) ns)) = drop p (concat ns)"
    using pdm by (simp only: concat_drop_const [OF lens] drop_drop add.commute)
  ultimately show ?thesis by (simp add: chain_from_def)
qed

lemma ba_write_spec:
  assumes ok: "ba_ok ba"
  obtains ba' where "ba_write ba buf = Inr ba'" "ba_ok ba'"
    "ba_contents ba' = overwrite (ba_contents ba) (ba_position ba) buf"
    "ba_position ba' = ba_position ba + length buf"
    "ba_size ba' = max (ba_size ba) (ba_position ba + length buf)"
    "ba_baseSize ba' = ba_baseSize ba" "ba_endian ba' = ba_endian ba"
proof (cases "buf = []")
  case True
  with ok ba_okD(5) [OF ok] that [of ba] show ?thesis by (simp add: ba_write_def max_def)
next
  case False
  from addCapacity_spec [OF ok] obtain c where c: "addCapacity ba (length buf) = Inr c"
    "ba_ok c" "ba_position ba + length buf \<le> ba_capacity c"
    "ba_position c = ba_position ba" "ba_size c = ba_size ba"
    "ba_baseSize c = ba_baseSize ba" "ba_endian c = ba_endian ba"
    "ba_contents c = ba_contents ba" by metis
  define b where "b = ba_baseSize c"
  define p where "p = ba_position c"
  define ns where "ns = ba_nodes c"
  note okc = c(2) [unfolded ba_ok_def, folded b_def p_def ns_def]
  have fit: "p + length buf \<le> b * length ns" using c(3,4) okc by (simp add: p_def)
  moreover from False have "0 < length buf" by simp
  ultimately have p: "p < b * length ns" by linarith
  have cur: "ba_cur c = Some (p div b)" using okc p by simp
  obtain chain where chain:
    "write_loop (chain_from ns (ba_cur c)) (p mod b) buf = Inr (chain, (p mod b + length buf) div b)"
    "concat (with_chain ns (ba_cur c) chain) = overwrite (concat ns) p buf"
    "\<forall>n \<in> set (with_chain ns (ba_cur c) chain). length n = b"
    "length (with_chain ns (ba_cur c) chain) = length ns"
    unfolding cur using okc p fit False by (auto intro: chain_write)
  define ms where "ms = with_chain ns (ba_cur c) chain"
  define ba' where "ba' = c\<lparr>ba_nodes := ms, ba_cur := walk ms (ba_cur c) ((p mod b + length buf) div b),
    ba_position := p + length buf,
    ba_size := (if p + length buf > ba_size c then p + length buf else ba_size c)\<rparr>"
  have run: "ba_write ba buf = Inr ba'"
    using False c(1) okc chain(1)
    by (simp add: ba_write_def Let_def ba'_def ms_def b_def [symmetric] p_def [symmetric]
        ns_def [symmetric])
  have walk: "walk ms (ba_cur c) ((p mod b + length buf) div b) =
      (if p + length buf < b * length ms then Some ((p + length buf) div b) else None)"
    using block_step [of b p "length ms" "length buf" ms] p fit chain(4) cur okc
    by (simp add: ms_def)
  have "ba_ok ba'"
    using okc fit walk chain(3,4) by (auto simp: ba_ok_def ba'_def b_def ms_def)
  moreover have "ba_contents ba' = overwrite (ba_contents c) p buf"
  proof -
    have "ba_size ba' = max (ba_size c) (p + length buf)" by (simp add: ba'_def max_def)
    then have "ba_contents ba' = take (max (ba_size c) (p + length buf)) (concat ms)"
      by (simp add: ba_contents_def ba'_def)
    also have "\<dots> = overwrite (take (ba_size c) (concat ns)) p buf"
      unfolding ms_def chain(2)
      by (rule take_overwrite_grow) (use okc concat_length_const [of ns b] in auto)
    finally show ?thesis by (simp add: ba_contents_def ns_def)
  qed
  ultimately show ?thesis
    using that [OF run] c by (simp add: ba'_def p_def max_def)
qed

lemma ba_read_spec:
  assumes ok: "ba_ok ba" and n: "n \<le> ba_size ba - ba_position ba"
    and cur: "0 < n \<or> ba_position ba < ba_capacity ba"
  obtains ba' where
    "ba_read ba n = Inr (take n (drop (ba_position ba) (ba_contents ba)), ba')" "ba_ok ba'"
    "ba' = ba\<lparr>ba_position := ba_position ba + n, ba_cur := ba_cur ba'\<rparr>"
proof -
  define b where "b = ba_baseSize ba"
  define p where "p = ba_position ba"
  define ns where "ns = ba_nodes ba"
  note okc = ok [unfolded ba_ok_def, folded b_def p_def ns_def]
  have p: "p < b * length ns" and fit: "p + n \<le> b * length ns"
    using cur n okc by (auto simp: p_def)
  have c: "ba_cur ba = Some (p div b)" using okc p by simp
  have run: "read_loop (chain_from ns (ba_cur ba)) (p mod b) n =
      Inr (take n (drop p (concat ns)), (p mod b + n) div b)"
    unfolding c using okc p fit by (auto intro: chain_read)
  have bytes: "take n (drop p (ba_contents ba)) = take n (drop p (concat ns))"
    using n by (simp add: ba_contents_def p_def ns_def drop_take min_def)
  define ba' where "ba' = ba\<lparr>ba_position := p + n, ba_cur := walk ns (ba_cur ba) ((p mod b + n) div b)\<rparr>"
  have "ba_read ba n = Inr (take n (drop p (ba_contents ba)), ba')"
    using n run okc bytes
    by (simp add: ba_read_def getReadSize_ok [OF ok] Let_def ba'_def b_def [symmetric]
        p_def [symmetric] ns_def [symmetric])
  moreover have "walk ns (ba_cur ba) ((p mod b + n) div b) =
      (if p + n < b * length ns then Some ((p + n) div b) else None)"
    unfolding c by (rule block_step) (use okc p fit in auto)
  then have "ba_ok ba'"
    using okc n by (auto simp: ba_ok_def ba'_def b_def p_def ns_def)
  ultimately show ?thesis using that [of ba'] by (simp add: p_def ba'_def)
qed

lemma setPosition_spec:
  assumes ok: "ba_ok ba" and v: "v \<le> ba_capacity ba"
  obtains ba' where "setPosition ba v = Inr ba'" "ba_ok ba'"
    "ba' = ba\<lparr>ba_position := v, ba_size := max (ba_size ba) v, ba_cur := ba_cur ba'\<rparr>"
proof -
  note okc = ok [unfolded ba_ok_def]
  have "seek_loop (ba_nodes ba) 0 v =
      Inr (if v < ba_capacity ba then Some (v div ba_baseSize ba) else None)"
    using seek_loop_spec [of "ba_nodes ba" "ba_baseSize ba" v 0] okc v by simp
  then have run: "setPosition ba v = Inr (ba\<lparr>ba_position := v, ba_size := max (ba_size ba) v,
      ba_cur := (if v < ba_capacity ba then Some (v div ba_baseSize ba) else None)\<rparr>)"
    using v by (simp add: setPosition_def max_def)
  show ?thesis
    by (rule that [OF run]) (use okc v in \<open>auto simp: ba_ok_def\<close>)
qed

lemma setPosition_contents:
  assumes "ba_ok ba" "v \<le> ba_size ba" "setPosition ba v = Inr ba'"
  shows "ba_ok ba'" "ba_contents ba' = ba_contents ba" "ba_position ba' = v"
    "ba_size ba' = ba_size ba" "ba_endian ba' = ba_endian ba" "ba_capacity ba' = ba_capacity ba"
    "ba_baseSize ba' = ba_baseSize ba"
proof -
  have "v \<le> ba_capacity ba" using assms(1,2) by (auto simp: ba_ok_def)
  from setPosition_spec [OF assms(1) this] assms(3) obtain "ba_ok ba'"
    and e: "ba' = ba\<lparr>ba_position := v, ba_size := max (ba_size ba) v, ba_cur := ba_cur ba'\<rparr>"
    by auto
  then show "ba_ok ba'" by simp
  show "ba_contents ba' = ba_contents ba" "ba_position ba' = v" "ba_size ba' = ba_size ba"
    "ba_endian ba' = ba_endian ba" "ba_capacity ba' = ba_capacity ba"
    "ba_baseSize ba' = ba_baseSize ba"
    using assms(2) by (subst e; simp add: ba_contents_def max_def)+
qed

lemma setPosition_error: "v > ba_capacity ba \<Longrightarrow> setPosition ba v = Inl OutOfRange"
  by (simp add: setPosition_def)

lemma ba_clear_ok [ba_intros]: "ba_ok ba \<Longrightarrow> ba_ok (ba_clear ba)"
  by (auto simp: ba_ok_def ba_clear_def take_Suc neq_Nil_conv)

lemma ba_clear_contents: "ba_contents (ba_clear ba) = []"
  by (simp add: ba_contents_def ba_clear_def)

lemma setIsLittleEndian_ok [ba_intros]: "ba_ok ba \<Longrightarrow> ba_ok (setIsLittleEndian ba v)"
  by (simp add: ba_ok_def setIsLittleEndian_def)

lemma setIsLittleEndian_contents: "ba_contents (setIsLittleEndian ba v) = ba_contents ba"
  by (simp add: ba_contents_def setIsLittleEndian_def)

text \<open>\<open>toString\<close> is the unread part of the contents and leaves the buffer alone.\<close>

lemma ba_toString_spec:
  assumes ok: "ba_ok ba"
  shows "ba_toString ba = Inr (drop (ba_position ba) (ba_contents ba))"
proof (cases "ba_size ba = ba_position ba")
  case True
  with ok show ?thesis
    by (simp add: ba_toString_def getReadSize_ok length_ba_contents)
next
  case False
  note okc = ok [unfolded ba_ok_def]
  from False okc have lt: "ba_position ba < ba_size ba" by simp
  have "read_loop (chain_from (ba_nodes ba) (ba_cur ba)) (ba_position ba mod ba_baseSize ba)
      (ba_size ba - ba_position ba) =
    Inr (take (ba_size ba - ba_position ba) (drop (ba_position ba) (concat (ba_nodes ba))),
      (ba_position ba mod ba_baseSize ba + (ba_size ba - ba_position ba)) div ba_baseSize ba)"
    using chain_read [of "ba_nodes ba" "ba_baseSize ba" "ba_position ba"] okc lt by simp
  with lt okc show ?thesis
    by (simp add: ba_toString_def ba_read_at_def getReadSize_ok [OF ok] Let_def
        ba_contents_def drop_take)
qed

subsection \<open>Gathered buffers\<close>

definition iov_bytes :: "node list \<Rightarrow> iovec \<Rightarrow> cell list" where
  "iov_bytes nodes v = take (iov_len v) (drop (iov_off v) (nodes ! iov_node v))"

lemma iov_bytes_block [simp]:
  "iov_bytes (pre @ n # ns) \<lparr>iov_node = length pre, iov_off = j, iov_len = l\<rparr> = take l (drop j n)"
  by (simp add: iov_bytes_def)

text \<open>Every vector lies inside its block, and together they are the bytes of the range.\<close>

lemma iov_loop_spec:
  assumes "\<forall>n \<in> set ns. length n = b" "npos < b" "npos + len \<le> b * length ns" "ns \<noteq> []"
  obtains iovs where "iov_loop ns (length pre) npos len = Inr iovs"
    "concat (map (iov_bytes (pre @ ns)) iovs) = take len (drop npos (concat ns))"
    "\<forall>v \<in> set iovs. iov_node v < length (pre @ ns) \<and> 0 < iov_len v \<and> iov_off v + iov_len v \<le> b"
    "sum_list (map iov_len iovs) = len"
  using assms
proof (induction ns arbitrary: pre npos len thesis)
  case Nil
  then show ?case by simp
next
  case (Cons n ns)
  from Cons.prems have n: "length n = b" and ns: "\<forall>n \<in> set ns. length n = b" by auto
  consider "len = 0" | "0 < len" "len \<le> b - npos" | "b - npos < len" by linarith
  then show ?case
  proof cases
    case 1
    then show ?thesis by (intro Cons.prems(1) [of "[]"]) (simp_all add: Let_def)
  next
    case 2
    with n Cons.prems(3) show ?thesis
      by (intro Cons.prems(1) [of "[\<lparr>iov_node = length pre, iov_off = npos, iov_len = len\<rparr>]"])
        (auto simp: Let_def)
  next
    case 3
    then have "ns \<noteq> []" "0 + (len - (b - npos)) \<le> b * length ns"
      using Cons.prems(3,4) by auto
    moreover have "0 < b" using Cons.prems(3) by simp
    ultimately obtain iovs where IH:
      "iov_loop ns (length (pre @ [n])) 0 (len - (b - npos)) = Inr iovs"
      "concat (map (iov_bytes ((pre @ [n]) @ ns)) iovs) = take (len - (b - npos)) (drop 0 (concat ns))"
      "\<forall>v \<in> set iovs. iov_node v < length ((pre @ [n]) @ ns) \<and> 0 < iov_len v \<and> iov_off v + iov_len v \<le> b"
      "sum_list (map iov_len iovs) = len - (b - npos)"
      using Cons.IH [of "pre @ [n]" 0 "len - (b - npos)"] ns by blast
    with 3 n Cons.prems(3) show ?thesis
      by (intro Cons.prems(1) [of "\<lparr>iov_node = length pre, iov_off = npos, iov_len = b - npos\<rparr> # iovs"])
        (auto simp: Let_def)
  qed
qed

lemma chain_iov:
  assumes lens: "\<forall>n \<in> set ns. length n = b" and b: "0 < b"
    and p: "p < b * length ns" and fit: "p + len \<le> b * length ns"
  obtains iovs where "iov_loop (drop (p div b) ns) (p div b) (p mod b) len = Inr iovs"
    "concat (map (iov_bytes ns) iovs) = take len (drop p (concat ns))"
    "\<forall>v \<in> set iovs. iov_node v < length ns \<and> 0 < iov_len v \<and> iov_off v + iov_len v \<le> b"
    "sum_list (map iov_len iovs) = len"
proof -
  have k: "p div b < length ns" using p b by (simp add: less_mult_imp_div_less mult.commute)
  have pdm: "b * (p div b) + p mod b = p" by simp
  have "b * length (drop (p div b) ns) = b * length ns - b * (p div b)"
    by (simp add: diff_mult_distrib2)
  then have "p mod b + len \<le> b * length (drop (p div b) ns)" using fit pdm by linarith
  moreover have "\<forall>n \<in> set (drop (p div b) ns). length n = b"
    using lens by (meson in_set_dropD)
  moreover have "drop (p div b) ns \<noteq> []" "p mod b < b" using k b by auto
  ultimately obtain iovs where
    "iov_loop (drop (p div b) ns) (length (take (p div b) ns)) (p mod b) len = Inr iovs"
    "concat (map (iov_bytes (take (p div b) ns @ drop (p div b) ns)) iovs) =
      take len (drop (p mod b) (concat (drop (p div b) ns)))"
    "\<forall>v \<in> set iovs. iov_node v < length (take (p div b) ns @ drop (p div b) ns) \<and>
      0 < iov_len v \<and> iov_off v + iov_len v \<le> b"
    "sum_list (map iov_len iovs) = len"
    using iov_loop_spec by metis
  moreover have "drop (p mod b) (concat (drop (p div b) ns)) = drop p (concat ns)"
    using pdm by (simp only: concat_drop_const [OF lens] drop_drop add.commute)
  ultimately show ?thesis using that k by (simp add: min_def)
qed

lemma getReadBuffers_spec:
  assumes ok: "ba_ok ba"
  obtains iovs where
    "getReadBuffers ba len = Inr (iovs, min len (ba_size ba - ba_position ba))"
    "concat (map (iov_bytes (ba_nodes ba)) iovs) =
      take len (drop (ba_position ba) (ba_contents ba))"
    "\<forall>v \<in> set iovs. iov_node v < length (ba_nodes ba) \<and> 0 < iov_len v \<and>
      iov_off v + iov_len v \<le> ba_baseSize ba"
proof -
  define m where "m = min len (ba_size ba - ba_position ba)"
  note okc = ok [unfolded ba_ok_def]
  have bytes: "take len (drop (ba_position ba) (ba_contents ba)) =
      take m (drop (ba_position ba) (concat (ba_nodes ba)))"
    by (simp add: ba_contents_def m_def drop_take take_drop [symmetric] min.commute)
  have m: "(if len > getReadSize ba then getReadSize ba else len) = m"
    by (simp add: getReadSize_ok [OF ok] m_def min_def)
  have run: "getReadBuffers ba len =
      (if m = 0 then Inr ([], 0)
       else if ba_baseSize ba = 0 then Inl DivByZero
       else bindR (iov_loop (chain_from (ba_nodes ba) (ba_cur ba))
                (case ba_cur ba of None \<Rightarrow> 0 | Some k \<Rightarrow> k)
                (ba_position ba mod ba_baseSize ba) m)
         (\<lambda>iovs. Inr (iovs, m)))"
    by (simp only: getReadBuffers_def Let_def m)
  show ?thesis
  proof (cases "m = 0")
    case True
    then show ?thesis using that [of "[]"] run bytes by (simp add: m_def [symmetric])
  next
    case False
    then have p: "ba_position ba < ba_capacity ba" and fit: "ba_position ba + m \<le> ba_capacity ba"
      using okc by (auto simp: m_def)
    then obtain iovs where
      "iov_loop (drop (ba_position ba div ba_baseSize ba) (ba_nodes ba))
        (ba_position ba div ba_baseSize ba) (ba_position ba mod ba_baseSize ba) m = Inr iovs"
      "concat (map (iov_bytes (ba_nodes ba)) iovs) =
        take m (drop (ba_position ba) (concat (ba_nodes ba)))"
      "\<forall>v \<in> set iovs. iov_node v < length (ba_nodes ba) \<and> 0 < iov_len v \<and>
        iov_off v + iov_len v \<le> ba_baseSize ba"
      using chain_iov [of "ba_nodes ba" "ba_baseSize ba" "ba_position ba" m] okc by metis
    with False p okc m bytes show ?thesis
      by (intro that [of iovs]) (simp_all add: run chain_from_def m_def [symmetric])
  qed
qed

lemma getWriteBuffers_spec:
  assumes ok: "ba_ok ba"
  obtains iovs ba' where "getWriteBuffers ba len = Inr (iovs, len, ba')" "ba_ok ba'"
    "ba_contents ba' = ba_contents ba" "ba_position ba' = ba_position ba"
    "ba_position ba + len \<le> ba_capacity ba'"
    "sum_list (map iov_len iovs) = len"
    "\<forall>v \<in> set iovs. iov_node v < length (ba_nodes ba') \<and> 0 < iov_len v \<and>
      iov_off v + iov_len v \<le> ba_baseSize ba'"
proof (cases "len = 0")
  case True
  with ok ba_okD(7) [OF ok] that [of "[]" ba] show ?thesis by (simp add: getWriteBuffers_def)
next
  case False
  from addCapacity_spec [OF ok] obtain c where c: "addCapacity ba len = Inr c"
    "ba_ok c" "ba_position ba + len \<le> ba_capacity c"
    "ba_position c = ba_position ba" "ba_contents c = ba_contents ba" by metis
  note okc = c(2) [unfolded ba_ok_def]
  have p: "ba_position c < ba_capacity c" using c(3,4) False by simp
  then obtain iovs where
    "iov_loop (drop (ba_position c div ba_baseSize c) (ba_nodes c))
      (ba_position c div ba_baseSize c) (ba_position c mod ba_baseSize c) len = Inr iovs"
    "\<forall>v \<in> set iovs. iov_node v < length (ba_nodes c) \<and> 0 < iov_len v \<and>
      iov_off v + iov_len v \<le> ba_baseSize c"
    "sum_list (map iov_len iovs) = len"
    using chain_iov [of "ba_nodes c" "ba_baseSize c" "ba_position c" len] okc c(3,4) by metis
  with False p okc c show ?thesis
    by (intro that [of iovs c]) (simp_all add: getWriteBuffers_def chain_from_def)
qed

subsection \<open>Files\<close>

lemma overwrite_overwrite:
  "p \<le> length c \<Longrightarrow> overwrite (overwrite c p xs) (p + length xs) ys = overwrite c p (xs @ ys)"
  by (simp add: overwrite_def ac_simps)

lemma readFile_loop_spec:
  assumes "ba_ok ba"
  shows "\<exists>ba'. readFile_loop ba (ba_baseSize ba) fb = Inr ba' \<and> ba_ok ba' \<and>
    ba_contents ba' = overwrite (ba_contents ba) (ba_position ba) (map Some fb) \<and>
    ba_position ba' = ba_position ba + length fb"
  using assms
proof (induction ba "ba_baseSize ba" fb rule: readFile_loop.induct)
  case (1 ba fb)
  have base: "ba_baseSize ba \<noteq> 0" using ba_okD(1) [OF "1.prems"] by simp
  show ?case
  proof (cases "length fb < ba_baseSize ba")
    case True
    from ba_write_spec [OF "1.prems", of "map Some fb"] True base show ?thesis
      by (subst readFile_loop.simps) (metis length_map)
  next
    case False
    from ba_write_spec [OF "1.prems", of "map Some (take (ba_baseSize ba) fb)"] obtain c where
      c: "ba_write ba (map Some (take (ba_baseSize ba) fb)) = Inr c" "ba_ok c"
        "ba_contents c = overwrite (ba_contents ba) (ba_position ba) (map Some (take (ba_baseSize ba) fb))"
        "ba_position c = ba_position ba + ba_baseSize ba" "ba_baseSize c = ba_baseSize ba"
      using False by (metis length_map length_take min.absorb2 not_less)
    from "1.hyps" [OF base False c(1) c(5) [symmetric] c(2)] obtain d where
      d: "readFile_loop c (ba_baseSize ba) (drop (ba_baseSize ba) fb) = Inr d" "ba_ok d"
        "ba_contents d = overwrite (ba_contents c) (ba_position c) (map Some (drop (ba_baseSize ba) fb))"
        "ba_position d = ba_position c + length (drop (ba_baseSize ba) fb)"
      using c(5) by auto
    have "ba_contents d = overwrite (ba_contents ba) (ba_position ba) (map Some fb)"
      using overwrite_overwrite [of "ba_position ba" "ba_contents ba"
          "map Some (take (ba_baseSize ba) fb)" "map Some (drop (ba_baseSize ba) fb)"]
        False c(3,4) d(3) ba_okD(5) [OF "1.prems"] length_ba_contents [OF "1.prems"]
      by (simp add: map_append [symmetric] del: map_append)
    with False base c d show ?thesis
      by (subst readFile_loop.simps) simp
  qed
qed

lemma readFromFile_spec:
  assumes "ba_ok ba"
  obtains ba' where "readFromFile ba (Some fb) = Inr (True, ba')" "ba_ok ba'"
    "ba_contents ba' = overwrite (ba_contents ba) (ba_position ba) (map Some fb)"
    "ba_position ba' = ba_position ba + length fb"
  using readFile_loop_spec [OF assms, of fb] by (auto simp: readFromFile_def)

lemma file_loop_done: "rs \<le> 0 \<Longrightarrow> file_loop ns b p rs = Inr []"
  by (cases ns) auto

lemma file_loop_aligned:
  assumes "\<forall>n \<in> set ns. length n = b" "0 < b" "p mod int b = 0" "rs \<le> b * length ns"
  shows "file_loop ns b p (int rs) = Inr (take rs (concat ns))"
  using assms
proof (induction ns arbitrary: p rs)
  case Nil
  then show ?case by simp
next
  case (Cons n ns)
  then have n: "length n = b" and ns: "\<forall>n \<in> set ns. length n = b" by auto
  consider "rs = 0" | "0 < rs" "rs \<le> b" | "b < rs" by linarith
  then show ?case
  proof cases
    case 3
    have "(p + int b) mod int b = 0" using Cons.prems(3) by simp
    moreover have "rs - b \<le> b * length ns" using Cons.prems(4) by simp
    ultimately have "file_loop ns b (p + int b) (int (rs - b)) = Inr (take (rs - b) (concat ns))"
      by (intro Cons.IH ns Cons.prems(2))
    moreover have "int (rs - b) = int rs - int b" using 3 by simp
    ultimately show ?thesis using 3 n Cons.prems(2,3) by (simp add: Let_def)
  qed (use Cons.prems n in \<open>auto simp: Let_def file_loop_done\<close>)
qed

lemma file_loop_first_block:
  assumes "\<forall>n \<in> set ns. length n = b" "0 < b" "ns \<noteq> []" "b \<le> rs"
    "nat (p mod int b) + rs \<le> b * length ns"
  shows "file_loop ns b p (int rs) = Inr (take rs (drop (nat (p mod int b)) (concat ns)))"
proof -
  obtain n ms where ns: "ns = n # ms" using assms(3) by (cases ns) auto
  define d where "d = nat (p mod int b)"
  have d: "int d = p mod int b" "d < b"
    using assms(2) by (simp_all add: d_def nat_less_iff)
  have n: "length n = b" using assms(1) ns by simp
  have "(p + (int b - int d)) mod int b = 0"
    using d(1) by (metis add.commute add_diff_eq diff_add_cancel mod_add_self1 mod_diff_right_eq mod_self diff_self mod_0 add_diff_cancel_left')
  moreover have "rs - (b - d) \<le> b * length ms" using assms(5) ns d by (simp add: d_def)
  ultimately have "file_loop ms b (p + (int b - int d)) (int (rs - (b - d))) =
      Inr (take (rs - (b - d)) (concat ms))"
    using assms(1,2) ns by (intro file_loop_aligned) auto
  moreover have "int (rs - (b - d)) = int rs - (int b - int d)" using assms(4) d(2) by simp
  ultimately have rest: "file_loop ms b (p + (int b - p mod int b)) (int rs - (int b - p mod int b)) =
      Inr (take (rs - (b - d)) (concat ms))"
    by (simp only: d(1))
  have len: "(if b < rs then int b else int rs) = int b" using assms(4) by simp
  have "nat (int b - p mod int b) = b - d" using d by (simp add: nat_diff_distrib flip: d(1))
  moreover have "0 < rs" "\<not> int b < p mod int b" using assms(2,4) by (auto simp: not_less order_less_imp_le)
  ultimately have "file_loop ns b p (int rs) =
      Inr (take (b - d) (drop d n) @ take (rs - (b - d)) (concat ms))"
    by (simp add: ns Let_def len rest d_def [symmetric])
  then show ?thesis
    using assms(4) d(2) n by (simp add: ns d_def [symmetric])
qed

lemma file_loop_stuck:
  assumes "0 < rs" "rs < int b" "rs \<le> p mod int b"
  shows "\<exists>e. file_loop ns b p rs = Inl e"
  using assms
proof (induction ns arbitrary: p rs)
  case Nil
  then show ?case by simp
next
  case (Cons n ns)
  show ?case
  proof (cases "rs = p mod int b")
    case True
    with Cons.prems Cons.IH [of rs p] show ?thesis by (auto simp: Let_def)
  next
    case False
    with Cons.prems show ?thesis by (auto simp: Let_def)
  qed
qed

lemma file_loop_short:
  assumes "0 < rs" "rs < int b" "p mod int b \<noteq> 0"
  shows "\<exists>e. file_loop ns b p rs = Inl e"
proof (cases ns)
  case Nil
  with assms(1) show ?thesis by simp
next
  case (Cons n ms)
  define d where "d = p mod int b"
  have "0 < int b" using assms by simp
  then have "0 \<le> d" "d < int b" by (simp_all add: d_def)
  with assms(3) have d: "0 < d" "d < int b" by (simp_all add: d_def)
  show ?thesis
  proof (cases "rs < d")
    case True
    with Cons assms(1,2) show ?thesis by (simp add: Let_def d_def)
  next
    case False
    have "(p + (rs - d)) mod int b = rs"
      using assms(1,2) by (simp add: d_def mod_diff_right_eq [symmetric])
        (metis add.commute add_diff_eq diff_add_cancel mod_diff_right_eq mod_pos_pos_trivial order_less_imp_le)
    then have "\<exists>e. file_loop ms b (p + (rs - d)) d = Inl e"
      using d False by (intro file_loop_stuck) auto
    with False Cons assms(1,2) show ?thesis by (auto simp: Let_def d_def)
  qed
qed

text \<open>
  \<open>writeToFile\<close> writes the unread bytes exactly when the position is at the start of a
  block or a whole block is left to read; otherwise its length computation goes
  wrong and it runs off the chain or asks for a negative length.
\<close>

lemma writeToFile_spec:
  assumes ok: "ba_ok ba"
  shows "(\<exists>out. writeToFile ba True = Inr (True, out)) \<longleftrightarrow>
      ba_position ba mod ba_baseSize ba = 0 \<or> ba_size ba = ba_position ba \<or>
      ba_baseSize ba \<le> ba_size ba - ba_position ba" (is "?run \<longleftrightarrow> ?good")
    and "writeToFile ba True = Inr (True, out) \<Longrightarrow> ba_toString ba = Inr out"
proof -
  define b p rs where "b = ba_baseSize ba" and "p = ba_position ba"
    and "rs = ba_size ba - ba_position ba"
  define ns where "ns = chain_from (ba_nodes ba) (ba_cur ba)"
  note okc = ok [unfolded ba_ok_def, folded b_def p_def]
  have W: "writeToFile ba True = bindR (file_loop ns b (int p) (int rs)) (\<lambda>out. Inr (True, out))"
    using okc by (simp add: writeToFile_def getReadSize_ok [OF ok] b_def p_def rs_def ns_def)
  have m: "int p mod int b = int (p mod b)" by (simp add: zmod_int)
  have bad: "\<exists>e. file_loop ns b (int p) (int rs) = Inl e" if "\<not> ?good"
    using that okc by (intro file_loop_short) (auto simp: m rs_def p_def b_def)
  have good: "file_loop ns b (int p) (int rs) = Inr (drop p (ba_contents ba))" if ?good
  proof (cases "rs = 0")
    case True
    with okc show ?thesis by (simp add: file_loop_done ba_contents_def p_def rs_def)
  next
    case False
    then have lt: "p < ba_capacity ba" using okc by (simp add: rs_def p_def)
    have lens: "\<forall>n \<in> set ns. length n = b" using okc lt
      by (auto simp: ns_def chain_from_def dest: in_set_dropD)
    have k: "p div b < length (ba_nodes ba)" using okc lt
      by (simp add: less_mult_imp_div_less mult.commute)
    have ns_eq: "ns = drop (p div b) (ba_nodes ba)"
      using okc lt by (simp add: ns_def chain_from_def)
    have fit: "p mod b + rs \<le> b * length ns"
    proof -
      have "b * length ns = b * length (ba_nodes ba) - b * (p div b)"
        by (simp add: ns_eq diff_mult_distrib2)
      moreover have "b * (p div b) + p mod b = p" by simp
      moreover have "p + rs \<le> b * length (ba_nodes ba)" using okc by (simp add: rs_def p_def)
      ultimately show ?thesis by linarith
    qed
    have "file_loop ns b (int p) (int rs) = Inr (take rs (drop (p mod b) (concat ns)))"
    proof (cases "p mod b = 0")
      case True
      then show ?thesis using file_loop_aligned [of ns b "int p" rs] lens okc fit m by simp
    next
      case False
      with that \<open>rs \<noteq> 0\<close> have "b \<le> rs" by (auto simp: rs_def p_def b_def)
      then show ?thesis
        using file_loop_first_block [of ns b rs "int p"] lens okc fit m k ns_eq by simp
    qed
    also have "drop (p mod b) (concat ns) = drop p (concat (ba_nodes ba))"
    proof -
      have "b * (p div b) + p mod b = p" by simp
      moreover have "concat ns = drop (b * (p div b)) (concat (ba_nodes ba))"
        using okc by (simp add: ns_eq concat_drop_const)
      ultimately show ?thesis by (simp add: add.commute)
    qed
    finally show ?thesis by (simp add: ba_contents_def rs_def p_def drop_take)
  qed
  show "?run \<longleftrightarrow> ?good" using W good bad by fastforce
  show "ba_toString ba = Inr out" if "writeToFile ba True = Inr (True, out)"
    using that W good bad by (fastforce simp: ba_toString_spec [OF ok] p_def)
qed

subsection \<open>What the cursor does to the other readers\<close>

text \<open>
  The positional \<open>read\<close> starts at \<open>m_cur\<close>: it is right for positions in the cursor's block.
\<close>

lemma ba_read_at_same_block:
  assumes ok: "ba_ok ba" and pos: "position + n \<le> ba_size ba"
    and blk: "position div ba_baseSize ba = ba_position ba div ba_baseSize ba"
    and cur: "ba_position ba < ba_capacity ba"
  shows "ba_read_at ba n position = Inr (take n (drop position (ba_contents ba)))"
proof -
  note okc = ok [unfolded ba_ok_def]
  have "ba_position ba div ba_baseSize ba < length (ba_nodes ba)"
    using cur okc by (simp add: less_mult_imp_div_less mult.commute)
  then have "position < ba_capacity ba"
    using okc by (simp add: blk [symmetric] div_less_iff_less_mult mult.commute)
  moreover have "position + n \<le> ba_capacity ba" using pos okc by simp
  ultimately have "read_loop (chain_from (ba_nodes ba) (Some (position div ba_baseSize ba)))
      (position mod ba_baseSize ba) n =
    Inr (take n (drop position (concat (ba_nodes ba))), (position mod ba_baseSize ba + n) div ba_baseSize ba)"
    using okc by (intro chain_read) auto
  with okc pos blk cur show ?thesis
    by (simp add: ba_read_at_def Let_def ba_contents_def drop_take min_def)
qed

text \<open>Reading nothing at the very end of the capacity dereferences the null cursor.\<close>

lemma ba_read_nothing_at_capacity:
  "ba_ok ba \<Longrightarrow> ba_position ba = ba_capacity ba \<Longrightarrow> ba_read ba 0 = Inl NullDeref"
  by (simp add: ba_read_def ba_ok_def Let_def chain_from_def)

subsection \<open>The interface the users of the buffer rely on\<close>

text \<open>
  A byte store: flat contents, a position, and an attribute (here the byte order) that
  reading, writing and seeking leave alone.
\<close>

locale byte_store =
  fixes inv :: "'b \<Rightarrow> bool"
    and contents :: "'b \<Rightarrow> cell list"
    and pos :: "'b \<Rightarrow> nat"
    and tag :: "'b \<Rightarrow> 't"
    and put :: "'b \<Rightarrow> cell list \<Rightarrow> 'e + 'b"
    and get :: "'b \<Rightarrow> nat \<Rightarrow> 'e + (cell list \<times> 'b)"
    and seek :: "'b \<Rightarrow> nat \<Rightarrow> 'e + 'b"
  assumes pos_le: "inv b \<Longrightarrow> pos b \<le> length (contents b)"
    and put_law: "inv b \<Longrightarrow> \<exists>b'. put b bs = Inr b' \<and> inv b' \<and> tag b' = tag b \<and>
      contents b' = overwrite (contents b) (pos b) bs \<and> pos b' = pos b + length bs"
    and get_law: "inv b \<Longrightarrow> 0 < n \<Longrightarrow> n \<le> length (contents b) - pos b \<Longrightarrow>
      \<exists>b'. get b n = Inr (take n (drop (pos b) (contents b)), b') \<and> inv b' \<and> tag b' = tag b \<and>
        contents b' = contents b \<and> pos b' = pos b + n"
    and seek_law: "inv b \<Longrightarrow> p \<le> length (contents b) \<Longrightarrow>
      \<exists>b'. seek b p = Inr b' \<and> inv b' \<and> tag b' = tag b \<and> contents b' = contents b \<and> pos b' = p"
begin

definition upcoming :: "'b \<Rightarrow> cell list \<Rightarrow> bool" where
  "upcoming b bs \<longleftrightarrow> inv b \<and> (\<exists>rest. drop (pos b) (contents b) = bs @ rest)"

lemma upcoming_inv: "upcoming b bs \<Longrightarrow> inv b"
  by (simp add: upcoming_def)

lemma upcoming_prefix: "upcoming b (xs @ ys) \<Longrightarrow> upcoming b xs"
  by (auto simp: upcoming_def)

lemma get_upcoming:
  assumes up: "upcoming b (xs @ ys)" and ne: "xs \<noteq> []"
  obtains b' where "get b (length xs) = Inr (xs, b')" "upcoming b' ys" "tag b' = tag b"
    "contents b' = contents b" "pos b' = pos b + length xs"
proof -
  from up obtain rest where inv: "inv b" and rest: "drop (pos b) (contents b) = xs @ ys @ rest"
    by (auto simp: upcoming_def)
  have "length xs \<le> length (contents b) - pos b"
    using rest by (metis length_append length_drop le_add1)
  with get_law [OF inv, of "length xs"] ne rest obtain b' where
    b': "get b (length xs) = Inr (xs, b')" "inv b'" "tag b' = tag b" "contents b' = contents b"
      "pos b' = pos b + length xs" by auto
  have "drop (pos b') (contents b') = ys @ rest"
    using rest b'(4,5) by (metis append_eq_conv_conj drop_drop add.commute)
  with b' show ?thesis using that by (auto simp: upcoming_def)
qed

lemma put_seek_upcoming:
  assumes "inv b" "put b bs = Inr b1" "seek b1 (pos b) = Inr b2"
  shows "upcoming b2 bs" "tag b2 = tag b" "pos b2 = pos b" "contents b2 = contents b1"
proof -
  from put_law [OF assms(1), of bs] assms(2) have b1: "inv b1" "tag b1 = tag b"
    "contents b1 = overwrite (contents b) (pos b) bs" "pos b1 = pos b + length bs" by auto
  have le: "pos b \<le> length (contents b1)" using pos_le [OF b1(1)] b1(4) by simp
  from seek_law [OF b1(1) le] assms(3) have b2: "inv b2" "tag b2 = tag b1"
    "contents b2 = contents b1" "pos b2 = pos b" by auto
  have "drop (pos b2) (contents b2) = bs @ drop (pos b + length bs) (contents b)"
    using pos_le [OF assms(1)] b1(3) b2(3,4) by (simp add: overwrite_def)
  with b1 b2 show "upcoming b2 bs" "tag b2 = tag b" "pos b2 = pos b" "contents b2 = contents b1"
    by (auto simp: upcoming_def)
qed

lemma put_seek_total:
  assumes "inv b"
  obtains b1 b2 where "put b bs = Inr b1" "seek b1 (pos b) = Inr b2" "inv b1"
proof -
  from put_law [OF assms, of bs] obtain b1 where b1: "put b bs = Inr b1" "inv b1"
    "contents b1 = overwrite (contents b) (pos b) bs" by auto
  have "pos b \<le> length (contents b1)"
    using pos_le [OF assms] b1(3) by (simp add: length_overwrite_max)
  from seek_law [OF b1(2) this] show ?thesis using that b1 by blast
qed

lemma put_put:
  assumes "inv b" "put b xs = Inr b1" "put b1 ys = Inr b2"
  shows "\<exists>b3. put b (xs @ ys) = Inr b3 \<and> inv b3 \<and> inv b2 \<and> tag b2 = tag b \<and> tag b3 = tag b \<and>
    contents b2 = contents b3 \<and> pos b2 = pos b3"
proof -
  from put_law [OF assms(1), of xs] assms(2) have b1: "inv b1" "tag b1 = tag b"
    "contents b1 = overwrite (contents b) (pos b) xs" "pos b1 = pos b + length xs" by auto
  from put_law [OF b1(1), of ys] assms(3) have b2: "inv b2" "tag b2 = tag b1"
    "contents b2 = overwrite (contents b1) (pos b1) ys" "pos b2 = pos b1 + length ys" by auto
  from put_law [OF assms(1), of "xs @ ys"] obtain b3 where b3: "put b (xs @ ys) = Inr b3" "inv b3"
    "tag b3 = tag b" "contents b3 = overwrite (contents b) (pos b) (xs @ ys)"
    "pos b3 = pos b + length (xs @ ys)" by auto
  have "contents b2 = contents b3"
    using b1(3,4) b2(3) b3(4) overwrite_overwrite [OF pos_le [OF assms(1)]] by simp
  with b1 b2 b3 show ?thesis by auto
qed

lemma two_puts_seek_upcoming:
  assumes "inv b" "put b xs = Inr b1" "put b1 ys = Inr b2" "seek b2 (pos b) = Inr b3"
  shows "upcoming b3 (xs @ ys)" "tag b3 = tag b" "pos b3 = pos b" "contents b3 = contents b2"
proof -
  from put_put [OF assms(1-3)] obtain b4 where b4: "put b (xs @ ys) = Inr b4" "inv b4" "inv b2"
    "tag b2 = tag b" "tag b4 = tag b" "contents b2 = contents b4" by auto
  from put_law [OF assms(1), of "xs @ ys"] b4(1) have c4:
    "contents b4 = overwrite (contents b) (pos b) (xs @ ys)" by auto
  have le: "pos b \<le> length (contents b2)"
    using pos_le [OF assms(1)] b4(6) c4 by (simp add: length_overwrite_max)
  from seek_law [OF b4(3) le] assms(4) have b3: "inv b3" "tag b3 = tag b2"
    "contents b3 = contents b2" "pos b3 = pos b" by auto
  have "drop (pos b3) (contents b3) = (xs @ ys) @ drop (pos b + length (xs @ ys)) (contents b)"
    using pos_le [OF assms(1)] c4 b3(3,4) b4(6) by (simp add: overwrite_def)
  with b3 b4 show "upcoming b3 (xs @ ys)" "tag b3 = tag b" "pos b3 = pos b"
    "contents b3 = contents b2" by (auto simp: upcoming_def)
qed

end

lemma ba_write_law:
  "ba_ok b \<Longrightarrow> \<exists>b'. ba_write b bs = Inr b' \<and> ba_ok b' \<and> ba_endian b' = ba_endian b \<and>
    ba_contents b' = overwrite (ba_contents b) (ba_position b) bs \<and>
    ba_position b' = ba_position b + length bs"
  by (rule ba_write_spec [of b bs]) auto

lemma ba_read_law:
  assumes ok: "ba_ok b" and n: "0 < n" "n \<le> length (ba_contents b) - ba_position b"
  shows "\<exists>b'. ba_read b n = Inr (take n (drop (ba_position b) (ba_contents b)), b') \<and> ba_ok b' \<and>
    ba_endian b' = ba_endian b \<and> ba_contents b' = ba_contents b \<and>
    ba_position b' = ba_position b + n"
proof -
  from n have "n \<le> ba_size b - ba_position b" by (simp add: length_ba_contents [OF ok])
  from ba_read_spec [OF ok this] n obtain b' where
    b': "ba_read b n = Inr (take n (drop (ba_position b) (ba_contents b)), b')" "ba_ok b'"
    and e: "b' = b\<lparr>ba_position := ba_position b + n, ba_cur := ba_cur b'\<rparr>" by auto
  have "ba_endian b' = ba_endian b" "ba_contents b' = ba_contents b"
    "ba_position b' = ba_position b + n"
    by (subst e; simp add: ba_contents_def)+
  with b' show ?thesis by blast
qed

lemma setPosition_law:
  assumes ok: "ba_ok b" and p: "p \<le> length (ba_contents b)"
  shows "\<exists>b'. setPosition b p = Inr b' \<and> ba_ok b' \<and> ba_endian b' = ba_endian b \<and>
    ba_contents b' = ba_contents b \<and> ba_position b' = p"
proof -
  have p': "p \<le> ba_size b" using p by (simp add: length_ba_contents [OF ok])
  moreover have "ba_size b \<le> ba_capacity b" by (rule ba_okD(6) [OF ok])
  ultimately obtain b' where "setPosition b p = Inr b'"
    using setPosition_spec [OF ok] by (meson order_trans)
  with setPosition_contents [OF ok p'] show ?thesis by blast
qed

interpretation buf: byte_store ba_ok ba_contents ba_position ba_endian ba_write ba_read setPosition
  by unfold_locales
    (simp_all add: length_ba_contents ba_okD(5) ba_write_law ba_read_law setPosition_law)

subsection \<open>Properties\<close>

lemma ba_read_none: "ba_ok ba \<Longrightarrow> ba_size ba - ba_position ba < n \<Longrightarrow> ba_read ba n = Inl Aborted"
  by (simp add: ba_read_def getReadSize_ok)

text \<open>
  C1: \<open>write\<close> never fails on a well-formed buffer, grows the chain as needed and refines
  overwriting a flat byte sequence: the contents change exactly from the position on, by
  the bytes given, the position moves past them, and the buffer stays well-formed.
\<close>

theorem write_refines_overwrite:
  assumes "ba_ok ba"
  shows "\<exists>ba'. ba_write ba buf = Inr ba' \<and> ba_ok ba' \<and>
    ba_contents ba' = overwrite (ba_contents ba) (ba_position ba) buf \<and>
    ba_position ba' = ba_position ba + length buf \<and>
    ba_size ba' = max (ba_size ba) (ba_position ba + length buf)"
  by (rule ba_write_spec [OF assms, of buf]) blast

theorem write_refines_overwrite_witness:
  "\<exists>ba'. ba_write (new_bytearray 2) (map Some [1, 2, 3]) = Inr ba' \<and>
    ba_contents ba' = map Some [1, 2, 3] \<and> ba_position ba' = 3"
  using write_refines_overwrite [OF new_bytearray_ok [of 2], of "map Some [1, 2, 3]"]
  by (auto simp: ba_contents_def new_bytearray_def overwrite_def)

text \<open>
  C2: \<open>read\<close> of \<open>n\<close> bytes aborts when fewer are left, dereferences null when \<open>n\<close> is 0 and
  the position is at the capacity, and otherwise gives the next \<open>n\<close> bytes of the contents
  and moves the position over them, across block borders, with the cursor kept right.
\<close>

theorem read_refines_take:
  assumes "ba_ok ba"
  shows "if ba_size ba - ba_position ba < n then ba_read ba n = Inl Aborted
    else if n = 0 \<and> ba_position ba = ba_capacity ba then ba_read ba n = Inl NullDeref
    else \<exists>ba'. ba_read ba n = Inr (take n (drop (ba_position ba) (ba_contents ba)), ba') \<and>
      ba_ok ba' \<and> ba_contents ba' = ba_contents ba \<and> ba_position ba' = ba_position ba + n"
proof (cases "n = 0 \<and> ba_position ba = ba_capacity ba")
  case True
  then show ?thesis using ba_read_nothing_at_capacity [OF assms] by simp
next
  case False
  have le: "ba_position ba \<le> ba_capacity ba" using ba_okD(5,6) [OF assms] by simp
  show ?thesis
  proof (cases "n \<le> ba_size ba - ba_position ba")
    case True
    from ba_read_spec [OF assms True] False le obtain ba' where
      "ba_read ba n = Inr (take n (drop (ba_position ba) (ba_contents ba)), ba')" "ba_ok ba'"
      and e: "ba' = ba\<lparr>ba_position := ba_position ba + n, ba_cur := ba_cur ba'\<rparr>" by fastforce
    moreover have "ba_contents ba' = ba_contents ba" "ba_position ba' = ba_position ba + n"
      by (subst e; simp add: ba_contents_def)+
    ultimately show ?thesis using True False by auto
  qed (simp add: ba_read_none [OF assms])
qed

theorem read_refines_take_witness: "ba_read (new_bytearray 4) 1 = Inl Aborted"
  using read_refines_take [OF new_bytearray_ok [of 4], of 1] by (simp add: new_bytearray_def)

text \<open>
  The scatter list of \<open>getReadBuffers\<close>, what \<open>send\<close> hands to the kernel, denotes exactly
  the next unread bytes, at most \<open>len\<close> of them, and every entry lies inside one block.
\<close>

lemma read_buffers_denote_contents:
  assumes "ba_ok ba"
  shows "\<exists>iovs. getReadBuffers ba len = Inr (iovs, min len (ba_size ba - ba_position ba)) \<and>
    concat (map (iov_bytes (ba_nodes ba)) iovs) = take len (drop (ba_position ba) (ba_contents ba)) \<and>
    (\<forall>v \<in> set iovs. iov_node v < length (ba_nodes ba) \<and> 0 < iov_len v \<and>
      iov_off v + iov_len v \<le> ba_baseSize ba)"
  by (rule getReadBuffers_spec [OF assms, of len]) blast



text \<open>
  \<open>readFromFile\<close> stores the whole file at the position, whatever its length relative to
  the block size.
\<close>

lemma readFromFile_stores_file:
  assumes "ba_ok ba"
  shows "\<exists>ba'. readFromFile ba (Some fb) = Inr (True, ba') \<and> ba_ok ba' \<and>
    ba_contents ba' = overwrite (ba_contents ba) (ba_position ba) (map Some fb) \<and>
    ba_position ba' = ba_position ba + length fb"
  by (rule readFromFile_spec [OF assms, of fb]) blast

end
