(* ===== verification/Byte_Codec.thy ===== *)
theory Byte_Codec
  imports Byte_Array
begin

text \<open>
  The typed readers and writers of \<open>src/bytearray.cpp\<close>: fixed-width integers in the
  buffer's byte order, zigzag and base-128 variable-length integers, and
  length-prefixed strings. The host's byte order (\<open>MS_BYTE_ORDER\<close>) is the parameter
  \<open>host\<close>. A \<open>float\<close> or \<open>double\<close> is its 32 or 64 bits, which is all the code copies;
  a \<open>std::string\<close> is its bytes. Signed and unsigned integers of one width share a
  word type, and the conversions between them are the identity on words.

  The lemmas are proved over the interface \<open>byte_store\<close>, through its
  interpretation \<open>buf\<close> on the chunked buffer.
\<close>

subsection \<open>Fixed-width integers\<close>

definition write_fixed :: "endian \<Rightarrow> bytearray \<Rightarrow> 'a::len word \<Rightarrow> ba_error + bytearray" where
  "write_fixed host ba v =
    (let v = (if ba_endian ba \<noteq> host then byteswap v else v)
     in ba_write ba (map Some (to_mem host v)))"

definition write_fixed8 :: "endian \<Rightarrow> bytearray \<Rightarrow> u8 \<Rightarrow> ba_error + bytearray" where
  "write_fixed8 host ba v = ba_write ba (map Some (to_mem host v))"

definition defined_bytes :: "cell list \<Rightarrow> ba_error + u8 list" where
  "defined_bytes cs = (if None \<in> set cs then Inl Indeterminate else Inr (map the cs))"

definition read_fixed :: "endian \<Rightarrow> bytearray \<Rightarrow> ba_error + ('a::len word \<times> bytearray)" where
  "read_fixed host ba =
    bindR (ba_read ba (LENGTH('a) div 8)) (\<lambda>(cs, ba).
    bindR (defined_bytes cs) (\<lambda>bs.
      let v = of_mem host bs
      in if ba_endian ba = host then Inr (v, ba) else Inr (byteswap v, ba)))"

definition read_fixed8 :: "endian \<Rightarrow> bytearray \<Rightarrow> ba_error + (u8 \<times> bytearray)" where
  "read_fixed8 host ba =
    bindR (ba_read ba 1) (\<lambda>(cs, ba).
    bindR (defined_bytes cs) (\<lambda>bs. Inr (of_mem host bs, ba)))"

text \<open>The public operations, one per width; signed and unsigned ones share a word type.\<close>

definition writeFint8 :: "endian \<Rightarrow> bytearray \<Rightarrow> u8 \<Rightarrow> ba_error + bytearray" where
  "writeFint8 host ba value = write_fixed8 host ba value"

definition writeFuint8 :: "endian \<Rightarrow> bytearray \<Rightarrow> u8 \<Rightarrow> ba_error + bytearray" where
  "writeFuint8 host ba value = write_fixed8 host ba value"

definition writeFint16 :: "endian \<Rightarrow> bytearray \<Rightarrow> u16 \<Rightarrow> ba_error + bytearray" where
  "writeFint16 host ba value = write_fixed host ba value"

definition writeFuint16 :: "endian \<Rightarrow> bytearray \<Rightarrow> u16 \<Rightarrow> ba_error + bytearray" where
  "writeFuint16 host ba value = write_fixed host ba value"

definition writeFint32 :: "endian \<Rightarrow> bytearray \<Rightarrow> u32 \<Rightarrow> ba_error + bytearray" where
  "writeFint32 host ba value = write_fixed host ba value"

definition writeFuint32 :: "endian \<Rightarrow> bytearray \<Rightarrow> u32 \<Rightarrow> ba_error + bytearray" where
  "writeFuint32 host ba value = write_fixed host ba value"

definition writeFint64 :: "endian \<Rightarrow> bytearray \<Rightarrow> u64 \<Rightarrow> ba_error + bytearray" where
  "writeFint64 host ba value = write_fixed host ba value"

definition writeFuint64 :: "endian \<Rightarrow> bytearray \<Rightarrow> u64 \<Rightarrow> ba_error + bytearray" where
  "writeFuint64 host ba value = write_fixed host ba value"

definition readFint8 :: "endian \<Rightarrow> bytearray \<Rightarrow> ba_error + (u8 \<times> bytearray)" where
  "readFint8 host ba = read_fixed8 host ba"

definition readFuint8 :: "endian \<Rightarrow> bytearray \<Rightarrow> ba_error + (u8 \<times> bytearray)" where
  "readFuint8 host ba = read_fixed8 host ba"

definition readFint16 :: "endian \<Rightarrow> bytearray \<Rightarrow> ba_error + (u16 \<times> bytearray)" where
  "readFint16 host ba = read_fixed host ba"

definition readFuint16 :: "endian \<Rightarrow> bytearray \<Rightarrow> ba_error + (u16 \<times> bytearray)" where
  "readFuint16 host ba = read_fixed host ba"

definition readFint32 :: "endian \<Rightarrow> bytearray \<Rightarrow> ba_error + (u32 \<times> bytearray)" where
  "readFint32 host ba = read_fixed host ba"

definition readFuint32 :: "endian \<Rightarrow> bytearray \<Rightarrow> ba_error + (u32 \<times> bytearray)" where
  "readFuint32 host ba = read_fixed host ba"

definition readFint64 :: "endian \<Rightarrow> bytearray \<Rightarrow> ba_error + (u64 \<times> bytearray)" where
  "readFint64 host ba = read_fixed host ba"

definition readFuint64 :: "endian \<Rightarrow> bytearray \<Rightarrow> ba_error + (u64 \<times> bytearray)" where
  "readFuint64 host ba = read_fixed host ba"

definition writeFloat :: "endian \<Rightarrow> bytearray \<Rightarrow> u32 \<Rightarrow> ba_error + bytearray" where
  "writeFloat host ba bits = write_fixed host ba bits"

definition writeDouble :: "endian \<Rightarrow> bytearray \<Rightarrow> u64 \<Rightarrow> ba_error + bytearray" where
  "writeDouble host ba bits = write_fixed host ba bits"

definition readFloat :: "endian \<Rightarrow> bytearray \<Rightarrow> ba_error + (u32 \<times> bytearray)" where
  "readFloat host ba = read_fixed host ba"

definition readDouble :: "endian \<Rightarrow> bytearray \<Rightarrow> ba_error + (u64 \<times> bytearray)" where
  "readDouble host ba = read_fixed host ba"

subsection \<open>Zigzag\<close>

definition EncodeZigzag32 :: "i32 \<Rightarrow> u32" where
  "EncodeZigzag32 v = push_bit 1 v XOR signed_drop_bit 31 v"

definition EncodeZigzag64 :: "i64 \<Rightarrow> u64" where
  "EncodeZigzag64 v = push_bit 1 v XOR signed_drop_bit 63 v"

definition DecodeZigzag32 :: "u32 \<Rightarrow> i32" where
  "DecodeZigzag32 v = drop_bit 1 v XOR - (v AND 1)"

definition DecodeZigzag64 :: "u64 \<Rightarrow> i64" where
  "DecodeZigzag64 v = drop_bit 1 v XOR - (v AND 1)"

subsection \<open>Variable-length integers\<close>

text \<open>
  The bytes \<open>writeUint32\<close> and \<open>writeUint64\<close> put into \<open>tmp\<close>, at either width; the
  loop ends because the shift makes the value smaller.
\<close>

lemma unat_shift7: "unat (drop_bit 7 (v :: 'a::len word)) = unat v div 128"
proof -
  have "unat (drop_bit 7 v) = drop_bit 7 (unat v)" by (rule unat_drop_bit_eq)
  also have "\<dots> = unat v div 2 ^ 7" by (rule drop_bit_eq_div)
  finally show ?thesis by simp
qed

function varint_bytes :: "'a::len word \<Rightarrow> u8 list" where
  "varint_bytes v =
    (if unat v \<ge> 0x80 then (ucast (v AND 0x7F) OR 0x80) # varint_bytes (drop_bit 7 v)
     else [ucast v])"
  by pat_completeness auto
termination
  by (relation "measure unat") (auto simp: unat_shift7 simp del: drop_bit_eq_div)

declare varint_bytes.simps [simp del]

definition writeUint32 :: "bytearray \<Rightarrow> u32 \<Rightarrow> ba_error + bytearray" where
  "writeUint32 ba v = ba_write ba (map Some (varint_bytes v))"

definition writeUint64 :: "bytearray \<Rightarrow> u64 \<Rightarrow> ba_error + bytearray" where
  "writeUint64 ba v = ba_write ba (map Some (varint_bytes v))"

definition writeInt32 :: "bytearray \<Rightarrow> i32 \<Rightarrow> ba_error + bytearray" where
  "writeInt32 ba v = writeUint32 ba (EncodeZigzag32 v)"

definition writeInt64 :: "bytearray \<Rightarrow> i64 \<Rightarrow> ba_error + bytearray" where
  "writeInt64 ba v = writeUint64 ba (EncodeZigzag64 v)"

function read_varint :: "endian \<Rightarrow> nat \<Rightarrow> 'a::len word \<Rightarrow> bytearray \<Rightarrow> ba_error + ('a word \<times> bytearray)" where
  "read_varint host i result ba =
    (if i < LENGTH('a) then
       bindR (read_fixed8 host ba) (\<lambda>(b, ba).
         if b < 0x80 then Inr (result OR push_bit i (ucast b), ba)
         else read_varint host (i + 7) (result OR push_bit i (ucast (b AND 0x7f))) ba)
     else Inr (result, ba))"
  by pat_completeness auto
termination
  by (relation "measure (\<lambda>(host, i, result :: 'a word, ba). LENGTH('a) - i)") auto

declare read_varint.simps [simp del]

definition readUint32 :: "endian \<Rightarrow> bytearray \<Rightarrow> ba_error + (u32 \<times> bytearray)" where
  "readUint32 host ba = read_varint host 0 0 ba"

definition readUint64 :: "endian \<Rightarrow> bytearray \<Rightarrow> ba_error + (u64 \<times> bytearray)" where
  "readUint64 host ba = read_varint host 0 0 ba"

definition readInt32 :: "endian \<Rightarrow> bytearray \<Rightarrow> ba_error + (i32 \<times> bytearray)" where
  "readInt32 host ba = bindR (readUint32 host ba) (\<lambda>(v, ba). Inr (DecodeZigzag32 v, ba))"

definition readInt64 :: "endian \<Rightarrow> bytearray \<Rightarrow> ba_error + (i64 \<times> bytearray)" where
  "readInt64 host ba = bindR (readUint64 host ba) (\<lambda>(v, ba). Inr (DecodeZigzag64 v, ba))"

subsection \<open>Strings\<close>

definition writeStringF16 :: "endian \<Rightarrow> bytearray \<Rightarrow> u8 list \<Rightarrow> ba_error + bytearray" where
  "writeStringF16 host ba s =
    bindR (write_fixed host ba (word_of_nat (length s) :: u16)) (\<lambda>ba. ba_write ba (map Some s))"

definition writeStringF32 :: "endian \<Rightarrow> bytearray \<Rightarrow> u8 list \<Rightarrow> ba_error + bytearray" where
  "writeStringF32 host ba s =
    bindR (write_fixed host ba (word_of_nat (length s) :: u32)) (\<lambda>ba. ba_write ba (map Some s))"

definition writeStringF64 :: "endian \<Rightarrow> bytearray \<Rightarrow> u8 list \<Rightarrow> ba_error + bytearray" where
  "writeStringF64 host ba s =
    bindR (write_fixed host ba (word_of_nat (length s) :: u64)) (\<lambda>ba. ba_write ba (map Some s))"

definition writeStringVint :: "bytearray \<Rightarrow> u8 list \<Rightarrow> ba_error + bytearray" where
  "writeStringVint ba s =
    bindR (writeUint64 ba (word_of_nat (length s))) (\<lambda>ba. ba_write ba (map Some s))"

definition writeStringWithoutLength :: "bytearray \<Rightarrow> u8 list \<Rightarrow> ba_error + bytearray" where
  "writeStringWithoutLength ba s = ba_write ba (map Some s)"

text \<open>\<open>buff.resize(len); read(&buff[0], len)\<close>: what follows every length. \<open>resize\<close> throws
  \<open>std::length_error\<close> for more than a string can hold; below that memory suffices, \<open>std::bad_alloc\<close> is not modelled.\<close>

definition read_string_body :: "bytearray \<Rightarrow> nat \<Rightarrow> ba_error + (u8 list \<times> bytearray)" where
  "read_string_body ba len =
    (if max_string < len then Inl StringTooLong
     else bindR (ba_read ba len) (\<lambda>(cs, ba). bindR (defined_bytes cs) (\<lambda>bs. Inr (bs, ba))))"

definition readStringF16 :: "endian \<Rightarrow> bytearray \<Rightarrow> ba_error + (u8 list \<times> bytearray)" where
  "readStringF16 host ba =
    bindR (read_fixed host ba) (\<lambda>(len :: u16, ba). read_string_body ba (unat len))"

definition readStringF32 :: "endian \<Rightarrow> bytearray \<Rightarrow> ba_error + (u8 list \<times> bytearray)" where
  "readStringF32 host ba =
    bindR (read_fixed host ba) (\<lambda>(len :: u32, ba). read_string_body ba (unat len))"

definition readStringF64 :: "endian \<Rightarrow> bytearray \<Rightarrow> ba_error + (u8 list \<times> bytearray)" where
  "readStringF64 host ba =
    bindR (read_fixed host ba) (\<lambda>(len :: u64, ba). read_string_body ba (unat len))"

definition readStringVint :: "endian \<Rightarrow> bytearray \<Rightarrow> ba_error + (u8 list \<times> bytearray)" where
  "readStringVint host ba =
    bindR (readUint64 host ba) (\<lambda>(len, ba). read_string_body ba (unat len))"

subsection \<open>What is stored, and reading it back\<close>

lemma defined_bytes_map_Some [simp]: "defined_bytes (map Some bs) = Inr bs"
  by (simp add: defined_bytes_def comp_def)

text \<open>The stored bytes depend on the buffer's byte order only, not on the host's.\<close>

lemma write_fixed_bytes: "write_fixed host ba v = ba_write ba (map Some (to_mem (ba_endian ba) v))"
  by (cases host; cases "ba_endian ba") (simp_all add: write_fixed_def to_mem_byteswap)

lemma write_fixed8_bytes: "write_fixed8 host ba v = ba_write ba (map Some [v])"
  by (simp add: write_fixed8_def to_mem_def Let_def word_size_def)

lemma byteswap_of_mem:
  assumes "length bs = LENGTH('a::len) div 8"
  shows "byteswap (of_mem host bs :: 'a word) =
    of_mem (if host = LittleEndian then BigEndian else LittleEndian) bs"
  using assms by (cases host) (simp_all add: byteswap_def of_mem_def word_size_def le_bytes_full)

lemma read_fixed_upcoming:
  fixes v :: "'a::len word"
  assumes up: "buf.upcoming ba (map Some (to_mem (ba_endian ba) v) @ rest)"
    and w: "byte_sized v" "0 < LENGTH('a) div 8"
  obtains ba' where "read_fixed host ba = Inr (v, ba')" "buf.upcoming ba' rest"
    "ba_endian ba' = ba_endian ba" "ba_contents ba' = ba_contents ba"
    "ba_position ba' = ba_position ba + LENGTH('a) div 8"
proof -
  let ?bs = "to_mem (ba_endian ba) v"
  have len: "length ?bs = LENGTH('a) div 8" by (simp add: word_size_def)
  have "0 < length (map Some ?bs)" unfolding length_map len by (rule w(2))
  then have "map Some ?bs \<noteq> []" by fastforce
  from buf.get_upcoming [OF up this] obtain ba' where
    b: "ba_read ba (LENGTH('a) div 8) = Inr (map Some ?bs, ba')" "buf.upcoming ba' rest"
      "ba_endian ba' = ba_endian ba" "ba_contents ba' = ba_contents ba"
      "ba_position ba' = ba_position ba + LENGTH('a) div 8"
    using len by auto
  have "(if ba_endian ba' = host then of_mem host ?bs else byteswap (of_mem host ?bs)) = v"
    using of_mem_to_mem [OF w(1)]
    unfolding b(3) byteswap_of_mem [OF len] by (cases host; cases "ba_endian ba") simp_all
  with b show ?thesis
    by (intro that [of ba']) (auto simp: read_fixed_def Let_def split: if_splits)
qed

lemma read_fixed8_upcoming:
  assumes up: "buf.upcoming ba (Some b # rest)"
  obtains ba' where "read_fixed8 host ba = Inr (b, ba')" "buf.upcoming ba' rest"
    "ba_endian ba' = ba_endian ba" "ba_contents ba' = ba_contents ba"
    "ba_position ba' = ba_position ba + 1"
proof -
  from buf.get_upcoming [of ba "[Some b]" rest] up obtain ba' where
    b: "ba_read ba 1 = Inr ([Some b], ba')" "buf.upcoming ba' rest" "ba_endian ba' = ba_endian ba"
      "ba_contents ba' = ba_contents ba" "ba_position ba' = ba_position ba + 1" by auto
  moreover have "of_mem host [b] = b" by (simp add: of_mem_def)
  ultimately show ?thesis
    by (intro that [of ba']) (simp_all add: read_fixed8_def defined_bytes_def)
qed

subsection \<open>Zigzag is a bijection\<close>

lemma minus_and_1: "- (w AND 1) = (if bit w 0 then - 1 else (0 :: 'a::len word))"
  by (simp add: and_one_eq bit_0 odd_iff_mod_2_eq_one even_iff_mod_2_eq_zero)

lemma sign_fill: "signed_drop_bit (LENGTH('a) - 1) v = (if bit v (LENGTH('a) - 1) then - 1 else (0 :: 'a::len word))"
proof (rule bit_word_eqI)
  fix n assume "n < LENGTH('a)"
  then show "bit (signed_drop_bit (LENGTH('a) - 1) v) n = bit (if bit v (LENGTH('a) - 1) then - 1 else (0 :: 'a word)) n"
    by (cases n) (auto simp: bit_signed_drop_bit_iff)
qed

lemma bit_shift1: "bit (push_bit 1 v) n = (0 < n \<and> n < LENGTH('a) \<and> bit (v :: 'a::len word) (n - 1))"
  by (subst bit_push_bit_iff) (auto simp: Suc_le_eq)

lemma bit_unshift1: "bit (drop_bit 1 v) n = bit (v :: 'a::len word) (n + 1)"
  by (subst bit_drop_bit_eq) simp

lemma zigzag_word:
  fixes v :: "'a::len word"
  defines "e \<equiv> push_bit 1 v XOR signed_drop_bit (LENGTH('a) - 1) v"
  assumes "1 < LENGTH('a)"
  shows "drop_bit 1 e XOR - (e AND 1) = v"
proof (rule bit_word_eqI)
  fix n assume n: "n < LENGTH('a)"
  let ?m = "bit v (LENGTH('a) - 1)"
  have e: "bit e k = (if k < LENGTH('a) then (0 < k \<and> bit v (k - 1)) \<noteq> ?m else False)" for k
    unfolding e_def bit_xor_iff bit_shift1 sign_fill by auto
  have "bit (drop_bit 1 e XOR - (e AND 1)) n = (bit e (n + 1) \<noteq> bit e 0)"
    unfolding bit_xor_iff minus_and_1 bit_unshift1 using n by auto
  also have "\<dots> = bit v n"
  proof (cases "n + 1 < LENGTH('a)")
    case True
    then show ?thesis unfolding e by auto
  next
    case False
    with n have "n = LENGTH('a) - 1" by simp
    with False assms(2) show ?thesis unfolding e by auto
  qed
  finally show "bit (drop_bit 1 e XOR - (e AND 1)) n = bit v n" .
qed

lemma DecodeZigzag32_EncodeZigzag32: "DecodeZigzag32 (EncodeZigzag32 v) = v"
  using zigzag_word [of v] by (simp add: DecodeZigzag32_def EncodeZigzag32_def)

lemma DecodeZigzag64_EncodeZigzag64: "DecodeZigzag64 (EncodeZigzag64 v) = v"
  using zigzag_word [of v] by (simp add: DecodeZigzag64_def EncodeZigzag64_def)

subsection \<open>Variable-length integers\<close>

lemma length_varint_bytes:
  "0 < k \<Longrightarrow> unat v < 2 ^ (7 * k) \<Longrightarrow> length (varint_bytes v) \<le> k"
proof (induction v arbitrary: k rule: varint_bytes.induct)
  case (1 v)
  show ?case
  proof (cases "128 \<le> unat v")
    case True
    have "k \<noteq> 1" using True "1.prems"(2) by auto
    then obtain j where j: "k = Suc j" "0 < j" using "1.prems"(1) by (cases k) auto
    have "unat (drop_bit 7 v) < 2 ^ (7 * j)"
      using "1.prems"(2) by (simp add: unat_shift7 j power_add less_mult_imp_div_less mult.commute)
    with "1.IH" [of j] True j show ?thesis by (subst varint_bytes.simps) simp
  next
    case False
    with "1.prems"(1) show ?thesis by (subst varint_bytes.simps) simp
  qed
qed

lemma varint_low: "ucast ((ucast (v AND 0x7F) OR 0x80 :: u8) AND 0x7F) = take_bit 7 (v :: 'a::len word)"
proof -
  have m: "(0x7F :: 'b::len word) = mask 7" by (simp add: mask_eq_exp_minus_1)
  have e: "(0x80 :: u8) = 2 ^ 7" by simp
  have b: "bit (0x80 :: u8) k = (k = 7)" for k unfolding e bit_exp_iff by auto
  show ?thesis
  proof (rule bit_word_eqI)
    fix n assume "n < LENGTH('a)"
    then show "bit (ucast ((ucast (v AND 0x7F) OR 0x80 :: u8) AND 0x7F) :: 'a word) n = bit (take_bit 7 v) n"
     by (simp only: bit_unsigned_iff bit_and_iff bit_or_iff b m bit_mask_iff bit_take_bit_iff) auto
  qed
qed
lemma varint_step:
  "push_bit i (ucast ((ucast (v AND 0x7F) OR 0x80 :: u8) AND 0x7F)) OR push_bit (i + 7) (drop_bit 7 v) = push_bit i (v :: 'a::len word)"
  unfolding varint_low
proof (rule bit_word_eqI)
  fix n assume "n < LENGTH('a)"
  then show "bit (push_bit i (take_bit 7 v) OR push_bit (i + 7) (drop_bit 7 v)) n = bit (push_bit i v) n"
    by (cases "n < i + 7") (auto simp: bit_or_iff bit_push_bit_iff bit_take_bit_iff bit_drop_bit_eq possible_bit_def)
qed
lemma high_bit: "\<not> (ucast (v AND 0x7F) OR 0x80 :: u8) < 0x80"
proof
  assume a: "(ucast (v AND 0x7F) OR 0x80 :: u8) < 0x80"
  have "(0x80 :: u8) = 2 ^ 7" by simp
  then have "bit (0x80 :: u8) 7" by (simp only: bit_exp_iff) simp
  then have "bit (ucast (v AND 0x7F) OR 0x80 :: u8) 7" by (simp only: bit_or_iff simp_thms)
  then have "bit (unat (ucast (v AND 0x7F) OR 0x80 :: u8)) 7" by (simp only: bit_unsigned_iff) simp
  moreover from a have "unat (ucast (v AND 0x7F) OR 0x80 :: u8) < 2 ^ 7"
    by (simp add: word_less_nat_alt)
  then have "take_bit 7 (unat (ucast (v AND 0x7F) OR 0x80 :: u8)) = unat (ucast (v AND 0x7F) OR 0x80 :: u8)"
    by (simp only: take_bit_nat_eq_self_iff)
  ultimately show False by (metis bit_take_bit_iff less_irrefl)
qed

lemma read_varint_upcoming:
  fixes v r :: "'a::len word"
  assumes "buf.upcoming ba (map Some (varint_bytes v) @ rest)"
    and "i < LENGTH('a)" "unat v < 2 ^ (LENGTH('a) - i)"
  obtains ba' where "read_varint host i r ba = Inr (r OR push_bit i v, ba')"
    "buf.upcoming ba' rest" "ba_endian ba' = ba_endian ba" "ba_contents ba' = ba_contents ba"
    "ba_position ba' = ba_position ba + length (varint_bytes v)"
  using assms
proof (induction v arbitrary: i r ba thesis rule: varint_bytes.induct)
  case (1 v)
  show ?case
  proof (cases "128 \<le> unat v")
    case True
    let ?b = "ucast (v AND 0x7F) OR 0x80 :: u8"
    from True have bs: "varint_bytes v = ?b # varint_bytes (drop_bit 7 v)"
      by (subst varint_bytes.simps) simp
    have "buf.upcoming ba (Some ?b # map Some (varint_bytes (drop_bit 7 v)) @ rest)"
      using "1.prems"(2) unfolding bs by simp
    then obtain ba1 where
      s: "read_fixed8 host ba = Inr (?b, ba1)"
        "buf.upcoming ba1 (map Some (varint_bytes (drop_bit 7 v)) @ rest)"
        "ba_endian ba1 = ba_endian ba" "ba_contents ba1 = ba_contents ba"
        "ba_position ba1 = ba_position ba + 1"
      by (rule read_fixed8_upcoming)
    have "7 < LENGTH('a) - i"
    proof (rule ccontr)
      assume "\<not> 7 < LENGTH('a) - i"
      then have "(2::nat) ^ (LENGTH('a) - i) \<le> 2 ^ 7" by (intro power_increasing) auto
      with "1.prems"(4) True show False by simp
    qed
    then have lt: "i + 7 < LENGTH('a)" and e: "LENGTH('a) - i = 7 + (LENGTH('a) - (i + 7))" by auto
    have "unat (drop_bit 7 v) < 2 ^ (LENGTH('a) - (i + 7))"
      using "1.prems"(4) unfolding e power_add unat_shift7 by (simp add: less_mult_imp_div_less mult.commute)
    from "1.IH" [OF _ _ s(2) lt this] True obtain ba2 where
      "read_varint host (i + 7) (r OR push_bit i (ucast (?b AND 0x7f))) ba1
        = Inr ((r OR push_bit i (ucast (?b AND 0x7f))) OR push_bit (i + 7) (drop_bit 7 v), ba2)"
      "buf.upcoming ba2 rest" "ba_endian ba2 = ba_endian ba1" "ba_contents ba2 = ba_contents ba1"
      "ba_position ba2 = ba_position ba1 + length (varint_bytes (drop_bit 7 v))"
      by (metis (no_types, lifting))
    note r = this [unfolded or.assoc varint_step]
    show ?thesis
      by (rule "1.prems"(1) [of ba2], subst read_varint.simps)
        (use "1.prems"(3) high_bit [of v] in \<open>simp_all add: s r bs\<close>)
  next
    case False
    then have bs: "varint_bytes v = [ucast v]" by (subst varint_bytes.simps) simp
    have "buf.upcoming ba (Some (ucast v) # rest)" using "1.prems"(2) unfolding bs by simp
    then obtain ba1 where
      s: "read_fixed8 host ba = Inr (ucast v, ba1)" "buf.upcoming ba1 rest"
        "ba_endian ba1 = ba_endian ba" "ba_contents ba1 = ba_contents ba"
        "ba_position ba1 = ba_position ba + 1"
      by (rule read_fixed8_upcoming)
    have "unat (word_of_nat (unat v) :: u8) = unat v"
      using False by (simp add: unat_of_nat del: of_nat_unat)
    then have e: "unat (ucast v :: u8) = unat v" by simp
    then have "(ucast v :: u8) < 0x80" using False by (simp add: word_less_nat_alt)
    moreover have "ucast (ucast v :: u8) = v" 
      using e 
      by (subst word_unat_eq_iff, subst unsigned_ucast_eq, subst e)
        (simp only: take_bit_nat_eq_self_iff unsigned_less)
    ultimately have "(ucast v :: u8) < 0x80" "ucast (ucast v :: u8) = v" .
    with s "1.prems"(3) bs show ?thesis
      by (intro "1.prems"(1) [of ba1]) (subst read_varint.simps, simp_all)
  qed
qed


subsection \<open>Round trips through the buffer\<close>

text \<open>What one writer stores, rewound, is what one reader on any host returns.\<close>

lemma write_read_fixed:
  fixes v :: "'a::len word"
  assumes "ba_ok ba" "byte_sized v" "0 < LENGTH('a) div 8"
  shows "\<exists>b1 b2 b3. write_fixed host ba v = Inr b1 \<and> setPosition b1 (ba_position ba) = Inr b2 \<and>
    read_fixed host' b2 = Inr (v, b3) \<and> ba_position b3 = ba_position b1 \<and>
    ba_contents b3 = ba_contents b1 \<and> ba_ok b3"
proof -
  let ?bs = "map Some (to_mem (ba_endian ba) v)"
  obtain b1 b2 where w: "ba_write ba ?bs = Inr b1" and s: "setPosition b1 (ba_position ba) = Inr b2"
    by (rule buf.put_seek_total [OF assms(1)])
  note u = buf.put_seek_upcoming [OF assms(1) w s]
  from u(1,2) have "buf.upcoming b2 (map Some (to_mem (ba_endian b2) v) @ [])" by simp
  from read_fixed_upcoming [OF this assms(2,3), of host'] obtain b3 where
    r: "read_fixed host' b2 = Inr (v, b3)" "buf.upcoming b3 []" "ba_contents b3 = ba_contents b2"
      "ba_position b3 = ba_position b2 + LENGTH('a) div 8" by metis
  have "ba_position b1 = ba_position ba + LENGTH('a) div 8"
    using ba_write_law [OF assms(1), of ?bs] w by (simp add: word_size_def)
  with w s r u show ?thesis
    by (auto simp: write_fixed_bytes intro: buf.upcoming_inv)
qed

lemma write_read_varint:
  fixes v :: "'a::len word"
  assumes "ba_ok ba"
  shows "\<exists>b1 b2 b3. ba_write ba (map Some (varint_bytes v)) = Inr b1 \<and>
    setPosition b1 (ba_position ba) = Inr b2 \<and> read_varint host 0 0 b2 = Inr (v, b3) \<and>
    ba_position b3 = ba_position b1 \<and> ba_contents b3 = ba_contents b1 \<and> ba_ok b3"
proof -
  let ?bs = "map Some (varint_bytes v)"
  obtain b1 b2 where w: "ba_write ba ?bs = Inr b1" and s: "setPosition b1 (ba_position ba) = Inr b2"
    by (rule buf.put_seek_total [OF assms(1)])
  note u = buf.put_seek_upcoming [OF assms(1) w s]
  from u(1) have "buf.upcoming b2 (?bs @ [])" by simp
  from read_varint_upcoming [OF this, of 0 host 0] obtain b3 where
    r: "read_varint host 0 0 b2 = Inr (v, b3)" "buf.upcoming b3 []" "ba_contents b3 = ba_contents b2"
      "ba_position b3 = ba_position b2 + length (varint_bytes v)" by (auto simp: unsigned_less)
  have "ba_position b1 = ba_position ba + length (varint_bytes v)"
    using ba_write_law [OF assms(1), of ?bs] w by simp
  with w s r u show ?thesis by (auto intro: buf.upcoming_inv)
qed

text \<open>A length prefix followed by the bytes of the string.\<close>

lemma read_string_body_upcoming:
  assumes "buf.upcoming ba (map Some bs @ rest)" "bs \<noteq> []" "length bs \<le> max_string"
  obtains ba' where "read_string_body ba (length bs) = Inr (bs, ba')" "buf.upcoming ba' rest"
    "ba_contents ba' = ba_contents ba" "ba_position ba' = ba_position ba + length bs"
proof -
  from buf.get_upcoming [of ba "map Some bs" rest] assms obtain ba' where
    "ba_read ba (length bs) = Inr (map Some bs, ba')" "buf.upcoming ba' rest"
    "ba_contents ba' = ba_contents ba" "ba_position ba' = ba_position ba + length bs" by auto
  then show ?thesis using assms(3) by (intro that [of ba']) (simp_all add: read_string_body_def)
qed

text \<open>The string writers: a prefix of bytes, then the string, rewound.\<close>

lemma put_string_upcoming:
  assumes "ba_ok ba"
  obtains b1 b2 b3 where "ba_write ba (map Some pre) = Inr b1" "ba_write b1 (map Some s) = Inr b2"
    "setPosition b2 (ba_position ba) = Inr b3" "buf.upcoming b3 (map Some pre @ map Some s @ [])"
    "ba_endian b3 = ba_endian ba" "ba_position b3 = ba_position ba" "ba_contents b3 = ba_contents b2"
    "ba_position b2 = ba_position ba + length pre + length s"
proof -
  from ba_write_law [OF assms, of "map Some pre"] obtain b1 where b1:
    "ba_write ba (map Some pre) = Inr b1" "ba_ok b1" "ba_position b1 = ba_position ba + length pre"
    by auto
  from ba_write_law [OF b1(2), of "map Some s"] obtain b2 where b2:
    "ba_write b1 (map Some s) = Inr b2" "ba_ok b2" "ba_position b2 = ba_position b1 + length s"
    by auto
  have "ba_position ba \<le> length (ba_contents b2)"
    using buf.pos_le [OF b2(2)] b2(3) b1(3) by simp
  from setPosition_law [OF b2(2) this] obtain b3 where
    b3: "setPosition b2 (ba_position ba) = Inr b3" by blast
  from buf.two_puts_seek_upcoming [OF assms b1(1) b2(1) b3] b1 b2 b3 that show ?thesis by simp
qed

lemma write_read_string:
  fixes len :: "'a::len word"
  assumes ok: "ba_ok ba" and ne: "take (unat len) s \<noteq> []" and le: "unat len \<le> length s" and max: "unat len \<le> max_string"
    and w: "byte_sized len" "0 < LENGTH('a) div 8"
  shows "\<exists>b1 b2 b3. bindR (write_fixed host ba len) (\<lambda>ba. ba_write ba (map Some s)) = Inr b1 \<and>
    setPosition b1 (ba_position ba) = Inr b2 \<and>
    bindR (read_fixed host' b2) (\<lambda>(len :: 'a word, ba). read_string_body ba (unat len)) =
      Inr (take (unat len) s, b3) \<and> ba_contents b3 = ba_contents b1 \<and>
    ba_position b3 = ba_position ba + LENGTH('a) div 8 + unat len"
proof -
  let ?pre = "to_mem (ba_endian ba) len"
  obtain b1 b2 b3 where b: "ba_write ba (map Some ?pre) = Inr b1" "ba_write b1 (map Some s) = Inr b2"
    "setPosition b2 (ba_position ba) = Inr b3" "buf.upcoming b3 (map Some ?pre @ map Some s @ [])"
    "ba_endian b3 = ba_endian ba" "ba_position b3 = ba_position ba" "ba_contents b3 = ba_contents b2"
    by (rule put_string_upcoming [OF ok])
  from read_fixed_upcoming [of b3 len, OF _ w, of _ host'] b(4,5) obtain b4 where
    c: "read_fixed host' b3 = Inr (len, b4)" "buf.upcoming b4 (map Some s @ [])"
      "ba_contents b4 = ba_contents b3" "ba_position b4 = ba_position b3 + LENGTH('a) div 8" by metis
  have "buf.upcoming b4 (map Some (take (unat len) s) @ map Some (drop (unat len) s) @ [])"
    using c(2) by (simp flip: append_assoc map_append)
  from read_string_body_upcoming [OF this ne] le max obtain b5 where
    "read_string_body b4 (unat len) = Inr (take (unat len) s, b5)"
    "ba_contents b5 = ba_contents b4" "ba_position b5 = ba_position b4 + unat len" by auto
  with b c show ?thesis by (simp add: write_fixed_bytes)
qed

lemma write_read_stringVint:
  assumes ok: "ba_ok ba" and ne: "s \<noteq> []" and max: "length s \<le> max_string"
  shows "\<exists>b1 b2 b3. writeStringVint ba s = Inr b1 \<and> setPosition b1 (ba_position ba) = Inr b2 \<and>
    readStringVint host b2 = Inr (s, b3) \<and> ba_contents b3 = ba_contents b1 \<and>
    ba_position b3 = ba_position b1"
proof -
  let ?len = "word_of_nat (length s) :: u64"
  from max have le: "length s < 2 ^ 64" by (simp add: max_string_def)
  then have len: "unat ?len = length s" by (simp add: unat_of_nat)
  let ?pre = "varint_bytes ?len"
  obtain b1 b2 b3 where b: "ba_write ba (map Some ?pre) = Inr b1" "ba_write b1 (map Some s) = Inr b2"
    "setPosition b2 (ba_position ba) = Inr b3" "buf.upcoming b3 (map Some ?pre @ map Some s @ [])"
    "ba_endian b3 = ba_endian ba" "ba_position b3 = ba_position ba" "ba_contents b3 = ba_contents b2"
    "ba_position b2 = ba_position ba + length ?pre + length s"
    by (rule put_string_upcoming [OF ok])
  from read_varint_upcoming [OF b(4), of 0 host 0] obtain b4 where
    c: "read_varint host 0 0 b3 = Inr (?len, b4)" "buf.upcoming b4 (map Some s @ [])"
      "ba_contents b4 = ba_contents b3" "ba_position b4 = ba_position b3 + length ?pre"
    using le by (auto simp: len)
  from read_string_body_upcoming [OF c(2) ne max] obtain b5 where
    "read_string_body b4 (length s) = Inr (s, b5)"
    "ba_contents b5 = ba_contents b4" "ba_position b5 = ba_position b4 + length s" by auto
  with b c show ?thesis
    by (simp add: writeStringVint_def writeUint64_def readStringVint_def readUint64_def len del: of_nat_unat)
qed

subsection \<open>Properties\<close>

text \<open>
  C5: a 16-bit, 32-bit or 64-bit integer of fixed width that a machine of one byte order
  writes is read back unchanged by a machine of any byte order, the same buffer being
  exchanged, and the reader ends where the writer did.
\<close>

theorem fixed_roundtrip:
  assumes "ba_ok ba"
  shows "(\<exists>b1 b2 b3. writeFuint16 host ba u = Inr b1 \<and> setPosition b1 (ba_position ba) = Inr b2 \<and>
      readFuint16 host' b2 = Inr (u, b3) \<and> ba_position b3 = ba_position b1 \<and> ba_contents b3 = ba_contents b1) \<and>
    (\<exists>b1 b2 b3. writeFint32 host ba v = Inr b1 \<and> setPosition b1 (ba_position ba) = Inr b2 \<and>
      readFint32 host' b2 = Inr (v, b3) \<and> ba_position b3 = ba_position b1 \<and> ba_contents b3 = ba_contents b1) \<and>
    (\<exists>b1 b2 b3. writeFint64 host ba w = Inr b1 \<and> setPosition b1 (ba_position ba) = Inr b2 \<and>
      readFint64 host' b2 = Inr (w, b3) \<and> ba_position b3 = ba_position b1 \<and> ba_contents b3 = ba_contents b1)"
  using write_read_fixed [OF assms, where v = u and host = host and host' = host']
    write_read_fixed [OF assms, where v = v and host = host and host' = host']
    write_read_fixed [OF assms, where v = w and host = host and host' = host']
  by (auto simp: writeFuint16_def readFuint16_def writeFint32_def readFint32_def writeFint64_def readFint64_def)

theorem fixed_roundtrip_witness:
  "\<exists>b1 b2 b3. writeFint32 LittleEndian (new_bytearray 3) 0x12345678 = Inr b1 \<and>
    setPosition b1 0 = Inr b2 \<and> readFint32 BigEndian b2 = Inr (0x12345678, b3)"
  using fixed_roundtrip [OF new_bytearray_ok [of 3], of LittleEndian 0 BigEndian "0x12345678" 0]
  by (auto simp: new_bytearray_def)

text \<open>
  C6: signed integers of variable length survive \<open>writeInt32\<close>/\<open>readInt32\<close> and
  \<open>writeInt64\<close>/\<open>readInt64\<close>: zigzag and base-128 coding are inverted exactly, and the
  encoding takes at most 5 and 10 bytes.
\<close>

theorem varint_roundtrip:
  assumes "ba_ok ba"
  shows "(\<exists>b1 b2 b3. writeInt32 ba v = Inr b1 \<and> setPosition b1 (ba_position ba) = Inr b2 \<and>
      readInt32 host b2 = Inr (v, b3) \<and> ba_position b3 = ba_position b1 \<and>
      ba_contents b3 = ba_contents b1 \<and> ba_position b1 \<le> ba_position ba + 5) \<and>
    (\<exists>b1 b2 b3. writeInt64 ba w = Inr b1 \<and> setPosition b1 (ba_position ba) = Inr b2 \<and>
      readInt64 host b2 = Inr (w, b3) \<and> ba_position b3 = ba_position b1 \<and>
      ba_contents b3 = ba_contents b1 \<and> ba_position b1 \<le> ba_position ba + 10)"
proof (intro conjI)
  let ?e = "EncodeZigzag32 v"
  have "length (varint_bytes ?e) \<le> 5"
    by (rule length_varint_bytes) (use unsigned_less [of ?e, where 'a = nat] in simp_all)
  then have "ba_position b1 \<le> ba_position ba + 5"
    if "ba_write ba (map Some (varint_bytes ?e)) = Inr b1" for b1
    using ba_write_law [OF assms, of "map Some (varint_bytes ?e)"] that by auto
  with write_read_varint [OF assms, of ?e host]
  show "\<exists>b1 b2 b3. writeInt32 ba v = Inr b1 \<and> setPosition b1 (ba_position ba) = Inr b2 \<and>
      readInt32 host b2 = Inr (v, b3) \<and> ba_position b3 = ba_position b1 \<and>
      ba_contents b3 = ba_contents b1 \<and> ba_position b1 \<le> ba_position ba + 5"
    by (fastforce simp: writeInt32_def writeUint32_def readInt32_def readUint32_def
        DecodeZigzag32_EncodeZigzag32)
next
  let ?e = "EncodeZigzag64 w"
  have "length (varint_bytes ?e) \<le> 10"
    by (rule length_varint_bytes) (use unsigned_less [of ?e, where 'a = nat] in simp_all)
  then have "ba_position b1 \<le> ba_position ba + 10"
    if "ba_write ba (map Some (varint_bytes ?e)) = Inr b1" for b1
    using ba_write_law [OF assms, of "map Some (varint_bytes ?e)"] that by auto
  with write_read_varint [OF assms, of ?e host]
  show "\<exists>b1 b2 b3. writeInt64 ba w = Inr b1 \<and> setPosition b1 (ba_position ba) = Inr b2 \<and>
      readInt64 host b2 = Inr (w, b3) \<and> ba_position b3 = ba_position b1 \<and>
      ba_contents b3 = ba_contents b1 \<and> ba_position b1 \<le> ba_position ba + 10"
    by (fastforce simp: writeInt64_def writeUint64_def readInt64_def readUint64_def
        DecodeZigzag64_EncodeZigzag64)
qed

theorem varint_roundtrip_witness:
  "\<exists>b1 b2 b3. writeInt64 (new_bytearray 2) (- 300) = Inr b1 \<and> setPosition b1 0 = Inr b2 \<and>
    readInt64 LittleEndian b2 = Inr (- 300, b3)"
  using varint_roundtrip [OF new_bytearray_ok [of 2], of 0 LittleEndian "- 300"]
  by (auto simp: new_bytearray_def)

text \<open>
  \<open>writeStringF16\<close> keeps only the low 16 bits of the length: what \<open>readStringF16\<close> gives
  back is the first \<open>length mod 65536\<close> bytes of the string (all of it when shorter than
  65536), when that is not empty.
\<close>

lemma stringF16_roundtrip:
  assumes "ba_ok ba" "length s mod 65536 \<noteq> 0"
  shows "\<exists>b1 b2 b3. writeStringF16 host ba s = Inr b1 \<and> setPosition b1 (ba_position ba) = Inr b2 \<and>
    readStringF16 host' b2 = Inr (take (length s mod 65536) s, b3) \<and> ba_contents b3 = ba_contents b1 \<and>
    ba_position b3 = ba_position ba + 2 + length s mod 65536"
proof -
  have len: "unat (word_of_nat (length s) :: u16) = length s mod 65536"
    by (simp add: unat_of_nat)
  have ne: "take (length s mod 65536) s \<noteq> []" using assms(2) by auto
  have max: "length s mod 65536 \<le> max_string"
    using mod_less_divisor [of 65536 "length s"] by (simp add: max_string_def)
  show ?thesis
    using write_read_string [OF assms(1), where len = "word_of_nat (length s) :: u16" and s = s
        and host = host and host' = host'] ne max
    by (simp add: len writeStringF16_def readStringF16_def)
qed

text \<open>A non-empty string survives \<open>writeStringVint\<close> and \<open>readStringVint\<close> whatever its length, up to the longest there is.\<close>

lemma stringVint_roundtrip:
  assumes "ba_ok ba" "s \<noteq> []" "length s \<le> max_string"
  shows "\<exists>b1 b2 b3. writeStringVint ba s = Inr b1 \<and> setPosition b1 (ba_position ba) = Inr b2 \<and>
    readStringVint host b2 = Inr (s, b3) \<and> ba_contents b3 = ba_contents b1 \<and>
    ba_position b3 = ba_position b1"
  by (rule write_read_stringVint [OF assms])

end
