(* ===== verification/Fd_Manager.thy ===== *)
theory Fd_Manager
  imports Prelude
begin

text \<open>
  File descriptor contexts, \<open>inc/fd_manager.h\<close> and \<open>src/fd_manager.cpp\<close>. A
  \<open>FdCtx::ptr\<close> is the address of a context in the store \<open>fm_heap\<close>, since the manager and
  the hooked calls share contexts and \<open>del\<close> drops only the manager's pointer; the table
  \<open>m_datas\<close> is a list of pointers that may be null. What the kernel answers to \<open>fstat\<close>
  (\<open>None\<close> on failure, else whether it is a socket) and to \<open>F_GETFL\<close> are the parameters
  \<open>fstat_f\<close> and \<open>getfl\<close>; the \<open>F_SETFL\<close> calls made are returned. An index outside the
  table, undefined in C++, is the error \<open>BadIndex\<close>.
\<close>

record fd_ctx =
  fc_isInit :: bool
  fc_isSocket :: bool
  fc_sysNonblock :: bool
  fc_userNonblock :: bool
  fc_isClosed :: bool
  fc_fd :: int
  fc_recvTimeout :: u64
  fc_sendTimeout :: u64

record fd_manager =
  fm_heap :: "nat \<Rightarrow> fd_ctx option"
  fm_datas :: "nat option list"

datatype fd_error = BadIndex

definition O_NONBLOCK :: u32 where
  "O_NONBLOCK = 0x800"

text \<open>Calls \<open>fcntl_f(fd, F_SETFL, flags)\<close>.\<close>

type_synonym setfl = "int \<times> u32"

definition fc_init ::
    "(int \<Rightarrow> bool option) \<Rightarrow> (int \<Rightarrow> u32) \<Rightarrow> fd_ctx \<Rightarrow> bool \<times> fd_ctx \<times> setfl list" where
  "fc_init fstat_f getfl c =
    (if fc_isInit c then (True, c, [])
     else
       let c = (case fstat_f (fc_fd c) of
                  None \<Rightarrow> c\<lparr>fc_isInit := False, fc_isSocket := False\<rparr>
                | Some sock \<Rightarrow> c\<lparr>fc_isInit := True, fc_isSocket := sock\<rparr>);
           calls = (if fc_isSocket c \<and> getfl (fc_fd c) AND O_NONBLOCK = 0
                    then [(fc_fd c, getfl (fc_fd c) OR O_NONBLOCK)] else []);
           c = c\<lparr>fc_sysNonblock := fc_isSocket c, fc_userNonblock := False, fc_isClosed := False\<rparr>
       in (fc_isInit c, c, calls))"

definition new_fd_ctx :: "(int \<Rightarrow> bool option) \<Rightarrow> (int \<Rightarrow> u32) \<Rightarrow> int \<Rightarrow> fd_ctx \<times> setfl list" where
  "new_fd_ctx fstat_f getfl fd =
    snd (fc_init fstat_f getfl
      \<lparr>fc_isInit = False, fc_isSocket = False, fc_sysNonblock = False, fc_userNonblock = False,
       fc_isClosed = False, fc_fd = fd, fc_recvTimeout = - 1, fc_sendTimeout = - 1\<rparr>)"

definition SO_RCVTIMEO :: int where "SO_RCVTIMEO = 20"
definition SO_SNDTIMEO :: int where "SO_SNDTIMEO = 21"

definition fc_setTimeout :: "fd_ctx \<Rightarrow> int \<Rightarrow> u64 \<Rightarrow> fd_ctx" where
  "fc_setTimeout c type v =
    (if type = SO_RCVTIMEO then c\<lparr>fc_recvTimeout := v\<rparr> else c\<lparr>fc_sendTimeout := v\<rparr>)"

definition fc_getTimeout :: "fd_ctx \<Rightarrow> int \<Rightarrow> u64" where
  "fc_getTimeout c type = (if type = SO_RCVTIMEO then fc_recvTimeout c else fc_sendTimeout c)"

definition fc_setUserNonblock :: "fd_ctx \<Rightarrow> bool \<Rightarrow> fd_ctx" where
  "fc_setUserNonblock c v = c\<lparr>fc_userNonblock := v\<rparr>"

definition fc_setSysNonblock :: "fd_ctx \<Rightarrow> bool \<Rightarrow> fd_ctx" where
  "fc_setSysNonblock c v = c\<lparr>fc_sysNonblock := v\<rparr>"

subsection \<open>The table\<close>

definition new_fd_manager :: fd_manager where
  "new_fd_manager = \<lparr>fm_heap = Map.empty, fm_datas = replicate 64 None\<rparr>"

text \<open>\<open>m_datas[fd]\<close>, converted to \<open>size_t\<close>.\<close>

definition data_at :: "fd_manager \<Rightarrow> int \<Rightarrow> fd_error + nat option" where
  "data_at fm fd =
    (if 0 \<le> fd \<and> nat fd < length (fm_datas fm) then Inr (fm_datas fm ! nat fd) else Inl BadIndex)"

definition resize :: "'a option list \<Rightarrow> nat \<Rightarrow> 'a option list" where
  "resize xs n = take n xs @ replicate (n - length xs) None"

text \<open>
  \<open>get\<close> has two sections. Under the read lock it looks the descriptor up, \<open>fm_find\<close>: \<open>None\<close> if it goes
  on to create a context. Under the write lock it creates one without looking again, \<open>fm_create\<close>; \<open>p\<close> is
  the address of the new context, and \<open>fd * 1.5\<close> is exact in double. \<open>fm_get\<close> is the two with nothing
  in between.
\<close>

definition fm_find :: "fd_manager \<Rightarrow> int \<Rightarrow> bool \<Rightarrow> fd_error + nat option option" where
  "fm_find fm fd auto_create =
    (if int (length (fm_datas fm)) \<le> fd then Inr (if \<not> auto_create then Some None else None)
     else bindR (data_at fm fd) (\<lambda>d. Inr (if d \<noteq> None \<or> \<not> auto_create then Some d else None)))"

definition fm_create ::
    "(int \<Rightarrow> bool option) \<Rightarrow> (int \<Rightarrow> u32) \<Rightarrow> nat \<Rightarrow> fd_manager \<Rightarrow> int \<Rightarrow>
      fd_error + (nat option \<times> fd_manager \<times> setfl list)" where
  "fm_create fstat_f getfl p fm fd =
    (let (ctx, calls) = new_fd_ctx fstat_f getfl fd;
         datas = (if fd \<ge> int (length (fm_datas fm)) then resize (fm_datas fm) (nat (fd * 3 div 2))
                  else fm_datas fm)
     in if 0 \<le> fd \<and> nat fd < length datas
        then Inr (Some p, fm\<lparr>fm_heap := (fm_heap fm)(p \<mapsto> ctx), fm_datas := datas[nat fd := Some p]\<rparr>, calls)
        else Inl BadIndex)"

definition fm_get ::
    "(int \<Rightarrow> bool option) \<Rightarrow> (int \<Rightarrow> u32) \<Rightarrow> nat \<Rightarrow> fd_manager \<Rightarrow> int \<Rightarrow> bool \<Rightarrow>
      fd_error + (nat option \<times> fd_manager \<times> setfl list)" where
  "fm_get fstat_f getfl p fm fd auto_create =
    (if fd = - 1 then Inr (None, fm, [])
     else bindR (fm_find fm fd auto_create) (\<lambda>found.
       case found of Some d \<Rightarrow> Inr (d, fm, []) | None \<Rightarrow> fm_create fstat_f getfl p fm fd))"

definition fm_del :: "fd_manager \<Rightarrow> int \<Rightarrow> fd_error + fd_manager" where
  "fm_del fm fd =
    (if int (length (fm_datas fm)) \<le> fd then Inr fm
     else bindR (data_at fm fd) (\<lambda>_. Inr (fm\<lparr>fm_datas := (fm_datas fm)[nat fd := None]\<rparr>)))"

text \<open>What a caller does through the pointer it holds.\<close>

definition fm_update :: "fd_manager \<Rightarrow> nat \<Rightarrow> (fd_ctx \<Rightarrow> fd_ctx) \<Rightarrow> fd_manager" where
  "fm_update fm p f = fm\<lparr>fm_heap := (fm_heap fm)(p := map_option f (fm_heap fm p))\<rparr>"

subsection \<open>Invariant\<close>

text \<open>The table has at least 64 entries, and entry \<open>i\<close> is null or a live context of descriptor \<open>i\<close>.\<close>

definition fm_lookup :: "fd_manager \<Rightarrow> int \<Rightarrow> nat option" where
  "fm_lookup fm fd =
    (if 0 \<le> fd \<and> nat fd < length (fm_datas fm) then fm_datas fm ! nat fd else None)"

definition fm_ok :: "fd_manager \<Rightarrow> bool" where
  "fm_ok fm \<longleftrightarrow> 64 \<le> length (fm_datas fm) \<and>
    (\<forall>fd p. fm_lookup fm fd = Some p \<longrightarrow> (\<exists>c. fm_heap fm p = Some c \<and> fc_fd c = fd))"

lemma fm_okI:
  "64 \<le> length (fm_datas fm) \<Longrightarrow>
    (\<And>fd p. fm_lookup fm fd = Some p \<Longrightarrow> \<exists>c. fm_heap fm p = Some c \<and> fc_fd c = fd) \<Longrightarrow> fm_ok fm"
  by (simp add: fm_ok_def)

lemma new_fd_manager_ok: "fm_ok new_fd_manager"
  by (simp add: fm_ok_def new_fd_manager_def fm_lookup_def)

lemma new_fd_ctx_simps:
  "fst (new_fd_ctx fstat_f getfl fd) =
    \<lparr>fc_isInit = (fstat_f fd \<noteq> None), fc_isSocket = (fstat_f fd = Some True),
     fc_sysNonblock = (fstat_f fd = Some True), fc_userNonblock = False, fc_isClosed = False,
     fc_fd = fd, fc_recvTimeout = - 1, fc_sendTimeout = - 1\<rparr>"
  "snd (new_fd_ctx fstat_f getfl fd) =
    (if fstat_f fd = Some True \<and> getfl fd AND O_NONBLOCK = 0 then [(fd, getfl fd OR O_NONBLOCK)] else [])"
  by (cases "fstat_f fd"; auto simp: new_fd_ctx_def fc_init_def Let_def)+

lemma fm_lookup_simps:
  "fd < int (length (fm_datas fm)) \<Longrightarrow> 0 \<le> fd \<Longrightarrow> data_at fm fd = Inr (fm_lookup fm fd)"
  "int (length (fm_datas fm)) \<le> fd \<Longrightarrow> fm_lookup fm fd = None"
  by (auto simp: data_at_def fm_lookup_def)

lemma fm_ok_lookup:
  assumes "fm_ok fm" "fm_lookup fm fd = Some p"
  shows "\<exists>c. fm_heap fm p = Some c \<and> fc_fd c = fd" "p \<in> dom (fm_heap fm)"
  using assms by (auto simp: fm_ok_def)

lemma nth_resize: "i < n \<Longrightarrow> resize xs n ! i = (if i < length xs then xs ! i else None)"
  by (simp add: resize_def nth_append)

lemma length_resize [simp]: "length (resize xs n) = n"
  by (simp add: resize_def)

text \<open>Creating a context for a descriptor that has none.\<close>

lemma create_ctx:
  fixes fd :: int
  assumes ok: "fm_ok fm" and p: "p \<notin> dom (fm_heap fm)" and fd: "0 \<le> fd"
  defines "datas \<equiv> (if fd \<ge> int (length (fm_datas fm)) then resize (fm_datas fm) (nat (fd * 3 div 2))
    else fm_datas fm)"
  assumes c: "fc_fd c = fd"
  defines "fm' \<equiv> fm\<lparr>fm_heap := (fm_heap fm)(p \<mapsto> c), fm_datas := datas[nat fd := Some p]\<rparr>"
  shows "nat fd < length datas" "fm_ok fm'"
    "fm_lookup fm' k = (if k = fd then Some p else fm_lookup fm k)"
proof -
  have len: "64 \<le> length (fm_datas fm)" using ok by (simp add: fm_ok_def)
  then have l: "length (fm_datas fm) \<le> length datas" "nat fd < length datas"
    using fd by (auto simp: datas_def)
  then show "nat fd < length datas" by simp
  have nth: "datas ! i = (if i < length (fm_datas fm) then fm_datas fm ! i else None)"
    if "i < length datas" for i
    using that by (auto simp: datas_def nth_resize split: if_splits)
  then show look: "fm_lookup fm' k = (if k = fd then Some p else fm_lookup fm k)" for k
    using l fd by (auto simp: fm_lookup_def fm'_def nth_list_update nat_eq_iff)
  show "fm_ok fm'"
  proof (rule fm_okI)
    show "64 \<le> length (fm_datas fm')" using len l by (simp add: fm'_def)
    fix k q
    assume "fm_lookup fm' k = Some q"
    then have "(if k = fd then Some p else fm_lookup fm k) = Some q" unfolding look .
    then show "\<exists>c. fm_heap fm' q = Some c \<and> fc_fd c = k"
      using c p fm_ok_lookup [OF ok, of k q] by (auto simp: fm'_def split: if_splits)
  qed
qed

lemma fm_create_spec:
  assumes ok: "fm_ok fm" and p: "p \<notin> dom (fm_heap fm)" and fd: "0 \<le> fd"
  obtains fm' where "fm_create fstat_f getfl p fm fd = Inr (Some p, fm', snd (new_fd_ctx fstat_f getfl fd))" "fm_ok fm'"
    "\<And>k. fm_lookup fm' k = (if k = fd then Some p else fm_lookup fm k)"
    "fm_heap fm' = (fm_heap fm)(p \<mapsto> fst (new_fd_ctx fstat_f getfl fd))"
proof -
  let ?c = "fst (new_fd_ctx fstat_f getfl fd)"
  have "fc_fd ?c = fd" by (simp add: new_fd_ctx_simps)
  note c = create_ctx [OF ok p fd this]
  show ?thesis
    by (rule that [OF _ c(2,3)]) (use c(1) fd in \<open>simp_all add: fm_create_def case_prod_beta Let_def\<close>)
qed

lemma fm_find_none: "0 \<le> fd \<Longrightarrow> fm_lookup fm fd = None \<Longrightarrow> fm_find fm fd True = Inr None"
  by (simp add: fm_find_def fm_lookup_simps(1))

lemma fm_get_create:
  assumes ok: "fm_ok fm" and p: "p \<notin> dom (fm_heap fm)" and fd: "0 \<le> fd" and none: "fm_lookup fm fd = None"
  obtains fm' where "fm_get fstat_f getfl p fm fd True =
      Inr (Some p, fm', snd (new_fd_ctx fstat_f getfl fd))" "fm_ok fm'"
    "\<And>k. fm_lookup fm' k = (if k = fd then Some p else fm_lookup fm k)"
    "fm_heap fm' = (fm_heap fm)(p \<mapsto> fst (new_fd_ctx fstat_f getfl fd))"
  by (rule fm_create_spec [OF ok p fd, of fstat_f getfl])
    (rule that, use fd fm_find_none [OF fd none] in \<open>simp_all add: fm_get_def\<close>)

text \<open>
  Two callers of \<open>get(fd, true)\<close> that both look before either creates get different contexts, and the
  table keeps the later one: what the first caller sets on its context is lost to everyone else.
\<close>

lemma get_race_replaces:
  assumes "fm_ok fm" "p \<notin> dom (fm_heap fm)" "q \<notin> dom (fm_heap fm)" "p \<noteq> q" "0 \<le> fd" "fm_lookup fm fd = None"
  shows "fm_find fm fd True = Inr None \<and>
    (\<exists>fm1 fm2 calls. fm_create fstat_f getfl p fm fd = Inr (Some p, fm1, calls) \<and>
      fm_create fstat_f getfl q fm1 fd = Inr (Some q, fm2, calls) \<and>
      fm_lookup fm1 fd = Some p \<and> fm_lookup fm2 fd = Some q)"
proof -
  obtain fm1 where 1: "fm_create fstat_f getfl p fm fd = Inr (Some p, fm1, snd (new_fd_ctx fstat_f getfl fd))"
    "fm_ok fm1" "fm_lookup fm1 fd = Some p" "fm_heap fm1 = (fm_heap fm)(p \<mapsto> fst (new_fd_ctx fstat_f getfl fd))"
    by (rule fm_create_spec [OF assms(1,2,5), of fstat_f getfl]) simp
  have "q \<notin> dom (fm_heap fm1)" using 1(4) assms(3,4) by simp
  then obtain fm2 where 2: "fm_create fstat_f getfl q fm1 fd = Inr (Some q, fm2, snd (new_fd_ctx fstat_f getfl fd))"
    "fm_lookup fm2 fd = Some q"
    by (rule fm_create_spec [OF 1(2) _ assms(5), of q fstat_f getfl]) simp
  show ?thesis using 1 2 fm_find_none [OF assms(5,6)] by blast
qed

lemma fm_get_hit:
  assumes "0 \<le> fd" "fm_lookup fm fd = Some q"
  shows "fm_get fstat_f getfl p fm fd auto_create = Inr (Some q, fm, [])"
  using assms fm_lookup_simps(1) [of fd fm] fm_lookup_simps(2) [of fm fd]
  by (cases "fd < int (length (fm_datas fm))") (simp_all add: fm_get_def fm_find_def)

lemma fm_get_miss:
  assumes "0 \<le> fd" "fm_lookup fm fd = None"
  shows "fm_get fstat_f getfl p fm fd False = Inr (None, fm, [])"
  using assms fm_lookup_simps(1) [of fd fm]
  by (cases "fd < int (length (fm_datas fm))") (simp_all add: fm_get_def fm_find_def)

lemma fm_del_spec:
  assumes ok: "fm_ok fm" and fd: "0 \<le> fd"
  obtains fm' where "fm_del fm fd = Inr fm'" "fm_ok fm'" "fm_heap fm' = fm_heap fm"
    "\<And>k. fm_lookup fm' k = (if k = fd then None else fm_lookup fm k)"
proof (cases "int (length (fm_datas fm)) \<le> fd")
  case True
  with ok fm_lookup_simps(2) [OF True] show ?thesis by (intro that [of fm]) (auto simp: fm_del_def)
next
  case False
  let ?fm = "fm\<lparr>fm_datas := (fm_datas fm)[nat fd := None]\<rparr>"
  have look: "fm_lookup ?fm k = (if k = fd then None else fm_lookup fm k)" for k
    using fd by (auto simp: fm_lookup_def nth_list_update nat_eq_iff)
  moreover have "fm_ok ?fm"
    using ok by (auto simp: fm_ok_def look)
  moreover have "fm_del fm fd = Inr ?fm"
    using False fd by (simp add: fm_del_def fm_lookup_simps(1))
  ultimately show ?thesis by (intro that [of ?fm]) simp_all
qed

lemma fm_lookup_update [simp]: "fm_lookup (fm_update fm p f) = fm_lookup fm"
  by (simp add: fun_eq_iff fm_lookup_def fm_update_def)

lemma fm_update_ok:
  assumes "fm_ok fm" "\<And>c. fc_fd (f c) = fc_fd c"
  shows "fm_ok (fm_update fm p f)"
proof (rule fm_okI)
  show "64 \<le> length (fm_datas (fm_update fm p f))"
    using assms(1) by (simp add: fm_ok_def fm_update_def)
  fix k q
  assume "fm_lookup (fm_update fm p f) k = Some q"
  then have "fm_lookup fm k = Some q" unfolding fm_lookup_update .
  then show "\<exists>c. fm_heap (fm_update fm p f) q = Some c \<and> fc_fd c = k"
    using fm_ok_lookup [OF assms(1), of k q] assms(2) by (auto simp: fm_update_def)
qed

subsection \<open>Properties\<close>

text \<open>
  C16: on a well-formed table and a descriptor that is not negative, \<open>get(fd, true)\<close> gives the
  context of that descriptor, the one in the table if there is one and otherwise a new one
  (in non-blocking mode when it is a socket, setting \<open>O_NONBLOCK\<close> if the kernel had it
  off); it stays in the table, growing it if needed, no other entry changes, the next \<open>get\<close>
  gives the same pointer and after \<open>del\<close> there is none.
\<close>

theorem fd_table_correct:
  assumes "fm_ok fm" "p \<notin> dom (fm_heap fm)" "0 \<le> fd"
  shows "\<exists>q fm' calls c fm''. fm_get fstat_f getfl p fm fd True = Inr (Some q, fm', calls) \<and> fm_ok fm' \<and>
    q = (case fm_lookup fm fd of Some q \<Rightarrow> q | None \<Rightarrow> p) \<and>
    fm_heap fm' q = Some c \<and> fc_fd c = fd \<and>
    (fm_lookup fm fd = None \<longrightarrow> fc_sysNonblock c = (fstat_f fd = Some True) \<and>
      calls = (if fstat_f fd = Some True \<and> getfl fd AND O_NONBLOCK = 0
               then [(fd, getfl fd OR O_NONBLOCK)] else [])) \<and>
    (\<forall>k. k \<noteq> fd \<longrightarrow> fm_lookup fm' k = fm_lookup fm k) \<and>
    fm_get fstat_f getfl p' fm' fd auto = Inr (Some q, fm', []) \<and>
    fm_del fm' fd = Inr fm'' \<and> fm_ok fm'' \<and> fm_get fstat_f getfl p' fm'' fd False = Inr (None, fm'', [])"
proof (cases "fm_lookup fm fd")
  case None
  obtain fm' where g: "fm_get fstat_f getfl p fm fd True = Inr (Some p, fm', snd (new_fd_ctx fstat_f getfl fd))"
    "fm_ok fm'" "\<And>k. fm_lookup fm' k = (if k = fd then Some p else fm_lookup fm k)"
    "fm_heap fm' = (fm_heap fm)(p \<mapsto> fst (new_fd_ctx fstat_f getfl fd))"
    by (rule fm_get_create [OF assms None that])
  obtain fm'' where d: "fm_del fm' fd = Inr fm''" "fm_ok fm''" "fm_lookup fm'' fd = None"
    by (rule fm_del_spec [OF g(2) assms(3)]) simp
  have "fm_lookup fm' fd = Some p" by (simp add: g(3))
  with g d None show ?thesis
    by (simp add: fm_get_hit [OF assms(3)] fm_get_miss [OF assms(3)] new_fd_ctx_simps)
next
  case (Some q)
  obtain fm'' where d: "fm_del fm fd = Inr fm''" "fm_ok fm''" "fm_lookup fm'' fd = None"
    by (rule fm_del_spec [OF assms(1,3)]) simp
  with assms Some fm_ok_lookup [OF assms(1) Some] show ?thesis
    by (simp add: fm_get_hit [OF assms(3)] fm_get_miss [OF assms(3)])
qed

theorem fd_table_correct_witness:
  "\<exists>fm'. fm_get (\<lambda>_. Some True) (\<lambda>_. 2) 5 new_fd_manager 100 True = Inr (Some 5, fm', [(100, 2050)])"
proof -
  have n: "fm_lookup new_fd_manager 100 = None" by (simp add: new_fd_manager_def fm_lookup_def)
  have p: "(5::nat) \<notin> dom (fm_heap new_fd_manager)" by (simp add: new_fd_manager_def)
  show ?thesis
    using n fd_table_correct [OF new_fd_manager_ok p, where fd = 100 and fstat_f = "\<lambda>_. Some True" and
        getfl = "\<lambda>_. 2" and p' = 6 and auto = True]
    by (auto simp: O_NONBLOCK_def)
qed

end
