(* ===== verification/Fiber.thy ===== *)
theory Fiber
  imports Prelude
begin

text \<open>
  Fibers, \<open>inc/fiber.h\<close> and \<open>src/fiber.cpp\<close>. A fiber is an address in the store
  \<open>fw_fibers\<close>; its callback is a name of type \<open>'f\<close>, what it does being the business of the
  scheduler's model. The thread-local variables of a thread are a \<open>thread_ctx\<close>; its
  component \<open>t_running\<close> is the fiber whose context the processor executes, which
  \<open>swapcontext\<close> changes. A failed \<open>MS_ASSERT\<close> is \<open>AssertFailed\<close>, the use of a null
  scheduler fiber \<open>NullFiber\<close>, and calling an empty \<open>std::function\<close> is what the fiber's
  own \<open>catch\<close> sees. Memory and \<open>getcontext\<close> do not fail.
\<close>

type_synonym faddr = nat

datatype FiberState = INIT | HOLD | EXEC | TERM' | READY | EXCEPT

text \<open>The function the context starts in; a thread's main fiber has none.\<close>

datatype entry_point = NoEntry | MainFunc | CallerMainFunc

record 'f fiber =
  fb_id :: u64
  fb_state :: FiberState
  fb_stack :: "u32 option"
  fb_cb :: "'f option"
  fb_entry :: entry_point

record 'f fiber_world =
  fw_fibers :: "faddr \<Rightarrow> 'f fiber option"
  fw_fiber_id :: u64
  fw_fiber_count :: u64

record thread_ctx =
  t_fiber :: "faddr option"
  t_threadFiber :: "faddr option"
  t_scheduler_fiber :: "faddr option"
  t_running :: "faddr option"

datatype fiber_error = AssertFailed | NullFiber

definition new_thread_ctx :: thread_ctx where
  "new_thread_ctx = \<lparr>t_fiber = None, t_threadFiber = None, t_scheduler_fiber = None, t_running = None\<rparr>"

definition new_fiber_world :: "'f fiber_world" where
  "new_fiber_world = \<lparr>fw_fibers = Map.empty, fw_fiber_id = 0, fw_fiber_count = 0\<rparr>"

definition fiber_at :: "'f fiber_world \<Rightarrow> faddr \<Rightarrow> fiber_error + 'f fiber" where
  "fiber_at w p = (case fw_fibers w p of None \<Rightarrow> Inl NullFiber | Some f \<Rightarrow> Inr f)"

definition put_fiber :: "'f fiber_world \<Rightarrow> faddr \<Rightarrow> 'f fiber \<Rightarrow> 'f fiber_world" where
  "put_fiber w p f = w\<lparr>fw_fibers := (fw_fibers w)(p \<mapsto> f)\<rparr>"

definition set_state :: "'f fiber_world \<Rightarrow> faddr \<Rightarrow> FiberState \<Rightarrow> 'f fiber_world" where
  "set_state w p st =
    w\<lparr>fw_fibers := (fw_fibers w)(p := map_option (\<lambda>f. f\<lparr>fb_state := st\<rparr>) (fw_fibers w p))\<rparr>"

definition ms_assert :: "bool \<Rightarrow> fiber_error + unit" where
  "ms_assert b = (if b then Inr () else Inl AssertFailed)"

subsection \<open>Construction\<close>

definition SetThis :: "thread_ctx \<Rightarrow> faddr option \<Rightarrow> thread_ctx" where
  "SetThis th f = th\<lparr>t_fiber := f\<rparr>"

text \<open>\<open>Fiber::Fiber()\<close>: the main fiber of a thread, at the fresh address \<open>p\<close>, already running.\<close>

definition new_main_fiber ::
    "faddr \<Rightarrow> 'f fiber_world \<times> thread_ctx \<Rightarrow> 'f fiber_world \<times> thread_ctx" where
  "new_main_fiber p wt =
    (let (w, th) = wt;
         f = \<lparr>fb_id = 0, fb_state = EXEC, fb_stack = None, fb_cb = None, fb_entry = NoEntry\<rparr>
     in (put_fiber w p f\<lparr>fw_fiber_count := fw_fiber_count w + 1\<rparr>,
         (SetThis th (Some p))\<lparr>t_running := Some p\<rparr>))"

definition new_fiber ::
    "u32 \<Rightarrow> faddr \<Rightarrow> 'f fiber_world \<Rightarrow> 'f option \<Rightarrow> u32 \<Rightarrow> bool \<Rightarrow> 'f fiber_world" where
  "new_fiber default_size p w cb stackSize use_caller =
    (let f = \<lparr>fb_id = fw_fiber_id w + 1, fb_state = INIT,
              fb_stack = Some (if stackSize \<noteq> 0 then stackSize else default_size), fb_cb = cb,
              fb_entry = (if \<not> use_caller then MainFunc else CallerMainFunc)\<rparr>
     in put_fiber w p f
          \<lparr>fw_fiber_id := fw_fiber_id w + 1, fw_fiber_count := fw_fiber_count w + 1\<rparr>)"

definition finished :: "FiberState \<Rightarrow> bool" where
  "finished st \<longleftrightarrow> st = TERM' \<or> st = EXCEPT \<or> st = INIT"

definition destroy_fiber ::
    "'f fiber_world \<times> thread_ctx \<Rightarrow> faddr \<Rightarrow> fiber_error + ('f fiber_world \<times> thread_ctx)" where
  "destroy_fiber wt p =
    (let (w, th) = wt in
     bindR (fiber_at w p) (\<lambda>f.
       let w' = w\<lparr>fw_fibers := (fw_fibers w)(p := None), fw_fiber_count := fw_fiber_count w - 1\<rparr> in
       if fb_stack f \<noteq> None then bindR (ms_assert (finished (fb_state f))) (\<lambda>_. Inr (w', th))
       else bindR (ms_assert (fb_cb f = None)) (\<lambda>_.
            bindR (ms_assert (fb_state f = EXEC)) (\<lambda>_.
              Inr (w', if t_fiber th = Some p then SetThis th None else th)))))"

definition fiber_reset :: "'f fiber_world \<Rightarrow> faddr \<Rightarrow> 'f option \<Rightarrow> fiber_error + 'f fiber_world" where
  "fiber_reset w p cb =
    bindR (fiber_at w p) (\<lambda>f.
    bindR (ms_assert (fb_stack f \<noteq> None)) (\<lambda>_.
    bindR (ms_assert (finished (fb_state f))) (\<lambda>_.
      Inr (put_fiber w p (f\<lparr>fb_cb := cb, fb_entry := MainFunc, fb_state := INIT\<rparr>)))))"

text \<open>\<open>Fiber::GetThis\<close>: the current fiber, making the thread's main fiber at \<open>p\<close> if there is none.\<close>

definition Fiber_GetThis ::
    "faddr \<Rightarrow> 'f fiber_world \<times> thread_ctx \<Rightarrow> faddr \<times> 'f fiber_world \<times> thread_ctx" where
  "Fiber_GetThis p wt =
    (case t_fiber (snd wt) of
       Some q \<Rightarrow> (q, wt)
     | None \<Rightarrow> let (w, th) = new_main_fiber p wt in (p, w, th\<lparr>t_threadFiber := Some p\<rparr>))"

definition GetFiberId :: "'f fiber_world \<times> thread_ctx \<Rightarrow> fiber_error + u64" where
  "GetFiberId wt =
    (case t_fiber (snd wt) of None \<Rightarrow> Inr 0 | Some q \<Rightarrow> bindR (fiber_at (fst wt) q) (\<lambda>f. Inr (fb_id f)))"

definition TotalFibers :: "'f fiber_world \<Rightarrow> u64" where
  "TotalFibers w = fw_fiber_count w"

subsection \<open>Switching\<close>

text \<open>\<open>swapcontext(&from->m_ctx, &to->m_ctx)\<close>: either pointer may be null.\<close>

definition swapcontext :: "thread_ctx \<Rightarrow> faddr option \<Rightarrow> faddr option \<Rightarrow> fiber_error + thread_ctx" where
  "swapcontext th from to =
    (if from = None \<or> to = None then Inl NullFiber else Inr (th\<lparr>t_running := to\<rparr>))"

definition swapIn ::
    "'f fiber_world \<times> thread_ctx \<Rightarrow> faddr \<Rightarrow> fiber_error + ('f fiber_world \<times> thread_ctx)" where
  "swapIn wt p =
    (let (w, th) = wt; th = SetThis th (Some p) in
     bindR (fiber_at w p) (\<lambda>f.
     bindR (ms_assert (fb_state f \<noteq> EXEC)) (\<lambda>_.
     bindR (swapcontext th (t_scheduler_fiber th) (Some p)) (\<lambda>th. Inr (set_state w p EXEC, th)))))"

definition swapOut ::
    "'f fiber_world \<times> thread_ctx \<Rightarrow> faddr \<Rightarrow> fiber_error + ('f fiber_world \<times> thread_ctx)" where
  "swapOut wt p =
    (let (w, th) = wt; th = SetThis th (t_scheduler_fiber th) in
     bindR (swapcontext th (Some p) (t_scheduler_fiber th)) (\<lambda>th. Inr (w, th)))"

definition fiber_call ::
    "'f fiber_world \<times> thread_ctx \<Rightarrow> faddr \<Rightarrow> fiber_error + ('f fiber_world \<times> thread_ctx)" where
  "fiber_call wt p =
    (let (w, th) = wt; th = SetThis th (Some p) in
     bindR (fiber_at w p) (\<lambda>_.
     bindR (swapcontext th (t_threadFiber th) (Some p)) (\<lambda>th. Inr (set_state w p EXEC, th))))"

definition fiber_back ::
    "'f fiber_world \<times> thread_ctx \<Rightarrow> faddr \<Rightarrow> fiber_error + ('f fiber_world \<times> thread_ctx)" where
  "fiber_back wt p =
    (let (w, th) = wt; th = SetThis th (t_threadFiber th) in
     bindR (swapcontext th (Some p) (t_threadFiber th)) (\<lambda>th. Inr (w, th)))"

text \<open>
  The two yields of the running fiber: \<open>YieldToReady\<close> changes the state before it swaps out,
  \<open>YieldToHold\<close> leaves it \<open>EXEC\<close>, for the scheduler to change once the context is saved.
\<close>

definition YieldToReady ::
    "faddr \<Rightarrow> 'f fiber_world \<times> thread_ctx \<Rightarrow> fiber_error + ('f fiber_world \<times> thread_ctx)" where
  "YieldToReady p wt =
    (let (cur, w, th) = Fiber_GetThis p wt in
     bindR (fiber_at w cur) (\<lambda>f.
     bindR (ms_assert (fb_state f = EXEC)) (\<lambda>_. swapOut (set_state w cur READY, th) cur)))"

definition YieldToHold ::
    "faddr \<Rightarrow> 'f fiber_world \<times> thread_ctx \<Rightarrow> fiber_error + ('f fiber_world \<times> thread_ctx)" where
  "YieldToHold p wt =
    (let (cur, w, th) = Fiber_GetThis p wt in
     bindR (fiber_at w cur) (\<lambda>f.
     bindR (ms_assert (fb_state f = EXEC)) (\<lambda>_. swapOut (w, th) cur)))"

text \<open>
  What \<open>MainFunc\<close> and \<open>CallerMainFunc\<close> do once the callback is over: it returned, or an
  exception left it. \<open>MainFunc\<close> goes back to the scheduler's fiber, \<open>CallerMainFunc\<close> to
  the thread's main fiber.
\<close>

definition main_func_end ::
    "'f fiber_world \<times> thread_ctx \<Rightarrow> faddr \<Rightarrow> bool \<Rightarrow> fiber_error + ('f fiber_world \<times> thread_ctx)" where
  "main_func_end wt p threw =
    (let (w, th) = wt in
     bindR (fiber_at w p) (\<lambda>f.
       let f' = (if threw then f\<lparr>fb_state := EXCEPT\<rparr> else f\<lparr>fb_cb := None, fb_state := TERM'\<rparr>);
           wt' = (put_fiber w p f', th)
       in case fb_entry f of
            MainFunc \<Rightarrow> swapOut wt' p
          | CallerMainFunc \<Rightarrow> fiber_back wt' p
          | NoEntry \<Rightarrow> Inl AssertFailed))"

subsection \<open>Facts\<close>

definition state_of :: "'f fiber_world \<Rightarrow> faddr \<Rightarrow> FiberState option" where
  "state_of w p = map_option fb_state (fw_fibers w p)"

definition cb_of :: "'f fiber_world \<Rightarrow> faddr \<Rightarrow> 'f option" where
  "cb_of w p = (case fw_fibers w p of None \<Rightarrow> None | Some f \<Rightarrow> fb_cb f)"

lemma ms_assert_simps [simp]: "ms_assert True = Inr ()" "ms_assert False = Inl AssertFailed"
  by (simp_all add: ms_assert_def)

lemma fiber_at_Some [simp]: "fw_fibers w p = Some f \<Longrightarrow> fiber_at w p = Inr f"
  by (simp add: fiber_at_def)

lemma state_of_set_state [simp]:
  "state_of (set_state w p st) q = (if q = p \<and> fw_fibers w p \<noteq> None then Some st else state_of w q)"
  by (auto simp: state_of_def set_state_def)

lemma state_of_put [simp]:
  "state_of (put_fiber w p f) q = (if q = p then Some (fb_state f) else state_of w q)"
  by (simp add: state_of_def put_fiber_def)

lemma dom_set_state [simp]: "dom (fw_fibers (set_state w p st)) = dom (fw_fibers w)"
  by (auto simp: set_state_def)

lemma fw_fibers_set_state:
  "fw_fibers (set_state w p st) q =
    (if q = p then map_option (\<lambda>f. f\<lparr>fb_state := st\<rparr>) (fw_fibers w p) else fw_fibers w q)"
  by (simp add: set_state_def)

lemma state_of_Some: "state_of w p = Some st \<longleftrightarrow> (\<exists>f. fw_fibers w p = Some f \<and> fb_state f = st)"
  by (auto simp: state_of_def)

lemma swapIn_run:
  assumes "fw_fibers w p = Some f" "fb_state f \<noteq> EXEC" "t_scheduler_fiber th = Some m"
  shows "swapIn (w, th) p = Inr (set_state w p EXEC, th\<lparr>t_fiber := Some p, t_running := Some p\<rparr>)"
  using assms by (simp add: swapIn_def swapcontext_def SetThis_def)

lemma swapOut_run:
  "t_scheduler_fiber th = Some m \<Longrightarrow>
    swapOut (w, th) p = Inr (w, th\<lparr>t_fiber := Some m, t_running := Some m\<rparr>)"
  by (simp add: swapOut_def swapcontext_def SetThis_def)

subsection \<open>Properties\<close>

definition demo_fiber :: "nat fiber" where
  "demo_fiber = \<lparr>fb_id = 1, fb_state = INIT, fb_stack = Some 4096, fb_cb = Some 0, fb_entry = MainFunc\<rparr>"

definition demo_world :: "nat fiber_world" where
  "demo_world = \<lparr>fw_fibers = [5 \<mapsto> demo_fiber], fw_fiber_id = 1, fw_fiber_count = 1\<rparr>"



text \<open>
  Destroying a fiber with a stack passes its assertion exactly when it never ran or is
  over; a suspended one (\<open>HOLD\<close>, \<open>READY\<close>) that loses its last reference aborts the program.
\<close>

lemma destroy_fiber_guard:
  assumes "fw_fibers w p = Some f" "fb_stack f \<noteq> None"
  shows "destroy_fiber (w, th) p =
    (if fb_state f \<in> {INIT, TERM', EXCEPT}
     then Inr (w\<lparr>fw_fibers := (fw_fibers w)(p := None), fw_fiber_count := fw_fiber_count w - 1\<rparr>, th)
     else Inl AssertFailed)"
  using assms by (cases "fb_state f") (auto simp: destroy_fiber_def finished_def)

end
