(* ===== verification/Ordered_Set.thy ===== *)
theory Ordered_Set
  imports Prelude
begin

text \<open>
  \<open>std::set\<close> and \<open>std::map\<close> with a comparator, as the program uses them: the elements in
  the comparator's order, two elements being the same when neither is less than the
  other. The timers, the request and response headers, the socket data are such
  containers. The contract of a comparator is the locale \<open>weak_order\<close> (a strict weak
  order, what C++ requires) and its extension \<open>strict_order\<close>, where elements that are
  the same to the comparator are equal.
\<close>

subsection \<open>Operations\<close>

definition oset_lower_bound :: "('a \<Rightarrow> 'a \<Rightarrow> bool) \<Rightarrow> 'a \<Rightarrow> 'a list \<Rightarrow> 'a list" where
  "oset_lower_bound lt x xs = dropWhile (\<lambda>y. lt y x) xs"

definition oset_find :: "('a \<Rightarrow> 'a \<Rightarrow> bool) \<Rightarrow> 'a \<Rightarrow> 'a list \<Rightarrow> 'a option" where
  "oset_find lt x xs =
    (case oset_lower_bound lt x xs of [] \<Rightarrow> None | y # _ \<Rightarrow> if lt x y then None else Some y)"

text \<open>\<open>insert\<close> does nothing when the element is there already.\<close>

definition oset_insert :: "('a \<Rightarrow> 'a \<Rightarrow> bool) \<Rightarrow> 'a \<Rightarrow> 'a list \<Rightarrow> 'a list" where
  "oset_insert lt x xs =
    (if oset_find lt x xs \<noteq> None then xs
     else takeWhile (\<lambda>y. lt y x) xs @ x # oset_lower_bound lt x xs)"

text \<open>\<open>m[k] = v\<close> of a map: as \<open>insert\<close>, but an element that is there is replaced.\<close>

definition oset_assign :: "('a \<Rightarrow> 'a \<Rightarrow> bool) \<Rightarrow> 'a \<Rightarrow> 'a list \<Rightarrow> 'a list" where
  "oset_assign lt x xs =
    takeWhile (\<lambda>y. lt y x) xs @ x #
      (if oset_find lt x xs \<noteq> None then tl (oset_lower_bound lt x xs) else oset_lower_bound lt x xs)"

text \<open>\<open>erase(find(x))\<close>, and \<open>erase\<close> of a key: nothing when it is not there.\<close>

definition oset_remove :: "('a \<Rightarrow> 'a \<Rightarrow> bool) \<Rightarrow> 'a \<Rightarrow> 'a list \<Rightarrow> 'a list" where
  "oset_remove lt x xs =
    (if oset_find lt x xs = None then xs
     else takeWhile (\<lambda>y. lt y x) xs @ tl (oset_lower_bound lt x xs))"

text \<open>
  A map is an ordered container of pairs compared by key. \<open>m[k] = v\<close> on a key that is
  there, as the comparator sees it, changes the value and keeps the key's old spelling.
\<close>

definition by_key :: "('k \<Rightarrow> 'k \<Rightarrow> bool) \<Rightarrow> 'k \<times> 'v \<Rightarrow> 'k \<times> 'v \<Rightarrow> bool" where
  "by_key klt x y = klt (fst x) (fst y)"

definition omap_find :: "('k \<Rightarrow> 'k \<Rightarrow> bool) \<Rightarrow> 'k \<Rightarrow> ('k \<times> 'v) list \<Rightarrow> ('k \<times> 'v) option" where
  "omap_find klt k m =
    (case dropWhile (\<lambda>x. klt (fst x) k) m of
       [] \<Rightarrow> None
     | x # _ \<Rightarrow> if klt k (fst x) then None else Some x)"

definition omap_put :: "('k \<Rightarrow> 'k \<Rightarrow> bool) \<Rightarrow> 'k \<Rightarrow> 'v \<Rightarrow> ('k \<times> 'v) list \<Rightarrow> ('k \<times> 'v) list" where
  "omap_put klt k v m =
    (case omap_find klt k m of
       None \<Rightarrow> oset_insert (by_key klt) (k, v) m
     | Some (k', _) \<Rightarrow> oset_assign (by_key klt) (k', v) m)"

definition omap_erase :: "('k \<Rightarrow> 'k \<Rightarrow> bool) \<Rightarrow> 'k \<Rightarrow> ('k \<times> 'v) list \<Rightarrow> ('k \<times> 'v) list" where
  "omap_erase klt k m =
    (case omap_find klt k m of None \<Rightarrow> m | Some x \<Rightarrow> oset_remove (by_key klt) x m)"

lemma omap_find_oset: "omap_find klt k m = oset_find (by_key klt) (k, v) m"
  unfolding omap_find_def oset_find_def oset_lower_bound_def by_key_def fst_conv by (rule refl)

subsection \<open>The contract of a comparator\<close>

locale weak_order =
  fixes lt :: "'a \<Rightarrow> 'a \<Rightarrow> bool"
  assumes irrefl: "\<not> lt x x"
    and trans: "lt x y \<Longrightarrow> lt y z \<Longrightarrow> lt x z"
    and incomparable_trans: "lt x z \<Longrightarrow> lt x y \<or> lt y z"
begin

definition same :: "'a \<Rightarrow> 'a \<Rightarrow> bool" where
  "same x y \<longleftrightarrow> \<not> lt x y \<and> \<not> lt y x"

abbreviation ordered :: "'a list \<Rightarrow> bool" where
  "ordered xs \<equiv> sorted_wrt lt xs"

lemma same_refl [simp]: "same x x"
  by (simp add: same_def irrefl)

lemma same_sym: "same x y \<Longrightarrow> same y x"
  by (simp add: same_def)

lemma same_trans: "same x y \<Longrightarrow> same y z \<Longrightarrow> same x z"
  using incomparable_trans unfolding same_def by blast

lemma same_cong: "same x y \<Longrightarrow> same x z = same y z"
  by (metis same_sym same_trans)

lemma lt_same_right: "lt x y \<Longrightarrow> same y z \<Longrightarrow> lt x z"
  using incomparable_trans unfolding same_def by blast

lemma lt_same_left: "lt x y \<Longrightarrow> same x z \<Longrightarrow> lt z y"
  using incomparable_trans unfolding same_def by blast

lemma before_lower_bound: "y \<in> set (takeWhile (\<lambda>y. lt y x) xs) \<Longrightarrow> lt y x"
  by (rule set_takeWhileD [THEN conjunct2])

lemma after_lower_bound:
  assumes "ordered xs" "y \<in> set (oset_lower_bound lt x xs)"
  shows "\<not> lt y x"
  using assms
proof (induction xs)
  case Nil
  then show ?case by (simp add: oset_lower_bound_def)
next
  case (Cons z zs)
  then show ?case
    by (cases "lt z x") (auto simp: oset_lower_bound_def intro: trans)
qed

text \<open>A container splits into what is less, the element that is the same if any, and the rest.\<close>

lemma split_found:
  assumes "ordered xs" "oset_find lt x xs = Some y"
  shows "xs = takeWhile (\<lambda>y. lt y x) xs @ y # tl (oset_lower_bound lt x xs)" "same x y"
    "\<forall>z \<in> set (tl (oset_lower_bound lt x xs)). lt x z"
proof -
  from assms(2) obtain ys where lb: "oset_lower_bound lt x xs = y # ys" and le: "\<not> lt x y"
    by (auto simp: oset_find_def split: list.splits if_splits)
  then show xs: "xs = takeWhile (\<lambda>y. lt y x) xs @ y # tl (oset_lower_bound lt x xs)"
    by (metis takeWhile_dropWhile_id oset_lower_bound_def list.sel(3))
  from after_lower_bound [OF assms(1), of y x] lb le show s: "same x y" by (simp add: same_def)
  have "ordered (y # ys)" using xs lb assms(1) by (metis list.sel(3) sorted_wrt_append)
  with lb s show "\<forall>z \<in> set (tl (oset_lower_bound lt x xs)). lt x z"
    by (auto intro: lt_same_left same_sym)
qed

lemma split_missing:
  assumes "ordered xs" "oset_find lt x xs = None"
  shows "xs = takeWhile (\<lambda>y. lt y x) xs @ oset_lower_bound lt x xs"
    "\<forall>z \<in> set (oset_lower_bound lt x xs). lt x z"
proof -
  show xs: "xs = takeWhile (\<lambda>y. lt y x) xs @ oset_lower_bound lt x xs"
    by (simp add: oset_lower_bound_def)
  show "\<forall>z \<in> set (oset_lower_bound lt x xs). lt x z"
  proof (cases "oset_lower_bound lt x xs")
    case (Cons y ys)
    with assms(2) have "lt x y" by (auto simp: oset_find_def split: if_splits)
    moreover have "ordered (y # ys)" using xs Cons assms(1) by (metis sorted_wrt_append)
    ultimately show ?thesis using Cons by (auto intro: trans)
  qed simp
qed

lemma find_iff:
  assumes "ordered xs"
  shows "oset_find lt x xs \<noteq> None \<longleftrightarrow> (\<exists>y \<in> set xs. same x y)"
proof (cases "oset_find lt x xs")
  case None
  note s = split_missing [OF assms None]
  have "\<not> same x y" if "y \<in> set xs" for y
  proof -
    from that have "lt y x \<or> lt x y" using s before_lower_bound
      by (metis UnE set_append)
    then show ?thesis by (auto simp: same_def)
  qed
  with None show ?thesis by auto
next
  case (Some y)
  then show ?thesis using split_found [OF assms Some] by (metis in_set_conv_decomp option.simps(3))
qed

lemma find_SomeD:
  assumes "ordered xs" "oset_find lt x xs = Some y"
  shows "y \<in> set xs" "same x y"
  using split_found [OF assms] by (metis in_set_conv_decomp)+

lemma ordered_insert: "ordered xs \<Longrightarrow> ordered (oset_insert lt x xs)"
proof (cases "oset_find lt x xs")
  case None
  assume o: "ordered xs"
  note s = split_missing [OF o None]
  from o s(1) have "ordered (takeWhile (\<lambda>y. lt y x) xs)" "ordered (oset_lower_bound lt x xs)"
    "\<forall>a \<in> set (takeWhile (\<lambda>y. lt y x) xs). \<forall>b \<in> set (oset_lower_bound lt x xs). lt a b"
    by (metis sorted_wrt_append)+
  with s(2) None show ?thesis
    by (auto simp: oset_insert_def sorted_wrt_append dest: before_lower_bound)
qed (simp add: oset_insert_def)

lemma set_insert:
  assumes "ordered xs"
  shows "set (oset_insert lt x xs) =
    (if \<exists>y \<in> set xs. same x y then set xs else insert x (set xs))"
proof (cases "oset_find lt x xs")
  case None
  note s = split_missing [OF assms None]
  have "set (oset_insert lt x xs) = insert x (set xs)"
    using None arg_cong [OF s(1), of set] by (simp add: oset_insert_def)
  with None find_iff [OF assms, of x] show ?thesis by simp
next
  case (Some y)
  with find_iff [OF assms, of x] show ?thesis by (simp add: oset_insert_def)
qed

lemma ordered_middle: "ordered (xs @ y # zs) \<Longrightarrow> ordered (xs @ zs)"
  by (simp add: sorted_wrt_append)

lemma ordered_remove: "ordered xs \<Longrightarrow> ordered (oset_remove lt x xs)"
proof (cases "oset_find lt x xs")
  case (Some y)
  assume o: "ordered xs"
  note s = split_found [OF o Some]
  have "ordered (takeWhile (\<lambda>y. lt y x) xs @ tl (oset_lower_bound lt x xs))"
    by (rule ordered_middle [of _ y]) (rule s(1) [THEN arg_cong, of ordered, THEN iffD1, OF o])
  with Some show ?thesis by (simp add: oset_remove_def)
qed (simp add: oset_remove_def)

lemma set_remove:
  assumes "ordered xs"
  shows "set (oset_remove lt x xs) = {y \<in> set xs. \<not> same x y}"
proof (cases "oset_find lt x xs")
  case None
  with find_iff [OF assms, of x] show ?thesis by (auto simp: oset_remove_def)
next
  case (Some y)
  note s = split_found [OF assms Some]
  have "\<not> same x z" if "z \<in> set (takeWhile (\<lambda>y. lt y x) xs) \<union> set (tl (oset_lower_bound lt x xs))" for z
    using that s(3) before_lower_bound [of z x xs] by (auto simp: same_def)
  moreover have "set xs = set (takeWhile (\<lambda>y. lt y x) xs) \<union> {y} \<union> set (tl (oset_lower_bound lt x xs))"
    using arg_cong [OF s(1), of set] by simp
  ultimately show ?thesis using s(2) Some by (auto simp: oset_remove_def)
qed

lemma ordered_assign: "ordered xs \<Longrightarrow> ordered (oset_assign lt x xs)"
proof (cases "oset_find lt x xs")
  case None
  assume o: "ordered xs"
  then have "ordered (oset_insert lt x xs)" by (rule ordered_insert)
  with None show ?thesis by (simp add: oset_insert_def oset_assign_def)
next
  case (Some y)
  assume o: "ordered xs"
  note s = split_found [OF o Some]
  have "ordered (takeWhile (\<lambda>y. lt y x) xs @ tl (oset_lower_bound lt x xs))"
    by (rule ordered_middle [of _ y]) (rule s(1) [THEN arg_cong, of ordered, THEN iffD1, OF o])
  with s(3) Some show ?thesis
    by (auto simp: oset_assign_def sorted_wrt_append dest: before_lower_bound)
qed

lemma set_assign:
  assumes "ordered xs"
  shows "set (oset_assign lt x xs) = insert x {y \<in> set xs. \<not> same x y}"
proof (cases "oset_find lt x xs")
  case None
  with set_insert [OF assms, of x] find_iff [OF assms, of x] show ?thesis
    by (auto simp: oset_insert_def oset_assign_def)
next
  case (Some y)
  with set_remove [OF assms, of x] show ?thesis by (auto simp: oset_remove_def oset_assign_def)
qed

lemma ordered_hd_least: "ordered (x # xs) \<Longrightarrow> y \<in> set (x # xs) \<Longrightarrow> \<not> lt y x"
  using irrefl trans [of y x y] by auto

lemma ordered_distinct: "ordered xs \<Longrightarrow> distinct xs"
  by (induction xs) (auto simp: irrefl)

lemma find_unique:
  assumes "ordered zs" "z \<in> set zs" "same y z"
  shows "oset_find lt y zs = Some z"
proof -
  from find_iff [OF assms(1)] assms obtain w where w: "oset_find lt y zs = Some w" by blast
  note f = find_SomeD [OF assms(1) w]
  have "w = z"
  proof (rule ccontr)
    assume "w \<noteq> z"
    with assms(1,2) f(1) have "lt w z \<or> lt z w"
      by (metis in_set_conv_nth linorder_neqE_nat sorted_wrt_iff_nth_less)
    with same_trans [OF same_sym [OF f(2)] assms(3)] show False by (auto simp: same_def)
  qed
  with w show ?thesis by simp
qed

lemma find_assign:
  assumes "ordered xs"
  shows "oset_find lt y (oset_assign lt x xs) =
    (if same y x then Some x else oset_find lt y xs)"
proof -
  note uniq = find_unique
  have o': "ordered (oset_assign lt x xs)" by (rule ordered_assign [OF assms])
  show ?thesis
  proof (cases "same y x")
    case True
    with uniq [OF o', of x] show ?thesis by (simp add: set_assign [OF assms])
  next
    case False
    show ?thesis
    proof (cases "oset_find lt y xs")
      case None
      with find_iff [OF assms, of y] have "\<forall>z \<in> set (oset_assign lt x xs). \<not> same y z"
        using False by (auto simp: set_assign [OF assms])
      with find_iff [OF o', of y] None False show ?thesis by auto
    next
      case (Some z)
      note f = find_SomeD [OF assms Some]
      have "\<not> same x z" using False f(2) same_trans same_sym by blast
      with uniq [OF o', of z] f Some False show ?thesis by (simp add: set_assign [OF assms])
    qed
  qed
qed

end

locale strict_order = weak_order +
  assumes same_eq: "\<not> lt x y \<Longrightarrow> \<not> lt y x \<Longrightarrow> x = y"
begin

lemma same_iff [simp]: "same x y \<longleftrightarrow> x = y"
  using same_eq irrefl by (auto simp: same_def)

lemma find_eq: "ordered xs \<Longrightarrow> oset_find lt x xs = (if x \<in> set xs then Some x else None)"
  using find_iff [of xs x] find_SomeD [of xs x] by (cases "oset_find lt x xs") auto

lemma set_insert_eq: "ordered xs \<Longrightarrow> set (oset_insert lt x xs) = insert x (set xs)"
  by (auto simp: set_insert)

lemma set_remove_eq: "ordered xs \<Longrightarrow> set (oset_remove lt x xs) = set xs - {x}"
  by (auto simp: set_remove)

end

subsection \<open>Maps\<close>

locale ordered_map = weak_order klt for klt :: "'k \<Rightarrow> 'k \<Rightarrow> bool"

sublocale ordered_map \<subseteq> entries: weak_order "by_key klt :: 'k \<times> 'v \<Rightarrow> 'k \<times> 'v \<Rightarrow> bool"
  by unfold_locales (auto simp: by_key_def irrefl intro: trans dest: incomparable_trans)

context ordered_map begin

abbreviation map_ok :: "('k \<times> 'v) list \<Rightarrow> bool" where
  "map_ok m \<equiv> sorted_wrt (by_key klt) m"

definition value_at :: "'k \<Rightarrow> ('k \<times> 'v) list \<Rightarrow> 'v option" where
  "value_at k m = map_option snd (omap_find klt k m)"

lemma entries_same: "entries.same x y = same (fst x) (fst y)"
  by (simp add: entries.same_def same_def by_key_def)

lemma put_ok: "map_ok m \<Longrightarrow> map_ok (omap_put klt k v m)"
  by (auto simp: omap_put_def intro: entries.ordered_insert entries.ordered_assign split: option.split)

lemma erase_ok: "map_ok m \<Longrightarrow> map_ok (omap_erase klt k m)"
  by (auto simp: omap_erase_def intro: entries.ordered_remove split: option.split)

lemma find_same:
  assumes "map_ok m" "omap_find klt k m = Some x"
  shows "x \<in> set m" "same k (fst x)"
  using entries.find_SomeD [OF assms(1), of "(k, snd x)" x] assms(2)
  by (simp_all add: omap_find_oset [of _ _ _ "snd x"] entries_same)

lemma find_None_iff:
  assumes "map_ok m"
  shows "omap_find klt k m = None \<longleftrightarrow> (\<forall>y \<in> set m. \<not> same k (fst y))"
  using entries.find_iff [OF assms, of "(k, undefined)"]
  by (auto simp: omap_find_oset [of _ k _ undefined] entries_same)

lemma put_eq_assign:
  assumes "map_ok m"
  shows "\<exists>k'. same k k' \<and> omap_put klt k v m = oset_assign (by_key klt) (k', v) m \<and>
    (omap_find klt k m = None \<longrightarrow> k' = k)"
proof (cases "omap_find klt k m")
  case None
  then have "oset_find (by_key klt) (k, v) m = None" by (simp add: omap_find_oset [of _ _ _ v])
  with None show ?thesis
    by (intro exI [of _ k]) (simp add: omap_put_def oset_insert_def oset_assign_def)
next
  case (Some x)
  with find_same [OF assms Some] show ?thesis
    by (intro exI [of _ "fst x"]) (simp add: omap_put_def split: prod.split)
qed

lemma value_at_put:
  assumes "map_ok m"
  shows "value_at k (omap_put klt k' v m) = (if same k k' then Some v else value_at k m)"
proof -
  from put_eq_assign [OF assms] obtain k'' where
    k: "same k' k''" "omap_put klt k' v m = oset_assign (by_key klt) (k'', v) m" by blast
  have "same k k'' \<longleftrightarrow> same k k'" using same_cong [OF k(1), of k] same_sym by blast
  with entries.find_assign [OF assms, of "(k, v)" "(k'', v)"] show ?thesis
    by (simp add: value_at_def k(2) omap_find_oset [of _ _ _ v] entries_same)
qed

lemma value_at_erase:
  assumes "map_ok m"
  shows "value_at k (omap_erase klt k' m) = (if same k k' then None else value_at k m)"
proof (cases "omap_find klt k' m")
  case None
  have "omap_find klt k m = None" if "same k k'"
    using None same_cong [OF that] by (simp add: find_None_iff [OF assms])
  with None show ?thesis by (simp add: omap_erase_def value_at_def)
next
  case (Some x)
  note f = find_same [OF assms Some]
  have e: "omap_erase klt k' m = oset_remove (by_key klt) x m" using Some by (simp add: omap_erase_def)
  have o: "map_ok (oset_remove (by_key klt) x m)" by (rule entries.ordered_remove [OF assms])
  have s: "set (oset_remove (by_key klt) x m) = {y \<in> set m. \<not> same k' (fst y)}"
    using entries.set_remove [OF assms, of x] same_cong [OF f(2)] by (simp add: entries_same)
  show ?thesis
  proof (cases "same k k'")
    case True
    then have "\<forall>y \<in> set (oset_remove (by_key klt) x m). \<not> same k (fst y)"
      unfolding s using same_cong [OF True] by simp
    with find_None_iff [OF o, of k] True show ?thesis by (simp add: e value_at_def)
  next
    case False
    show ?thesis
    proof (cases "omap_find klt k m")
      case None
      then have "\<forall>y \<in> set (oset_remove (by_key klt) x m). \<not> same k (fst y)"
        unfolding s by (simp add: find_None_iff [OF assms])
      with find_None_iff [OF o, of k] False None show ?thesis by (simp add: e value_at_def)
    next
      case (Some y)
      note g = find_same [OF assms Some]
      have "y \<in> set (oset_remove (by_key klt) x m)"
        unfolding s using g(1) False same_cong [OF same_sym [OF g(2)], of k'] same_sym by blast
      with entries.find_unique [OF o, of y "(k, snd y)"] g False Some show ?thesis
        by (simp add: e value_at_def omap_find_oset [of _ k _ "snd y"] entries_same)
    qed
  qed
qed

end

end
