(* ===== verification/C_String.thy ===== *)
theory C_String
  imports Ordered_Set "HOL-Library.List_Lexorder"
begin

text \<open>
  What the program uses of C and C++ strings. A \<open>std::string\<close> is a list of bytes as
  characters; \<open>c_str\<close> is what a C function sees of it, up to the first NUL. The case
  conversions are those of the C locale. Decimal output is what \<open>operator<<\<close> writes for
  an integer.
\<close>

definition c_str :: "string \<Rightarrow> string" where
  "c_str s = takeWhile (\<lambda>c. c \<noteq> CHR 0x00) s"

definition char_code :: "char \<Rightarrow> nat" where
  "char_code c = of_char c"

definition tolower :: "char \<Rightarrow> char" where
  "tolower c = (if 65 \<le> char_code c \<and> char_code c \<le> 90 then char_of (char_code c + 32) else c)"

lemma c_str_nul_free [simp]: "CHR 0x00 \<notin> set s \<Longrightarrow> c_str s = s"
  unfolding c_str_def by (rule takeWhile_eq_all_conv [THEN iffD2]) auto

lemma char_code_inject [simp]: "char_code c = char_code d \<longleftrightarrow> c = d"
  by (simp add: char_code_def)

lemma char_code_less: "char_code c < 256"
  by (simp add: char_code_def)

lemma char_code_of [simp]: "n < 256 \<Longrightarrow> char_code (char_of n) = n"
  by (simp add: char_code_def)

subsection \<open>Comparison\<close>

definition strcmp_eq :: "string \<Rightarrow> string \<Rightarrow> bool" where
  "strcmp_eq a b \<longleftrightarrow> c_str a = c_str b"

text \<open>\<open>strncmp(a, b, strlen(a)) == 0\<close>: the C string \<open>b\<close> starts with the C string \<open>a\<close>.\<close>

definition strncmp_prefix :: "string \<Rightarrow> string \<Rightarrow> bool" where
  "strncmp_prefix a b \<longleftrightarrow> take (length (c_str a)) (c_str b) = c_str a"

text \<open>The difference at the first place where two C strings differ, ignoring case.\<close>

fun casecmp :: "string \<Rightarrow> string \<Rightarrow> int" where
  "casecmp [] [] = 0"
| "casecmp [] (d # ds) = - int (char_code (tolower d))"
| "casecmp (c # cs) [] = int (char_code (tolower c))"
| "casecmp (c # cs) (d # ds) =
    (if tolower c = tolower d then casecmp cs ds
     else int (char_code (tolower c)) - int (char_code (tolower d)))"

definition strcasecmp :: "string \<Rightarrow> string \<Rightarrow> int" where
  "strcasecmp a b = casecmp (c_str a) (c_str b)"

text \<open>\<open>strcasestr(h, n) != nullptr\<close>\<close>

primrec has_substring_nocase :: "string \<Rightarrow> string \<Rightarrow> bool" where
  "has_substring_nocase n [] = (n = [])"
| "has_substring_nocase n (c # cs) =
    (map tolower (take (length n) (c # cs)) = map tolower n \<or> has_substring_nocase n cs)"

definition strcasestr :: "string \<Rightarrow> string \<Rightarrow> bool" where
  "strcasestr haystack needle \<longleftrightarrow> has_substring_nocase (c_str needle) (c_str haystack)"

text \<open>Ignoring case, strings are in the order of their lower-case codes.\<close>

definition nocase_key :: "string \<Rightarrow> nat list" where
  "nocase_key s = map (\<lambda>c. char_code (tolower c)) (c_str s)"

lemma tolower_nul: "c \<noteq> CHR 0x00 \<Longrightarrow> 0 < char_code (tolower c)"
proof -
  assume "c \<noteq> CHR 0x00"
  then have "char_code c \<noteq> char_code (CHR 0x00)" using char_code_inject by blast
  moreover have "char_code (CHR 0x00) = 0" by (simp add: char_code_def)
  ultimately show ?thesis by (auto simp: tolower_def)
qed

lemma casecmp_key:
  assumes "CHR 0x00 \<notin> set a" "CHR 0x00 \<notin> set b"
  shows "(casecmp a b < 0) = (map (\<lambda>c. char_code (tolower c)) a < map (\<lambda>c. char_code (tolower c)) b) \<and>
    (casecmp a b = 0) = (map (\<lambda>c. char_code (tolower c)) a = map (\<lambda>c. char_code (tolower c)) b)"
  using assms
proof (induction a b rule: casecmp.induct)
  case (2 d ds)
  then have "0 < char_code (tolower d)" by (intro tolower_nul) auto
  then show ?case by simp
next
  case (3 c cs)
  then have "0 < char_code (tolower c)" by (intro tolower_nul) auto
  then show ?case by simp
qed auto

lemma c_str_no_nul: "CHR 0x00 \<notin> set (c_str s)"
  by (auto simp: c_str_def dest: set_takeWhileD)

lemma strcasecmp_less: "strcasecmp a b < 0 \<longleftrightarrow> nocase_key a < nocase_key b"
  and strcasecmp_eq: "strcasecmp a b = 0 \<longleftrightarrow> nocase_key a = nocase_key b"
  using casecmp_key [OF c_str_no_nul c_str_no_nul, of a b]
  by (simp_all add: strcasecmp_def nocase_key_def)

subsection \<open>Decimal output\<close>

fun show_nat :: "nat \<Rightarrow> string" where
  "show_nat n = (if n < 10 then [char_of (48 + n)] else show_nat (n div 10) @ [char_of (48 + n mod 10)])"

declare show_nat.simps [simp del]

definition show_int :: "int \<Rightarrow> string" where
  "show_int i = (if i < 0 then ''-'' @ show_nat (nat (- i)) else show_nat (nat i))"

definition isdigit :: "char \<Rightarrow> bool" where
  "isdigit c \<longleftrightarrow> 48 \<le> char_code c \<and> char_code c \<le> 57"

definition digit_value :: "char \<Rightarrow> nat" where
  "digit_value c = char_code c - 48"

definition read_nat :: "string \<Rightarrow> nat" where
  "read_nat s = foldl (\<lambda>n c. 10 * n + digit_value c) 0 s"

lemma show_nat_digits: "c \<in> set (show_nat n) \<Longrightarrow> isdigit c"
proof (induction n rule: show_nat.induct)
  case (1 n)
  show ?case
  proof (cases "n < 10")
    case True
    with 1 show ?thesis by (subst (asm) (2) show_nat.simps) (auto simp: isdigit_def)
  next
    case False
    have "char_code (char_of (48 + n mod 10)) = 48 + n mod 10" by (rule char_code_of) simp
    with 1 False show ?thesis by (subst (asm) (2) show_nat.simps) (auto simp: isdigit_def)
  qed
qed

lemma show_nat_not_Nil [simp]: "show_nat n \<noteq> []"
  by (subst show_nat.simps) simp

lemma read_show_nat [simp]: "read_nat (show_nat n) = n"
proof (induction n rule: show_nat.induct)
  case (1 n)
  show ?case
  proof (cases "n < 10")
    case True
    then show ?thesis by (subst show_nat.simps) (simp add: read_nat_def digit_value_def)
  next
    case False
    have d: "digit_value (char_of (48 + n mod 10)) = n mod 10"
      unfolding digit_value_def by (subst char_code_of) simp_all
    have "read_nat (show_nat (n div 10) @ [c]) = 10 * read_nat (show_nat (n div 10)) + digit_value c" for c
      by (simp add: read_nat_def)
    with 1 False d show ?thesis by (subst show_nat.simps) simp
  qed
qed

lemma show_nat_inject [simp]: "show_nat m = show_nat n \<longleftrightarrow> m = n"
  by (metis read_show_nat)

subsection \<open>Lines ended by CR LF\<close>

abbreviation CR :: char where "CR \<equiv> CHR 0x0D"
abbreviation LF :: char where "LF \<equiv> CHR 0x0A"

definition crlf :: string where
  "crlf = [CR, LF]"

text \<open>The text up to the first CR LF, and what follows it.\<close>

fun cut_line :: "string \<Rightarrow> (string \<times> string) option" where
  "cut_line (c # d # s) =
    (if c = CR \<and> d = LF then Some ([], s)
     else case cut_line (d # s) of None \<Rightarrow> None | Some (l, r) \<Rightarrow> Some (c # l, r))"
| "cut_line _ = None"

lemma cut_line_append: "CR \<notin> set l \<Longrightarrow> cut_line (l @ crlf @ s) = Some (l, s)"
proof (induction l)
  case (Cons c l)
  then show ?case by (cases l) (auto simp: crlf_def)
qed (simp add: crlf_def)

lemma cut_line_length: "cut_line s = Some (l, r) \<Longrightarrow> length r < length s"
  by (induction s arbitrary: l r rule: cut_line.induct) (auto split: if_splits option.splits)

text \<open>The lines before the first empty one, and what follows the empty line.\<close>

function cut_head :: "string \<Rightarrow> (string list \<times> string) option" where
  "cut_head s =
    (case cut_line s of
       None \<Rightarrow> None
     | Some (l, r) \<Rightarrow>
         if l = [] then Some ([], r)
         else case cut_head r of None \<Rightarrow> None | Some (ls, b) \<Rightarrow> Some (l # ls, b))"
  by pat_completeness auto
termination
  by (relation "measure length") (auto dest: cut_line_length)

declare cut_head.simps [simp del]

definition join_lines :: "string list \<Rightarrow> string" where
  "join_lines ls = concat (map (\<lambda>l. l @ crlf) ls)"

lemma join_lines_simps [simp]:
  "join_lines [] = []" "join_lines (l # ls) = l @ crlf @ join_lines ls"
  "join_lines (ls @ ls') = join_lines ls @ join_lines ls'"
  by (simp_all add: join_lines_def)

lemma cut_head_join:
  "(\<And>l. l \<in> set ls \<Longrightarrow> l \<noteq> [] \<and> CR \<notin> set l) \<Longrightarrow>
    cut_head (join_lines ls @ crlf @ body) = Some (ls, body)"
proof (induction ls)
  case Nil
  then show ?case using cut_line_append [of "[]"] by (subst cut_head.simps) simp
next
  case (Cons l ls)
  then show ?case using cut_line_append [of l] by (subst cut_head.simps) simp
qed

end
