(* ===== verification/Scheduler.thy ===== *)
theory Scheduler
  imports Fiber C_String
begin

text \<open>
  The N:M fiber scheduler, \<open>inc/scheduler.h\<close> and \<open>src/scheduler.cpp\<close>: the task queue,
  \<open>schedule\<close>, and the loop \<open>Scheduler::run\<close> that every worker thread executes. The loop is
  cut at the points where another thread can observe or change something: a worker's
  place in it is its \<open>run_pc\<close>, and \<open>run_step\<close> is one uninterrupted piece. What a running
  fiber does is one \<open>fiber_action\<close> at a time. A run of the system is a sequence of labels,
  each executed by \<open>sys_step\<close>; \<open>tickle\<close>, a virtual function that only wakes a sleeper, is
  the flag some operations return.
\<close>

subsection \<open>The queue\<close>

record 'f task =
  tk_fiber :: "faddr option"
  tk_func :: "'f option"
  tk_thread :: int

record 'f scheduler =
  sc_name :: string
  sc_threadIds :: "int list"
  sc_threadCount :: nat
  sc_activeThreadCount :: nat
  sc_idleThreadCount :: nat
  sc_stopping :: bool
  sc_autoStop :: bool
  sc_rootThread :: int
  sc_fibers :: "'f task list"
  sc_threads :: "int list"
  sc_rootFiber :: "faddr option"

text \<open>\<open>scheduleNoLock\<close>: whether the queue was empty, and the queue with the task if it is one.\<close>

definition scheduleNoLock ::
    "'f scheduler \<Rightarrow> faddr option \<Rightarrow> 'f option \<Rightarrow> int \<Rightarrow> bool \<times> 'f scheduler" where
  "scheduleNoLock sc fiber func thread_id =
    (let need_tickle = (sc_fibers sc = []);
         ft = \<lparr>tk_fiber = fiber, tk_func = func, tk_thread = thread_id\<rparr>
     in (need_tickle,
         if tk_fiber ft \<noteq> None \<or> tk_func ft \<noteq> None then sc\<lparr>sc_fibers := sc_fibers sc @ [ft]\<rparr> else sc))"

text \<open>\<open>schedule\<close> of one task and of a range of fibers or functions; the flag says whether \<open>tickle\<close> is called.\<close>

definition schedule ::
    "'f scheduler \<Rightarrow> faddr option \<Rightarrow> 'f option \<Rightarrow> int \<Rightarrow> bool \<times> 'f scheduler" where
  "schedule sc fiber func thread_id = scheduleNoLock sc fiber func thread_id"

primrec schedule_range ::
    "'f scheduler \<Rightarrow> (faddr option \<times> 'f option) list \<Rightarrow> bool \<Rightarrow> bool \<times> 'f scheduler" where
  "schedule_range sc [] need_tickle = (need_tickle, sc)"
| "schedule_range sc (f # fs) need_tickle =
    (let (n, sc) = scheduleNoLock sc (fst f) (snd f) (- 1) in schedule_range sc fs (n \<or> need_tickle))"

definition hasIdleThreads :: "'f scheduler \<Rightarrow> bool" where
  "hasIdleThreads sc \<longleftrightarrow> sc_idleThreadCount sc > 0"

definition stopping :: "'f scheduler \<Rightarrow> bool" where
  "stopping sc \<longleftrightarrow> sc_autoStop sc \<and> sc_stopping sc \<and> sc_fibers sc = [] \<and> sc_activeThreadCount sc = 0"

text \<open>
  The search of \<open>run\<close> under the lock: the first task this thread may take, the queue without
  it, and whether other threads are to be told. A task for another thread and a fiber that
  is still executing are passed over.
\<close>

fun pick_task ::
    "(faddr \<Rightarrow> FiberState option) \<Rightarrow> int \<Rightarrow> 'f task list \<Rightarrow> bool \<Rightarrow>
      fiber_error + ('f task option \<times> 'f task list \<times> bool)" where
  "pick_task st tid [] tickle_me = Inr (None, [], tickle_me)"
| "pick_task st tid (it # its) tickle_me =
    (if tk_thread it \<noteq> - 1 \<and> tk_thread it \<noteq> tid then
       bindR (pick_task st tid its True) (\<lambda>(ft, rest, tk). Inr (ft, it # rest, tk))
     else if tk_fiber it = None \<and> tk_func it = None then Inl AssertFailed
     else if (case tk_fiber it of None \<Rightarrow> False | Some f \<Rightarrow> st f = Some EXEC) then
       bindR (pick_task st tid its tickle_me) (\<lambda>(ft, rest, tk). Inr (ft, it # rest, tk))
     else Inr (Some it, its, tickle_me \<or> its \<noteq> []))"

subsection \<open>Construction, start and stop\<close>

text \<open>
  The constructor on thread \<open>tid\<close>, whose \<open>t_scheduler\<close> is null or not (\<open>has_scheduler\<close>). With
  \<open>use_caller\<close> the calling thread is a worker: its main fiber (at \<open>p\<close> if it has none) gets a
  root fiber at \<open>q\<close> that will execute \<open>run\<close>.
\<close>

definition new_scheduler ::
    "u32 \<Rightarrow> faddr \<Rightarrow> faddr \<Rightarrow> 'f \<Rightarrow> int \<Rightarrow> bool \<Rightarrow> nat \<Rightarrow> bool \<Rightarrow> string \<Rightarrow> 'f fiber_world \<times> thread_ctx \<Rightarrow>
      fiber_error + ('f scheduler \<times> 'f fiber_world \<times> thread_ctx)" where
  "new_scheduler default_size p q run_fn tid has_scheduler n_threads use_caller name wt =
    bindR (ms_assert (n_threads > 0)) (\<lambda>_.
      let sc = \<lparr>sc_name = name, sc_threadIds = [], sc_threadCount = n_threads, sc_activeThreadCount = 0,
                sc_idleThreadCount = 0, sc_stopping = True, sc_autoStop = False, sc_rootThread = 0,
                sc_fibers = [], sc_threads = [], sc_rootFiber = None\<rparr>
      in if use_caller then
           let (_, w, th) = Fiber_GetThis p wt in
           bindR (ms_assert (\<not> has_scheduler)) (\<lambda>_.
             Inr (sc\<lparr>sc_threadCount := n_threads - 1, sc_rootFiber := Some q, sc_rootThread := tid,
                     sc_threadIds := [tid]\<rparr>,
                  new_fiber default_size q w (Some run_fn) 0 True, th\<lparr>t_scheduler_fiber := Some q\<rparr>))
         else Inr (sc\<lparr>sc_rootThread := - 1\<rparr>, wt))"

text \<open>\<open>start\<close>: \<open>thread_id i\<close> is the id of the \<open>i\<close>-th thread it creates, which runs \<open>run\<close>.\<close>

definition sched_start :: "(nat \<Rightarrow> int) \<Rightarrow> 'f scheduler \<Rightarrow> fiber_error + 'f scheduler" where
  "sched_start thread_id sc =
    (if \<not> sc_stopping sc then Inr sc
     else
       let sc = sc\<lparr>sc_stopping := False\<rparr> in
       bindR (ms_assert (sc_threads sc = [])) (\<lambda>_.
         let ids = map thread_id [0..<sc_threadCount sc]
         in Inr (sc\<lparr>sc_threads := ids, sc_threadIds := sc_threadIds sc @ ids\<rparr>)))"

text \<open>
  \<open>stop\<close> up to the call of the root fiber: return at once, or how many times to \<open>tickle\<close> and
  whether to call the root fiber; \<open>is_this\<close> says whether the caller belongs to this
  scheduler. Then it joins the threads \<open>stop_join\<close> takes out.
\<close>

datatype stop_action = StopReturn | StopWait nat bool

definition sched_stop ::
    "(faddr \<Rightarrow> FiberState option) \<Rightarrow> bool \<Rightarrow> 'f scheduler \<Rightarrow> fiber_error + (stop_action \<times> 'f scheduler)" where
  "sched_stop st is_this sc =
    (let sc = sc\<lparr>sc_autoStop := True\<rparr>;
         root_idle = (case sc_rootFiber sc of None \<Rightarrow> False | Some f \<Rightarrow>
           sc_threadCount sc = 0 \<and> (st f = Some TERM' \<or> st f = Some INIT));
         sc = (if root_idle then sc\<lparr>sc_stopping := True\<rparr> else sc)
     in if root_idle \<and> stopping sc then Inr (StopReturn, sc)
        else
          bindR (ms_assert (if sc_rootThread sc \<noteq> - 1 then is_this else \<not> is_this)) (\<lambda>_.
            let sc = sc\<lparr>sc_stopping := True\<rparr>;
                root = (sc_rootFiber sc \<noteq> None)
            in Inr (StopWait (sc_threadCount sc + (if root then 1 else 0)) (root \<and> \<not> stopping sc), sc)))"

definition stop_join :: "'f scheduler \<Rightarrow> int list \<times> 'f scheduler" where
  "stop_join sc = (sc_threads sc, sc\<lparr>sc_threads := []\<rparr>)"

definition join_ids :: "int list \<Rightarrow> string" where
  "join_ids ids = concat (map (\<lambda>i. (if i > 0 then '', '' else []) @ show_int (ids ! i)) [0..<length ids])"

definition sched_dump :: "'f scheduler \<Rightarrow> string" where
  "sched_dump sc =
    ''[Scheduler name='' @ sc_name sc @ '' size='' @ show_nat (sc_threadCount sc) @
    '' active_count='' @ show_nat (sc_activeThreadCount sc) @
    '' idle_count='' @ show_nat (sc_idleThreadCount sc) @
    '' stopping='' @ (if sc_stopping sc then ''true'' else ''false'') @ '' ]'' @ [LF] @ ''    '' @
    join_ids (sc_threadIds sc)"

subsection \<open>Workers\<close>

text \<open>
  Where a worker is: about to search the queue; with the task it took, or with none;
  inside the \<open>swapIn\<close> of a task's fiber, of the callback fiber or of the idle fiber; after
  that call; before the test of the fiber's state; about to give back a task it cannot
  run; or out of the loop.
\<close>

datatype 'f run_pc =
    Pick
  | Picked "'f task option"
  | TaskIn faddr | TaskOut faddr | TaskEnd faddr
  | CbIn faddr | CbOut faddr | CbEnd faddr
  | IdleIn | IdleOut | IdleEnd
  | Exited

record 'f worker =
  wk_ctx :: thread_ctx
  wk_pc :: "'f run_pc"
  wk_idle :: faddr
  wk_cb :: "faddr option"

record 'f system =
  sy_sched :: "'f scheduler"
  sy_world :: "'f fiber_world"
  sy_workers :: "int \<Rightarrow> 'f worker option"

text \<open>
  The beginning of \<open>run\<close> on thread \<open>tid\<close>: a thread that is not the root thread makes its
  current fiber, its main fiber at \<open>p\<close> if it has none, the scheduler's fiber; then the idle
  fiber is made, at \<open>q\<close>.
\<close>

definition run_start ::
    "u32 \<Rightarrow> faddr \<Rightarrow> faddr \<Rightarrow> 'f \<Rightarrow> int \<Rightarrow> thread_ctx \<Rightarrow> 'f system \<Rightarrow> 'f system" where
  "run_start default_size p q idle_fn tid th sy =
    (let (w, th) =
           (if tid \<noteq> sc_rootThread (sy_sched sy) then
              let (cur, w, th) = Fiber_GetThis p (sy_world sy, th)
              in (w, th\<lparr>t_scheduler_fiber := Some cur\<rparr>)
            else (sy_world sy, th));
         w = new_fiber default_size q w (Some idle_fn) 0 False
     in sy\<lparr>sy_world := w,
           sy_workers := (sy_workers sy)(tid \<mapsto> \<lparr>wk_ctx = th, wk_pc = Pick, wk_idle = q, wk_cb = None\<rparr>)\<rparr>)"

text \<open>The outcome of a piece of the loop: the scheduler, the fibers and the worker after it.\<close>

type_synonym 'f piece = "'f scheduler \<times> 'f fiber_world \<times> 'f worker"

definition enter_fiber ::
    "'f scheduler \<Rightarrow> 'f fiber_world \<Rightarrow> 'f worker \<Rightarrow> faddr \<Rightarrow> 'f run_pc \<Rightarrow> fiber_error + 'f piece" where
  "enter_fiber sc w wk f pc =
    bindR (swapIn (w, wk_ctx wk) f) (\<lambda>(w, th). Inr (sc, w, wk\<lparr>wk_ctx := th, wk_pc := pc\<rparr>))"

definition step_pick :: "int \<Rightarrow> 'f scheduler \<Rightarrow> 'f fiber_world \<Rightarrow> 'f worker \<Rightarrow> fiber_error + (bool \<times> 'f piece)" where
  "step_pick tid sc w wk =
    bindR (pick_task (state_of w) tid (sc_fibers sc) False) (\<lambda>(ft, rest, tickle_me).
      Inr (tickle_me,
           sc\<lparr>sc_fibers := rest,
              sc_activeThreadCount := sc_activeThreadCount sc + (if ft = None then 0 else 1)\<rparr>,
           w, wk\<lparr>wk_pc := Picked ft\<rparr>))"

definition leave_active :: "'f scheduler \<Rightarrow> 'f scheduler" where
  "leave_active sc = sc\<lparr>sc_activeThreadCount := usub64 (sc_activeThreadCount sc) 1\<rparr>"

text \<open>What \<open>run\<close> does with the task it took, or without one; \<open>p\<close> is where a new fiber goes.\<close>

definition step_picked ::
    "u32 \<Rightarrow> faddr \<Rightarrow> 'f scheduler \<Rightarrow> 'f fiber_world \<Rightarrow> 'f worker \<Rightarrow> 'f task option \<Rightarrow> fiber_error + 'f piece" where
  "step_picked default_size p sc w wk ft =
    (let runnable = (case ft of None \<Rightarrow> None | Some t \<Rightarrow>
           (case tk_fiber t of None \<Rightarrow> None | Some f \<Rightarrow>
              if state_of w f \<noteq> Some TERM' \<and> state_of w f \<noteq> Some EXCEPT then Some f else None));
         func = (case ft of None \<Rightarrow> None | Some t \<Rightarrow> tk_func t)
     in case runnable of
          Some f \<Rightarrow> enter_fiber sc w wk f (TaskIn f)
        | None \<Rightarrow>
            (case func of
               Some fn \<Rightarrow>
                 (case wk_cb wk of
                    Some c \<Rightarrow> bindR (fiber_reset w c (Some fn)) (\<lambda>w. enter_fiber sc w wk c (CbIn c))
                  | None \<Rightarrow>
                      enter_fiber sc (new_fiber default_size p w (Some fn) 0 False)
                        (wk\<lparr>wk_cb := Some p\<rparr>) p (CbIn p))
             | None \<Rightarrow>
                 if ft \<noteq> None then Inr (leave_active sc, w, wk\<lparr>wk_pc := Pick\<rparr>)
                 else if state_of w (wk_idle wk) = Some TERM' then Inr (sc, w, wk\<lparr>wk_pc := Exited\<rparr>)
                 else enter_fiber (sc\<lparr>sc_idleThreadCount := sc_idleThreadCount sc + 1\<rparr>) w wk (wk_idle wk) IdleIn))"

definition step_task_end ::
    "'f scheduler \<Rightarrow> 'f fiber_world \<Rightarrow> 'f worker \<Rightarrow> faddr \<Rightarrow> fiber_error + 'f piece" where
  "step_task_end sc w wk f =
    (let wk = wk\<lparr>wk_pc := Pick\<rparr> in
     if state_of w f = Some READY then Inr (snd (schedule sc (Some f) None (- 1)), w, wk)
     else if state_of w f \<noteq> Some TERM' \<and> state_of w f \<noteq> Some EXCEPT then Inr (sc, set_state w f HOLD, wk)
     else Inr (sc, w, wk))"

definition step_cb_end ::
    "'f scheduler \<Rightarrow> 'f fiber_world \<Rightarrow> 'f worker \<Rightarrow> faddr \<Rightarrow> fiber_error + 'f piece" where
  "step_cb_end sc w wk f =
    (let wk = wk\<lparr>wk_pc := Pick\<rparr> in
     if state_of w f = Some READY then
       Inr (snd (schedule sc (Some f) None (- 1)), w, wk\<lparr>wk_cb := None\<rparr>)
     else if state_of w f = Some EXCEPT \<or> state_of w f = Some TERM' then
       bindR (fiber_reset w f None) (\<lambda>w. Inr (sc, w, wk))
     else Inr (sc, set_state w f HOLD, wk\<lparr>wk_cb := None\<rparr>))"

definition step_idle_end :: "'f scheduler \<Rightarrow> 'f fiber_world \<Rightarrow> 'f worker \<Rightarrow> fiber_error + 'f piece" where
  "step_idle_end sc w wk =
    (let i = wk_idle wk; wk = wk\<lparr>wk_pc := Pick\<rparr> in
     if state_of w i \<noteq> Some TERM' \<and> state_of w i \<noteq> Some EXCEPT then Inr (sc, set_state w i HOLD, wk)
     else Inr (sc, w, wk))"

text \<open>The idle fiber, when it is switched to: \<open>idle\<close> tests \<open>stopping\<close> and yields or ends.\<close>

definition step_idle :: "faddr \<Rightarrow> 'f scheduler \<Rightarrow> 'f fiber_world \<Rightarrow> 'f worker \<Rightarrow> fiber_error + 'f piece" where
  "step_idle p sc w wk =
    bindR (if stopping sc then main_func_end (w, wk_ctx wk) (wk_idle wk) False
           else YieldToHold p (w, wk_ctx wk))
      (\<lambda>(w, th). Inr (sc, w, wk\<lparr>wk_ctx := th, wk_pc := IdleOut\<rparr>))"

definition run_step ::
    "u32 \<Rightarrow> faddr \<Rightarrow> int \<Rightarrow> 'f scheduler \<Rightarrow> 'f fiber_world \<Rightarrow> 'f worker \<Rightarrow> fiber_error + 'f piece" where
  "run_step default_size p tid sc w wk =
    (case wk_pc wk of
       Pick \<Rightarrow> bindR (step_pick tid sc w wk) (\<lambda>(_, r). Inr r)
     | Picked ft \<Rightarrow> step_picked default_size p sc w wk ft
     | TaskOut f \<Rightarrow> Inr (leave_active sc, w, wk\<lparr>wk_pc := TaskEnd f\<rparr>)
     | TaskEnd f \<Rightarrow> step_task_end sc w wk f
     | CbOut f \<Rightarrow> Inr (leave_active sc, w, wk\<lparr>wk_pc := CbEnd f\<rparr>)
     | CbEnd f \<Rightarrow> step_cb_end sc w wk f
     | IdleIn \<Rightarrow> step_idle p sc w wk
     | IdleOut \<Rightarrow>
         Inr (sc\<lparr>sc_idleThreadCount := usub64 (sc_idleThreadCount sc) 1\<rparr>, w, wk\<lparr>wk_pc := IdleEnd\<rparr>)
     | IdleEnd \<Rightarrow> step_idle_end sc w wk
     | _ \<Rightarrow> Inr (sc, w, wk))"

subsection \<open>Fibers at work\<close>

datatype 'f fiber_action =
    DoSchedule "faddr option" "'f option" int
  | DoYieldToReady
  | DoYieldToHold
  | DoEnd bool

text \<open>The fiber a worker executes and where the worker is once that fiber has switched back.\<close>

definition executing :: "'f worker \<Rightarrow> (faddr \<times> 'f run_pc) option" where
  "executing wk =
    (case wk_pc wk of TaskIn f \<Rightarrow> Some (f, TaskOut f) | CbIn f \<Rightarrow> Some (f, CbOut f) | _ \<Rightarrow> None)"

definition act_step ::
    "faddr \<Rightarrow> 'f fiber_action \<Rightarrow> 'f scheduler \<Rightarrow> 'f fiber_world \<Rightarrow> 'f worker \<Rightarrow> fiber_error + 'f piece" where
  "act_step p a sc w wk =
    (case executing wk of
       None \<Rightarrow> Inr (sc, w, wk)
     | Some (f, pc) \<Rightarrow>
         let back = (\<lambda>(w, th). Inr (sc, w, wk\<lparr>wk_ctx := th, wk_pc := pc\<rparr>)) in
         (case a of
            DoSchedule fiber func tid \<Rightarrow> Inr (snd (schedule sc fiber func tid), w, wk)
          | DoYieldToReady \<Rightarrow> bindR (YieldToReady p (w, wk_ctx wk)) back
          | DoYieldToHold \<Rightarrow> bindR (YieldToHold p (w, wk_ctx wk)) back
          | DoEnd threw \<Rightarrow> bindR (main_func_end (w, wk_ctx wk) f threw) back))"

text \<open>\<open>switchTo\<close> by the running fiber: nothing when it is there already, else schedule and yield.\<close>

definition switchTo ::
    "faddr \<Rightarrow> bool \<Rightarrow> int \<Rightarrow> int \<Rightarrow> 'f scheduler \<Rightarrow> 'f fiber_world \<times> thread_ctx \<Rightarrow>
      fiber_error + ('f scheduler \<times> 'f fiber_world \<times> thread_ctx)" where
  "switchTo p is_this here thread_id sc wt =
    (if is_this \<and> (thread_id = - 1 \<or> thread_id = here) then Inr (sc, wt)
     else
       let (cur, wt) = Fiber_GetThis p wt;
           sc = snd (schedule sc (Some cur) None thread_id)
       in bindR (YieldToHold p wt) (\<lambda>wt. Inr (sc, wt)))"

subsection \<open>The system\<close>

datatype 'f label =
    RunLabel int faddr
  | ActLabel int faddr "'f fiber_action"
  | ExtSchedule "faddr option" "'f option" int
  | NewFiber faddr 'f
  | StartLabel "nat \<Rightarrow> int"
  | StopLabel bool
  | JoinLabel

definition on_worker ::
    "int \<Rightarrow> ('f scheduler \<Rightarrow> 'f fiber_world \<Rightarrow> 'f worker \<Rightarrow> fiber_error + 'f piece) \<Rightarrow> 'f system \<Rightarrow>
      fiber_error + 'f system" where
  "on_worker tid step sy =
    (case sy_workers sy tid of
       None \<Rightarrow> Inr sy
     | Some wk \<Rightarrow> bindR (step (sy_sched sy) (sy_world sy) wk) (\<lambda>(sc, w, wk).
         Inr (sy\<lparr>sy_sched := sc, sy_world := w, sy_workers := (sy_workers sy)(tid \<mapsto> wk)\<rparr>)))"

definition sys_step :: "u32 \<Rightarrow> 'f label \<Rightarrow> 'f system \<Rightarrow> fiber_error + 'f system" where
  "sys_step default_size l sy =
    (case l of
       RunLabel tid p \<Rightarrow> on_worker tid (run_step default_size p tid) sy
     | ActLabel tid p a \<Rightarrow> on_worker tid (act_step p a) sy
     | ExtSchedule fiber func tid \<Rightarrow>
         Inr (sy\<lparr>sy_sched := snd (schedule (sy_sched sy) fiber func tid)\<rparr>)
     | NewFiber p fn \<Rightarrow>
         Inr (sy\<lparr>sy_world := new_fiber default_size p (sy_world sy) (Some fn) 0 False\<rparr>)
     | StartLabel thread_id \<Rightarrow>
         bindR (sched_start thread_id (sy_sched sy)) (\<lambda>sc. Inr (sy\<lparr>sy_sched := sc\<rparr>))
     | StopLabel is_this \<Rightarrow>
         bindR (sched_stop (state_of (sy_world sy)) is_this (sy_sched sy)) (\<lambda>(_, sc). Inr (sy\<lparr>sy_sched := sc\<rparr>))
     | JoinLabel \<Rightarrow> Inr (sy\<lparr>sy_sched := snd (stop_join (sy_sched sy))\<rparr>))"

primrec sys_run :: "u32 \<Rightarrow> 'f label list \<Rightarrow> 'f system \<Rightarrow> fiber_error + 'f system" where
  "sys_run d [] sy = Inr sy"
| "sys_run d (l # ls) sy = bindR (sys_step d l sy) (sys_run d ls)"

subsection \<open>Who holds which fiber\<close>

definition running_fiber :: "'f worker \<Rightarrow> faddr option" where
  "running_fiber wk =
    (case wk_pc wk of
       TaskIn f \<Rightarrow> Some f | TaskOut f \<Rightarrow> Some f | TaskEnd f \<Rightarrow> Some f
     | CbIn f \<Rightarrow> Some f | CbOut f \<Rightarrow> Some f | CbEnd f \<Rightarrow> Some f | _ \<Rightarrow> None)"

definition picked_fiber :: "'f worker \<Rightarrow> faddr option" where
  "picked_fiber wk = (case wk_pc wk of Picked (Some t) \<Rightarrow> tk_fiber t | _ \<Rightarrow> None)"

definition owns :: "'f worker \<Rightarrow> faddr set" where
  "owns wk = insert (wk_idle wk)
    (set_option (wk_cb wk) \<union> set_option (running_fiber wk) \<union> set_option (picked_fiber wk))"

definition queued :: "'f task list \<Rightarrow> faddr list" where
  "queued q = List.map_filter tk_fiber q"

text \<open>Tasks in the queue or taken from it and not yet started.\<close>

definition pending :: "'f system \<Rightarrow> faddr \<Rightarrow> bool" where
  "pending sy f \<longleftrightarrow> f \<in> set (queued (sc_fibers (sy_sched sy))) \<or>
    (\<exists>tid wk. sy_workers sy tid = Some wk \<and> picked_fiber wk = Some f)"

definition proper_fiber :: "'f fiber_world \<Rightarrow> faddr \<Rightarrow> FiberState set \<Rightarrow> bool" where
  "proper_fiber w f S \<longleftrightarrow> (\<exists>x. fw_fibers w f = Some x \<and> fb_stack x \<noteq> None \<and> fb_entry x = MainFunc \<and> fb_state x \<in> S)"

definition worker_ok :: "'f fiber_world \<Rightarrow> 'f worker \<Rightarrow> bool" where
  "worker_ok w wk \<longleftrightarrow>
    (\<exists>m. t_scheduler_fiber (wk_ctx wk) = Some m) \<and>
    proper_fiber w (wk_idle wk)
      (case wk_pc wk of IdleIn \<Rightarrow> {EXEC} | IdleOut \<Rightarrow> {EXEC, TERM'} | IdleEnd \<Rightarrow> {EXEC, TERM'}
       | _ \<Rightarrow> {INIT, HOLD, TERM'}) \<and>
    wk_cb wk \<noteq> Some (wk_idle wk) \<and>
    (case wk_pc wk of IdleIn \<Rightarrow> t_fiber (wk_ctx wk) = Some (wk_idle wk) | _ \<Rightarrow> True) \<and>
    (case wk_pc wk of
       CbIn c \<Rightarrow> wk_cb wk = Some c \<and> proper_fiber w c {EXEC} \<and> t_fiber (wk_ctx wk) = Some c
     | CbOut c \<Rightarrow> wk_cb wk = Some c \<and> proper_fiber w c {EXEC, READY, TERM', EXCEPT}
     | CbEnd c \<Rightarrow> wk_cb wk = Some c \<and> proper_fiber w c {EXEC, READY, TERM', EXCEPT}
     | _ \<Rightarrow> (case wk_cb wk of None \<Rightarrow> True | Some c \<Rightarrow> proper_fiber w c {INIT})) \<and>
    (case wk_pc wk of
       TaskIn f \<Rightarrow> proper_fiber w f {EXEC} \<and> f \<noteq> wk_idle wk \<and> wk_cb wk \<noteq> Some f \<and> t_fiber (wk_ctx wk) = Some f
     | TaskOut f \<Rightarrow> proper_fiber w f {EXEC, READY, TERM', EXCEPT} \<and> f \<noteq> wk_idle wk \<and> wk_cb wk \<noteq> Some f
     | TaskEnd f \<Rightarrow> proper_fiber w f {EXEC, READY, TERM', EXCEPT} \<and> f \<noteq> wk_idle wk \<and> wk_cb wk \<noteq> Some f
     | Picked (Some t) \<Rightarrow>
         (case tk_fiber t of None \<Rightarrow> tk_func t \<noteq> None
          | Some f \<Rightarrow> proper_fiber w f {INIT, HOLD, READY} \<and> f \<noteq> wk_idle wk \<and> wk_cb wk \<noteq> Some f)
     | _ \<Rightarrow> True)"

text \<open>The queue: no fiber twice, and a queued fiber that a worker owns is executing there.\<close>

definition queue_ok :: "'f fiber_world \<Rightarrow> (int \<Rightarrow> 'f worker option) \<Rightarrow> 'f task list \<Rightarrow> bool" where
  "queue_ok w wks q \<longleftrightarrow>
    list_all (\<lambda>t. tk_fiber t \<noteq> None \<or> tk_func t \<noteq> None) q \<and> distinct (queued q) \<and>
    (\<forall>f \<in> set (queued q). proper_fiber w f {INIT, HOLD, READY, EXEC} \<and>
      (\<forall>tid wk. wks tid = Some wk \<longrightarrow> f \<in> owns wk \<longrightarrow>
        running_fiber wk = Some f \<and> proper_fiber w f {EXEC}))"

definition disjoint_owners :: "(int \<Rightarrow> 'f worker option) \<Rightarrow> bool" where
  "disjoint_owners wks \<longleftrightarrow>
    (\<forall>t u a b. wks t = Some a \<longrightarrow> wks u = Some b \<longrightarrow> t \<noteq> u \<longrightarrow> owns a \<inter> owns b = {})"

definition active_pc :: "'f run_pc \<Rightarrow> bool" where
  "active_pc pc \<longleftrightarrow>
    (case pc of Picked ft \<Rightarrow> ft \<noteq> None | TaskIn _ \<Rightarrow> True | TaskOut _ \<Rightarrow> True | CbIn _ \<Rightarrow> True
     | CbOut _ \<Rightarrow> True | _ \<Rightarrow> False)"

definition active_workers :: "(int \<Rightarrow> 'f worker option) \<Rightarrow> int set" where
  "active_workers wks = {tid. \<exists>wk. wks tid = Some wk \<and> active_pc (wk_pc wk)}"

definition system_ok :: "'f system \<Rightarrow> bool" where
  "system_ok sy \<longleftrightarrow>
    finite (dom (sy_workers sy)) \<and>
    (\<forall>tid wk. sy_workers sy tid = Some wk \<longrightarrow> worker_ok (sy_world sy) wk) \<and>
    disjoint_owners (sy_workers sy) \<and>
    queue_ok (sy_world sy) (sy_workers sy) (sc_fibers (sy_sched sy)) \<and>
    sc_activeThreadCount (sy_sched sy) = card (active_workers (sy_workers sy))"

subsection \<open>Discipline\<close>

text \<open>
  What the users of the scheduler have to respect. A fiber may be scheduled when it is
  not pending already, no worker keeps it for itself, and it is new, suspended, or still
  executing on its way to \<open>YieldToHold\<close>. A fiber that has been scheduled while it executes
  may only yield to hold. New objects get fresh addresses. \<open>start\<close> is called again only once
  the threads of the last run are joined, \<open>stop\<close> by a thread of the kind its assertion asks for.
\<close>

definition schedulable :: "'f system \<Rightarrow> faddr \<Rightarrow> bool" where
  "schedulable sy f \<longleftrightarrow> \<not> pending sy f \<and> proper_fiber (sy_world sy) f {INIT, HOLD, EXEC} \<and>
    (\<forall>tid wk. sy_workers sy tid = Some wk \<longrightarrow> f \<in> owns wk \<longrightarrow>
      running_fiber wk = Some f \<and> proper_fiber (sy_world sy) f {EXEC})"

definition fresh :: "'f system \<Rightarrow> faddr \<Rightarrow> bool" where
  "fresh sy p \<longleftrightarrow> fw_fibers (sy_world sy) p = None"

definition disciplined :: "'f label \<Rightarrow> 'f system \<Rightarrow> bool" where
  "disciplined l sy \<longleftrightarrow>
    (case l of
       RunLabel tid p \<Rightarrow> fresh sy p
     | ActLabel tid p a \<Rightarrow>
         (case a of
            DoSchedule fiber func _ \<Rightarrow> (case fiber of None \<Rightarrow> True | Some f \<Rightarrow> schedulable sy f)
          | DoYieldToHold \<Rightarrow> True
          | _ \<Rightarrow> (\<forall>wk f. sy_workers sy tid = Some wk \<longrightarrow> running_fiber wk = Some f \<longrightarrow> \<not> pending sy f))
     | ExtSchedule fiber func _ \<Rightarrow> (case fiber of None \<Rightarrow> True | Some f \<Rightarrow> schedulable sy f)
     | NewFiber p _ \<Rightarrow> fresh sy p
     | StartLabel _ \<Rightarrow> sc_stopping (sy_sched sy) \<longrightarrow> sc_threads (sy_sched sy) = []
     | StopLabel is_this \<Rightarrow> (sc_rootThread (sy_sched sy) \<noteq> - 1) = is_this
     | JoinLabel \<Rightarrow> True)"

subsection \<open>One piece at a time\<close>

lemma proper_fiber_mono: "proper_fiber w f S \<Longrightarrow> S \<subseteq> T \<Longrightarrow> proper_fiber w f T"
  by (auto simp: proper_fiber_def)

lemma proper_fiber_cong: "fw_fibers w f = fw_fibers w' f \<Longrightarrow> proper_fiber w f S = proper_fiber w' f S"
  by (simp add: proper_fiber_def)

lemma proper_fiber_inter: "proper_fiber w f S \<Longrightarrow> proper_fiber w f T \<Longrightarrow> proper_fiber w f (S \<inter> T)"
  by (auto simp: proper_fiber_def)

lemma proper_fiber_empty [simp]: "\<not> proper_fiber w f {}"
  by (simp add: proper_fiber_def)

lemma proper_fiber_Some: "proper_fiber w f S \<Longrightarrow> \<exists>x. fw_fibers w f = Some x"
  by (auto simp: proper_fiber_def)

lemma proper_fiber_state: "proper_fiber w f S \<Longrightarrow> \<exists>st \<in> S. state_of w f = Some st"
  by (auto simp: proper_fiber_def state_of_def)

lemma proper_fiber_of_state:
  "proper_fiber w f S \<Longrightarrow> state_of w f = Some st \<Longrightarrow> proper_fiber w f {st}"
  by (auto simp: proper_fiber_def state_of_def)

lemma proper_set_state: "proper_fiber w f S \<Longrightarrow> proper_fiber (set_state w f st) f {st}"
  by (auto simp: proper_fiber_def fw_fibers_set_state)

lemma set_state_other: "g \<noteq> f \<Longrightarrow> fw_fibers (set_state w f st) g = fw_fibers w g"
  by (simp add: fw_fibers_set_state)

lemma worker_ok_cong:
  assumes "\<And>f. f \<in> owns wk \<Longrightarrow> fw_fibers w f = fw_fibers w' f"
  shows "worker_ok w wk = worker_ok w' wk"
proof -
  have *: "f \<in> owns wk \<Longrightarrow> proper_fiber w f S = proper_fiber w' f S" for f S
    using assms by (intro proper_fiber_cong) blast
  have idle: "wk_idle wk \<in> owns wk" by (simp add: owns_def)
  have cb: "wk_cb wk = Some c \<Longrightarrow> c \<in> owns wk" for c by (simp add: owns_def)
  have rn: "running_fiber wk = Some c \<Longrightarrow> c \<in> owns wk" for c by (simp add: owns_def)
  have pk: "picked_fiber wk = Some c \<Longrightarrow> c \<in> owns wk" for c by (simp add: owns_def)
  show ?thesis
    by (cases "wk_pc wk")
      (auto simp: worker_ok_def * idle cb rn [unfolded running_fiber_def] pk [unfolded picked_fiber_def]
        split: option.splits)
qed

lemma card_active:
  assumes "finite (dom wks)" "wks tid = Some wk"
  shows "card (active_workers (wks(tid \<mapsto> wk'))) + (if active_pc (wk_pc wk) then 1 else 0) =
    card (active_workers wks) + (if active_pc (wk_pc wk') then 1 else 0)"
proof -
  define A where "A = active_workers wks - {tid}"
  have "active_workers wks \<subseteq> dom wks" by (auto simp: active_workers_def)
  then have fin: "finite A" unfolding A_def using assms(1) by (meson finite_Diff finite_subset)
  have "active_workers wks = (if active_pc (wk_pc wk) then insert tid A else A)"
    using assms(2) by (auto simp: active_workers_def A_def)
  moreover have "active_workers (wks(tid \<mapsto> wk')) = (if active_pc (wk_pc wk') then insert tid A else A)"
    by (auto simp: active_workers_def A_def)
  moreover have "tid \<notin> A" by (simp add: A_def)
  then have "card (insert tid A) = Suc (card A)" using fin by simp
  ultimately show ?thesis by simp
qed

lemma active_positive:
  assumes "system_ok sy" "sy_workers sy tid = Some wk" "active_pc (wk_pc wk)"
  shows "0 < sc_activeThreadCount (sy_sched sy)"
proof -
  have fin: "finite (dom (sy_workers sy))"
    and c: "sc_activeThreadCount (sy_sched sy) = card (active_workers (sy_workers sy))"
    using assms(1) by (simp_all add: system_ok_def)
  have "active_workers (sy_workers sy) \<subseteq> dom (sy_workers sy)" by (auto simp: active_workers_def)
  then have "finite (active_workers (sy_workers sy))" by (rule finite_subset) (rule fin)
  moreover have "tid \<in> active_workers (sy_workers sy)" using assms(2,3) by (simp add: active_workers_def)
  ultimately show ?thesis unfolding c card_gt_0_iff by blast
qed

text \<open>
  When a piece of worker \<open>tid\<close> keeps the system in order: it gives the worker only fibers
  nobody else owns (\<open>N\<close>), changes only those, and leaves queue and counter right.
\<close>

definition step_keeps :: "'f system \<Rightarrow> int \<Rightarrow> 'f worker \<Rightarrow> faddr set \<Rightarrow> 'f piece \<Rightarrow> bool" where
  "step_keeps sy tid wk N r \<longleftrightarrow>
    (case r of (sc', w', wk') \<Rightarrow>
      worker_ok w' wk' \<and> owns wk' \<subseteq> owns wk \<union> N \<and>
      (\<forall>u b. sy_workers sy u = Some b \<longrightarrow> u \<noteq> tid \<longrightarrow> N \<inter> owns b = {}) \<and>
      (\<forall>f. f \<notin> owns wk \<union> N \<longrightarrow> fw_fibers w' f = fw_fibers (sy_world sy) f) \<and>
      list_all (\<lambda>t. tk_fiber t \<noteq> None \<or> tk_func t \<noteq> None) (sc_fibers sc') \<and>
      distinct (queued (sc_fibers sc')) \<and>
      (\<forall>f \<in> set (queued (sc_fibers sc')).
         (f \<in> owns wk \<union> N \<longrightarrow> proper_fiber w' f {INIT, HOLD, READY, EXEC} \<and>
           (f \<in> owns wk' \<longrightarrow> running_fiber wk' = Some f \<and> proper_fiber w' f {EXEC})) \<and>
         (f \<notin> owns wk \<union> N \<longrightarrow> f \<in> set (queued (sc_fibers (sy_sched sy))))) \<and>
      sc_activeThreadCount sc' + (if active_pc (wk_pc wk) then 1 else 0) =
        sc_activeThreadCount (sy_sched sy) + (if active_pc (wk_pc wk') then 1 else 0))"

lemma step_keeps_system_ok:
  assumes ok: "system_ok sy" and wk: "sy_workers sy tid = Some wk"
    and k: "step_keeps sy tid wk N (sc', w', wk')"
  shows "system_ok (sy\<lparr>sy_sched := sc', sy_world := w', sy_workers := (sy_workers sy)(tid \<mapsto> wk')\<rparr>)"
proof -
  let ?wks = "sy_workers sy" and ?wks' = "(sy_workers sy)(tid \<mapsto> wk')"
  have dis: "disjoint_owners ?wks" and fin: "finite (dom ?wks)"
    and qok: "queue_ok (sy_world sy) ?wks (sc_fibers (sy_sched sy))"
    using ok by (simp_all add: system_ok_def)
  have other: "owns wk \<inter> owns b = {}" "N \<inter> owns b = {}" "owns wk' \<inter> owns b = {}"
    if "?wks u = Some b" "u \<noteq> tid" for u b
  proof -
    from dis wk that show 1: "owns wk \<inter> owns b = {}" unfolding disjoint_owners_def by blast
    from k that show 2: "N \<inter> owns b = {}" by (auto simp: step_keeps_def)
    have "owns wk' \<subseteq> owns wk \<union> N" using k by (simp add: step_keeps_def)
    with 1 2 show "owns wk' \<inter> owns b = {}" by blast
  qed
  have frame: "fw_fibers w' f = fw_fibers (sy_world sy) f" if "f \<notin> owns wk \<union> N" for f
    using k that by (simp add: step_keeps_def)
  have "worker_ok w' b" if "?wks' u = Some b" for u b
  proof (cases "u = tid")
    case True
    with that k show ?thesis by (simp add: step_keeps_def)
  next
    case False
    with that have b: "?wks u = Some b" by simp
    have "worker_ok (sy_world sy) b" using ok b by (auto simp: system_ok_def)
    then show ?thesis
      by (rule worker_ok_cong [THEN iffD1, rotated]) (use other [OF b False] frame in force)
  qed
  moreover have "disjoint_owners ?wks'"
    using other dis unfolding disjoint_owners_def by (auto split: if_splits) blast+
  moreover have "queue_ok w' ?wks' (sc_fibers sc')"
    unfolding queue_ok_def
  proof (intro conjI ballI)
    show "list_all (\<lambda>t. tk_fiber t \<noteq> None \<or> tk_func t \<noteq> None) (sc_fibers sc')"
      "distinct (queued (sc_fibers sc'))"
      using k by (simp_all add: step_keeps_def)
    fix f
    assume f: "f \<in> set (queued (sc_fibers sc'))"
    show "proper_fiber w' f {INIT, HOLD, READY, EXEC}"
    proof (cases "f \<in> owns wk \<union> N")
      case False
      with f k have "f \<in> set (queued (sc_fibers (sy_sched sy)))" by (auto simp: step_keeps_def)
      with qok proper_fiber_cong [OF frame [OF False]] show ?thesis by (simp add: queue_ok_def)
    qed (use f k in \<open>auto simp: step_keeps_def\<close>)
    show "\<forall>u b. ?wks' u = Some b \<longrightarrow> f \<in> owns b \<longrightarrow> running_fiber b = Some f \<and> proper_fiber w' f {EXEC}"
    proof (intro allI impI)
      fix u b
      assume b: "?wks' u = Some b" "f \<in> owns b"
      show "running_fiber b = Some f \<and> proper_fiber w' f {EXEC}"
      proof (cases "u = tid")
        case True
        with b have "f \<in> owns wk'" by simp
        with k f True b show ?thesis by (auto simp: step_keeps_def)
      next
        case False
        with b have b': "?wks u = Some b" by simp
        from other [OF b' False] b(2) have out: "f \<notin> owns wk \<union> N" by blast
        with f k have "f \<in> set (queued (sc_fibers (sy_sched sy)))" by (auto simp: step_keeps_def)
        with qok b' b(2) proper_fiber_cong [OF frame [OF out]] show ?thesis by (simp add: queue_ok_def)
      qed
    qed
  qed
  moreover have "sc_activeThreadCount sc' = card (active_workers ?wks')"
    using k ok card_active [OF fin wk, of wk'] by (simp add: step_keeps_def system_ok_def)
  moreover have "finite (dom ?wks')" using fin by simp
  ultimately show ?thesis by (simp add: system_ok_def)
qed

lemma queued_simps [simp]:
  "queued [] = []" "queued (xs @ ys) = queued xs @ queued ys"
  "queued (t # ts) = (case tk_fiber t of None \<Rightarrow> queued ts | Some f \<Rightarrow> f # queued ts)"
  by (simp_all add: queued_def map_filter_def split: option.split)

definition eligible :: "(faddr \<Rightarrow> FiberState option) \<Rightarrow> int \<Rightarrow> 'f task \<Rightarrow> bool" where
  "eligible st tid t \<longleftrightarrow> (tk_thread t = - 1 \<or> tk_thread t = tid) \<and>
    (case tk_fiber t of None \<Rightarrow> True | Some f \<Rightarrow> st f \<noteq> Some EXEC)"

lemma pick_task_spec:
  assumes "list_all (\<lambda>t. tk_fiber t \<noteq> None \<or> tk_func t \<noteq> None) q"
  obtains tk' where "pick_task st tid q tk = Inr (None, q, tk')" "\<forall>t \<in> set q. \<not> eligible st tid t"
  | tk' xs t ys where "pick_task st tid q tk = Inr (Some t, xs @ ys, tk')" "q = xs @ t # ys"
      "eligible st tid t" "\<forall>x \<in> set xs. \<not> eligible st tid x"
  using assms
proof (induction q arbitrary: tk thesis)
  case Nil
  then show ?case by simp
next
  case (Cons t q)
  show ?case
  proof (cases "eligible st tid t")
    case True
    then have "pick_task st tid (t # q) tk = Inr (Some t, q, tk \<or> q \<noteq> [])"
      using Cons.prems(3) by (auto simp: eligible_def split: option.splits)
    with True Cons.prems(2) [of t "[]" q] show ?thesis by simp
  next
    case False
    have "\<exists>tk1. pick_task st tid (t # q) tk =
      bindR (pick_task st tid q tk1) (\<lambda>(ft, rest, tk). Inr (ft, t # rest, tk))"
    proof (cases "tk_thread t \<noteq> - 1 \<and> tk_thread t \<noteq> tid")
      case True
      then show ?thesis by (intro exI [of _ True]) simp
    next
      case other: False
      with False obtain f where "tk_fiber t = Some f" "st f = Some EXEC"
        by (auto simp: eligible_def split: option.splits)
      with other show ?thesis by (intro exI [of _ tk]) auto
    qed
    then obtain tk1 where e: "pick_task st tid (t # q) tk =
      bindR (pick_task st tid q tk1) (\<lambda>(ft, rest, tk). Inr (ft, t # rest, tk))" ..
    have q: "list_all (\<lambda>t. tk_fiber t \<noteq> None \<or> tk_func t \<noteq> None) q" using Cons.prems(3) by simp
    show ?thesis
    proof (rule Cons.IH [OF _ _ q, of tk1])
      fix tk'
      assume "pick_task st tid q tk1 = Inr (None, q, tk')" "\<forall>t \<in> set q. \<not> eligible st tid t"
      with e False show thesis by (intro Cons.prems(1)) auto
    next
      fix tk' xs x ys
      assume "pick_task st tid q tk1 = Inr (Some x, xs @ ys, tk')" "q = xs @ x # ys"
        "eligible st tid x" "\<forall>x \<in> set xs. \<not> eligible st tid x"
      with e False show thesis by (intro Cons.prems(2) [of x "t # xs" ys]) auto
    qed
  qed
qed

text \<open>What the invariant says of one worker and of the queue.\<close>

lemma system_okD:
  assumes "system_ok sy"
  shows "sy_workers sy tid = Some wk \<Longrightarrow> worker_ok (sy_world sy) wk"
    "list_all (\<lambda>t. tk_fiber t \<noteq> None \<or> tk_func t \<noteq> None) (sc_fibers (sy_sched sy))"
    "distinct (queued (sc_fibers (sy_sched sy)))"
    "f \<in> set (queued (sc_fibers (sy_sched sy))) \<Longrightarrow> proper_fiber (sy_world sy) f {INIT, HOLD, READY, EXEC}"
    "f \<in> set (queued (sc_fibers (sy_sched sy))) \<Longrightarrow> sy_workers sy tid = Some wk \<Longrightarrow> f \<in> owns wk \<Longrightarrow>
      running_fiber wk = Some f \<and> proper_fiber (sy_world sy) f {EXEC}"
    "sy_workers sy tid = Some wk \<Longrightarrow> sy_workers sy u = Some b \<Longrightarrow> tid \<noteq> u \<Longrightarrow> owns wk \<inter> owns b = {}"
proof -
  show "sy_workers sy tid = Some wk \<Longrightarrow> worker_ok (sy_world sy) wk"
    using assms unfolding system_ok_def by blast
  have q: "queue_ok (sy_world sy) (sy_workers sy) (sc_fibers (sy_sched sy))"
    using assms unfolding system_ok_def by blast
  then show "list_all (\<lambda>t. tk_fiber t \<noteq> None \<or> tk_func t \<noteq> None) (sc_fibers (sy_sched sy))"
    "distinct (queued (sc_fibers (sy_sched sy)))"
    "f \<in> set (queued (sc_fibers (sy_sched sy))) \<Longrightarrow> proper_fiber (sy_world sy) f {INIT, HOLD, READY, EXEC}"
    "f \<in> set (queued (sc_fibers (sy_sched sy))) \<Longrightarrow> sy_workers sy tid = Some wk \<Longrightarrow> f \<in> owns wk \<Longrightarrow>
      running_fiber wk = Some f \<and> proper_fiber (sy_world sy) f {EXEC}"
    unfolding queue_ok_def by blast+
  show "sy_workers sy tid = Some wk \<Longrightarrow> sy_workers sy u = Some b \<Longrightarrow> tid \<noteq> u \<Longrightarrow> owns wk \<inter> owns b = {}"
    using assms unfolding system_ok_def disjoint_owners_def by blast
qed

lemma step_keepsI:
  assumes "worker_ok w' wk'" "owns wk' \<subseteq> owns wk \<union> N"
    "\<And>u b. sy_workers sy u = Some b \<Longrightarrow> u \<noteq> tid \<Longrightarrow> N \<inter> owns b = {}"
    "\<And>f. f \<notin> owns wk \<union> N \<Longrightarrow> fw_fibers w' f = fw_fibers (sy_world sy) f"
    "list_all (\<lambda>t. tk_fiber t \<noteq> None \<or> tk_func t \<noteq> None) (sc_fibers sc')"
    "distinct (queued (sc_fibers sc'))"
    "\<And>f. f \<in> set (queued (sc_fibers sc')) \<Longrightarrow> f \<in> owns wk \<union> N \<Longrightarrow>
      proper_fiber w' f {INIT, HOLD, READY, EXEC} \<and>
      (f \<in> owns wk' \<longrightarrow> running_fiber wk' = Some f \<and> proper_fiber w' f {EXEC})"
    "\<And>f. f \<in> set (queued (sc_fibers sc')) \<Longrightarrow> f \<notin> owns wk \<union> N \<Longrightarrow>
      f \<in> set (queued (sc_fibers (sy_sched sy)))"
    "sc_activeThreadCount sc' + (if active_pc (wk_pc wk) then 1 else 0) =
        sc_activeThreadCount (sy_sched sy) + (if active_pc (wk_pc wk') then 1 else 0)"
  shows "step_keeps sy tid wk N (sc', w', wk')"
  using assms unfolding step_keeps_def by blast

text \<open>A piece that leaves the queue alone, in a worker that gets no new fiber.\<close>

lemma step_keeps_same_queue:
  assumes ok: "system_ok sy" and wk: "sy_workers sy tid = Some wk"
    and "worker_ok w' wk'" "owns wk' \<subseteq> owns wk"
    "\<And>f. f \<notin> owns wk \<Longrightarrow> fw_fibers w' f = fw_fibers (sy_world sy) f"
    "sc_fibers sc' = sc_fibers (sy_sched sy)"
    and run: "\<And>f. f \<in> set (queued (sc_fibers (sy_sched sy))) \<Longrightarrow> running_fiber wk = Some f \<Longrightarrow>
      proper_fiber (sy_world sy) f {EXEC} \<Longrightarrow>
      proper_fiber w' f {INIT, HOLD, READY, EXEC} \<and>
      (f \<in> owns wk' \<longrightarrow> running_fiber wk' = Some f \<and> proper_fiber w' f {EXEC})"
    and "sc_activeThreadCount sc' + (if active_pc (wk_pc wk) then 1 else 0) =
        sc_activeThreadCount (sy_sched sy) + (if active_pc (wk_pc wk') then 1 else 0)"
  shows "step_keeps sy tid wk {} (sc', w', wk')"
  using assms(3-) system_okD(2,3) [OF ok] system_okD(5) [OF ok _ wk]
  by (intro step_keepsI) auto

subsection \<open>Every piece keeps the system in order\<close>

lemma swapIn_proper:
  assumes "proper_fiber w f S" "EXEC \<notin> S" "t_scheduler_fiber th = Some m"
  shows "swapIn (w, th) f = Inr (set_state w f EXEC, th\<lparr>t_fiber := Some f, t_running := Some f\<rparr>)"
proof -
  from assms(1) obtain x where x: "fw_fibers w f = Some x" "fb_state x \<in> S"
    unfolding proper_fiber_def by blast
  then have "fb_state x \<noteq> EXEC" using assms(2) by metis
  with x(1) show ?thesis by (rule swapIn_run [OF _ _ assms(3)])
qed

lemma owns_pc [simp]:
  "owns (wk\<lparr>wk_pc := Pick\<rparr>) = insert (wk_idle wk) (set_option (wk_cb wk))"
  "owns (wk\<lparr>wk_pc := Exited\<rparr>) = insert (wk_idle wk) (set_option (wk_cb wk))"
  "owns (wk\<lparr>wk_pc := Picked ft\<rparr>) = insert (wk_idle wk) (set_option (wk_cb wk) \<union>
    (case ft of None \<Rightarrow> {} | Some t \<Rightarrow> set_option (tk_fiber t)))"
  by (auto simp: owns_def running_fiber_def picked_fiber_def split: option.splits)

lemma keeps_pick:
  assumes ok: "system_ok sy" and wk: "sy_workers sy tid = Some wk" and pc: "wk_pc wk = Pick"
  shows "\<exists>r N. run_step d p tid (sy_sched sy) (sy_world sy) wk = Inr r \<and> step_keeps sy tid wk N r"
proof -
  let ?sc = "sy_sched sy" and ?w = "sy_world sy"
  let ?q = "sc_fibers ?sc"
  note wok = system_okD(1) [OF ok wk]
  have own: "owns wk = insert (wk_idle wk) (set_option (wk_cb wk))" "running_fiber wk = None"
    by (auto simp: owns_def running_fiber_def picked_fiber_def pc)
  from system_okD(5) [OF ok _ wk] own(2) have out: "f \<notin> owns wk" if "f \<in> set (queued ?q)" for f
    using that by force
  note sd = run_step_def step_pick_def pc
  show ?thesis
  proof (rule pick_task_spec [OF system_okD(2) [OF ok], of "state_of ?w" tid False])
    fix tk'
    assume p: "pick_task (state_of ?w) tid ?q False = Inr (None, ?q, tk')"
    have "worker_ok ?w (wk\<lparr>wk_pc := Picked None\<rparr>)"
      using wok by (auto simp: worker_ok_def pc)
    then have "step_keeps sy tid wk {} (?sc\<lparr>sc_fibers := ?q\<rparr>, ?w, wk\<lparr>wk_pc := Picked None\<rparr>)"
      by (rule step_keeps_same_queue [OF ok wk]) (auto simp: own pc active_pc_def)
    with p show ?thesis by (auto simp: sd)
  next
    fix tk' xs t ys
    assume p: "pick_task (state_of ?w) tid ?q False = Inr (Some t, xs @ ys, tk')"
      and q: "?q = xs @ t # ys" and el: "eligible (state_of ?w) tid t"
    let ?wk = "wk\<lparr>wk_pc := Picked (Some t)\<rparr>" and ?N = "set_option (tk_fiber t)"
    let ?sc' = "?sc\<lparr>sc_fibers := xs @ ys, sc_activeThreadCount := Suc (sc_activeThreadCount ?sc)\<rparr>"
    have f: "f \<in> set (queued ?q)" "proper_fiber ?w f {INIT, HOLD, READY}" "f \<notin> owns b"
      if "tk_fiber t = Some f" "sy_workers sy u = Some b" for f u b
    proof -
      from that q show 1: "f \<in> set (queued ?q)" by simp
      from el that have ne: "state_of ?w f \<noteq> Some EXEC" by (simp add: eligible_def)
      with system_okD(4) [OF ok 1] show "proper_fiber ?w f {INIT, HOLD, READY}"
        by (auto simp: proper_fiber_def state_of_def)
      show "f \<notin> owns b" using system_okD(5) [OF ok 1 that(2)] ne by (auto simp: proper_fiber_def state_of_def)
    qed
    have tne: "tk_fiber t \<noteq> None \<or> tk_func t \<noteq> None" using system_okD(2) [OF ok] q by simp
    have "worker_ok ?w ?wk"
      using wok tne f(2,3) [OF _ wk] own(1) by (auto simp: worker_ok_def pc split: option.splits)
    moreover have dq: "distinct (queued (xs @ ys))" and "\<forall>f. tk_fiber t = Some f \<longrightarrow> f \<notin> set (queued (xs @ ys))"
      using system_okD(3) [OF ok] unfolding q by (auto split: option.splits)
    ultimately have no: "f \<in> set (queued (xs @ ys)) \<Longrightarrow> f \<in> set (queued ?q) \<and> f \<notin> owns wk \<union> ?N" for f
      using out [of f] unfolding q by (auto split: option.splits)
    have "step_keeps sy tid wk ?N (?sc', ?w, ?wk)"
    proof (rule step_keepsI)
      show "worker_ok ?w ?wk" by fact
      show "owns ?wk \<subseteq> owns wk \<union> ?N" by (auto simp: own(1) split: option.splits)
      show "?N \<inter> owns b = {}" if "sy_workers sy u = Some b" for u b
        using f(3) [OF _ that] by (cases "tk_fiber t") auto
      show "list_all (\<lambda>t. tk_fiber t \<noteq> None \<or> tk_func t \<noteq> None) (sc_fibers ?sc')"
        using system_okD(2) [OF ok] q by simp
      show "distinct (queued (sc_fibers ?sc'))" using dq by simp
    qed (use no in \<open>auto simp: pc active_pc_def\<close>)
    with p show ?thesis by (auto simp: sd)
  qed
qed

lemma keeps_enter_task:
  assumes ok: "system_ok sy" and wk: "sy_workers sy tid = Some wk"
    and pc: "wk_pc wk = Picked (Some t)" and t: "tk_fiber t = Some f"
  shows "\<exists>r N. run_step d p tid (sy_sched sy) (sy_world sy) wk = Inr r \<and> step_keeps sy tid wk N r"
proof -
  let ?w = "sy_world sy"
  note wok = system_okD(1) [OF ok wk]
  from wok obtain m where m: "t_scheduler_fiber (wk_ctx wk) = Some m" by (auto simp: worker_ok_def)
  from wok have f: "proper_fiber ?w f {INIT, HOLD, READY}" "f \<noteq> wk_idle wk" "wk_cb wk \<noteq> Some f"
    by (simp_all add: worker_ok_def pc t)
  let ?th = "(wk_ctx wk)\<lparr>t_fiber := Some f, t_running := Some f\<rparr>"
  let ?wk = "wk\<lparr>wk_ctx := ?th, wk_pc := TaskIn f\<rparr>" and ?w' = "set_state ?w f EXEC"
  have own: "owns wk = insert (wk_idle wk) (set_option (wk_cb wk) \<union> {f})"
    "owns ?wk = owns wk" "running_fiber wk = None"
    by (auto simp: owns_def running_fiber_def picked_fiber_def pc t)
  have st: "state_of ?w f \<noteq> Some TERM'" "state_of ?w f \<noteq> Some EXCEPT"
    using proper_fiber_state [OF f(1)] by auto
  have "run_step d p tid (sy_sched sy) ?w wk = Inr (sy_sched sy, ?w', ?wk)"
    using st swapIn_proper [OF f(1) _ m] by (simp add: run_step_def pc step_picked_def t enter_fiber_def)
  moreover have "worker_ok ?w' ?wk"
    using wok f(2,3) proper_set_state [OF f(1), of EXEC]
      proper_fiber_cong [OF set_state_other, of "wk_idle wk" f ?w EXEC]
      proper_fiber_cong [OF set_state_other, of _ f ?w EXEC]
    by (auto simp: worker_ok_def pc t m split: option.splits)
  moreover have "step_keeps sy tid wk {} (sy_sched sy, ?w', ?wk)"
    by (rule step_keeps_same_queue [OF ok wk]) (use calculation(2) own in
      \<open>auto simp: set_state_other pc active_pc_def\<close>)
  ultimately show ?thesis by blast
qed

lemma owned_exists:
  assumes "worker_ok w wk" "f \<in> owns wk"
  shows "fw_fibers w f \<noteq> None"
  using assms
  by (auto simp: worker_ok_def owns_def running_fiber_def picked_fiber_def dest!: proper_fiber_Some
      split: run_pc.splits option.splits)

lemma fiber_reset_proper:
  assumes "proper_fiber w c S" "S \<subseteq> {INIT, TERM', EXCEPT}"
  obtains w' where "fiber_reset w c cb = Inr w'" "proper_fiber w' c {INIT}"
    "\<And>f. f \<noteq> c \<Longrightarrow> fw_fibers w' f = fw_fibers w f"
proof -
  from assms(1) obtain x where x: "fw_fibers w c = Some x" "fb_stack x \<noteq> None" "fb_entry x = MainFunc" "fb_state x \<in> S"
    unfolding proper_fiber_def by blast
  then have "finished (fb_state x)" using assms(2) by (auto simp: finished_def)
  with x show ?thesis
    by (intro that [of "put_fiber w c (x\<lparr>fb_cb := cb, fb_entry := MainFunc, fb_state := INIT\<rparr>)"])
      (simp_all add: fiber_reset_def put_fiber_def proper_fiber_def)
qed

text \<open>Entering the callback fiber, reused or new.\<close>

lemma keeps_enter_cb:
  assumes ok: "system_ok sy" and wk: "sy_workers sy tid = Some wk"
    and pc: "wk_pc wk = Picked (Some t)" "tk_fiber t = None"
    and c: "proper_fiber w c {INIT}" "\<And>f. f \<noteq> c \<Longrightarrow> fw_fibers w f = fw_fibers (sy_world sy) f"
    and new: "wk_cb wk = Some c \<or> wk_cb wk = None \<and> fw_fibers (sy_world sy) c = None"
  shows "\<exists>r. enter_fiber (sy_sched sy) w (wk\<lparr>wk_cb := Some c\<rparr>) c (CbIn c) = Inr r \<and> step_keeps sy tid wk {c} r"
proof -
  note wok = system_okD(1) [OF ok wk]
  from wok obtain m where m: "t_scheduler_fiber (wk_ctx wk) = Some m" by (auto simp: worker_ok_def)
  let ?th = "(wk_ctx wk)\<lparr>t_fiber := Some c, t_running := Some c\<rparr>"
  let ?wk = "wk\<lparr>wk_cb := Some c, wk_ctx := ?th, wk_pc := CbIn c\<rparr>" and ?w' = "set_state w c EXEC"
  have own: "owns wk = insert (wk_idle wk) (set_option (wk_cb wk))"
    "owns ?wk = insert (wk_idle wk) {c}" "running_fiber wk = None"
    by (auto simp: owns_def running_fiber_def picked_fiber_def pc)
  have idle: "proper_fiber (sy_world sy) (wk_idle wk) {INIT, HOLD, TERM'}" and ci: "wk_cb wk \<noteq> Some (wk_idle wk)"
    using wok by (simp_all add: worker_ok_def pc)
  have ne: "wk_idle wk \<noteq> c" using new ci proper_fiber_Some [OF idle] by auto
  have fr: "fw_fibers ?w' f = fw_fibers (sy_world sy) f" if "f \<noteq> c" for f
    using c(2) [OF that] that by (simp add: set_state_other)
  have w: "worker_ok ?w' ?wk"
    using idle proper_set_state [OF c(1)] ne m
      proper_fiber_cong [OF fr [OF ne], of "{INIT, HOLD, TERM'}"]
    by (simp add: worker_ok_def)
  have others: "c \<notin> owns b" if "sy_workers sy u = Some b" "u \<noteq> tid" for u b
    using new
  proof
    assume "wk_cb wk = Some c"
    then have "c \<in> owns wk" by (simp add: own)
    with system_okD(6) [OF ok wk that(1)] that(2) show ?thesis by blast
  next
    assume "wk_cb wk = None \<and> fw_fibers (sy_world sy) c = None"
    with owned_exists [OF system_okD(1) [OF ok that(1)]] show ?thesis by blast
  qed
  have nq: "c \<notin> set (queued (sc_fibers (sy_sched sy)))"
  proof
    assume q: "c \<in> set (queued (sc_fibers (sy_sched sy)))"
    with system_okD(5) [OF ok q wk] own(1,3) have "wk_cb wk \<noteq> Some c" by auto
    with new proper_fiber_Some [OF system_okD(4) [OF ok q]] show False by auto
  qed
  have "step_keeps sy tid wk {c} (sy_sched sy, ?w', ?wk)"
  proof (rule step_keepsI [OF w])
    show "owns ?wk \<subseteq> owns wk \<union> {c}" by (auto simp: own)
    show "{c} \<inter> owns b = {}" if "sy_workers sy u = Some b" "u \<noteq> tid" for u b
      using others [OF that] by simp
    show "fw_fibers ?w' f = fw_fibers (sy_world sy) f" if "f \<notin> owns wk \<union> {c}" for f
      using that by (intro fr) simp
    fix f
    assume q: "f \<in> set (queued (sc_fibers (sy_sched sy)))" "f \<in> owns wk \<union> {c}"
    with nq system_okD(5) [OF ok q(1) wk] own(3)
    show "proper_fiber ?w' f {INIT, HOLD, READY, EXEC} \<and>
      (f \<in> owns ?wk \<longrightarrow> running_fiber ?wk = Some f \<and> proper_fiber ?w' f {EXEC})" by auto
  qed (use system_okD(2,3) [OF ok] in \<open>simp_all add: pc active_pc_def\<close>)
  moreover have "enter_fiber (sy_sched sy) w (wk\<lparr>wk_cb := Some c\<rparr>) c (CbIn c) = Inr (sy_sched sy, ?w', ?wk)"
    using swapIn_proper [OF c(1) _ m] by (simp add: enter_fiber_def)
  ultimately show ?thesis by blast
qed

lemma keeps_enter_func:
  assumes ok: "system_ok sy" and wk: "sy_workers sy tid = Some wk" and p: "fresh sy p"
    and pc: "wk_pc wk = Picked (Some t)" "tk_fiber t = None"
  shows "\<exists>r N. run_step d p tid (sy_sched sy) (sy_world sy) wk = Inr r \<and> step_keeps sy tid wk N r"
proof -
  note wok = system_okD(1) [OF ok wk]
  from wok pc obtain fn where fn: "tk_func t = Some fn" by (auto simp: worker_ok_def)
  note sd = run_step_def pc step_picked_def fn
  show ?thesis
  proof (cases "wk_cb wk")
    case None
    let ?w = "new_fiber d p (sy_world sy) (Some fn) 0 False"
    have "proper_fiber ?w p {INIT}" "\<And>f. f \<noteq> p \<Longrightarrow> fw_fibers ?w f = fw_fibers (sy_world sy) f"
      by (simp_all add: new_fiber_def put_fiber_def proper_fiber_def Let_def)
    from keeps_enter_cb [OF ok wk pc this] None p show ?thesis by (auto simp: sd fresh_def)
  next
    case (Some c)
    then have c: "proper_fiber (sy_world sy) c {INIT}" using wok by (simp add: worker_ok_def pc)
    obtain w where w: "fiber_reset (sy_world sy) c (Some fn) = Inr w" "proper_fiber w c {INIT}"
      "\<And>f. f \<noteq> c \<Longrightarrow> fw_fibers w f = fw_fibers (sy_world sy) f"
      by (rule fiber_reset_proper [OF c, of "Some fn"]) auto
    have "wk\<lparr>wk_cb := Some c\<rparr> = wk" using Some by (cases wk) simp
    with keeps_enter_cb [OF ok wk pc w(2,3)] Some w(1) show ?thesis by (auto simp: sd)
  qed
qed

lemma keeps_idle_start:
  assumes ok: "system_ok sy" and wk: "sy_workers sy tid = Some wk" and pc: "wk_pc wk = Picked None"
  shows "\<exists>r N. run_step d p tid (sy_sched sy) (sy_world sy) wk = Inr r \<and> step_keeps sy tid wk N r"
proof -
  let ?w = "sy_world sy" and ?i = "wk_idle wk"
  note wok = system_okD(1) [OF ok wk]
  from wok obtain m where m: "t_scheduler_fiber (wk_ctx wk) = Some m" by (auto simp: worker_ok_def)
  have idle: "proper_fiber ?w ?i {INIT, HOLD, TERM'}" and ci: "wk_cb wk \<noteq> Some ?i"
    and cb: "\<And>c. wk_cb wk = Some c \<Longrightarrow> proper_fiber ?w c {INIT}"
    using wok by (simp_all add: worker_ok_def pc)
  have own: "owns wk = insert ?i (set_option (wk_cb wk))" "running_fiber wk = None"
    by (auto simp: owns_def running_fiber_def picked_fiber_def pc)
  note sd = run_step_def pc step_picked_def
  show ?thesis
  proof (cases "state_of ?w ?i = Some TERM'")
    case True
    have "worker_ok ?w (wk\<lparr>wk_pc := Exited\<rparr>)" using wok by (simp add: worker_ok_def pc)
    then have "step_keeps sy tid wk {} (sy_sched sy, ?w, wk\<lparr>wk_pc := Exited\<rparr>)"
      by (rule step_keeps_same_queue [OF ok wk]) (simp_all add: own pc active_pc_def)
    with True show ?thesis by (auto simp: sd)
  next
    case False
    let ?th = "(wk_ctx wk)\<lparr>t_fiber := Some ?i, t_running := Some ?i\<rparr>"
    let ?wk = "wk\<lparr>wk_ctx := ?th, wk_pc := IdleIn\<rparr>" and ?w' = "set_state ?w ?i EXEC"
    let ?sc = "(sy_sched sy)\<lparr>sc_idleThreadCount := sc_idleThreadCount (sy_sched sy) + 1\<rparr>"
    have i: "proper_fiber ?w ?i {INIT, HOLD}"
      using idle False by (auto simp: proper_fiber_def state_of_def)
    have "worker_ok ?w' ?wk"
      using ci cb proper_set_state [OF idle] m proper_fiber_cong [OF set_state_other, of _ ?i ?w EXEC]
      by (auto simp: worker_ok_def split: option.split)
    then have "step_keeps sy tid wk {} (?sc, ?w', ?wk)"
      by (rule step_keeps_same_queue [OF ok wk])
        (auto simp: own pc active_pc_def set_state_other owns_def running_fiber_def picked_fiber_def)
    with False swapIn_proper [OF i _ m] show ?thesis by (auto simp: sd enter_fiber_def)
  qed
qed

lemma keeps_out:
  assumes ok: "system_ok sy" and wk: "sy_workers sy tid = Some wk"
    and pc: "wk_pc wk = TaskOut f \<and> pc' = TaskEnd f \<or> wk_pc wk = CbOut f \<and> pc' = CbEnd f"
  shows "step_keeps sy tid wk {} (leave_active (sy_sched sy), sy_world sy, wk\<lparr>wk_pc := pc'\<rparr>)"
proof -
  note wok = system_okD(1) [OF ok wk]
  have "active_pc (wk_pc wk)" "\<not> active_pc pc'" using pc by (auto simp: active_pc_def)
  moreover have "0 < sc_activeThreadCount (sy_sched sy)" by (rule active_positive [OF ok wk]) fact
  moreover have "worker_ok (sy_world sy) (wk\<lparr>wk_pc := pc'\<rparr>)" using pc wok by (auto simp: worker_ok_def)
  moreover have "owns (wk\<lparr>wk_pc := pc'\<rparr>) = owns wk" "running_fiber (wk\<lparr>wk_pc := pc'\<rparr>) = running_fiber wk"
    using pc by (auto simp: owns_def running_fiber_def picked_fiber_def)
  ultimately show ?thesis
    by (intro step_keeps_same_queue [OF ok wk])
      (auto simp: leave_active_def intro: proper_fiber_mono)
qed

text \<open>Giving up a fiber at the end: it is suspended, queued again or over.\<close>

lemma keeps_end:
  assumes ok: "system_ok sy" and wk: "sy_workers sy tid = Some wk" and run: "running_fiber wk = Some f"
    and na: "\<not> active_pc (wk_pc wk)" "picked_fiber wk = None"
    and w: "worker_ok w' wk'" "\<And>g. g \<noteq> f \<Longrightarrow> fw_fibers w' g = fw_fibers (sy_world sy) g"
    and wk': "owns wk' \<subseteq> owns wk" "running_fiber wk' = None" "\<not> active_pc (wk_pc wk')"
    and sc': "sc_activeThreadCount sc' = sc_activeThreadCount (sy_sched sy)"
    and q: "sc_fibers sc' = sc_fibers (sy_sched sy) @ (if again then [\<lparr>tk_fiber = Some f, tk_func = None, tk_thread = tt\<rparr>] else [])"
      "again \<Longrightarrow> proper_fiber (sy_world sy) f {READY} \<and> proper_fiber w' f {READY} \<and> f \<notin> owns wk'"
      "\<not> again \<Longrightarrow> proper_fiber (sy_world sy) f {EXEC} \<Longrightarrow> proper_fiber w' f {HOLD} \<and> f \<notin> owns wk'"
  shows "step_keeps sy tid wk {} (sc', w', wk')"
proof -
  have f: "f \<in> owns wk" using run by (simp add: owns_def)
  have own: "g = f" "proper_fiber (sy_world sy) f {EXEC}"
    if "g \<in> set (queued (sc_fibers (sy_sched sy)))" "g \<in> owns wk" for g
    using system_okD(5) [OF ok that(1) wk that(2)] run by auto
  have nq: "f \<notin> set (queued (sc_fibers (sy_sched sy)))" if again
    using own(2) [OF _ f] q(2) [OF that] by (auto simp: proper_fiber_def)
  have mem: "g \<in> set (queued (sc_fibers sc')) \<longleftrightarrow>
    g \<in> set (queued (sc_fibers (sy_sched sy))) \<or> again \<and> g = f" for g
    unfolding q(1) by auto
  show ?thesis
  proof (rule step_keepsI [OF w(1)])
    show "distinct (queued (sc_fibers sc'))" using nq system_okD(3) [OF ok] unfolding q(1) by auto
    show "list_all (\<lambda>t. tk_fiber t \<noteq> None \<or> tk_func t \<noteq> None) (sc_fibers sc')"
      using system_okD(2) [OF ok] unfolding q(1) by auto
    show "fw_fibers w' g = fw_fibers (sy_world sy) g" if "g \<notin> owns wk \<union> {}" for g
      using that f by (intro w(2)) blast
    fix g
    assume g: "g \<in> set (queued (sc_fibers sc'))"
    show "g \<in> set (queued (sc_fibers (sy_sched sy)))" if "g \<notin> owns wk \<union> {}"
      using g that f unfolding mem by blast
    assume o: "g \<in> owns wk \<union> {}"
    show "proper_fiber w' g {INIT, HOLD, READY, EXEC} \<and>
      (g \<in> owns wk' \<longrightarrow> running_fiber wk' = Some g \<and> proper_fiber w' g {EXEC})"
    proof (cases again)
      case True
      with g o own(1) [of g] have "g = f" unfolding mem by auto
      with q(2) [OF True] show ?thesis by (auto intro: proper_fiber_mono)
    next
      case False
      with g o have "g = f" "proper_fiber (sy_world sy) f {EXEC}" unfolding mem using own [of g] by auto
      with q(3) [OF False] show ?thesis by (auto intro: proper_fiber_mono)
    qed
  qed (use wk' na sc' in auto)
qed

lemma schedule_again:
  "snd (schedule sc (Some f) None tt) =
    sc\<lparr>sc_fibers := sc_fibers sc @ [\<lparr>tk_fiber = Some f, tk_func = None, tk_thread = tt\<rparr>]\<rparr>"
  by (simp add: schedule_def scheduleNoLock_def Let_def)

lemma ended_cases:
  assumes "proper_fiber w f {EXEC, READY, TERM', EXCEPT}"
  obtains "state_of w f = Some READY" "proper_fiber w f {READY}"
  | "state_of w f = Some EXEC" "proper_fiber w f {EXEC}"
  | "state_of w f = Some TERM' \<or> state_of w f = Some EXCEPT" "proper_fiber w f {TERM', EXCEPT}"
      "\<not> proper_fiber w f {EXEC}"
  using assms by (fastforce simp: proper_fiber_def state_of_def)

lemma keeps_task_end:
  assumes ok: "system_ok sy" and wk: "sy_workers sy tid = Some wk" and pc: "wk_pc wk = TaskEnd f"
  shows "\<exists>r N. run_step d p tid (sy_sched sy) (sy_world sy) wk = Inr r \<and> step_keeps sy tid wk N r"
proof -
  let ?w = "sy_world sy" and ?wk = "wk\<lparr>wk_pc := Pick\<rparr>"
  note wok = system_okD(1) [OF ok wk]
  have f: "proper_fiber ?w f {EXEC, READY, TERM', EXCEPT}" "f \<noteq> wk_idle wk" "wk_cb wk \<noteq> Some f"
    using wok by (simp_all add: worker_ok_def pc)
  have r: "running_fiber wk = Some f" "picked_fiber wk = None" "\<not> active_pc (wk_pc wk)" "\<not> active_pc (wk_pc ?wk)"
    "running_fiber ?wk = None" "owns ?wk \<subseteq> owns wk" "f \<notin> owns ?wk"
    using f by (auto simp: running_fiber_def picked_fiber_def active_pc_def pc owns_def)
  have w0: "worker_ok ?w ?wk" using wok by (simp add: worker_ok_def pc)
  have w1: "worker_ok (set_state ?w f HOLD) ?wk"
    using w0 by (rule worker_ok_cong [THEN iffD1, rotated]) (use f in \<open>auto simp: set_state_other\<close>)
  note k = keeps_end [OF ok wk r(1,3,2) _ _ r(6,5,4)]
  note sd = run_step_def pc step_task_end_def Let_def schedule_again
  from f(1) show ?thesis
  proof (cases rule: ended_cases)
    case 1
    have "step_keeps sy tid wk {} (snd (schedule (sy_sched sy) (Some f) None (- 1)), ?w, ?wk)"
      by (rule k [OF w0, where again = True and tt = "- 1"]) (use 1 r in \<open>simp_all add: schedule_again\<close>)
    with 1 show ?thesis by (auto simp: sd)
  next
    case 2
    have "step_keeps sy tid wk {} (sy_sched sy, set_state ?w f HOLD, ?wk)"
      by (rule k [OF w1, where again = False and tt = 0])
        (use 2 r proper_set_state [OF f(1)] in \<open>simp_all add: set_state_other\<close>)
    with 2 show ?thesis by (auto simp: sd)
  next
    case 3
    have "step_keeps sy tid wk {} (sy_sched sy, ?w, ?wk)"
      by (rule k [OF w0, where again = False and tt = 0]) (use 3 in simp_all)
    with 3 show ?thesis by (auto simp: sd)
  qed
qed

lemma keeps_cb_end:
  assumes ok: "system_ok sy" and wk: "sy_workers sy tid = Some wk" and pc: "wk_pc wk = CbEnd f"
  shows "\<exists>r N. run_step d p tid (sy_sched sy) (sy_world sy) wk = Inr r \<and> step_keeps sy tid wk N r"
proof -
  let ?w = "sy_world sy" and ?keep = "wk\<lparr>wk_pc := Pick\<rparr>" and ?wk = "wk\<lparr>wk_pc := Pick, wk_cb := None\<rparr>"
  note wok = system_okD(1) [OF ok wk]
  have f: "proper_fiber ?w f {EXEC, READY, TERM', EXCEPT}" "wk_cb wk = Some f" "f \<noteq> wk_idle wk"
    using wok by (auto simp: worker_ok_def pc)
  have r: "running_fiber wk = Some f" "picked_fiber wk = None" "\<not> active_pc (wk_pc wk)" "\<not> active_pc (wk_pc ?wk)"
    "running_fiber ?wk = None" "owns ?wk \<subseteq> owns wk" "f \<notin> owns ?wk"
    using f by (auto simp: running_fiber_def picked_fiber_def active_pc_def pc owns_def)
  have r0: "owns ?keep \<subseteq> owns wk" "running_fiber ?keep = None" "\<not> active_pc (wk_pc ?keep)"
    by (auto simp: running_fiber_def active_pc_def owns_def picked_fiber_def pc)
  have w0: "worker_ok ?w ?wk" using wok by (simp add: worker_ok_def pc)
  have w1: "worker_ok (set_state ?w f HOLD) ?wk"
    using w0 by (rule worker_ok_cong [THEN iffD1, rotated])
      (use f in \<open>auto simp: set_state_other owns_def running_fiber_def picked_fiber_def\<close>)
  note k = keeps_end [OF ok wk r(1,3,2) _ _ r(6,5,4)] and k0 = keeps_end [OF ok wk r(1,3,2) _ _ r0]
  note sd = run_step_def pc step_cb_end_def Let_def schedule_again
  from f(1) show ?thesis
  proof (cases rule: ended_cases)
    case 1
    have "step_keeps sy tid wk {} (snd (schedule (sy_sched sy) (Some f) None (- 1)), ?w, ?wk)"
      by (rule k [OF w0, where again = True and tt = "- 1"]) (use 1 r in \<open>simp_all add: schedule_again\<close>)
    with 1 show ?thesis by (auto simp: sd)
  next
    case 2
    have "step_keeps sy tid wk {} (sy_sched sy, set_state ?w f HOLD, ?wk)"
      by (rule k [OF w1, where again = False and tt = 0])
        (use 2 r proper_set_state [OF f(1)] in \<open>simp_all add: set_state_other\<close>)
    with 2 show ?thesis by (auto simp: sd)
  next
    case 3
    obtain w where w: "fiber_reset ?w f None = Inr w" "proper_fiber w f {INIT}"
      "\<And>g. g \<noteq> f \<Longrightarrow> fw_fibers w g = fw_fibers ?w g"
      by (rule fiber_reset_proper [OF 3(2), of None]) auto
    have "proper_fiber w (wk_idle wk) S = proper_fiber ?w (wk_idle wk) S" for S
      by (rule proper_fiber_cong) (rule w(3), use f(3) in simp)
    then have w2: "worker_ok w ?keep" using wok w(2) f(2) by (simp add: worker_ok_def pc)
    have "step_keeps sy tid wk {} (sy_sched sy, w, ?keep)"
      by (rule k0 [OF w2 w(3), where again = False and tt = 0]) (use 3 in simp_all)
    with 3 w(1) show ?thesis by (auto simp: sd)
  qed
qed

lemma keeps_idle_end:
  assumes ok: "system_ok sy" and wk: "sy_workers sy tid = Some wk" and pc: "wk_pc wk = IdleEnd"
  shows "\<exists>r N. run_step d p tid (sy_sched sy) (sy_world sy) wk = Inr r \<and> step_keeps sy tid wk N r"
proof -
  let ?w = "sy_world sy" and ?i = "wk_idle wk" and ?wk = "wk\<lparr>wk_pc := Pick\<rparr>"
  note wok = system_okD(1) [OF ok wk]
  have i: "proper_fiber ?w ?i {EXEC, TERM'}" and ci: "wk_cb wk \<noteq> Some ?i"
    and cb: "\<And>c. wk_cb wk = Some c \<Longrightarrow> proper_fiber ?w c {INIT}"
    using wok by (simp_all add: worker_ok_def pc)
  have own: "owns wk = insert ?i (set_option (wk_cb wk))" "running_fiber wk = None"
    by (auto simp: owns_def running_fiber_def picked_fiber_def pc)
  note sd = run_step_def pc step_idle_end_def Let_def
  show ?thesis
  proof (cases "state_of ?w ?i = Some TERM'")
    case True
    have "worker_ok ?w ?wk" using wok proper_fiber_of_state [OF i True]
      by (auto simp: worker_ok_def pc intro: proper_fiber_mono)
    then have "step_keeps sy tid wk {} (sy_sched sy, ?w, ?wk)"
      by (rule step_keeps_same_queue [OF ok wk]) (simp_all add: own pc active_pc_def)
    with True show ?thesis by (auto simp: sd)
  next
    case False
    have ne: "state_of ?w ?i \<noteq> Some EXCEPT" using proper_fiber_state [OF i] by auto
    have "worker_ok (set_state ?w ?i HOLD) ?wk"
      using wok ci cb proper_set_state [OF i, of HOLD] proper_fiber_cong [OF set_state_other, of _ ?i ?w HOLD]
      by (auto simp: worker_ok_def pc split: option.split intro: proper_fiber_mono)
    then have "step_keeps sy tid wk {} (sy_sched sy, set_state ?w ?i HOLD, ?wk)"
      by (rule step_keeps_same_queue [OF ok wk]) (simp_all add: own pc active_pc_def set_state_other)
    with False ne show ?thesis by (auto simp: sd)
  qed
qed

lemma keeps_idle_out:
  assumes ok: "system_ok sy" and wk: "sy_workers sy tid = Some wk" and pc: "wk_pc wk = IdleOut"
  shows "\<exists>r N. run_step d p tid (sy_sched sy) (sy_world sy) wk = Inr r \<and> step_keeps sy tid wk N r"
proof -
  let ?sc = "(sy_sched sy)\<lparr>sc_idleThreadCount := usub64 (sc_idleThreadCount (sy_sched sy)) 1\<rparr>"
  have own: "owns wk = insert (wk_idle wk) (set_option (wk_cb wk))" "running_fiber wk = None"
    by (auto simp: owns_def running_fiber_def picked_fiber_def pc)
  have "worker_ok (sy_world sy) (wk\<lparr>wk_pc := IdleEnd\<rparr>)"
    using system_okD(1) [OF ok wk] by (simp add: worker_ok_def pc)
  then have "step_keeps sy tid wk {} (?sc, sy_world sy, wk\<lparr>wk_pc := IdleEnd\<rparr>)"
    by (rule step_keeps_same_queue [OF ok wk])
      (auto simp: own pc active_pc_def owns_def running_fiber_def picked_fiber_def)
  then show ?thesis by (auto simp: run_step_def pc)
qed

text \<open>The three ways the fiber that executes switches back.\<close>

lemma yield_hold_run:
  assumes "t_fiber th = Some f" "proper_fiber w f {EXEC}" "t_scheduler_fiber th = Some m"
  shows "YieldToHold p (w, th) = Inr (w, th\<lparr>t_fiber := Some m, t_running := Some m\<rparr>)"
  using assms by (auto simp: YieldToHold_def Fiber_GetThis_def proper_fiber_def swapOut_run)

lemma yield_ready_run:
  assumes "t_fiber th = Some f" "proper_fiber w f {EXEC}" "t_scheduler_fiber th = Some m"
  shows "YieldToReady p (w, th) =
    Inr (set_state w f READY, th\<lparr>t_fiber := Some m, t_running := Some m\<rparr>)"
  using assms by (auto simp: YieldToReady_def Fiber_GetThis_def proper_fiber_def swapOut_run)

lemma main_func_end_run:
  assumes "proper_fiber w f {EXEC}" "t_scheduler_fiber th = Some m"
  obtains w' where "main_func_end (w, th) f threw = Inr (w', th\<lparr>t_fiber := Some m, t_running := Some m\<rparr>)"
    "proper_fiber w' f {if threw then EXCEPT else TERM'}"
    "\<And>g. g \<noteq> f \<Longrightarrow> fw_fibers w' g = fw_fibers w g"
proof -
  from assms(1) obtain x where x: "fw_fibers w f = Some x" "fb_stack x \<noteq> None" "fb_entry x = MainFunc"
    by (auto simp: proper_fiber_def)
  let ?x = "if threw then x\<lparr>fb_state := EXCEPT\<rparr> else x\<lparr>fb_cb := None, fb_state := TERM'\<rparr>"
  show ?thesis
    by (rule that [of "put_fiber w f ?x"])
      (use x assms(2) in \<open>simp_all add: main_func_end_def swapOut_run put_fiber_def proper_fiber_def\<close>)
qed

lemma keeps_idle_in:
  assumes ok: "system_ok sy" and wk: "sy_workers sy tid = Some wk" and pc: "wk_pc wk = IdleIn"
  shows "\<exists>r N. run_step d p tid (sy_sched sy) (sy_world sy) wk = Inr r \<and> step_keeps sy tid wk N r"
proof -
  let ?w = "sy_world sy" and ?i = "wk_idle wk" and ?th = "wk_ctx wk"
  note wok = system_okD(1) [OF ok wk]
  have i: "proper_fiber ?w ?i {EXEC}" "t_fiber ?th = Some ?i" and ci: "wk_cb wk \<noteq> Some ?i"
    and cb: "\<And>c. wk_cb wk = Some c \<Longrightarrow> proper_fiber ?w c {INIT}"
    using wok by (simp_all add: worker_ok_def pc)
  from wok obtain m where m: "t_scheduler_fiber ?th = Some m" by (auto simp: worker_ok_def)
  let ?wk = "wk\<lparr>wk_ctx := ?th\<lparr>t_fiber := Some m, t_running := Some m\<rparr>, wk_pc := IdleOut\<rparr>"
  have own: "owns wk = insert ?i (set_option (wk_cb wk))" "running_fiber wk = None" "owns ?wk = owns wk"
    by (auto simp: owns_def running_fiber_def picked_fiber_def pc)
  note sd = run_step_def pc step_idle_def
  show ?thesis
  proof (cases "stopping (sy_sched sy)")
    case True
    obtain w' where w': "main_func_end (?w, ?th) ?i False = Inr (w', ?th\<lparr>t_fiber := Some m, t_running := Some m\<rparr>)"
      "proper_fiber w' ?i {TERM'}" "\<And>g. g \<noteq> ?i \<Longrightarrow> fw_fibers w' g = fw_fibers ?w g"
      by (rule main_func_end_run [OF i(1) m, of False]) simp
    have "worker_ok w' ?wk"
      using ci cb m proper_fiber_mono [OF w'(2), of "{EXEC, TERM'}"] proper_fiber_cong [OF w'(3)]
      by (auto simp: worker_ok_def split: option.split)
    then have "step_keeps sy tid wk {} (sy_sched sy, w', ?wk)"
      by (rule step_keeps_same_queue [OF ok wk]) (simp_all add: own pc active_pc_def w'(3))
    with True w'(1) show ?thesis by (auto simp: sd)
  next
    case False
    have "worker_ok ?w ?wk"
      using ci cb m proper_fiber_mono [OF i(1), of "{EXEC, TERM'}"]
      by (auto simp: worker_ok_def split: option.split)
    then have "step_keeps sy tid wk {} (sy_sched sy, ?w, ?wk)"
      by (rule step_keeps_same_queue [OF ok wk]) (simp_all add: own pc active_pc_def)
    with False yield_hold_run [OF i(2,1) m] show ?thesis by (auto simp: sd)
  qed
qed

lemma keeps_run_step:
  assumes ok: "system_ok sy" and wk: "sy_workers sy tid = Some wk" and p: "fresh sy p"
  shows "\<exists>r N. run_step d p tid (sy_sched sy) (sy_world sy) wk = Inr r \<and> step_keeps sy tid wk N r"
proof -
  have same: "step_keeps sy tid wk {} (sy_sched sy, sy_world sy, wk)"
    by (rule step_keeps_same_queue [OF ok wk system_okD(1) [OF ok wk]])
      (auto intro: proper_fiber_mono)
  show ?thesis
  proof (cases "wk_pc wk")
    case Pick
    then show ?thesis by (rule keeps_pick [OF ok wk])
  next
    case (Picked ft)
    show ?thesis
    proof (cases ft)
      case None
      with Picked show ?thesis by (intro keeps_idle_start [OF ok wk]) simp
    next
      case (Some t)
      with Picked keeps_enter_task [OF ok wk] keeps_enter_func [OF ok wk p] show ?thesis
        by (cases "tk_fiber t") auto
    qed
  next
    case (TaskOut f)
    with keeps_out [OF ok wk, of f "TaskEnd f"] show ?thesis by (auto simp: run_step_def)
  next
    case (CbOut f)
    with keeps_out [OF ok wk, of f "CbEnd f"] show ?thesis by (auto simp: run_step_def)
  next
    case (TaskEnd f)
    then show ?thesis by (rule keeps_task_end [OF ok wk])
  next
    case (CbEnd f)
    then show ?thesis by (rule keeps_cb_end [OF ok wk])
  next
    case IdleIn
    then show ?thesis by (rule keeps_idle_in [OF ok wk])
  next
    case IdleOut
    then show ?thesis by (rule keeps_idle_out [OF ok wk])
  next
    case IdleEnd
    then show ?thesis by (rule keeps_idle_end [OF ok wk])
  qed (use same in \<open>auto simp: run_step_def\<close>)
qed

subsection \<open>Scheduling and the actions of fibers\<close>

lemma schedule_system_ok:
  assumes ok: "system_ok sy" and d: "case fiber of None \<Rightarrow> True | Some f \<Rightarrow> schedulable sy f"
  shows "system_ok (sy\<lparr>sy_sched := snd (schedule (sy_sched sy) fiber func t)\<rparr>)"
proof (cases "fiber = None \<and> func = None")
  case True
  then show ?thesis using ok by (simp add: schedule_def scheduleNoLock_def Let_def)
next
  case False
  let ?q = "sc_fibers (sy_sched sy)" and ?t = "\<lparr>tk_fiber = fiber, tk_func = func, tk_thread = t\<rparr>"
  let ?sc = "(sy_sched sy)\<lparr>sc_fibers := ?q @ [?t]\<rparr>"
  have e: "snd (schedule (sy_sched sy) fiber func t) = ?sc"
    using False by (auto simp: schedule_def scheduleNoLock_def Let_def)
  have q: "queue_ok (sy_world sy) (sy_workers sy) ?q" using ok unfolding system_ok_def by blast
  have "queue_ok (sy_world sy) (sy_workers sy) (?q @ [?t])"
  proof (cases fiber)
    case None
    with q False show ?thesis by (simp add: queue_ok_def)
  next
    case (Some f)
    with d have f: "schedulable sy f" by simp
    then have "f \<notin> set (queued ?q)" "proper_fiber (sy_world sy) f {INIT, HOLD, READY, EXEC}"
      "\<forall>tid wk. sy_workers sy tid = Some wk \<longrightarrow> f \<in> owns wk \<longrightarrow>
        running_fiber wk = Some f \<and> proper_fiber (sy_world sy) f {EXEC}"
      unfolding schedulable_def pending_def by (auto intro: proper_fiber_mono)
    with q Some show ?thesis by (auto simp: queue_ok_def)
  qed
  with ok show ?thesis unfolding e by (simp add: system_ok_def)
qed

lemma new_fiber_system_ok:
  assumes ok: "system_ok sy" and p: "fresh sy p"
  shows "system_ok (sy\<lparr>sy_world := new_fiber d p (sy_world sy) cb sz uc\<rparr>)"
proof -
  let ?w = "new_fiber d p (sy_world sy) cb sz uc"
  have same: "fw_fibers (sy_world sy) f = fw_fibers ?w f" if "fw_fibers (sy_world sy) f \<noteq> None" for f
    using that p by (auto simp: new_fiber_def put_fiber_def fresh_def Let_def)
  have pf: "proper_fiber ?w f S" if pr: "proper_fiber (sy_world sy) f S" for f S
  proof -
    from proper_fiber_Some [OF pr] have "fw_fibers (sy_world sy) f = fw_fibers ?w f" by (intro same) auto
    with pr show ?thesis by (simp add: proper_fiber_def)
  qed
  have "worker_ok ?w wk" if wk: "sy_workers sy tid = Some wk" for tid wk
  proof (rule worker_ok_cong [THEN iffD1, OF _ system_okD(1) [OF ok wk]])
    fix f
    assume "f \<in> owns wk"
    then show "fw_fibers (sy_world sy) f = fw_fibers ?w f"
      by (intro same owned_exists [OF system_okD(1) [OF ok wk]])
  qed
  moreover have "queue_ok ?w (sy_workers sy) (sc_fibers (sy_sched sy))"
    using ok pf unfolding system_ok_def queue_ok_def by blast
  ultimately show ?thesis using ok by (simp add: system_ok_def)
qed

text \<open>A fiber that switches back: still executing for the queue, or not in the queue.\<close>

lemma keeps_switch_back:
  assumes ok: "system_ok sy" and wk: "sy_workers sy tid = Some wk"
    and ex: "executing wk = Some (f, pc')"
    and m: "t_scheduler_fiber (wk_ctx wk) = Some m" "t_scheduler_fiber th = Some m"
    and w': "proper_fiber w' f {EXEC, READY, TERM', EXCEPT}" "\<And>g. g \<noteq> f \<Longrightarrow> fw_fibers w' g = fw_fibers (sy_world sy) g"
    and q: "\<not> pending sy f \<or> w' = sy_world sy"
  shows "step_keeps sy tid wk {} (sy_sched sy, w', wk\<lparr>wk_ctx := th, wk_pc := pc'\<rparr>)"
proof -
  let ?wk = "wk\<lparr>wk_ctx := th, wk_pc := pc'\<rparr>"
  note wok = system_okD(1) [OF ok wk]
  have pc: "wk_pc wk = TaskIn f \<and> pc' = TaskOut f \<or> wk_pc wk = CbIn f \<and> pc' = CbOut f"
    using ex by (auto simp: executing_def split: run_pc.splits)
  have run: "running_fiber wk = Some f" "running_fiber ?wk = Some f" "owns ?wk = owns wk"
    using pc by (auto simp: running_fiber_def owns_def picked_fiber_def)
  have ne: "f \<noteq> wk_idle wk" using wok pc by (auto simp: worker_ok_def)
  have cb: "wk_pc wk = TaskIn f \<Longrightarrow> wk_cb wk \<noteq> Some f" using wok by (simp add: worker_ok_def)
  have fr: "proper_fiber w' g S = proper_fiber (sy_world sy) g S" if "g \<noteq> f" for g S
    by (rule proper_fiber_cong) (rule w'(2) [OF that])
  have idle: "proper_fiber w' (wk_idle wk) S = proper_fiber (sy_world sy) (wk_idle wk) S" for S
    by (rule fr) (use ne in simp)
  have "worker_ok w' ?wk"
    using pc
  proof (elim disjE conjE)
    assume t: "wk_pc wk = TaskIn f" "pc' = TaskOut f"
    then show ?thesis
      using wok cb [OF t(1)] m(2) w'(1) fr by (auto simp: worker_ok_def idle split: option.splits)
  next
    assume t: "wk_pc wk = CbIn f" "pc' = CbOut f"
    then show ?thesis using wok m(2) w'(1) ne by (simp add: worker_ok_def idle)
  qed
  moreover have "active_pc (wk_pc wk)" "active_pc pc'" using pc by (auto simp: active_pc_def)
  ultimately show ?thesis
  proof (intro step_keeps_same_queue [OF ok wk])
    fix g
    assume g: "g \<in> set (queued (sc_fibers (sy_sched sy)))" "running_fiber wk = Some g"
      "proper_fiber (sy_world sy) g {EXEC}"
    with run(1) q have "w' = sy_world sy" "g = f" by (auto simp: pending_def)
    with g(3) run(2) show "proper_fiber w' g {INIT, HOLD, READY, EXEC} \<and>
      (g \<in> owns ?wk \<longrightarrow> running_fiber ?wk = Some g \<and> proper_fiber w' g {EXEC})"
      by (auto intro: proper_fiber_mono)
  next
    fix g
    assume "g \<notin> owns wk"
    then have "g \<noteq> f" using run(1) by (auto simp: owns_def)
    then show "fw_fibers w' g = fw_fibers (sy_world sy) g" by (rule w'(2))
  qed (simp_all add: run)
qed

lemma act_step_ok:
  assumes ok: "system_ok sy" and d: "disciplined (ActLabel tid p a) sy"
  shows "\<exists>sy'. on_worker tid (act_step p a) sy = Inr sy' \<and> system_ok sy'"
proof (cases "sy_workers sy tid")
  case None
  with ok show ?thesis by (simp add: on_worker_def)
next
  case wk: (Some wk)
  let ?sc = "sy_sched sy" and ?w = "sy_world sy" and ?th = "wk_ctx wk"
  note wok = system_okD(1) [OF ok wk]
  have upd: "(sy_workers sy)(tid \<mapsto> wk) = sy_workers sy" using wk by (rule fun_upd_idem)
  show ?thesis
  proof (cases "executing wk")
    case None
    with ok wk upd show ?thesis by (simp add: on_worker_def act_step_def)
  next
    case ex: (Some x)
    obtain f pc' where x: "x = (f, pc')" by (cases x)
    note ex = ex [unfolded x]
    have pc: "wk_pc wk = TaskIn f \<or> wk_pc wk = CbIn f" using ex by (auto simp: executing_def split: run_pc.splits)
    have f: "proper_fiber ?w f {EXEC}" "t_fiber ?th = Some f" using wok pc by (auto simp: worker_ok_def)
    from wok obtain m where m: "t_scheduler_fiber ?th = Some m" by (auto simp: worker_ok_def)
    let ?th' = "?th\<lparr>t_fiber := Some m, t_running := Some m\<rparr>"
    have m': "t_scheduler_fiber ?th' = Some m" using m by simp
    have run: "running_fiber wk = Some f" using pc by (auto simp: running_fiber_def)
    have fin: "\<exists>sy'. on_worker tid (act_step p a) sy = Inr sy' \<and> system_ok sy'"
      if "act_step p a ?sc ?w wk = Inr (?sc, w', wk\<lparr>wk_ctx := ?th', wk_pc := pc'\<rparr>)"
        "proper_fiber w' f {EXEC, READY, TERM', EXCEPT}" "\<And>g. g \<noteq> f \<Longrightarrow> fw_fibers w' g = fw_fibers ?w g"
        "\<not> pending sy f \<or> w' = ?w" for w'
      using step_keeps_system_ok [OF ok wk keeps_switch_back [OF ok wk ex m m' that(2-4)]] that(1) wk
      by (simp add: on_worker_def)
    show ?thesis
    proof (cases a)
      case (DoSchedule fiber func t)
      with d have "case fiber of None \<Rightarrow> True | Some f \<Rightarrow> schedulable sy f" by (simp add: disciplined_def)
      from schedule_system_ok [OF ok this] DoSchedule ex wk upd show ?thesis
        by (simp add: on_worker_def act_step_def)
    next
      case DoYieldToReady
      with d wk run have np: "\<not> pending sy f" by (simp add: disciplined_def)
      show ?thesis
        by (rule fin [of "set_state ?w f READY"])
          (use DoYieldToReady ex yield_ready_run [OF f(2,1) m, of p] np
            proper_fiber_mono [OF proper_set_state [OF f(1), of READY], of "{EXEC, READY, TERM', EXCEPT}"]
            in \<open>simp_all add: act_step_def set_state_other\<close>)
    next
      case DoYieldToHold
      show ?thesis
        by (rule fin [of ?w])
          (use DoYieldToHold ex yield_hold_run [OF f(2,1) m, of p]
            proper_fiber_mono [OF f(1), of "{EXEC, READY, TERM', EXCEPT}"] in \<open>simp_all add: act_step_def\<close>)
    next
      case (DoEnd threw)
      with d wk run have np: "\<not> pending sy f" by (simp add: disciplined_def)
      obtain w' where w': "main_func_end (?w, ?th) f threw = Inr (w', ?th')"
        "proper_fiber w' f {if threw then EXCEPT else TERM'}" "\<And>g. g \<noteq> f \<Longrightarrow> fw_fibers w' g = fw_fibers ?w g"
        by (rule main_func_end_run [OF f(1) m that])
      show ?thesis
        by (rule fin [of w'])
          (use DoEnd ex w' np proper_fiber_mono [OF w'(2), of "{EXEC, READY, TERM', EXCEPT}"]
            in \<open>simp_all add: act_step_def\<close>)
    qed
  qed
qed

lemma sched_start_keeps:
  assumes "sc_stopping sc \<longrightarrow> sc_threads sc = []"
  shows "\<exists>sc'. sched_start ids sc = Inr sc' \<and> sc_fibers sc' = sc_fibers sc \<and>
    sc_activeThreadCount sc' = sc_activeThreadCount sc"
  using assms by (simp add: sched_start_def Let_def)

lemma sched_stop_keeps:
  assumes "(sc_rootThread sc \<noteq> - 1) = is_this"
  shows "\<exists>a sc'. sched_stop st is_this sc = Inr (a, sc') \<and> sc_fibers sc' = sc_fibers sc \<and>
    sc_activeThreadCount sc' = sc_activeThreadCount sc"
  using assms [symmetric] by (auto simp: sched_stop_def Let_def)

lemma sys_step_ok:
  assumes ok: "system_ok sy" and d: "disciplined l sy"
  shows "\<exists>sy'. sys_step ds l sy = Inr sy' \<and> system_ok sy'"
proof (cases l)
  case (RunLabel tid p)
  show ?thesis
  proof (cases "sy_workers sy tid")
    case None
    with ok RunLabel show ?thesis by (simp add: sys_step_def on_worker_def)
  next
    case (Some wk)
    from d RunLabel have "fresh sy p" by (simp add: disciplined_def)
    from keeps_run_step [OF ok Some this] obtain sc' w' wk' N where
      "run_step ds p tid (sy_sched sy) (sy_world sy) wk = Inr (sc', w', wk')"
      "step_keeps sy tid wk N (sc', w', wk')" by (metis prod_cases3)
    with step_keeps_system_ok [OF ok Some this(2)] Some RunLabel show ?thesis
      by (simp add: sys_step_def on_worker_def)
  qed
next
  case (ActLabel tid p a)
  with act_step_ok [OF ok d [unfolded ActLabel]] show ?thesis by (simp add: sys_step_def)
next
  case (ExtSchedule fiber func t)
  with d schedule_system_ok [OF ok, of fiber] show ?thesis by (simp add: sys_step_def disciplined_def)
next
  case (NewFiber p fn)
  with d new_fiber_system_ok [OF ok] show ?thesis by (simp add: sys_step_def disciplined_def)
next
  case (StartLabel ids)
  with d have "sc_stopping (sy_sched sy) \<longrightarrow> sc_threads (sy_sched sy) = []" by (simp add: disciplined_def)
  from sched_start_keeps [OF this, of ids] obtain sc where "sched_start ids (sy_sched sy) = Inr sc"
    "sc_fibers sc = sc_fibers (sy_sched sy)" "sc_activeThreadCount sc = sc_activeThreadCount (sy_sched sy)"
    by blast
  with ok StartLabel show ?thesis by (simp add: sys_step_def system_ok_def)
next
  case (StopLabel is_this)
  with d have "(sc_rootThread (sy_sched sy) \<noteq> - 1) = is_this" by (simp add: disciplined_def)
  from sched_stop_keeps [OF this] obtain a sc where "sched_stop (state_of (sy_world sy)) is_this (sy_sched sy) = Inr (a, sc)"
    "sc_fibers sc = sc_fibers (sy_sched sy)" "sc_activeThreadCount sc = sc_activeThreadCount (sy_sched sy)"
    by blast
  with ok StopLabel show ?thesis by (simp add: sys_step_def system_ok_def)
next
  case JoinLabel
  with ok show ?thesis by (simp add: sys_step_def stop_join_def system_ok_def)
qed

subsection \<open>Reachable systems\<close>

text \<open>
  A system starts with a scheduler whose queue is empty. A thread enters \<open>run\<close> at any time, the
  root thread with its scheduler's fiber set; everything else, \<open>start\<close> and \<open>stop\<close> included, is a
  label.
\<close>

inductive sched_reachable :: "u32 \<Rightarrow> 'f system \<Rightarrow> bool" for ds where
  reach_init: "sc_fibers sc = [] \<Longrightarrow> sc_activeThreadCount sc = 0 \<Longrightarrow>
    sched_reachable ds \<lparr>sy_sched = sc, sy_world = w, sy_workers = Map.empty\<rparr>"
| reach_worker: "sched_reachable ds sy \<Longrightarrow> sy_workers sy tid = None \<Longrightarrow> fresh sy p \<Longrightarrow> fresh sy q \<Longrightarrow> p \<noteq> q \<Longrightarrow>
    (tid = sc_rootThread (sy_sched sy) \<Longrightarrow> t_scheduler_fiber th \<noteq> None) \<Longrightarrow>
    sched_reachable ds (run_start ds p q fn tid th sy)"
| reach_step: "sched_reachable ds sy \<Longrightarrow> disciplined l sy \<Longrightarrow> sys_step ds l sy = Inr sy' \<Longrightarrow>
    sched_reachable ds sy'"

lemma run_start_world:
  assumes "fresh sy p" "fresh sy q" "p \<noteq> q"
    and root: "tid = sc_rootThread (sy_sched sy) \<Longrightarrow> t_scheduler_fiber th \<noteq> None"
  obtains w th' where "run_start ds p q fn tid th sy = sy\<lparr>sy_world := w,
      sy_workers := (sy_workers sy)(tid \<mapsto> \<lparr>wk_ctx = th', wk_pc = Pick, wk_idle = q, wk_cb = None\<rparr>)\<rparr>"
    "proper_fiber w q {INIT}" "t_scheduler_fiber th' \<noteq> None"
    "\<And>f. fw_fibers (sy_world sy) f \<noteq> None \<Longrightarrow> fw_fibers w f = fw_fibers (sy_world sy) f"
proof -
  have n: "proper_fiber (new_fiber ds q w (Some fn) 0 False) q {INIT}"
    "g \<noteq> q \<Longrightarrow> fw_fibers (new_fiber ds q w (Some fn) 0 False) g = fw_fibers w g" for w g
    by (simp_all add: new_fiber_def put_fiber_def proper_fiber_def Let_def)
  obtain cur w th1 where g: "Fiber_GetThis p (sy_world sy, th) = (cur, w, th1)" by (metis prod_cases3)
  have w: "fw_fibers w f = fw_fibers (sy_world sy) f" if "f \<noteq> p" for f
    using g that by (auto simp: Fiber_GetThis_def new_main_fiber_def put_fiber_def Let_def split: option.splits)
  have ne: "f \<noteq> p \<and> f \<noteq> q" if "fw_fibers (sy_world sy) f \<noteq> None" for f
    using that assms(1,2) by (auto simp: fresh_def)
  show ?thesis
  proof (cases "tid = sc_rootThread (sy_sched sy)")
    case True
    show ?thesis
      by (rule that [where w = "new_fiber ds q (sy_world sy) (Some fn) 0 False" and th' = th])
        (use True root n ne in \<open>auto simp: run_start_def Let_def\<close>)
  next
    case False
    show ?thesis
      by (rule that [where w = "new_fiber ds q w (Some fn) 0 False" and
            th' = "th1\<lparr>t_scheduler_fiber := Some cur\<rparr>"])
        (use False g n ne w in \<open>auto simp: run_start_def Let_def\<close>)
  qed
qed

lemma run_start_ok:
  fixes sy :: "'f system"
  assumes ok: "system_ok sy" and tid: "sy_workers sy tid = None" and fr: "fresh sy p" "fresh sy q" "p \<noteq> q"
    and root: "tid = sc_rootThread (sy_sched sy) \<Longrightarrow> t_scheduler_fiber th \<noteq> None"
  shows "system_ok (run_start ds p q fn tid th sy)"
proof -
  obtain w th' where r: "run_start ds p q fn tid th sy = sy\<lparr>sy_world := w,
      sy_workers := (sy_workers sy)(tid \<mapsto> \<lparr>wk_ctx = th', wk_pc = Pick, wk_idle = q, wk_cb = None\<rparr>)\<rparr>"
    "proper_fiber w q {INIT}" "t_scheduler_fiber th' \<noteq> None"
    "\<And>f. fw_fibers (sy_world sy) f \<noteq> None \<Longrightarrow> fw_fibers w f = fw_fibers (sy_world sy) f"
    using run_start_world [OF fr root] by metis
  let ?wk = "\<lparr>wk_ctx = th', wk_pc = Pick, wk_idle = q, wk_cb = None\<rparr> :: 'f worker"
  let ?wks = "(sy_workers sy)(tid \<mapsto> ?wk)"
  have own: "owns ?wk = {q}" "running_fiber ?wk = None" by (auto simp: owns_def running_fiber_def picked_fiber_def)
  have old: "worker_ok w b" "q \<notin> owns b" if "sy_workers sy u = Some b" for u b
  proof -
    note bok = system_okD(1) [OF ok that]
    show "worker_ok w b"
      by (rule worker_ok_cong [THEN iffD1, OF _ bok]) (use r(4) owned_exists [OF bok] in force)
    show "q \<notin> owns b" using owned_exists [OF bok, of q] fr(2) by (auto simp: fresh_def)
  qed
  have wok: "worker_ok w ?wk" using r(2,3) by (auto simp: worker_ok_def intro: proper_fiber_mono)
  have pf: "proper_fiber w f S" if "proper_fiber (sy_world sy) f S" for f S
    using that r(4) [of f] by (auto simp: proper_fiber_def)
  have q: "queue_ok (sy_world sy) (sy_workers sy) (sc_fibers (sy_sched sy))" using ok unfolding system_ok_def by blast
  have nq: "q \<notin> set (queued (sc_fibers (sy_sched sy)))"
    using system_okD(4) [OF ok, of q] proper_fiber_Some fr(2) by (fastforce simp: fresh_def)
  have "queue_ok w ?wks (sc_fibers (sy_sched sy))"
    unfolding queue_ok_def
  proof (intro conjI ballI allI impI)
    fix f u b
    assume f: "f \<in> set (queued (sc_fibers (sy_sched sy)))" "?wks u = Some b" "f \<in> owns b"
    with nq own(1) have b: "sy_workers sy u = Some b" by (cases "u = tid") auto
    with q f pf show "running_fiber b = Some f" "proper_fiber w f {EXEC}" unfolding queue_ok_def by blast+
  qed (use q pf in \<open>auto simp: queue_ok_def\<close>)
  moreover have "disjoint_owners ?wks"
    using ok old(2) own(1) unfolding system_ok_def disjoint_owners_def by (simp split: if_splits)
  moreover have "\<forall>u b. ?wks u = Some b \<longrightarrow> worker_ok w b" using old(1) wok by simp
  moreover have "active_workers ?wks = active_workers (sy_workers sy)"
    using tid by (auto simp: active_workers_def active_pc_def)
  ultimately show ?thesis using ok unfolding r(1) by (simp add: system_ok_def)
qed

lemma sched_reachable_ok: "sched_reachable ds sy \<Longrightarrow> system_ok sy"
proof (induction rule: sched_reachable.induct)
  case (reach_init sc w)
  then show ?case
    by (simp add: system_ok_def disjoint_owners_def queue_ok_def active_workers_def)
next
  case (reach_worker sy tid p q th fn)
  then show ?case by (intro run_start_ok) auto
next
  case (reach_step sy l sy')
  with sys_step_ok [OF reach_step.IH reach_step.hyps(2), of ds] show ?case by auto
qed

subsection \<open>Properties\<close>

text \<open>A system of two worker threads, for the witnesses.\<close>

definition demo_sched :: "nat scheduler" where
  "demo_sched = \<lparr>sc_name = ''demo'', sc_threadIds = [1, 2], sc_threadCount = 2, sc_activeThreadCount = 0,
    sc_idleThreadCount = 0, sc_stopping = False, sc_autoStop = False, sc_rootThread = - 1,
    sc_fibers = [], sc_threads = [1, 2], sc_rootFiber = None\<rparr>"

definition demo_system :: "nat system" where
  "demo_system =
    run_start 4096 3 4 0 2 new_thread_ctx (run_start 4096 1 2 0 1 new_thread_ctx
      \<lparr>sy_sched = demo_sched, sy_world = new_fiber_world, sy_workers = Map.empty\<rparr>)"

lemma demo_sched_started:
  "bindR (new_scheduler ds p q fn tid b 2 False ''demo'' wt) (\<lambda>(sc, _). sched_start (\<lambda>i. int i + 1) sc) = Inr demo_sched"
  by (simp add: new_scheduler_def sched_start_def demo_sched_def Let_def upt_rec)

lemma demo_reachable: "sched_reachable 4096 demo_system"
  unfolding demo_system_def
  by (intro reach_worker reach_init)
    (simp_all add: demo_sched_def fresh_def new_fiber_world_def run_start_def Fiber_GetThis_def
      new_main_fiber_def new_fiber_def put_fiber_def new_thread_ctx_def SetThis_def Let_def)

definition demo_labels :: "nat label list" where
  "demo_labels =
    [NewFiber 10 0, ExtSchedule (Some 10) None (- 1), RunLabel 1 100, RunLabel 1 100]"

text \<open>
  C10: as long as fibers are scheduled once per suspension (\<open>disciplined\<close>), no assertion of
  \<open>run\<close>, of the fiber switches or of \<open>Fiber::reset\<close> ever fails, in any interleaving of the
  worker threads, of \<open>start\<close> and of \<open>stop\<close>, and no fiber is ever in the hands of two threads.
\<close>

theorem scheduler_safe:
  assumes "sched_reachable ds sy" "disciplined l sy"
  shows "(\<exists>sy'. sys_step ds l sy = Inr sy') \<and>
    (\<forall>t u a b. sy_workers sy t = Some a \<longrightarrow> sy_workers sy u = Some b \<longrightarrow> t \<noteq> u \<longrightarrow>
      owns a \<inter> owns b = {}) \<and>
    (\<forall>t a f pc. sy_workers sy t = Some a \<longrightarrow> executing a = Some (f, pc) \<longrightarrow>
      state_of (sy_world sy) f = Some EXEC \<and> t_fiber (wk_ctx a) = Some f)"
proof (intro conjI allI impI)
  have ok: "system_ok sy" by (rule sched_reachable_ok [OF assms(1)])
  show "\<exists>sy'. sys_step ds l sy = Inr sy'" using sys_step_ok [OF ok assms(2)] by blast
  show "owns a \<inter> owns b = {}" if "sy_workers sy t = Some a" "sy_workers sy u = Some b" "t \<noteq> u" for t u a b
    by (rule system_okD(6) [OF ok that])
  fix t a f pc
  assume a: "sy_workers sy t = Some a" "executing a = Some (f, pc)"
  then have "proper_fiber (sy_world sy) f {EXEC} \<and> t_fiber (wk_ctx a) = Some f"
    using system_okD(1) [OF ok a(1)] by (auto simp: executing_def worker_ok_def split: run_pc.splits)
  then show "state_of (sy_world sy) f = Some EXEC" "t_fiber (wk_ctx a) = Some f"
    by (auto simp: proper_fiber_def state_of_def)
qed

theorem scheduler_safe_witness: "\<exists>sy'. sys_step 4096 (NewFiber 10 0) demo_system = Inr sy'"
proof -
  have "disciplined (NewFiber 10 0) demo_system"
    by (simp add: disciplined_def fresh_def demo_system_def new_fiber_world_def run_start_def Fiber_GetThis_def
        new_main_fiber_def new_fiber_def put_fiber_def new_thread_ctx_def SetThis_def Let_def)
  from scheduler_safe [OF demo_reachable this] show ?thesis by blast
qed

text \<open>
  What the test \<open>stopping\<close>, on which the idle fibers end, says of the workers: exactly that no task
  is queued and that no worker has taken one or is executing one. A worker between the end of
  \<open>swapIn\<close> and the look at its fiber's state (\<open>TaskEnd\<close>, \<open>CbEnd\<close>) is not counted.
\<close>

lemma stopping_exact:
  assumes "sched_reachable ds sy"
  shows "stopping (sy_sched sy) \<longleftrightarrow> sc_autoStop (sy_sched sy) \<and> sc_stopping (sy_sched sy) \<and>
    sc_fibers (sy_sched sy) = [] \<and> (\<forall>t a. sy_workers sy t = Some a \<longrightarrow> \<not> active_pc (wk_pc a))"
proof -
  have ok: "system_ok sy" by (rule sched_reachable_ok [OF assms])
  have fin: "finite (active_workers (sy_workers sy))"
    by (rule finite_subset [of _ "dom (sy_workers sy)"]) (use ok in \<open>auto simp: active_workers_def system_ok_def\<close>)
  have "sc_activeThreadCount (sy_sched sy) = 0 \<longleftrightarrow> active_workers (sy_workers sy) = {}"
    using ok fin by (simp add: system_ok_def)
  then show ?thesis by (auto simp: stopping_def active_workers_def)
qed

text \<open>
  A disciplined run of the demo system: thread 1 takes a function, whose fiber (at 10) yields to
  ready; \<open>run\<close> lowers the count of active threads; \<open>stop\<close> is called; thread 2 idles, finds
  \<open>stopping\<close> true and leaves \<open>run\<close>; only now thread 1 puts the fiber back into the queue, takes it
  again, the fiber schedules a function for thread 2 and ends; thread 1 goes once round its loop.
\<close>

definition stop_race_labels :: "nat label list" where
  "stop_race_labels =
    [ExtSchedule None (Some 0) (- 1), RunLabel 1 100, RunLabel 1 10, ActLabel 1 100 DoYieldToReady,
     RunLabel 1 100, StopLabel False] @ replicate 7 (RunLabel 2 100) @
    [RunLabel 1 100, RunLabel 1 100, RunLabel 1 100, ActLabel 1 100 (DoSchedule None (Some 1) 2),
     ActLabel 1 100 (DoEnd False), RunLabel 1 100, RunLabel 1 100] @ replicate 5 (RunLabel 1 100)"

primrec disciplined_run :: "u32 \<Rightarrow> 'f label list \<Rightarrow> 'f system \<Rightarrow> bool" where
  "disciplined_run d [] sy \<longleftrightarrow> True"
| "disciplined_run d (l # ls) sy \<longleftrightarrow> disciplined l sy \<and>
    (case sys_step d l sy of Inr sy' \<Rightarrow> disciplined_run d ls sy' | Inl _ \<Rightarrow> False)"

lemma reachable_run:
  "sched_reachable d sy \<Longrightarrow> disciplined_run d ls sy \<Longrightarrow> sys_run d ls sy = Inr sy' \<Longrightarrow> sched_reachable d sy'"
proof (induction ls arbitrary: sy)
  case (Cons l ls)
  then obtain sy1 where "sys_step d l sy = Inr sy1" "disciplined_run d ls sy1" "sys_run d ls sy1 = Inr sy'"
    by (auto split: sum.splits)
  with Cons.prems Cons.IH [of sy1] show ?case by (auto intro: reach_step)
qed simp

definition hung_system :: "nat system" where
  "hung_system = \<lparr>sy_sched = demo_sched\<lparr>sc_autoStop := True, sc_stopping := True,
       sc_fibers := [\<lparr>tk_fiber = None, tk_func = Some 1, tk_thread = 2\<rparr>]\<rparr>,
     sy_world = \<lparr>fw_fibers = [
         1 \<mapsto> \<lparr>fb_id = 0, fb_state = EXEC, fb_stack = None, fb_cb = None, fb_entry = NoEntry\<rparr>,
         2 \<mapsto> \<lparr>fb_id = 1, fb_state = HOLD, fb_stack = Some 4096, fb_cb = Some 0, fb_entry = MainFunc\<rparr>,
         3 \<mapsto> \<lparr>fb_id = 0, fb_state = EXEC, fb_stack = None, fb_cb = None, fb_entry = NoEntry\<rparr>,
         4 \<mapsto> \<lparr>fb_id = 2, fb_state = TERM', fb_stack = Some 4096, fb_cb = None, fb_entry = MainFunc\<rparr>,
         10 \<mapsto> \<lparr>fb_id = 3, fb_state = TERM', fb_stack = Some 4096, fb_cb = None, fb_entry = MainFunc\<rparr>],
       fw_fiber_id = 3, fw_fiber_count = 5\<rparr>,
     sy_workers = [
       1 \<mapsto> \<lparr>wk_ctx = \<lparr>t_fiber = Some 1, t_threadFiber = Some 1, t_scheduler_fiber = Some 1, t_running = Some 1\<rparr>,
            wk_pc = Pick, wk_idle = 2, wk_cb = None\<rparr>,
       2 \<mapsto> \<lparr>wk_ctx = \<lparr>t_fiber = Some 3, t_threadFiber = Some 3, t_scheduler_fiber = Some 3, t_running = Some 3\<rparr>,
            wk_pc = Exited, wk_idle = 4, wk_cb = None\<rparr>]\<rparr>"

lemmas sys_eval = demo_system_def demo_sched_def sys_step_def on_worker_def run_step_def
      step_pick_def step_picked_def step_task_end_def step_cb_end_def step_idle_def step_idle_end_def enter_fiber_def
      act_step_def executing_def leave_active_def schedule_def scheduleNoLock_def swapIn_def swapOut_def
      swapcontext_def SetThis_def YieldToReady_def YieldToHold_def main_func_end_def Fiber_GetThis_def fiber_at_def
      state_of_def set_state_def run_start_def new_main_fiber_def new_fiber_def put_fiber_def new_thread_ctx_def
      new_fiber_world_def Let_def sched_stop_def stopping_def

lemma stop_race_run: "sys_run 4096 stop_race_labels demo_system = Inr hung_system"
  by (simp add: sys_eval stop_race_labels_def eval_nat_numeral fun_upd_twist)
    (simp add: hung_system_def demo_sched_def fun_eq_iff eval_nat_numeral)

lemma pending_ran: "pending sy f \<longleftrightarrow> f \<in> set (queued (sc_fibers (sy_sched sy))) \<or>
    (\<exists>wk \<in> ran (sy_workers sy). picked_fiber wk = Some f)"
  by (auto simp: pending_def ran_def)

lemma stop_race_disciplined: "disciplined_run 4096 stop_race_labels demo_system"
  by (simp add: sys_eval stop_race_labels_def eval_nat_numeral disciplined_def fresh_def pending_ran
      running_fiber_def picked_fiber_def)

text \<open>Thread 1 looks for a task, finds none for itself, and idles, with the task of thread 2 in the queue.\<close>

definition going_round :: "nat system \<Rightarrow> bool" where
  "going_round sy \<longleftrightarrow> sc_fibers (sy_sched sy) = [\<lparr>tk_fiber = None, tk_func = Some 1, tk_thread = 2\<rparr>] \<and>
    (\<exists>b. sy_workers sy 2 = Some b \<and> wk_pc b = Exited) \<and> (\<forall>t. t \<notin> {1, 2} \<longrightarrow> sy_workers sy t = None) \<and>
    (\<exists>a m x. sy_workers sy 1 = Some a \<and> t_scheduler_fiber (wk_ctx a) = Some m \<and>
       fw_fibers (sy_world sy) (wk_idle a) = Some x \<and>
       ((wk_pc a = Pick \<or> wk_pc a = Picked None) \<and> fb_state x = HOLD \<or>
        wk_pc a = IdleIn \<and> fb_state x = EXEC \<and> t_fiber (wk_ctx a) = Some (wk_idle a) \<or>
        (wk_pc a = IdleOut \<or> wk_pc a = IdleEnd) \<and> fb_state x = EXEC))"

lemma going_round_step:
  assumes "going_round sy"
  shows "\<exists>sy'. sys_step d (RunLabel t p) sy = Inr sy' \<and> going_round sy'"
proof (cases "t = 1")
  case True
  from assms obtain a m x where a: "sy_workers sy 1 = Some a" "t_scheduler_fiber (wk_ctx a) = Some m"
    "fw_fibers (sy_world sy) (wk_idle a) = Some x" and q: "sc_fibers (sy_sched sy) = [\<lparr>tk_fiber = None, tk_func = Some 1, tk_thread = 2\<rparr>]"
    and pc: "(wk_pc a = Pick \<or> wk_pc a = Picked None) \<and> fb_state x = HOLD \<or>
        wk_pc a = IdleIn \<and> fb_state x = EXEC \<and> t_fiber (wk_ctx a) = Some (wk_idle a) \<or>
        (wk_pc a = IdleOut \<or> wk_pc a = IdleEnd) \<and> fb_state x = EXEC" unfolding going_round_def by blast
  have o: "(\<exists>b. sy_workers sy 2 = Some b \<and> wk_pc b = Exited)" "(\<forall>t. t \<notin> {1, 2} \<longrightarrow> sy_workers sy t = None)"
    using assms unfolding going_round_def by blast+
  from pc show ?thesis
    by (elim disjE conjE) (simp_all add: True sys_eval a q o going_round_def)
next
  case False
  with assms have "sys_step d (RunLabel t p) sy = Inr sy"
    by (cases "t = 2") (auto simp: going_round_def sys_step_def on_worker_def run_step_def fun_upd_idem)
  with assms show ?thesis by blast
qed

lemma going_round_run:
  "going_round sy \<Longrightarrow> \<exists>sy'. sys_run d (map (\<lambda>t. RunLabel t p) ts) sy = Inr sy' \<and> going_round sy'"
proof (induction ts arbitrary: sy)
  case (Cons t ts)
  from going_round_step [OF Cons.prems, of d t p] obtain sy1 where
    "sys_step d (RunLabel t p) sy = Inr sy1" "going_round sy1" by blast
  with Cons.IH [of sy1] show ?case by simp
qed simp

lemma hung_going_round: "going_round hung_system"
  by (simp add: going_round_def hung_system_def)

text \<open>
  C14: A race in \<open>stop\<close> that hangs it. \<open>run\<close> counts a fiber that yielded to ready as done before it
  puts it back into the queue. In the run \<open>stop_race_labels\<close>, which keeps the discipline, the other
  thread finds \<open>stopping\<close> true in between and leaves \<open>run\<close>; the fiber then schedules a function for
  that thread. From there on, whatever the two threads do next and however often, the function stays
  in the queue and the first thread is still in its loop, so \<open>stop\<close> never joins it.
\<close>

theorem stop_race_hangs:
  "sched_reachable 4096 demo_system \<and> disciplined_run 4096 stop_race_labels demo_system \<and>
   (\<exists>hung. sys_run 4096 stop_race_labels demo_system = Inr hung \<and>
      (\<forall>ts. \<exists>sy a. sys_run 4096 (map (\<lambda>t. RunLabel t 100) ts) hung = Inr sy \<and>
         sc_fibers (sy_sched sy) = [\<lparr>tk_fiber = None, tk_func = Some 1, tk_thread = 2\<rparr>] \<and>
         sy_workers sy 1 = Some a \<and> wk_pc a \<noteq> Exited))"
proof -
  have "\<exists>sy a. sys_run 4096 (map (\<lambda>t. RunLabel t 100) ts) hung_system = Inr sy \<and>
      sc_fibers (sy_sched sy) = [\<lparr>tk_fiber = None, tk_func = Some 1, tk_thread = 2\<rparr>] \<and>
      sy_workers sy 1 = Some a \<and> wk_pc a \<noteq> Exited" for ts
  proof -
    from going_round_run [OF hung_going_round, of 4096 100 ts] obtain sy where
      r: "sys_run 4096 (map (\<lambda>t. RunLabel t 100) ts) hung_system = Inr sy" "going_round sy" by blast
    then obtain a where "sy_workers sy 1 = Some a" "wk_pc a \<noteq> Exited" unfolding going_round_def by auto
    with r show ?thesis by (auto simp: going_round_def)
  qed
  then show ?thesis using demo_reachable stop_race_disciplined stop_race_run by blast
qed

text \<open>
  A worker takes the first task in the queue that is meant for its thread or for any and
  whose fiber is not executing, and leaves all others in their order; it finds none only
  if there is none.
\<close>

lemma pick_task_first:
  assumes "list_all (\<lambda>t. tk_fiber t \<noteq> None \<or> tk_func t \<noteq> None) q"
  shows "\<exists>ft rest tickle. pick_task st tid q tk = Inr (ft, rest, tickle) \<and>
    ft = find (eligible st tid) q \<and>
    (case ft of None \<Rightarrow> rest = q
     | Some t \<Rightarrow> \<exists>xs ys. q = xs @ t # ys \<and> rest = xs @ ys \<and> (\<forall>x \<in> set xs. \<not> eligible st tid x))"
proof (rule pick_task_spec [OF assms, of st tid tk])
  fix tk'
  assume "pick_task st tid q tk = Inr (None, q, tk')" "\<forall>t \<in> set q. \<not> eligible st tid t"
  then show ?thesis by (simp add: find_None_iff2)
next
  fix tk' xs t ys
  assume a: "pick_task st tid q tk = Inr (Some t, xs @ ys, tk')" "q = xs @ t # ys" "eligible st tid t"
    "\<forall>x \<in> set xs. \<not> eligible st tid x"
  have "find (eligible st tid) (xs @ t # ys) = Some t" using a(3,4) by (induction xs) auto
  with a show ?thesis by auto
qed

text \<open>
  Without the discipline the scheduler is not safe: when a fiber is scheduled while it
  executes and then calls \<open>YieldToReady\<close>, a second thread may resume it before the first has
  looked at its state, the first then marks the running fiber \<open>HOLD\<close>, and the next
  \<open>schedule\<close> makes two threads execute one fiber at the same time.
\<close>

lemma yield_to_ready_race:
  "\<exists>sy a b. sys_run 4096 (demo_labels @
      [ExtSchedule (Some 10) None (- 1), ActLabel 1 100 DoYieldToReady,
       RunLabel 2 100, RunLabel 2 100, RunLabel 1 100, RunLabel 1 100,
       ExtSchedule (Some 10) None (- 1), RunLabel 1 100, RunLabel 1 100]) demo_system = Inr sy \<and>
    sy_workers sy 1 = Some a \<and> sy_workers sy 2 = Some b \<and>
    t_running (wk_ctx a) = Some 10 \<and> t_running (wk_ctx b) = Some 10"
  by (simp add: demo_labels_def demo_system_def demo_sched_def sys_step_def on_worker_def run_step_def
      step_pick_def step_picked_def step_task_end_def enter_fiber_def act_step_def executing_def
      leave_active_def schedule_def scheduleNoLock_def swapIn_def swapOut_def swapcontext_def SetThis_def
      YieldToReady_def Fiber_GetThis_def fiber_at_def state_of_def set_state_def run_start_def
      new_main_fiber_def new_fiber_def put_fiber_def new_thread_ctx_def new_fiber_world_def Let_def)

end
