(* ===== verification/Timer_Manager.thy ===== *)
theory Timer_Manager
  imports Ordered_Set
begin

text \<open>
  The timers of \<open>inc/timer.h\<close> and \<open>src/timer.cpp\<close>. A \<open>Timer::ptr\<close> is the address of a
  timer in the store \<open>mg_heap\<close>, \<open>m_timers\<close> is an ordered container of addresses under
  \<open>Timer::Comparator\<close>, which reads the store. Milliseconds are 64-bit and wrap.
  \<open>GetCurrentMS()\<close> is the argument \<open>now\<close>, the address \<open>new\<close> returns the argument \<open>p\<close>.
  An operation that may call the virtual \<open>onTimerInsertedAtFront\<close> returns whether it
  did. Each operation runs under the manager's lock, so it is one step.
\<close>

subsection \<open>State\<close>

type_synonym addr = nat

text \<open>A callback is a plain one or one bound by \<open>OnTimer\<close> to a weak pointer.\<close>

datatype 'c callback = Plain 'c | OnTimer nat 'c

record 'c timer =
  tm_recurring :: bool
  tm_ms :: u64
  tm_next :: u64
  tm_cb :: "'c callback option"

record 'c timer_manager =
  mg_heap :: "addr \<Rightarrow> 'c timer option"
  mg_timers :: "addr list"
  mg_tickled :: bool
  mg_previousTime :: u64

datatype timer_error = DanglingTimer | EraseEnd

definition timer_at :: "(addr \<Rightarrow> 'c timer option) \<Rightarrow> addr \<Rightarrow> 'c timer" where
  "timer_at h p = (case h p of Some t \<Rightarrow> t | None \<Rightarrow> \<lparr>tm_recurring = False, tm_ms = 0, tm_next = 0, tm_cb = None\<rparr>)"

text \<open>\<open>Timer::Comparator\<close> on pointers, of which either may be null.\<close>

definition comparator :: "(addr \<Rightarrow> 'c timer option) \<Rightarrow> addr option \<Rightarrow> addr option \<Rightarrow> bool" where
  "comparator h lhs rhs =
    (case (lhs, rhs) of
       (None, None) \<Rightarrow> False
     | (None, Some _) \<Rightarrow> True
     | (Some _, None) \<Rightarrow> False
     | (Some l, Some r) \<Rightarrow>
         if tm_next (timer_at h l) < tm_next (timer_at h r) then True
         else if tm_next (timer_at h r) < tm_next (timer_at h l) then False
         else l < r)"

abbreviation timer_less :: "(addr \<Rightarrow> 'c timer option) \<Rightarrow> addr \<Rightarrow> addr \<Rightarrow> bool" where
  "timer_less h p q \<equiv> comparator h (Some p) (Some q)"

lemma timer_less_iff:
  "timer_less h p q \<longleftrightarrow> tm_next (timer_at h p) < tm_next (timer_at h q) \<or>
    tm_next (timer_at h p) = tm_next (timer_at h q) \<and> p < q"
  by (auto simp: comparator_def)

interpretation timer_set: strict_order "timer_less h" for h :: "addr \<Rightarrow> 'c timer option"
  by unfold_locales (auto simp: timer_less_iff)

subsection \<open>Operations\<close>

definition new_timer :: "u64 \<Rightarrow> u64 \<Rightarrow> 'c callback option \<Rightarrow> bool \<Rightarrow> 'c timer" where
  "new_timer now ms cb recurring =
    \<lparr>tm_recurring = recurring, tm_ms = ms, tm_next = now + ms, tm_cb = cb\<rparr>"

definition new_timer_manager :: "u64 \<Rightarrow> 'c timer_manager" where
  "new_timer_manager now =
    \<lparr>mg_heap = Map.empty, mg_timers = [], mg_tickled = False, mg_previousTime = now\<rparr>"

text \<open>The protected \<open>addTimer\<close>: insert, and tell whether the timer is the new first one.\<close>

definition addTimer_ptr :: "'c timer_manager \<Rightarrow> addr \<Rightarrow> 'c timer_manager \<times> bool" where
  "addTimer_ptr mg val =
    (let timers = oset_insert (timer_less (mg_heap mg)) val (mg_timers mg);
         at_front = (timers \<noteq> [] \<and> hd timers = val \<and> \<not> mg_tickled mg)
     in (mg\<lparr>mg_timers := timers, mg_tickled := mg_tickled mg \<or> at_front\<rparr>, at_front))"

definition addTimer ::
    "u64 \<Rightarrow> addr \<Rightarrow> 'c timer_manager \<Rightarrow> u64 \<Rightarrow> 'c callback option \<Rightarrow> bool \<Rightarrow>
      addr \<times> 'c timer_manager \<times> bool" where
  "addTimer now p mg ms cb recurring =
    (p, addTimer_ptr (mg\<lparr>mg_heap := (mg_heap mg)(p \<mapsto> new_timer now ms cb recurring)\<rparr>) p)"

text \<open>\<open>OnTimer\<close>: what running a callback calls, given which weak pointers still lock.\<close>

definition run_callback :: "(nat \<Rightarrow> bool) \<Rightarrow> 'c callback \<Rightarrow> 'c list" where
  "run_callback alive cb =
    (case cb of Plain c \<Rightarrow> [c] | OnTimer weak_cond c \<Rightarrow> if alive weak_cond then [c] else [])"

definition addConditionTimer ::
    "u64 \<Rightarrow> addr \<Rightarrow> 'c timer_manager \<Rightarrow> u64 \<Rightarrow> 'c \<Rightarrow> nat \<Rightarrow> bool \<Rightarrow>
      addr \<times> 'c timer_manager \<times> bool" where
  "addConditionTimer now p mg ms cb weak_cond recurring =
    addTimer now p mg ms (Some (OnTimer weak_cond cb)) recurring"

text \<open>\<open>erase\<close> of the end iterator is undefined in C++: the error \<open>EraseEnd\<close>.\<close>

definition cancel :: "'c timer_manager \<Rightarrow> addr \<Rightarrow> timer_error + (bool \<times> 'c timer_manager)" where
  "cancel mg p =
    (case mg_heap mg p of
       None \<Rightarrow> Inl DanglingTimer
     | Some t \<Rightarrow>
         if tm_cb t \<noteq> None then
           let mg = mg\<lparr>mg_heap := (mg_heap mg)(p \<mapsto> t\<lparr>tm_cb := None\<rparr>)\<rparr>
           in case oset_find (timer_less (mg_heap mg)) p (mg_timers mg) of
                None \<Rightarrow> Inl EraseEnd
              | Some _ \<Rightarrow>
                  Inr (True, mg\<lparr>mg_timers := oset_remove (timer_less (mg_heap mg)) p (mg_timers mg)\<rparr>)
         else Inr (False, mg))"

definition refresh :: "u64 \<Rightarrow> 'c timer_manager \<Rightarrow> addr \<Rightarrow> timer_error + (bool \<times> 'c timer_manager)" where
  "refresh now mg p =
    (case mg_heap mg p of
       None \<Rightarrow> Inl DanglingTimer
     | Some t \<Rightarrow>
         if tm_cb t = None then Inr (False, mg)
         else if oset_find (timer_less (mg_heap mg)) p (mg_timers mg) = None then Inr (False, mg)
         else
           let timers = oset_remove (timer_less (mg_heap mg)) p (mg_timers mg);
               heap = (mg_heap mg)(p \<mapsto> t\<lparr>tm_next := now + tm_ms t\<rparr>)
           in Inr (True, mg\<lparr>mg_heap := heap, mg_timers := oset_insert (timer_less heap) p timers\<rparr>))"

definition reset ::
    "u64 \<Rightarrow> 'c timer_manager \<Rightarrow> addr \<Rightarrow> u64 \<Rightarrow> bool \<Rightarrow>
      timer_error + (bool \<times> 'c timer_manager \<times> bool)" where
  "reset now mg p ms from_now =
    (case mg_heap mg p of
       None \<Rightarrow> Inl DanglingTimer
     | Some t \<Rightarrow>
         if ms = tm_ms t \<and> \<not> from_now then Inr (True, mg, False)
         else if tm_cb t = None then Inr (False, mg, False)
         else if oset_find (timer_less (mg_heap mg)) p (mg_timers mg) = None then Inr (False, mg, False)
         else
           let timers = oset_remove (timer_less (mg_heap mg)) p (mg_timers mg);
               start = (if from_now then now else tm_next t - tm_ms t);
               t = t\<lparr>tm_ms := ms, tm_next := start + ms\<rparr>
           in Inr (True, addTimer_ptr
                (mg\<lparr>mg_heap := (mg_heap mg)(p \<mapsto> t), mg_timers := timers\<rparr>) p))"

definition getNextTimer :: "u64 \<Rightarrow> 'c timer_manager \<Rightarrow> u64 \<times> 'c timer_manager" where
  "getNextTimer now mg =
    (let mg = mg\<lparr>mg_tickled := False\<rparr>
     in case mg_timers mg of
          [] \<Rightarrow> (- 1, mg)
        | p # _ \<Rightarrow>
            let next = tm_next (timer_at (mg_heap mg) p)
            in if now \<ge> next then (0, mg) else (next - now, mg))"

definition hasTimer :: "'c timer_manager \<Rightarrow> bool" where
  "hasTimer mg \<longleftrightarrow> mg_timers mg \<noteq> []"

definition detectClockRollover :: "u64 \<Rightarrow> 'c timer_manager \<Rightarrow> bool \<times> 'c timer_manager" where
  "detectClockRollover now mg =
    (now < mg_previousTime mg \<and> now < mg_previousTime mg - 60 * 60 * 1000,
     mg\<lparr>mg_previousTime := now\<rparr>)"

text \<open>The loop over \<open>expired\<close>: collect the callback, put a recurring timer back, disarm another.\<close>

primrec rearm ::
    "u64 \<Rightarrow> addr list \<Rightarrow> 'c timer_manager \<Rightarrow> 'c callback option list \<times> 'c timer_manager" where
  "rearm now [] mg = ([], mg)"
| "rearm now (p # ps) mg =
    (let t = timer_at (mg_heap mg) p;
         mg' = (if tm_recurring t then
                  let heap = (mg_heap mg)(p \<mapsto> t\<lparr>tm_next := now + tm_ms t\<rparr>)
                  in mg\<lparr>mg_heap := heap, mg_timers := oset_insert (timer_less heap) p (mg_timers mg)\<rparr>
                else mg\<lparr>mg_heap := (mg_heap mg)(p \<mapsto> t\<lparr>tm_cb := None\<rparr>)\<rparr>);
         (cbs, mg'') = rearm now ps mg'
     in (tm_cb t # cbs, mg''))"

text \<open>
  \<open>lower_bound(now_timer)\<close> and the loop after it: \<open>now_timer\<close> is at \<open>q\<close>, an address no
  timer has, and its time is \<open>now\<close>.
\<close>

definition listExpiredCb ::
    "u64 \<Rightarrow> addr \<Rightarrow> 'c timer_manager \<Rightarrow> 'c callback option list \<times> 'c timer_manager" where
  "listExpiredCb now q mg =
    (if mg_timers mg = [] then ([], mg)
     else
       let (rollover, mg) = detectClockRollover now mg;
           next = (\<lambda>p. tm_next (timer_at (mg_heap mg) p))
       in if \<not> rollover \<and> next (hd (mg_timers mg)) > now then ([], mg)
          else
            let heap = (mg_heap mg)(q \<mapsto> \<lparr>tm_recurring = False, tm_ms = 0, tm_next = now, tm_cb = None\<rparr>);
                rest = (if rollover then []
                        else dropWhile (\<lambda>p. next p = now) (oset_lower_bound (timer_less heap) q (mg_timers mg)));
                expired = take (length (mg_timers mg) - length rest) (mg_timers mg)
            in rearm now expired (mg\<lparr>mg_timers := rest\<rparr>))"

subsection \<open>Invariant\<close>

text \<open>
  \<open>m_timers\<close> is in order without duplicates, holds live timers only, and every timer
  that still has a callback is in it.
\<close>

definition timers_ordered :: "'c timer_manager \<Rightarrow> bool" where
  "timers_ordered mg \<longleftrightarrow> sorted_wrt (timer_less (mg_heap mg)) (mg_timers mg) \<and>
    set (mg_timers mg) \<subseteq> dom (mg_heap mg)"

definition armed :: "'c timer_manager \<Rightarrow> addr \<Rightarrow> bool" where
  "armed mg p \<longleftrightarrow> (\<exists>t. mg_heap mg p = Some t \<and> tm_cb t \<noteq> None)"

definition timers_ok :: "'c timer_manager \<Rightarrow> bool" where
  "timers_ok mg \<longleftrightarrow> timers_ordered mg \<and> (\<forall>p. armed mg p \<longrightarrow> p \<in> set (mg_timers mg))"

lemma timer_at_simps [simp]:
  "timer_at (h(p \<mapsto> t)) p = t" "q \<noteq> p \<Longrightarrow> timer_at (h(p \<mapsto> t)) q = timer_at h q"
  by (simp_all add: timer_at_def)

lemma timer_at_eq: "h p = Some t \<Longrightarrow> timer_at h p = t"
  by (simp add: timer_at_def)

lemma timer_less_cong:
  "tm_next (timer_at h p) = tm_next (timer_at h' p) \<Longrightarrow>
    tm_next (timer_at h q) = tm_next (timer_at h' q) \<Longrightarrow> timer_less h p q = timer_less h' p q"
  by (simp add: timer_less_iff)

lemma sorted_timers_cong:
  assumes "\<And>p. p \<in> set ps \<Longrightarrow> tm_next (timer_at h p) = tm_next (timer_at h' p)"
    "sorted_wrt (timer_less h) ps"
  shows "sorted_wrt (timer_less h') ps"
  using assms by (induction ps) (auto simp: timer_less_iff)

text \<open>What changes of the store keep the order: of a timer outside, or of its other fields.\<close>

lemma sorted_timers_upd:
  assumes "sorted_wrt (timer_less h) ps" "p \<notin> set ps \<or> tm_next t = tm_next (timer_at h p)"
  shows "sorted_wrt (timer_less (h(p \<mapsto> t))) ps"
proof (rule sorted_timers_cong [OF _ assms(1)])
  fix q
  assume "q \<in> set ps"
  with assms(2) show "tm_next (timer_at h q) = tm_next (timer_at (h(p \<mapsto> t)) q)"
    by (cases "q = p") auto
qed

lemma timers_okD:
  assumes "timers_ok mg"
  shows "sorted_wrt (timer_less (mg_heap mg)) (mg_timers mg)"
    "p \<in> set (mg_timers mg) \<Longrightarrow> \<exists>t. mg_heap mg p = Some t"
    "mg_heap mg p = Some t \<Longrightarrow> tm_cb t \<noteq> None \<Longrightarrow> p \<in> set (mg_timers mg)"
  using assms by (auto simp: timers_ok_def timers_ordered_def armed_def)

lemma timers_okI:
  assumes "sorted_wrt (timer_less (mg_heap mg)) (mg_timers mg)"
    "\<And>p. p \<in> set (mg_timers mg) \<Longrightarrow> \<exists>t. mg_heap mg p = Some t"
    "\<And>p t. mg_heap mg p = Some t \<Longrightarrow> tm_cb t \<noteq> None \<Longrightarrow> p \<in> set (mg_timers mg)"
  shows "timers_ok mg"
  using assms by (auto simp: timers_ok_def timers_ordered_def armed_def)

lemma new_timer_manager_ok: "timers_ok (new_timer_manager now)"
  by (rule timers_okI) (simp_all add: new_timer_manager_def)

text \<open>Taking a timer out, changing it and putting it back, the core of three operations.\<close>

lemma insert_timer_ok:
  assumes "sorted_wrt (timer_less heap) ps" "p \<in> dom heap" "set ps \<subseteq> dom heap"
    "\<And>q t. heap q = Some t \<Longrightarrow> tm_cb t \<noteq> None \<Longrightarrow> q = p \<or> q \<in> set ps"
  shows "timers_ok (mg\<lparr>mg_heap := heap, mg_timers := oset_insert (timer_less heap) p ps\<rparr>)"
  using assms
  by (intro timers_okI)
    (auto simp: timer_set.set_insert_eq intro: timer_set.ordered_insert)

lemma addTimer_ptr_timers [simp]:
  "mg_timers (fst (addTimer_ptr mg p)) = oset_insert (timer_less (mg_heap mg)) p (mg_timers mg)"
  "mg_heap (fst (addTimer_ptr mg p)) = mg_heap mg"
  "mg_previousTime (fst (addTimer_ptr mg p)) = mg_previousTime mg"
  by (simp_all add: addTimer_ptr_def Let_def)

lemma timers_ok_cong:
  "mg_heap mg = mg_heap mg' \<Longrightarrow> mg_timers mg = mg_timers mg' \<Longrightarrow> timers_ok mg = timers_ok mg'"
  by (simp add: timers_ok_def timers_ordered_def armed_def)

lemma addTimer_ptr_ok:
  assumes "sorted_wrt (timer_less (mg_heap mg)) (mg_timers mg)" "p \<in> dom (mg_heap mg)"
    "set (mg_timers mg) \<subseteq> dom (mg_heap mg)"
    "\<And>q t. mg_heap mg q = Some t \<Longrightarrow> tm_cb t \<noteq> None \<Longrightarrow> q = p \<or> q \<in> set (mg_timers mg)"
  shows "timers_ok (fst (addTimer_ptr mg p))"
  using insert_timer_ok [OF assms, where mg = mg] by (rule timers_ok_cong [THEN iffD1, rotated 2]) simp_all

lemma addTimer_ok:
  assumes ok: "timers_ok mg" and p: "p \<notin> dom (mg_heap mg)"
    and r: "addTimer now p mg ms cb recurring = (q, mg', front)"
  shows "timers_ok mg'" "q = p" "set (mg_timers mg') = insert p (set (mg_timers mg))"
    "mg_heap mg' = (mg_heap mg)(p \<mapsto> new_timer now ms cb recurring)"
proof -
  let ?mg = "mg\<lparr>mg_heap := (mg_heap mg)(p \<mapsto> new_timer now ms cb recurring)\<rparr>"
  have mg': "mg' = fst (addTimer_ptr ?mg p)" and "q = p"
    using r unfolding addTimer_def by (metis fst_conv prod.inject)+
  then show "q = p" by simp
  have out: "p \<notin> set (mg_timers mg)" using timers_okD(2) [OF ok] p by auto
  have sorted: "sorted_wrt (timer_less (mg_heap ?mg)) (mg_timers ?mg)"
    using sorted_timers_upd [OF timers_okD(1) [OF ok]] out by simp
  then show "timers_ok mg'" unfolding mg'
    using timers_okD(2,3) [OF ok] by (intro addTimer_ptr_ok) (auto split: if_splits)
  show "set (mg_timers mg') = insert p (set (mg_timers mg))" unfolding mg' using timer_set.set_insert_eq [OF sorted] by simp
  show "mg_heap mg' = (mg_heap mg)(p \<mapsto> new_timer now ms cb recurring)" by (simp add: mg')
qed

lemma cancel_ok:
  assumes ok: "timers_ok mg" and t: "mg_heap mg p = Some t"
  obtains mg' where "cancel mg p = Inr (tm_cb t \<noteq> None, mg')" "timers_ok mg'"
    "mg_heap mg' = (mg_heap mg)(p \<mapsto> t\<lparr>tm_cb := None\<rparr>)"
    "set (mg_timers mg') = (if tm_cb t \<noteq> None then set (mg_timers mg) - {p} else set (mg_timers mg))"
proof (cases "tm_cb t = None")
  case True
  then have "(mg_heap mg)(p \<mapsto> t\<lparr>tm_cb := None\<rparr>) = mg_heap mg" using t by auto
  with True t ok that show ?thesis by (simp add: cancel_def)
next
  case False
  let ?h = "(mg_heap mg)(p \<mapsto> t\<lparr>tm_cb := None\<rparr>)"
  have sorted: "sorted_wrt (timer_less ?h) (mg_timers mg)"
    by (rule sorted_timers_upd [OF timers_okD(1) [OF ok]]) (simp add: timer_at_eq [of "mg_heap mg", OF t])
  have "p \<in> set (mg_timers mg)" using timers_okD(3) [OF ok t] False by blast
  then have f: "oset_find (timer_less ?h) p (mg_timers mg) = Some p"
    by (simp add: timer_set.find_eq [OF sorted])
  note rs = timer_set.set_remove_eq [OF sorted, of p] and ro = timer_set.ordered_remove [OF sorted, of p]
  let ?mg = "mg\<lparr>mg_heap := ?h, mg_timers := oset_remove (timer_less ?h) p (mg_timers mg)\<rparr>"
  have "timers_ok ?mg"
    using ro timers_okD(2,3) [OF ok] by (intro timers_okI) (auto simp: rs split: if_splits)
  with f False t rs show ?thesis by (intro that [of ?mg]) (simp_all add: cancel_def Let_def)
qed

lemma refresh_ok:
  assumes ok: "timers_ok mg" and t: "mg_heap mg p = Some t"
  obtains mg' where "refresh now mg p = Inr (tm_cb t \<noteq> None, mg')" "timers_ok mg'"
    "set (mg_timers mg') = set (mg_timers mg)"
    "tm_cb t = None \<Longrightarrow> mg' = mg"
    "tm_cb t \<noteq> None \<Longrightarrow> mg_heap mg' = (mg_heap mg)(p \<mapsto> t\<lparr>tm_next := now + tm_ms t\<rparr>)"
proof (cases "tm_cb t = None")
  case True
  with t ok that show ?thesis by (simp add: refresh_def)
next
  case False
  let ?ps = "oset_remove (timer_less (mg_heap mg)) p (mg_timers mg)"
  let ?h = "(mg_heap mg)(p \<mapsto> t\<lparr>tm_next := now + tm_ms t\<rparr>)"
  note sorted = timers_okD(1) [OF ok]
  have p: "p \<in> set (mg_timers mg)" using timers_okD(3) [OF ok t] False by blast
  note rs = timer_set.set_remove_eq [OF sorted, of p] and ro = timer_set.ordered_remove [OF sorted, of p]
  have s': "sorted_wrt (timer_less ?h) ?ps" by (rule sorted_timers_upd [OF ro]) (simp add: rs)
  then have "timers_ok (mg\<lparr>mg_heap := ?h, mg_timers := oset_insert (timer_less ?h) p ?ps\<rparr>)"
    using timers_okD(2,3) [OF ok] by (intro insert_timer_ok) (auto simp: rs split: if_splits)
  moreover have "set (oset_insert (timer_less ?h) p ?ps) = set (mg_timers mg)"
    using p by (auto simp: timer_set.set_insert_eq [OF s'] rs)
  ultimately show ?thesis using False t p
    by (intro that [of "mg\<lparr>mg_heap := ?h, mg_timers := oset_insert (timer_less ?h) p ?ps\<rparr>"])
      (simp_all add: refresh_def Let_def timer_set.find_eq [OF sorted])
qed

lemma reset_ok:
  assumes ok: "timers_ok mg" and t: "mg_heap mg p = Some t"
  obtains mg' front where
    "reset now mg p ms from_now = Inr (ms = tm_ms t \<and> \<not> from_now \<or> tm_cb t \<noteq> None, mg', front)"
    "timers_ok mg'" "set (mg_timers mg') = set (mg_timers mg)"
    "ms = tm_ms t \<and> \<not> from_now \<or> tm_cb t = None \<Longrightarrow> mg' = mg"
    "\<not> (ms = tm_ms t \<and> \<not> from_now) \<Longrightarrow> tm_cb t \<noteq> None \<Longrightarrow> mg_heap mg' = (mg_heap mg)(p \<mapsto> t\<lparr>tm_ms := ms,
       tm_next := (if from_now then now else tm_next t - tm_ms t) + ms\<rparr>)"
proof (cases "ms = tm_ms t \<and> \<not> from_now \<or> tm_cb t = None")
  case True
  with t ok show ?thesis by (intro that [of mg False]) (auto simp: reset_def)
next
  case False
  let ?t = "t\<lparr>tm_ms := ms, tm_next := (if from_now then now else tm_next t - tm_ms t) + ms\<rparr>"
  let ?ps = "oset_remove (timer_less (mg_heap mg)) p (mg_timers mg)"
  let ?h = "(mg_heap mg)(p \<mapsto> ?t)"
  let ?mg = "mg\<lparr>mg_heap := ?h, mg_timers := ?ps\<rparr>"
  note sorted = timers_okD(1) [OF ok]
  have p: "p \<in> set (mg_timers mg)" using timers_okD(3) [OF ok t] False by blast
  note rs = timer_set.set_remove_eq [OF sorted, of p] and ro = timer_set.ordered_remove [OF sorted, of p]
  have s': "sorted_wrt (timer_less ?h) ?ps" by (rule sorted_timers_upd [OF ro]) (simp add: rs)
  then have "timers_ok (fst (addTimer_ptr ?mg p))"
    using timers_okD(2,3) [OF ok] by (intro addTimer_ptr_ok) (auto simp: rs split: if_splits)
  moreover have "set (mg_timers (fst (addTimer_ptr ?mg p))) = set (mg_timers mg)"
    using p s' by (auto simp: timer_set.set_insert_eq rs)
  moreover have "reset now mg p ms from_now = Inr (True, addTimer_ptr ?mg p)"
    using False t p by (auto simp: reset_def Let_def timer_set.find_eq [OF sorted])
  ultimately show ?thesis using False
    by (intro that [of "fst (addTimer_ptr ?mg p)" "snd (addTimer_ptr ?mg p)"]) auto
qed

subsection \<open>Expiry\<close>

definition tm_due :: "u64 \<Rightarrow> 'c timer_manager \<Rightarrow> addr \<Rightarrow> bool" where
  "tm_due now mg p \<longleftrightarrow> tm_next (timer_at (mg_heap mg) p) \<le> now"

text \<open>A timer as \<open>listExpiredCb\<close> leaves it: a recurring one rearmed, another disarmed.\<close>

definition fired :: "u64 \<Rightarrow> 'c timer \<Rightarrow> 'c timer" where
  "fired now t = (if tm_recurring t then t\<lparr>tm_next := now + tm_ms t\<rparr> else t\<lparr>tm_cb := None\<rparr>)"

lemma rearm_step:
  assumes "sorted_wrt (timer_less (mg_heap mg)) (mg_timers mg)" "p \<notin> set (mg_timers mg)"
  defines "t \<equiv> timer_at (mg_heap mg) p"
  obtains mg' where
    "rearm now (p # ps) mg = (let (cbs, mg'') = rearm now ps mg' in (tm_cb t # cbs, mg''))"
    "mg_heap mg' = (mg_heap mg)(p \<mapsto> fired now t)"
    "sorted_wrt (timer_less (mg_heap mg')) (mg_timers mg')"
    "set (mg_timers mg') = (if tm_recurring t then insert p (set (mg_timers mg)) else set (mg_timers mg))"
proof -
  let ?h = "(mg_heap mg)(p \<mapsto> fired now t)"
  have s: "sorted_wrt (timer_less ?h) (mg_timers mg)"
    by (rule sorted_timers_upd [OF assms(1)]) (simp add: assms(2))
  show ?thesis
  proof (cases "tm_recurring t")
    case True
    then show ?thesis
      using timer_set.ordered_insert [OF s, of p] timer_set.set_insert_eq [OF s, of p]
      by (intro that [of "mg\<lparr>mg_heap := ?h, mg_timers := oset_insert (timer_less ?h) p (mg_timers mg)\<rparr>"])
        (simp_all add: t_def [symmetric] Let_def fired_def)
  next
    case False
    with s show ?thesis
      by (intro that [of "mg\<lparr>mg_heap := ?h\<rparr>"]) (simp_all add: t_def [symmetric] Let_def fired_def)
  qed
qed

lemma rearm_spec:
  assumes "sorted_wrt (timer_less (mg_heap mg)) (mg_timers mg)" "distinct ps"
    "set ps \<inter> set (mg_timers mg) = {}"
  obtains mg' where "rearm now ps mg = (map (\<lambda>p. tm_cb (timer_at (mg_heap mg) p)) ps, mg')"
    "sorted_wrt (timer_less (mg_heap mg')) (mg_timers mg')"
    "set (mg_timers mg') =
       set (mg_timers mg) \<union> {p \<in> set ps. tm_recurring (timer_at (mg_heap mg) p)}"
    "\<And>p. mg_heap mg' p =
       (if p \<in> set ps then Some (fired now (timer_at (mg_heap mg) p)) else mg_heap mg p)"
  using assms
proof (induction ps arbitrary: mg thesis)
  case Nil
  show ?case by (rule Nil.prems(1) [of mg]) (use Nil.prems(2) in simp_all)
next
  case (Cons p ps)
  let ?t = "timer_at (mg_heap mg) p"
  from Cons.prems(4) have "p \<notin> set (mg_timers mg)" by auto
  then obtain m where
    m: "rearm now (p # ps) mg = (let (cbs, mg'') = rearm now ps m in (tm_cb ?t # cbs, mg''))"
      "mg_heap m = (mg_heap mg)(p \<mapsto> fired now ?t)"
      "sorted_wrt (timer_less (mg_heap m)) (mg_timers m)"
      "set (mg_timers m) = (if tm_recurring ?t then insert p (set (mg_timers mg)) else set (mg_timers mg))"
    by (rule rearm_step [OF Cons.prems(2), where now = now and ps = ps])
  have at: "timer_at (mg_heap m) q = timer_at (mg_heap mg) q" if "q \<in> set ps" for q
    using that Cons.prems(3) unfolding m(2) by (cases "q = p") auto
  have d: "distinct ps" "set ps \<inter> set (mg_timers m) = {}"
    using Cons.prems(3,4) unfolding m(4) by (auto split: if_splits)
  obtain mg' where
    i: "rearm now ps m = (map (\<lambda>p. tm_cb (timer_at (mg_heap m) p)) ps, mg')"
      "sorted_wrt (timer_less (mg_heap mg')) (mg_timers mg')"
      "set (mg_timers mg') = set (mg_timers m) \<union> {p \<in> set ps. tm_recurring (timer_at (mg_heap m) p)}"
      "\<And>p. mg_heap mg' p = (if p \<in> set ps then Some (fired now (timer_at (mg_heap m) p)) else mg_heap m p)"
    by (rule Cons.IH [OF that m(3) d])
  show ?case
  proof (rule Cons.prems(1) [of mg'])
    show "rearm now (p # ps) mg = (map (\<lambda>p. tm_cb (timer_at (mg_heap mg) p)) (p # ps), mg')"
      using at by (simp only: m(1) i(1) Let_def prod.case list.map cong: map_cong)
    show "set (mg_timers mg') = set (mg_timers mg) \<union>
        {q \<in> set (p # ps). tm_recurring (timer_at (mg_heap mg) q)}"
      unfolding i(3) m(4) using at by auto
    show "mg_heap mg' q = (if q \<in> set (p # ps) then Some (fired now (timer_at (mg_heap mg) q))
        else mg_heap mg q)" for q
      unfolding i(4) m(2) using Cons.prems(3) by (cases "q = p") auto
  qed (rule i(2))
qed

text \<open>Skipping to \<open>now_timer\<close> and over the timers due now leaves those due later.\<close>

lemma sorted_timers_ascending:
  "sorted_wrt (timer_less h) ps \<Longrightarrow>
    sorted_wrt (\<lambda>p q. tm_next (timer_at h p) \<le> tm_next (timer_at h q)) ps"
  by (erule sorted_wrt_mono_rel [rotated]) (auto simp: timer_less_iff)

lemma lower_bound_due:
  assumes "sorted_wrt (timer_less h) ps" "q \<notin> set ps" "tm_next t = now"
  shows "dropWhile (\<lambda>p. tm_next (timer_at h p) = now) (oset_lower_bound (timer_less (h(q \<mapsto> t))) q ps) =
    dropWhile (\<lambda>p. tm_next (timer_at h p) \<le> now) ps"
proof -
  have "oset_lower_bound (timer_less (h(q \<mapsto> t))) q ps = dropWhile (\<lambda>p. tm_next (timer_at h p) < now \<or>
      tm_next (timer_at h p) = now \<and> p < q) ps"
    unfolding oset_lower_bound_def
  proof (rule dropWhile_cong [OF refl])
    fix p
    assume "p \<in> set ps"
    with assms(2) have "p \<noteq> q" by blast
    with assms(3) show "timer_less (h(q \<mapsto> t)) p q \<longleftrightarrow>
      tm_next (timer_at h p) < now \<or> tm_next (timer_at h p) = now \<and> p < q"
      by (simp add: timer_less_iff)
  qed
  with ascending_bounds [OF sorted_timers_ascending [OF assms(1)]] show ?thesis by simp
qed

text \<open>Which timers expire: those due, and all of them after a rollover of the clock.\<close>

definition expires :: "u64 \<Rightarrow> 'c timer_manager \<Rightarrow> addr \<Rightarrow> bool" where
  "expires now mg p \<longleftrightarrow> fst (detectClockRollover now mg) \<or> tm_due now mg p"

lemma listExpiredCb_rearm:
  fixes now :: u64
  assumes ok: "timers_ok mg" and q: "q \<notin> dom (mg_heap mg)" and ne: "mg_timers mg \<noteq> []"
  defines "E \<equiv> filter (expires now mg) (mg_timers mg)"
    and "R \<equiv> filter (\<lambda>p. \<not> expires now mg p) (mg_timers mg)"
  shows "listExpiredCb now q mg = rearm now E (mg\<lparr>mg_previousTime := now, mg_timers := R\<rparr>)"
    "mg_timers mg = E @ R"
proof -
  let ?n = "\<lambda>p. tm_next (timer_at (mg_heap mg) p)"
  obtain r where r: "detectClockRollover now mg = (r, mg\<lparr>mg_previousTime := now\<rparr>)"
    by (simp add: detectClockRollover_def)
  note sorted = timers_okD(1) [OF ok]
  have out: "q \<notin> set (mg_timers mg)" using timers_okD(2) [OF ok] q by blast
  have "(mg_timers mg = E @ R) \<and>
    listExpiredCb now q mg = rearm now E (mg\<lparr>mg_previousTime := now, mg_timers := R\<rparr>)"
  proof (cases r)
    case True
    then have "E = mg_timers mg" "R = []" by (simp_all add: E_def R_def expires_def r)
    with True ne show ?thesis by (simp add: listExpiredCb_def r Let_def)
  next
    case False
    then have E: "E = takeWhile (\<lambda>p. ?n p \<le> now) (mg_timers mg)"
      by (simp add: E_def expires_def [abs_def] r tm_due_def ascending_takeWhile [OF sorted_timers_ascending [OF sorted]])
    from False have R: "R = dropWhile (\<lambda>p. ?n p \<le> now) (mg_timers mg)"
      by (simp add: R_def expires_def [abs_def] r tm_due_def ascending_dropWhile [OF sorted_timers_ascending [OF sorted]])
    show ?thesis
    proof (cases "?n (hd (mg_timers mg)) > now")
      case True
      with ne have "E = []" "R = mg_timers mg" unfolding E R by (cases "mg_timers mg"; simp)+
      with True False ne show ?thesis by (simp add: listExpiredCb_def r Let_def)
    next
      case late: False
      with False ne show ?thesis
        by (simp add: listExpiredCb_def r Let_def lower_bound_due [OF sorted out] E R
          take_takeWhile_dropWhile)
    qed
  qed
  then show "listExpiredCb now q mg = rearm now E (mg\<lparr>mg_previousTime := now, mg_timers := R\<rparr>)"
    "mg_timers mg = E @ R" by blast+
qed

lemma listExpiredCb_spec:
  assumes ok: "timers_ok mg" and q: "q \<notin> dom (mg_heap mg)"
  obtains mg' where "listExpiredCb now q mg =
      (map (\<lambda>p. tm_cb (timer_at (mg_heap mg) p)) (filter (expires now mg) (mg_timers mg)), mg')"
    "timers_ok mg'"
    "set (mg_timers mg') = {p \<in> set (mg_timers mg). expires now mg p \<longrightarrow> tm_recurring (timer_at (mg_heap mg) p)}"
    "\<And>p. mg_heap mg' p = (if p \<in> set (mg_timers mg) \<and> expires now mg p
      then Some (fired now (timer_at (mg_heap mg) p)) else mg_heap mg p)"
proof (cases "mg_timers mg = []")
  case True
  with ok show ?thesis by (intro that [of mg]) (simp_all add: listExpiredCb_def)
next
  case False
  let ?E = "filter (expires now mg) (mg_timers mg)"
  let ?R = "filter (\<lambda>p. \<not> expires now mg p) (mg_timers mg)"
  let ?m = "mg\<lparr>mg_previousTime := now, mg_timers := ?R\<rparr>"
  note l = listExpiredCb_rearm(1) [OF ok q False, of now]
  note sorted = timers_okD(1) [OF ok]
  have s: "sorted_wrt (timer_less (mg_heap ?m)) (mg_timers ?m)" "distinct ?E"
    "set ?E \<inter> set (mg_timers ?m) = {}"
    using sorted timer_set.ordered_distinct [OF sorted] by (auto intro: sorted_wrt_filter)
  obtain mg' where r: "rearm now ?E ?m = (map (\<lambda>p. tm_cb (timer_at (mg_heap ?m) p)) ?E, mg')"
    "sorted_wrt (timer_less (mg_heap mg')) (mg_timers mg')"
    "set (mg_timers mg') = set (mg_timers ?m) \<union> {p \<in> set ?E. tm_recurring (timer_at (mg_heap ?m) p)}"
    "\<And>p. mg_heap mg' p = (if p \<in> set ?E then Some (fired now (timer_at (mg_heap ?m) p)) else mg_heap ?m p)"
    by (rule rearm_spec [OF s that])
  have heap: "mg_heap mg' p = (if p \<in> set (mg_timers mg) \<and> expires now mg p
      then Some (fired now (timer_at (mg_heap mg) p)) else mg_heap mg p)" for p
    by (simp add: r(4))
  have set: "set (mg_timers mg') =
    {p \<in> set (mg_timers mg). expires now mg p \<longrightarrow> tm_recurring (timer_at (mg_heap mg) p)}"
    unfolding r(3) by auto
  have "timers_ok mg'"
  proof (rule timers_okI [OF r(2)])
    show "\<exists>t. mg_heap mg' p = Some t" if "p \<in> set (mg_timers mg')" for p
      using that timers_okD(2) [OF ok] unfolding heap set by auto
    show "p \<in> set (mg_timers mg')" if "mg_heap mg' p = Some t" "tm_cb t \<noteq> None" for p t
      using that timers_okD(3) [OF ok, of p] unfolding heap set by (auto simp: fired_def split: if_splits)
  qed
  with l r(1) heap set show ?thesis by (intro that [of mg']) simp_all
qed

subsection \<open>Reachable states\<close>

inductive timer_step :: "'c timer_manager \<Rightarrow> 'c timer_manager \<Rightarrow> bool" where
  step_add: "addTimer now p mg ms cb recurring = (q, mg', front) \<Longrightarrow> p \<notin> dom (mg_heap mg) \<Longrightarrow>
    timer_step mg mg'"
| step_condition: "addConditionTimer now p mg ms f weak recurring = (q, mg', front) \<Longrightarrow>
    p \<notin> dom (mg_heap mg) \<Longrightarrow> timer_step mg mg'"
| step_cancel: "cancel mg p = Inr (r, mg') \<Longrightarrow> timer_step mg mg'"
| step_refresh: "refresh now mg p = Inr (r, mg') \<Longrightarrow> timer_step mg mg'"
| step_reset: "reset now mg p ms from_now = Inr (r, mg', front) \<Longrightarrow> timer_step mg mg'"
| step_next: "getNextTimer now mg = (d, mg') \<Longrightarrow> timer_step mg mg'"
| step_expired: "listExpiredCb now q mg = (cbs, mg') \<Longrightarrow> q \<notin> dom (mg_heap mg) \<Longrightarrow> timer_step mg mg'"

inductive timer_reachable :: "'c timer_manager \<Rightarrow> bool" where
  reachable_init: "timer_reachable (new_timer_manager now)"
| reachable_step: "timer_reachable mg \<Longrightarrow> timer_step mg mg' \<Longrightarrow> timer_reachable mg'"

lemma getNextTimer_state: "getNextTimer now mg = (d, mg') \<Longrightarrow> mg' = mg\<lparr>mg_tickled := False\<rparr>"
  by (auto simp: getNextTimer_def Let_def split: list.splits if_splits)

text \<open>One step keeps the invariant, and a timer that is out and has no callback stays so.\<close>

definition disarmed :: "'c timer_manager \<Rightarrow> addr \<Rightarrow> bool" where
  "disarmed mg p \<longleftrightarrow> (\<exists>t. mg_heap mg p = Some t \<and> tm_cb t = None) \<and> p \<notin> set (mg_timers mg)"

lemma addTimer_disarmed:
  assumes "timers_ok mg" "p \<notin> dom (mg_heap mg)" "addTimer now p mg ms cb recurring = (q, mg', front)"
    "disarmed mg x"
  shows "disarmed mg' x"
  using addTimer_ok(3,4) [OF assms(1-3)] assms(2,4) by (auto simp: disarmed_def)

lemma timer_step_keeps:
  assumes "timer_step mg mg'" "timers_ok mg"
  shows "timers_ok mg' \<and> (disarmed mg x \<longrightarrow> disarmed mg' x)"
  using assms
proof (induction rule: timer_step.induct)
  case (step_add now p mg ms cb recurring q mg' front)
  then show ?case using addTimer_ok(1) addTimer_disarmed by blast
next
  case (step_condition now p mg ms f weak recurring q mg' front)
  then show ?case using addTimer_ok(1) addTimer_disarmed unfolding addConditionTimer_def by blast
next
  case (step_cancel mg p r mg')
  then obtain t where "mg_heap mg p = Some t" by (auto simp: cancel_def split: option.splits)
  with step_cancel show ?case
    by (elim cancel_ok [of mg p t]) (auto simp: disarmed_def split: if_splits)
next
  case (step_refresh now mg p r mg')
  then obtain t where t: "mg_heap mg p = Some t" by (auto simp: refresh_def split: option.splits)
  show ?case
    by (rule refresh_ok [OF step_refresh(2) t, of now])
      (use step_refresh t in \<open>cases "tm_cb t = None"; auto simp: disarmed_def\<close>)
next
  case (step_reset now mg p ms from_now r mg' front)
  then obtain t where t: "mg_heap mg p = Some t" by (auto simp: reset_def split: option.splits)
  show ?case
    by (rule reset_ok [OF step_reset(2) t, of now ms from_now])
      (use step_reset t in \<open>cases "(ms = tm_ms t \<and> \<not> from_now) \<or> tm_cb t = None"; auto simp: disarmed_def\<close>)
next
  case (step_next now mg d mg')
  then have "mg' = mg\<lparr>mg_tickled := False\<rparr>" by (auto dest: getNextTimer_state)
  with step_next(2) show ?case
    by (simp add: disarmed_def timers_ok_def timers_ordered_def armed_def)
next
  case (step_expired now q mg cbs mg')
  then show ?case
    by (elim listExpiredCb_spec [of mg q now]) (auto simp: disarmed_def)
qed

lemma timer_steps_keep:
  "timer_step\<^sup>*\<^sup>* mg mg' \<Longrightarrow> timers_ok mg \<Longrightarrow> timers_ok mg' \<and> (disarmed mg x \<longrightarrow> disarmed mg' x)"
  by (induction rule: rtranclp_induct) (auto dest: timer_step_keeps)

lemma timer_reachable_inv: "timer_reachable mg \<Longrightarrow> timers_ok mg"
  by (induction rule: timer_reachable.induct) (auto simp: new_timer_manager_ok dest: timer_step_keeps)

subsection \<open>Properties\<close>

text \<open>A manager with one recurring and one single-shot timer, for the witnesses.\<close>

definition two_timers :: "nat timer_manager" where
  "two_timers =
    (let (_, mg, _) = addTimer 100 1 (new_timer_manager 100) 50 (Some (Plain 7)) True;
         (_, mg, _) = addTimer 100 2 mg 20 (Some (Plain 8)) False
     in mg)"

lemma two_timers_eq:
  "two_timers =
    \<lparr>mg_heap = [1 \<mapsto> new_timer 100 50 (Some (Plain 7)) True, 2 \<mapsto> new_timer 100 20 (Some (Plain 8)) False],
     mg_timers = [2, 1], mg_tickled = True, mg_previousTime = 100\<rparr>"
  by (simp add: two_timers_def addTimer_def addTimer_ptr_def new_timer_manager_def oset_insert_def
      oset_find_def oset_lower_bound_def comparator_def new_timer_def timer_at_def Let_def)

lemma two_timers_ok: "timers_ok two_timers"
  by (rule timers_okI)
    (auto simp: two_timers_eq timer_less_iff timer_at_def new_timer_def split: if_splits)

text \<open>
  C3: in every state the timer operations can reach, \<open>m_timers\<close> is strictly ordered by
  (\<open>m_next\<close>, address), holds live timers only and every timer with a callback, and so
  \<open>cancel\<close> of a live timer never erases the end iterator and disarms the timer.
\<close>

theorem timer_states_safe:
  assumes "timer_reachable mg" "mg_heap mg p = Some t"
  shows "timers_ok mg \<and> (\<exists>mg'. cancel mg p = Inr (tm_cb t \<noteq> None, mg') \<and> \<not> armed mg' p)"
proof -
  have ok: "timers_ok mg" by (rule timer_reachable_inv [OF assms(1)])
  show ?thesis by (rule cancel_ok [OF ok assms(2)]) (auto simp: ok armed_def)
qed

theorem timer_states_safe_witness:
  "\<exists>mg'. cancel (snd (getNextTimer 100 (fst (snd (addTimer 100 1 (new_timer_manager 100) 50 (Some (Plain (7::nat))) True)))))
     1 = Inr (True, mg') \<and> \<not> armed mg' 1"
proof -
  let ?mg = "fst (snd (addTimer 100 1 (new_timer_manager 100) 50 (Some (Plain (7::nat))) True))"
  have "timer_reachable ?mg"
    by (rule reachable_step [OF reachable_init step_add [where q = 1 and front = "snd (snd (addTimer 100 1 (new_timer_manager 100) 50 (Some (Plain (7::nat))) True))"]])
      (auto simp: addTimer_def new_timer_manager_def)
  then have "timer_reachable (snd (getNextTimer 100 ?mg))"
    by (rule reachable_step [OF _ step_next]) (rule prod.collapse [symmetric])
  moreover have "mg_heap (snd (getNextTimer 100 ?mg)) 1 = Some (new_timer 100 50 (Some (Plain 7)) True)"
    using getNextTimer_state [OF prod.collapse [symmetric], of 100 ?mg] by (simp add: addTimer_def)
  ultimately show ?thesis
    using timer_states_safe [of "snd (getNextTimer 100 ?mg)" 1 "new_timer 100 50 (Some (Plain 7)) True"]
    by (simp add: new_timer_def)
qed

text \<open>
  C4: \<open>listExpiredCb\<close> returns the callbacks of exactly the timers due at \<open>now\<close>, in order of
  expiry (of all timers when the clock went back more than an hour); the single-shot ones
  leave \<open>m_timers\<close> without their callback, the recurring ones stay, rescheduled to
  \<open>now + m_ms\<close>, and no other timer changes.
\<close>

theorem listExpiredCb_exact:
  assumes "timers_ok mg" "q \<notin> dom (mg_heap mg)"
  shows "\<exists>mg'. listExpiredCb now q mg =
      (map (\<lambda>p. tm_cb (timer_at (mg_heap mg) p)) (filter (expires now mg) (mg_timers mg)), mg') \<and>
    timers_ok mg' \<and>
    set (mg_timers mg') = {p \<in> set (mg_timers mg). expires now mg p \<longrightarrow> tm_recurring (timer_at (mg_heap mg) p)} \<and>
    (\<forall>p. mg_heap mg' p = (if p \<in> set (mg_timers mg) \<and> expires now mg p
      then Some (fired now (timer_at (mg_heap mg) p)) else mg_heap mg p))"
  by (rule listExpiredCb_spec [OF assms]) blast

theorem listExpiredCb_exact_witness:
  "\<exists>mg'. listExpiredCb 130 3 two_timers = ([Some (Plain 8)], mg') \<and> set (mg_timers mg') = {1}"
proof -
  have e: "expires 130 two_timers 2" "\<not> expires 130 two_timers 1"
    by (simp_all add: expires_def tm_due_def detectClockRollover_def two_timers_eq timer_at_def new_timer_def)
  have "3 \<notin> dom (mg_heap two_timers)" by (simp add: two_timers_eq)
  from listExpiredCb_exact [OF two_timers_ok this, of 130] obtain mg' where
    "listExpiredCb 130 3 two_timers = (map (\<lambda>p. tm_cb (timer_at (mg_heap two_timers) p))
      (filter (expires 130 two_timers) (mg_timers two_timers)), mg')"
    "set (mg_timers mg') = {p \<in> set (mg_timers two_timers).
      expires 130 two_timers p \<longrightarrow> tm_recurring (timer_at (mg_heap two_timers) p)}" by blast
  moreover have "mg_timers two_timers = [2, 1]"
    "timer_at (mg_heap two_timers) 2 = new_timer 100 20 (Some (Plain 8)) False"
    "timer_at (mg_heap two_timers) 1 = new_timer 100 50 (Some (Plain 7)) True"
    by (simp_all add: two_timers_eq timer_at_def)
  ultimately show ?thesis using e by (auto simp: new_timer_def)
qed

text \<open>
  A timer that \<open>cancel\<close> has taken out never comes back: whatever operations follow,
  it is not among the timers whose callbacks \<open>listExpiredCb\<close> returns.
\<close>

lemma cancelled_never_fires:
  assumes "timers_ok mg" "cancel mg p = Inr (True, mg1)" "timer_step\<^sup>*\<^sup>* mg1 mg2"
  shows "p \<notin> set (mg_timers mg2) \<and> \<not> armed mg2 p"
proof -
  from assms(2) obtain t where t: "mg_heap mg p = Some t" by (auto simp: cancel_def split: option.splits)
  have "timers_ok mg1 \<and> disarmed mg1 p"
    by (rule cancel_ok [OF assms(1) t]) (use assms(2) in \<open>auto simp: disarmed_def\<close>)
  with timer_steps_keep [OF assms(3), of p] show ?thesis by (auto simp: disarmed_def armed_def)
qed

text \<open>
  \<open>getNextTimer\<close> is the time until the first timer is due: all ones when there is no
  timer, 0 when one is due already, and otherwise the least \<open>m_next\<close> less \<open>now\<close>.
\<close>

lemma getNextTimer_exact:
  assumes "timers_ok mg"
  shows "fst (getNextTimer now mg) =
    (if mg_timers mg = [] then - 1
     else if \<exists>p \<in> set (mg_timers mg). tm_due now mg p then 0
     else Min ((\<lambda>p. tm_next (timer_at (mg_heap mg) p)) ` set (mg_timers mg)) - now)"
proof (cases "mg_timers mg")
  case (Cons p ps)
  let ?n = "\<lambda>p. tm_next (timer_at (mg_heap mg) p)"
  have "\<forall>q \<in> set (p # ps). ?n p \<le> ?n q"
    using sorted_timers_ascending [OF timers_okD(1) [OF assms]] Cons by auto
  then have "Min (?n ` set (mg_timers mg)) = ?n p"
    "(\<exists>q \<in> set (mg_timers mg). tm_due now mg q) \<longleftrightarrow> ?n p \<le> now"
    using Cons by (auto simp: tm_due_def intro!: Min_eqI dest: order.trans)
  with Cons show ?thesis by (simp add: getNextTimer_def Let_def)
qed (simp add: getNextTimer_def Let_def)

end
