(* ===== verification/IO_Manager.thy ===== *)
theory IO_Manager
  imports Scheduler Timer_Manager
begin

text \<open>
  The I/O manager, \<open>inc/iomanager.h\<close> and \<open>src/iomanager.cpp\<close>: a scheduler and a timer manager
  over \<open>epoll\<close>. An \<open>FdContext*\<close> is an address in the store \<open>io_heap\<close>, \<open>m_fdContexts\<close> the list
  of them; a set of events is the 32-bit value the code computes with. The kernel's
  interest list \<open>io_epoll\<close> changes as \<open>epoll_ctl\<close> documents when it returns 0; what it
  returns is a parameter, as is what \<open>epoll_wait\<close> reports. \<open>new FdContext\<close> leaves
  \<open>curEvents\<close> uninitialised: its value is the parameter \<open>junk\<close>. Tasks that an event hands to
  its scheduler are returned. An operation does its work under
  the context's lock, in one step; \<open>addEvent\<close> looks its context up, or grows the table, in a step of
  its own, and \<open>io_run\<close> interleaves these steps.
\<close>

subsection \<open>State\<close>

definition EV_NONE :: u32 where "EV_NONE = 0x0"
definition EV_READ :: u32 where "EV_READ = 0x1"
definition EV_WRITE :: u32 where "EV_WRITE = 0x4"
definition EPOLLIN :: u32 where "EPOLLIN = 0x1"
definition EPOLLOUT :: u32 where "EPOLLOUT = 0x4"
definition EPOLLERR :: u32 where "EPOLLERR = 0x8"
definition EPOLLHUP :: u32 where "EPOLLHUP = 0x10"
definition EPOLLET :: u32 where "EPOLLET = 0x80000000"

datatype epoll_op = EPOLL_CTL_ADD | EPOLL_CTL_MOD | EPOLL_CTL_DEL

datatype io_error = IoAssert | BadFd | NullScheduler | FiberFault fiber_error

text \<open>\<open>ec_scheduler\<close> is the identity of the scheduler that gets the task.\<close>

record 'f event_context =
  ec_scheduler :: "nat option"
  ec_fiber :: "faddr option"
  ec_func :: "'f option"

record 'f fd_context =
  fx_read :: "'f event_context"
  fx_write :: "'f event_context"
  fx_fd :: int
  fx_curEvents :: u32

record 'f io_manager =
  io_heap :: "nat \<Rightarrow> 'f fd_context option"
  io_fdContexts :: "nat list"
  io_pendingEventCount :: nat
  io_epoll :: "int \<Rightarrow> (u32 \<times> nat) option"

type_synonym 'f scheduled = "nat \<times> faddr option \<times> 'f option"

definition io_assert :: "bool \<Rightarrow> io_error + unit" where
  "io_assert b = (if b then Inr () else Inl IoAssert)"

subsection \<open>Event contexts\<close>

definition empty_context :: "'f event_context" where
  "empty_context = \<lparr>ec_scheduler = None, ec_fiber = None, ec_func = None\<rparr>"

definition getContext :: "'f fd_context \<Rightarrow> u32 \<Rightarrow> io_error + 'f event_context" where
  "getContext c event =
    (if event = EV_READ then Inr (fx_read c) else if event = EV_WRITE then Inr (fx_write c) else Inl IoAssert)"

text \<open>What an assignment through the reference that \<open>getContext\<close> returns does.\<close>

definition putContext :: "'f fd_context \<Rightarrow> u32 \<Rightarrow> 'f event_context \<Rightarrow> 'f fd_context" where
  "putContext c event x =
    (if event = EV_READ then c\<lparr>fx_read := x\<rparr> else if event = EV_WRITE then c\<lparr>fx_write := x\<rparr> else c)"

definition resetContext :: "'f event_context \<Rightarrow> 'f event_context" where
  "resetContext x = x\<lparr>ec_scheduler := None, ec_fiber := None, ec_func := None\<rparr>"

definition triggerEvent :: "'f fd_context \<Rightarrow> u32 \<Rightarrow> io_error + ('f fd_context \<times> 'f scheduled)" where
  "triggerEvent c event =
    bindR (io_assert (fx_curEvents c AND event \<noteq> 0)) (\<lambda>_.
      let c = c\<lparr>fx_curEvents := fx_curEvents c AND NOT event\<rparr> in
      bindR (getContext c event) (\<lambda>x.
        case ec_scheduler x of
          None \<Rightarrow> Inl NullScheduler
        | Some s \<Rightarrow>
            let (out, x) = (if ec_func x \<noteq> None then ((s, None, ec_func x), x\<lparr>ec_func := None\<rparr>)
                            else ((s, ec_fiber x, None), x\<lparr>ec_fiber := None\<rparr>))
            in Inr (putContext c event (x\<lparr>ec_scheduler := None\<rparr>), out)))"

subsection \<open>The table of contexts\<close>

definition new_fd_context :: "u32 \<Rightarrow> nat \<Rightarrow> 'f fd_context" where
  "new_fd_context junk i =
    \<lparr>fx_read = empty_context, fx_write = empty_context, fx_fd = int i, fx_curEvents = junk\<rparr>"

text \<open>
  \<open>contextResize\<close>: \<open>resize\<close> cuts or extends the vector, and each null entry gets a new
  context; \<open>addr i\<close> is the address of the one for descriptor \<open>i\<close>.
\<close>

definition contextResize :: "(nat \<Rightarrow> u32) \<Rightarrow> (nat \<Rightarrow> nat) \<Rightarrow> nat \<Rightarrow> 'f io_manager \<Rightarrow> 'f io_manager" where
  "contextResize junk addr n io =
    (let old = io_fdContexts io;
         new = [length old..<n]
     in io\<lparr>io_fdContexts := take n old @ map addr new,
           io_heap := fold (\<lambda>i h. h(addr i \<mapsto> new_fd_context (junk i) i)) new (io_heap io)\<rparr>)"

definition context_at :: "'f io_manager \<Rightarrow> int \<Rightarrow> io_error + nat" where
  "context_at io fd =
    (if 0 \<le> fd \<and> nat fd < length (io_fdContexts io) then Inr (io_fdContexts io ! nat fd) else Inl BadFd)"

definition ctx :: "'f io_manager \<Rightarrow> nat \<Rightarrow> io_error + 'f fd_context" where
  "ctx io p = (case io_heap io p of None \<Rightarrow> Inl BadFd | Some c \<Rightarrow> Inr c)"

definition epoll_ctl ::
    "bool \<Rightarrow> epoll_op \<Rightarrow> int \<Rightarrow> u32 \<Rightarrow> nat \<Rightarrow> 'f io_manager \<Rightarrow> 'f io_manager" where
  "epoll_ctl fails oper fd events p io =
    (if fails then io
     else io\<lparr>io_epoll := (io_epoll io)(fd := (if oper = EPOLL_CTL_DEL then None else Some (events, p)))\<rparr>)"

subsection \<open>Adding, deleting and cancelling events\<close>

text \<open>The first part of \<open>addEvent\<close>: the context, under the reader's lock or after growing under the writer's.\<close>

definition addEvent_find :: "'f io_manager \<Rightarrow> int \<Rightarrow> io_error + nat option" where
  "addEvent_find io fd =
    (if int (length (io_fdContexts io)) > fd then bindR (context_at io fd) (\<lambda>p. Inr (Some p)) else Inr None)"

definition addEvent_grow ::
    "(nat \<Rightarrow> u32) \<Rightarrow> (nat \<Rightarrow> nat) \<Rightarrow> 'f io_manager \<Rightarrow> int \<Rightarrow> io_error + (nat \<times> 'f io_manager)" where
  "addEvent_grow junk addr io fd =
    (let io = contextResize junk addr (nat (fd * 3 div 2)) io in
     bindR (context_at io fd) (\<lambda>p. Inr (p, io)))"

text \<open>
  The second part, under the context's lock. \<open>this\<close> is the current scheduler, \<open>cur\<close> the
  current fiber and its state.
\<close>

definition addEvent_set ::
    "bool \<Rightarrow> nat option \<Rightarrow> faddr \<times> FiberState \<Rightarrow> 'f io_manager \<Rightarrow> int \<Rightarrow> nat \<Rightarrow> u32 \<Rightarrow> 'f option \<Rightarrow>
      io_error + (int \<times> 'f io_manager)" where
  "addEvent_set fails this cur io fd p event cb =
    bindR (ctx io p) (\<lambda>c.
    bindR (io_assert (fx_curEvents c AND event = 0)) (\<lambda>_.
      let oper = (if fx_curEvents c \<noteq> 0 then EPOLL_CTL_MOD else EPOLL_CTL_ADD);
          io = epoll_ctl fails oper fd (EPOLLET OR fx_curEvents c OR event) p io
      in if fails then Inr (- 1, io)
         else
           let c = c\<lparr>fx_curEvents := fx_curEvents c OR event\<rparr> in
           bindR (getContext c event) (\<lambda>x.
           bindR (io_assert (ec_scheduler x = None \<and> ec_fiber x = None \<and> ec_func x = None)) (\<lambda>_.
             let x = x\<lparr>ec_scheduler := this\<rparr>;
                 done = (\<lambda>x. Inr (0, io\<lparr>io_heap := (io_heap io)(p \<mapsto> putContext c event x),
                                        io_pendingEventCount := io_pendingEventCount io + 1\<rparr>))
             in case cb of
                  Some f \<Rightarrow> done (x\<lparr>ec_func := Some f\<rparr>)
                | None \<Rightarrow> bindR (io_assert (snd cur = EXEC)) (\<lambda>_. done (x\<lparr>ec_fiber := Some (fst cur)\<rparr>))))))"

definition addEvent ::
    "bool \<Rightarrow> nat option \<Rightarrow> faddr \<times> FiberState \<Rightarrow> (nat \<Rightarrow> u32) \<Rightarrow> (nat \<Rightarrow> nat) \<Rightarrow> 'f io_manager \<Rightarrow>
      int \<Rightarrow> u32 \<Rightarrow> 'f option \<Rightarrow> io_error + (int \<times> 'f io_manager)" where
  "addEvent fails this cur junk addr io fd event cb =
    bindR (addEvent_find io fd) (\<lambda>r.
      case r of
        Some p \<Rightarrow> addEvent_set fails this cur io fd p event cb
      | None \<Rightarrow> bindR (addEvent_grow junk addr io fd) (\<lambda>(p, io).
          addEvent_set fails this cur io fd p event cb))"

text \<open>The lookup shared by \<open>delEvent\<close>, \<open>cancelEvent\<close> and \<open>cancelAll\<close>.\<close>

definition find_context :: "'f io_manager \<Rightarrow> int \<Rightarrow> io_error + nat option" where
  "find_context io fd =
    (if int (length (io_fdContexts io)) \<le> fd then Inr None
     else bindR (context_at io fd) (\<lambda>p. Inr (Some p)))"

definition delEvent :: "bool \<Rightarrow> 'f io_manager \<Rightarrow> int \<Rightarrow> u32 \<Rightarrow> io_error + (bool \<times> 'f io_manager)" where
  "delEvent fails io fd event =
    bindR (find_context io fd) (\<lambda>r. case r of None \<Rightarrow> Inr (False, io) | Some p \<Rightarrow>
    bindR (ctx io p) (\<lambda>c.
      if fx_curEvents c AND event = 0 then Inr (False, io)
      else
        let new_events = fx_curEvents c AND NOT event;
            oper = (if new_events \<noteq> 0 then EPOLL_CTL_MOD else EPOLL_CTL_DEL);
            io = epoll_ctl fails oper fd (EPOLLET OR new_events) p io
        in if fails then Inr (False, io)
           else
             let c = c\<lparr>fx_curEvents := new_events\<rparr> in
             bindR (getContext c event) (\<lambda>x.
               Inr (True, io\<lparr>io_heap := (io_heap io)(p \<mapsto> putContext c event (resetContext x)),
                             io_pendingEventCount := usub64 (io_pendingEventCount io) 1\<rparr>))))"

definition cancelEvent ::
    "bool \<Rightarrow> 'f io_manager \<Rightarrow> int \<Rightarrow> u32 \<Rightarrow> io_error + (bool \<times> 'f io_manager \<times> 'f scheduled list)" where
  "cancelEvent fails io fd event =
    bindR (find_context io fd) (\<lambda>r. case r of None \<Rightarrow> Inr (False, io, []) | Some p \<Rightarrow>
    bindR (ctx io p) (\<lambda>c.
      if fx_curEvents c AND event = 0 then Inr (False, io, [])
      else
        let new_events = fx_curEvents c AND NOT event;
            oper = (if new_events \<noteq> 0 then EPOLL_CTL_MOD else EPOLL_CTL_DEL);
            io = epoll_ctl fails oper fd (EPOLLET OR new_events) p io
        in if fails then Inr (False, io, [])
           else bindR (triggerEvent c event) (\<lambda>(c, out).
             Inr (True, io\<lparr>io_heap := (io_heap io)(p \<mapsto> c),
                           io_pendingEventCount := usub64 (io_pendingEventCount io) 1\<rparr>, [out]))))"

text \<open>Triggering an event of a context when a flag says so, the step \<open>cancelAll\<close> and \<open>idle\<close> repeat.\<close>

definition trigger_if ::
    "bool \<Rightarrow> u32 \<Rightarrow> nat \<Rightarrow> 'f io_manager \<times> 'f scheduled list \<Rightarrow> io_error + ('f io_manager \<times> 'f scheduled list)" where
  "trigger_if b event p s =
    (if b then
       bindR (ctx (fst s) p) (\<lambda>c.
       bindR (triggerEvent c event) (\<lambda>(c, out).
         Inr ((fst s)\<lparr>io_heap := (io_heap (fst s))(p \<mapsto> c),
                      io_pendingEventCount := usub64 (io_pendingEventCount (fst s)) 1\<rparr>, snd s @ [out])))
     else Inr s)"

definition cancelAll ::
    "bool \<Rightarrow> 'f io_manager \<Rightarrow> int \<Rightarrow> io_error + (bool \<times> 'f io_manager \<times> 'f scheduled list)" where
  "cancelAll fails io fd =
    bindR (find_context io fd) (\<lambda>r. case r of None \<Rightarrow> Inr (False, io, []) | Some p \<Rightarrow>
    bindR (ctx io p) (\<lambda>c.
      if fx_curEvents c = 0 then Inr (False, io, [])
      else
        let io = epoll_ctl fails EPOLL_CTL_DEL fd 0 p io in
        if fails then Inr (False, io, [])
        else
          bindR (trigger_if (fx_curEvents c AND EV_READ \<noteq> 0) EV_READ p (io, [])) (\<lambda>s.
          bindR (ctx (fst s) p) (\<lambda>c.
          bindR (trigger_if (fx_curEvents c AND EV_WRITE \<noteq> 0) EV_WRITE p s) (\<lambda>s.
          bindR (ctx (fst s) p) (\<lambda>c.
          bindR (io_assert (fx_curEvents c = 0)) (\<lambda>_. Inr (True, s))))))))"

subsection \<open>The idle loop\<close>

text \<open>One event that \<open>epoll_wait\<close> reported for the context at \<open>p\<close>.\<close>

definition process_event ::
    "bool \<Rightarrow> u32 \<Rightarrow> nat \<Rightarrow> 'f io_manager \<times> 'f scheduled list \<Rightarrow> io_error + ('f io_manager \<times> 'f scheduled list)" where
  "process_event fails events p s =
    bindR (ctx (fst s) p) (\<lambda>c.
      let events = (if events AND (EPOLLERR OR EPOLLHUP) \<noteq> 0
                    then events OR ((EPOLLIN OR EPOLLOUT) AND fx_curEvents c) else events);
          real_events = (if events AND EPOLLIN \<noteq> 0 then EV_NONE OR EV_READ else EV_NONE);
          real_events = (if events AND EPOLLOUT \<noteq> 0 then real_events OR EV_WRITE else real_events)
      in if fx_curEvents c AND real_events = EV_NONE then Inr s
         else
           let left_events = fx_curEvents c AND NOT real_events;
               oper = (if left_events \<noteq> 0 then EPOLL_CTL_MOD else EPOLL_CTL_DEL);
               io = epoll_ctl fails oper (fx_fd c) (EPOLLET OR left_events) p (fst s)
           in if fails then Inr (io, snd s)
              else bindR (trigger_if (real_events AND EV_READ \<noteq> 0) EV_READ p (io, snd s)) (\<lambda>s.
                trigger_if (real_events AND EV_WRITE \<noteq> 0) EV_WRITE p s))"

text \<open>The time \<open>idle\<close> lets \<open>epoll_wait\<close> sleep, from the time to the next timer; both casts to \<open>int\<close> are signed.\<close>

definition epoll_timeout :: "u64 \<Rightarrow> int" where
  "epoll_timeout next_timeout =
    (let t = (if next_timeout \<noteq> - 1
              then (if sint (ucast next_timeout :: i32) > 3000 then 3000 else next_timeout) else 3000)
     in sint (ucast t :: i32))"

text \<open>
  \<open>stopping\<close>: no timer, no pending event, and the scheduler's own condition. It asks the
  timers first, at the time \<open>now\<close>.
\<close>

definition io_stopping ::
    "u64 \<Rightarrow> 'c timer_manager \<Rightarrow> 'f io_manager \<Rightarrow> 'g scheduler \<Rightarrow> bool \<times> u64 \<times> 'c timer_manager" where
  "io_stopping now tm io sc =
    (let (timeout, tm) = getNextTimer now tm
     in (timeout = - 1 \<and> io_pendingEventCount io = 0 \<and> stopping sc, timeout, tm))"

text \<open>\<open>tickle\<close> writes a byte to the pipe when a thread idles; so does a new first timer.\<close>

definition io_tickle :: "'g scheduler \<Rightarrow> nat" where
  "io_tickle sc = (if hasIdleThreads sc then 1 else 0)"

definition onTimerInsertedAtFront :: "'g scheduler \<Rightarrow> nat" where
  "onTimerInsertedAtFront sc = io_tickle sc"

datatype epoll_report = TickleFd | Ready bool u32 nat

text \<open>The events of one \<open>epoll_wait\<close>, in order; the tickle descriptor is drained.\<close>

fun process_events ::
    "epoll_report list \<Rightarrow> 'f io_manager \<times> 'f scheduled list \<Rightarrow> io_error + ('f io_manager \<times> 'f scheduled list)" where
  "process_events [] s = Inr s"
| "process_events (TickleFd # evs) s = process_events evs s"
| "process_events (Ready fails events p # evs) s =
    bindR (process_event fails events p s) (\<lambda>s. process_events evs s)"

record 'c io_world =
  iw_io :: "'c callback io_manager"
  iw_timers :: "'c timer_manager"
  iw_sched :: "'c callback scheduler"

datatype 'c idle_result = IdleExit | IdleWait int "epoll_report list \<Rightarrow> u64 \<Rightarrow> addr \<Rightarrow> io_error + ('c io_world \<times> 'c callback scheduled list)"

text \<open>What one round of \<open>idle\<close> does after \<open>epoll_wait\<close>: first the expired timers, then the events.\<close>

definition idle_dispatch ::
    "'c io_world \<Rightarrow> epoll_report list \<Rightarrow> u64 \<Rightarrow> addr \<Rightarrow> io_error + ('c io_world \<times> 'c callback scheduled list)" where
  "idle_dispatch iw evs now q =
    (let (cbs, tm) = listExpiredCb now q (iw_timers iw);
         sc = (if cbs \<noteq> [] then snd (schedule_range (iw_sched iw) (map (Pair None) cbs) False) else iw_sched iw)
     in bindR (process_events evs (iw_io iw, [])) (\<lambda>(io, out).
          Inr (\<lparr>iw_io = io, iw_timers = tm, iw_sched = sc\<rparr>, out)))"

definition io_idle :: "u64 \<Rightarrow> 'c io_world \<Rightarrow> 'c idle_result" where
  "io_idle now iw =
    (let (stop, timeout, tm) = io_stopping now (iw_timers iw) (iw_io iw) (iw_sched iw)
     in if stop then IdleExit else IdleWait (epoll_timeout timeout) (idle_dispatch (iw\<lparr>iw_timers := tm\<rparr>)))"

definition new_io_manager :: "(nat \<Rightarrow> u32) \<Rightarrow> (nat \<Rightarrow> nat) \<Rightarrow> 'f io_manager" where
  "new_io_manager junk addr =
    contextResize junk addr 32
      \<lparr>io_heap = Map.empty, io_fdContexts = [], io_pendingEventCount = 0, io_epoll = Map.empty\<rparr>"

section \<open>Correctness\<close>

subsection \<open>One context\<close>

definition slot_ok :: "bool \<Rightarrow> 'f event_context \<Rightarrow> bool" where
  "slot_ok b x =
    (if b then ec_scheduler x \<noteq> None \<and> (ec_fiber x = None \<longleftrightarrow> ec_func x \<noteq> None) else x = empty_context)"

text \<open>A context is well formed when its slots hold tasks exactly for the events it waits for.\<close>

definition ctx_ok :: "'f fd_context \<Rightarrow> bool" where
  "ctx_ok c \<longleftrightarrow> fx_curEvents c \<in> {0, 1, 4, 5} \<and>
     slot_ok (fx_curEvents c AND EV_READ \<noteq> 0) (fx_read c) \<and>
     slot_ok (fx_curEvents c AND EV_WRITE \<noteq> 0) (fx_write c)"

definition npend :: "'f fd_context \<Rightarrow> nat" where
  "npend c = (if fx_curEvents c AND EV_READ \<noteq> 0 then 1 else 0) +
             (if fx_curEvents c AND EV_WRITE \<noteq> 0 then 1 else 0)"

definition slot :: "'f fd_context \<Rightarrow> u32 \<Rightarrow> 'f event_context" where
  "slot c event = (if event = EV_READ then fx_read c else fx_write c)"

definition task_of :: "'f event_context \<Rightarrow> 'f scheduled" where
  "task_of x = (the (ec_scheduler x), (if ec_func x \<noteq> None then None else ec_fiber x), ec_func x)"

lemmas io_bits = EV_NONE_def EV_READ_def EV_WRITE_def EPOLLIN_def EPOLLOUT_def EPOLLERR_def EPOLLHUP_def

lemma ctx_ok_cases:
  assumes "ctx_ok c"
  obtains "fx_curEvents c = 0" "fx_read c = empty_context" "fx_write c = empty_context"
  | "fx_curEvents c = 1" "slot_ok True (fx_read c)" "fx_write c = empty_context"
  | "fx_curEvents c = 4" "fx_read c = empty_context" "slot_ok True (fx_write c)"
  | "fx_curEvents c = 5" "slot_ok True (fx_read c)" "slot_ok True (fx_write c)"
  using assms by (auto simp: ctx_ok_def slot_ok_def io_bits split: if_splits)

lemma emptied_slot: "slot_ok True x \<Longrightarrow>
    (if ec_func x \<noteq> None then x\<lparr>ec_func := None\<rparr> else x\<lparr>ec_fiber := None\<rparr>)\<lparr>ec_scheduler := None\<rparr> = empty_context"
  by (cases x) (auto simp: slot_ok_def empty_context_def)

lemma triggerEvent_eval:
  assumes "ctx_ok c" "event = EV_READ \<or> event = EV_WRITE" "fx_curEvents c AND event \<noteq> 0"
  shows "triggerEvent c event =
    Inr (putContext (c\<lparr>fx_curEvents := fx_curEvents c AND NOT event\<rparr>) event empty_context, task_of (slot c event))"
proof -
  from assms have ok: "slot_ok True (slot c event)" by (auto simp: ctx_ok_def slot_def)
  then obtain s where s: "ec_scheduler (slot c event) = Some s" by (auto simp: slot_ok_def)
  have g: "getContext (c\<lparr>fx_curEvents := fx_curEvents c AND NOT event\<rparr>) event = Inr (slot c event)"
    using assms(2) by (auto simp: getContext_def slot_def io_bits)
  from emptied_slot [OF ok] show ?thesis
    using assms(3) by (simp add: triggerEvent_def io_assert_def g s task_of_def split: if_splits)
qed

lemma put_empty_ok:
  assumes "ctx_ok c" "event = EV_READ \<or> event = EV_WRITE"
  shows "ctx_ok (putContext (c\<lparr>fx_curEvents := fx_curEvents c AND NOT event\<rparr>) event empty_context)"
  using assms(1)
  by (cases rule: ctx_ok_cases; use assms(2) in \<open>auto simp: ctx_ok_def putContext_def slot_ok_def io_bits\<close>)

lemma npend_clear:
  assumes "ctx_ok c" "event = EV_READ \<or> event = EV_WRITE" "fx_curEvents c AND event \<noteq> 0"
  shows "npend c = Suc (npend (putContext (c\<lparr>fx_curEvents := fx_curEvents c AND NOT event\<rparr>) event x))"
  using assms(1)
  by (cases rule: ctx_ok_cases; use assms(2,3) in \<open>auto simp: npend_def putContext_def io_bits\<close>)

lemma putContext_fields [simp]:
  "fx_fd (putContext c event x) = fx_fd c"
  "fx_curEvents (putContext c event x) = fx_curEvents c"
  by (simp_all add: putContext_def)

lemma set_event_ok:
  assumes "ctx_ok c" "event = EV_READ \<or> event = EV_WRITE" "fx_curEvents c AND event = 0" "slot_ok True x"
  shows "ctx_ok (putContext (c\<lparr>fx_curEvents := fx_curEvents c OR event\<rparr>) event x)"
    and "npend (putContext (c\<lparr>fx_curEvents := fx_curEvents c OR event\<rparr>) event x) = Suc (npend c)"
    and "getContext (c\<lparr>fx_curEvents := fx_curEvents c OR event\<rparr>) event = Inr empty_context"
  using assms(1)
  by (cases rule: ctx_ok_cases;
      use assms(2-4) in \<open>auto simp: ctx_ok_def npend_def putContext_def getContext_def slot_ok_def io_bits\<close>)+

subsection \<open>The whole manager\<close>

definition interest :: "'f fd_context \<Rightarrow> nat \<Rightarrow> (u32 \<times> nat) option" where
  "interest c p = (if fx_curEvents c = 0 then None else Some (EPOLLET OR fx_curEvents c, p))"

definition total_pending :: "(nat \<Rightarrow> 'f fd_context option) \<Rightarrow> nat" where
  "total_pending h = (\<Sum>p \<in> dom h. npend (the (h p)))"

text \<open>
  Every entry of the table is a context of its own for its own descriptor, the kernel waits for
  exactly the registered events, and the counter is the number of registered events.
\<close>

definition io_ok :: "'f io_manager \<Rightarrow> bool" where
  "io_ok io \<longleftrightarrow> finite (dom (io_heap io)) \<and> (\<forall>p c. io_heap io p = Some c \<longrightarrow> ctx_ok c) \<and>
     32 \<le> length (io_fdContexts io) \<and> distinct (io_fdContexts io) \<and>
     (\<forall>i < length (io_fdContexts io).
        \<exists>c. io_heap io (io_fdContexts io ! i) = Some c \<and> fx_fd c = int i \<and>
            io_epoll io (int i) = interest c (io_fdContexts io ! i)) \<and>
     (\<forall>fd. \<not> (0 \<le> fd \<and> fd < int (length (io_fdContexts io))) \<longrightarrow> io_epoll io fd = None) \<and>
     io_pendingEventCount io = total_pending (io_heap io)"

lemma total_pending_update:
  assumes "finite (dom h)" "h p = Some c"
  shows "total_pending (h(p \<mapsto> c')) + npend c = total_pending h + npend c'"
proof -
  from assms(2) have p: "p \<in> dom h" by auto
  have "total_pending (h(p \<mapsto> c')) = npend c' + (\<Sum>q \<in> dom h - {p}. npend (the (h q)))"
    unfolding total_pending_def using assms(1) p
    by (subst sum.remove [of _ p]) (auto simp: insert_absorb intro!: sum.cong)
  moreover have "total_pending h = npend c + (\<Sum>q \<in> dom h - {p}. npend (the (h q)))"
    unfolding total_pending_def using assms p by (subst sum.remove [of _ p]) auto
  ultimately show ?thesis by simp
qed

lemma npend_le_total: "finite (dom h) \<Longrightarrow> h p = Some c \<Longrightarrow> npend c \<le> total_pending h"
  unfolding total_pending_def by (rule order_trans [OF _ member_le_sum [of p]]) auto

definition commit :: "'f io_manager \<Rightarrow> nat \<Rightarrow> 'f fd_context \<Rightarrow> nat \<Rightarrow> 'f io_manager" where
  "commit io p c n = io\<lparr>io_heap := (io_heap io)(p \<mapsto> c), io_pendingEventCount := n,
     io_epoll := (io_epoll io)(fx_fd c := interest c p)\<rparr>"

lemma commit_ok:
  assumes ok: "io_ok io" and i: "i < length (io_fdContexts io)" and p: "p = io_fdContexts io ! i"
    and c: "io_heap io p = Some c" and c': "ctx_ok c'" "fx_fd c' = fx_fd c"
    and n: "n + npend c = io_pendingEventCount io + npend c'"
  shows "io_ok (commit io p c' n)"
proof -
  from ok i p c have fd: "fx_fd c' = int i" by (auto simp: io_ok_def c')
  have e: "(io_fdContexts io ! j = p) = (j = i)" if "j < length (io_fdContexts io)" for j
    using ok i p that by (auto simp: io_ok_def nth_eq_iff_index_eq)
  from ok c n have "n = total_pending ((io_heap io)(p \<mapsto> c'))"
    using total_pending_update [of "io_heap io" p c c'] by (simp add: io_ok_def)
  with ok e fd c' show ?thesis by (auto simp: commit_def io_ok_def i p [symmetric])
qed

lemma io_ok_entry:
  assumes "io_ok io" "0 \<le> fd" "fd < int (length (io_fdContexts io))"
  obtains i c where "fd = int i" "i < length (io_fdContexts io)"
    "context_at io fd = Inr (io_fdContexts io ! i)" "io_heap io (io_fdContexts io ! i) = Some c"
    "ctx_ok c" "fx_fd c = int i"
proof -
  define i where "i = nat fd"
  with assms have i: "fd = int i" "i < length (io_fdContexts io)" by auto
  with assms(1) obtain c where c: "io_heap io (io_fdContexts io ! i) = Some c" "fx_fd c = int i"
    by (auto simp: io_ok_def)
  have "ctx_ok c" using assms(1) c by (auto simp: io_ok_def)
  with i c show ?thesis by (intro that) (auto simp: context_at_def)
qed

lemma io_ok_nth:
  "io_ok io \<Longrightarrow> i < length (io_fdContexts io) \<Longrightarrow> io_heap io (io_fdContexts io ! i) = Some c \<Longrightarrow>
    ctx_ok c \<and> fx_fd c = int i"
  by (auto simp: io_ok_def)

lemma context_at_Inr:
  assumes "io_ok io" "context_at io fd = Inr p"
  obtains i c where "fd = int i" "i < length (io_fdContexts io)" "p = io_fdContexts io ! i"
    "io_heap io p = Some c" "ctx_ok c" "fx_fd c = int i"
proof -
  from assms(2) have "0 \<le> fd" "fd < int (length (io_fdContexts io))"
    by (auto simp: context_at_def split: if_splits)
  from io_ok_entry [OF assms(1) this] assms(2) that show ?thesis by (metis sum.inject(2))
qed

subsection \<open>Growing the table\<close>

lemma fold_update_other: "p \<notin> addr ` set xs \<Longrightarrow> fold (\<lambda>i h. h(addr i \<mapsto> f i)) xs h p = h p"
  by (induction xs arbitrary: h) auto

lemma fold_update_new:
  "inj_on addr (set xs) \<Longrightarrow> distinct xs \<Longrightarrow> j \<in> set xs \<Longrightarrow>
    fold (\<lambda>i h. h(addr i \<mapsto> f i)) xs h (addr j) = Some (f j)"
proof (induction xs arbitrary: h)
  case (Cons x xs)
  show ?case
  proof (cases "j = x")
    case True
    with Cons.prems have "addr j \<notin> addr ` set xs" by (auto simp: inj_on_def)
    with True show ?thesis by (simp add: fold_update_other del: fun_upd_apply) simp
  qed (use Cons in auto)
qed simp

lemma fold_update_dom: "dom (fold (\<lambda>i h. h(addr i \<mapsto> f i)) xs h) = dom h \<union> addr ` set xs"
  by (induction xs arbitrary: h) auto

lemma new_context_facts [simp]:
  "ctx_ok (new_fd_context 0 i)" "npend (new_fd_context 0 i) = 0" "fx_fd (new_fd_context 0 i) = int i"
  "interest (new_fd_context 0 i) p = None"
  by (simp_all add: new_fd_context_def ctx_ok_def npend_def slot_ok_def interest_def)

text \<open>What makes a choice of addresses for the new contexts possible: they are unused and differ.\<close>

definition fresh_addr :: "(nat \<Rightarrow> nat) \<Rightarrow> 'f io_manager \<Rightarrow> bool" where
  "fresh_addr addr io \<longleftrightarrow> inj addr \<and> range addr \<inter> (dom (io_heap io) \<union> set (io_fdContexts io)) = {}"

lemma contextResize_grow:
  assumes fin: "finite (dom (io_heap io))" and ctxs: "\<And>p c. io_heap io p = Some c \<Longrightarrow> ctx_ok c"
    and d: "distinct (io_fdContexts io)"
    and entries: "\<And>i. i < length (io_fdContexts io) \<Longrightarrow>
        \<exists>c. io_heap io (io_fdContexts io ! i) = Some c \<and> fx_fd c = int i \<and>
            io_epoll io (int i) = interest c (io_fdContexts io ! i)"
    and outside: "\<And>fd. \<not> (0 \<le> fd \<and> fd < int (length (io_fdContexts io))) \<Longrightarrow> io_epoll io fd = None"
    and pend: "io_pendingEventCount io = total_pending (io_heap io)"
    and fresh: "fresh_addr addr io" and n: "length (io_fdContexts io) \<le> n" "32 \<le> n"
  shows "io_ok (contextResize (\<lambda>_. 0) addr n io)"
proof -
  define h where "h = fold (\<lambda>i h. h(addr i \<mapsto> new_fd_context 0 i)) [length (io_fdContexts io)..<n] (io_heap io)"
  have inj: "inj addr" and fr: "\<And>i. addr i \<notin> dom (io_heap io)" "\<And>i. addr i \<notin> set (io_fdContexts io)"
    using fresh by (auto simp: fresh_addr_def)
  let ?l = "length (io_fdContexts io)"
  have hn: "h (addr j) = Some (new_fd_context 0 j)" if "?l \<le> j" "j < n" for j
    unfolding h_def using that by (intro fold_update_new) (auto intro: inj_on_subset [OF inj])
  have ho: "h p = io_heap io p" if "p \<notin> addr ` {?l..<n}" for p
    unfolding h_def using that by (intro fold_update_other) auto
  have dh: "dom h = dom (io_heap io) \<union> addr ` {?l..<n}"
    unfolding h_def by (simp add: fold_update_dom)
  have io': "contextResize (\<lambda>_. 0) addr n io =
      io\<lparr>io_fdContexts := io_fdContexts io @ map addr [?l..<n], io_heap := h\<rparr>"
    using n by (simp add: contextResize_def Let_def h_def)
  have c1: "ctx_ok c" if "h p = Some c" for p c
    using that hn ho ctxs by (cases "p \<in> addr ` {?l..<n}") force+
  have c2: "\<exists>c. h ((io_fdContexts io @ map addr [?l..<n]) ! i) = Some c \<and> fx_fd c = int i \<and>
      io_epoll io (int i) = interest c ((io_fdContexts io @ map addr [?l..<n]) ! i)" if "i < n" for i
  proof (cases "i < ?l")
    case True
    then have "io_fdContexts io ! i \<notin> addr ` {?l..<n}" using fr(2) by (metis imageE nth_mem)
    with True entries [OF True] show ?thesis by (simp add: nth_append ho)
  next
    case False
    with that n hn [of i] outside [of "int i"] show ?thesis by (simp add: nth_append)
  qed
  have "total_pending h = (\<Sum>p \<in> dom (io_heap io). npend (the (h p))) + (\<Sum>p \<in> addr ` {?l..<n}. npend (the (h p)))"
    unfolding total_pending_def dh using fin fr by (subst sum.union_disjoint) auto
  also have "(\<Sum>p \<in> addr ` {?l..<n}. npend (the (h p))) = 0" using hn by auto
  also have "(\<Sum>p \<in> dom (io_heap io). npend (the (h p))) = total_pending (io_heap io)"
  proof -
    have "h p = io_heap io p" if "p \<in> dom (io_heap io)" for p using fr(1) that by (intro ho) auto
    then show ?thesis by (simp add: total_pending_def cong: sum.cong)
  qed
  finally have c3: "total_pending h = io_pendingEventCount io" by (simp add: pend)
  have c4: "distinct (io_fdContexts io @ map addr [?l..<n])"
    using d fr(2) inj by (auto simp: distinct_map intro: inj_on_subset)
  show ?thesis unfolding io' io_ok_def
    using n c1 c2 c3 c4 fin outside by (auto simp: dh)
qed

lemma contextResize_ok:
  assumes "io_ok io" "fresh_addr addr io" "length (io_fdContexts io) \<le> n"
  shows "io_ok (contextResize (\<lambda>_. 0) addr n io)"
  by (rule contextResize_grow; use assms in \<open>auto simp: io_ok_def\<close>)

lemma new_io_manager_ok: "inj addr \<Longrightarrow> io_ok (new_io_manager (\<lambda>_. 0) addr)"
  unfolding new_io_manager_def
  by (rule contextResize_grow) (auto simp: total_pending_def fresh_addr_def)

subsection \<open>The operations on a well-formed manager\<close>

definition registration :: "nat \<Rightarrow> faddr \<Rightarrow> 'f option \<Rightarrow> 'f event_context" where
  "registration s f cb =
    \<lparr>ec_scheduler = Some s, ec_fiber = (if cb = None then Some f else None), ec_func = cb\<rparr>"

lemma registration_facts [simp]:
  "slot_ok True (registration s f cb)"
  "task_of (registration s f cb) = (s, (if cb = None then Some f else None), cb)"
  by (auto simp: registration_def slot_ok_def task_of_def)

definition with_event :: "'f fd_context \<Rightarrow> u32 \<Rightarrow> 'f event_context \<Rightarrow> 'f fd_context" where
  "with_event c event x = putContext (c\<lparr>fx_curEvents := fx_curEvents c OR event\<rparr>) event x"

definition without_event :: "'f fd_context \<Rightarrow> u32 \<Rightarrow> 'f fd_context" where
  "without_event c event = putContext (c\<lparr>fx_curEvents := fx_curEvents c AND NOT event\<rparr>) event empty_context"

lemma with_event_facts [simp]:
  "fx_fd (with_event c event x) = fx_fd c" "fx_curEvents (with_event c event x) = fx_curEvents c OR event"
  "fx_fd (without_event c event) = fx_fd c"
  "fx_curEvents (without_event c event) = fx_curEvents c AND NOT event"
  by (simp_all add: with_event_def without_event_def)

lemma event_or_nonzero: "event = EV_READ \<or> event = EV_WRITE \<Longrightarrow> w OR event \<noteq> 0"
  by (auto simp: io_bits or_eq_0_iff)

lemma addEvent_set_eval:
  assumes "io_heap io p = Some c" "ctx_ok c" "fx_fd c = fd"
    and ev: "event = EV_READ \<or> event = EV_WRITE" and cur: "cb = None \<Longrightarrow> snd cur = EXEC"
  shows "addEvent_set fails (Some s) cur io fd p event cb =
    (if fx_curEvents c AND event \<noteq> 0 then Inl IoAssert
     else if fails then Inr (- 1, io)
     else Inr (0, commit io p (with_event c event (registration s (fst cur) cb)) (io_pendingEventCount io + 1)))"
proof (cases "fx_curEvents c AND event = 0 \<and> \<not> fails")
  case True
  with set_event_ok(3) [OF assms(2) ev _ registration_facts(1)] have
    g: "getContext (c\<lparr>fx_curEvents := fx_curEvents c OR event\<rparr>) event = Inr empty_context"
    by simp
  show ?thesis
  proof (cases cb)
    case None
    with True g assms(1,3) cur event_or_nonzero [OF ev] show ?thesis
      by (simp add: addEvent_set_def ctx_def io_assert_def epoll_ctl_def Let_def commit_def interest_def
          registration_def empty_context_def with_event_def)
  next
    case (Some f)
    with True g assms(1,3) event_or_nonzero [OF ev] show ?thesis
      by (simp add: addEvent_set_def ctx_def io_assert_def epoll_ctl_def Let_def commit_def interest_def
          registration_def empty_context_def with_event_def)
  qed
next
  case False
  with assms(1) show ?thesis
    by (auto simp: addEvent_set_def ctx_def io_assert_def epoll_ctl_def Let_def)
qed

text \<open>The table and the context in which \<open>addEvent\<close> registers: the table grows for a new descriptor.\<close>

definition table_for :: "(nat \<Rightarrow> nat) \<Rightarrow> int \<Rightarrow> 'f io_manager \<Rightarrow> 'f io_manager" where
  "table_for addr fd io =
    (if fd < int (length (io_fdContexts io)) then io else contextResize (\<lambda>_. 0) addr (nat (fd * 3 div 2)) io)"

lemma contextResize_length [simp]: "length (io_fdContexts (contextResize junk addr n io)) = n"
  by (simp add: contextResize_def Let_def)

lemma table_for_ok:
  assumes "io_ok io" "fresh_addr addr io"
  shows "io_ok (table_for addr fd io)" "fd < int (length (io_fdContexts (table_for addr fd io)))"
proof -
  have big: "length (io_fdContexts io) \<le> nat (fd * 3 div 2)" "32 \<le> nat (fd * 3 div 2)" "fd < fd * 3 div 2"
    if "\<not> fd < int (length (io_fdContexts io))"
    using that assms(1) by (auto simp: io_ok_def)
  show "io_ok (table_for addr fd io)"
    using assms big by (auto simp: table_for_def intro!: contextResize_ok)
  show "fd < int (length (io_fdContexts (table_for addr fd io)))"
    using big by (auto simp: table_for_def)
qed

lemma addEvent_unfold:
  assumes "io_ok io" "fresh_addr addr io" "0 \<le> fd"
  shows "addEvent fails this cur (\<lambda>_. 0) addr io fd event cb =
    addEvent_set fails this cur (table_for addr fd io) fd (io_fdContexts (table_for addr fd io) ! nat fd) event cb"
proof -
  have "context_at (table_for addr fd io) fd = Inr (io_fdContexts (table_for addr fd io) ! nat fd)"
    using table_for_ok(2) [OF assms(1,2)] assms(3) by (auto simp: context_at_def nat_less_iff)
  then show ?thesis
    by (auto simp: addEvent_def addEvent_find_def addEvent_grow_def table_for_def Let_def)
qed

lemma pending_bound:
  "io_ok io \<Longrightarrow> io_heap io p = Some c \<Longrightarrow> npend c \<le> io_pendingEventCount io"
  by (auto simp: io_ok_def npend_le_total)

lemma resetContext_empty [simp]: "resetContext x = empty_context"
  by (simp add: resetContext_def empty_context_def)

lemma triggerEvent_without:
  assumes "ctx_ok c" "event = EV_READ \<or> event = EV_WRITE"
  shows "triggerEvent c event =
    (if fx_curEvents c AND event = 0 then Inl IoAssert
     else Inr (without_event c event, task_of (slot c event)))"
  using assms triggerEvent_eval [OF assms]
  by (auto simp: without_event_def triggerEvent_def io_assert_def)

lemma without_event_ok:
  assumes "ctx_ok c" "event = EV_READ \<or> event = EV_WRITE"
  shows "ctx_ok (without_event c event)"
    and "npend c = npend (without_event c event) + (if fx_curEvents c AND event = 0 then 0 else 1)"
proof -
  show "ctx_ok (without_event c event)" using assms by (simp add: without_event_def put_empty_ok)
  show "npend c = npend (without_event c event) + (if fx_curEvents c AND event = 0 then 0 else 1)"
    using assms(1)
    by (cases rule: ctx_ok_cases; use assms(2) in \<open>auto simp: npend_def without_event_def putContext_def io_bits\<close>)
qed

lemma find_context_entry:
  assumes "io_ok io" "i < length (io_fdContexts io)"
  shows "find_context io (int i) = Inr (Some (io_fdContexts io ! i))"
  using assms by (simp add: find_context_def context_at_def)

lemma delEvent_eval:
  assumes "io_ok io" "i < length (io_fdContexts io)" "p = io_fdContexts io ! i" "io_heap io p = Some c"
    "ctx_ok c" "fx_fd c = int i" and ev: "event = EV_READ \<or> event = EV_WRITE"
  shows "delEvent fails io (int i) event =
    (if fx_curEvents c AND event = 0 \<or> fails then Inr (False, io)
     else Inr (True, commit io p (without_event c event) (io_pendingEventCount io - 1)))"
proof (cases "fx_curEvents c AND event = 0 \<or> fails")
  case True
  with find_context_entry [OF assms(1,2)] assms(3-6) show ?thesis
    by (auto simp: delEvent_def ctx_def epoll_ctl_def Let_def)
next
  case False
  with without_event_ok(2) [OF assms(5) ev] pending_bound [OF assms(1,4)]
  have n: "1 \<le> io_pendingEventCount io" by simp
  have g: "getContext (c\<lparr>fx_curEvents := fx_curEvents c AND NOT event\<rparr>) event = Inr (slot c event)"
    using ev by (auto simp: getContext_def slot_def io_bits)
  from False n g find_context_entry [OF assms(1,2)] assms(3-6) show ?thesis
    by (auto simp: delEvent_def ctx_def epoll_ctl_def Let_def commit_def interest_def without_event_def)
qed

lemma cancelEvent_eval:
  assumes "io_ok io" "i < length (io_fdContexts io)" "p = io_fdContexts io ! i" "io_heap io p = Some c"
    "ctx_ok c" "fx_fd c = int i" and ev: "event = EV_READ \<or> event = EV_WRITE"
  shows "cancelEvent fails io (int i) event =
    (if fx_curEvents c AND event = 0 \<or> fails then Inr (False, io, [])
     else Inr (True, commit io p (without_event c event) (io_pendingEventCount io - 1), [task_of (slot c event)]))"
proof (cases "fx_curEvents c AND event = 0 \<or> fails")
  case True
  with find_context_entry [OF assms(1,2)] assms(3-6) show ?thesis
    by (auto simp: cancelEvent_def ctx_def epoll_ctl_def Let_def)
next
  case False
  with without_event_ok(2) [OF assms(5) ev] pending_bound [OF assms(1,4)]
  have n: "1 \<le> io_pendingEventCount io" by simp
  from False n find_context_entry [OF assms(1,2)] assms(3-6) show ?thesis
    by (auto simp: cancelEvent_def ctx_def epoll_ctl_def Let_def commit_def interest_def
        triggerEvent_without [OF assms(5) ev])
qed

lemma trigger_if_eval:
  assumes "io_heap io p = Some c" "ctx_ok c" "event = EV_READ \<or> event = EV_WRITE"
  shows "trigger_if b event p (io, out) =
    (if \<not> b then Inr (io, out) else if fx_curEvents c AND event = 0 then Inl IoAssert
     else Inr (io\<lparr>io_heap := (io_heap io)(p \<mapsto> without_event c event),
                  io_pendingEventCount := usub64 (io_pendingEventCount io) 1\<rparr>, out @ [task_of (slot c event)]))"
  using assms by (auto simp: trigger_if_def ctx_def triggerEvent_without)

definition clear_events :: "'f fd_context \<Rightarrow> u32 \<Rightarrow> 'f fd_context" where
  "clear_events c w =
    (let c = (if w AND EV_READ \<noteq> 0 then without_event c EV_READ else c)
     in if w AND EV_WRITE \<noteq> 0 then without_event c EV_WRITE else c)"

definition tasks :: "'f fd_context \<Rightarrow> u32 \<Rightarrow> 'f scheduled list" where
  "tasks c w = (if w AND EV_READ \<noteq> 0 then [task_of (fx_read c)] else []) @
               (if w AND EV_WRITE \<noteq> 0 then [task_of (fx_write c)] else [])"

lemma clear_events_ok: "ctx_ok c \<Longrightarrow> ctx_ok (clear_events c w)"
  by (simp add: clear_events_def without_event_ok Let_def)

lemma clear_events_fd [simp]: "fx_fd (clear_events c w) = fx_fd c"
  by (simp add: clear_events_def Let_def)

lemma slot_select [simp]: "slot (without_event c EV_READ) EV_WRITE = fx_write c"
  "slot c EV_READ = fx_read c" "slot c EV_WRITE = fx_write c"
  "slot c 1 = fx_read c" "slot c 4 = fx_write c"
  by (simp_all add: slot_def without_event_def putContext_def io_bits)

lemma write_without_read [simp]:
  "fx_write (without_event c EV_READ) = fx_write c" "fx_write (without_event c 1) = fx_write c"
  by (simp_all add: without_event_def putContext_def io_bits)

lemma clear_events_cur:
  assumes "ctx_ok c" "w \<in> {0, 1, 4, 5}"
  shows "fx_curEvents (clear_events c w) = fx_curEvents c AND NOT w"
  using assms(1) by (cases rule: ctx_ok_cases; use assms(2) in \<open>auto simp: clear_events_def Let_def io_bits\<close>)

lemma same_heap: "io_heap io p = Some c \<Longrightarrow> io\<lparr>io_heap := (io_heap io)(p \<mapsto> c)\<rparr> = io"
  by (cases io) (auto simp: fun_upd_idem)

lemma clear_events_npend:
  assumes "ctx_ok c" "w \<in> {0, 1, 4, 5}" "w AND NOT (fx_curEvents c) = 0"
  shows "npend c = npend (clear_events c w) + length (tasks c w)"
  using assms(1)
  by (cases rule: ctx_ok_cases; use assms(2,3) in
      \<open>auto simp: npend_def clear_events_def without_event_def putContext_def tasks_def io_bits\<close>)

lemma trigger_both:
  assumes c: "io_heap io p = Some c" "ctx_ok c" and n: "npend c \<le> io_pendingEventCount io"
    and w: "w \<in> {0, 1, 4, 5}"
  shows "bindR (trigger_if (w AND EV_READ \<noteq> 0) EV_READ p (io, out)) (trigger_if (w AND EV_WRITE \<noteq> 0) EV_WRITE p) =
    (if w AND NOT (fx_curEvents c) = 0
     then Inr (io\<lparr>io_heap := (io_heap io)(p \<mapsto> clear_events c w),
                  io_pendingEventCount := io_pendingEventCount io - length (tasks c w)\<rparr>, out @ tasks c w)
     else Inl IoAssert)"
proof -
  have ok1: "ctx_ok (without_event c EV_READ)" using c(2) by (simp add: without_event_ok)
  have cur: "fx_curEvents c \<in> {0, 1, 4, 5}" using c(2) by (simp add: ctx_ok_def)
  have sub: "w AND NOT (fx_curEvents c) = 0 \<longleftrightarrow>
      (w AND EV_READ \<noteq> 0 \<longrightarrow> fx_curEvents c AND EV_READ \<noteq> 0) \<and>
      (w AND EV_WRITE \<noteq> 0 \<longrightarrow> fx_curEvents c AND EV_WRITE \<noteq> 0)"
    using w cur by (auto simp: io_bits)
  have still: "(fx_curEvents c AND NOT EV_READ) AND EV_WRITE = fx_curEvents c AND EV_WRITE"
    using cur by (auto simp: io_bits)
  have n1: "fx_curEvents c AND EV_READ \<noteq> 0 \<Longrightarrow> 1 \<le> io_pendingEventCount io"
    "fx_curEvents c AND EV_WRITE \<noteq> 0 \<Longrightarrow> 1 \<le> io_pendingEventCount io"
    "fx_curEvents c AND EV_READ \<noteq> 0 \<Longrightarrow> fx_curEvents c AND EV_WRITE \<noteq> 0 \<Longrightarrow>
      2 \<le> io_pendingEventCount io"
    using n by (simp_all add: npend_def)
  note ev = trigger_if_eval [OF c] trigger_if_eval [OF _ ok1]
  consider "w AND EV_READ = 0" | "w AND EV_READ \<noteq> 0" "fx_curEvents c AND EV_READ = 0"
    | "w AND EV_READ \<noteq> 0" "fx_curEvents c AND EV_READ \<noteq> 0" by blast
  then show ?thesis
  proof cases
    case 1
    with n1(2) show ?thesis
      by (cases "w AND EV_WRITE = 0"; cases "fx_curEvents c AND EV_WRITE = 0")
        (simp_all add: ev sub tasks_def clear_events_def same_heap c(1))
  next
    case 2
    then show ?thesis by (simp add: ev sub)
  next
    case 3
    with n1 show ?thesis
      by (cases "w AND EV_WRITE = 0"; cases "fx_curEvents c AND EV_WRITE = 0")
        (simp_all add: ev sub still tasks_def clear_events_def)
  qed
qed

lemma ctx_ok_cur: "ctx_ok c \<Longrightarrow> fx_curEvents c \<in> {0, 1, 4, 5}"
  by (simp add: ctx_ok_def)

lemma cancelAll_eval:
  assumes "io_ok io" "i < length (io_fdContexts io)" "p = io_fdContexts io ! i" "io_heap io p = Some c"
    "ctx_ok c" "fx_fd c = int i"
  shows "cancelAll fails io (int i) =
    (if fx_curEvents c = 0 \<or> fails then Inr (False, io, [])
     else Inr (True, commit io p (clear_events c (fx_curEvents c)) (io_pendingEventCount io - npend c),
            tasks c (fx_curEvents c)))"
proof (cases "fx_curEvents c = 0 \<or> fails")
  case True
  with find_context_entry [OF assms(1,2)] assms(3-6) show ?thesis
    by (auto simp: cancelAll_def ctx_def epoll_ctl_def Let_def)
next
  case False
  have ok1: "ctx_ok (without_event c EV_READ)" using assms(5) by (simp add: without_event_ok)
  note ev = trigger_if_eval [OF _ assms(5)] trigger_if_eval [OF _ ok1]
  have n: "npend c \<le> io_pendingEventCount io" by (rule pending_bound [OF assms(1,4)])
  have e: "cancelAll fails io (int i) =
      bindR (trigger_if (fx_curEvents c AND EV_READ \<noteq> 0) EV_READ p (epoll_ctl fails EPOLL_CTL_DEL (int i) 0 p io, [])) (\<lambda>s.
          bindR (ctx (fst s) p) (\<lambda>c.
          bindR (trigger_if (fx_curEvents c AND EV_WRITE \<noteq> 0) EV_WRITE p s) (\<lambda>s.
          bindR (ctx (fst s) p) (\<lambda>c.
          bindR (io_assert (fx_curEvents c = 0)) (\<lambda>_. Inr (True, s))))))"
    using False find_context_entry [OF assms(1,2)] assms(3-6)
    by (simp add: cancelAll_def ctx_def Let_def epoll_ctl_def)
  have i: "fx_curEvents (without_event c EV_READ) AND EV_WRITE = fx_curEvents c AND EV_WRITE"
    using ctx_ok_cur [OF assms(5)] by (auto simp: io_bits)
  show ?thesis using assms(5)
  proof (cases rule: ctx_ok_cases)
    case 2
    with False n assms(4) show ?thesis unfolding e
      by (simp add: ev ctx_def epoll_ctl_def io_bits clear_events_def tasks_def npend_def io_assert_def
          commit_def interest_def assms(6))
  next
    case 3
    with False n assms(4) show ?thesis unfolding e
      by (simp add: ev ctx_def epoll_ctl_def io_bits clear_events_def tasks_def npend_def io_assert_def
          commit_def interest_def assms(6))
  next
    case 4
    with False n assms(4) show ?thesis unfolding e
      by (simp add: ev ctx_def epoll_ctl_def io_bits clear_events_def tasks_def npend_def io_assert_def
          commit_def interest_def assms(6))
  qed (use False in simp)
qed

text \<open>The events a report stands for.\<close>

definition reported :: "u32 \<Rightarrow> u32 \<Rightarrow> u32" where
  "reported events cur =
    (let events = (if events AND (EPOLLERR OR EPOLLHUP) \<noteq> 0 then events OR ((EPOLLIN OR EPOLLOUT) AND cur) else events)
     in (if events AND EPOLLIN \<noteq> 0 then EV_READ else 0) OR (if events AND EPOLLOUT \<noteq> 0 then EV_WRITE else 0))"

lemma reported_range: "reported events cur \<in> {0, 1, 4, 5}"
  by (auto simp: reported_def io_bits Let_def)

lemma process_event_eval:
  assumes "io_ok io" "i < length (io_fdContexts io)" "p = io_fdContexts io ! i" "io_heap io p = Some c"
    "ctx_ok c" "fx_fd c = int i"
  shows "process_event fails events p (io, out) =
    (if fx_curEvents c AND reported events (fx_curEvents c) = 0 \<or> fails then Inr (io, out)
     else if reported events (fx_curEvents c) AND NOT (fx_curEvents c) = 0
     then Inr (commit io p (clear_events c (reported events (fx_curEvents c)))
                 (io_pendingEventCount io - length (tasks c (reported events (fx_curEvents c)))),
               out @ tasks c (reported events (fx_curEvents c)))
     else Inl IoAssert)"
proof -
  define w where "w = reported events (fx_curEvents c)"
  have w: "w \<in> {0, 1, 4, 5}" unfolding w_def by (rule reported_range)
  let ?l = "fx_curEvents c AND NOT w"
  let ?io = "epoll_ctl fails (if ?l \<noteq> 0 then EPOLL_CTL_MOD else EPOLL_CTL_DEL) (fx_fd c) (EPOLLET OR ?l) p io"
  have e: "process_event fails events p (io, out) =
      (if fx_curEvents c AND w = 0 then Inr (io, out)
       else if fails then Inr (?io, out)
       else bindR (trigger_if (w AND EV_READ \<noteq> 0) EV_READ p (?io, out)) (trigger_if (w AND EV_WRITE \<noteq> 0) EV_WRITE p))"
    using assms(4) by (simp add: process_event_def ctx_def Let_def w_def reported_def EV_NONE_def)
  have n: "npend c \<le> io_pendingEventCount ?io" "io_heap ?io p = Some c"
    using pending_bound [OF assms(1,4)] assms(4) by (simp_all add: epoll_ctl_def)
  show ?thesis
    unfolding e trigger_both [OF n(2) assms(5) n(1) w] w_def [symmetric]
    using clear_events_cur [OF assms(5) w]
    by (simp add: epoll_ctl_def commit_def interest_def assms(6))
qed

subsection \<open>Reachable managers\<close>

text \<open>
  What any number of threads can do to a manager, one lock section at a time. A state is the manager,
  the contexts that calls of \<open>addEvent\<close> in progress have looked up and the descriptors for which
  they found no context; the sets only grow, so a section may run at any later time, and as often as
  there are calls. Two things are left out. A new context starts with \<open>curEvents = 0\<close>, which the
  code leaves to the memory \<open>new\<close> returns: see \<open>unclean_memory_aborts\<close>. And a section that grows
  the table never makes it shorter: see \<open>concurrent_growth_drops_context\<close>. The thread that
  registers runs a fiber of a scheduler.
\<close>

inductive io_run :: "'f io_manager \<times> (int \<times> nat) set \<times> int set \<Rightarrow> bool" where
  created: "inj addr \<Longrightarrow> io_run (new_io_manager (\<lambda>_. 0) addr, {}, {})"
| seen: "io_run (io, F, G) \<Longrightarrow> 0 \<le> fd \<Longrightarrow> addEvent_find io fd = Inr (Some p) \<Longrightarrow> io_run (io, insert (fd, p) F, G)"
| not_seen: "io_run (io, F, G) \<Longrightarrow> 0 \<le> fd \<Longrightarrow> addEvent_find io fd = Inr None \<Longrightarrow> io_run (io, F, insert fd G)"
| grown: "io_run (io, F, G) \<Longrightarrow> fd \<in> G \<Longrightarrow> fresh_addr addr io \<Longrightarrow>
    length (io_fdContexts io) \<le> nat (fd * 3 div 2) \<Longrightarrow>
    addEvent_grow (\<lambda>_. 0) addr io fd = Inr (p, io') \<Longrightarrow> io_run (io', insert (fd, p) F, G)"
| registered: "io_run (io, F, G) \<Longrightarrow> (fd, p) \<in> F \<Longrightarrow> event \<in> {EV_READ, EV_WRITE} \<Longrightarrow>
    addEvent_set fails (Some s) (f, EXEC) io fd p event cb = Inr (r, io') \<Longrightarrow> io_run (io', F, G)"
| deleted: "io_run (io, F, G) \<Longrightarrow> event \<in> {EV_READ, EV_WRITE} \<Longrightarrow>
    delEvent fails io fd event = Inr (r, io') \<Longrightarrow> io_run (io', F, G)"
| cancelled: "io_run (io, F, G) \<Longrightarrow> event \<in> {EV_READ, EV_WRITE} \<Longrightarrow>
    cancelEvent fails io fd event = Inr (r, io', out) \<Longrightarrow> io_run (io', F, G)"
| all_cancelled: "io_run (io, F, G) \<Longrightarrow> cancelAll fails io fd = Inr (r, io', out) \<Longrightarrow> io_run (io', F, G)"
| dispatched: "io_run (io, F, G) \<Longrightarrow> p \<in> set (io_fdContexts io) \<Longrightarrow>
    process_event fails events p (io, out) = Inr (io', out') \<Longrightarrow> io_run (io', F, G)"

definition io_reachable :: "'f io_manager \<Rightarrow> bool" where
  "io_reachable io \<longleftrightarrow> (\<exists>F G. io_run (io, F, G))"

lemma with_event_ok:
  assumes "ctx_ok c" "event = EV_READ \<or> event = EV_WRITE" "fx_curEvents c AND event = 0" "slot_ok True x"
  shows "ctx_ok (with_event c event x)" "npend (with_event c event x) = Suc (npend c)"
  using set_event_ok(1,2) [OF assms] by (simp_all add: with_event_def)

lemma commit_table [simp]: "io_fdContexts (commit io p c n) = io_fdContexts io"
  by (simp add: commit_def)

lemma addEvent_set_ok:
  assumes ok: "io_ok io" and ev: "event = EV_READ \<or> event = EV_WRITE" and p: "context_at io fd = Inr p"
    and a: "addEvent_set fails (Some s) (f, EXEC) io fd p event cb = Inr (r, io')"
  shows "io_ok io' \<and> io_fdContexts io' = io_fdContexts io"
proof -
  from context_at_Inr [OF ok p] obtain i c where
    i: "fd = int i" "i < length (io_fdContexts io)" "p = io_fdContexts io ! i" and
    c: "io_heap io p = Some c" "ctx_ok c" "fx_fd c = int i" by metis
  note e = addEvent_set_eval [OF c ev, of cb "(f, EXEC)" fails s, simplified]
  show ?thesis
  proof (cases "fx_curEvents c AND event \<noteq> 0 \<or> fails")
    case True
    with a ok show ?thesis by (auto simp: e i(1) split: if_splits)
  next
    case False
    with a have io': "io' = commit io p (with_event c event (registration s f cb)) (io_pendingEventCount io + 1)"
      by (simp add: e i(1))
    have "io_ok io'" unfolding io'
      by (rule commit_ok [OF ok i(2,3) c(1)]; use False with_event_ok [OF c(2) ev] in simp)
    then show ?thesis by (simp add: io')
  qed
qed

lemma context_at_table:
  "0 \<le> fd \<Longrightarrow> fd < int (length (io_fdContexts io)) \<Longrightarrow> context_at io fd = Inr (io_fdContexts io ! nat fd)"
  by (auto simp: context_at_def nat_less_iff)

lemma addEvent_ok:
  assumes "io_ok io" "fresh_addr addr io" "event = EV_READ \<or> event = EV_WRITE" "0 \<le> fd"
    "addEvent fails (Some s) (f, EXEC) (\<lambda>_. 0) addr io fd event cb = Inr (r, io')"
  shows "io_ok io'"
proof -
  note t = table_for_ok [OF assms(1,2), of fd]
  have a: "addEvent_set fails (Some s) (f, EXEC) (table_for addr fd io) fd
      (io_fdContexts (table_for addr fd io) ! nat fd) event cb = Inr (r, io')"
    using assms(5) addEvent_unfold [OF assms(1,2,4)] by simp
  show ?thesis
    using addEvent_set_ok [OF t(1) assms(3) context_at_table [OF assms(4) t(2)] a] by simp
qed

lemma addEvent_grow_ok:
  assumes "io_ok io" "fresh_addr addr io" "length (io_fdContexts io) \<le> nat (fd * 3 div 2)"
    "addEvent_grow (\<lambda>_. 0) addr io fd = Inr (p, io')"
  shows "io_ok io'" "context_at io' fd = Inr p"
    "\<And>fd q. context_at io fd = Inr q \<Longrightarrow> context_at io' fd = Inr q"
proof -
  from assms(4) have io': "io' = contextResize (\<lambda>_. 0) addr (nat (fd * 3 div 2)) io"
    and p: "context_at io' fd = Inr p"
    by (auto simp: addEvent_grow_def bindR_eq_Inr Let_def)
  show "io_ok io'" unfolding io' using assms by (intro contextResize_ok)
  show "context_at io' fd = Inr p" by (fact p)
  show "context_at io' fd = Inr q" if "context_at io fd = Inr q" for fd q
    using that assms(3)
    by (auto simp: context_at_def io' contextResize_def Let_def nth_append split: if_splits)
qed

lemma lookup_Inr:
  assumes "io_ok io" "find_context io fd = Inr (Some p)"
  obtains i c where "fd = int i" "i < length (io_fdContexts io)" "p = io_fdContexts io ! i"
    "io_heap io p = Some c" "ctx_ok c" "fx_fd c = int i"
proof -
  from assms(2) have "context_at io fd = Inr p"
    by (auto simp: find_context_def bindR_eq_Inr split: if_splits)
  then show ?thesis by (rule context_at_Inr [OF assms(1)]) (rule that)
qed

lemma delEvent_ok:
  assumes "io_ok io" "event = EV_READ \<or> event = EV_WRITE" "delEvent fails io fd event = Inr (r, io')"
  shows "io_ok io' \<and> io_fdContexts io' = io_fdContexts io"
proof -
  from assms(3) obtain q where q: "find_context io fd = Inr q" by (auto simp: delEvent_def bindR_eq_Inr)
  show ?thesis
  proof (cases q)
    case None
    with q assms show ?thesis by (simp add: delEvent_def)
  next
    case (Some p)
    from lookup_Inr [OF assms(1) q [unfolded Some]] obtain i c where
      i: "fd = int i" "i < length (io_fdContexts io)" "p = io_fdContexts io ! i"
        "io_heap io p = Some c" "ctx_ok c" "fx_fd c = int i" .
    note e = delEvent_eval [OF assms(1) i(2-6) assms(2), of fails]
    note n = without_event_ok [OF i(5) assms(2)] pending_bound [OF assms(1) i(4)]
    show ?thesis
    proof (cases "fx_curEvents c AND event = 0 \<or> fails")
      case False
      with assms(3) e i(1) have "io' = commit io p (without_event c event) (io_pendingEventCount io - 1)"
        by simp
      moreover have "io_ok (commit io p (without_event c event) (io_pendingEventCount io - 1))"
        by (rule commit_ok [OF assms(1) i(2-4)]; use False n in simp)
      ultimately show ?thesis by simp
    qed (use assms e i(1) in simp)
  qed
qed

lemma cancelEvent_ok:
  assumes "io_ok io" "event = EV_READ \<or> event = EV_WRITE" "cancelEvent fails io fd event = Inr (r, io', out)"
  shows "io_ok io' \<and> io_fdContexts io' = io_fdContexts io"
proof -
  have "delEvent fails io fd event = Inr (r, io')"
  proof -
    from assms(3) obtain q where q: "find_context io fd = Inr q" by (auto simp: cancelEvent_def bindR_eq_Inr)
    show ?thesis
    proof (cases q)
      case None
      with q assms show ?thesis by (simp add: delEvent_def cancelEvent_def)
    next
      case (Some p)
      from lookup_Inr [OF assms(1) q [unfolded Some]] obtain i c where
        i: "fd = int i" "i < length (io_fdContexts io)" "p = io_fdContexts io ! i"
          "io_heap io p = Some c" "ctx_ok c" "fx_fd c = int i" .
      show ?thesis using assms(3) delEvent_eval [OF assms(1) i(2-6) assms(2), of fails]
          cancelEvent_eval [OF assms(1) i(2-6) assms(2), of fails] i(1) by (simp split: if_splits)
    qed
  qed
  with assms(1,2) show ?thesis by (rule delEvent_ok)
qed

lemma cancelAll_ok:
  assumes "io_ok io" "cancelAll fails io fd = Inr (r, io', out)"
  shows "io_ok io' \<and> io_fdContexts io' = io_fdContexts io"
proof -
  from assms(2) obtain q where q: "find_context io fd = Inr q" by (auto simp: cancelAll_def bindR_eq_Inr)
  show ?thesis
  proof (cases q)
    case None
    with q assms show ?thesis by (simp add: cancelAll_def)
  next
    case (Some p)
    from lookup_Inr [OF assms(1) q [unfolded Some]] obtain i c where
      i: "fd = int i" "i < length (io_fdContexts io)" "p = io_fdContexts io ! i"
        "io_heap io p = Some c" "ctx_ok c" "fx_fd c = int i" .
    let ?w = "fx_curEvents c"
    note e = cancelAll_eval [OF assms(1) i(2-6), of fails]
    have z: "npend (clear_events c ?w) = 0"
      using clear_events_cur [OF i(5) ctx_ok_cur [OF i(5)]] by (simp add: npend_def)
    show ?thesis
    proof (cases "?w = 0 \<or> fails")
      case False
      with assms(2) e i(1) have "io' = commit io p (clear_events c ?w) (io_pendingEventCount io - npend c)"
        by simp
      moreover have "io_ok (commit io p (clear_events c ?w) (io_pendingEventCount io - npend c))"
        by (rule commit_ok [OF assms(1) i(2-4)];
            use z pending_bound [OF assms(1) i(4)] in \<open>simp add: clear_events_ok i(5)\<close>)
      ultimately show ?thesis by simp
    qed (use assms e i(1) in simp)
  qed
qed

lemma process_event_ok:
  assumes "io_ok io" "p \<in> set (io_fdContexts io)" "process_event fails events p (io, out) = Inr (io', out')"
  shows "io_ok io' \<and> io_fdContexts io' = io_fdContexts io"
proof -
  from assms(2) obtain i where i: "i < length (io_fdContexts io)" "p = io_fdContexts io ! i"
    by (auto simp: in_set_conv_nth)
  from io_ok_entry [OF assms(1), of "int i"] i obtain c where
    c: "io_heap io p = Some c" "ctx_ok c" "fx_fd c = int i" by auto
  let ?w = "reported events (fx_curEvents c)"
  note e = process_event_eval [OF assms(1) i c, of fails events out]
  show ?thesis
  proof (cases "fx_curEvents c AND ?w = 0 \<or> fails")
    case False
    with assms(3) e have w: "?w AND NOT (fx_curEvents c) = 0"
      and io': "io' = commit io p (clear_events c ?w) (io_pendingEventCount io - length (tasks c ?w))"
      by (auto split: if_splits)
    have "io_ok io'" unfolding io'
      by (rule commit_ok [OF assms(1) i c(1)];
          use clear_events_npend [OF c(2) reported_range w] pending_bound [OF assms(1) c(1)] in
            \<open>simp add: clear_events_ok c\<close>)
    then show ?thesis by (simp add: io')
  qed (use assms e in auto)
qed

text \<open>The invariant of the interleaving: what a call has looked up is still the table's entry.\<close>

lemma context_at_same: "io_fdContexts io' = io_fdContexts io \<Longrightarrow> context_at io' = context_at io"
  by (simp add: context_at_def fun_eq_iff)

lemma run_ok: "io_run S \<Longrightarrow>
    io_ok (fst S) \<and> (\<forall>(fd, p) \<in> fst (snd S). context_at (fst S) fd = Inr p)"
proof (induction rule: io_run.induct)
  case (created addr)
  then show ?case by (simp add: new_io_manager_ok)
next
  case (seen io F G fd p)
  then show ?case by (auto simp: addEvent_find_def bindR_eq_Inr split: if_splits)
next
  case (not_seen io F G fd)
  then show ?case by simp
next
  case (grown io F G fd addr p io')
  from grown.IH have ok: "io_ok io" and F: "\<forall>(fd, p) \<in> F. context_at io fd = Inr p" by simp_all
  note g = addEvent_grow_ok [OF ok grown.hyps(3-5)]
  from F g show ?case by auto
next
  case (registered io F G fd p event fails s f cb r io')
  then have "context_at io fd = Inr p" by auto
  with registered have "io_ok io' \<and> io_fdContexts io' = io_fdContexts io"
    by (intro addEvent_set_ok [of io event fd p fails s f cb r io']) auto
  with registered context_at_same [of io' io] show ?case by simp
next
  case (deleted io F G event fails fd r io')
  then have "io_ok io' \<and> io_fdContexts io' = io_fdContexts io"
    by (intro delEvent_ok [of io event fails fd r io']) auto
  with deleted context_at_same [of io' io] show ?case by simp
next
  case (cancelled io F G event fails fd r io' out)
  then have "io_ok io' \<and> io_fdContexts io' = io_fdContexts io"
    by (intro cancelEvent_ok [of io event fails fd r io' out]) auto
  with cancelled context_at_same [of io' io] show ?case by simp
next
  case (all_cancelled io F G fails fd r io' out)
  then have "io_ok io' \<and> io_fdContexts io' = io_fdContexts io"
    by (intro cancelAll_ok [of io fails fd r io' out]) auto
  with all_cancelled context_at_same [of io' io] show ?case by simp
next
  case (dispatched io F G p fails events out io' out')
  then have "io_ok io' \<and> io_fdContexts io' = io_fdContexts io"
    by (intro process_event_ok [of io p fails events out io' out']) auto
  with dispatched context_at_same [of io' io] show ?case by simp
qed

lemma reachable_ok: "io_reachable io \<Longrightarrow> io_ok io"
  using run_ok by (fastforce simp: io_reachable_def)

lemma reachable_new: "inj addr \<Longrightarrow> io_reachable (new_io_manager (\<lambda>_. 0) addr)"
  using io_run.created by (auto simp: io_reachable_def)

text \<open>A call of \<open>addEvent\<close> that no other thread interrupts is such a sequence of sections.\<close>

lemma reachable_added:
  assumes "io_reachable io" "fresh_addr addr io" "event \<in> {EV_READ, EV_WRITE}" "0 \<le> fd"
    "addEvent fails (Some s) (f, EXEC) (\<lambda>_. 0) addr io fd event cb = Inr (r, io')"
  shows "io_reachable io'"
proof -
  from assms(1) obtain F G where run: "io_run (io, F, G)" by (auto simp: io_reachable_def)
  note ok = reachable_ok [OF assms(1)]
  from assms(5) obtain q where q: "addEvent_find io fd = Inr q" by (auto simp: addEvent_def bindR_eq_Inr)
  show ?thesis
  proof (cases q)
    case (Some p)
    with assms(5) q have "addEvent_set fails (Some s) (f, EXEC) io fd p event cb = Inr (r, io')"
      by (simp add: addEvent_def)
    from io_run.registered [OF io_run.seen [OF run assms(4) q [unfolded Some]] _ assms(3) this]
    show ?thesis by (auto simp: io_reachable_def)
  next
    case None
    with assms(5) q obtain p io1 where g: "addEvent_grow (\<lambda>_. 0) addr io fd = Inr (p, io1)"
      and r: "addEvent_set fails (Some s) (f, EXEC) io1 fd p event cb = Inr (r, io')"
      by (auto simp: addEvent_def bindR_eq_Inr)
    have "int (length (io_fdContexts io)) \<le> fd" using q None
      by (auto simp: addEvent_find_def bindR_eq_Inr split: if_splits)
    then have l: "length (io_fdContexts io) \<le> nat (fd * 3 div 2)" by linarith
    from io_run.registered [OF io_run.grown [OF io_run.not_seen [OF run assms(4) q [unfolded None]] _ assms(2) l g] _ assms(3) r]
    show ?thesis by (auto simp: io_reachable_def)
  qed
qed

text \<open>
  What the assumption on the memory of new contexts is for: \<open>FdContext\<close> has no initial value for
  \<open>curEvents\<close>, and when the memory has the bit of the event set, registering it in a context the
  table just grew by fails the assertion that it is not registered yet.
\<close>

lemma unclean_memory_aborts:
  assumes "io_ok io" "fresh_addr addr io" "int (length (io_fdContexts io)) \<le> fd" "junk (nat fd) AND event \<noteq> 0"
  shows "addEvent fails this cur junk addr io fd event cb = Inl IoAssert"
proof -
  let ?n = "nat (fd * 3 div 2)" and ?l = "length (io_fdContexts io)"
  let ?io = "contextResize junk addr ?n io"
  have l: "32 \<le> ?l" using assms(1) by (simp add: io_ok_def)
  with assms(3) have fd: "0 \<le> fd" "nat fd < ?n" "?l \<le> nat fd" "?l \<le> ?n" by linarith+
  have t: "io_fdContexts ?io ! nat fd = addr (nat fd)"
    using fd(2-4) by (simp add: contextResize_def Let_def nth_append del: zless_nat_conj nat_less_iff)
  have "inj addr" using assms(2) by (simp add: fresh_addr_def)
  then have "io_heap ?io (addr (nat fd)) = Some (new_fd_context (junk (nat fd)) (nat fd))"
    using fd fold_update_new [of addr "[?l..<?n]" "nat fd" "\<lambda>i. new_fd_context (junk i) i" "io_heap io"]
    by (auto simp: contextResize_def Let_def intro: inj_on_subset)
  moreover have "context_at ?io fd = Inr (addr (nat fd))"
    using fd t by (simp add: context_at_def)
  ultimately show ?thesis using assms(3,4) fd
    by (simp add: addEvent_def addEvent_find_def addEvent_grow_def Let_def addEvent_set_def ctx_def
        new_fd_context_def io_assert_def)
qed

subsection \<open>Properties\<close>

lemma addEvent_success:
  assumes ok: "io_ok io" and fr: "fresh_addr addr io" and ev: "event = EV_READ \<or> event = EV_WRITE" and fd: "0 \<le> fd"
    and a: "addEvent False (Some s) (f, EXEC) (\<lambda>_. 0) addr io fd event cb = Inr (0, io')"
  obtains i c where "fd = int i" "io_ok io'" "i < length (io_fdContexts io')"
    "io_heap io' (io_fdContexts io' ! i) = Some c" "ctx_ok c" "fx_fd c = int i"
    "fx_curEvents c AND event \<noteq> 0" "task_of (slot c event) = (s, (if cb = None then Some f else None), cb)"
    "io_pendingEventCount io' = io_pendingEventCount io + 1"
proof -
  let ?t = "table_for addr fd io"
  note t = table_for_ok [OF ok fr, of fd]
  from io_ok_entry [OF t(1) fd t(2)] obtain i c where
    i: "fd = int i" "i < length (io_fdContexts ?t)" and
    c: "io_heap ?t (io_fdContexts ?t ! i) = Some c" "ctx_ok c" "fx_fd c = int i" by metis
  note e = addEvent_set_eval [OF c ev, of cb "(f, EXEC)" False s, simplified]
  let ?p = "io_fdContexts ?t ! i" and ?c = "with_event c event (registration s f cb)"
  have "addEvent_set False (Some s) (f, EXEC) ?t (int i) ?p event cb = Inr (0, io')"
    using a addEvent_unfold [OF ok fr fd] i(1) by simp
  then have z: "fx_curEvents c AND event = 0" and io': "io' = commit ?t ?p ?c (io_pendingEventCount ?t + 1)"
    by (auto simp: e split: if_splits)
  have "io_pendingEventCount ?t = io_pendingEventCount io"
    by (simp add: table_for_def contextResize_def Let_def)
  moreover have "slot ?c event = registration s f cb"
    using ev by (auto simp: with_event_def slot_def putContext_def io_bits)
  moreover have "fx_curEvents ?c AND event \<noteq> 0"
    using ev ctx_ok_cur [OF c(2)] by (auto simp: io_bits)
  moreover have "io_ok io'" using assms by (intro addEvent_ok [OF ok fr ev fd a])
  ultimately show ?thesis
    using i c io' with_event_ok [OF c(2) ev z, of "registration s f cb"]
    by (intro that [of i ?c]) (simp_all add: commit_def)
qed

lemma commit_fields [simp]:
  "io_heap (commit io p c n) p = Some c"
  "io_pendingEventCount (commit io p c n) = n"
  by (simp_all add: commit_def)

definition io_contexts_ok :: "'f io_manager \<Rightarrow> bool" where
  "io_contexts_ok io \<longleftrightarrow>
     (\<forall>i < length (io_fdContexts io). \<exists>c. io_heap io (io_fdContexts io ! i) = Some c \<and> fx_fd c = int i \<and>
        (fx_curEvents c AND EV_READ \<noteq> 0 \<longleftrightarrow> ec_scheduler (fx_read c) \<noteq> None) \<and>
        (fx_curEvents c AND EV_WRITE \<noteq> 0 \<longleftrightarrow> ec_scheduler (fx_write c) \<noteq> None) \<and>
        io_epoll io (int i) =
          (if fx_curEvents c = 0 then None else Some (EPOLLET OR fx_curEvents c, io_fdContexts io ! i)))"

lemma contexts_ok: "io_ok io \<Longrightarrow> io_contexts_ok io"
  unfolding io_contexts_ok_def
proof (intro allI impI)
  fix i assume ok: "io_ok io" and "i < length (io_fdContexts io)"
  with ok obtain c where c: "io_heap io (io_fdContexts io ! i) = Some c" "fx_fd c = int i"
    "io_epoll io (int i) = interest c (io_fdContexts io ! i)" "ctx_ok c"
    unfolding io_ok_def by blast
  from c(4) have "(fx_curEvents c AND EV_READ \<noteq> 0 \<longleftrightarrow> ec_scheduler (fx_read c) \<noteq> None) \<and>
    (fx_curEvents c AND EV_WRITE \<noteq> 0 \<longleftrightarrow> ec_scheduler (fx_write c) \<noteq> None)"
    by (auto simp: ctx_ok_def slot_ok_def empty_context_def split: if_splits)
  with c show "\<exists>c. io_heap io (io_fdContexts io ! i) = Some c \<and> fx_fd c = int i \<and>
      (fx_curEvents c AND EV_READ \<noteq> 0 \<longleftrightarrow> ec_scheduler (fx_read c) \<noteq> None) \<and>
      (fx_curEvents c AND EV_WRITE \<noteq> 0 \<longleftrightarrow> ec_scheduler (fx_write c) \<noteq> None) \<and>
      io_epoll io (int i) =
        (if fx_curEvents c = 0 then None else Some (EPOLLET OR fx_curEvents c, io_fdContexts io ! i))"
    by (auto simp: interest_def)
qed



text \<open>
  A task registered with \<open>addEvent\<close>, the callback or else the calling fiber, is handed to its
  scheduler exactly once: cancelling the event returns it and restores the pending count, and a
  second cancel finds nothing.
\<close>
lemma cancel_delivers_once:
  assumes "io_reachable io" "fresh_addr addr io" "event = EV_READ \<or> event = EV_WRITE" "0 \<le> fd"
    and "addEvent False (Some s) (f, EXEC) (\<lambda>_. 0) addr io fd event cb = Inr (0, io')"
  shows "\<exists>io''. cancelEvent False io' fd event =
        Inr (True, io'', [(s, (if cb = None then Some f else None), cb)]) \<and>
      io_pendingEventCount io'' = io_pendingEventCount io \<and> cancelEvent False io'' fd event = Inr (False, io'', [])"
proof -
  from addEvent_success [OF reachable_ok [OF assms(1)] assms(2-5)] obtain i c where
    i: "fd = int i" "io_ok io'" "i < length (io_fdContexts io')" and
    c: "io_heap io' (io_fdContexts io' ! i) = Some c" "ctx_ok c" "fx_fd c = int i" and
    r: "fx_curEvents c AND event \<noteq> 0" "task_of (slot c event) = (s, (if cb = None then Some f else None), cb)"
      "io_pendingEventCount io' = io_pendingEventCount io + 1" .
  let ?c = "without_event c event" and ?p = "io_fdContexts io' ! i"
  let ?io = "commit io' ?p ?c (io_pendingEventCount io' - 1)"
  note w = without_event_ok [OF c(2) assms(3)]
  have 1: "cancelEvent False io' fd event = Inr (True, ?io, [task_of (slot c event)])"
    unfolding i(1) using cancelEvent_eval [OF i(2,3) refl c assms(3), of False] r(1) by simp
  have ok: "io_ok ?io"
    by (rule commit_ok [OF i(2,3) refl c(1)]; use w r c pending_bound [OF i(2) c(1)] in simp)
  have "cancelEvent False ?io fd event = Inr (False, ?io, [])"
    unfolding i(1)
    by (subst cancelEvent_eval [OF ok, of i ?p ?c event]) (use i c w(1) assms(3) in \<open>auto simp: and.assoc\<close>)
  with 1 r show ?thesis by (intro exI [of _ ?io]) simp
qed

lemma reported_error:
  assumes e: "events AND (EPOLLERR OR EPOLLHUP) \<noteq> 0" and s: "(events AND (EPOLLIN OR EPOLLOUT)) AND NOT cur = 0"
    and c: "cur \<in> {0, 1, 4, 5}"
  shows "reported events cur = cur"
proof -
  have b: "(x OR (5 AND y)) AND 1 = (x AND 1) OR (y AND 1)"
    "(x OR (5 AND y)) AND 4 = (x AND 4) OR (y AND 4)" for x y :: u32
    by (simp_all add: bit.conj_disj_distrib2 and.assoc and.left_commute)
  have 1: "events AND 1 = ((events AND 5) AND NOT cur) AND 1" if "cur AND 1 = 0"
    using that c by (auto simp: and.assoc)
  have 4: "events AND 4 = ((events AND 5) AND NOT cur) AND 4" if "cur AND 4 = 0"
    using that c by (auto simp: and.assoc)
  from e have "reported events cur =
      (if events AND 1 OR (cur AND 1) \<noteq> 0 then 1 else 0) OR (if events AND 4 OR (cur AND 4) \<noteq> 0 then 4 else 0)"
    by (simp add: reported_def io_bits b)
  also have "\<dots> = cur"
    using c s 1 4 by (auto simp: or_eq_0_iff io_bits)
  finally show ?thesis .
qed

text \<open>
  A report with \<open>EPOLLERR\<close> or \<open>EPOLLHUP\<close> wakes every task registered on the descriptor, takes
  the descriptor out of the interest list and lowers the pending count by the number of tasks.
\<close>
lemma error_report_wakes_all:
  assumes "io_reachable io" "i < length (io_fdContexts io)" "io_heap io (io_fdContexts io ! i) = Some c"
    and "events AND (EPOLLERR OR EPOLLHUP) \<noteq> 0" "(events AND (EPOLLIN OR EPOLLOUT)) AND NOT (fx_curEvents c) = 0"
    and "fx_curEvents c \<noteq> 0"
  shows "\<exists>io'. process_event False events (io_fdContexts io ! i) (io, out) = Inr (io', out @ tasks c (fx_curEvents c)) \<and>
      io_epoll io' (int i) = None \<and>
      io_pendingEventCount io' + length (tasks c (fx_curEvents c)) = io_pendingEventCount io"
proof -
  have ok: "io_ok io" using assms(1) by (rule reachable_ok)
  have c: "ctx_ok c" "fx_fd c = int i" using io_ok_nth [OF ok assms(2,3)] by simp_all
  note w = reported_error [OF assms(4,5) ctx_ok_cur [OF c(1)]]
  let ?n = "io_pendingEventCount io - length (tasks c (fx_curEvents c))"
  let ?io = "commit io (io_fdContexts io ! i) (clear_events c (fx_curEvents c)) ?n"
  have "length (tasks c (fx_curEvents c)) \<le> io_pendingEventCount io"
    using clear_events_npend [OF c(1) ctx_ok_cur [OF c(1)]] pending_bound [OF ok assms(3)] by simp
  moreover have "io_epoll ?io (int i) = None"
    using clear_events_cur [OF c(1) ctx_ok_cur [OF c(1)]] by (simp add: commit_def interest_def c)
  ultimately show ?thesis
    using process_event_eval [OF ok assms(2) refl assms(3) c, of False events out] assms(6)
    by (intro exI [of _ ?io]) (simp add: w)
qed

text \<open>
  C12: The report \<open>epoll_wait\<close> made before another thread cancelled one of the two events it names
  makes the dispatcher fail the assertion of \<open>triggerEvent\<close>: the events of the report are not
  limited to those still registered.
\<close>
theorem stale_report_aborts:
  assumes "io_reachable io" "i < length (io_fdContexts io)" "io_heap io (io_fdContexts io ! i) = Some c"
    and "fx_curEvents c = EV_READ OR EV_WRITE" "event = EV_READ \<or> event = EV_WRITE"
    and "cancelEvent False io (int i) event = Inr (r, io', woken)"
  shows "process_event False (EPOLLIN OR EPOLLOUT) (io_fdContexts io ! i) (io', out) = Inl IoAssert"
proof -
  have ok: "io_ok io" using assms(1) by (rule reachable_ok)
  have c: "ctx_ok c" "fx_fd c = int i" using io_ok_nth [OF ok assms(2,3)] by simp_all
  have io': "io' = commit io (io_fdContexts io ! i) (without_event c event) (io_pendingEventCount io - 1)"
    using assms(4,5,6) cancelEvent_eval [OF ok assms(2) refl assms(3) c assms(5), of False]
    by (auto simp: io_bits)
  have ok': "io_ok io'" using cancelEvent_ok [OF ok assms(5,6)] by simp
  have h: "io_heap io' (io_fdContexts io' ! i) = Some (without_event c event)"
    "i < length (io_fdContexts io')" "io_fdContexts io' = io_fdContexts io"
    using assms(2) by (simp_all add: io')
  show ?thesis
    using process_event_eval [OF ok' h(2) refl h(1) without_event_ok(1) [OF c(1) assms(5)], of False
        "EPOLLIN OR EPOLLOUT" out] assms(4,5) c h(3)
    by (auto simp: io_bits reported_def)
qed

text \<open>
  C13: \<open>addEvent\<close> decides to grow the table under the reader's lock and grows it under the writer's.
  When another thread grew it in between for a descriptor at least one and a half times as large,
  the table shrinks again: the larger descriptor's context is dropped and its events can no longer
  be deleted or cancelled.
\<close>
theorem concurrent_growth_drops_context:
  assumes "io_reachable io" "fresh_addr addr io" "addEvent_find io fd1 = Inr None" "addEvent_find io fd2 = Inr None"
    and "fd2 * 3 div 2 \<le> fd1"
  shows "\<exists>p io1 q io2. addEvent_grow (\<lambda>_. 0) addr io fd1 = Inr (p, io1) \<and>
      addEvent_grow (\<lambda>_. 0) addr' io1 fd2 = Inr (q, io2) \<and>
      context_at io1 fd1 = Inr p \<and> context_at io2 fd1 = Inl BadFd \<and>
      cancelEvent fails io2 fd1 event = Inr (False, io2, []) \<and> delEvent fails io2 fd1 event = Inr (False, io2)"
proof -
  have ok: "io_ok io" using assms(1) by (rule reachable_ok)
  then have "32 \<le> length (io_fdContexts io)" by (simp add: io_ok_def)
  moreover from assms(3,4) have "int (length (io_fdContexts io)) \<le> fd1" "int (length (io_fdContexts io)) \<le> fd2"
    by (auto simp: addEvent_find_def bindR_eq_Inr split: if_splits)
  ultimately have l: "32 \<le> fd1" "32 \<le> fd2" by simp_all
  let ?io1 = "contextResize (\<lambda>_. 0) addr (nat (fd1 * 3 div 2)) io"
  let ?io2 = "contextResize (\<lambda>_. 0) addr' (nat (fd2 * 3 div 2)) ?io1"
  have grow: "fd < fd * 3 div 2" "0 \<le> fd" if "32 \<le> fd" for fd :: int using that by presburger+
  from grow [OF l(1)] have 1: "context_at ?io1 fd1 = Inr (io_fdContexts ?io1 ! nat fd1)" by (simp add: context_at_def nat_less_iff)
  from grow [OF l(2)] have 2: "context_at ?io2 fd2 = Inr (io_fdContexts ?io2 ! nat fd2)" by (simp add: context_at_def nat_less_iff)
  from l assms(5) have 3: "context_at ?io2 fd1 = Inl BadFd" by (simp add: context_at_def)
  from l assms(5) have 4: "find_context ?io2 fd1 = Inr None" by (simp add: find_context_def)
  from 1 2 have "addEvent_grow (\<lambda>_. 0) addr io fd1 = Inr (io_fdContexts ?io1 ! nat fd1, ?io1)"
    "addEvent_grow (\<lambda>_. 0) addr' ?io1 fd2 = Inr (io_fdContexts ?io2 ! nat fd2, ?io2)"
    by (simp_all add: addEvent_grow_def Let_def)
  with 1 3 4 show ?thesis
    by (intro exI [of _ "io_fdContexts ?io1 ! nat fd1"] exI [of _ ?io1] exI [of _ "io_fdContexts ?io2 ! nat fd2"] exI [of _ ?io2])
      (simp add: cancelEvent_def delEvent_def)
qed

theorem concurrent_growth_drops_context_witness:
  "context_at (contextResize (\<lambda>_. 0) (\<lambda>i. i + 2000) 60 (contextResize (\<lambda>_. 0) (\<lambda>i. i + 1000) 150
     (new_io_manager (\<lambda>_. 0) (\<lambda>i. i) :: nat io_manager))) 100 = Inl BadFd"
proof -
  let ?io = "new_io_manager (\<lambda>_. 0) (\<lambda>i. i) :: nat io_manager"
  have f: "io_fdContexts ?io = [0..<32]" by (simp add: new_io_manager_def contextResize_def Let_def)
  have d: "dom (io_heap ?io) = {0..<32}"
    by (simp add: new_io_manager_def contextResize_def Let_def fold_update_dom [of "\<lambda>i. i", simplified])
  have fr: "fresh_addr (\<lambda>i. i + 1000) ?io" by (auto simp: fresh_addr_def f d inj_def)
  show ?thesis
    using concurrent_growth_drops_context [OF reachable_new fr, of 100 40 "\<lambda>i. i + 2000" False EV_READ]
    by (auto simp: inj_def addEvent_find_def f addEvent_grow_def Let_def bindR_eq_Inr)
qed

lemma sint_low32:
  fixes t :: "u64"
  shows "sint (ucast t :: i32) =
    (let k = unat t mod 2 ^ 32 in if k < 2 ^ 31 then int k else int k - 2 ^ 32)"
proof -
  have k: "uint (ucast t :: i32) = int (unat t mod 2 ^ 32)"
    by (simp add: unsigned_ucast_eq take_bit_eq_mod zmod_int)
  define k where "k = unat t mod 2 ^ 32"
  have "sint (ucast t :: i32) = signed_take_bit 31 (int k)" unfolding sint_uint k k_def by simp
  also have "\<dots> = (int k + 2 ^ 31) mod 2 ^ 32 - 2 ^ 31"
    by (simp add: signed_take_bit_eq_take_bit_shift take_bit_eq_mod)
  also have "\<dots> = (if k < 2 ^ 31 then int k else int k - 2 ^ 32)"
  proof -
    have k32: "k < 2 ^ 32" by (simp add: k_def)
    show ?thesis
    proof (cases "k < 2 ^ 31")
      case False
      then have "(int k + 2 ^ 31) mod 2 ^ 32 = ((int k - 2 ^ 31) + 2 ^ 32) mod 2 ^ 32" by (simp add: add.commute)
      also have "\<dots> = int k - 2 ^ 31" using False k32 by (subst mod_add_self2) simp
      finally show ?thesis using False by simp
    qed simp
  qed
  finally show ?thesis by (simp add: k_def)
qed

text \<open>
  The time \<open>idle\<close> sleeps in \<open>epoll_wait\<close> is at most three seconds and never later than the next
  timer when that is less than \<open>2 ^ 31\<close> milliseconds away, or when there is none. A timer from
  \<open>2 ^ 31\<close> milliseconds on makes it negative, which waits without limit, since the time is read as a
  signed 32-bit integer.
\<close>
lemma epoll_timeout_bounds:
  "epoll_timeout t \<le> 3000 \<and>
   (t = - 1 \<longrightarrow> epoll_timeout t = 3000) \<and>
   (unat t < 2 ^ 31 \<longrightarrow> epoll_timeout t = min (int (unat t)) 3000) \<and>
   (2 ^ 31 \<le> unat t \<and> unat t < 2 ^ 32 \<longrightarrow> epoll_timeout t < 0)"
proof -
  have m: "unat t = 2 ^ 64 - 1" if "t = - 1" using that by (simp add: unsigned_minus_1_eq_mask mask_eq_exp_minus_1)
  have e: "epoll_timeout t = (if t = - 1 then 3000 else min (sint (ucast t :: i32)) 3000)"
    by (auto simp: epoll_timeout_def Let_def)
  have s: "sint (ucast t :: i32) = int (unat t)" if "unat t < 2 ^ 31"
    using that by (simp add: sint_low32 Let_def)
  have n: "sint (ucast t :: i32) < 0" if "2 ^ 31 \<le> unat t" "unat t < 2 ^ 32"
  proof -
    have "int (unat t) < int (2 ^ 32)" using that(2) by (simp only: of_nat_less_iff)
    with that show ?thesis by (simp add: sint_low32 Let_def)
  qed
  have e1: "epoll_timeout (- 1) = 3000" by (simp add: epoll_timeout_def)
  show ?thesis using m s n e1 by (cases "t = - 1") (auto simp: e)
qed

subsection \<open>An example state\<close>

definition io_example :: "nat io_manager" where
  "io_example = new_io_manager (\<lambda>_. 0) (\<lambda>i. i)"

definition io_example1 :: "nat io_manager" where
  "io_example1 = commit io_example 3 (with_event (new_fd_context 0 3) EV_READ (registration 9 7 (Some 5))) 1"

definition io_example2 :: "nat io_manager" where
  "io_example2 = commit io_example1 3
     (with_event (with_event (new_fd_context 0 3) EV_READ (registration 9 7 (Some 5))) EV_WRITE (registration 9 8 None)) 2"

lemma io_example_facts:
  "io_reachable io_example" "io_fdContexts io_example = [0..<32]" "io_pendingEventCount io_example = 0"
  "io_heap io_example 3 = Some (new_fd_context 0 3)" "fresh_addr (\<lambda>i. i + 100) io_example"
proof -
  show "io_reachable io_example" unfolding io_example_def by (rule reachable_new) (simp add: inj_def)
  show f: "io_fdContexts io_example = [0..<32]" "io_pendingEventCount io_example = 0"
    by (simp_all add: io_example_def new_io_manager_def contextResize_def Let_def)
  show "io_heap io_example 3 = Some (new_fd_context 0 3)"
    using fold_update_new [of "\<lambda>i. i" "[0..<32]" 3 "new_fd_context 0" Map.empty]
    by (simp add: io_example_def new_io_manager_def contextResize_def Let_def)
  have "dom (io_heap io_example) = {0..<32}"
    by (simp add: io_example_def new_io_manager_def contextResize_def Let_def fold_update_dom [of "\<lambda>i. i", simplified])
  with f show "fresh_addr (\<lambda>i. i + 100) io_example" by (auto simp: fresh_addr_def inj_def)
qed

lemma io_example_add:
  "addEvent False (Some 9) (7, EXEC) (\<lambda>_. 0) (\<lambda>i. i + 100) io_example 3 EV_READ (Some 5) = Inr (0, io_example1)"
  "addEvent False (Some 9) (8, EXEC) (\<lambda>_. 0) (\<lambda>i. i + 100) io_example1 3 EV_WRITE None = Inr (0, io_example2)"
  "io_reachable io_example1" "io_reachable io_example2"
proof -
  note f = io_example_facts
  note ok = reachable_ok [OF f(1)]
  have t: "table_for (\<lambda>i. i + 100) 3 io_example = io_example" by (simp add: table_for_def f(2))
  show 1: "addEvent False (Some 9) (7, EXEC) (\<lambda>_. 0) (\<lambda>i. i + 100) io_example 3 EV_READ (Some 5) = Inr (0, io_example1)"
    by (simp add: addEvent_unfold [OF ok f(5)] t f(2) io_example1_def
        addEvent_set_eval [OF f(4) new_context_facts(1)] new_fd_context_def f(3))
  have fr: "fresh_addr (\<lambda>i. i + 100) io_example1"
    using f(5) f(4) by (auto simp: fresh_addr_def io_example1_def commit_def)
  show r1: "io_reachable io_example1" by (rule reachable_added [OF f(1,5) _ _ 1]) simp_all
  have t1: "table_for (\<lambda>i. i + 100) 3 io_example1 = io_example1" by (simp add: table_for_def f(2) io_example1_def)
  have h: "io_heap io_example1 3 = Some (with_event (new_fd_context 0 3) EV_READ (registration 9 7 (Some 5)))"
    by (simp add: io_example1_def)
  have c: "ctx_ok (with_event (new_fd_context 0 3) EV_READ (registration 9 7 (Some 5)))"
    by (rule with_event_ok [OF new_context_facts(1)]) (simp_all add: new_fd_context_def)
  show 2: "addEvent False (Some 9) (8, EXEC) (\<lambda>_. 0) (\<lambda>i. i + 100) io_example1 3 EV_WRITE None = Inr (0, io_example2)"
  proof -
    have e: "addEvent_set False (Some 9) (8, EXEC) io_example1 3 3 EV_WRITE None = Inr (0, io_example2)"
      by (subst addEvent_set_eval [OF h c]) (simp_all add: io_example2_def io_bits new_fd_context_def io_example1_def numeral_2_eq_2)
    have "io_fdContexts io_example1 ! 3 = 3" by (simp add: io_example1_def f(2))
    with e show ?thesis by (simp add: addEvent_unfold [OF reachable_ok [OF r1] fr] t1)
  qed
  show "io_reachable io_example2" by (rule reachable_added [OF r1 fr _ _ 2]) simp_all
qed

theorem stale_report_aborts_witness:
  "\<exists>io woken. cancelEvent False io_example2 3 EV_WRITE = Inr (True, io, woken) \<and>
     process_event False (EPOLLIN OR EPOLLOUT) 3 (io, []) = Inl IoAssert"
proof -
  let ?c = "with_event (with_event (new_fd_context 0 3) EV_READ (registration 9 7 (Some 5))) EV_WRITE (registration 9 8 None)"
  have h: "io_heap io_example2 (io_fdContexts io_example2 ! 3) = Some ?c" "3 < length (io_fdContexts io_example2)"
    "io_fdContexts io_example2 ! 3 = 3"
    by (simp_all add: io_example2_def io_example1_def io_example_facts(2))
  note c = io_ok_nth [OF reachable_ok [OF io_example_add(4)] h(2,1)]
  have e: "fx_curEvents ?c = EV_READ OR EV_WRITE" by (simp add: new_fd_context_def)
  from cancelEvent_eval [OF reachable_ok [OF io_example_add(4)] h(2) refl h(1) conjunct1 [OF c] conjunct2 [OF c], of EV_WRITE False]
  obtain io woken where w: "cancelEvent False io_example2 (int 3) EV_WRITE = Inr (True, io, woken)"
    unfolding e by (auto simp: io_bits)
  from stale_report_aborts [OF io_example_add(4) h(2,1) e _ w, of "[]"] w h(3) show ?thesis by auto
qed

end
