(* ===== verification/Http_Message.thy ===== *)
theory Http_Message
  imports C_String
begin

text \<open>
  HTTP messages, \<open>inc/http/http.h\<close> and \<open>src/http/http.cpp\<close>: the methods and status codes of
  the two macro tables, the case-insensitive header map, requests and responses with
  their accessors, and their serialisation by \<open>dump\<close>. A \<open>HttpStatus\<close> is its code, since
  the parser casts any integer to it. \<open>boost::lexical_cast\<close> is the parameter \<open>cast\<close>. The
  optional output pointer of \<open>hasHeader\<close> and its like is the value returned.
\<close>

subsection \<open>Methods and status codes\<close>

datatype (plugins only: code) HttpMethod =
    DELETE | GET | HEAD | POST | PUT | CONNECT | OPTIONS | TRACE | COPY | LOCK | MKCOL
  | MOVE | PROPFIND | PROPPATCH | SEARCH | UNLOCK | BIND | REBIND | UNBIND | ACL | REPORT
  | MKACTIVITY | CHECKOUT | MERGE | MSEARCH | NOTIFY | SUBSCRIBE | UNSUBSCRIBE | PATCH
  | PURGE | MKCALENDAR | LINK | UNLINK | SOURCE | INVALID_METHOD

definition HTTP_METHOD_MAP :: "(nat \<times> HttpMethod \<times> string) list" where
  "HTTP_METHOD_MAP = [
    (0, DELETE, ''DELETE''), (1, GET, ''GET''), (2, HEAD, ''HEAD''), (3, POST, ''POST''),
    (4, PUT, ''PUT''), (5, CONNECT, ''CONNECT''), (6, OPTIONS, ''OPTIONS''),
    (7, TRACE, ''TRACE''), (8, COPY, ''COPY''), (9, LOCK, ''LOCK''),
    (10, MKCOL, ''MKCOL''), (11, MOVE, ''MOVE''), (12, PROPFIND, ''PROPFIND''),
    (13, PROPPATCH, ''PROPPATCH''), (14, SEARCH, ''SEARCH''), (15, UNLOCK, ''UNLOCK''),
    (16, BIND, ''BIND''), (17, REBIND, ''REBIND''), (18, UNBIND, ''UNBIND''),
    (19, ACL, ''ACL''), (20, REPORT, ''REPORT''), (21, MKACTIVITY, ''MKACTIVITY''),
    (22, CHECKOUT, ''CHECKOUT''), (23, MERGE, ''MERGE''), (24, MSEARCH, ''M-SEARCH''),
    (25, NOTIFY, ''NOTIFY''), (26, SUBSCRIBE, ''SUBSCRIBE''),
    (27, UNSUBSCRIBE, ''UNSUBSCRIBE''), (28, PATCH, ''PATCH''), (29, PURGE, ''PURGE''),
    (30, MKCALENDAR, ''MKCALENDAR''), (31, LINK, ''LINK''), (32, UNLINK, ''UNLINK''),
    (33, SOURCE, ''SOURCE'')]"

definition HTTP_STATUS_MAP :: "(int \<times> string) list" where
  "HTTP_STATUS_MAP = [
    (100, ''Continue''), (101, ''Switching Protocols''), (102, ''Processing''),
    (200, ''OK''), (201, ''Created''), (202, ''Accepted''),
    (203, ''Non-Authoritative Information''), (204, ''No Content''),
    (205, ''Reset Content''), (206, ''Partial Content''), (207, ''Multi-Status''),
    (208, ''Already Reported''), (226, ''IM Used''), (300, ''Multiple Choices''),
    (301, ''Moved Permanently''), (302, ''Found''), (303, ''See Other''),
    (304, ''Not Modified''), (305, ''Use Proxy''), (307, ''Temporary Redirect''),
    (308, ''Permanent Redirect''), (400, ''Bad Request''), (401, ''Unauthorized''),
    (402, ''Payment Required''), (403, ''Forbidden''), (404, ''Not Found''),
    (405, ''Method Not Allowed''), (406, ''Not Acceptable''),
    (407, ''Proxy Authentication Required''), (408, ''Request Timeout''),
    (409, ''Conflict''), (410, ''Gone''), (411, ''Length Required''),
    (412, ''Precondition Failed''), (413, ''Payload Too Large''), (414, ''URI Too Long''),
    (415, ''Unsupported Media Type''), (416, ''Range Not Satisfiable''),
    (417, ''Expectation Failed''), (421, ''Misdirected Request''),
    (422, ''Unprocessable Entity''), (423, ''Locked''), (424, ''Failed Dependency''),
    (426, ''Upgrade Required''), (428, ''Precondition Required''),
    (429, ''Too Many Requests''), (431, ''Request Header Fields Too Large''),
    (451, ''Unavailable For Legal Reasons''), (500, ''Internal Server Error''),
    (501, ''Not Implemented''), (502, ''Bad Gateway''), (503, ''Service Unavailable''),
    (504, ''Gateway Timeout''), (505, ''HTTP Version Not Supported''),
    (506, ''Variant Also Negotiates''), (507, ''Insufficient Storage''),
    (508, ''Loop Detected''), (510, ''Not Extended''),
    (511, ''Network Authentication Required'')]"

definition StringToHttpMethod :: "string \<Rightarrow> HttpMethod" where
  "StringToHttpMethod m =
    (case find (\<lambda>(_, _, str). strcmp_eq str m) HTTP_METHOD_MAP of
       Some (_, name, _) \<Rightarrow> name | None \<Rightarrow> INVALID_METHOD)"

definition CharsToHttpMethod :: "string \<Rightarrow> HttpMethod" where
  "CharsToHttpMethod m =
    (case find (\<lambda>(_, _, str). strncmp_prefix str m) HTTP_METHOD_MAP of
       Some (_, name, _) \<Rightarrow> name | None \<Rightarrow> INVALID_METHOD)"

definition s_method_string :: "string list" where
  "s_method_string = map (\<lambda>(_, _, str). str) HTTP_METHOD_MAP"

text \<open>The enumerator's number; \<open>INVALID_METHOD\<close> is one past the last.\<close>

definition method_number :: "HttpMethod \<Rightarrow> nat" where
  "method_number m =
    (case find (\<lambda>(_, name, _). name = m) HTTP_METHOD_MAP of Some (num, _) \<Rightarrow> num | None \<Rightarrow> 34)"

definition HttpMethodToString :: "HttpMethod \<Rightarrow> string" where
  "HttpMethodToString m =
    (let idx = method_number m
     in if idx \<ge> length s_method_string then ''<unknown>'' else s_method_string ! idx)"

definition HttpStatusToString :: "int \<Rightarrow> string" where
  "HttpStatusToString status =
    (case map_of HTTP_STATUS_MAP status of Some msg \<Rightarrow> msg | None \<Rightarrow> ''<unknown>'')"

subsection \<open>The header map\<close>

definition CaseInsensitiveLess :: "string \<Rightarrow> string \<Rightarrow> bool" where
  "CaseInsensitiveLess lhs rhs \<longleftrightarrow> strcasecmp lhs rhs < 0"

type_synonym header_map = "(string \<times> string) list"

abbreviation hdr_find :: "string \<Rightarrow> header_map \<Rightarrow> (string \<times> string) option" where
  "hdr_find \<equiv> omap_find CaseInsensitiveLess"

definition checkGetAs :: "(string \<Rightarrow> 'a option) \<Rightarrow> header_map \<Rightarrow> string \<Rightarrow> 'a \<Rightarrow> bool \<times> 'a" where
  "checkGetAs cast m key def =
    (case hdr_find key m of
       None \<Rightarrow> (False, def)
     | Some (_, s) \<Rightarrow> (case cast s of Some v \<Rightarrow> (True, v) | None \<Rightarrow> (False, def)))"

definition getAs :: "(string \<Rightarrow> 'a option) \<Rightarrow> header_map \<Rightarrow> string \<Rightarrow> 'a \<Rightarrow> 'a" where
  "getAs cast m key def =
    (case hdr_find key m of
       None \<Rightarrow> def
     | Some (_, s) \<Rightarrow> (case cast s of Some v \<Rightarrow> v | None \<Rightarrow> def))"

interpretation hdr: ordered_map CaseInsensitiveLess
  by unfold_locales (auto simp: CaseInsensitiveLess_def strcasecmp_less)

lemma hdr_same_iff: "hdr.same a b \<longleftrightarrow> strcasecmp a b = 0"
  by (auto simp: hdr.same_def CaseInsensitiveLess_def strcasecmp_less strcasecmp_eq)

subsection \<open>Requests\<close>

record http_request =
  rq_method :: HttpMethod
  rq_version :: u8
  rq_close :: bool
  rq_websocket :: bool
  rq_parserParamFlag :: u8
  rq_path :: string
  rq_query :: string
  rq_fragment :: string
  rq_body :: string
  rq_headers :: header_map
  rq_params :: header_map
  rq_cookies :: header_map

record http_response =
  rs_status :: int
  rs_version :: u8
  rs_close :: bool
  rs_websocket :: bool
  rs_body :: string
  rs_reason :: string
  rs_headers :: header_map
  rs_cookies :: "string list"

definition new_request :: "u8 \<Rightarrow> bool \<Rightarrow> http_request" where
  "new_request version close =
    \<lparr>rq_method = GET, rq_version = version, rq_close = close, rq_websocket = False,
     rq_parserParamFlag = 0, rq_path = ''/'', rq_query = [], rq_fragment = [], rq_body = [],
     rq_headers = [], rq_params = [], rq_cookies = []\<rparr>"

definition new_response :: "u8 \<Rightarrow> bool \<Rightarrow> http_response" where
  "new_response version close =
    \<lparr>rs_status = 200, rs_version = version, rs_close = close, rs_websocket = False,
     rs_body = [], rs_reason = [], rs_headers = [], rs_cookies = []\<rparr>"

definition createResponse :: "http_request \<Rightarrow> http_response" where
  "createResponse rq = new_response (rq_version rq) (rq_close rq)"

definition rq_getHeader :: "http_request \<Rightarrow> string \<Rightarrow> string \<Rightarrow> string" where
  "rq_getHeader rq key def = (case hdr_find key (rq_headers rq) of None \<Rightarrow> def | Some (_, v) \<Rightarrow> v)"

definition rq_setHeader :: "http_request \<Rightarrow> string \<Rightarrow> string \<Rightarrow> http_request" where
  "rq_setHeader rq key val = rq\<lparr>rq_headers := omap_put CaseInsensitiveLess key val (rq_headers rq)\<rparr>"

definition rq_delHeader :: "http_request \<Rightarrow> string \<Rightarrow> http_request" where
  "rq_delHeader rq key = rq\<lparr>rq_headers := omap_erase CaseInsensitiveLess key (rq_headers rq)\<rparr>"

definition rq_hasHeader :: "http_request \<Rightarrow> string \<Rightarrow> string option" where
  "rq_hasHeader rq key = (case hdr_find key (rq_headers rq) of None \<Rightarrow> None | Some (_, v) \<Rightarrow> Some v)"

text \<open>
  The macro \<open>PARSE_PARAM\<close> declares a variable and ends there: its loop is under \<open>#if 0\<close>.
  The three initialisers therefore set their flag and parse nothing.
\<close>

definition initQueryParam :: "http_request \<Rightarrow> http_request" where
  "initQueryParam rq =
    (if rq_parserParamFlag rq AND 0x1 \<noteq> 0 then rq
     else rq\<lparr>rq_parserParamFlag := rq_parserParamFlag rq OR 0x1\<rparr>)"

definition initBodyParam :: "http_request \<Rightarrow> http_request" where
  "initBodyParam rq =
    (if rq_parserParamFlag rq AND 0x2 \<noteq> 0 then rq
     else
       let content_type = rq_getHeader rq ''content-type'' []
       in if \<not> strcasestr content_type ''application/x-www-form-urlencoded''
          then rq\<lparr>rq_parserParamFlag := rq_parserParamFlag rq OR 0x2\<rparr>
          else rq\<lparr>rq_parserParamFlag := rq_parserParamFlag rq OR 0x2\<rparr>)"

definition initCookies :: "http_request \<Rightarrow> http_request" where
  "initCookies rq =
    (if rq_parserParamFlag rq AND 0x4 \<noteq> 0 then rq
     else
       let cookie = rq_getHeader rq ''cookie'' []
       in if cookie = [] then rq\<lparr>rq_parserParamFlag := rq_parserParamFlag rq OR 0x4\<rparr>
          else rq\<lparr>rq_parserParamFlag := rq_parserParamFlag rq OR 0x4\<rparr>)"

definition initParam :: "http_request \<Rightarrow> http_request" where
  "initParam rq = initCookies (initBodyParam (initQueryParam rq))"

definition getParam :: "http_request \<Rightarrow> string \<Rightarrow> string \<Rightarrow> string \<times> http_request" where
  "getParam rq key def =
    (let rq = initBodyParam (initQueryParam rq)
     in (case hdr_find key (rq_params rq) of None \<Rightarrow> def | Some (_, v) \<Rightarrow> v, rq))"

definition setParam :: "http_request \<Rightarrow> string \<Rightarrow> string \<Rightarrow> http_request" where
  "setParam rq key val = rq\<lparr>rq_params := omap_put CaseInsensitiveLess key val (rq_params rq)\<rparr>"

definition delParam :: "http_request \<Rightarrow> string \<Rightarrow> http_request" where
  "delParam rq key = rq\<lparr>rq_params := omap_erase CaseInsensitiveLess key (rq_params rq)\<rparr>"

definition hasParam :: "http_request \<Rightarrow> string \<Rightarrow> string option \<times> http_request" where
  "hasParam rq key =
    (let rq = initBodyParam (initQueryParam rq)
     in (case hdr_find key (rq_params rq) of None \<Rightarrow> None | Some (_, v) \<Rightarrow> Some v, rq))"

definition getCookie :: "http_request \<Rightarrow> string \<Rightarrow> string \<Rightarrow> string \<times> http_request" where
  "getCookie rq key def =
    (let rq = initCookies rq
     in (case hdr_find key (rq_cookies rq) of None \<Rightarrow> def | Some (_, v) \<Rightarrow> v, rq))"

definition rq_setCookie :: "http_request \<Rightarrow> string \<Rightarrow> string \<Rightarrow> http_request" where
  "rq_setCookie rq key val = rq\<lparr>rq_cookies := omap_put CaseInsensitiveLess key val (rq_cookies rq)\<rparr>"

definition delCookie :: "http_request \<Rightarrow> string \<Rightarrow> http_request" where
  "delCookie rq key = rq\<lparr>rq_cookies := omap_erase CaseInsensitiveLess key (rq_cookies rq)\<rparr>"

definition hasCookie :: "http_request \<Rightarrow> string \<Rightarrow> string option \<times> http_request" where
  "hasCookie rq key =
    (let rq = initCookies rq
     in (case hdr_find key (rq_cookies rq) of None \<Rightarrow> None | Some (_, v) \<Rightarrow> Some v, rq))"

definition checkGetHeaderAs :: "(string \<Rightarrow> 'a option) \<Rightarrow> http_request \<Rightarrow> string \<Rightarrow> 'a \<Rightarrow> bool \<times> 'a" where
  "checkGetHeaderAs cast rq key def = checkGetAs cast (rq_headers rq) key def"

definition getHeaderAs :: "(string \<Rightarrow> 'a option) \<Rightarrow> http_request \<Rightarrow> string \<Rightarrow> 'a \<Rightarrow> 'a" where
  "getHeaderAs cast rq key def = getAs cast (rq_headers rq) key def"

definition checkGetParamAs ::
    "(string \<Rightarrow> 'a option) \<Rightarrow> http_request \<Rightarrow> string \<Rightarrow> 'a \<Rightarrow> (bool \<times> 'a) \<times> http_request" where
  "checkGetParamAs cast rq key def =
    (let rq = initBodyParam (initQueryParam rq) in (checkGetAs cast (rq_params rq) key def, rq))"

definition getParamAs :: "(string \<Rightarrow> 'a option) \<Rightarrow> http_request \<Rightarrow> string \<Rightarrow> 'a \<Rightarrow> 'a \<times> http_request" where
  "getParamAs cast rq key def =
    (let rq = initBodyParam (initQueryParam rq) in (getAs cast (rq_params rq) key def, rq))"

definition checkGetCookieAs ::
    "(string \<Rightarrow> 'a option) \<Rightarrow> http_request \<Rightarrow> string \<Rightarrow> 'a \<Rightarrow> (bool \<times> 'a) \<times> http_request" where
  "checkGetCookieAs cast rq key def =
    (let rq = initCookies rq in (checkGetAs cast (rq_cookies rq) key def, rq))"

definition getCookieAs :: "(string \<Rightarrow> 'a option) \<Rightarrow> http_request \<Rightarrow> string \<Rightarrow> 'a \<Rightarrow> 'a \<times> http_request" where
  "getCookieAs cast rq key def =
    (let rq = initCookies rq in (getAs cast (rq_cookies rq) key def, rq))"

definition rq_init :: "http_request \<Rightarrow> http_request" where
  "rq_init rq =
    (let conn = rq_getHeader rq ''connection'' []
     in if conn \<noteq> [] then
          if strcasecmp conn ''keep-alive'' = 0 then rq\<lparr>rq_close := False\<rparr>
          else rq\<lparr>rq_close := True\<rparr>
        else rq)"

subsection \<open>Responses\<close>

definition rs_getHeader :: "http_response \<Rightarrow> string \<Rightarrow> string \<Rightarrow> string" where
  "rs_getHeader rs key def = (case hdr_find key (rs_headers rs) of None \<Rightarrow> def | Some (_, v) \<Rightarrow> v)"

definition rs_setHeader :: "http_response \<Rightarrow> string \<Rightarrow> string \<Rightarrow> http_response" where
  "rs_setHeader rs key val = rs\<lparr>rs_headers := omap_put CaseInsensitiveLess key val (rs_headers rs)\<rparr>"

definition rs_delHeader :: "http_response \<Rightarrow> string \<Rightarrow> http_response" where
  "rs_delHeader rs key = rs\<lparr>rs_headers := omap_erase CaseInsensitiveLess key (rs_headers rs)\<rparr>"

definition rs_checkGetHeaderAs :: "(string \<Rightarrow> 'a option) \<Rightarrow> http_response \<Rightarrow> string \<Rightarrow> 'a \<Rightarrow> bool \<times> 'a" where
  "rs_checkGetHeaderAs cast rs key def = checkGetAs cast (rs_headers rs) key def"

definition rs_getHeaderAs :: "(string \<Rightarrow> 'a option) \<Rightarrow> http_response \<Rightarrow> string \<Rightarrow> 'a \<Rightarrow> 'a" where
  "rs_getHeaderAs cast rs key def = getAs cast (rs_headers rs) key def"

definition setRedirect :: "http_response \<Rightarrow> string \<Rightarrow> http_response" where
  "setRedirect rs uri = rs_setHeader (rs\<lparr>rs_status := 302\<rparr>) ''Location'' uri"

text \<open>\<open>expired\<close> is not used: the statement that wrote it is commented out.\<close>

definition rs_setCookie ::
    "http_response \<Rightarrow> string \<Rightarrow> string \<Rightarrow> int \<Rightarrow> string \<Rightarrow> string \<Rightarrow> bool \<Rightarrow> http_response" where
  "rs_setCookie rs key val expired path domain secure =
    (let ss = key @ ''='' @ val;
         ss = (if domain \<noteq> [] then ss @ '';domain='' @ domain else ss);
         ss = (if path \<noteq> [] then ss @ '';path='' @ path else ss);
         ss = (if secure then ss @ '';secure'' else ss)
     in rs\<lparr>rs_cookies := rs_cookies rs @ [ss]\<rparr>)"

subsection \<open>Serialisation\<close>

definition version_text :: "u8 \<Rightarrow> string" where
  "version_text v = show_nat (unat (drop_bit 4 v)) @ ''.'' @ show_nat (unat (v AND 0x0F))"

text \<open>The loop over \<open>m_headers\<close> of both \<open>dump\<close> functions.\<close>

primrec dump_headers :: "bool \<Rightarrow> header_map \<Rightarrow> string" where
  "dump_headers websocket [] = []"
| "dump_headers websocket (i # is) =
    (if \<not> websocket \<and> strcasecmp (fst i) ''connection'' = 0 then dump_headers websocket is
     else fst i @ '': '' @ snd i @ crlf @ dump_headers websocket is)"

definition dump_connection :: "bool \<Rightarrow> bool \<Rightarrow> string" where
  "dump_connection websocket close =
    (if \<not> websocket then ''connection: '' @ (if close then ''close'' else ''keep-alive'') @ crlf else [])"

definition dump_body :: "string \<Rightarrow> string" where
  "dump_body body =
    (if body \<noteq> [] then ''content-length: '' @ show_nat (length body) @ crlf @ crlf @ body else crlf)"

definition rq_dump :: "http_request \<Rightarrow> string" where
  "rq_dump rq =
    HttpMethodToString (rq_method rq) @ '' '' @ rq_path rq @
    (if rq_query rq = [] then [] else ''?'') @ rq_query rq @
    (if rq_fragment rq = [] then [] else ''#'') @ rq_fragment rq @
    '' HTTP/'' @ version_text (rq_version rq) @ crlf @
    dump_connection (rq_websocket rq) (rq_close rq) @
    dump_headers (rq_websocket rq) (rq_headers rq) @
    dump_body (rq_body rq)"

definition rs_dump :: "http_response \<Rightarrow> string" where
  "rs_dump rs =
    ''HTTP/'' @ version_text (rs_version rs) @ '' '' @ show_nat (nat (rs_status rs mod 2 ^ 32)) @ '' '' @
    (if rs_reason rs = [] then HttpStatusToString (rs_status rs) else rs_reason rs) @ crlf @
    dump_headers (rs_websocket rs) (rs_headers rs) @
    concat (map (\<lambda>i. ''Set-Cookie: '' @ i @ crlf) (rs_cookies rs)) @
    dump_connection (rs_websocket rs) (rs_close rs) @
    dump_body (rs_body rs)"

subsection \<open>Methods\<close>

text \<open>No NUL in a method name, no two names one the prefix of the other.\<close>

lemma method_names_c_str:
  "list_all (\<lambda>(_, _, str). c_str str = str) HTTP_METHOD_MAP"
  by code_simp

lemma method_names_prefix_free:
  "list_all (\<lambda>(_, m, a). list_all (\<lambda>(_, n, b). take (length a) b = a \<longrightarrow> m = n \<and> a = b) HTTP_METHOD_MAP)
    HTTP_METHOD_MAP"
  by code_simp

lemma method_table:
  "list_all (\<lambda>(n, m, str). method_number m = n \<and> HttpMethodToString m = str \<and> m \<noteq> INVALID_METHOD \<and>
    list_all (\<lambda>c. c \<noteq> CR) str) HTTP_METHOD_MAP"
  by code_simp

lemma method_listed: "m \<noteq> INVALID_METHOD \<Longrightarrow> m \<in> set (map (\<lambda>(_, m, _). m) HTTP_METHOD_MAP)"
  unfolding HTTP_METHOD_MAP_def list.map prod.case by (cases m) simp_all

lemma method_entry_unique:
  "(n, m, str) \<in> set HTTP_METHOD_MAP \<Longrightarrow> str = HttpMethodToString m \<and> m \<noteq> INVALID_METHOD"
  using method_table unfolding list_all_iff by fastforce

lemma method_entry:
  assumes "m \<noteq> INVALID_METHOD"
  shows "(method_number m, m, HttpMethodToString m) \<in> set HTTP_METHOD_MAP"
proof -
  from method_listed [OF assms] obtain n str where e: "(n, m, str) \<in> set HTTP_METHOD_MAP" by auto
  with method_table have "method_number m = n \<and> HttpMethodToString m = str"
    unfolding list_all_iff by fastforce
  with e show ?thesis by simp
qed

lemma method_to_string_prefix_free:
  assumes "m \<noteq> INVALID_METHOD" "n \<noteq> INVALID_METHOD"
    "take (length (HttpMethodToString m)) (HttpMethodToString n) = HttpMethodToString m"
  shows "m = n"
  using method_names_prefix_free method_entry [OF assms(1)] method_entry [OF assms(2)] assms(3)
  unfolding list_all_iff by fastforce

lemma method_c_str: "m \<noteq> INVALID_METHOD \<Longrightarrow> c_str (HttpMethodToString m) = HttpMethodToString m"
  using method_names_c_str method_entry unfolding list_all_iff by fastforce

lemma take_comparable:
  "take (length a) s = a \<Longrightarrow> take (length b) s = b \<Longrightarrow> take (length a) b = a \<or> take (length b) a = b"
  by (cases "length a \<le> length b") (metis min.absorb1 take_take, metis min.absorb1 nle_le take_take)

lemma find_method:
  assumes uniq: "\<And>n k. n \<noteq> INVALID_METHOD \<Longrightarrow> k \<noteq> INVALID_METHOD \<Longrightarrow>
      P (HttpMethodToString n) \<Longrightarrow> P (HttpMethodToString k) \<Longrightarrow> n = k"
    and m: "m \<noteq> INVALID_METHOD"
  shows "(case find (\<lambda>(_, _, str). P str) HTTP_METHOD_MAP of Some (_, name, _) \<Rightarrow> name | None \<Rightarrow> INVALID_METHOD) = m
    \<longleftrightarrow> P (HttpMethodToString m)"
proof (cases "find (\<lambda>(_, _, str). P str) HTTP_METHOD_MAP")
  case None
  then have "\<not> P (HttpMethodToString m)"
    using method_entry [OF m] by (auto simp: find_None_iff)
  with None m show ?thesis by simp
next
  case (Some x)
  obtain i n str where x: "x = (i, n, str)" by (cases x)
  with Some have "(i, n, str) \<in> set HTTP_METHOD_MAP" "P str"
    by (auto simp: find_Some_iff in_set_conv_nth)
  then have "P (HttpMethodToString n)" "n \<noteq> INVALID_METHOD" using method_entry_unique by auto
  with uniq [OF _ m, of n] Some x show ?thesis by auto
qed

lemma string_to_method:
  assumes "m \<noteq> INVALID_METHOD"
  shows "StringToHttpMethod s = m \<longleftrightarrow> c_str s = HttpMethodToString m"
proof -
  have "StringToHttpMethod s = m \<longleftrightarrow> strcmp_eq (HttpMethodToString m) s"
    unfolding StringToHttpMethod_def
  proof (rule find_method [OF _ assms, of "\<lambda>str. strcmp_eq str s"])
    fix n k
    assume a: "n \<noteq> INVALID_METHOD" "k \<noteq> INVALID_METHOD"
      "strcmp_eq (HttpMethodToString n) s" "strcmp_eq (HttpMethodToString k) s"
    then have "HttpMethodToString n = HttpMethodToString k"
      by (simp add: strcmp_eq_def method_c_str)
    with method_to_string_prefix_free [OF a(1,2)] show "n = k" by simp
  qed
  then show ?thesis
    by (auto simp: strcmp_eq_def method_c_str [OF assms])
qed

lemma chars_to_method:
  assumes "m \<noteq> INVALID_METHOD"
  shows "CharsToHttpMethod s = m \<longleftrightarrow> take (length (HttpMethodToString m)) (c_str s) = HttpMethodToString m"
proof -
  have "CharsToHttpMethod s = m \<longleftrightarrow> strncmp_prefix (HttpMethodToString m) s"
    unfolding CharsToHttpMethod_def
  proof (rule find_method [OF _ assms, of "\<lambda>str. strncmp_prefix str s"])
    fix n k
    assume a: "n \<noteq> INVALID_METHOD" "k \<noteq> INVALID_METHOD"
      "strncmp_prefix (HttpMethodToString n) s" "strncmp_prefix (HttpMethodToString k) s"
    then have "take (length (HttpMethodToString n)) (c_str s) = HttpMethodToString n"
      "take (length (HttpMethodToString k)) (c_str s) = HttpMethodToString k"
      by (simp_all add: strncmp_prefix_def method_c_str)
    then have "take (length (HttpMethodToString n)) (HttpMethodToString k) = HttpMethodToString n \<or>
      take (length (HttpMethodToString k)) (HttpMethodToString n) = HttpMethodToString k"
      by (rule take_comparable)
    with method_to_string_prefix_free [OF a(1,2)] method_to_string_prefix_free [OF a(2,1)]
    show "n = k" by (elim disjE) simp_all
  qed
  then show ?thesis
    by (simp add: strncmp_prefix_def method_c_str [OF assms])
qed

subsection \<open>Reading a message back\<close>

text \<open>
  A reader of the wire format, independent of \<open>dump\<close>: the start line, the fields of the
  following lines up to the empty one, split at the first colon, and the body.
\<close>

definition read_field :: "string \<Rightarrow> string \<times> string" where
  "read_field l = (takeWhile (\<lambda>c. c \<noteq> CHR '':'') l, drop 2 (dropWhile (\<lambda>c. c \<noteq> CHR '':'') l))"

definition read_message :: "string \<Rightarrow> (string \<times> (string \<times> string) list \<times> string) option" where
  "read_message s =
    (case cut_head s of
       Some (start # ls, body) \<Rightarrow> Some (start, map read_field ls, body)
     | _ \<Rightarrow> None)"

definition field_line :: "string \<times> string \<Rightarrow> string" where
  "field_line kv = fst kv @ '': '' @ snd kv"

text \<open>A field that cannot break the framing: no CR in it and no colon in its name.\<close>

definition clean_field :: "string \<times> string \<Rightarrow> bool" where
  "clean_field kv \<longleftrightarrow> CR \<notin> set (fst kv) \<and> CHR '':'' \<notin> set (fst kv) \<and> CR \<notin> set (snd kv)"

definition connection_field :: "bool \<Rightarrow> bool \<Rightarrow> (string \<times> string) list" where
  "connection_field websocket close =
    (if websocket then [] else [(''connection'', if close then ''close'' else ''keep-alive'')])"

definition other_fields :: "bool \<Rightarrow> header_map \<Rightarrow> header_map" where
  "other_fields websocket m =
    (if websocket then m else filter (\<lambda>kv. strcasecmp (fst kv) ''connection'' \<noteq> 0) m)"

definition length_field :: "string \<Rightarrow> (string \<times> string) list" where
  "length_field body = (if body = [] then [] else [(''content-length'', show_nat (length body))])"

lemma read_field_line: "clean_field kv \<Longrightarrow> read_field (field_line kv) = kv"
  by (cases kv) (auto simp: read_field_def field_line_def clean_field_def takeWhile_append dropWhile_append)

lemma dump_headers_lines: "dump_headers w m = join_lines (map field_line (other_fields w m))"
  by (induction m) (auto simp: other_fields_def field_line_def)

lemma dump_connection_lines: "dump_connection w c = join_lines (map field_line (connection_field w c))"
  by (simp add: dump_connection_def connection_field_def field_line_def)

lemma dump_body_lines: "dump_body b = join_lines (map field_line (length_field b)) @ crlf @ b"
  by (simp add: dump_body_def length_field_def field_line_def)

lemma show_nat_no_CR: "CR \<notin> set (show_nat n)"
proof
  assume "CR \<in> set (show_nat n)"
  then have "isdigit CR" by (rule show_nat_digits)
  then show False by (simp add: isdigit_def char_code_def)
qed

lemma clean_connection: "kv \<in> set (connection_field w c) \<Longrightarrow> clean_field kv"
  by (auto simp: connection_field_def clean_field_def split: if_splits)

lemma clean_length: "kv \<in> set (length_field b) \<Longrightarrow> clean_field kv"
  by (auto simp: length_field_def clean_field_def show_nat_no_CR split: if_splits)

text \<open>What joined lines hold is read back, when the start line and the fields are clean.\<close>

lemma read_message_lines:
  assumes "start \<noteq> []" "CR \<notin> set start" "\<forall>kv \<in> set kvs. clean_field kv"
  shows "read_message (start @ crlf @ join_lines (map field_line kvs) @ crlf @ body) = Some (start, kvs, body)"
proof -
  have "cut_head (join_lines (start # map field_line kvs) @ crlf @ body) =
    Some (start # map field_line kvs, body)"
    using assms by (intro cut_head_join) (auto simp: field_line_def clean_field_def)
  moreover have "map (read_field \<circ> field_line) kvs = kvs"
    using assms(3) by (intro map_idI) (simp add: read_field_line)
  ultimately show ?thesis by (simp add: read_message_def)
qed

definition rq_start_line :: "http_request \<Rightarrow> string" where
  "rq_start_line rq =
    HttpMethodToString (rq_method rq) @ '' '' @ rq_path rq @
    (if rq_query rq = [] then [] else ''?'' @ rq_query rq) @
    (if rq_fragment rq = [] then [] else ''#'' @ rq_fragment rq) @
    '' HTTP/'' @ version_text (rq_version rq)"

definition rs_start_line :: "http_response \<Rightarrow> string" where
  "rs_start_line rs =
    ''HTTP/'' @ version_text (rs_version rs) @ '' '' @ show_nat (nat (rs_status rs mod 2 ^ 32)) @ '' '' @
    (if rs_reason rs = [] then HttpStatusToString (rs_status rs) else rs_reason rs)"

definition rq_clean :: "http_request \<Rightarrow> bool" where
  "rq_clean rq \<longleftrightarrow> CR \<notin> set (rq_path rq) \<and> CR \<notin> set (rq_query rq) \<and> CR \<notin> set (rq_fragment rq) \<and>
    list_all clean_field (rq_headers rq)"

definition rs_clean :: "http_response \<Rightarrow> bool" where
  "rs_clean rs \<longleftrightarrow> CR \<notin> set (rs_reason rs) \<and> list_all clean_field (rs_headers rs) \<and>
    list_all (\<lambda>c. CR \<notin> set c) (rs_cookies rs)"

lemma method_no_CR: "CR \<notin> set (HttpMethodToString m)"
proof (cases "m = INVALID_METHOD")
  case True
  have "HttpMethodToString INVALID_METHOD = ''<unknown>''" by code_simp
  with True show ?thesis by simp
next
  case False
  from method_entry [OF False] method_table show ?thesis unfolding list_all_iff by fastforce
qed

lemma status_no_CR: "CR \<notin> set (HttpStatusToString st)"
proof -
  have "list_all (\<lambda>(_, msg). CR \<notin> set msg) HTTP_STATUS_MAP" by code_simp
  then show ?thesis
    by (auto simp: HttpStatusToString_def list_all_iff split: option.split dest!: map_of_SomeD)
qed

lemma version_no_CR: "CR \<notin> set (version_text v)"
  by (simp add: version_text_def show_nat_no_CR)

lemma other_fields_subset: "set (other_fields w m) \<subseteq> set m"
  by (auto simp: other_fields_def)

lemma cookies_lines:
  "concat (map (\<lambda>i. ''Set-Cookie: '' @ i @ crlf) cs) = join_lines (map field_line (map (Pair ''Set-Cookie'') cs))"
  by (induction cs) (simp_all add: field_line_def)

lemma rq_dump_read:
  assumes "rq_clean rq"
  shows "read_message (rq_dump rq) = Some (rq_start_line rq,
    connection_field (rq_websocket rq) (rq_close rq) @ other_fields (rq_websocket rq) (rq_headers rq) @
    length_field (rq_body rq), rq_body rq)"
proof -
  let ?kvs = "connection_field (rq_websocket rq) (rq_close rq) @
    other_fields (rq_websocket rq) (rq_headers rq) @ length_field (rq_body rq)"
  have "rq_dump rq = rq_start_line rq @ crlf @ join_lines (map field_line ?kvs) @ crlf @ rq_body rq"
    by (simp add: rq_dump_def rq_start_line_def dump_headers_lines dump_connection_lines dump_body_lines)
  moreover have "\<forall>kv \<in> set ?kvs. clean_field kv"
    using assms other_fields_subset clean_connection clean_length
    by (auto simp: rq_clean_def list_all_iff) (metis subsetD)
  moreover have "rq_start_line rq \<noteq> []" "CR \<notin> set (rq_start_line rq)"
    using assms by (auto simp: rq_start_line_def rq_clean_def method_no_CR version_no_CR)
  ultimately show ?thesis by (simp add: read_message_lines del: map_append join_lines_simps(3))
qed

lemma rs_dump_read:
  assumes "rs_clean rs"
  shows "read_message (rs_dump rs) = Some (rs_start_line rs,
    other_fields (rs_websocket rs) (rs_headers rs) @ map (Pair ''Set-Cookie'') (rs_cookies rs) @
    connection_field (rs_websocket rs) (rs_close rs) @ length_field (rs_body rs), rs_body rs)"
proof -
  let ?kvs = "other_fields (rs_websocket rs) (rs_headers rs) @ map (Pair ''Set-Cookie'') (rs_cookies rs) @
    connection_field (rs_websocket rs) (rs_close rs) @ length_field (rs_body rs)"
  have "rs_dump rs = rs_start_line rs @ crlf @ join_lines (map field_line ?kvs) @ crlf @ rs_body rs"
    unfolding rs_dump_def cookies_lines dump_headers_lines dump_connection_lines dump_body_lines
    by (simp add: rs_start_line_def)
  moreover have "\<forall>kv \<in> set ?kvs. clean_field kv"
    using assms other_fields_subset clean_connection clean_length
    by (auto simp: rs_clean_def list_all_iff clean_field_def [of "(''Set-Cookie'', _)"]) (metis subsetD)
  moreover have "rs_start_line rs \<noteq> []" "CR \<notin> set (rs_start_line rs)"
    using assms by (auto simp: rs_start_line_def rs_clean_def status_no_CR show_nat_no_CR version_no_CR)
  ultimately show ?thesis by (simp add: read_message_lines del: map_append join_lines_simps(3))
qed

subsection \<open>Properties\<close>

text \<open>
  C9: the two conversions of a method name are exact on the known methods:
  \<open>StringToHttpMethod\<close> gives a method for its name only, and \<open>CharsToHttpMethod\<close> for every
  text that begins with its name; \<open>HttpMethodToString\<close> is the inverse of both.
\<close>

theorem method_conversions:
  assumes "m \<noteq> INVALID_METHOD"
  shows "(StringToHttpMethod s = m \<longleftrightarrow> c_str s = HttpMethodToString m) \<and>
    (CharsToHttpMethod s = m \<longleftrightarrow> take (length (HttpMethodToString m)) (c_str s) = HttpMethodToString m)"
  using string_to_method [OF assms] chars_to_method [OF assms] by blast

theorem method_conversions_witness: "StringToHttpMethod ''M-SEARCH'' = MSEARCH \<and> CharsToHttpMethod ''GET /'' = GET"
proof -
  have "HttpMethodToString MSEARCH = ''M-SEARCH''" "HttpMethodToString GET = ''GET''" by code_simp+
  with method_conversions [of MSEARCH "''M-SEARCH''"] method_conversions [of GET "''GET /''"]
  show ?thesis by simp
qed

text \<open>
  The header map of a request behaves as a map whose keys are compared without case:
  after \<open>setHeader\<close> every spelling of the key gives the value, after \<open>delHeader\<close> none gives
  one, the other keys keep theirs, and the map stays ordered and without duplicates.
\<close>

lemma header_map_laws:
  assumes "hdr.map_ok (rq_headers rq)"
  shows "rq_getHeader (rq_setHeader rq key val) k def =
      (if strcasecmp k key = 0 then val else rq_getHeader rq k def) \<and>
    rq_getHeader (rq_delHeader rq key) k def =
      (if strcasecmp k key = 0 then def else rq_getHeader rq k def) \<and>
    hdr.map_ok (rq_headers (rq_setHeader rq key val)) \<and> hdr.map_ok (rq_headers (rq_delHeader rq key))"
proof -
  have get: "rq_getHeader r k d = (case hdr.value_at k (rq_headers r) of None \<Rightarrow> d | Some v \<Rightarrow> v)" for r d
    by (cases "hdr_find k (rq_headers r)") (auto simp: rq_getHeader_def hdr.value_at_def)
  show ?thesis
    using hdr.put_ok [OF assms] hdr.erase_ok [OF assms]
    by (simp add: get rq_setHeader_def rq_delHeader_def hdr.value_at_put [OF assms]
        hdr.value_at_erase [OF assms] hdr_same_iff)
qed

text \<open>
  A reader of the wire format gets back from a dumped request, whose fields hold no CR
  and whose header names hold no colon, the start line, then one \<open>connection\<close> field (none
  for a websocket) in place of any of that name in the map, the other headers in order,
  the \<open>content-length\<close> of the body if there is one, and the body.
\<close>

lemma request_dump_roundtrip:
  assumes "rq_clean rq"
  shows "read_message (rq_dump rq) = Some (rq_start_line rq,
    connection_field (rq_websocket rq) (rq_close rq) @ other_fields (rq_websocket rq) (rq_headers rq) @
    length_field (rq_body rq), rq_body rq)"
  by (rule rq_dump_read [OF assms])

text \<open>
  C8: a dumped response whose reason and cookies hold no carriage return and whose headers have clean
  names and values (no carriage return, no colon in a name; \<open>rs_clean\<close>) reads back as its status line,
  the headers without a \<open>connection\<close> field, one \<open>Set-Cookie\<close> field per cookie, the \<open>connection\<close> field,
  the \<open>content-length\<close> of a non-empty body, and the body.
\<close>

theorem response_dump_roundtrip:
  assumes "rs_clean rs"
  shows "read_message (rs_dump rs) = Some (rs_start_line rs,
    other_fields (rs_websocket rs) (rs_headers rs) @ map (Pair ''Set-Cookie'') (rs_cookies rs) @
    connection_field (rs_websocket rs) (rs_close rs) @ length_field (rs_body rs), rs_body rs)"
  by (rule rs_dump_read [OF assms])

theorem response_dump_roundtrip_witness:
  "read_message (rs_dump (rs_setCookie (new_response 0x11 False) ''k'' ''v'' 0 [] [] True)) =
    Some (''HTTP/1.1 200 OK'', [(''Set-Cookie'', ''k=v;secure''), (''connection'', ''keep-alive'')], [])"
proof -
  let ?rs = "rs_setCookie (new_response 0x11 False) ''k'' ''v'' 0 [] [] True"
  have "rs_clean ?rs" by (simp add: rs_clean_def new_response_def rs_setCookie_def Let_def)
  from response_dump_roundtrip [OF this]
  have "read_message (rs_dump ?rs) = Some (rs_start_line ?rs,
      [(''Set-Cookie'', ''k=v;secure''), (''connection'', ''keep-alive'')], [])"
    by (simp add: new_response_def rs_setCookie_def connection_field_def other_fields_def length_field_def)
  moreover have "rs_start_line ?rs = ''HTTP/1.1 200 OK''" by code_simp
  ultimately show ?thesis by simp
qed

end
