(* ===== verification/Keyed_Store.thy ===== *)
theory Keyed_Store
  imports Prelude
begin

text \<open>
  The contract of a table from keys to values, whatever holds it (a hash map, a vector of
  pairs): what a lookup returns after an insertion and after a removal, on states that keep
  an invariant. A client needs only that a run of operations acts as on a map.
\<close>

datatype ('k, 'v) store_op = Put 'k 'v | Remove 'k

primrec map_op :: "('k, 'v) store_op \<Rightarrow> ('k \<Rightarrow> 'v option) \<Rightarrow> 'k \<Rightarrow> 'v option" where
  "map_op (Put k v) m = m(k \<mapsto> v)"
| "map_op (Remove k) m = m(k := None)"

locale keyed_store =
  fixes inv :: "'s \<Rightarrow> bool"
    and lookup :: "'s \<Rightarrow> 'k \<Rightarrow> 'v option"
    and put :: "'k \<Rightarrow> 'v \<Rightarrow> 's \<Rightarrow> 's"
    and remove :: "'k \<Rightarrow> 's \<Rightarrow> 's"
  assumes put_inv: "inv s \<Longrightarrow> inv (put k v s)"
    and remove_inv: "inv s \<Longrightarrow> inv (remove k s)"
    and lookup_put: "inv s \<Longrightarrow> lookup (put k v s) = (lookup s)(k \<mapsto> v)"
    and lookup_remove: "inv s \<Longrightarrow> lookup (remove k s) = (lookup s)(k := None)"
begin

primrec apply_op :: "('k, 'v) store_op \<Rightarrow> 's \<Rightarrow> 's" where
  "apply_op (Put k v) s = put k v s"
| "apply_op (Remove k) s = remove k s"

lemma apply_op_correct: "inv s \<Longrightarrow> inv (apply_op x s) \<and> lookup (apply_op x s) = map_op x (lookup s)"
  by (cases x) (auto simp: put_inv remove_inv lookup_put lookup_remove)

lemma run_correct:
  "inv s \<Longrightarrow> inv (fold apply_op ops s) \<and> lookup (fold apply_op ops s) = fold map_op ops (lookup s)"
proof (induction ops arbitrary: s)
  case (Cons x ops)
  with apply_op_correct [of s x] show ?case by simp
qed simp

end

lemma fold_map_op_other:
  "(\<And>v. Put k v \<notin> set ops) \<Longrightarrow> Remove k \<notin> set ops \<Longrightarrow> fold map_op ops m k = m k"
proof (induction ops arbitrary: m)
  case (Cons x ops)
  then show ?case by (cases x) auto
qed simp

lemma fold_map_op_last:
  assumes "\<And>v. Put k v \<notin> set after" "Remove k \<notin> set after"
  shows "fold map_op (before @ Put k v # after) m k = Some v"
    and "fold map_op (before @ Remove k # after) m k = None"
  using assms by (simp_all add: fold_map_op_other)

subsection \<open>A vector of pairs\<close>

text \<open>The search and removal of the first entry with a key, and its replacement at the end.\<close>

fun find_key :: "'k \<Rightarrow> ('k \<times> 'v) list \<Rightarrow> 'v option" where
  "find_key k [] = None"
| "find_key k (x # xs) = (if fst x = k then Some (snd x) else find_key k xs)"

fun erase_key :: "'k \<Rightarrow> ('k \<times> 'v) list \<Rightarrow> ('k \<times> 'v) list" where
  "erase_key k [] = []"
| "erase_key k (x # xs) = (if fst x = k then xs else x # erase_key k xs)"

definition replace_key :: "'k \<Rightarrow> 'v \<Rightarrow> ('k \<times> 'v) list \<Rightarrow> ('k \<times> 'v) list" where
  "replace_key k v xs = erase_key k xs @ [(k, v)]"

lemma find_key_map_of: "find_key k xs = map_of xs k"
  by (induction xs) auto

lemma erase_key_filter: "distinct (map fst xs) \<Longrightarrow> erase_key k xs = filter (\<lambda>x. fst x \<noteq> k) xs"
proof (induction xs)
  case (Cons x xs)
  have "filter (\<lambda>y. fst y \<noteq> k) xs = xs" if "fst x = k"
    using that Cons.prems by (auto simp: filter_id_conv image_iff)
  with Cons show ?case by simp
qed simp

lemma find_key_append: "find_key k (xs @ ys) = (case find_key k xs of None \<Rightarrow> find_key k ys | Some v \<Rightarrow> Some v)"
  by (induction xs) auto

lemma find_key_filter: "find_key j (filter (\<lambda>x. fst x \<noteq> k) xs) = (if j = k then None else find_key j xs)"
  by (induction xs) auto

interpretation pair_vector: keyed_store
  "\<lambda>xs. distinct (map fst xs)" "\<lambda>xs k. find_key k xs" replace_key erase_key
proof
  fix s :: "('a \<times> 'b) list" and k :: 'a and v :: 'b
  assume d: "distinct (map fst s)"
  show "distinct (map fst (erase_key k s))"
    using d by (simp add: erase_key_filter distinct_map_filter)
  show "distinct (map fst (replace_key k v s))"
    using d by (auto simp: replace_key_def erase_key_filter distinct_map_filter)
  show "(\<lambda>j. find_key j (erase_key k s)) = (\<lambda>j. find_key j s)(k := None)"
    using d by (auto simp: erase_key_filter find_key_filter)
  show "(\<lambda>j. find_key j (replace_key k v s)) = (\<lambda>j. find_key j s)(k \<mapsto> v)"
    using d by (auto simp: replace_key_def find_key_append erase_key_filter find_key_filter split: option.split)
qed

text \<open>
  The order such a vector has after a run of operations on an empty one: one entry for each key
  whose last operation is a \<open>Put\<close>, in the order of these last operations.
\<close>

definition op_key :: "('k, 'v) store_op \<Rightarrow> 'k" where
  "op_key x = (case x of Put k _ \<Rightarrow> k | Remove k \<Rightarrow> k)"

fun latest_puts :: "('k, 'v) store_op list \<Rightarrow> ('k \<times> 'v) list" where
  "latest_puts [] = []"
| "latest_puts (x # xs) =
    (case x of Put k v \<Rightarrow> if k \<in> set (map op_key xs) then [] else [(k, v)] | Remove _ \<Rightarrow> []) @ latest_puts xs"

lemma pair_vector_step:
  assumes "distinct (map fst s)"
  shows "pair_vector.apply_op (Put k v) s = filter (\<lambda>x. fst x \<noteq> k) s @ [(k, v)]"
    and "pair_vector.apply_op (Remove k) s = filter (\<lambda>x. fst x \<noteq> k) s"
  unfolding pair_vector.apply_op.simps
  by (simp_all add: replace_key_def erase_key_filter [OF assms])

lemma pair_vector_order:
  "distinct (map fst s) \<Longrightarrow>
    fold pair_vector.apply_op ops s = filter (\<lambda>x. fst x \<notin> set (map op_key ops)) s @ latest_puts ops"
proof (induction ops arbitrary: s)
  case (Cons x ops)
  have d: "distinct (map fst (pair_vector.apply_op x s))"
    using pair_vector.apply_op_correct [OF Cons.prems, of x] by blast
  note e = pair_vector_step [OF Cons.prems]
  show ?case
  proof (cases x)
    case (Put k v)
    with Cons.IH [OF d] show ?thesis by (simp add: e op_key_def conj_commute del: pair_vector.apply_op.simps)
  next
    case (Remove k)
    with Cons.IH [OF d] show ?thesis by (simp add: e op_key_def conj_commute del: pair_vector.apply_op.simps)
  qed
qed simp

end
