(* ===== verification/Http_Servlet.thy ===== *)
theory Http_Servlet
  imports Http_Message Keyed_Store
begin

text \<open>
  Request dispatch, \<open>inc/http/http_servlet.h\<close> and \<open>src/http/http_servlet.cpp\<close>. A servlet acts
  on an exchange: the request, the response and the session, whose type is a parameter.
  A servlet of the application is its name and what it does; a callback or a servlet
  pointer may be null. The map of exact paths is unordered, so it is a map; the patterns are
  the vector in the order they are tried. \<open>fnmatch\<close> says whether that C function returns 0.
\<close>

subsection \<open>Servlets\<close>

type_synonym 'x exchange = "http_request \<times> http_response \<times> 'x"
type_synonym 'x handler = "'x exchange \<Rightarrow> int \<times> 'x exchange"

datatype 'x servlet =
    FunctionServlet "'x handler option"
  | NotFoundServlet string
  | OtherServlet string "'x handler"

datatype servlet_error = BadFunctionCall | NullPointer

definition not_found_content :: string where
  "not_found_content =
    ''<html><head><title>404 Not Found'' @ ''</title></head><body><center><h1>404 Not Found</h1></center>'' @ ''<hr>''"

definition servlet_name :: "'x servlet \<Rightarrow> string" where
  "servlet_name s =
    (case s of FunctionServlet _ \<Rightarrow> ''FunctionServlet'' | NotFoundServlet _ \<Rightarrow> ''NotFoundServlet''
     | OtherServlet n _ \<Rightarrow> n)"

definition not_found_handle :: "string \<Rightarrow> 'x handler" where
  "not_found_handle content e =
    (let (request, response, session) = e;
         response = response\<lparr>rs_status := 404\<rparr>;
         response = rs_setHeader response ''Content-Type'' ''text/html''
     in (0, request, response\<lparr>rs_body := content\<rparr>, session))"

definition servlet_handle :: "'x servlet \<Rightarrow> 'x exchange \<Rightarrow> servlet_error + (int \<times> 'x exchange)" where
  "servlet_handle s e =
    (case s of
       FunctionServlet cb \<Rightarrow> (case cb of None \<Rightarrow> Inl BadFunctionCall | Some f \<Rightarrow> Inr (f e))
     | NotFoundServlet content \<Rightarrow> Inr (not_found_handle content e)
     | OtherServlet _ f \<Rightarrow> Inr (f e))"

subsection \<open>Creators\<close>

text \<open>\<open>ServletCreator<T>\<close> makes a new servlet of a type at every call.\<close>

datatype 'x creator = HoldServletCreator "'x servlet option" | ServletCreator string "'x servlet"

definition creator_get :: "'x creator \<Rightarrow> 'x servlet option" where
  "creator_get c = (case c of HoldServletCreator s \<Rightarrow> s | ServletCreator _ s \<Rightarrow> Some s)"

definition creator_getName :: "'x creator \<Rightarrow> servlet_error + string" where
  "creator_getName c =
    (case c of
       HoldServletCreator s \<Rightarrow> (case s of None \<Rightarrow> Inl NullPointer | Some s \<Rightarrow> Inr (servlet_name s))
     | ServletCreator n _ \<Rightarrow> Inr n)"

text \<open>Calling \<open>get\<close> through a creator pointer.\<close>

definition deref_get :: "'x creator option \<Rightarrow> servlet_error + 'x servlet option" where
  "deref_get c = (case c of None \<Rightarrow> Inl NullPointer | Some c \<Rightarrow> Inr (creator_get c))"

subsection \<open>The dispatcher\<close>

record 'x dispatch =
  sd_datas :: "string \<Rightarrow> 'x creator option option"
  sd_globs :: "(string \<times> 'x creator option) list"
  sd_default :: "'x servlet option"

definition new_dispatch :: "'x dispatch" where
  "new_dispatch =
    \<lparr>sd_datas = Map.empty, sd_globs = [], sd_default = Some (NotFoundServlet not_found_content)\<rparr>"

definition addServletCreator :: "string \<Rightarrow> 'x creator option \<Rightarrow> 'x dispatch \<Rightarrow> 'x dispatch" where
  "addServletCreator uri creator d = d\<lparr>sd_datas := (sd_datas d)(uri \<mapsto> creator)\<rparr>"

definition addServlet :: "string \<Rightarrow> 'x servlet option \<Rightarrow> 'x dispatch \<Rightarrow> 'x dispatch" where
  "addServlet uri slt d = d\<lparr>sd_datas := (sd_datas d)(uri \<mapsto> Some (HoldServletCreator slt))\<rparr>"

definition addServlet_cb :: "string \<Rightarrow> 'x handler option \<Rightarrow> 'x dispatch \<Rightarrow> 'x dispatch" where
  "addServlet_cb uri cb d =
    d\<lparr>sd_datas := (sd_datas d)(uri \<mapsto> Some (HoldServletCreator (Some (FunctionServlet cb))))\<rparr>"

definition addGlobServletCreator :: "string \<Rightarrow> 'x creator option \<Rightarrow> 'x dispatch \<Rightarrow> 'x dispatch" where
  "addGlobServletCreator uri creator d = d\<lparr>sd_globs := erase_key uri (sd_globs d) @ [(uri, creator)]\<rparr>"

definition addGlobServlet :: "string \<Rightarrow> 'x servlet option \<Rightarrow> 'x dispatch \<Rightarrow> 'x dispatch" where
  "addGlobServlet uri slt d =
    d\<lparr>sd_globs := erase_key uri (sd_globs d) @ [(uri, Some (HoldServletCreator slt))]\<rparr>"

definition addGlobServlet_cb :: "string \<Rightarrow> 'x handler option \<Rightarrow> 'x dispatch \<Rightarrow> 'x dispatch" where
  "addGlobServlet_cb uri cb d = addGlobServlet uri (Some (FunctionServlet cb)) d"

definition delServlet :: "string \<Rightarrow> 'x dispatch \<Rightarrow> 'x dispatch" where
  "delServlet uri d = d\<lparr>sd_datas := (sd_datas d)(uri := None)\<rparr>"

definition delGlobServlet :: "string \<Rightarrow> 'x dispatch \<Rightarrow> 'x dispatch" where
  "delGlobServlet uri d = d\<lparr>sd_globs := erase_key uri (sd_globs d)\<rparr>"

definition setDefault :: "'x servlet option \<Rightarrow> 'x dispatch \<Rightarrow> 'x dispatch" where
  "setDefault v d = d\<lparr>sd_default := v\<rparr>"

text \<open>The listings add to the caller's map.\<close>

definition listAllServletCreator ::
    "'x dispatch \<Rightarrow> (string \<Rightarrow> 'x creator option option) \<Rightarrow> string \<Rightarrow> 'x creator option option" where
  "listAllServletCreator d infos = infos ++ sd_datas d"

definition listAllGlobServletCreator ::
    "'x dispatch \<Rightarrow> (string \<Rightarrow> 'x creator option option) \<Rightarrow> string \<Rightarrow> 'x creator option option" where
  "listAllGlobServletCreator d infos = fold (\<lambda>(k, c) m. m(k \<mapsto> c)) (sd_globs d) infos"

definition getServlet :: "'x dispatch \<Rightarrow> string \<Rightarrow> servlet_error + 'x servlet option" where
  "getServlet d uri = (case sd_datas d uri of None \<Rightarrow> Inr None | Some c \<Rightarrow> deref_get c)"

definition getGlobServlet :: "'x dispatch \<Rightarrow> string \<Rightarrow> servlet_error + 'x servlet option" where
  "getGlobServlet d uri = (case find_key uri (sd_globs d) of None \<Rightarrow> Inr None | Some c \<Rightarrow> deref_get c)"

fun glob_loop ::
    "(string \<Rightarrow> string \<Rightarrow> bool) \<Rightarrow> string \<Rightarrow> 'x servlet option \<Rightarrow> (string \<times> 'x creator option) list \<Rightarrow>
      servlet_error + 'x servlet option" where
  "glob_loop fnmatch uri def [] = Inr def"
| "glob_loop fnmatch uri def (it # its) =
    (if fnmatch (c_str (fst it)) (c_str uri) then deref_get (snd it) else glob_loop fnmatch uri def its)"

definition getMatchedServlet ::
    "(string \<Rightarrow> string \<Rightarrow> bool) \<Rightarrow> 'x dispatch \<Rightarrow> string \<Rightarrow> servlet_error + 'x servlet option" where
  "getMatchedServlet fnmatch d uri =
    (case sd_datas d uri of
       Some c \<Rightarrow> deref_get c
     | None \<Rightarrow> glob_loop fnmatch uri (sd_default d) (sd_globs d))"

definition dispatch_handle ::
    "(string \<Rightarrow> string \<Rightarrow> bool) \<Rightarrow> 'x dispatch \<Rightarrow> 'x exchange \<Rightarrow> servlet_error + (int \<times> 'x exchange)" where
  "dispatch_handle fnmatch d e =
    bindR (getMatchedServlet fnmatch d (rq_path (fst e))) (\<lambda>slt.
      case slt of
        None \<Rightarrow> Inr (0, e)
      | Some s \<Rightarrow> bindR (servlet_handle s e) (\<lambda>(_, e). Inr (0, e)))"

section \<open>Correctness\<close>

interpretation exact_paths: keyed_store "\<lambda>_. True" sd_datas addServletCreator delServlet
  by unfold_locales (auto simp: addServletCreator_def delServlet_def)

interpretation glob_paths: keyed_store
  "\<lambda>d. distinct (map fst (sd_globs d))" "\<lambda>d k. find_key k (sd_globs d)" addGlobServletCreator delGlobServlet
proof
  fix d :: "'x dispatch" and k and v :: "'x creator option"
  assume d: "distinct (map fst (sd_globs d))"
  show "distinct (map fst (sd_globs (addGlobServletCreator k v d)))"
    using pair_vector.put_inv [OF d] by (simp add: addGlobServletCreator_def replace_key_def)
  show "distinct (map fst (sd_globs (delGlobServlet k d)))"
    using pair_vector.remove_inv [OF d] by (simp add: delGlobServlet_def)
  show "(\<lambda>j. find_key j (sd_globs (addGlobServletCreator k v d))) = (\<lambda>j. find_key j (sd_globs d))(k \<mapsto> v)"
    using pair_vector.lookup_put [OF d] by (simp add: addGlobServletCreator_def replace_key_def)
  show "(\<lambda>j. find_key j (sd_globs (delGlobServlet k d))) = (\<lambda>j. find_key j (sd_globs d))(k := None)"
    using pair_vector.lookup_remove [OF d] by (simp add: delGlobServlet_def)
qed

lemma add_variants:
  "addServlet uri slt d = addServletCreator uri (Some (HoldServletCreator slt)) d"
  "addServlet_cb uri cb d = addServletCreator uri (Some (HoldServletCreator (Some (FunctionServlet cb)))) d"
  "addGlobServlet uri slt d = addGlobServletCreator uri (Some (HoldServletCreator slt)) d"
  "addGlobServlet_cb uri cb d = addGlobServletCreator uri (Some (HoldServletCreator (Some (FunctionServlet cb)))) d"
  by (simp_all add: addServlet_def addServletCreator_def addServlet_cb_def addGlobServlet_def
      addGlobServletCreator_def addGlobServlet_cb_def)

text \<open>A registration acts on the exact paths or on the patterns, or sets the default servlet.\<close>

datatype 'x registration =
    Exact "(string, 'x creator option) store_op"
  | Glob "(string, 'x creator option) store_op"
  | Default "'x servlet option"

primrec register :: "'x registration \<Rightarrow> 'x dispatch \<Rightarrow> 'x dispatch" where
  "register (Exact x) d = exact_paths.apply_op x d"
| "register (Glob x) d = glob_paths.apply_op x d"
| "register (Default v) d = setDefault v d"

definition exact_ops :: "'x registration list \<Rightarrow> (string, 'x creator option) store_op list" where
  "exact_ops rs = List.map_filter (\<lambda>r. case r of Exact x \<Rightarrow> Some x | _ \<Rightarrow> None) rs"

definition glob_ops :: "'x registration list \<Rightarrow> (string, 'x creator option) store_op list" where
  "glob_ops rs = List.map_filter (\<lambda>r. case r of Glob x \<Rightarrow> Some x | _ \<Rightarrow> None) rs"

definition default_after :: "'x registration list \<Rightarrow> 'x servlet option \<Rightarrow> 'x servlet option" where
  "default_after rs v = fold (\<lambda>r v. case r of Default v' \<Rightarrow> v' | _ \<Rightarrow> v) rs v"

lemma ops_simps [simp]:
  "exact_ops [] = []" "exact_ops (Exact x # rs) = x # exact_ops rs" "exact_ops (Glob x # rs) = exact_ops rs"
  "exact_ops (Default v # rs) = exact_ops rs"
  "glob_ops [] = []" "glob_ops (Exact x # rs) = glob_ops rs" "glob_ops (Glob x # rs) = x # glob_ops rs"
  "glob_ops (Default v # rs) = glob_ops rs"
  by (simp_all add: exact_ops_def glob_ops_def map_filter_simps)

lemma default_simps [simp]:
  "default_after [] v = v" "default_after (Exact x # rs) v = default_after rs v"
  "default_after (Glob x # rs) v = default_after rs v" "default_after (Default v' # rs) v = default_after rs v'"
  by (simp_all add: default_after_def)

lemma register_frame:
  "sd_globs (exact_paths.apply_op x d) = sd_globs d" "sd_default (exact_paths.apply_op x d) = sd_default d"
  "sd_datas (glob_paths.apply_op x d) = sd_datas d" "sd_default (glob_paths.apply_op x d) = sd_default d"
  by (cases x; simp add: addServletCreator_def delServlet_def addGlobServletCreator_def delGlobServlet_def)+

lemma glob_op_vector: "sd_globs (glob_paths.apply_op x d) = pair_vector.apply_op x (sd_globs d)"
  by (cases x) (simp_all add: addGlobServletCreator_def delGlobServlet_def replace_key_def)

lemma register_all:
  "sd_datas (fold register rs d) = fold map_op (exact_ops rs) (sd_datas d) \<and>
    sd_globs (fold register rs d) = fold pair_vector.apply_op (glob_ops rs) (sd_globs d) \<and>
    sd_default (fold register rs d) = default_after rs (sd_default d)"
proof (induction rs arbitrary: d)
  case (Cons r rs)
  show ?case
  proof (cases r)
    case (Exact x)
    with Cons.IH [of "exact_paths.apply_op x d"] exact_paths.apply_op_correct [where x = x and s = d] show ?thesis
      by (simp add: register_frame)
  next
    case (Glob x)
    with Cons.IH [of "glob_paths.apply_op x d"] show ?thesis
      by (simp add: register_frame glob_op_vector)
  next
    case (Default v)
    with Cons.IH [of "setDefault v d"] show ?thesis by (simp add: setDefault_def)
  qed
qed simp

lemma glob_loop_find:
  "glob_loop fnmatch uri def its =
    (case find (\<lambda>it. fnmatch (c_str (fst it)) (c_str uri)) its of
       None \<Rightarrow> Inr def | Some it \<Rightarrow> deref_get (snd it))"
  by (induction its) auto

subsection \<open>Properties\<close>

text \<open>
  C17: After any sequence of registrations, removals and changes of the default, the vector of
  patterns holds one entry for each pattern whose last operation registered it, in the order of these
  last operations (a pattern registered again moves to the end), and a path is routed to the creator
  last registered for exactly that path, else to the first pattern of that vector that matches it,
  else to the default servlet set last, which is the error page to begin with.
\<close>
theorem dispatch_routes:
  fixes rs :: "'x registration list"
  defines "d \<equiv> fold register rs (new_dispatch :: 'x dispatch)"
  shows "sd_globs d = latest_puts (glob_ops rs) \<and>
    getMatchedServlet fnmatch d uri =
      (case fold map_op (exact_ops rs) Map.empty uri of
         Some c \<Rightarrow> deref_get c
       | None \<Rightarrow> (case find (\<lambda>it. fnmatch (c_str (fst it)) (c_str uri)) (latest_puts (glob_ops rs)) of
           Some it \<Rightarrow> deref_get (snd it)
         | None \<Rightarrow> Inr (default_after rs (Some (NotFoundServlet not_found_content)))))"
proof -
  have "sd_datas d = fold map_op (exact_ops rs) Map.empty" "sd_globs d = latest_puts (glob_ops rs)"
    "sd_default d = default_after rs (Some (NotFoundServlet not_found_content))"
    unfolding d_def using register_all [of rs new_dispatch]
    by (simp_all add: new_dispatch_def pair_vector_order)
  then show ?thesis by (auto simp: getMatchedServlet_def glob_loop_find split: option.split)
qed

theorem dispatch_routes_witness:
  "getMatchedServlet (\<lambda>p s. p = ''/*'' \<or> p = take (length p) s)
     (fold register
       [Glob (Put ''/a'' (Some (HoldServletCreator (Some (NotFoundServlet ''1''))))),
        Glob (Put ''/*'' (Some (HoldServletCreator (Some (NotFoundServlet ''2''))))),
        Glob (Put ''/a'' (Some (HoldServletCreator (Some (NotFoundServlet ''3'')))))]
       (new_dispatch :: nat dispatch)) ''/ab'' = Inr (Some (NotFoundServlet ''2''))"
  unfolding dispatch_routes [THEN conjunct2]
  by (simp add: op_key_def deref_get_def creator_get_def)

text \<open>
  A request for a path that no exact entry and no pattern covers is answered with status 404,
  content type \<open>text/html\<close> and the error page; the request and the session are untouched.
\<close>
lemma unmatched_is_404:
  assumes "sd_datas d (rq_path rq) = None"
    and "\<forall>it \<in> set (sd_globs d). \<not> fnmatch (c_str (fst it)) (c_str (rq_path rq))"
    and "sd_default d = Some (NotFoundServlet content)" and "hdr.map_ok (rs_headers rs)"
  shows "\<exists>rs'. dispatch_handle fnmatch d (rq, rs, x) = Inr (0, rq, rs', x) \<and>
    rs_status rs' = 404 \<and> rs_body rs' = content \<and> rs_getHeader rs' ''content-type'' [] = ''text/html''"
proof -
  have "find (\<lambda>it. fnmatch (c_str (fst it)) (c_str (rq_path rq))) (sd_globs d) = None"
    using assms(2) unfolding List.find_None_iff by auto
  then have g: "getMatchedServlet fnmatch d (rq_path rq) = Inr (Some (NotFoundServlet content))"
    using assms(1,3) by (simp add: getMatchedServlet_def glob_loop_find)
  have h: "rs_getHeader (rs_setHeader r ''Content-Type'' ''text/html'') ''content-type'' [] = ''text/html''"
    if "rs_headers r = rs_headers rs" for r
  proof -
    have get: "rs_getHeader r k d = (case hdr.value_at k (rs_headers r) of None \<Rightarrow> d | Some v \<Rightarrow> v)" for r k d
      by (cases "hdr_find k (rs_headers r)") (auto simp: rs_getHeader_def hdr.value_at_def)
    have "strcasecmp ''content-type'' ''Content-Type'' = 0" by code_simp
    then show ?thesis
      using hdr.value_at_put [OF assms(4)] that by (simp add: get rs_setHeader_def hdr_same_iff)
  qed
  show ?thesis
    using g h [of "rs\<lparr>rs_status := 404\<rparr>"]
    by (simp add: dispatch_handle_def servlet_handle_def not_found_handle_def Let_def rs_setHeader_def rs_getHeader_def)
qed

end
