(* ===== verification/Address.thy ===== *)
theory Address
  imports Endian C_String "HOL-Library.Product_Lexorder"
begin

text \<open>
  Socket addresses, \<open>inc/address.h\<close> and \<open>src/address.cpp\<close>, over the byte order \<open>h\<close> of the
  host. A field that the network stores in its own order is kept as the raw word the code
  reads from the structure. A \<open>sockaddr*\<close> is the structure its family selects. The answers
  of \<open>getaddrinfo\<close>, \<open>getifaddrs\<close> and \<open>inet_pton\<close> are parameters; an index outside an
  address, a shift by the width of \<open>int\<close> or more and an exception are values of
  \<open>addr_error\<close>.
\<close>

subsection \<open>Addresses\<close>

definition AF_UNSPEC :: u16 where "AF_UNSPEC = 0"
definition AF_UNIX :: u16 where "AF_UNIX = 1"
definition AF_INET :: u16 where "AF_INET = 2"
definition AF_INET6 :: u16 where "AF_INET6 = 10"

record sockaddr_in =
  sin_family :: u16
  sin_port :: u16
  sin_addr :: u32
  sin_zero :: "u8 list"

record sockaddr_in6 =
  sin6_family :: u16
  sin6_port :: u16
  sin6_flowinfo :: u32
  sin6_addr :: "u8 list"
  sin6_scope_id :: u32

record sockaddr_un =
  sun_family :: u16
  sun_path :: "u8 list"

record sockaddr =
  sa_family :: u16
  sa_data :: "u8 list"

datatype raw_addr = RawIn sockaddr_in | RawIn6 sockaddr_in6 | RawOther sockaddr

datatype address =
    IPv4Address sockaddr_in
  | IPv6Address sockaddr_in6
  | UnixAddress sockaddr_un nat
  | UnknownAddress sockaddr

datatype addr_error = PathTooLong | OutOfBounds | ShiftTooWide | NullAddr

text \<open>The constructors.\<close>

definition new_IPv4 :: "endian \<Rightarrow> u32 \<Rightarrow> u16 \<Rightarrow> sockaddr_in" where
  "new_IPv4 h addr port =
    \<lparr>sin_family = AF_INET, sin_port = byteswapOnLittleEndian h port,
     sin_addr = byteswapOnLittleEndian h addr, sin_zero = replicate 8 0\<rparr>"

definition new_IPv6 :: sockaddr_in6 where
  "new_IPv6 = \<lparr>sin6_family = AF_INET6, sin6_port = 0, sin6_flowinfo = 0, sin6_addr = replicate 16 0,
               sin6_scope_id = 0\<rparr>"

definition new_IPv6_bytes :: "endian \<Rightarrow> u8 list \<Rightarrow> u16 \<Rightarrow> sockaddr_in6" where
  "new_IPv6_bytes h addr port =
    new_IPv6\<lparr>sin6_port := byteswapOnLittleEndian h port, sin6_addr := take 16 addr\<rparr>"

definition sun_path_size :: nat where "sun_path_size = 108"
definition sun_path_offset :: nat where "sun_path_offset = 2"

definition MAX_PATH_LEN :: nat where "MAX_PATH_LEN = sun_path_size - 1"

definition new_Unix :: address where
  "new_Unix = UnixAddress \<lparr>sun_family = AF_UNIX, sun_path = replicate sun_path_size 0\<rparr> (sun_path_offset + MAX_PATH_LEN)"

definition byte_of :: "char \<Rightarrow> u8" where
  "byte_of c = of_nat (char_code c)"

definition char_of_byte :: "u8 \<Rightarrow> char" where
  "char_of_byte b = char_of (unat b)"

text \<open>\<open>path.c_str()\<close> has a NUL after its last character, which \<open>memcpy\<close> may copy.\<close>

definition new_Unix_path :: "string \<Rightarrow> addr_error + address" where
  "new_Unix_path path =
    (let m_length = length path + 1;
         m_length = (if path \<noteq> [] \<and> hd path = CHR 0x00 then m_length - 1 else m_length)
     in if m_length > sun_path_size then Inl PathTooLong
        else
          let bytes = take m_length (map byte_of path @ [0])
          in Inr (UnixAddress \<lparr>sun_family = AF_UNIX,
                               sun_path = bytes @ replicate (sun_path_size - m_length) 0\<rparr>
                    (m_length + sun_path_offset)))"

definition new_Unknown :: "u16 \<Rightarrow> sockaddr" where
  "new_Unknown family = \<lparr>sa_family = family, sa_data = replicate 14 0\<rparr>"

definition Address_Create :: "raw_addr option \<Rightarrow> address option" where
  "Address_Create addr =
    (case addr of
       None \<Rightarrow> None
     | Some (RawIn a) \<Rightarrow> Some (IPv4Address a)
     | Some (RawIn6 a) \<Rightarrow> Some (IPv6Address a)
     | Some (RawOther a) \<Rightarrow> Some (UnknownAddress a))"

definition is_IPAddress :: "address \<Rightarrow> bool" where
  "is_IPAddress a = (case a of IPv4Address _ \<Rightarrow> True | IPv6Address _ \<Rightarrow> True | _ \<Rightarrow> False)"

subsection \<open>The bytes of an address, comparison\<close>

definition getAddr :: "endian \<Rightarrow> address \<Rightarrow> u8 list" where
  "getAddr h a =
    (case a of
       IPv4Address s \<Rightarrow> to_mem h (sin_family s) @ to_mem h (sin_port s) @ to_mem h (sin_addr s) @ sin_zero s
     | IPv6Address s \<Rightarrow> to_mem h (sin6_family s) @ to_mem h (sin6_port s) @ to_mem h (sin6_flowinfo s) @
         sin6_addr s @ to_mem h (sin6_scope_id s)
     | UnixAddress s _ \<Rightarrow> to_mem h (sun_family s) @ sun_path s
     | UnknownAddress s \<Rightarrow> to_mem h (sa_family s) @ sa_data s)"

definition getAddrLen :: "address \<Rightarrow> nat" where
  "getAddrLen a =
    (case a of IPv4Address _ \<Rightarrow> 16 | IPv6Address _ \<Rightarrow> 28 | UnixAddress _ n \<Rightarrow> n | UnknownAddress _ \<Rightarrow> 16)"

definition setAddrLen :: "address \<Rightarrow> nat \<Rightarrow> address" where
  "setAddrLen a v = (case a of UnixAddress s _ \<Rightarrow> UnixAddress s v | _ \<Rightarrow> a)"

definition getFamily :: "address \<Rightarrow> u16" where
  "getFamily a =
    (case a of IPv4Address s \<Rightarrow> sin_family s | IPv6Address s \<Rightarrow> sin6_family s
     | UnixAddress s _ \<Rightarrow> sun_family s | UnknownAddress s \<Rightarrow> sa_family s)"

text \<open>\<open>memcmp\<close>: the sign of the difference at the first place where the bytes differ.\<close>

fun memcmp :: "u8 list \<Rightarrow> u8 list \<Rightarrow> nat \<Rightarrow> int" where
  "memcmp (x # xs) (y # ys) (Suc n) = (if x = y then memcmp xs ys n else if x < y then - 1 else 1)"
| "memcmp _ _ _ = 0"

definition addr_less :: "endian \<Rightarrow> address \<Rightarrow> address \<Rightarrow> bool" where
  "addr_less h a b =
    (let minlen = min (getAddrLen a) (getAddrLen b);
         result = memcmp (getAddr h a) (getAddr h b) minlen
     in if result < 0 then True else if result > 0 then False
        else if getAddrLen a < getAddrLen b then True else False)"

definition addr_eq :: "endian \<Rightarrow> address \<Rightarrow> address \<Rightarrow> bool" where
  "addr_eq h a b \<longleftrightarrow>
    getAddrLen a = getAddrLen b \<and> memcmp (getAddr h a) (getAddr h b) (getAddrLen a) = 0"

definition addr_neq :: "endian \<Rightarrow> address \<Rightarrow> address \<Rightarrow> bool" where
  "addr_neq h a b \<longleftrightarrow> \<not> addr_eq h a b"

subsection \<open>Masks\<close>

text \<open>\<open>CreateMask<T>\<close>: the shift is one of \<open>int\<close>, its amount a difference of \<open>size_t\<close>.\<close>

definition CreateMask :: "u32 \<Rightarrow> addr_error + 'a::len word" where
  "CreateMask bits =
    (let shift = usub64 LENGTH('a) (unat bits) in
     if shift \<ge> 32 then Inl ShiftTooWide
     else Inr (ucast (push_bit shift 1 - 1 :: i32)))"

function CountBytes :: "'a::len word \<Rightarrow> nat" where
  "CountBytes v = (if v = 0 then 0 else Suc (CountBytes (v AND (v - 1))))"
  by pat_completeness auto
termination
proof (relation "measure unat")
  fix v :: "'a word" assume "v \<noteq> 0"
  then have "v - 1 < v" by (simp add: word_less_nat_alt unat_minus_one unat_gt_0)
  moreover have "v AND (v - 1) \<le> v - 1" by (rule word_and_le1)
  ultimately show "(v AND (v - 1), v) \<in> measure unat" by (simp add: word_less_nat_alt word_le_nat_alt)
qed simp

declare CountBytes.simps [simp del]

subsection \<open>IPv4\<close>

definition IPv4_Create :: "endian \<Rightarrow> (string \<Rightarrow> u32 option) \<Rightarrow> string \<Rightarrow> u16 \<Rightarrow> address option" where
  "IPv4_Create h inet_pton addr port =
    (case inet_pton (c_str addr) of
       None \<Rightarrow> None
     | Some raw \<Rightarrow> Some (IPv4Address ((new_IPv4 h 0 0)\<lparr>sin_port := byteswapOnLittleEndian h port, sin_addr := raw\<rparr>)))"

definition IPv4_insert :: "endian \<Rightarrow> sockaddr_in \<Rightarrow> string" where
  "IPv4_insert h s =
    (let addr = byteswapOnLittleEndian h (sin_addr s)
     in show_nat (unat (drop_bit 24 addr AND 0xFF)) @ ''.'' @
        show_nat (unat (drop_bit 16 addr AND 0xFF)) @ ''.'' @
        show_nat (unat (drop_bit 8 addr AND 0xFF)) @ ''.'' @
        show_nat (unat (addr AND 0xFF)) @
        '':'' @ show_nat (unat (byteswapOnLittleEndian h (sin_port s))))"

definition IPv4_broadcastAddress :: "endian \<Rightarrow> sockaddr_in \<Rightarrow> u32 \<Rightarrow> addr_error + sockaddr_in option" where
  "IPv4_broadcastAddress h s prefix_len =
    (if prefix_len > 32 then Inr None
     else bindR (CreateMask prefix_len) (\<lambda>m.
       Inr (Some (s\<lparr>sin_addr := sin_addr s OR byteswapOnLittleEndian h m\<rparr>))))"

definition IPv4_networdAddress :: "endian \<Rightarrow> sockaddr_in \<Rightarrow> u32 \<Rightarrow> addr_error + sockaddr_in option" where
  "IPv4_networdAddress h s prefix_len =
    (if prefix_len > 32 then Inr None
     else bindR (CreateMask prefix_len) (\<lambda>m.
       Inr (Some (s\<lparr>sin_addr := sin_addr s AND byteswapOnLittleEndian h m\<rparr>))))"

definition IPv4_subnetMask :: "endian \<Rightarrow> u32 \<Rightarrow> addr_error + sockaddr_in" where
  "IPv4_subnetMask h prefix_len =
    bindR (CreateMask prefix_len) (\<lambda>m.
      Inr \<lparr>sin_family = AF_INET, sin_port = 0, sin_addr = NOT (byteswapOnLittleEndian h m),
           sin_zero = replicate 8 0\<rparr>)"

definition IPv4_getPort :: "endian \<Rightarrow> sockaddr_in \<Rightarrow> u32" where
  "IPv4_getPort h s = ucast (byteswapOnLittleEndian h (sin_port s))"

definition IPv4_setPort :: "endian \<Rightarrow> sockaddr_in \<Rightarrow> u16 \<Rightarrow> sockaddr_in" where
  "IPv4_setPort h s v = s\<lparr>sin_port := byteswapOnLittleEndian h v\<rparr>"

subsection \<open>IPv6\<close>

definition IPv6_Create :: "endian \<Rightarrow> (string \<Rightarrow> u8 list option) \<Rightarrow> string \<Rightarrow> u16 \<Rightarrow> address option" where
  "IPv6_Create h inet_pton addr port =
    (case inet_pton (c_str addr) of
       None \<Rightarrow> None
     | Some raw \<Rightarrow> Some (IPv6Address (new_IPv6\<lparr>sin6_port := byteswapOnLittleEndian h port, sin6_addr := raw\<rparr>)))"

fun show_hex :: "nat \<Rightarrow> string" where
  "show_hex n =
    (let d = (\<lambda>k. [char_of (if k < 10 then 48 + k else 87 + k)])
     in if n < 16 then d n else show_hex (n div 16) @ d (n mod 16))"

declare show_hex.simps [simp del]

text \<open>The eight groups as the code reads them, two bytes at a time in the host's order.\<close>

definition v6_group :: "endian \<Rightarrow> u8 list \<Rightarrow> nat \<Rightarrow> u16" where
  "v6_group h bs i = of_mem h (take 2 (drop (2 * i) bs))"

primrec v6_loop :: "endian \<Rightarrow> (nat \<Rightarrow> u16) \<Rightarrow> nat list \<Rightarrow> bool \<Rightarrow> string \<times> bool" where
  "v6_loop h addr [] used_zeros = ([], used_zeros)"
| "v6_loop h addr (i # is) used_zeros =
    (if addr i = 0 \<and> \<not> used_zeros then v6_loop h addr is used_zeros
     else
       let skip = (i \<noteq> 0 \<and> addr (i - 1) = 0 \<and> \<not> used_zeros);
           (rest, u) = v6_loop h addr is (used_zeros \<or> skip)
       in ((if skip then '':'' else []) @ (if i \<noteq> 0 then '':'' else []) @
           show_hex (unat (byteswapOnLittleEndian h (addr i))) @ rest, u))"

definition IPv6_insert :: "endian \<Rightarrow> sockaddr_in6 \<Rightarrow> string" where
  "IPv6_insert h s =
    (let addr = v6_group h (sin6_addr s);
         (groups, used_zeros) = v6_loop h addr [0..<8] False
     in ''['' @ groups @ (if \<not> used_zeros \<and> addr 7 = 0 then ''::'' else []) @
        '']:'' @ show_nat (unat (byteswapOnLittleEndian h (sin6_port s))))"

definition v6_byte_index :: "u32 \<Rightarrow> addr_error + nat" where
  "v6_byte_index prefix_len =
    (let i = unat prefix_len div 8 in if i < 16 then Inr i else Inl OutOfBounds)"

definition IPv6_broadcastAddress :: "sockaddr_in6 \<Rightarrow> u32 \<Rightarrow> addr_error + sockaddr_in6" where
  "IPv6_broadcastAddress s prefix_len =
    bindR (v6_byte_index prefix_len) (\<lambda>k.
    bindR (CreateMask (prefix_len mod 8)) (\<lambda>m.
      let bs = (sin6_addr s)[k := sin6_addr s ! k OR m]
      in Inr (s\<lparr>sin6_addr := map (\<lambda>i. if k + 1 \<le> i then 0xFF else bs ! i) [0..<16]\<rparr>)))"

definition IPv6_networdAddress :: "sockaddr_in6 \<Rightarrow> u32 \<Rightarrow> addr_error + sockaddr_in6" where
  "IPv6_networdAddress s prefix_len =
    bindR (v6_byte_index prefix_len) (\<lambda>k.
    bindR (CreateMask (prefix_len mod 8)) (\<lambda>m.
      let bs = (sin6_addr s)[k := sin6_addr s ! k AND m]
      in Inr (s\<lparr>sin6_addr := map (\<lambda>i. if k + 1 \<le> i then 0x00 else bs ! i) [0..<16]\<rparr>)))"

definition IPv6_subnetMask :: "u32 \<Rightarrow> addr_error + sockaddr_in6" where
  "IPv6_subnetMask prefix_len =
    bindR (v6_byte_index prefix_len) (\<lambda>k.
    bindR (CreateMask (prefix_len mod 8)) (\<lambda>m.
      let bs = (sin6_addr new_IPv6)[k := NOT m]
      in Inr (new_IPv6\<lparr>sin6_addr := map (\<lambda>i. if i < k then 0xFF else bs ! i) [0..<16]\<rparr>)))"

definition IPv6_getPort :: "endian \<Rightarrow> sockaddr_in6 \<Rightarrow> u32" where
  "IPv6_getPort h s = ucast (byteswapOnLittleEndian h (sin6_port s))"

definition IPv6_setPort :: "endian \<Rightarrow> sockaddr_in6 \<Rightarrow> u16 \<Rightarrow> sockaddr_in6" where
  "IPv6_setPort h s v = s\<lparr>sin6_port := byteswapOnLittleEndian h v\<rparr>"

subsection \<open>Text\<close>

definition Unix_text :: "sockaddr_un \<Rightarrow> nat \<Rightarrow> string" where
  "Unix_text s n =
    (if n > sun_path_offset \<and> sun_path s ! 0 = 0
     then [CHR 0x5C, CHR ''0''] @ map char_of_byte (take (n - sun_path_offset - 1) (drop 1 (sun_path s)))
     else c_str (map char_of_byte (sun_path s)))"

definition addr_insert :: "endian \<Rightarrow> address \<Rightarrow> string" where
  "addr_insert h a =
    (case a of
       IPv4Address s \<Rightarrow> IPv4_insert h s
     | IPv6Address s \<Rightarrow> IPv6_insert h s
     | UnixAddress s n \<Rightarrow> Unix_text s n
     | UnknownAddress s \<Rightarrow> ''[UnknownAddress family='' @ show_nat (unat (sa_family s)) @ '']'')"

definition addr_toString :: "endian \<Rightarrow> address \<Rightarrow> string" where
  "addr_toString h a = addr_insert h a"

definition Unix_getPath :: "sockaddr_un \<Rightarrow> nat \<Rightarrow> string" where
  "Unix_getPath s n = Unix_text s n"

text \<open>\<open>setPort\<close> through the base class.\<close>

definition addr_setPort :: "endian \<Rightarrow> address \<Rightarrow> u16 \<Rightarrow> address" where
  "addr_setPort h a v =
    (case a of IPv4Address s \<Rightarrow> IPv4Address (IPv4_setPort h s v)
     | IPv6Address s \<Rightarrow> IPv6Address (IPv6_setPort h s v) | _ \<Rightarrow> a)"

subsection \<open>Looking names up\<close>

text \<open>\<open>memchr\<close>: the index of the first occurrence.\<close>

fun memchr :: "char \<Rightarrow> string \<Rightarrow> nat option" where
  "memchr c [] = None"
| "memchr c (x # xs) = (if x = c then Some 0 else map_option Suc (memchr c xs))"

text \<open>
  How \<open>Lookup\<close> splits \<open>host\<close>: the node and, as the text from where the pointer \<open>service\<close>
  points, the service. The first part treats a bracketed address, the second \<open>node:service\<close>.
\<close>

definition split_bracket :: "string \<Rightarrow> string \<times> string option" where
  "split_bracket host =
    (if host \<noteq> [] \<and> hd host = CHR ''['' then
       (case memchr (CHR '']'') (tl host) of
          None \<Rightarrow> ([], None)
        | Some k \<Rightarrow>
            let rest = drop (k + 2) host
            in (take k (tl host), if rest \<noteq> [] \<and> hd rest = CHR '':'' then Some (tl rest) else None))
     else ([], None))"

definition split_service :: "string \<Rightarrow> string \<times> string option \<Rightarrow> string \<times> string option" where
  "split_service host ns =
    (if fst ns \<noteq> [] then ns
     else case memchr (CHR '':'') host of
         None \<Rightarrow> ([], None)
       | Some k \<Rightarrow>
           if memchr (CHR '':'') (drop (k + 1) host) = None then (take k host, Some (drop (k + 1) host))
           else ([], Some (drop k host)))"

definition lookup_args :: "string \<Rightarrow> string \<times> string option" where
  "lookup_args host =
    (let (node, service) = split_service host (split_bracket host)
     in (if node = [] then host else node, service))"

type_synonym 'i getaddrinfo = "string \<Rightarrow> string option \<Rightarrow> 'i \<Rightarrow> raw_addr option list option"

text \<open>\<open>hints\<close> stands for the family, type and protocol asked for; no answer is an error.\<close>

definition Lookup ::
    "'i getaddrinfo \<Rightarrow> address option list \<Rightarrow> string \<Rightarrow> 'i \<Rightarrow> bool \<times> address option list" where
  "Lookup getaddrinfo result host hints =
    (let (node, service) = lookup_args host
     in case getaddrinfo (c_str node) (map_option c_str service) hints of
          None \<Rightarrow> (False, result)
        | Some results \<Rightarrow>
            let result = result @ map Address_Create results in (result \<noteq> [], result))"

definition LookupAny :: "'i getaddrinfo \<Rightarrow> string \<Rightarrow> 'i \<Rightarrow> address option" where
  "LookupAny gai host hints =
    (let (ok, result) = Lookup gai [] host hints in if ok then result ! 0 else None)"

fun first_ip :: "address option list \<Rightarrow> address option" where
  "first_ip [] = None"
| "first_ip (i # is) =
    (case i of Some a \<Rightarrow> if is_IPAddress a then Some a else first_ip is | None \<Rightarrow> first_ip is)"

definition LookupAnyIPAddress :: "'i getaddrinfo \<Rightarrow> string \<Rightarrow> 'i \<Rightarrow> address option" where
  "LookupAnyIPAddress gai host hints =
    (let (ok, result) = Lookup gai [] host hints in if ok then first_ip result else None)"

definition IPAddress_Create ::
    "endian \<Rightarrow> (string \<Rightarrow> raw_addr option list option) \<Rightarrow> string \<Rightarrow> u16 \<Rightarrow> addr_error + address option" where
  "IPAddress_Create h gai addr port =
    (case gai (c_str addr) of
       None \<Rightarrow> Inr None
     | Some results \<Rightarrow>
         (case results of
            [] \<Rightarrow> Inl NullAddr
          | r # _ \<Rightarrow>
              (case Address_Create r of
                 Some a \<Rightarrow> Inr (if is_IPAddress a then Some (addr_setPort h a port) else None)
               | None \<Rightarrow> Inr None)))"

subsection \<open>The interfaces of the host\<close>

record ifaddr =
  ifa_name :: string
  ifa_addr :: "raw_addr option"
  ifa_netmask :: "raw_addr option"

type_synonym iface_map = "(string \<times> address \<times> nat) list"

definition raw_family :: "raw_addr \<Rightarrow> u16" where
  "raw_family a =
    (case a of RawIn s \<Rightarrow> sin_family s | RawIn6 s \<Rightarrow> sin6_family s | RawOther s \<Rightarrow> sa_family s)"

text \<open>\<open>insert\<close> of a \<open>multimap\<close>: after the entries with the same or a smaller name.\<close>

definition multimap_insert :: "string \<times> address \<times> nat \<Rightarrow> iface_map \<Rightarrow> iface_map" where
  "multimap_insert e m =
    (let below = (\<lambda>x. map char_code (fst x) \<le> map char_code (fst e))
     in takeWhile below m @ e # dropWhile below m)"

definition iface_entry :: "u16 \<Rightarrow> ifaddr \<Rightarrow> addr_error + (address \<times> nat) option" where
  "iface_entry family i =
    (case ifa_addr i of
       None \<Rightarrow> Inl NullAddr
     | Some a \<Rightarrow>
         if family \<noteq> AF_UNSPEC \<and> family \<noteq> raw_family a then Inr None
         else case a of
             RawIn s \<Rightarrow>
               (case ifa_netmask i of
                  Some (RawIn n) \<Rightarrow> Inr (Some (IPv4Address s, CountBytes (sin_addr n)))
                | _ \<Rightarrow> Inl NullAddr)
           | RawIn6 s \<Rightarrow>
               (case ifa_netmask i of
                  Some (RawIn6 n) \<Rightarrow> Inr (Some (IPv6Address s, sum_list (map CountBytes (sin6_addr n))))
                | _ \<Rightarrow> Inl NullAddr)
           | RawOther _ \<Rightarrow> Inr None)"

primrec iface_loop :: "u16 \<Rightarrow> ifaddr list \<Rightarrow> iface_map \<Rightarrow> addr_error + iface_map" where
  "iface_loop family [] result = Inr result"
| "iface_loop family (i # is) result =
    bindR (iface_entry family i) (\<lambda>e.
      iface_loop family is
        (case e of None \<Rightarrow> result | Some x \<Rightarrow> multimap_insert (ifa_name i, x) result))"

definition GetInterfaceAddresses ::
    "ifaddr list option \<Rightarrow> u16 \<Rightarrow> iface_map \<Rightarrow> addr_error + (bool \<times> iface_map)" where
  "GetInterfaceAddresses getifaddrs family result =
    (case getifaddrs of
       None \<Rightarrow> Inr (False, result)
     | Some results \<Rightarrow> bindR (iface_loop family results result) (\<lambda>r. Inr (r \<noteq> [], r)))"

definition GetInterfaceAddresses_of ::
    "endian \<Rightarrow> ifaddr list option \<Rightarrow> string \<Rightarrow> u16 \<Rightarrow> (address \<times> nat) list \<Rightarrow>
      addr_error + (bool \<times> (address \<times> nat) list)" where
  "GetInterfaceAddresses_of h getifaddrs iface family result =
    (if iface = [] \<or> iface = ''*'' then
       Inr (True, result @
         (if family = AF_INET \<or> family = AF_UNSPEC then [(IPv4Address (new_IPv4 h 0 0), 0)] else []) @
         (if family = AF_INET6 \<or> family = AF_UNSPEC then [(IPv6Address new_IPv6, 0)] else []))
     else
       bindR (GetInterfaceAddresses getifaddrs family []) (\<lambda>(ok, results).
         if \<not> ok then Inr (False, result)
         else
           let r = result @ map snd (filter (\<lambda>e. fst e = iface) results) in Inr (r \<noteq> [], r)))"

section \<open>Correctness\<close>

subsection \<open>Comparison\<close>

lemma memcmp_eq_0:
  "n \<le> length xs \<Longrightarrow> n \<le> length ys \<Longrightarrow> memcmp xs ys n = 0 \<longleftrightarrow> take n xs = take n ys"
  by (induction xs ys n rule: memcmp.induct) auto

lemma memcmp_neg:
  "n \<le> length xs \<Longrightarrow> n \<le> length ys \<Longrightarrow> memcmp xs ys n < 0 \<longleftrightarrow> take n xs < take n ys"
  by (induction xs ys n rule: memcmp.induct) auto

lemma memcmp_pos:
  "n \<le> length xs \<Longrightarrow> n \<le> length ys \<Longrightarrow> memcmp xs ys n > 0 \<longleftrightarrow> take n ys < take n xs"
  by (induction xs ys n rule: memcmp.induct) auto

text \<open>Only the first \<open>getAddrLen\<close> bytes take part, and the structure has them.\<close>

definition addr_key :: "endian \<Rightarrow> address \<Rightarrow> u8 list" where
  "addr_key h a = take (getAddrLen a) (getAddr h a)"

definition addr_wf :: "address \<Rightarrow> bool" where
  "addr_wf a =
    (case a of
       IPv4Address s \<Rightarrow> length (sin_zero s) = 8
     | IPv6Address s \<Rightarrow> length (sin6_addr s) = 16
     | UnixAddress s n \<Rightarrow> length (sun_path s) = sun_path_size \<and> n \<le> sun_path_size + sun_path_offset
     | UnknownAddress s \<Rightarrow> length (sa_data s) = 14)"

lemma addr_key_length: "addr_wf a \<Longrightarrow> length (addr_key h a) = getAddrLen a"
  by (auto simp: addr_wf_def addr_key_def getAddr_def getAddrLen_def word_size_def sun_path_size_def
      sun_path_offset_def split: address.splits)

lemma list_less_take_min:
  fixes xs ys :: "'a::linorder list"
  shows "xs < ys \<longleftrightarrow>
    take (min (length xs) (length ys)) xs < take (min (length xs) (length ys)) ys \<or>
    take (min (length xs) (length ys)) xs = take (min (length xs) (length ys)) ys \<and> length xs < length ys"
proof (induction xs arbitrary: ys)
  case Nil
  show ?case by (cases ys) auto
next
  case (Cons x xs)
  show ?case
  proof (cases ys)
    case (Cons y ys')
    with Cons.IH [of ys'] show ?thesis by auto
  qed simp
qed

lemma addr_less_key:
  assumes "addr_wf a" "addr_wf b"
  shows "addr_less h a b \<longleftrightarrow> addr_key h a < addr_key h b"
proof -
  define m where "m = min (getAddrLen a) (getAddrLen b)"
  have l: "getAddrLen a \<le> length (getAddr h a)" "getAddrLen b \<le> length (getAddr h b)"
    using addr_key_length [OF assms(1), of h] addr_key_length [OF assms(2), of h] by (auto simp: addr_key_def)
  then have m: "m \<le> length (getAddr h a)" "m \<le> length (getAddr h b)" by (auto simp: m_def)
  have k: "take m (getAddr h a) = take m (addr_key h a)" "take m (getAddr h b) = take m (addr_key h b)"
    by (simp_all add: addr_key_def m_def)
  have "addr_less h a b \<longleftrightarrow> take m (addr_key h a) < take m (addr_key h b) \<or>
      take m (addr_key h a) = take m (addr_key h b) \<and> getAddrLen a < getAddrLen b"
    using memcmp_neg [OF m] memcmp_pos [OF m] memcmp_eq_0 [OF m] unfolding k
    by (auto simp: addr_less_def Let_def m_def [symmetric])
  then show ?thesis
    using list_less_take_min [of "addr_key h a" "addr_key h b"]
      addr_key_length [OF assms(1), of h] addr_key_length [OF assms(2), of h] by (simp add: m_def)
qed

lemma addr_eq_key:
  assumes "addr_wf a" "addr_wf b"
  shows "addr_eq h a b \<longleftrightarrow> addr_key h a = addr_key h b"
proof -
  have l: "getAddrLen a \<le> length (getAddr h a)" "getAddrLen b \<le> length (getAddr h b)"
    using addr_key_length [OF assms(1), of h] addr_key_length [OF assms(2), of h] by (auto simp: addr_key_def)
  show ?thesis
  proof (cases "getAddrLen a = getAddrLen b")
    case True
    with l memcmp_eq_0 [of "getAddrLen a" "getAddr h a" "getAddr h b"] show ?thesis
      by (simp add: addr_eq_def addr_key_def)
  next
    case False
    then show ?thesis
      using addr_key_length [OF assms(1), of h] addr_key_length [OF assms(2), of h] by (auto simp: addr_eq_def)
  qed
qed

text \<open>
  On addresses whose arrays have the sizes of their structures \<open>operator<\<close> is a strict total
  order that agrees with \<open>operator==\<close>: of two addresses one is smaller or they are equal, never
  both, and the order is transitive.
\<close>
lemma address_order:
  assumes "addr_wf a" "addr_wf b" "addr_wf c"
  shows "\<not> addr_less h a a \<and> addr_eq h a a \<and>
    (addr_less h a b \<longrightarrow> addr_less h b c \<longrightarrow> addr_less h a c) \<and>
    (addr_less h a b \<or> addr_eq h a b \<or> addr_less h b a) \<and>
    (addr_less h a b \<longrightarrow> \<not> addr_less h b a \<and> addr_neq h a b) \<and>
    (addr_eq h a b \<longrightarrow> addr_less h a c = addr_less h b c \<and> addr_less h c a = addr_less h c b)"
  using less_linear [of "addr_key h a" "addr_key h b"]
  by (auto simp: addr_less_key addr_eq_key addr_neq_def assms dest: order.strict_trans)

subsection \<open>Byte order and bitwise operations\<close>

lemma le_bytes_bitwise:
  "le_bytes n (x OR y) = map2 (OR) (le_bytes n x) (le_bytes n y)"
  "le_bytes n (x AND y) = map2 (AND) (le_bytes n x) (le_bytes n y)"
  "le_bytes n (x XOR y) = map2 (XOR) (le_bytes n x) (le_bytes n y)"
  by (induction n arbitrary: x y) (simp_all add: unsigned_or_eq unsigned_and_eq unsigned_xor_eq)

lemma of_le_bytes_bitwise:
  "length xs = length ys \<Longrightarrow> of_le_bytes (map2 (OR) xs ys) = (of_le_bytes xs OR of_le_bytes ys :: 'a::len word)"
  "length xs = length ys \<Longrightarrow> 8 \<le> LENGTH('a) \<Longrightarrow>
    of_le_bytes (map2 (AND) xs ys) = (of_le_bytes xs AND of_le_bytes ys :: 'a::len word)"
  "length xs = length ys \<Longrightarrow> of_le_bytes (map2 (XOR) xs ys) = (of_le_bytes xs XOR of_le_bytes ys :: 'a::len word)"
  by (induction xs ys rule: list_induct2; simp; rule bit_word_eqI; auto simp: bit_simps dest: bit_imp_le_length)+

lemma byteswap_bitwise:
  fixes x y :: "'a::len word"
  assumes "8 \<le> LENGTH('a)"
  shows "byteswap (x OR y) = byteswap x OR byteswap y" "byteswap (x AND y) = byteswap x AND byteswap y"
    "byteswap (x XOR y) = byteswap x XOR byteswap y"
  using assms
  by (simp_all add: byteswap_def word_size_def le_bytes_bitwise rev_map zip_rev [symmetric] of_le_bytes_bitwise)

lemma swap_bitwise:
  fixes x y :: u32
  shows "byteswapOnLittleEndian h (x OR y) = byteswapOnLittleEndian h x OR byteswapOnLittleEndian h y"
    "byteswapOnLittleEndian h (x AND y) = byteswapOnLittleEndian h x AND byteswapOnLittleEndian h y"
    "byteswapOnLittleEndian h (NOT x) = NOT (byteswapOnLittleEndian h x)"
proof -
  have "byteswap (- 1 :: u32) = - 1" by code_simp
  then have "byteswap (x XOR - 1) = byteswap x XOR - 1" by (simp only: byteswap_bitwise(3) len_of_numeral_defs)
  then show "byteswapOnLittleEndian h (NOT x) = NOT (byteswapOnLittleEndian h x)"
    by (simp add: byteswapOnLittleEndian_def)
qed (simp_all add: byteswapOnLittleEndian_def byteswap_bitwise)

lemma swap_swap32: "byteswapOnLittleEndian h (byteswapOnLittleEndian h (x :: u32)) = x"
  by (simp add: byteswapOnLittleEndian_def byteswap_byteswap)

lemma swap_swap16: "byteswapOnLittleEndian h (byteswapOnLittleEndian h (x :: u16)) = x"
  by (simp add: byteswapOnLittleEndian_def byteswap_byteswap)

lemma CreateMask32:
  assumes "1 \<le> p" "p \<le> 32"
  shows "CreateMask p = Inr (mask (32 - unat p) :: u32)"
proof -
  have p: "1 \<le> unat p" "unat p \<le> 32" using assms by (simp_all add: word_le_nat_alt)
  then show ?thesis
    by (simp add: CreateMask_def Let_def mask_eq_exp_minus_1 push_bit_eq_mult)
qed

lemma CreateMask32_undefined: "p = 0 \<or> p > 32 \<Longrightarrow> (CreateMask p :: addr_error + u32) = Inl ShiftTooWide"
proof -
  assume a: "p = 0 \<or> p > 32"
  have "unat p < 2 ^ 32" using unsigned_less [of p] by simp
  with a show ?thesis
    by (auto simp: CreateMask_def Let_def usub64_def word_less_nat_alt)
qed

lemma prefix_cases: "1 \<le> p \<Longrightarrow> p \<le> (32 :: u32) \<Longrightarrow> p \<in> of_nat ` set [1..<33]"
proof -
  assume "1 \<le> p" "p \<le> 32"
  then have "1 \<le> unat p" "unat p < 33" by (simp_all add: word_le_nat_alt)
  then show ?thesis by (intro image_eqI [of _ _ "unat p"]) auto
qed

subsection \<open>Counting bits\<close>

fun popcount :: "nat \<Rightarrow> nat" where
  "popcount n = (if n = 0 then 0 else n mod 2 + popcount (n div 2))"

declare popcount.simps [simp del]

lemma popcount_0 [simp]: "popcount 0 = 0"
  by (simp add: popcount.simps)

lemma popcount_rec: "popcount n = n mod 2 + popcount (n div 2)"
  by (cases "n = 0") (simp, subst popcount.simps, simp)

lemma popcount_clear_lowest: "0 < n \<Longrightarrow> popcount n = Suc (popcount (n AND (n - 1)))"
proof (induction n rule: less_induct)
  case (less n)
  show ?case
  proof (cases "even n")
    case True
    then obtain m where m: "n = 2 * m" by blast
    with less.prems have pos: "0 < m" "m < n" by auto
    have "(2 * m - Suc 0) div 2 = m - 1" using pos by arith
    then have "n AND (n - 1) = 2 * (m AND (m - 1))"
      using pos by (subst and_rec) (simp add: m)
    with less.IH [OF pos(2,1)] show ?thesis
      by (simp add: popcount_rec [of n] popcount_rec [of "2 * _"] m)
  next
    case False
    then obtain m where m: "n = Suc (2 * m)" by (metis oddE Suc_eq_plus1)
    have "n AND (n - 1) = 2 * m" by (subst and_rec) (simp add: m)
    then show ?thesis by (simp add: popcount_rec [of "Suc (2 * m)"] popcount_rec [of "2 * m"] m)
  qed
qed

lemma CountBytes_popcount: "CountBytes v = popcount (unat v)"
proof (induction v rule: CountBytes.induct)
  case (1 v)
  show ?case
  proof (cases "v = 0")
    case False
    then have "unat (v AND (v - 1)) = unat v AND (unat v - 1)"
      by (simp add: unsigned_and_eq unat_minus_one)
    moreover have "0 < unat v" using False by (simp add: unat_gt_0)
    ultimately show ?thesis
      using False 1 popcount_clear_lowest [of "unat v"] by (simp add: CountBytes.simps [of v])
  qed (simp add: CountBytes.simps)
qed

lemma popcount_split: "popcount n = popcount (n mod 2 ^ k) + popcount (n div 2 ^ k)"
proof (induction k arbitrary: n)
  case (Suc k)
  have "popcount (n mod 2 ^ Suc k) = n mod 2 + popcount (n div 2 mod 2 ^ k)"
    by (subst popcount_rec) (simp add: mod_mod_cancel mod_mult2_eq)
  moreover have "n div 2 ^ Suc k = n div 2 div 2 ^ k" by (simp add: div_mult2_eq)
  ultimately show ?case using Suc.IH [of "n div 2"] popcount_rec [of n] by simp
qed simp

lemma popcount_shift: "popcount (2 ^ k * n) = popcount n"
  by (subst popcount_split [of _ k]) simp

lemma popcount_ones: "popcount (2 ^ p - 1) = p"
proof (induction p)
  case (Suc p)
  have "(2 ^ Suc p - 1) div 2 = (2 ^ p - 1 :: nat)" "(2 ^ Suc p - 1) mod 2 = (1 :: nat)"
    by (cases "2 ^ p :: nat"; simp)+
  with Suc show ?case using popcount_rec [of "2 ^ Suc p - 1"] by simp
qed simp

lemma popcount_le_bytes:
  "unat w < 2 ^ (8 * n) \<Longrightarrow> popcount (unat w) = sum_list (map (\<lambda>b. popcount (unat b)) (le_bytes n w))"
proof (induction n arbitrary: w)
  case 0
  then show ?case by simp
next
  case (Suc n)
  have d: "unat (drop_bit 8 w) = unat w div 2 ^ 8"
    by (rule trans [OF unat_drop_bit_eq drop_bit_eq_div])
  have u: "unat (ucast w :: u8) = unat w mod 2 ^ 8" by (simp add: unsigned_ucast_eq take_bit_eq_mod)
  from Suc.prems have "unat (drop_bit 8 w) < 2 ^ (8 * n)"
    unfolding d by (simp add: less_mult_imp_div_less power_add)
  from Suc.IH [OF this] popcount_split [of "unat w" 8] show ?case by (simp add: d u)
qed

lemma popcount_byteswap: "popcount (unat (byteswap (w :: u32))) = popcount (unat w)"
proof -
  have b: "unat x < 2 ^ (8 * 4)" for x :: u32 using unsigned_less [of x] by simp
  have "le_bytes 4 (byteswap w) = rev (le_bytes 4 w)"
    using le_bytes_full [of "rev (le_bytes 4 w)", where 'a = 32] by (simp add: byteswap_def word_size_def)
  then show ?thesis
    using popcount_le_bytes [OF b, of w] popcount_le_bytes [OF b, of "byteswap w"]
    by (simp add: rev_map [symmetric] sum_list_rev)
qed

lemma CountBytes_subnet:
  assumes "p \<le> 32"
  shows "CountBytes (byteswapOnLittleEndian h (NOT (mask (32 - p)) :: u32)) = p"
proof -
  have "unat (NOT (mask (32 - p)) :: u32) = 2 ^ (32 - p) * (2 ^ p - 1)"
  proof -
    have m: "unat (mask (32 - p) :: u32) = 2 ^ (32 - p) - 1"
    proof -
      have "(2 :: nat) ^ (32 - p) \<le> 2 ^ 32" by (rule power_increasing) simp_all
      then have "(2 :: nat) ^ (32 - p) - 1 < 2 ^ 32" by simp
      moreover have "(mask (32 - p) :: u32) = of_nat (2 ^ (32 - p) - 1)"
        by (simp add: mask_eq_exp_minus_1 of_nat_diff)
      moreover have "unat (of_nat n :: u32) = n" if "n < 2 ^ 32" for n
        using that by (simp add: unat_of_nat take_bit_nat_eq_self)
      ultimately show ?thesis by (simp only:)
    qed
    have n: "(NOT (mask (32 - p)) :: u32) = - 1 - mask (32 - p)" by (simp add: not_eq_complement)
    have "unat (- 1 - mask (32 - p) :: u32) = unat (- 1 :: u32) - unat (mask (32 - p) :: u32)"
      by (rule unat_sub) simp
    also have "\<dots> = 2 ^ 32 - 2 ^ (32 - p)"
      unfolding m by (simp add: unsigned_minus_1_eq_mask mask_eq_exp_minus_1)
    also have "(2 :: nat) ^ 32 = 2 ^ (32 - p) * 2 ^ p"
      using assms by (simp flip: power_add)
    finally show ?thesis unfolding n by (simp add: diff_mult_distrib2)
  qed
  then show ?thesis
    by (simp add: CountBytes_popcount byteswapOnLittleEndian_def popcount_byteswap popcount_shift popcount_ones [simplified])
qed

text \<open>
  C18: The IPv4 operations for every prefix length, on the address in host order and whatever the
  host's byte order. For a length from 1 to 32 the broadcast address has all host bits set, the
  subnet mask is the complement of the host bits, and counting its bits, as the interface listing
  does with a netmask, gives the prefix length back; \<open>networdAddress\<close> keeps the host bits and
  clears the network, the opposite of a network address. For a longer length \<open>broadcastAddress\<close> and
  \<open>networdAddress\<close> return null, while \<open>subnetMask\<close>, which does not look at it, shifts by a wrapped
  amount; with prefix 0 all three shift a 32-bit \<open>int\<close> by 32 bits, which is undefined.
\<close>
theorem ipv4_prefix_arithmetic:
  fixes a p :: u32
  defines "hosts \<equiv> mask (32 - unat p)"
  shows "IPv4_broadcastAddress h (new_IPv4 h a port) p =
      (if p > 32 then Inr None else if p = 0 then Inl ShiftTooWide else Inr (Some (new_IPv4 h (a OR hosts) port))) \<and>
    IPv4_networdAddress h (new_IPv4 h a port) p =
      (if p > 32 then Inr None else if p = 0 then Inl ShiftTooWide else Inr (Some (new_IPv4 h (a AND hosts) port))) \<and>
    IPv4_subnetMask h p =
      (if p > 32 \<or> p = 0 then Inl ShiftTooWide else Inr (new_IPv4 h (NOT hosts) 0)) \<and>
    CountBytes (sin_addr (new_IPv4 h (NOT hosts) 0)) = min (unat p) 32"
proof -
  have c: "CountBytes (sin_addr (new_IPv4 h (NOT hosts) 0)) = min (unat p) 32"
  proof -
    have "32 - unat p = 32 - min (unat p) 32" by simp
    then show ?thesis
      by (simp only: hosts_def new_IPv4_def sockaddr_in.simps CountBytes_subnet [OF min.cobounded2])
  qed
  have z: "byteswapOnLittleEndian h (0 :: u16) = 0"
    by (cases h) (simp_all add: byteswapOnLittleEndian_def, code_simp)
  show ?thesis
  proof (cases "p = 0 \<or> p > 32")
    case True
    with c CreateMask32_undefined [OF True] show ?thesis
      by (auto simp: IPv4_broadcastAddress_def IPv4_networdAddress_def IPv4_subnetMask_def)
  next
    case False
    then have p: "1 \<le> p" "p \<le> 32" by (simp_all add: word_less_nat_alt word_le_nat_alt unat_gt_0 Suc_le_eq)
    with False c z show ?thesis
      by (simp add: IPv4_broadcastAddress_def IPv4_networdAddress_def IPv4_subnetMask_def CreateMask32
          hosts_def [symmetric] new_IPv4_def swap_bitwise)
  qed
qed

theorem ipv4_prefix_arithmetic_witness:
  "IPv4_broadcastAddress LittleEndian (new_IPv4 LittleEndian 0xC0A80105 80) 24 =
      Inr (Some (new_IPv4 LittleEndian 0xC0A801FF 80)) \<and>
   IPv4_networdAddress LittleEndian (new_IPv4 LittleEndian 0xC0A80105 80) 24 =
      Inr (Some (new_IPv4 LittleEndian 0x00000005 80)) \<and>
   IPv4_subnetMask LittleEndian 24 = Inr (new_IPv4 LittleEndian (- 256) 0)"
  using ipv4_prefix_arithmetic [of LittleEndian "0xC0A80105" 80 24] by (simp add: mask_eq_exp_minus_1)

subsection \<open>Splitting host and service\<close>

lemma memchr_None: "memchr c xs = None \<longleftrightarrow> c \<notin> set xs"
  by (induction xs) auto

lemma memchr_append: "c \<notin> set xs \<Longrightarrow> memchr c (xs @ c # ys) = Some (length xs)"
  by (induction xs) auto

text \<open>
  \<open>Lookup\<close> asks for node and service as the text says: \<open>host\<close> alone, \<open>host:service\<close>,
  \<open>[address]\<close> and \<open>[address]:service\<close>. An IPv6 address without brackets keeps the pointer to its
  first colon as the service, so that the name service is asked for a service that does not exist.
\<close>
lemma lookup_host_and_service:
  assumes "node \<noteq> []" "hd node \<noteq> CHR ''[''" "CHR '':'' \<notin> set node" "CHR '':'' \<notin> set service"
    and "v6 \<noteq> []" "CHR '']'' \<notin> set v6"
  shows "lookup_args node = (node, None) \<and>
    lookup_args (node @ '':'' @ service) = (node, Some service) \<and>
    lookup_args (''['' @ v6 @ '']'') = (v6, None) \<and>
    lookup_args (''['' @ v6 @ '']:'' @ service) = (v6, Some service) \<and>
    lookup_args (node @ '':'' @ service @ '':'' @ rest) =
      (node @ '':'' @ service @ '':'' @ rest, Some ('':'' @ service @ '':'' @ rest))"
proof -
  have b: "split_bracket (node @ xs) = ([], None)" for xs
    using assms(1,2) by (simp add: split_bracket_def)
  have m: "memchr (CHR '':'') (node @ CHR '':'' # xs) = Some (length node)" for xs
    using assms(3) by (rule memchr_append)
  have 1: "lookup_args node = (node, None)"
    using assms(1,3) b [of "[]"] by (simp add: lookup_args_def split_service_def memchr_None [THEN iffD2])
  have 2: "lookup_args (node @ '':'' @ service) = (node, Some service)"
    using assms(1,4) b m by (simp add: lookup_args_def split_service_def memchr_None)
  have 3: "lookup_args (''['' @ v6 @ '']'' @ xs) =
      (v6, if xs \<noteq> [] \<and> hd xs = CHR '':'' then Some (tl xs) else None)" for xs
    using assms(5,6)
    by (simp add: lookup_args_def split_bracket_def split_service_def memchr_append [of _ v6, simplified])
  have 4: "lookup_args (node @ '':'' @ service @ '':'' @ rest) =
      (node @ '':'' @ service @ '':'' @ rest, Some ('':'' @ service @ '':'' @ rest))"
    using assms(1) b m by (simp add: lookup_args_def split_service_def memchr_None)
  from 1 2 4 3 [of "[]"] 3 [of "'':'' @ service"] show ?thesis by simp
qed

end
