(* ===== verification/Uri.thy ===== *)
theory Uri
  imports Address
begin

text \<open>
  URIs, \<open>inc/uri.h\<close> and the methods of \<open>src/uri_rl.cpp\<close> after its generated parser: default
  ports, the text of a URI and the address it names. A port is a signed 32-bit integer,
  which \<open>setPort\<close> of an address cuts to 16 bits.
\<close>

record uri =
  u_scheme :: string
  u_userinfo :: string
  u_host :: string
  u_path :: string
  u_query :: string
  u_fragment :: string
  u_port :: i32

definition new_uri :: uri where
  "new_uri = \<lparr>u_scheme = [], u_userinfo = [], u_host = [], u_path = [], u_query = [], u_fragment = [], u_port = 0\<rparr>"

definition isDefaultPort :: "uri \<Rightarrow> bool" where
  "isDefaultPort u =
    (if u_port u = 0 then True
     else if u_scheme u = ''http'' \<or> u_scheme u = ''ws'' then u_port u = 80
     else if u_scheme u = ''https'' \<or> u_scheme u = ''wss'' then u_port u = 443
     else False)"

definition uri_getPath :: "uri \<Rightarrow> string" where
  "uri_getPath u = (if u_path u = [] then ''/'' else u_path u)"

definition uri_getPort :: "uri \<Rightarrow> i32" where
  "uri_getPort u =
    (if u_port u \<noteq> 0 then u_port u
     else if u_scheme u = ''http'' \<or> u_scheme u = ''ws'' then 80
     else if u_scheme u = ''https'' \<or> u_scheme u = ''wss'' then 443
     else u_port u)"

definition uri_dump :: "uri \<Rightarrow> string" where
  "uri_dump u =
    u_scheme u @ ''://'' @ u_userinfo u @ (if u_userinfo u = [] then [] else ''@'') @ u_host u @
    (if isDefaultPort u then [] else '':'' @ show_int (sint (u_port u))) @
    uri_getPath u @ (if u_query u = [] then [] else ''?'') @ u_query u @
    (if u_fragment u = [] then [] else ''#'') @ u_fragment u"

definition uri_toString :: "uri \<Rightarrow> string" where
  "uri_toString u = uri_dump u"

definition createAddress :: "endian \<Rightarrow> 'i getaddrinfo \<Rightarrow> 'i \<Rightarrow> uri \<Rightarrow> address option" where
  "createAddress h gai hints u =
    (case LookupAnyIPAddress gai (u_host u) hints of
       None \<Rightarrow> None
     | Some a \<Rightarrow> Some (addr_setPort h a (ucast (uri_getPort u))))"

text \<open>The port that is left out of the text is the one \<open>getPort\<close> gives back.\<close>

lemma default_port_recovered:
  "isDefaultPort u \<Longrightarrow> uri_getPort (u\<lparr>u_port := 0\<rparr>) = uri_getPort u \<or>
    u_scheme u \<notin> {''http'', ''ws'', ''https'', ''wss''}"
  by (auto simp: isDefaultPort_def uri_getPort_def split: if_splits)

lemma createAddress_port:
  assumes "LookupAnyIPAddress gai (u_host u) hints = Some (IPv4Address s)"
  shows "createAddress h gai hints u = Some (IPv4Address (s\<lparr>sin_port := byteswapOnLittleEndian h (ucast (uri_getPort u))\<rparr>))"
  using assms by (simp add: createAddress_def addr_setPort_def IPv4_setPort_def)

end
