(* ===== verification/Hook.thy ===== *)
theory Hook
  imports Fd_Manager IO_Manager "HOL-Library.Signed_Division"
begin

text \<open>
  The hooked system calls, \<open>inc/hook.h\<close> and \<open>src/hook.cpp\<close>. A hooked call runs on a fiber and
  stops where the system or another fiber answers: the original call (\<open>SysRet\<close>, its value
  and \<open>errno\<close>), the registration with the I/O manager (\<open>EventAdded\<close>) and the fiber's resumption
  (\<open>Resumed\<close>, the value of \<open>tinfo->cancelled\<close> then). A run consumes a list of answers and
  gives what the call asked for, in order, and how it ended: with a value and \<open>errno\<close>, or
  still waiting for an answer. The flags of a descriptor in the kernel are a state that
  \<open>F_SETFL\<close>, \<open>F_GETFL\<close> and \<open>FIONBIO\<close> change and read.
\<close>

definition EINTR :: int where "EINTR = 4"
definition EBADF :: int where "EBADF = 9"
definition EAGAIN :: int where "EAGAIN = 11"
definition ETIMEDOUT :: int where "ETIMEDOUT = 110"
definition EINPROGRESS :: int where "EINPROGRESS = 115"

datatype io_answer =
    SysRet int int
  | EventAdded int int
  | Resumed int
  | SockError int int int

datatype io_request =
    CallSys
  | ArmTimer u64
  | AddEventReq int u32
  | CancelTimer
  | YieldHold
  | GetSockError

datatype io_outcome = Returned int int | Waiting

text \<open>Where a run of \<open>do_io\<close> is: in the original call, registering the event, or switched out.\<close>

datatype io_stage = Calling | Adding | Sleeping

record io_params =
  io_fd :: int
  io_event :: u32
  io_to :: u64

definition timer_requests :: "u64 \<Rightarrow> io_request list" where
  "timer_requests to = (if to \<noteq> - 1 then [ArmTimer to] else [])"

definition cancel_requests :: "u64 \<Rightarrow> io_request list" where
  "cancel_requests to = (if to \<noteq> - 1 then [CancelTimer] else [])"

text \<open>The part of \<open>do_io\<close> from \<open>retry\<close> on.\<close>

fun io_run :: "io_params \<Rightarrow> io_stage \<Rightarrow> io_answer list \<Rightarrow> io_request list \<times> io_outcome" where
  "io_run P Calling (SysRet n e # as) =
    (if n = - 1 \<and> e = EINTR then (let (r, out) = io_run P Calling as in (CallSys # r, out))
     else if n = - 1 \<and> e = EAGAIN then
       (let (r, out) = io_run P Adding as in (timer_requests (io_to P) @ AddEventReq (io_fd P) (io_event P) # r, out))
     else ([], Returned n e))"
| "io_run P Adding (EventAdded rt e # as) =
    (if rt \<noteq> 0 then (cancel_requests (io_to P), Returned (- 1) e)
     else (let (r, out) = io_run P Sleeping as in (YieldHold # r, out)))"
| "io_run P Sleeping (Resumed c # as) =
    (if c \<noteq> 0 then (cancel_requests (io_to P), Returned (- 1) c)
     else (let (r, out) = io_run P Calling as in (cancel_requests (io_to P) @ CallSys # r, out)))"
| "io_run P _ _ = ([], Waiting)"

text \<open>Only the original call, as when the hook is off.\<close>

definition plain_call :: "io_answer list \<Rightarrow> io_request list \<times> io_outcome" where
  "plain_call as = (CallSys # [], case as of SysRet n e # _ \<Rightarrow> Returned n e | _ \<Rightarrow> Waiting)"

text \<open>The pointer \<open>FdMgr::GetInstance()->get(fd)\<close> returns, with the context it points to.\<close>

definition fd_context_of :: "fd_manager \<Rightarrow> int \<Rightarrow> fd_error + (nat \<times> fd_ctx) option" where
  "fd_context_of fm fd =
    bindR (fm_get (\<lambda>_. None) (\<lambda>_. 0) 0 fm fd False) (\<lambda>(p, _, _).
      Inr (case p of None \<Rightarrow> None | Some p \<Rightarrow> map_option (Pair p) (fm_heap fm p)))"

definition do_io ::
    "bool \<Rightarrow> fd_manager \<Rightarrow> int \<Rightarrow> u32 \<Rightarrow> int \<Rightarrow> io_answer list \<Rightarrow> fd_error + (io_request list \<times> io_outcome)" where
  "do_io hook_enable fm fd event timeout_so as =
    (if \<not> hook_enable then Inr (plain_call as)
     else bindR (fd_context_of fm fd) (\<lambda>found.
       case found of
         None \<Rightarrow> Inr (plain_call as)
       | Some (_, c) \<Rightarrow>
           (if fc_isClosed c then Inr ([], Returned (- 1) EBADF)
            else if \<not> fc_isSocket c \<or> fc_userNonblock c then Inr (plain_call as)
            else
              let to = fc_getTimeout c timeout_so;
                  (r, out) = io_run \<lparr>io_fd = fd, io_event = event, io_to = to\<rparr> Calling as
              in Inr (CallSys # r, out))))"

text \<open>The calls that are \<open>do_io\<close> around the original one.\<close>

definition hook_read :: "bool \<Rightarrow> fd_manager \<Rightarrow> int \<Rightarrow> io_answer list \<Rightarrow> fd_error + (io_request list \<times> io_outcome)" where
  "hook_read en fm fd as = do_io en fm fd EV_READ SO_RCVTIMEO as"

definition hook_readv :: "bool \<Rightarrow> fd_manager \<Rightarrow> int \<Rightarrow> io_answer list \<Rightarrow> fd_error + (io_request list \<times> io_outcome)" where
  "hook_readv en fm fd as = do_io en fm fd EV_READ SO_RCVTIMEO as"

definition hook_recv :: "bool \<Rightarrow> fd_manager \<Rightarrow> int \<Rightarrow> io_answer list \<Rightarrow> fd_error + (io_request list \<times> io_outcome)" where
  "hook_recv en fm fd as = do_io en fm fd EV_READ SO_RCVTIMEO as"

definition hook_recvfrom :: "bool \<Rightarrow> fd_manager \<Rightarrow> int \<Rightarrow> io_answer list \<Rightarrow> fd_error + (io_request list \<times> io_outcome)" where
  "hook_recvfrom en fm fd as = do_io en fm fd EV_READ SO_RCVTIMEO as"

definition hook_recvmsg :: "bool \<Rightarrow> fd_manager \<Rightarrow> int \<Rightarrow> io_answer list \<Rightarrow> fd_error + (io_request list \<times> io_outcome)" where
  "hook_recvmsg en fm fd as = do_io en fm fd EV_READ SO_RCVTIMEO as"

definition hook_write :: "bool \<Rightarrow> fd_manager \<Rightarrow> int \<Rightarrow> io_answer list \<Rightarrow> fd_error + (io_request list \<times> io_outcome)" where
  "hook_write en fm fd as = do_io en fm fd EV_WRITE SO_SNDTIMEO as"

definition hook_writev :: "bool \<Rightarrow> fd_manager \<Rightarrow> int \<Rightarrow> io_answer list \<Rightarrow> fd_error + (io_request list \<times> io_outcome)" where
  "hook_writev en fm fd as = do_io en fm fd EV_WRITE SO_SNDTIMEO as"

definition hook_send :: "bool \<Rightarrow> fd_manager \<Rightarrow> int \<Rightarrow> io_answer list \<Rightarrow> fd_error + (io_request list \<times> io_outcome)" where
  "hook_send en fm fd as = do_io en fm fd EV_WRITE SO_SNDTIMEO as"

definition hook_sendto :: "bool \<Rightarrow> fd_manager \<Rightarrow> int \<Rightarrow> io_answer list \<Rightarrow> fd_error + (io_request list \<times> io_outcome)" where
  "hook_sendto en fm fd as = do_io en fm fd EV_WRITE SO_SNDTIMEO as"

definition hook_sendmsg :: "bool \<Rightarrow> fd_manager \<Rightarrow> int \<Rightarrow> io_answer list \<Rightarrow> fd_error + (io_request list \<times> io_outcome)" where
  "hook_sendmsg en fm fd as = do_io en fm fd EV_WRITE SO_SNDTIMEO as"

text \<open>
  \<open>accept\<close> and \<open>socket\<close> put the new descriptor into the table; the result of \<open>do_io\<close> is
  converted to \<open>int\<close>, in which descriptors fit. \<open>p\<close> is the address of a new context
  and \<open>later\<close> the table when \<open>do_io\<close> returns, which other fibers may have changed.
\<close>

definition hook_accept ::
    "(int \<Rightarrow> bool option) \<Rightarrow> (int \<Rightarrow> u32) \<Rightarrow> nat \<Rightarrow> bool \<Rightarrow> fd_manager \<Rightarrow> fd_manager \<Rightarrow> int \<Rightarrow>
      io_answer list \<Rightarrow> fd_error + (io_request list \<times> io_outcome \<times> fd_manager \<times> setfl list)" where
  "hook_accept fstat_f getfl p en fm later fd as =
    bindR (do_io en fm fd EV_READ SO_RCVTIMEO as) (\<lambda>(r, out).
      case out of
        Returned n e \<Rightarrow>
          (if n \<ge> 0 then bindR (fm_get fstat_f getfl p later n True) (\<lambda>(_, later, calls). Inr (r, out, later, calls))
           else Inr (r, out, later, []))
      | Waiting \<Rightarrow> Inr (r, out, later, []))"

definition hook_socket ::
    "(int \<Rightarrow> bool option) \<Rightarrow> (int \<Rightarrow> u32) \<Rightarrow> nat \<Rightarrow> bool \<Rightarrow> fd_manager \<Rightarrow> int \<Rightarrow>
      fd_error + (int \<times> fd_manager \<times> setfl list)" where
  "hook_socket fstat_f getfl p en fm fd =
    (if \<not> en then Inr (fd, fm, [])
     else if fd = - 1 then Inr (fd, fm, [])
     else bindR (fm_get fstat_f getfl p fm fd True) (\<lambda>(_, fm, calls). Inr (fd, fm, calls)))"

subsection \<open>Sleeping\<close>

text \<open>The hooked sleeps: a timer that schedules the fiber again, and the value they return (\<open>None\<close> while asleep).\<close>

definition sleep_on :: "u64 \<Rightarrow> io_answer list \<Rightarrow> io_request list \<times> int option" where
  "sleep_on ms as = ([ArmTimer ms, YieldHold], case as of Resumed _ # _ \<Rightarrow> Some 0 | _ \<Rightarrow> None)"

definition plain_sleep :: "io_answer list \<Rightarrow> io_request list \<times> int option" where
  "plain_sleep as = ([CallSys], case as of SysRet n _ # _ \<Rightarrow> Some n | _ \<Rightarrow> None)"

definition hook_sleep :: "bool \<Rightarrow> u32 \<Rightarrow> io_answer list \<Rightarrow> io_request list \<times> int option" where
  "hook_sleep en seconds as = (if \<not> en then plain_sleep as else sleep_on (ucast (seconds * 1000)) as)"

definition hook_usleep :: "bool \<Rightarrow> u32 \<Rightarrow> io_answer list \<Rightarrow> io_request list \<times> int option" where
  "hook_usleep en usec as = (if \<not> en then plain_sleep as else sleep_on (ucast (usec div 1000)) as)"

text \<open>\<open>int timeout_ms\<close> from the 64-bit \<open>tv_sec\<close> and \<open>tv_nsec\<close>, converted to \<open>uint64_t\<close>.\<close>

definition hook_nanosleep :: "bool \<Rightarrow> int \<Rightarrow> int \<Rightarrow> io_answer list \<Rightarrow> io_request list \<times> int option" where
  "hook_nanosleep en tv_sec tv_nsec as =
    (if \<not> en then plain_sleep as
     else
       let timeout_ms = word_of_int (tv_sec * 1000 + tv_nsec sdiv 1000 sdiv 1000) :: i32
       in sleep_on (scast timeout_ms) as)"

subsection \<open>Connecting\<close>

fun connect_end :: "io_answer list \<Rightarrow> io_outcome" where
  "connect_end (SockError r e error # _) =
    (if r = - 1 then Returned (- 1) e else if error = 0 then Returned 0 e else Returned (- 1) error)"
| "connect_end _ = Waiting"

fun connect_resumed :: "u64 \<Rightarrow> io_answer list \<Rightarrow> io_request list \<times> io_outcome" where
  "connect_resumed to (Resumed c # as) =
    (if c \<noteq> 0 then (cancel_requests to, Returned (- 1) c)
     else (cancel_requests to @ [GetSockError], connect_end as))"
| "connect_resumed to _ = ([], Waiting)"

fun connect_wait :: "u64 \<Rightarrow> io_answer list \<Rightarrow> io_request list \<times> io_outcome" where
  "connect_wait to (EventAdded rt e # as) =
    (if rt = 0 then (let (r, out) = connect_resumed to as in (YieldHold # r, out))
     else (cancel_requests to @ [GetSockError], connect_end as))"
| "connect_wait to _ = ([], Waiting)"

fun connect_called :: "int \<Rightarrow> u64 \<Rightarrow> io_answer list \<Rightarrow> io_request list \<times> io_outcome" where
  "connect_called fd to (SysRet n e # as) =
    (if n = 0 then ([], Returned 0 e)
     else if n \<noteq> - 1 \<or> e \<noteq> EINPROGRESS then ([], Returned n e)
     else (let (r, out) = connect_wait to as in (timer_requests to @ AddEventReq fd EV_WRITE # r, out)))"
| "connect_called fd to _ = ([], Waiting)"

definition connect_with_timeout ::
    "bool \<Rightarrow> fd_manager \<Rightarrow> int \<Rightarrow> u64 \<Rightarrow> io_answer list \<Rightarrow> fd_error + (io_request list \<times> io_outcome)" where
  "connect_with_timeout en fm fd timeout_ms as =
    (if \<not> en then Inr (plain_call as)
     else bindR (fd_context_of fm fd) (\<lambda>found.
       case found of
         None \<Rightarrow> Inr ([], Returned (- 1) EBADF)
       | Some (_, c) \<Rightarrow>
           (if fc_isClosed c then Inr ([], Returned (- 1) EBADF)
            else if \<not> fc_isSocket c then Inr (plain_call as)
            else if fc_userNonblock c then Inr (plain_call as)
            else (let (r, out) = connect_called fd timeout_ms as in Inr (CallSys # r, out)))))"

definition hook_connect ::
    "bool \<Rightarrow> fd_manager \<Rightarrow> u64 \<Rightarrow> int \<Rightarrow> io_answer list \<Rightarrow> fd_error + (io_request list \<times> io_outcome)" where
  "hook_connect en fm s_connect_timeout fd as = connect_with_timeout en fm fd s_connect_timeout as"

subsection \<open>Closing\<close>

text \<open>\<open>has_iom\<close> is whether the thread has an I/O manager; the flag returned asks for \<open>cancelAll(fd)\<close> before \<open>close_f\<close>.\<close>

definition hook_close :: "bool \<Rightarrow> bool \<Rightarrow> fd_manager \<Rightarrow> int \<Rightarrow> fd_error + (bool \<times> fd_manager)" where
  "hook_close en has_iom fm fd =
    (if \<not> en then Inr (False, fm)
     else bindR (fd_context_of fm fd) (\<lambda>found.
       if found \<noteq> None then bindR (fm_del fm fd) (\<lambda>fm. Inr (has_iom, fm)) else Inr (False, fm)))"
subsection \<open>Descriptor flags and socket options\<close>

text \<open>
  The kernel is a state \<open>'k\<close> with the original calls as functions on it. The variadic argument is
  the 64-bit word it is passed in: \<open>va_arg(va, int)\<close> takes the low half, a pointer all of it.
\<close>

datatype fcntl_arg = NoArg | IntArg u32 | PtrArg u64

definition F_DUPFD :: int where "F_DUPFD = 0"
definition F_GETFD :: int where "F_GETFD = 1"
definition F_SETFD :: int where "F_SETFD = 2"
definition F_GETFL :: int where "F_GETFL = 3"
definition F_SETFL :: int where "F_SETFL = 4"
definition F_GETLK :: int where "F_GETLK = 5"
definition F_SETLK :: int where "F_SETLK = 6"
definition F_SETLKW :: int where "F_SETLKW = 7"
definition F_SETOWN :: int where "F_SETOWN = 8"
definition F_GETOWN :: int where "F_GETOWN = 9"
definition F_SETSIG :: int where "F_SETSIG = 10"
definition F_GETSIG :: int where "F_GETSIG = 11"
definition F_SETOWN_EX :: int where "F_SETOWN_EX = 15"
definition F_GETOWN_EX :: int where "F_GETOWN_EX = 16"
definition F_SETLEASE :: int where "F_SETLEASE = 1024"
definition F_GETLEASE :: int where "F_GETLEASE = 1025"
definition F_NOTIFY :: int where "F_NOTIFY = 1026"
definition F_DUPFD_CLOEXEC :: int where "F_DUPFD_CLOEXEC = 1030"
definition F_SETPIPE_SZ :: int where "F_SETPIPE_SZ = 1031"
definition F_GETPIPE_SZ :: int where "F_GETPIPE_SZ = 1032"

lemmas fcntl_commands = F_DUPFD_def F_GETFD_def F_SETFD_def F_GETFL_def F_SETFL_def F_GETLK_def F_SETLK_def
  F_SETLKW_def F_SETOWN_def F_GETOWN_def F_SETSIG_def F_GETSIG_def F_SETOWN_EX_def F_GETOWN_EX_def
  F_SETLEASE_def F_GETLEASE_def F_NOTIFY_def F_DUPFD_CLOEXEC_def F_SETPIPE_SZ_def F_GETPIPE_SZ_def

type_synonym 'k fcntl_call = "int \<Rightarrow> int \<Rightarrow> fcntl_arg \<Rightarrow> 'k \<Rightarrow> u32 \<times> 'k"

text \<open>A context the hooks manage: an open socket.\<close>

definition managed :: "(nat \<times> fd_ctx) option \<Rightarrow> bool" where
  "managed found = (case found of None \<Rightarrow> False | Some (_, c) \<Rightarrow> \<not> fc_isClosed c \<and> fc_isSocket c)"

definition fcntl_setfl ::
    "'k fcntl_call \<Rightarrow> fd_manager \<Rightarrow> 'k \<Rightarrow> int \<Rightarrow> u32 \<Rightarrow> fd_error + (u32 \<times> fd_manager \<times> 'k)" where
  "fcntl_setfl fcntl_f fm k fd arg =
    bindR (fd_context_of fm fd) (\<lambda>found.
      if \<not> managed found then (let (r, k) = fcntl_f fd F_SETFL (IntArg arg) k in Inr (r, fm, k))
      else
        let (p, c) = the found;
            fm = fm_update fm p (\<lambda>c. fc_setUserNonblock c (arg AND O_NONBLOCK \<noteq> 0));
            arg = (if fc_sysNonblock c then arg OR O_NONBLOCK else arg AND NOT O_NONBLOCK);
            (r, k) = fcntl_f fd F_SETFL (IntArg arg) k
        in Inr (r, fm, k))"

definition fcntl_getfl ::
    "'k fcntl_call \<Rightarrow> fd_manager \<Rightarrow> 'k \<Rightarrow> int \<Rightarrow> fd_error + (u32 \<times> fd_manager \<times> 'k)" where
  "fcntl_getfl fcntl_f fm k fd =
    (let (arg, k) = fcntl_f fd F_GETFL NoArg k in
     bindR (fd_context_of fm fd) (\<lambda>found.
       if \<not> managed found then Inr (arg, fm, k)
       else if fc_userNonblock (snd (the found)) then Inr (arg OR O_NONBLOCK, fm, k)
       else Inr (arg AND NOT O_NONBLOCK, fm, k)))"

definition hook_fcntl ::
    "'k fcntl_call \<Rightarrow> fd_manager \<Rightarrow> 'k \<Rightarrow> int \<Rightarrow> int \<Rightarrow> u64 \<Rightarrow> fd_error + (u32 \<times> fd_manager \<times> 'k)" where
  "hook_fcntl fcntl_f fm k fd cmd va =
    (let pass = (\<lambda>arg. let (r, k) = fcntl_f fd cmd arg k in Inr (r, fm, k)) in
     if cmd = F_SETFL then fcntl_setfl fcntl_f fm k fd (ucast va)
     else if cmd = F_GETFL then fcntl_getfl fcntl_f fm k fd
     else if cmd \<in> {F_DUPFD, F_DUPFD_CLOEXEC, F_SETFD, F_SETOWN, F_SETSIG, F_SETLEASE, F_NOTIFY, F_SETPIPE_SZ}
       then pass (IntArg (ucast va))
     else if cmd \<in> {F_GETFD, F_GETOWN, F_GETSIG, F_GETLEASE, F_GETPIPE_SZ} then pass NoArg
     else if cmd \<in> {F_SETLK, F_SETLKW, F_GETLK} then pass (PtrArg va)
     else if cmd \<in> {F_GETOWN_EX, F_SETOWN_EX} then pass (PtrArg va)
     else pass NoArg)"

definition FIONBIO :: u64 where "FIONBIO = 0x5421"

text \<open>\<open>deref\<close> reads the \<open>int\<close> at an address of the caller's memory.\<close>

definition hook_ioctl ::
    "(int \<Rightarrow> u64 \<Rightarrow> u64 \<Rightarrow> 'k \<Rightarrow> u32 \<times> 'k) \<Rightarrow> (u64 \<Rightarrow> u32) \<Rightarrow> fd_manager \<Rightarrow> 'k \<Rightarrow> int \<Rightarrow> u64 \<Rightarrow> u64 \<Rightarrow>
      fd_error + (u32 \<times> fd_manager \<times> 'k)" where
  "hook_ioctl ioctl_f deref fm k d request arg =
    bindR (if request = FIONBIO then
             bindR (fd_context_of fm d) (\<lambda>found.
               Inr (if \<not> managed found then fm
                    else fm_update fm (fst (the found)) (\<lambda>c. fc_setUserNonblock c (deref arg \<noteq> 0))))
           else Inr fm)
      (\<lambda>fm. let (r, k) = ioctl_f d request arg k in Inr (r, fm, k))"

definition SOL_SOCKET :: int where "SOL_SOCKET = 1"

text \<open>A timeout option's \<open>timeval\<close> is the pair of its 64-bit members.\<close>

definition hook_getsockopt :: "('a \<Rightarrow> 'k \<Rightarrow> 'r \<times> 'k) \<Rightarrow> 'a \<Rightarrow> 'k \<Rightarrow> 'r \<times> 'k" where
  "hook_getsockopt getsockopt_f args k = getsockopt_f args k"

definition hook_setsockopt ::
    "(int \<Rightarrow> int \<Rightarrow> int \<Rightarrow> 'k \<Rightarrow> 'r \<times> 'k) \<Rightarrow> bool \<Rightarrow> fd_manager \<Rightarrow> 'k \<Rightarrow> int \<Rightarrow> int \<Rightarrow> int \<Rightarrow> int \<times> int \<Rightarrow>
      fd_error + ('r \<times> fd_manager \<times> 'k)" where
  "hook_setsockopt setsockopt_f en fm k sockfd level optname tv =
    bindR (if en \<and> level = SOL_SOCKET \<and> (optname = SO_RCVTIMEO \<or> optname = SO_SNDTIMEO) then
             bindR (fd_context_of fm sockfd) (\<lambda>found.
               Inr (case found of
                 None \<Rightarrow> fm
               | Some (p, _) \<Rightarrow>
                   fm_update fm p (\<lambda>c. fc_setTimeout c optname (word_of_int (fst tv * 1000 + snd tv sdiv 1000)))))
           else Inr fm)
      (\<lambda>fm. let (r, k) = setsockopt_f sockfd level optname k in Inr (r, fm, k))"

subsection \<open>The calls around a registration\<close>

text \<open>A request list in which timers are armed one at a time and each is cancelled; \<open>t\<close> is whether one is armed.\<close>

fun timers_balanced :: "bool \<Rightarrow> io_request list \<Rightarrow> bool" where
  "timers_balanced t [] = (\<not> t)"
| "timers_balanced t (ArmTimer _ # rs) = (\<not> t \<and> timers_balanced True rs)"
| "timers_balanced t (CancelTimer # rs) = (t \<and> timers_balanced False rs)"
| "timers_balanced t (_ # rs) = timers_balanced t rs"

lemma timers_balanced_simps [simp]:
  "timers_balanced False (timer_requests to @ rs) = timers_balanced (to \<noteq> - 1) rs"
  "timers_balanced (to \<noteq> - 1) (cancel_requests to @ rs) = timers_balanced False rs"
  "timers_balanced (to \<noteq> - 1) (cancel_requests to)"
  by (auto simp: timer_requests_def cancel_requests_def)

definition call_results :: "io_answer list \<Rightarrow> (int \<times> int) set" where
  "call_results as = {(n, e). SysRet n e \<in> set as}"

lemma io_run_spec:
  assumes "io_run P st as = (r, Returned n e)"
  shows "timers_balanced (st \<noteq> Calling \<and> io_to P \<noteq> - 1) r \<and>
    (SysRet n e \<in> set as \<and> \<not> (n = - 1 \<and> (e = EINTR \<or> e = EAGAIN)) \<or>
     n = - 1 \<and> (\<exists>rt. rt \<noteq> 0 \<and> EventAdded rt e \<in> set as) \<or>
     n = - 1 \<and> e \<noteq> 0 \<and> Resumed e \<in> set as)"
  using assms
proof (induction P st as arbitrary: r rule: io_run.induct)
  case (1 P n' e' as)
  show ?case
  proof (cases "n' = - 1 \<and> (e' = EINTR \<or> e' = EAGAIN)")
    case True
    with 1 show ?thesis by (fastforce split: if_splits prod.splits)
  next
    case False
    with 1(3) show ?thesis by (auto split: if_splits)
  qed
qed (fastforce split: if_splits prod.splits)+
lemma fd_context_of_ok:
  assumes "fm_ok fm" "0 \<le> fd"
  shows "fd_context_of fm fd =
    Inr (case fm_lookup fm fd of None \<Rightarrow> None | Some p \<Rightarrow> map_option (Pair p) (fm_heap fm p))"
  by (cases "fm_lookup fm fd")
    (simp_all add: fd_context_of_def fm_get_hit [OF assms(2)] fm_get_miss [OF assms(2)])

lemma fd_context_of_update:
  assumes "fm_ok fm" "0 \<le> fd" "fd_context_of fm fd = Inr (Some (p, c))" "\<And>c. fc_fd (f c) = fc_fd c"
  shows "fd_context_of (fm_update fm p f) fd = Inr (Some (p, f c))"
proof -
  have "fm_lookup fm fd = Some p" "fm_heap fm p = Some c"
    using assms(3) by (auto simp: fd_context_of_ok [OF assms(1,2)] split: option.splits)
  moreover from this have "fm_heap (fm_update fm p f) p = Some (f c)"
    by (simp add: fm_update_def)
  ultimately show ?thesis
    by (simp add: fd_context_of_ok [OF fm_update_ok [OF assms(1), of f p, OF assms(4)] assms(2)])
qed

text \<open>The runs of a hooked call on a managed descriptor.\<close>

lemma do_io_managed:
  assumes "fd_context_of fm fd = Inr (Some (p, c))" "\<not> fc_isClosed c" "fc_isSocket c" "\<not> fc_userNonblock c"
  shows "do_io True fm fd event ty as =
    (let (r, out) = io_run \<lparr>io_fd = fd, io_event = event, io_to = fc_getTimeout c ty\<rparr> Calling as
     in Inr (CallSys # r, out))"
  using assms by (simp add: do_io_def Let_def)

definition interrupted :: "nat \<Rightarrow> io_answer list" where
  "interrupted i = replicate i (SysRet (- 1) EINTR)"

definition wait_round :: "nat \<Rightarrow> int \<Rightarrow> io_answer list" where
  "wait_round i c = interrupted i @ [SysRet (- 1) EAGAIN, EventAdded 0 0, Resumed c]"

definition wait_requests :: "io_params \<Rightarrow> nat \<Rightarrow> io_request list" where
  "wait_requests P i = replicate (Suc i) CallSys @ timer_requests (io_to P) @
    [AddEventReq (io_fd P) (io_event P), YieldHold] @ cancel_requests (io_to P)"

definition call_run :: "io_params \<Rightarrow> io_answer list \<Rightarrow> io_request list \<times> io_outcome" where
  "call_run P as = (CallSys # fst (io_run P Calling as), snd (io_run P Calling as))"

lemma call_run_interrupted:
  "call_run P (interrupted i @ as) = (replicate i CallSys @ fst (call_run P as), snd (call_run P as))"
  by (induction i) (simp_all add: call_run_def interrupted_def case_prod_beta replicate_app_Cons_same)

lemma call_run_round:
  "call_run P (wait_round i 0 @ as) = (wait_requests P i @ fst (call_run P as), snd (call_run P as))"
  "c \<noteq> 0 \<Longrightarrow> call_run P (wait_round i c @ as) = (wait_requests P i, Returned (- 1) c)"
  by (simp_all add: wait_round_def call_run_interrupted)
    (simp_all add: call_run_def wait_requests_def case_prod_beta EINTR_def EAGAIN_def replicate_app_Cons_same)

lemma call_run_rounds:
  "call_run P (concat (map (\<lambda>i. wait_round i 0) js) @ as) =
    (concat (map (wait_requests P) js) @ fst (call_run P as), snd (call_run P as))"
  by (induction js) (simp_all add: call_run_round)

lemma call_run_last:
  "\<not> (n = - 1 \<and> (e = EINTR \<or> e = EAGAIN)) \<Longrightarrow>
    call_run P (interrupted j @ [SysRet n e]) = (replicate (Suc j) CallSys, Returned n e)"
  by (simp only: call_run_interrupted)
    (auto simp: call_run_def replicate_app_Cons_same replicate_append_same)

lemma do_io_call_run:
  assumes "fd_context_of fm fd = Inr (Some (p, c))" "\<not> fc_isClosed c" "fc_isSocket c" "\<not> fc_userNonblock c"
  shows "do_io True fm fd event ty as =
    Inr (call_run \<lparr>io_fd = fd, io_event = event, io_to = fc_getTimeout c ty\<rparr> as)"
  by (simp add: do_io_managed [OF assms] call_run_def case_prod_beta)

subsection \<open>Properties\<close>

text \<open>
  C22: a hooked call on an open socket the user has not made non-blocking never gives back a
  would-block or interrupted result of the original call: what it returns is another result of
  that call, or -1 with the reason the registration or the resumption gave (the timeout's
  \<open>ETIMEDOUT\<close>); and when it has returned, every timer it armed was cancelled, at most one
  having been armed at a time.
\<close>

theorem do_io_contract:
  assumes "fd_context_of fm fd = Inr (Some (p, c))" "\<not> fc_isClosed c" "fc_isSocket c" "\<not> fc_userNonblock c"
    and "do_io True fm fd event ty as = Inr (r, Returned n e)"
  shows "timers_balanced False r \<and>
    (SysRet n e \<in> set as \<and> \<not> (n = - 1 \<and> (e = EINTR \<or> e = EAGAIN)) \<or>
     n = - 1 \<and> (\<exists>rt. rt \<noteq> 0 \<and> EventAdded rt e \<in> set as) \<or>
     n = - 1 \<and> e \<noteq> 0 \<and> Resumed e \<in> set as)"
proof -
  let ?P = "\<lparr>io_fd = fd, io_event = event, io_to = fc_getTimeout c ty\<rparr>"
  from assms(5) have run: "io_run ?P Calling as = (fst (io_run ?P Calling as), Returned n e)"
    and r: "r = CallSys # fst (io_run ?P Calling as)"
    by (auto simp: do_io_call_run [OF assms(1-4)] call_run_def prod_eq_iff)
  from io_run_spec [OF run] r show ?thesis by simp
qed

text \<open>A table in which descriptor 3 is a socket with a receive timeout of 50 ms.\<close>

definition socket_table :: fd_manager where
  "socket_table = \<lparr>fm_heap = [7 \<mapsto> \<lparr>fc_isInit = True, fc_isSocket = True, fc_sysNonblock = True,
     fc_userNonblock = False, fc_isClosed = False, fc_fd = 3, fc_recvTimeout = 50, fc_sendTimeout = - 1\<rparr>],
     fm_datas = (replicate 64 None)[3 := Some 7]\<rparr>"

lemma socket_table_ok: "fm_ok socket_table"
  by (rule fm_okI) (auto simp: socket_table_def fm_lookup_def nth_list_update split: if_splits)

lemma socket_table_context:
  "fd_context_of socket_table 3 = Inr (Some (7, \<lparr>fc_isInit = True, fc_isSocket = True, fc_sysNonblock = True,
     fc_userNonblock = False, fc_isClosed = False, fc_fd = 3, fc_recvTimeout = 50, fc_sendTimeout = - 1\<rparr>))"
  by (simp add: fd_context_of_ok [OF socket_table_ok]) (simp add: socket_table_def fm_lookup_def)

theorem do_io_contract_witness:
  "timers_balanced False [CallSys, ArmTimer 50, AddEventReq 3 EV_READ, YieldHold, CancelTimer]"
proof -
  have "do_io True socket_table 3 EV_READ SO_RCVTIMEO [SysRet (- 1) EAGAIN, EventAdded 0 0, Resumed ETIMEDOUT] =
    Inr ([CallSys, ArmTimer 50, AddEventReq 3 EV_READ, YieldHold, CancelTimer], Returned (- 1) ETIMEDOUT)"
    by (simp add: do_io_def socket_table_context EAGAIN_def EINTR_def ETIMEDOUT_def fc_getTimeout_def
        timer_requests_def cancel_requests_def)
  from do_io_contract [OF socket_table_context _ _ _ this] show ?thesis by simp
qed

text \<open>
  C23: whatever number of times the original call is interrupted or would block, once it gives
  another result the hooked call returns that result, having made one original call for each
  answer and waited once, with a timer of the descriptor's timeout if it has one, for each
  would-block answer; if a wait ends by the timeout, the call returns -1 with \<open>ETIMEDOUT\<close> after
  that wait.
\<close>

theorem do_io_completes:
  fixes event :: u32 and ty :: int
  assumes "fd_context_of fm fd = Inr (Some (p, c))" "\<not> fc_isClosed c" "fc_isSocket c" "\<not> fc_userNonblock c"
  defines "P \<equiv> \<lparr>io_fd = fd, io_event = event, io_to = fc_getTimeout c ty\<rparr>"
  shows "(\<not> (n = - 1 \<and> (e = EINTR \<or> e = EAGAIN)) \<longrightarrow>
      do_io True fm fd event ty (concat (map (\<lambda>i. wait_round i 0) js) @ interrupted j @ [SysRet n e]) =
        Inr (concat (map (wait_requests P) js) @ replicate (Suc j) CallSys, Returned n e)) \<and>
    do_io True fm fd event ty (concat (map (\<lambda>i. wait_round i 0) js) @ wait_round j ETIMEDOUT @ as) =
      Inr (concat (map (wait_requests P) js) @ wait_requests P j, Returned (- 1) ETIMEDOUT)"
proof (intro conjI impI)
  assume "\<not> (n = - 1 \<and> (e = EINTR \<or> e = EAGAIN))"
  note last = call_run_last [OF this, of P j]
  show "do_io True fm fd event ty (concat (map (\<lambda>i. wait_round i 0) js) @ interrupted j @ [SysRet n e]) =
      Inr (concat (map (wait_requests P) js) @ replicate (Suc j) CallSys, Returned n e)"
    by (simp only: do_io_call_run [OF assms(1-4)] P_def [symmetric] call_run_rounds last fst_conv snd_conv)
next
  have "ETIMEDOUT \<noteq> 0" by (simp add: ETIMEDOUT_def)
  note timeout = call_run_round(2) [OF this, of P j as]
  show "do_io True fm fd event ty (concat (map (\<lambda>i. wait_round i 0) js) @ wait_round j ETIMEDOUT @ as) =
      Inr (concat (map (wait_requests P) js) @ wait_requests P j, Returned (- 1) ETIMEDOUT)"
    by (simp only: do_io_call_run [OF assms(1-4)] P_def [symmetric] call_run_rounds timeout fst_conv snd_conv)
qed

theorem do_io_completes_witness:
  "do_io True socket_table 3 EV_READ SO_RCVTIMEO
     [SysRet (- 1) EAGAIN, EventAdded 0 0, Resumed 0, SysRet (- 1) EINTR, SysRet 12 0] =
   Inr ([CallSys, ArmTimer 50, AddEventReq 3 EV_READ, YieldHold, CancelTimer, CallSys, CallSys], Returned 12 0)"
  using do_io_completes [OF socket_table_context, where n = 12 and e = 0 and js = "[0]" and j = 1
      and event = EV_READ and ty = SO_RCVTIMEO]
  by (simp add: wait_round_def interrupted_def wait_requests_def timer_requests_def cancel_requests_def
      fc_getTimeout_def)
lemma bit_O_NONBLOCK: "bit O_NONBLOCK n \<longleftrightarrow> n = 11"
  using bit_exp_iff [where 'a = "32 word", of 11 n] by (auto simp: O_NONBLOCK_def dest: bit_imp_possible_bit)

lemma and_O_NONBLOCK: "a AND O_NONBLOCK = (if bit a 11 then O_NONBLOCK else 0)"
  by (rule bit_word_eqI) (auto simp: bit_simps bit_O_NONBLOCK)

lemma O_NONBLOCK_masks:
  "(a OR O_NONBLOCK) AND O_NONBLOCK = O_NONBLOCK"
  "(a AND NOT O_NONBLOCK) AND O_NONBLOCK = 0"
  "(a OR O_NONBLOCK) AND NOT O_NONBLOCK = a AND NOT O_NONBLOCK"
  "(a AND NOT O_NONBLOCK) AND NOT O_NONBLOCK = a AND NOT O_NONBLOCK"
  by (rule bit_word_eqI; auto simp: bit_simps)+

text \<open>What the kernel promises of the flags of \<open>fd\<close>: a set mode is read back, and reading changes nothing.\<close>

definition flags_kernel :: "'k fcntl_call \<Rightarrow> int \<Rightarrow> bool" where
  "flags_kernel fcntl_f fd \<longleftrightarrow>
    (\<forall>k a. fst (fcntl_f fd F_SETFL (IntArg a) k) = 0 \<and>
      fst (fcntl_f fd F_GETFL NoArg (snd (fcntl_f fd F_SETFL (IntArg a) k))) AND O_NONBLOCK = a AND O_NONBLOCK) \<and>
    (\<forall>k. snd (fcntl_f fd F_GETFL NoArg k) = k)"

text \<open>\<open>ioctl\<close> hands \<open>FIONBIO\<close> to the kernel unchanged, whatever mode the hooks rely on.\<close>

lemma ioctl_passes_through:
  assumes "fd_context_of fm d = Inr (Some (p, c))" "managed (Some (p, c))"
  shows "hook_ioctl ioctl_f deref fm k d FIONBIO arg =
    Inr (fst (ioctl_f d FIONBIO arg k), fm_update fm p (\<lambda>c. fc_setUserNonblock c (deref arg \<noteq> 0)),
         snd (ioctl_f d FIONBIO arg k))"
  using assms by (simp add: hook_ioctl_def case_prod_beta)

text \<open>A receive or send timeout becomes the descriptor's in milliseconds; nothing sets apart 0, no timeout for the kernel.\<close>

lemma setsockopt_timeout:
  assumes "fm_ok fm" "0 \<le> fd" "fd_context_of fm fd = Inr (Some (p, c))" "optname = SO_RCVTIMEO \<or> optname = SO_SNDTIMEO"
  shows "\<exists>fm' c'. hook_setsockopt setsockopt_f True fm k fd SOL_SOCKET optname (sec, usec) =
      Inr (fst (setsockopt_f fd SOL_SOCKET optname k), fm', snd (setsockopt_f fd SOL_SOCKET optname k)) \<and>
    fd_context_of fm' fd = Inr (Some (p, c')) \<and>
    fc_getTimeout c' optname = word_of_int (sec * 1000 + usec sdiv 1000)"
  using assms(3,4) fd_context_of_update [OF assms(1-3), of "\<lambda>c. fc_setTimeout c optname (word_of_int (sec * 1000 + usec sdiv 1000))"]
  by (auto simp: hook_setsockopt_def case_prod_beta fc_setTimeout_def fc_getTimeout_def SO_RCVTIMEO_def SO_SNDTIMEO_def)

text \<open>
  For a socket the hooks keep in non-blocking mode, \<open>fcntl(F_SETFL)\<close> followed by
  \<open>fcntl(F_GETFL)\<close> shows the user the \<open>O_NONBLOCK\<close> bit it set and the kernel's other flags, while
  the kernel's own flag stays on; the context remembers the user's choice, which decides
  whether later calls wait.
\<close>

lemma nonblock_flag_roundtrip:
  assumes "fm_ok fm" "0 \<le> fd" "fd_context_of fm fd = Inr (Some (p, c))"
    and "managed (Some (p, c))" "fc_sysNonblock c" "flags_kernel fcntl_f fd"
  shows "\<exists>fm' k' r. hook_fcntl fcntl_f fm k fd F_SETFL va = Inr (0, fm', k') \<and>
    fd_context_of fm' fd = Inr (Some (p, c\<lparr>fc_userNonblock := (ucast va AND O_NONBLOCK \<noteq> 0)\<rparr>)) \<and>
    fst (fcntl_f fd F_GETFL NoArg k') AND O_NONBLOCK = O_NONBLOCK \<and>
    hook_fcntl fcntl_f fm' k' fd F_GETFL va' = Inr (r, fm', k') \<and>
    r AND O_NONBLOCK = ucast va AND O_NONBLOCK \<and>
    r AND NOT O_NONBLOCK = fst (fcntl_f fd F_GETFL NoArg k') AND NOT O_NONBLOCK"
proof -
  let ?a = "ucast va :: u32"
  let ?user = "?a AND O_NONBLOCK \<noteq> 0"
  let ?k = "snd (fcntl_f fd F_SETFL (IntArg (?a OR O_NONBLOCK)) k)"
  let ?fm = "fm_update fm p (\<lambda>c. fc_setUserNonblock c ?user)"
  let ?g = "fst (fcntl_f fd F_GETFL NoArg ?k)"
  let ?r = "if ?user then ?g OR O_NONBLOCK else ?g AND NOT O_NONBLOCK"
  have ctx: "fd_context_of ?fm fd = Inr (Some (p, c\<lparr>fc_userNonblock := ?user\<rparr>))"
    using fd_context_of_update [OF assms(1-3), of "\<lambda>c. fc_setUserNonblock c ?user"]
    by (simp add: fc_setUserNonblock_def)
  have m: "managed (Some (p, c\<lparr>fc_userNonblock := ?user\<rparr>))"
    using assms(4) by (simp add: managed_def)
  have set: "hook_fcntl fcntl_f fm k fd F_SETFL va = Inr (0, ?fm, ?k)"
    using assms(3-6) by (simp add: hook_fcntl_def fcntl_setfl_def Let_def case_prod_beta flags_kernel_def)
  have get: "hook_fcntl fcntl_f ?fm ?k fd F_GETFL va' = Inr (?r, ?fm, ?k)"
    using m assms(6)
    by (simp add: hook_fcntl_def fcntl_getfl_def ctx Let_def case_prod_beta flags_kernel_def F_SETFL_def F_GETFL_def)
  have kern: "?g AND O_NONBLOCK = O_NONBLOCK"
    using assms(6) by (simp add: flags_kernel_def O_NONBLOCK_masks(1))
  have "?r AND O_NONBLOCK = ?a AND O_NONBLOCK" "?r AND NOT O_NONBLOCK = ?g AND NOT O_NONBLOCK"
    by (auto simp: O_NONBLOCK_masks and_O_NONBLOCK [of ?a] simp del: ucast_id)
  with set ctx kern get show ?thesis by blast
qed

text \<open>A kernel that keeps one word of flags for each descriptor.\<close>

definition flag_store :: "(int \<Rightarrow> u32) fcntl_call" where
  "flag_store fd cmd arg k =
    (case arg of IntArg a \<Rightarrow> (0, if cmd = F_SETFL then k(fd := a) else k) | _ \<Rightarrow> (k fd, k))"

lemma flag_store_kernel: "flags_kernel flag_store fd"
  by (simp add: flags_kernel_def flag_store_def)

text \<open>
  A connection succeeds at once or when the socket's pending error is 0, which is also looked
  at when the event could not be registered, without waiting for the connection.
\<close>

lemma connect_called_outcome:
  assumes "connect_called fd to as = (r, Returned 0 e)"
  shows "SysRet 0 e \<in> set as \<or> (\<exists>rt. rt \<noteq> - 1 \<and> SockError rt e 0 \<in> set as)"
proof (cases "(fd, to, as)" rule: connect_called.cases)
  case (1 fd' to' n e' as')
  show ?thesis
  proof (cases "n = - 1 \<and> e' = EINPROGRESS")
    case True
    then obtain r' where w: "connect_wait to' as' = (r', Returned 0 e)"
      using assms 1 by (auto split: prod.splits)
    have "connect_end bs = Returned 0 e \<Longrightarrow> \<exists>rt. rt \<noteq> - 1 \<and> SockError rt e 0 \<in> set bs" for bs
      by (cases bs rule: connect_end.cases) (auto split: if_splits)
    then have "connect_resumed to' bs = (r'', Returned 0 e) \<Longrightarrow> \<exists>rt. rt \<noteq> - 1 \<and> SockError rt e 0 \<in> set bs"
        "connect_end bs = Returned 0 e \<Longrightarrow> \<exists>rt. rt \<noteq> - 1 \<and> SockError rt e 0 \<in> set bs" for bs r''
      by (cases "(to', bs)" rule: connect_resumed.cases; force split: if_splits)+
    then have "\<exists>rt. rt \<noteq> - 1 \<and> SockError rt e 0 \<in> set as'"
      using w by (cases "(to', as')" rule: connect_wait.cases; force split: if_splits prod.splits)
    with 1 show ?thesis by auto
  qed (use assms 1 in \<open>auto split: if_splits\<close>)
qed (use assms in auto)

lemma connect_unregistered:
  assumes "fd_context_of fm fd = Inr (Some (p, c))" "\<not> fc_isClosed c" "fc_isSocket c" "\<not> fc_userNonblock c"
  shows "connect_with_timeout True fm fd to [SysRet (- 1) EINPROGRESS, EventAdded (- 1) e, SockError 0 e' 0] =
    Inr (CallSys # timer_requests to @ AddEventReq fd EV_WRITE # cancel_requests to @ [GetSockError], Returned 0 e')"
  using assms by (simp add: connect_with_timeout_def)

text \<open>The milliseconds of \<open>sleep\<close> are computed at 32 bits.\<close>

lemma sleep_milliseconds:
  "unat s * 1000 < 2 ^ 32 \<Longrightarrow> hook_sleep True s as = sleep_on (of_nat (unat s * 1000)) as"
  "hook_sleep True 4294968 as = sleep_on 704 as"
proof -
  assume "unat s * 1000 < 2 ^ 32"
  then have "unat (s * 1000) = unat s * 1000"
    by (subst unat_mult_lem [THEN iffD1]) auto
  then have "ucast (s * 1000) = (of_nat (unat s * 1000) :: u64)"
    by (metis of_nat_unat)
  then show "hook_sleep True s as = sleep_on (of_nat (unat s * 1000)) as"
    by (simp add: hook_sleep_def)
qed (simp add: hook_sleep_def)

end
