(* ===== verification/Stream.thy ===== *)
theory Stream
  imports Byte_Array
begin

text \<open>
  Exact reads and writes over a stream, \<open>inc/stream.h\<close> and \<open>src/stream.cpp\<close>. A stream's
  virtual \<open>read(buffer, n)\<close> is a function from its state and \<open>n\<close> to the number returned, the bytes it
  stored at the front of the buffer and its next state; \<open>write\<close> takes the bytes
  offered. The loops add up in signed 64-bit integers and return \<open>int\<close>.
\<close>

subsection \<open>The loops\<close>

text \<open>The value of a 64-bit integer converted to \<open>int\<close>.\<close>

definition to_int :: "int \<Rightarrow> int" where
  "to_int n = sint (word_of_int n :: i32)"

type_synonym ('s, 'b) reader = "'s \<Rightarrow> int \<Rightarrow> int \<times> 'b list \<times> 's"
type_synonym ('s, 'b) writer = "'s \<Rightarrow> 'b list \<Rightarrow> int \<times> 's"

text \<open>The loop of \<open>readFixSize\<close>: the value it leaves with (\<open>None\<close> when all was read), what was stored, the state.\<close>

function read_fix_loop :: "('s, 'b) reader \<Rightarrow> 's \<Rightarrow> int \<Rightarrow> int option \<times> 'b list \<times> 's" where
  "read_fix_loop rd s left =
    (if left > 0 then
       let (len, bs, s') = rd s left in
       if len \<le> 0 then (Some len, [], s')
       else let (r, rest, s'') = read_fix_loop rd s' (left - len) in (r, bs @ rest, s'')
     else (None, [], s))"
  by pat_completeness auto
termination by (relation "measure (\<lambda>(_, _, left). nat left)") auto

definition readFixSize :: "('s, 'b) reader \<Rightarrow> 's \<Rightarrow> nat \<Rightarrow> int \<times> 'b list \<times> 's" where
  "readFixSize rd s n =
    (let (r, bs, s) = read_fix_loop rd s (sint (of_nat n :: i64))
     in (case r of Some len \<Rightarrow> to_int len | None \<Rightarrow> to_int (int n), bs, s))"

text \<open>The write loop; \<open>buffer\<close> holds what is still to be sent, of which at most \<open>left\<close> is offered.\<close>

function write_fix_loop :: "('s, 'b) writer \<Rightarrow> 's \<Rightarrow> 'b list \<Rightarrow> int \<Rightarrow> int option \<times> 's" where
  "write_fix_loop wr s buffer left =
    (if left > 0 then
       let (len, s') = wr s (take (nat left) buffer) in
       if len \<le> 0 then (Some len, s')
       else write_fix_loop wr s' (drop (nat len) buffer) (left - len)
     else (None, s))"
  by pat_completeness auto
termination by (relation "measure (\<lambda>(_, _, _, left). nat left)") auto

definition writeFixSize :: "('s, 'b) writer \<Rightarrow> 's \<Rightarrow> 'b list \<Rightarrow> nat \<Rightarrow> int \<times> 's" where
  "writeFixSize wr s buffer n =
    (let (r, s) = write_fix_loop wr s buffer (sint (of_nat n :: i64))
     in (case r of Some len \<Rightarrow> to_int len | None \<Rightarrow> to_int (int n), s))"

text \<open>The variants over a \<open>ByteArray\<close>: the stream's own operation moves the array's cursor.\<close>

function read_fix_loop_ba ::
    "('s \<Rightarrow> bytearray \<Rightarrow> int \<Rightarrow> ba_error + (int \<times> bytearray \<times> 's)) \<Rightarrow> 's \<Rightarrow> bytearray \<Rightarrow> int \<Rightarrow>
      ba_error + (int option \<times> bytearray \<times> 's)" where
  "read_fix_loop_ba rd s ba left =
    (if left > 0 then
       bindR (rd s ba left) (\<lambda>(len, ba, s).
         if len \<le> 0 then Inr (Some len, ba, s) else read_fix_loop_ba rd s ba (left - len))
     else Inr (None, ba, s))"
  by pat_completeness auto
termination by (relation "measure (\<lambda>(_, _, _, left). nat left)") auto

definition readFixSize_ba ::
    "('s \<Rightarrow> bytearray \<Rightarrow> int \<Rightarrow> ba_error + (int \<times> bytearray \<times> 's)) \<Rightarrow> 's \<Rightarrow> bytearray \<Rightarrow> nat \<Rightarrow>
      ba_error + (int \<times> bytearray \<times> 's)" where
  "readFixSize_ba rd s ba n =
    bindR (read_fix_loop_ba rd s ba (sint (of_nat n :: i64))) (\<lambda>(r, ba, s).
      Inr (case r of Some len \<Rightarrow> to_int len | None \<Rightarrow> to_int (int n), ba, s))"

text \<open>Writing from a \<open>ByteArray\<close> is the same loop around the other operation.\<close>

definition writeFixSize_ba ::
    "('s \<Rightarrow> bytearray \<Rightarrow> int \<Rightarrow> ba_error + (int \<times> bytearray \<times> 's)) \<Rightarrow> 's \<Rightarrow> bytearray \<Rightarrow> nat \<Rightarrow>
      ba_error + (int \<times> bytearray \<times> 's)" where
  "writeFixSize_ba wr s ba n = readFixSize_ba wr s ba n"

declare read_fix_loop.simps [simp del] write_fix_loop.simps [simp del] read_fix_loop_ba.simps [simp del]
subsection \<open>Whole transfers\<close>

text \<open>
  What the loops rely on: a read gives at most what was asked for, from the front of what
  the source still holds, and takes it away; one that gives nothing leaves the source
  alone. A write takes at most what was offered and appends it to the sink.
\<close>

definition reads_from :: "('s, 'b) reader \<Rightarrow> ('s \<Rightarrow> 'b list) \<Rightarrow> bool" where
  "reads_from rd src \<longleftrightarrow>
    (\<forall>s n. 0 < n \<longrightarrow> (case rd s n of (len, bs, s') \<Rightarrow>
      - (2 ^ 31) \<le> len \<and> len \<le> n \<and> (0 < len \<longrightarrow> int (length bs) = len \<and> src s = bs @ src s') \<and> (len \<le> 0 \<longrightarrow> src s' = src s)))"

definition writes_to :: "('s, 'b) writer \<Rightarrow> ('s \<Rightarrow> 'b list) \<Rightarrow> bool" where
  "writes_to wr sink \<longleftrightarrow>
    (\<forall>s bs. bs \<noteq> [] \<longrightarrow> (case wr s bs of (len, s') \<Rightarrow>
      - (2 ^ 31) \<le> len \<and> len \<le> int (length bs) \<and> sink s' = sink s @ take (nat len) bs))"

lemma reads_fromD:
  assumes "reads_from rd src" "0 < n" "rd s n = (len, bs, s')"
  shows "- (2 ^ 31) \<le> len" "len \<le> n" "0 < len \<Longrightarrow> int (length bs) = len" "0 < len \<Longrightarrow> src s = bs @ src s'"
    "len \<le> 0 \<Longrightarrow> src s' = src s"
proof -
  from assms(1,2) have "case rd s n of (len, bs, s') \<Rightarrow> - (2 ^ 31) \<le> len \<and> len \<le> n \<and>
    (0 < len \<longrightarrow> int (length bs) = len \<and> src s = bs @ src s') \<and> (len \<le> 0 \<longrightarrow> src s' = src s)"
    by (rule reads_from_def [THEN iffD1, rule_format])
  then show "- (2 ^ 31) \<le> len" "len \<le> n" "0 < len \<Longrightarrow> int (length bs) = len"
    "0 < len \<Longrightarrow> src s = bs @ src s'" "len \<le> 0 \<Longrightarrow> src s' = src s"
    unfolding assms(3) by simp_all
qed

lemma writes_toD:
  assumes "writes_to wr sink" "bs \<noteq> []" "wr s bs = (len, s')"
  shows "- (2 ^ 31) \<le> len" "len \<le> int (length bs)" "sink s' = sink s @ take (nat len) bs"
proof -
  from assms(1,2) have "case wr s bs of (len, s') \<Rightarrow> - (2 ^ 31) \<le> len \<and> len \<le> int (length bs) \<and>
    sink s' = sink s @ take (nat len) bs"
    by (rule writes_to_def [THEN iffD1, rule_format])
  then show "- (2 ^ 31) \<le> len" "len \<le> int (length bs)" "sink s' = sink s @ take (nat len) bs"
    unfolding assms(3) by simp_all
qed

lemma read_fix_loop_spec:
  assumes "reads_from rd src" "read_fix_loop rd s left = (r, bs, s')"
  shows "src s = bs @ src s' \<and>
    (case r of None \<Rightarrow> length bs = nat left
     | Some len \<Rightarrow> - (2 ^ 31) \<le> len \<and> len \<le> 0 \<and> int (length bs) < left \<and>
         (\<exists>u cs. rd u (left - int (length bs)) = (len, cs, s') \<and> src s = bs @ src u))"
  using assms
proof (induction rd s left arbitrary: r bs s' rule: read_fix_loop.induct)
  case (1 rd s left)
  obtain len cs t where one: "rd s left = (len, cs, t)" by (cases "rd s left") auto
  note simps = read_fix_loop.simps [of rd s left]
  consider "left \<le> 0" | "0 < left" "len \<le> 0" | "0 < left" "0 < len" by linarith
  then show ?case
  proof cases
    case 1
    with \<open>read_fix_loop rd s left = (r, bs, s')\<close> show ?thesis by (simp add: simps)
  next
    case 2
    then have "read_fix_loop rd s left = (Some len, [], t)" by (simp add: simps one)
    with 2 \<open>read_fix_loop rd s left = (r, bs, s')\<close> reads_fromD(1,5) [OF 1(2) _ one] one show ?thesis
      by (auto intro!: exI [of _ s])
  next
    case 3
    obtain rest where rest: "read_fix_loop rd t (left - len) = (r, rest, s')" "bs = cs @ rest"
      using 3 \<open>read_fix_loop rd s left = (r, bs, s')\<close>
      by (auto simp: simps one split: prod.splits)
    have "src t = rest @ src s' \<and>
      (case r of None \<Rightarrow> length rest = nat (left - len)
       | Some len' \<Rightarrow> - (2 ^ 31) \<le> len' \<and> len' \<le> 0 \<and> int (length rest) < left - len \<and>
           (\<exists>u cs. rd u (left - len - int (length rest)) = (len', cs, s') \<and> src t = rest @ src u))"
      by (rule 1(1) [OF 3(1) one [symmetric] refl refl _ 1(2) rest(1)]) (use 3 in simp)
    moreover have "src s = cs @ src t" "int (length cs) = len" "len \<le> left"
      using reads_fromD(3,4) [OF 1(2) 3(1) one 3(2)] reads_fromD(2) [OF 1(2) 3(1) one] by simp_all
    moreover from this have "left - len - int (length rest) = left - int (length bs)" by (simp add: rest(2))
    ultimately show ?thesis using 3 rest(2) by (cases r) auto
  qed
qed

lemma write_fix_loop_spec:
  assumes "writes_to wr sink" "int (length buf) = max 0 left" "write_fix_loop wr s buf left = (r, s')"
  shows "\<exists>n \<le> length buf. sink s' = sink s @ take n buf \<and>
    (case r of None \<Rightarrow> n = length buf
     | Some len \<Rightarrow> - (2 ^ 31) \<le> len \<and> len \<le> 0 \<and> n < length buf \<and>
         (\<exists>u. wr u (drop n buf) = (len, s') \<and> sink u = sink s @ take n buf))"
  using assms
proof (induction wr s buf left arbitrary: r s' rule: write_fix_loop.induct)
  case (1 wr s buf left)
  obtain len t where one: "wr s (take (nat left) buf) = (len, t)" by (cases "wr s (take (nat left) buf)") auto
  note simps = write_fix_loop.simps [of wr s buf left]
  show ?case
  proof (cases "left > 0")
    case False
    then have "write_fix_loop wr s buf left = (None, s)" by (simp add: simps)
    moreover have "buf = []" using False 1(3) by simp
    ultimately show ?thesis using 1(4) by simp
  next
    case pos: True
    then have all: "take (nat left) buf = buf" "buf \<noteq> []" and left: "int (length buf) = left"
      using 1(3) by auto
    note contract = writes_toD [OF 1(2) all(2) one [unfolded all(1)]]
    show ?thesis
    proof (cases "len \<le> 0")
      case True
      then have "write_fix_loop wr s buf left = (Some len, t)" using pos one by (simp add: simps)
      with True contract 1(4) all one show ?thesis by (intro exI [of _ 0]) auto
    next
      case False
      then have rest: "write_fix_loop wr t (drop (nat len) buf) (left - len) = (r, s')"
        using pos 1(4) one by (simp add: simps)
      have len: "int (length (drop (nat len) buf)) = max 0 (left - len)"
        using contract(2) False left by simp
      obtain n where n: "n \<le> length (drop (nat len) buf)" "sink s' = sink t @ take n (drop (nat len) buf)"
        "case r of None \<Rightarrow> n = length (drop (nat len) buf)
         | Some len' \<Rightarrow> - (2 ^ 31) \<le> len' \<and> len' \<le> 0 \<and> n < length (drop (nat len) buf) \<and>
             (\<exists>u. wr u (drop n (drop (nat len) buf)) = (len', s') \<and> sink u = sink t @ take n (drop (nat len) buf))"
        using 1(1) [OF pos one [symmetric] refl False 1(2) len rest] by auto
      have "take (nat len + n) buf = take (nat len) buf @ take n (drop (nat len) buf)"
        by (simp add: take_add)
      with n contract False left show ?thesis
        by (intro exI [of _ "nat len + n"]) (auto simp: add.commute split: option.splits)
    qed
  qed
qed

lemma to_int_id: "- (2 ^ 31) \<le> n \<Longrightarrow> n < 2 ^ 31 \<Longrightarrow> to_int n = n"
  by (simp add: to_int_def signed_of_int signed_take_bit_int_eq_self)

lemma size_as_int64: "n < 2 ^ 63 \<Longrightarrow> sint (of_nat n :: i64) = int n"
  by (simp add: signed_of_nat signed_take_bit_int_eq_self)

text \<open>A length of \<open>2 ^ 63\<close> or more reads nothing, and one of \<open>2 ^ 31\<close> returns a negative number when all was read.\<close>

lemma readFixSize_wraps:
  "readFixSize rd s (2 ^ 63) = (0, [], s)"
  "fst (read_fix_loop rd s (2 ^ 31)) = None \<Longrightarrow> fst (readFixSize rd s (2 ^ 31)) = - (2 ^ 31)"
  by (simp_all add: readFixSize_def read_fix_loop.simps [of rd s "- 9223372036854775808"] to_int_def
      case_prod_beta split: prod.splits)

subsection \<open>Properties\<close>

text \<open>
  C24: below 2 GiB \<open>readFixSize\<close> stores a front part of the source and takes it away, and returns
  the length exactly when that part has it; otherwise it stored less and returns what the last read,
  asked for all that was still missing, returned: 0 at the end of the stream or the negative number
  of an error. \<open>writeFixSize\<close> in the same way appends a front part of the buffer to the sink, and
  else returns what the write of all the rest returned. The stream's own \<open>read\<close> and \<open>write\<close> are
  taken to move what they return, and no more than was asked for.
\<close>

theorem fix_size_all_or_error:
  assumes "reads_from rd src" "writes_to wr sink" "n < 2 ^ 31" "length buf = n"
  shows "(case readFixSize rd s n of (r, bs, s') \<Rightarrow>
      src s = bs @ src s' \<and> (r = int n \<and> length bs = n \<or> r \<le> 0 \<and> length bs < n \<and>
        (\<exists>u cs. rd u (int (n - length bs)) = (r, cs, s') \<and> src s = bs @ src u))) \<and>
    (case writeFixSize wr t buf n of (r, t') \<Rightarrow>
      \<exists>k. sink t' = sink t @ take k buf \<and> (r = int n \<and> k = n \<or> r \<le> 0 \<and> k < n \<and>
        (\<exists>u. wr u (drop k buf) = (r, t') \<and> sink u = sink t @ take k buf)))"
proof
  have n: "sint (of_nat n :: i64) = int n" "to_int (int n) = int n"
    using assms(3) by (simp_all add: size_as_int64 to_int_id)
  obtain r bs s' where rd: "read_fix_loop rd s (int n) = (r, bs, s')" by (metis prod_cases3)
  from read_fix_loop_spec [OF assms(1) rd] show "case readFixSize rd s n of (r, bs, s') \<Rightarrow>
      src s = bs @ src s' \<and> (r = int n \<and> length bs = n \<or> r \<le> 0 \<and> length bs < n \<and>
        (\<exists>u cs. rd u (int (n - length bs)) = (r, cs, s') \<and> src s = bs @ src u))"
    by (cases r) (auto simp: readFixSize_def n rd to_int_id of_nat_diff)
  obtain r t' where wr: "write_fix_loop wr t buf (int n) = (r, t')" by fastforce
  have len: "int (length buf) = max 0 (int n)" using assms(4) by simp
  show "case writeFixSize wr t buf n of (r, t') \<Rightarrow>
      \<exists>k. sink t' = sink t @ take k buf \<and> (r = int n \<and> k = n \<or> r \<le> 0 \<and> k < n \<and>
        (\<exists>u. wr u (drop k buf) = (r, t') \<and> sink u = sink t @ take k buf))"
  proof (cases r)
    case None
    then show ?thesis using write_fix_loop_spec [OF assms(2) len wr] assms(4)
      by (auto simp: writeFixSize_def n wr intro!: exI [of _ n])
  next
    case (Some a)
    with write_fix_loop_spec [OF assms(2) len wr] obtain m where m: "m < n" "sink t' = sink t @ take m buf"
      "- (2 ^ 31) \<le> a" "a \<le> 0" "\<exists>u. wr u (drop m buf) = (a, t') \<and> sink u = sink t @ take m buf"
      using assms(4) by auto
    then show ?thesis using Some by (auto simp: writeFixSize_def n wr to_int_id intro!: exI [of _ m])
  qed
qed

text \<open>A pipe that moves at most three items at a time.\<close>

definition pipe_read :: "(nat list, nat) reader" where
  "pipe_read s n = (let bs = take (min 3 (nat n)) s in (int (length bs), bs, drop (min 3 (nat n)) s))"

definition pipe_write :: "(nat list, nat) writer" where
  "pipe_write s bs = (int (min 3 (length bs)), s @ take 3 bs)"

theorem fix_size_all_or_error_witness:
  "(\<exists>r bs s'. readFixSize pipe_read [1, 2, 3, 4] 5 = (r, bs, s') \<and> [1, 2, 3, 4] = bs @ s' \<and>
      (r = 5 \<and> length bs = 5 \<or> r \<le> 0 \<and> length bs < 5 \<and>
        (\<exists>u cs. pipe_read u (int (5 - length bs)) = (r, cs, s') \<and> [1, 2, 3, 4] = bs @ u))) \<and>
    (\<exists>k. snd (writeFixSize pipe_write [] [1, 2, 3, 4, 5] 5) = take k [1, 2, 3, 4, 5])"
proof -
  have rd: "reads_from pipe_read (\<lambda>s. s)"
    by (auto simp: reads_from_def pipe_read_def Let_def min_def)
  have wr: "writes_to pipe_write (\<lambda>s. s)"
    by (auto simp: writes_to_def pipe_write_def min_def)
  note p = fix_size_all_or_error [OF rd wr, where n = 5 and buf = "[1, 2, 3, 4, 5]" and
        s = "[1, 2, 3, 4]" and t = "[]", simplified]
  obtain r bs s' where r: "readFixSize pipe_read [1, 2, 3, 4] 5 = (r, bs, s')" by (metis prod_cases3)
  from p [THEN conjunct1] r show ?thesis using p [THEN conjunct2] by (auto split: prod.splits)
qed

end
