(* ===== verification/Socket.thy ===== *)
theory Socket
  imports Address Hook Stream
begin

text \<open>
  Sockets, \<open>inc/socket.h\<close> and \<open>src/socket.cpp\<close>. The system calls, which are the hooked
  ones when hooking is on, are the fields of a record of functions over the state \<open>'k\<close> of the system
  and of the descriptor table; each gives the value the code tests.
\<close>

subsection \<open>The calls a socket makes\<close>

record 'k sock_calls =
  os_socket :: "int \<Rightarrow> int \<Rightarrow> int \<Rightarrow> 'k \<Rightarrow> int \<times> 'k"
  os_close :: "int \<Rightarrow> 'k \<Rightarrow> int \<times> 'k"
  os_setsockopt :: "int \<Rightarrow> int \<Rightarrow> int \<Rightarrow> int list \<Rightarrow> 'k \<Rightarrow> int \<times> 'k"
  os_getsockopt :: "int \<Rightarrow> int \<Rightarrow> int \<Rightarrow> 'k \<Rightarrow> (int \<times> int) \<times> 'k"
  os_errno :: "'k \<Rightarrow> int"
  os_accept :: "int \<Rightarrow> 'k \<Rightarrow> int \<times> 'k"
  os_bind :: "int \<Rightarrow> address \<Rightarrow> 'k \<Rightarrow> int \<times> 'k"
  os_connect :: "int \<Rightarrow> address \<Rightarrow> 'k \<Rightarrow> int \<times> 'k"
  os_connect_with_timeout :: "int \<Rightarrow> address \<Rightarrow> u64 \<Rightarrow> 'k \<Rightarrow> int \<times> 'k"
  os_listen :: "int \<Rightarrow> int \<Rightarrow> 'k \<Rightarrow> int \<times> 'k"
  os_getsockname :: "int \<Rightarrow> address \<Rightarrow> 'k \<Rightarrow> (address \<times> nat) option \<times> 'k"
  os_getpeername :: "int \<Rightarrow> address \<Rightarrow> 'k \<Rightarrow> (address \<times> nat) option \<times> 'k"
  os_unlink :: "string \<Rightarrow> bool \<Rightarrow> 'k \<Rightarrow> bool \<times> 'k"
  os_fd_table :: "'k \<Rightarrow> fd_manager"

definition SOCK_STREAM :: int where "SOCK_STREAM = 1"
definition SOCK_DGRAM :: int where "SOCK_DGRAM = 2"
definition IPPROTO_TCP :: int where "IPPROTO_TCP = 6"
definition SO_REUSEADDR :: int where "SO_REUSEADDR = 2"
definition SO_ERROR :: int where "SO_ERROR = 4"
definition TCP_NODELAY :: int where "TCP_NODELAY = 1"

record socket =
  s_sock :: int
  s_family :: int
  s_type :: int
  s_protocol :: int
  s_isConnected :: bool
  s_localAddress :: "address option"
  s_remoteAddress :: "address option"

definition new_socket :: "int \<Rightarrow> int \<Rightarrow> int \<Rightarrow> socket" where
  "new_socket family type protocol =
    \<lparr>s_sock = - 1, s_family = family, s_type = type, s_protocol = protocol, s_isConnected = False,
     s_localAddress = None, s_remoteAddress = None\<rparr>"

definition isValid :: "socket \<Rightarrow> bool" where
  "isValid s \<longleftrightarrow> s_sock s \<noteq> - 1"

definition setOption :: "'k sock_calls \<Rightarrow> socket \<Rightarrow> int \<Rightarrow> int \<Rightarrow> int list \<Rightarrow> 'k \<Rightarrow> bool \<times> 'k" where
  "setOption os s level option v k =
    (let (rt, k) = os_setsockopt os (s_sock s) level option v k in (rt = 0, k))"

definition getOption :: "'k sock_calls \<Rightarrow> socket \<Rightarrow> int \<Rightarrow> int \<Rightarrow> 'k \<Rightarrow> (bool \<times> int) \<times> 'k" where
  "getOption os s level option k =
    (let ((rt, v), k) = os_getsockopt os (s_sock s) level option k in ((rt = 0, v), k))"

definition initSock :: "'k sock_calls \<Rightarrow> socket \<Rightarrow> 'k \<Rightarrow> 'k" where
  "initSock os s k =
    (let (_, k) = setOption os s SOL_SOCKET SO_REUSEADDR [1] k in
     if s_type s = SOCK_STREAM then snd (setOption os s IPPROTO_TCP TCP_NODELAY [1] k) else k)"

definition newSock :: "'k sock_calls \<Rightarrow> socket \<Rightarrow> 'k \<Rightarrow> socket \<times> 'k" where
  "newSock os s k =
    (let (fd, k) = os_socket os (s_family s) (s_type s) (s_protocol s) k;
         s = s\<lparr>s_sock := fd\<rparr>
     in (s, if fd \<noteq> - 1 then initSock os s k else k))"

text \<open>The factories.\<close>

definition CreateTCP :: "address \<Rightarrow> socket" where
  "CreateTCP a = new_socket (uint (getFamily a)) SOCK_STREAM 0"

definition CreateUDP :: "'k sock_calls \<Rightarrow> address \<Rightarrow> 'k \<Rightarrow> socket \<times> 'k" where
  "CreateUDP os a k =
    (let (s, k) = newSock os (new_socket (uint (getFamily a)) SOCK_DGRAM 0) k in (s\<lparr>s_isConnected := True\<rparr>, k))"

definition CreateTCPSocket :: socket where
  "CreateTCPSocket = new_socket (uint AF_INET) SOCK_STREAM 0"

definition CreateUDPSocket :: "'k sock_calls \<Rightarrow> 'k \<Rightarrow> socket \<times> 'k" where
  "CreateUDPSocket os k =
    (let (s, k) = newSock os (new_socket (uint AF_INET) SOCK_DGRAM 0) k in (s\<lparr>s_isConnected := True\<rparr>, k))"

definition CreateTCPSocket6 :: socket where
  "CreateTCPSocket6 = new_socket (uint AF_INET6) SOCK_STREAM 0"

definition CreateUDPSocket6 :: socket where
  "CreateUDPSocket6 = new_socket (uint AF_INET6) SOCK_STREAM 0"

definition CreateUnixTCPSocket :: socket where
  "CreateUnixTCPSocket = new_socket (uint AF_UNIX) SOCK_STREAM 0"

definition CreateUnixUDPSocket :: socket where
  "CreateUnixUDPSocket = new_socket (uint AF_UNIX) SOCK_DGRAM 0"

subsection \<open>Timeouts\<close>

text \<open>The timeout read from the descriptor's context, converted to \<open>int64_t\<close>.\<close>

definition sock_getTimeout :: "'k sock_calls \<Rightarrow> socket \<Rightarrow> int \<Rightarrow> 'k \<Rightarrow> fd_error + int" where
  "sock_getTimeout os s optname k =
    bindR (fd_context_of (os_fd_table os k) (s_sock s)) (\<lambda>found.
      Inr (case found of None \<Rightarrow> - 1 | Some (_, c) \<Rightarrow> sint (fc_getTimeout c optname)))"

definition getSendTimeout :: "'k sock_calls \<Rightarrow> socket \<Rightarrow> 'k \<Rightarrow> fd_error + int" where
  "getSendTimeout os s k = sock_getTimeout os s SO_SNDTIMEO k"

definition getRecvTimeout :: "'k sock_calls \<Rightarrow> socket \<Rightarrow> 'k \<Rightarrow> fd_error + int" where
  "getRecvTimeout os s k = sock_getTimeout os s SO_RCVTIMEO k"

definition timeval_of :: "int \<Rightarrow> int list" where
  "timeval_of v = [to_int (v sdiv 1000), to_int (v smod 1000 * 1000)]"

definition setSendTimeout :: "'k sock_calls \<Rightarrow> socket \<Rightarrow> int \<Rightarrow> 'k \<Rightarrow> 'k" where
  "setSendTimeout os s v k = snd (setOption os s SOL_SOCKET SO_SNDTIMEO (timeval_of v) k)"

definition setRecvTimeout :: "'k sock_calls \<Rightarrow> socket \<Rightarrow> int \<Rightarrow> 'k \<Rightarrow> 'k" where
  "setRecvTimeout os s v k = snd (setOption os s SOL_SOCKET SO_RCVTIMEO (timeval_of v) k)"

subsection \<open>Addresses of the two ends\<close>

text \<open>The structure a family's address is read into.\<close>

definition empty_address :: "endian \<Rightarrow> int \<Rightarrow> address" where
  "empty_address h family =
    (if family = uint AF_INET then IPv4Address (new_IPv4 h 0 0)
     else if family = uint AF_INET6 then IPv6Address new_IPv6
     else if family = uint AF_UNIX then new_Unix
     else UnknownAddress (new_Unknown (word_of_int family)))"

definition name_of ::
    "endian \<Rightarrow> (int \<Rightarrow> address \<Rightarrow> 'k \<Rightarrow> (address \<times> nat) option \<times> 'k) \<Rightarrow> socket \<Rightarrow> 'k \<Rightarrow> address option \<times> 'k" where
  "name_of h getname s k =
    (case getname (s_sock s) (empty_address h (s_family s)) k of
       (None, k) \<Rightarrow> (None, k)
     | (Some (a, n), k) \<Rightarrow> (Some (if s_family s = uint AF_UNIX then setAddrLen a n else a), k))"

definition sock_getRemoteAddress ::
    "endian \<Rightarrow> 'k sock_calls \<Rightarrow> socket \<Rightarrow> 'k \<Rightarrow> address \<times> socket \<times> 'k" where
  "sock_getRemoteAddress h os s k =
    (case s_remoteAddress s of
       Some a \<Rightarrow> (a, s, k)
     | None \<Rightarrow>
         (case name_of h (os_getpeername os) s k of
            (None, k) \<Rightarrow> (UnknownAddress (new_Unknown (word_of_int (s_family s))), s, k)
          | (Some a, k) \<Rightarrow> (a, s\<lparr>s_remoteAddress := Some a\<rparr>, k)))"

definition sock_getLocalAddress ::
    "endian \<Rightarrow> 'k sock_calls \<Rightarrow> socket \<Rightarrow> 'k \<Rightarrow> address \<times> socket \<times> 'k" where
  "sock_getLocalAddress h os s k =
    (case s_localAddress s of
       Some a \<Rightarrow> (a, s, k)
     | None \<Rightarrow>
         (case name_of h (os_getsockname os) s k of
            (None, k) \<Rightarrow> (UnknownAddress (new_Unknown (word_of_int (s_family s))), s, k)
          | (Some a, k) \<Rightarrow> (a, s\<lparr>s_localAddress := Some a\<rparr>, k)))"
subsection \<open>Connecting, binding, accepting, closing\<close>

definition sock_close :: "'k sock_calls \<Rightarrow> socket \<Rightarrow> 'k \<Rightarrow> bool \<times> socket \<times> 'k" where
  "sock_close os s k =
    (if \<not> s_isConnected s \<and> s_sock s = - 1 then (True, s, k)
     else
       let s = s\<lparr>s_isConnected := False\<rparr>
       in if s_sock s \<noteq> - 1 then (False, s\<lparr>s_sock := - 1\<rparr>, snd (os_close os (s_sock s) k))
          else (False, s, k))"

text \<open>\<open>if(!isValid()) newSock()\<close>, the start of \<open>bind\<close> and \<open>connect\<close>.\<close>

definition ensure_sock :: "'k sock_calls \<Rightarrow> socket \<Rightarrow> 'k \<Rightarrow> socket \<times> 'k" where
  "ensure_sock os s k = (if isValid s then (s, k) else newSock os s k)"

definition sock_connect ::
    "endian \<Rightarrow> 'k sock_calls \<Rightarrow> socket \<Rightarrow> address \<Rightarrow> u64 \<Rightarrow> 'k \<Rightarrow> bool \<times> socket \<times> 'k" where
  "sock_connect h os s addr timeout_ms k =
    (let (s, k) = ensure_sock os s k in
     if \<not> isValid s then (False, s, k)
     else if uint (getFamily addr) \<noteq> s_family s then (False, s, k)
     else
       let (rt, k) = (if timeout_ms = - 1 then os_connect os (s_sock s) addr k
                      else os_connect_with_timeout os (s_sock s) addr timeout_ms k)
       in if rt \<noteq> 0 then (let (_, s, k) = sock_close os s k in (False, s, k))
          else
            let s = s\<lparr>s_isConnected := True\<rparr>;
                (_, s, k) = sock_getRemoteAddress h os s k;
                (_, s, k) = sock_getLocalAddress h os s k
            in (True, s, k))"

definition reconnect ::
    "endian \<Rightarrow> 'k sock_calls \<Rightarrow> socket \<Rightarrow> u64 \<Rightarrow> 'k \<Rightarrow> bool \<times> socket \<times> 'k" where
  "reconnect h os s timeout_ms k =
    (case s_remoteAddress s of
       None \<Rightarrow> (False, s, k)
     | Some a \<Rightarrow> sock_connect h os (s\<lparr>s_localAddress := None\<rparr>) a timeout_ms k)"

text \<open>
  Binding a Unix address first tries to connect to it: a success means it is in use, and the
  socket that tried is closed as it goes out of scope; otherwise the path is unlinked.
\<close>

definition sock_bind :: "endian \<Rightarrow> 'k sock_calls \<Rightarrow> socket \<Rightarrow> address \<Rightarrow> 'k \<Rightarrow> bool \<times> socket \<times> 'k" where
  "sock_bind h os s addr k =
    (let (s, k) = ensure_sock os s k in
     if \<not> isValid s then (False, s, k)
     else if uint (getFamily addr) \<noteq> s_family s then (False, s, k)
     else
       let (in_use, k) =
         (case addr of
            UnixAddress u n \<Rightarrow>
              (let (ok, probe, k) = sock_connect h os CreateUnixTCPSocket addr (- 1) k;
                   k = (if ok then k else snd (os_unlink os (Unix_getPath u n) True k));
                   (_, _, k) = sock_close os probe k
               in (ok, k))
          | _ \<Rightarrow> (False, k))
       in if in_use then (False, s, k)
          else
            let (rt, k) = os_bind os (s_sock s) addr k
            in if rt \<noteq> 0 then (False, s, k)
               else (let (_, s, k) = sock_getLocalAddress h os s k in (True, s, k)))"

definition sock_listen :: "'k sock_calls \<Rightarrow> socket \<Rightarrow> int \<Rightarrow> 'k \<Rightarrow> bool \<times> 'k" where
  "sock_listen os s backlog k =
    (if \<not> isValid s then (False, k)
     else (let (rt, k) = os_listen os (s_sock s) backlog k in (rt = 0, k)))"

text \<open>\<open>init(sock)\<close>: it takes the descriptor only if the table has an open socket for it.\<close>

definition sock_init ::
    "endian \<Rightarrow> 'k sock_calls \<Rightarrow> socket \<Rightarrow> int \<Rightarrow> 'k \<Rightarrow> fd_error + (bool \<times> socket \<times> 'k)" where
  "sock_init h os s fd k =
    bindR (fd_context_of (os_fd_table os k) fd) (\<lambda>found.
      if managed found then
        let s = s\<lparr>s_sock := fd, s_isConnected := True\<rparr>;
            k = initSock os s k;
            (_, s, k) = sock_getLocalAddress h os s k;
            (_, s, k) = sock_getRemoteAddress h os s k
        in Inr (True, s, k)
      else Inr (False, s, k))"

definition sock_accept ::
    "endian \<Rightarrow> 'k sock_calls \<Rightarrow> socket \<Rightarrow> 'k \<Rightarrow> fd_error + (socket option \<times> 'k)" where
  "sock_accept h os s k =
    (let (newsock, k) = os_accept os (s_sock s) k in
     if newsock = - 1 then Inr (None, k)
     else
       bindR (sock_init h os (new_socket (s_family s) (s_type s) (s_protocol s)) newsock k) (\<lambda>(ok, sock, k).
         Inr (if ok then Some sock else None, k)))"

definition getError :: "'k sock_calls \<Rightarrow> socket \<Rightarrow> 'k \<Rightarrow> int \<times> 'k" where
  "getError os s k =
    (let ((ok, error), k) = getOption os s SOL_SOCKET SO_ERROR k in (if ok then error else os_errno os k, k))"

text \<open>Cancelling waits is the I/O manager's operation on the socket's descriptor.\<close>

definition sock_cancelRead ::
    "bool \<Rightarrow> 'f io_manager \<Rightarrow> socket \<Rightarrow> io_error + (bool \<times> 'f io_manager \<times> 'f scheduled list)" where
  "sock_cancelRead fails io s = cancelEvent fails io (s_sock s) EV_READ"

definition sock_cancelWrite ::
    "bool \<Rightarrow> 'f io_manager \<Rightarrow> socket \<Rightarrow> io_error + (bool \<times> 'f io_manager \<times> 'f scheduled list)" where
  "sock_cancelWrite fails io s = cancelEvent fails io (s_sock s) EV_WRITE"

definition sock_cancelAccept ::
    "bool \<Rightarrow> 'f io_manager \<Rightarrow> socket \<Rightarrow> io_error + (bool \<times> 'f io_manager \<times> 'f scheduled list)" where
  "sock_cancelAccept fails io s = cancelEvent fails io (s_sock s) EV_READ"

definition sock_cancelAll ::
    "bool \<Rightarrow> 'f io_manager \<Rightarrow> socket \<Rightarrow> io_error + (bool \<times> 'f io_manager \<times> 'f scheduled list)" where
  "sock_cancelAll fails io s = cancelAll fails io (s_sock s)"

text \<open>The text of a socket; a boolean and an integer print in decimal.\<close>

definition sock_dump :: "endian \<Rightarrow> socket \<Rightarrow> string" where
  "sock_dump h s =
    ''[Socket sock='' @ show_int (s_sock s) @ '' is_connected='' @ (if s_isConnected s then ''1'' else ''0'') @
    '' family='' @ show_int (s_family s) @ '' type='' @ show_int (s_type s) @
    '' protocol='' @ show_int (s_protocol s) @
    (case s_localAddress s of None \<Rightarrow> [] | Some a \<Rightarrow> '' local_address='' @ addr_toString h a) @
    (case s_remoteAddress s of None \<Rightarrow> [] | Some a \<Rightarrow> '' remote_address='' @ addr_toString h a) @ '']''"

definition sock_toString :: "endian \<Rightarrow> socket \<Rightarrow> string" where
  "sock_toString h s = sock_dump h s"

subsection \<open>Sending and receiving\<close>

text \<open>
  Each call makes one system call on the descriptor of a connected socket and gives -1
  otherwise. \<open>'b\<close> is a buffer or a list of them; a message carries the buffers and an address.
\<close>

record 'b msghdr =
  msg_iov :: 'b
  msg_name :: "address option"

definition when_connected :: "socket \<Rightarrow> (int \<Rightarrow> 'k \<Rightarrow> (int \<times> 'a) \<times> 'k) \<Rightarrow> 'a \<Rightarrow> 'k \<Rightarrow> (int \<times> 'a) \<times> 'k" where
  "when_connected s call none k = (if s_isConnected s then call (s_sock s) k else ((- 1, none), k))"

definition sock_send :: "(int \<Rightarrow> 'b \<Rightarrow> int \<Rightarrow> 'k \<Rightarrow> (int \<times> unit) \<times> 'k) \<Rightarrow> socket \<Rightarrow> 'b \<Rightarrow> int \<Rightarrow> 'k \<Rightarrow> (int \<times> unit) \<times> 'k" where
  "sock_send os_send s buffer flags k = when_connected s (\<lambda>fd. os_send fd buffer flags) () k"

definition sock_send_iov ::
    "(int \<Rightarrow> 'b msghdr \<Rightarrow> int \<Rightarrow> 'k \<Rightarrow> (int \<times> unit) \<times> 'k) \<Rightarrow> socket \<Rightarrow> 'b \<Rightarrow> int \<Rightarrow> 'k \<Rightarrow> (int \<times> unit) \<times> 'k" where
  "sock_send_iov os_sendmsg s buffers flags k =
    when_connected s (\<lambda>fd. os_sendmsg fd \<lparr>msg_iov = buffers, msg_name = None\<rparr> flags) () k"

definition sock_sendTo ::
    "(int \<Rightarrow> 'b \<Rightarrow> int \<Rightarrow> address \<Rightarrow> 'k \<Rightarrow> (int \<times> unit) \<times> 'k) \<Rightarrow> socket \<Rightarrow> 'b \<Rightarrow> address \<Rightarrow> int \<Rightarrow> 'k \<Rightarrow>
      (int \<times> unit) \<times> 'k" where
  "sock_sendTo os_sendto s buffer dest flags k = when_connected s (\<lambda>fd. os_sendto fd buffer flags dest) () k"

definition sock_sendTo_iov ::
    "(int \<Rightarrow> 'b msghdr \<Rightarrow> int \<Rightarrow> 'k \<Rightarrow> (int \<times> unit) \<times> 'k) \<Rightarrow> socket \<Rightarrow> 'b \<Rightarrow> address \<Rightarrow> int \<Rightarrow> 'k \<Rightarrow>
      (int \<times> unit) \<times> 'k" where
  "sock_sendTo_iov os_sendmsg s buffers dest flags k =
    when_connected s (\<lambda>fd. os_sendmsg fd \<lparr>msg_iov = buffers, msg_name = Some dest\<rparr> flags) () k"

text \<open>A receiving call gives also the bytes it stored, and the sender's address where it takes one.\<close>

definition sock_recv ::
    "(int \<Rightarrow> nat \<Rightarrow> int \<Rightarrow> 'k \<Rightarrow> (int \<times> 'b list) \<times> 'k) \<Rightarrow> socket \<Rightarrow> nat \<Rightarrow> int \<Rightarrow> 'k \<Rightarrow> (int \<times> 'b list) \<times> 'k" where
  "sock_recv os_recv s n flags k = when_connected s (\<lambda>fd. os_recv fd n flags) [] k"

definition sock_recv_iov ::
    "(int \<Rightarrow> 'i msghdr \<Rightarrow> int \<Rightarrow> 'k \<Rightarrow> (int \<times> 'b list) \<times> 'k) \<Rightarrow> socket \<Rightarrow> 'i \<Rightarrow> int \<Rightarrow> 'k \<Rightarrow> (int \<times> 'b list) \<times> 'k" where
  "sock_recv_iov os_recvmsg s buffers flags k =
    when_connected s (\<lambda>fd. os_recvmsg fd \<lparr>msg_iov = buffers, msg_name = None\<rparr> flags) [] k"

definition sock_recvFrom ::
    "(int \<Rightarrow> nat \<Rightarrow> int \<Rightarrow> address \<Rightarrow> 'k \<Rightarrow> (int \<times> 'b list \<times> address) \<times> 'k) \<Rightarrow> socket \<Rightarrow> nat \<Rightarrow> address \<Rightarrow> int \<Rightarrow> 'k \<Rightarrow>
      (int \<times> 'b list \<times> address) \<times> 'k" where
  "sock_recvFrom os_recvfrom s n source flags k = when_connected s (\<lambda>fd. os_recvfrom fd n flags source) ([], source) k"

definition sock_recvFrom_iov ::
    "(int \<Rightarrow> 'i msghdr \<Rightarrow> int \<Rightarrow> 'k \<Rightarrow> (int \<times> 'b list \<times> address) \<times> 'k) \<Rightarrow> socket \<Rightarrow> 'i \<Rightarrow> address \<Rightarrow> int \<Rightarrow> 'k \<Rightarrow>
      (int \<times> 'b list \<times> address) \<times> 'k" where
  "sock_recvFrom_iov os_recvmsg s buffers source flags k =
    when_connected s (\<lambda>fd. os_recvmsg fd \<lparr>msg_iov = buffers, msg_name = Some source\<rparr> flags) ([], source) k"
subsection \<open>The life of a socket\<close>

text \<open>What no operation changes, and what a connected socket has.\<close>

definition same_kind :: "socket \<Rightarrow> socket \<Rightarrow> bool" where
  "same_kind s s' \<longleftrightarrow> s_family s' = s_family s \<and> s_type s' = s_type s \<and> s_protocol s' = s_protocol s \<and>
    (\<forall>a. s_remoteAddress s = Some a \<longrightarrow> s_remoteAddress s' = Some a)"

definition sock_ok :: "socket \<Rightarrow> bool" where
  "sock_ok s \<longleftrightarrow> (s_isConnected s \<longrightarrow> isValid s)"

named_theorems sock_step_intros \<open>operations keep the kind and the state of a socket\<close>

lemma same_kind_refl [sock_step_intros]: "same_kind s s"
  by (simp add: same_kind_def)

lemma same_kind_trans: "same_kind s t \<Longrightarrow> same_kind t u \<Longrightarrow> same_kind s u"
  by (simp add: same_kind_def)

lemma ensure_sock_step [sock_step_intros]:
  "same_kind s (fst (ensure_sock os s k))" "sock_ok s \<Longrightarrow> sock_ok (fst (ensure_sock os s k))"
  "s_isConnected (fst (ensure_sock os s k)) = s_isConnected s"
  by (auto simp: ensure_sock_def newSock_def same_kind_def sock_ok_def isValid_def case_prod_beta Let_def)

lemma getRemoteAddress_step [sock_step_intros]:
  "same_kind s (fst (snd (sock_getRemoteAddress h os s k)))"
  "s_sock (fst (snd (sock_getRemoteAddress h os s k))) = s_sock s"
  "s_isConnected (fst (snd (sock_getRemoteAddress h os s k))) = s_isConnected s"
  by (auto simp: sock_getRemoteAddress_def same_kind_def split: option.splits prod.splits)

lemma getLocalAddress_step [sock_step_intros]:
  "same_kind s (fst (snd (sock_getLocalAddress h os s k)))"
  "s_sock (fst (snd (sock_getLocalAddress h os s k))) = s_sock s"
  "s_isConnected (fst (snd (sock_getLocalAddress h os s k))) = s_isConnected s"
  by (auto simp: sock_getLocalAddress_def same_kind_def split: option.splits prod.splits)

lemma sock_close_step [sock_step_intros]:
  "same_kind s (fst (snd (sock_close os s k)))"
  "s_sock (fst (snd (sock_close os s k))) = - 1"
  "\<not> s_isConnected (fst (snd (sock_close os s k)))"
  by (auto simp: sock_close_def same_kind_def Let_def)

lemma same_kind_updates [simp]:
  "same_kind t (s\<lparr>s_isConnected := b\<rparr>) = same_kind t s"
  "same_kind t (s\<lparr>s_localAddress := l\<rparr>) = same_kind t s"
  "same_kind (s\<lparr>s_localAddress := l\<rparr>) t = same_kind s t"
  "same_kind (s\<lparr>s_isConnected := b\<rparr>) t = same_kind s t"
  by (simp_all add: same_kind_def)

lemma sock_connect_step:
  "same_kind s (fst (snd (sock_connect h os s addr to k)))"
  "sock_ok s \<Longrightarrow> sock_ok (fst (snd (sock_connect h os s addr to k)))"
  "fst (sock_connect h os s addr to k) \<Longrightarrow>
    s_isConnected (fst (snd (sock_connect h os s addr to k))) \<and> isValid (fst (snd (sock_connect h os s addr to k)))"
proof -
  obtain s1 k1 where e: "ensure_sock os s k = (s1, k1)" by fastforce
  have kind: "same_kind s s1" and ok: "sock_ok s \<Longrightarrow> sock_ok s1"
    using ensure_sock_step(1,2) [where s = s and os = os and k = k] by (simp_all add: e)
  define call where "call = (if to = - 1 then os_connect os (s_sock s1) addr k1
    else os_connect_with_timeout os (s_sock s1) addr to k1)"
  obtain rt k2 where c: "call = (rt, k2)" by fastforce
  let ?s2 = "s1\<lparr>s_isConnected := True\<rparr>"
  obtain b s3 k3 where r: "sock_getRemoteAddress h os ?s2 k2 = (b, s3, k3)" by (metis prod_cases3)
  obtain d s4 k4 where l: "sock_getLocalAddress h os s3 k3 = (d, s4, k4)" by (metis prod_cases3)
  obtain f s5 k5 where cl: "sock_close os s1 k2 = (f, s5, k5)" by (metis prod_cases3)
  have s3: "same_kind ?s2 s3" "s_sock s3 = s_sock ?s2" "s_isConnected s3 = s_isConnected ?s2"
    using getRemoteAddress_step [where s = ?s2 and h = h and os = os and k = k2] by (simp_all add: r)
  have s4: "same_kind s3 s4" "s_sock s4 = s_sock s3" "s_isConnected s4 = s_isConnected s3"
    using getLocalAddress_step [where s = s3 and h = h and os = os and k = k3] by (simp_all add: l)
  have s5: "same_kind s1 s5" "s_sock s5 = - 1" "\<not> s_isConnected s5"
    using sock_close_step [where s = s1 and os = os and k = k2] by (simp_all add: cl)
  have run: "sock_connect h os s addr to k =
      (if \<not> isValid s1 \<or> uint (getFamily addr) \<noteq> s_family s1 then (False, s1, k1)
       else if rt \<noteq> 0 then (False, s5, k5) else (True, s4, k4))"
    by (simp add: sock_connect_def e call_def [symmetric] c r l cl Let_def)
  have "same_kind s s4" "same_kind s s5"
    using kind s3(1) s4(1) s5(1) by (auto intro: same_kind_trans)
  with kind ok s3 s4 s5 show "same_kind s (fst (snd (sock_connect h os s addr to k)))"
    "sock_ok s \<Longrightarrow> sock_ok (fst (snd (sock_connect h os s addr to k)))"
    "fst (sock_connect h os s addr to k) \<Longrightarrow>
      s_isConnected (fst (snd (sock_connect h os s addr to k))) \<and> isValid (fst (snd (sock_connect h os s addr to k)))"
    by (auto simp: run sock_ok_def isValid_def)
qed

lemma reconnect_step:
  "same_kind s (fst (snd (reconnect h os s to k)))" "sock_ok s \<Longrightarrow> sock_ok (fst (snd (reconnect h os s to k)))"
  using sock_connect_step(1,2) [of "s\<lparr>s_localAddress := None\<rparr>" h os _ to k]
  by (auto simp: reconnect_def same_kind_refl sock_ok_def isValid_def split: option.splits)

lemma sock_bind_step:
  "same_kind s (fst (snd (sock_bind h os s addr k)))" "sock_ok s \<Longrightarrow> sock_ok (fst (snd (sock_bind h os s addr k)))"
proof -
  obtain s1 k1 where e: "ensure_sock os s k = (s1, k1)" by fastforce
  have s1: "same_kind s s1" "sock_ok s \<Longrightarrow> sock_ok s1"
    using ensure_sock_step(1,2) [where s = s and os = os and k = k] by (simp_all add: e)
  have "fst (snd (sock_bind h os s addr k)) = s1 \<or>
    (\<exists>k'. fst (snd (sock_bind h os s addr k)) = fst (snd (sock_getLocalAddress h os s1 k')))"
    by (auto simp: sock_bind_def e case_prod_beta Let_def)
  with s1 show "same_kind s (fst (snd (sock_bind h os s addr k)))"
    "sock_ok s \<Longrightarrow> sock_ok (fst (snd (sock_bind h os s addr k)))"
    by (auto simp: sock_ok_def isValid_def getLocalAddress_step intro: same_kind_trans getLocalAddress_step(1))
qed

text \<open>The operations of a client, in any order.\<close>

datatype sock_op =
    OpConnect address u64
  | OpReconnect u64
  | OpBind address
  | OpClose
  | OpRemoteAddress
  | OpLocalAddress

definition sock_exec :: "endian \<Rightarrow> 'k sock_calls \<Rightarrow> sock_op \<Rightarrow> socket \<times> 'k \<Rightarrow> socket \<times> 'k" where
  "sock_exec h os op = (\<lambda>(s, k).
    case op of
      OpConnect a t \<Rightarrow> snd (sock_connect h os s a t k)
    | OpReconnect t \<Rightarrow> snd (reconnect h os s t k)
    | OpBind a \<Rightarrow> snd (sock_bind h os s a k)
    | OpClose \<Rightarrow> snd (sock_close os s k)
    | OpRemoteAddress \<Rightarrow> snd (sock_getRemoteAddress h os s k)
    | OpLocalAddress \<Rightarrow> snd (sock_getLocalAddress h os s k))"

lemma sock_exec_step:
  "same_kind (fst sk) (fst (sock_exec h os op sk))" "sock_ok (fst sk) \<Longrightarrow> sock_ok (fst (sock_exec h os op sk))"
proof -
  show "same_kind (fst sk) (fst (sock_exec h os op sk))"
    by (cases op) (simp_all add: sock_exec_def case_prod_beta sock_connect_step reconnect_step sock_bind_step sock_step_intros)
  show "sock_ok (fst (sock_exec h os op sk))" if "sock_ok (fst sk)"
    using that sock_connect_step(2) reconnect_step(2) sock_bind_step(2)
    by (cases op) (simp_all add: sock_exec_def case_prod_beta, simp_all add: sock_ok_def isValid_def sock_step_intros)
qed

lemma sock_execs_step:
  "same_kind (fst sk) (fst (fold (sock_exec h os) ops sk))"
  "sock_ok (fst sk) \<Longrightarrow> sock_ok (fst (fold (sock_exec h os) ops sk))"
proof (induction ops arbitrary: sk)
  case (Cons op ops)
  {
    case 1
    show ?case using same_kind_trans [OF sock_exec_step(1) Cons(1)] by simp
  next
    case 2
    show ?case using Cons(2) [OF sock_exec_step(2) [OF 2]] by simp
  }
qed (simp_all add: same_kind_refl)

subsection \<open>Properties\<close>

text \<open>How a client comes by a socket: a constructor, a factory, or \<open>accept\<close> on another socket.\<close>

definition obtained :: "endian \<Rightarrow> 'k sock_calls \<Rightarrow> socket \<Rightarrow> bool" where
  "obtained h os s \<longleftrightarrow> (\<exists>f t p. s = new_socket f t p) \<or> (\<exists>a. s = CreateTCP a) \<or>
     s \<in> {CreateTCPSocket, CreateTCPSocket6, CreateUDPSocket6, CreateUnixTCPSocket, CreateUnixUDPSocket} \<or>
     (\<exists>a k. s = fst (CreateUDP os a k)) \<or> (\<exists>k. s = fst (CreateUDPSocket os k)) \<or>
     (\<exists>l k k'. sock_accept h os l k = Inr (Some s, k'))"

lemma factory_not_connected:
  "\<not> s_isConnected (new_socket f t p)" "\<not> s_isConnected (CreateTCP a)"
  "s \<in> {CreateTCPSocket, CreateTCPSocket6, CreateUDPSocket6, CreateUnixTCPSocket, CreateUnixUDPSocket} \<Longrightarrow>
    \<not> s_isConnected s"
  by (auto simp: new_socket_def CreateTCP_def CreateTCPSocket_def CreateTCPSocket6_def CreateUDPSocket6_def
      CreateUnixTCPSocket_def CreateUnixUDPSocket_def)

lemma accepted_ok:
  assumes "sock_accept h os l k = Inr (Some s, k')"
  shows "sock_ok s"
proof -
  obtain fd k1 where a: "os_accept os (s_sock l) k = (fd, k1)" by fastforce
  from assms obtain k2 where fd: "fd \<noteq> - 1"
    and i: "sock_init h os (new_socket (s_family l) (s_type l) (s_protocol l)) fd k1 = Inr (True, s, k2)"
    by (auto simp: sock_accept_def a bindR_eq_Inr split: if_splits)
  define u where "u = (new_socket (s_family l) (s_type l) (s_protocol l))\<lparr>s_sock := fd, s_isConnected := True\<rparr>"
  obtain x u1 k3 where u1: "sock_getLocalAddress h os u (initSock os u k1) = (x, u1, k3)" by (metis prod_cases3)
  obtain y u2 k4 where u2: "sock_getRemoteAddress h os u1 k3 = (y, u2, k4)" by (metis prod_cases3)
  have "s = u2" using i by (auto simp: sock_init_def bindR_eq_Inr u_def [symmetric] u1 u2 Let_def split: if_splits)
  moreover have "s_sock u1 = s_sock u" "s_sock u2 = s_sock u1"
    using getLocalAddress_step(2) [where s = u and h = h and os = os and k = "initSock os u k1"]
      getRemoteAddress_step(2) [where s = u1 and h = h and os = os and k = k3] by (simp_all add: u1 u2)
  ultimately show ?thesis using fd by (simp add: sock_ok_def isValid_def u_def)
qed

lemma udp_created:
  "s_isConnected (fst (CreateUDP os a k))"
  "s_sock (fst (CreateUDP os a k)) = fst (os_socket os (uint (getFamily a)) SOCK_DGRAM 0 k)"
  "s_isConnected (fst (CreateUDPSocket os k))"
  "s_sock (fst (CreateUDPSocket os k)) = fst (os_socket os (uint AF_INET) SOCK_DGRAM 0 k)"
  by (simp_all add: CreateUDP_def CreateUDPSocket_def newSock_def new_socket_def case_prod_beta Let_def)

text \<open>
  C26: Take a socket from a constructor, a factory or \<open>accept\<close>; for the two UDP factories that open
  it at once let \<open>socket()\<close> have succeeded (when it fails they return a socket that is marked
  connected and has no descriptor, the last part). Whatever a client then does and whatever the
  system answers, the socket is marked connected only while it has a descriptor, and its family, type
  and protocol stay; \<open>connect\<close> succeeds only into a connected socket with a descriptor, and after
  \<open>close\<close> it is neither connected nor has one. The remote address, once known, is never replaced,
  also by connecting to another address.
\<close>

theorem socket_life_cycle:
  fixes ops :: "sock_op list"
  assumes "obtained h os s0"
    and "\<And>a k. s0 = fst (CreateUDP os a k) \<Longrightarrow> fst (os_socket os (uint (getFamily a)) SOCK_DGRAM 0 k) \<noteq> - 1"
    and "\<And>k. s0 = fst (CreateUDPSocket os k) \<Longrightarrow> fst (os_socket os (uint AF_INET) SOCK_DGRAM 0 k) \<noteq> - 1"
    and "fold (sock_exec h os) ops (s0, k) = (s, k')"
  shows "(s_isConnected s \<longrightarrow> s_sock s \<noteq> - 1) \<and>
    s_family s = s_family s0 \<and> s_type s = s_type s0 \<and> s_protocol s = s_protocol s0 \<and>
    (case sock_connect h os s addr to k'' of (ok, s', _) \<Rightarrow> ok \<longrightarrow> s_isConnected s' \<and> s_sock s' \<noteq> - 1) \<and>
    (case sock_close os s k'' of (_, s', _) \<Rightarrow> \<not> s_isConnected s' \<and> s_sock s' = - 1) \<and>
    (\<forall>a ops'. s_remoteAddress s = Some a \<longrightarrow>
      s_remoteAddress (fst (fold (sock_exec h os) ops' (s, k''))) = Some a) \<and>
    (fst (os_socket os (uint (getFamily addr)) SOCK_DGRAM 0 k'') = - 1 \<longrightarrow>
      s_isConnected (fst (CreateUDP os addr k'')) \<and> s_sock (fst (CreateUDP os addr k'')) = - 1)"
proof (intro conjI allI impI)
  have new: "sock_ok s0"
    using assms(1-3) factory_not_connected accepted_ok udp_created
    unfolding obtained_def sock_ok_def isValid_def by metis
  have "sock_ok s" "same_kind s0 s"
    using sock_execs_step [where sk = "(s0, k)" and h = h and os = os and ops = ops] new
    by (simp_all add: assms(4))
  then show "s_isConnected s \<Longrightarrow> s_sock s \<noteq> - 1" "s_family s = s_family s0" "s_type s = s_type s0"
    "s_protocol s = s_protocol s0"
    by (simp_all add: sock_ok_def isValid_def same_kind_def)
  show "case sock_connect h os s addr to k'' of (ok, s', _) \<Rightarrow> ok \<longrightarrow> s_isConnected s' \<and> s_sock s' \<noteq> - 1"
    using sock_connect_step(3) [where s = s and h = h and os = os and addr = addr and to = to and k = k'']
    by (simp add: isValid_def case_prod_beta)
  show "case sock_close os s k'' of (_, s', _) \<Rightarrow> \<not> s_isConnected s' \<and> s_sock s' = - 1"
    using sock_close_step [where s = s and os = os and k = k''] by (simp add: case_prod_beta)
  show "s_remoteAddress s = Some a \<Longrightarrow> s_remoteAddress (fst (fold (sock_exec h os) ops' (s, k''))) = Some a" for a ops'
    using sock_execs_step(1) [where sk = "(s, k'')" and h = h and os = os and ops = ops'] by (simp add: same_kind_def)
qed (simp_all add: udp_created)

text \<open>A system in which every call succeeds and both ends have the address asked for.\<close>

definition willing_os :: "unit sock_calls" where
  "willing_os =
    \<lparr>os_socket = \<lambda>_ _ _ k. (3, k), os_close = \<lambda>_ k. (0, k), os_setsockopt = \<lambda>_ _ _ _ k. (0, k),
     os_getsockopt = \<lambda>_ _ _ k. ((0, 0), k), os_errno = \<lambda>_. 0, os_accept = \<lambda>_ k. (4, k),
     os_bind = \<lambda>_ _ k. (0, k), os_connect = \<lambda>_ _ k. (0, k), os_connect_with_timeout = \<lambda>_ _ _ k. (0, k),
     os_listen = \<lambda>_ _ k. (0, k), os_getsockname = \<lambda>_ a k. (Some (a, getAddrLen a), k),
     os_getpeername = \<lambda>_ a k. (Some (a, getAddrLen a), k), os_unlink = \<lambda>_ _ k. (True, k),
     os_fd_table = \<lambda>_. new_fd_manager\<rparr>"

lemma willing_connect:
  "s_isConnected (fst (fold (sock_exec h willing_os) [OpConnect (IPv4Address (new_IPv4 h 0 80)) (- 1)]
    (CreateTCPSocket, ())))"
  by (simp add: sock_exec_def sock_connect_def ensure_sock_def newSock_def isValid_def new_socket_def willing_os_def
      CreateTCPSocket_def getFamily_def new_IPv4_def AF_INET_def sock_getRemoteAddress_def sock_getLocalAddress_def
      name_of_def case_prod_beta Let_def)

theorem socket_life_cycle_witness:
  "s_sock (fst (fold (sock_exec LittleEndian willing_os) [OpConnect (IPv4Address (new_IPv4 LittleEndian 0 80)) (- 1)]
    (CreateTCPSocket, ()))) \<noteq> - 1"
proof -
  have u: "fst (os_socket willing_os f t p k) \<noteq> - 1" for f t p k by (simp add: willing_os_def)
  have "obtained LittleEndian willing_os CreateTCPSocket" by (simp add: obtained_def)
  from socket_life_cycle [OF this u u prod.collapse [symmetric],
      where ops = "[OpConnect (IPv4Address (new_IPv4 LittleEndian 0 80)) (- 1)]"] willing_connect
  show ?thesis by blast
qed

text \<open>A descriptor that \<open>accept\<close> gives but the table does not know is dropped without being closed.\<close>

lemma accept_unknown_descriptor:
  assumes "os_accept os (s_sock s) k = (fd, k')" "fd \<noteq> - 1" "fd_context_of (os_fd_table os k') fd = Inr None"
  shows "sock_accept h os s k = Inr (None, k')"
  using assms by (simp add: sock_accept_def sock_init_def managed_def)

end
