(* ===== verification/Socket_Stream.thy ===== *)
theory Socket_Stream
  imports Socket
begin

text \<open>
  The stream over a socket, \<open>inc/socket_stream.h\<close> and \<open>src/socket_stream.cpp\<close>. Reading into a
  \<open>ByteArray\<close> hands the kernel the array's own blocks: the bytes received are stored
  through the vectors, in order, and the cursor moves past them; writing from one sends the
  bytes its vectors point to.
\<close>

record socket_stream =
  ss_socket :: "socket option"
  ss_owner :: bool

definition new_stream :: "socket option \<Rightarrow> bool \<Rightarrow> socket_stream" where
  "new_stream sock own = \<lparr>ss_socket = sock, ss_owner = own\<rparr>"

definition ss_isConnected :: "socket_stream \<Rightarrow> bool" where
  "ss_isConnected ss = (case ss_socket ss of None \<Rightarrow> False | Some s \<Rightarrow> s_isConnected s)"

text \<open>\<open>close\<close>, and the destructor, which closes only what it owns; the value of the socket's own close is dropped.\<close>

definition ss_close :: "'k sock_calls \<Rightarrow> socket_stream \<Rightarrow> 'k \<Rightarrow> socket_stream \<times> 'k" where
  "ss_close os ss k =
    (case ss_socket ss of
       None \<Rightarrow> (ss, k)
     | Some s \<Rightarrow> (let (_, s, k) = sock_close os s k in (ss\<lparr>ss_socket := Some s\<rparr>, k)))"

definition destroy_stream :: "'k sock_calls \<Rightarrow> socket_stream \<Rightarrow> 'k \<Rightarrow> socket_stream \<times> 'k" where
  "destroy_stream os ss k = (if ss_owner ss then ss_close os ss k else (ss, k))"

definition ss_read ::
    "(int \<Rightarrow> nat \<Rightarrow> int \<Rightarrow> 'k \<Rightarrow> (int \<times> 'b list) \<times> 'k) \<Rightarrow> socket_stream \<Rightarrow> nat \<Rightarrow> 'k \<Rightarrow> (int \<times> 'b list) \<times> 'k" where
  "ss_read os_recv ss n k =
    (case ss_socket ss of
       None \<Rightarrow> ((- 1, []), k)
     | Some s \<Rightarrow> (if \<not> s_isConnected s then ((- 1, []), k) else sock_recv os_recv s n 0 k))"

definition ss_write ::
    "(int \<Rightarrow> 'b \<Rightarrow> int \<Rightarrow> 'k \<Rightarrow> (int \<times> unit) \<times> 'k) \<Rightarrow> socket_stream \<Rightarrow> 'b \<Rightarrow> 'k \<Rightarrow> int \<times> 'k" where
  "ss_write os_send ss buffer k =
    (case ss_socket ss of
       None \<Rightarrow> (- 1, k)
     | Some s \<Rightarrow>
         (if \<not> s_isConnected s then (- 1, k)
          else (let ((rt, _), k) = sock_send os_send s buffer 0 k in (rt, k))))"

text \<open>What \<open>recvmsg\<close> does with the vectors it is given, and what \<open>sendmsg\<close> takes from them.\<close>

fun fill_iovs :: "node list \<Rightarrow> iovec list \<Rightarrow> u8 list \<Rightarrow> node list" where
  "fill_iovs nodes [] bs = nodes"
| "fill_iovs nodes (v # vs) bs =
    fill_iovs
      (nodes[iov_node v := overwrite (nodes ! iov_node v) (iov_off v) (map Some (take (iov_len v) bs))])
      vs (drop (iov_len v) bs)"

definition gather_iovs :: "node list \<Rightarrow> iovec list \<Rightarrow> cell list" where
  "gather_iovs nodes vs = concat (map (iov_bytes nodes) vs)"

definition ss_read_ba ::
    "(int \<Rightarrow> iovec list msghdr \<Rightarrow> int \<Rightarrow> 'k \<Rightarrow> (int \<times> u8 list) \<times> 'k) \<Rightarrow> socket_stream \<Rightarrow> bytearray \<Rightarrow> nat \<Rightarrow> 'k \<Rightarrow>
      ba_error + (int \<times> bytearray \<times> 'k)" where
  "ss_read_ba os_recvmsg ss ba n k =
    (if \<not> ss_isConnected ss then Inr (- 1, ba, k)
     else
       bindR (getWriteBuffers ba n) (\<lambda>(iovs, _, ba).
         let ((rt, bs), k) = sock_recv_iov os_recvmsg (the (ss_socket ss)) iovs 0 k;
             ba = ba\<lparr>ba_nodes := fill_iovs (ba_nodes ba) iovs bs\<rparr>
         in if rt > 0 then bindR (setPosition ba (ba_position ba + nat rt)) (\<lambda>ba. Inr (rt, ba, k))
            else Inr (rt, ba, k)))"

definition ss_write_ba ::
    "(int \<Rightarrow> cell list msghdr \<Rightarrow> int \<Rightarrow> 'k \<Rightarrow> (int \<times> unit) \<times> 'k) \<Rightarrow> socket_stream \<Rightarrow> bytearray \<Rightarrow> nat \<Rightarrow> 'k \<Rightarrow>
      ba_error + (int \<times> bytearray \<times> 'k)" where
  "ss_write_ba os_sendmsg ss ba n k =
    (if \<not> ss_isConnected ss then Inr (- 1, ba, k)
     else
       bindR (getReadBuffers ba n) (\<lambda>(iovs, _).
         let ((rt, _), k) = sock_send_iov os_sendmsg (the (ss_socket ss)) (gather_iovs (ba_nodes ba) iovs) 0 k
         in if rt > 0 then bindR (setPosition ba (ba_position ba + nat rt)) (\<lambda>ba. Inr (rt, ba, k))
            else Inr (rt, ba, k)))"

text \<open>The addresses of the socket's ends and their texts.\<close>

definition ss_getRemoteAddress ::
    "endian \<Rightarrow> 'k sock_calls \<Rightarrow> socket_stream \<Rightarrow> 'k \<Rightarrow> address option \<times> socket_stream \<times> 'k" where
  "ss_getRemoteAddress h os ss k =
    (case ss_socket ss of
       None \<Rightarrow> (None, ss, k)
     | Some s \<Rightarrow>
         (let (a, s, k) = sock_getRemoteAddress h os s k in (Some a, ss\<lparr>ss_socket := Some s\<rparr>, k)))"

definition ss_getLocalAddress ::
    "endian \<Rightarrow> 'k sock_calls \<Rightarrow> socket_stream \<Rightarrow> 'k \<Rightarrow> address option \<times> socket_stream \<times> 'k" where
  "ss_getLocalAddress h os ss k =
    (case ss_socket ss of
       None \<Rightarrow> (None, ss, k)
     | Some s \<Rightarrow>
         (let (a, s, k) = sock_getLocalAddress h os s k in (Some a, ss\<lparr>ss_socket := Some s\<rparr>, k)))"

definition ss_getRemoteAddressString ::
    "endian \<Rightarrow> 'k sock_calls \<Rightarrow> socket_stream \<Rightarrow> 'k \<Rightarrow> string \<times> socket_stream \<times> 'k" where
  "ss_getRemoteAddressString h os ss k =
    (let (a, ss, k) = ss_getRemoteAddress h os ss k
     in (case a of None \<Rightarrow> [] | Some a \<Rightarrow> addr_toString h a, ss, k))"

definition ss_getLocalAddressString ::
    "endian \<Rightarrow> 'k sock_calls \<Rightarrow> socket_stream \<Rightarrow> 'k \<Rightarrow> string \<times> socket_stream \<times> 'k" where
  "ss_getLocalAddressString h os ss k =
    (let (a, ss, k) = ss_getLocalAddress h os ss k
     in (case a of None \<Rightarrow> [] | Some a \<Rightarrow> addr_toString h a, ss, k))"
subsection \<open>Receiving into the blocks of the array\<close>

lemma fill_iov_loop:
  assumes "iov_loop ns (length pre) npos len = Inr iovs" "\<forall>n \<in> set ns. length n = b" "npos \<le> b"
    "length bs \<le> len"
  shows "\<exists>ns'. fill_iovs (pre @ ns) iovs bs = pre @ ns' \<and> length ns' = length ns \<and>
    (\<forall>n \<in> set ns'. length n = b) \<and> concat ns' = overwrite (concat ns) npos (map Some bs)"
  using assms
proof (induction ns arbitrary: pre npos len iovs bs)
  case Nil
  then show ?case by simp
next
  case (Cons n ns)
  define cap where "cap = b - npos"
  have n: "length n = b" and ns: "\<forall>n \<in> set ns. length n = b" using Cons.prems(2) by auto
  consider "len = 0" | "0 < len" "len \<le> cap" | "cap < len" by linarith
  then show ?case
  proof cases
    case 1
    with Cons.prems show ?thesis by (intro exI [of _ "n # ns"]) auto
  next
    case 2
    then have "iovs = [\<lparr>iov_node = length pre, iov_off = npos, iov_len = len\<rparr>]"
      using Cons.prems(1) n by (simp add: cap_def)
    moreover have "npos + length bs \<le> b" using 2(2) Cons.prems(3,4) by (simp add: cap_def)
    ultimately show ?thesis
      using n ns Cons.prems(4)
      by (intro exI [of _ "overwrite n npos (map Some bs) # ns"]) (auto simp: overwrite_append_left)
  next
    case 3
    then obtain vs where vs: "iov_loop ns (Suc (length pre)) 0 (len - cap) = Inr vs"
      and iovs: "iovs = \<lparr>iov_node = length pre, iov_off = npos, iov_len = cap\<rparr> # vs"
      using Cons.prems(1) n by (auto simp: cap_def Let_def bindR_eq_Inr)
    define n' where "n' = overwrite n npos (map Some (take cap bs))"
    have n': "length n' = b" using n Cons.prems(3) by (simp add: n'_def cap_def)
    have "iov_loop ns (length (pre @ [n'])) 0 (len - cap) = Inr vs" using vs by simp
    note IH = Cons.IH [OF this ns]
    have "length (drop cap bs) \<le> len - cap" using Cons.prems(4) by simp
    from IH [OF _ this] obtain ns' where ns':
      "fill_iovs ((pre @ [n']) @ ns) vs (drop cap bs) = (pre @ [n']) @ ns'" "length ns' = length ns"
      "\<forall>n \<in> set ns'. length n = b" "concat ns' = overwrite (concat ns) 0 (map Some (drop cap bs))"
      by blast
    have "n' @ concat ns' = overwrite (n @ concat ns) npos (map Some bs)"
    proof (cases "cap \<le> length bs")
      case True
      then show ?thesis
        using overwrite_append_split [of npos n "map Some bs" "concat ns"] n Cons.prems(3)
        by (simp add: n'_def ns'(4) cap_def take_map drop_map)
    next
      case False
      then show ?thesis
        using n Cons.prems(3) by (simp add: n'_def ns'(4) cap_def overwrite_append_left)
    qed
    with ns' n' show ?thesis by (intro exI [of _ "n' # ns'"]) (simp add: iovs n'_def)
  qed
qed

text \<open>Filling the vectors of \<open>getWriteBuffers\<close> overwrites the chain from the cursor on.\<close>

lemma fill_write_buffers:
  assumes ok: "ba_ok ba" and bs: "length bs \<le> len"
  obtains iovs c where "getWriteBuffers ba len = Inr (iovs, len, c)" "sum_list (map iov_len iovs) = len"
    "ba_position c = ba_position ba" "ba_position ba + len \<le> ba_capacity c"
    "ba_ok (c\<lparr>ba_nodes := fill_iovs (ba_nodes c) iovs bs\<rparr>)" "ba_contents c = ba_contents ba"
    "concat (fill_iovs (ba_nodes c) iovs bs) = overwrite (concat (ba_nodes c)) (ba_position ba) (map Some bs)"
    "ba_size c = ba_size ba" "ba_size ba \<le> length (concat (ba_nodes c))"
proof -
  obtain iovs c where g: "getWriteBuffers ba len = Inr (iovs, len, c)" "ba_ok c"
    "ba_contents c = ba_contents ba" "ba_position c = ba_position ba" "ba_position ba + len \<le> ba_capacity c"
    "sum_list (map iov_len iovs) = len"
    by (rule getWriteBuffers_spec [OF ok, of len]) blast
  note okc = g(2) [unfolded ba_ok_def]
  let ?b = "ba_baseSize c" and ?p = "ba_position ba"
  have size: "ba_size c = ba_size ba"
    using length_ba_contents [OF g(2)] length_ba_contents [OF ok] g(3) by simp
  have cap: "ba_size ba \<le> length (concat (ba_nodes c))"
    using ba_okD(6,8) [OF g(2)] size by simp
  show ?thesis
  proof (cases "len = 0")
    case True
    with g size cap bs show ?thesis
      by (intro that [of iovs c]) (simp_all add: getWriteBuffers_def)
  next
    case False
    then have p: "?p < ba_capacity c" using g(5) by simp
    then have k: "?p div ?b < length (ba_nodes c)"
      using okc by (simp add: less_mult_imp_div_less mult.commute)
    have lens: "\<forall>n \<in> set (drop (?p div ?b) (ba_nodes c)). length n = ?b"
      using okc by (meson in_set_dropD)
    have run: "iov_loop (drop (?p div ?b) (ba_nodes c)) (length (take (?p div ?b) (ba_nodes c))) (?p mod ?b) len = Inr iovs"
      using g(1,4) False p k okc
      by (auto simp: getWriteBuffers_def chain_from_def bindR_eq_Inr split: if_splits)
    have b: "?p mod ?b \<le> ?b" using okc by (simp add: mod_le_divisor)
    obtain ns' where ns': "fill_iovs (ba_nodes c) iovs bs = take (?p div ?b) (ba_nodes c) @ ns'"
      "length ns' = length (drop (?p div ?b) (ba_nodes c))" "\<forall>n \<in> set ns'. length n = ?b"
      "concat ns' = overwrite (concat (drop (?p div ?b) (ba_nodes c))) (?p mod ?b) (map Some bs)"
      using fill_iov_loop [OF run lens b bs] by (auto simp: append_take_drop_id)
    have "length (concat (take (?p div ?b) (ba_nodes c))) = ?b * (?p div ?b)"
      using okc k by (subst concat_length_const [where b = ?b]) (auto dest: in_set_takeD)
    then have "overwrite (concat (take (?p div ?b) (ba_nodes c)) @ concat (drop (?p div ?b) (ba_nodes c))) ?p (map Some bs) =
        concat (take (?p div ?b) (ba_nodes c)) @ concat ns'"
      by (metis ns'(4) overwrite_append_right mult_div_mod_eq)
    then have con: "concat (fill_iovs (ba_nodes c) iovs bs) = overwrite (concat (ba_nodes c)) ?p (map Some bs)"
      by (simp add: ns'(1) flip: concat_append)
    have "ba_ok (c\<lparr>ba_nodes := fill_iovs (ba_nodes c) iovs bs\<rparr>)"
      using okc ns'(2,3) k by (auto simp: ba_ok_def ns'(1) dest: in_set_takeD)
    with g con size cap show ?thesis by (intro that [of iovs c]) simp_all
  qed
qed

subsection \<open>Properties\<close>

text \<open>What a receiving call promises: as many bytes as it returns, no more than the vectors hold.\<close>

definition recv_kernel :: "(int \<Rightarrow> iovec list msghdr \<Rightarrow> int \<Rightarrow> 'k \<Rightarrow> (int \<times> u8 list) \<times> 'k) \<Rightarrow> bool" where
  "recv_kernel os_recvmsg \<longleftrightarrow>
    (\<forall>fd m flags k. case os_recvmsg fd m flags k of ((rt, bs), _) \<Rightarrow>
      length bs = nat rt \<and> length bs \<le> sum_list (map iov_len (msg_iov m)))"

text \<open>What received bytes do to the array, and moving the cursor behind them.\<close>

lemma store_received:
  assumes ok: "ba_ok ba" and g: "getWriteBuffers ba n = Inr (iovs, n, c)" and bs: "length bs \<le> n"
  defines "f \<equiv> c\<lparr>ba_nodes := fill_iovs (ba_nodes c) iovs bs\<rparr>"
  shows "ba_position f = ba_position ba" "ba_ok f"
    "bs = [] \<Longrightarrow> ba_contents f = overwrite (ba_contents ba) (ba_position ba) []"
    "\<exists>d. setPosition f (ba_position ba + length bs) = Inr d \<and> ba_ok d \<and> ba_position d = ba_position ba + length bs \<and>
      ba_contents d = overwrite (ba_contents ba) (ba_position ba) (map Some bs)"
proof -
  obtain iovs' c' where w: "getWriteBuffers ba n = Inr (iovs', n, c')" "ba_position c' = ba_position ba"
    "ba_position ba + n \<le> ba_capacity c'" "ba_ok (c'\<lparr>ba_nodes := fill_iovs (ba_nodes c') iovs' bs\<rparr>)"
    "ba_contents c' = ba_contents ba"
    "concat (fill_iovs (ba_nodes c') iovs' bs) = overwrite (concat (ba_nodes c')) (ba_position ba) (map Some bs)"
    "ba_size c' = ba_size ba" "ba_size ba \<le> length (concat (ba_nodes c'))"
    by (rule fill_write_buffers [OF ok bs])
  have "iovs' = iovs" "c' = c" using w(1) g by simp_all
  note f = w(2-) [unfolded this, folded f_def]
  then show "ba_position f = ba_position ba" "ba_ok f" by (simp_all add: f_def)
  have grow: "take (max (ba_size ba) (ba_position ba + length bs)) (concat (ba_nodes f)) =
      overwrite (ba_contents ba) (ba_position ba) (map Some bs)"
    using take_overwrite_grow [of "ba_position ba" "ba_size ba" "concat (ba_nodes c)" "map Some bs"] ba_okD(5) [OF ok]
      f(4,5,6,7) by (simp add: ba_contents_def f_def)
  show "ba_contents f = overwrite (ba_contents ba) (ba_position ba) []" if "bs = []"
  proof -
    from that have "max (ba_size ba) (ba_position ba + length bs) = ba_size ba" using ba_okD(5) [OF ok] by simp
    with grow f(6) that show ?thesis by (simp add: ba_contents_def f_def)
  qed
  have "ba_position ba + length bs \<le> ba_capacity f" using f(2) bs by (simp add: f_def)
  from setPosition_spec [OF f(3) this] obtain d where d: "setPosition f (ba_position ba + length bs) = Inr d" "ba_ok d"
    "d = f\<lparr>ba_position := ba_position ba + length bs, ba_size := max (ba_size f) (ba_position ba + length bs),
      ba_cur := ba_cur d\<rparr>" by metis
  have "ba_size f = ba_size ba" using f(6) by (simp add: f_def)
  then have "ba_position d = ba_position ba + length bs"
    "ba_contents d = take (max (ba_size ba) (ba_position ba + length bs)) (concat (ba_nodes f))"
    by (subst d(3); simp add: ba_contents_def)+
  with d(1,2) grow show "\<exists>d. setPosition f (ba_position ba + length bs) = Inr d \<and> ba_ok d \<and>
      ba_position d = ba_position ba + length bs \<and>
      ba_contents d = overwrite (ba_contents ba) (ba_position ba) (map Some bs)" by simp
qed

text \<open>
  C25: reading up to \<open>n\<close> bytes from a connected socket into a well-formed \<open>ByteArray\<close> makes one
  call of \<open>recvmsg\<close> on its descriptor, with the vectors of the array's blocks for \<open>n\<close> bytes, returns
  what that call returned, stores the bytes the kernel gave over the contents from the cursor on and
  moves the cursor past them; the array stays well formed, whatever its block size, and a failed read
  changes nothing but its capacity. The kernel is taken to give as many bytes as it returns and no
  more than the vectors hold.
\<close>

theorem stream_read_into_array:
  assumes ok: "ba_ok ba" and con: "ss_socket ss = Some s" "s_isConnected s" and rk: "recv_kernel os_recvmsg"
  shows "\<exists>iovs c rt bs ba' k'. getWriteBuffers ba n = Inr (iovs, n, c) \<and>
    os_recvmsg (s_sock s) \<lparr>msg_iov = iovs, msg_name = None\<rparr> 0 k = ((rt, bs), k') \<and>
    ss_read_ba os_recvmsg ss ba n k = Inr (rt, ba', k') \<and> length bs = nat rt \<and> nat rt \<le> n \<and>
    ba_ok ba' \<and> ba_position ba' = ba_position ba + nat rt \<and>
    ba_contents ba' = overwrite (ba_contents ba) (ba_position ba) (map Some bs)"
proof -
  obtain iovs c where g: "getWriteBuffers ba n = Inr (iovs, n, c)" "sum_list (map iov_len iovs) = n"
    using getWriteBuffers_spec [OF ok] by metis
  obtain rt bs k' where r: "os_recvmsg (s_sock s) \<lparr>msg_iov = iovs, msg_name = None\<rparr> 0 k = ((rt, bs), k')"
    by (metis surj_pair)
  have bs: "length bs = nat rt" "length bs \<le> n"
    using rk [unfolded recv_kernel_def, rule_format,
        where fd = "s_sock s" and m = "\<lparr>msg_iov = iovs, msg_name = None\<rparr>" and flags = 0 and k = k] g(2)
    by (simp_all add: r)
  note f = store_received [OF ok g(1) bs(2)]
  let ?f = "c\<lparr>ba_nodes := fill_iovs (ba_nodes c) iovs bs\<rparr>"
  have "ss_read_ba os_recvmsg ss ba n k =
      (if rt > 0 then bindR (setPosition ?f (ba_position ba + length bs)) (\<lambda>ba. Inr (rt, ba, k'))
       else Inr (rt, ?f, k'))"
    using con f(1) by (simp add: ss_read_ba_def ss_isConnected_def g(1) sock_recv_iov_def when_connected_def r bs(1))
  moreover have "bs = []" if "\<not> rt > 0" using that bs(1) by simp
  ultimately have "\<exists>ba'. ss_read_ba os_recvmsg ss ba n k = Inr (rt, ba', k') \<and> ba_ok ba' \<and>
      ba_position ba' = ba_position ba + nat rt \<and>
      ba_contents ba' = overwrite (ba_contents ba) (ba_position ba) (map Some bs)"
    using f bs(1) by (cases "rt > 0") auto
  with g(1) r bs bs(2) [unfolded bs(1)] show ?thesis by blast
qed

text \<open>A kernel that gives one byte, 7, for each of the bytes asked for.\<close>

definition sevens :: "int \<Rightarrow> iovec list msghdr \<Rightarrow> int \<Rightarrow> unit \<Rightarrow> (int \<times> u8 list) \<times> unit" where
  "sevens _ m _ k =
    (let n = sum_list (map iov_len (msg_iov m)) in ((int n, replicate n 7), k))"

theorem stream_read_into_array_witness:
  "\<exists>rt ba' k'. ss_read_ba sevens (new_stream (Some (CreateTCPSocket\<lparr>s_sock := 3, s_isConnected := True\<rparr>)) True)
      (new_bytearray 4) 6 () = Inr (rt, ba', k') \<and> nat rt \<le> 6 \<and> ba_contents ba' = replicate (nat rt) (Some 7)"
proof -
  have rk: "recv_kernel sevens" by (simp add: recv_kernel_def sevens_def Let_def)
  have ok: "ba_ok (new_bytearray 4)" by (rule new_bytearray_ok) simp
  have ss: "ss_socket (new_stream (Some (CreateTCPSocket\<lparr>s_sock := 3, s_isConnected := True\<rparr>)) True) =
      Some (CreateTCPSocket\<lparr>s_sock := 3, s_isConnected := True\<rparr>)"
    by (simp add: new_stream_def)
  have c: "ba_contents (new_bytearray 4) = []" "ba_position (new_bytearray 4) = 0"
    by (simp_all add: new_bytearray_def ba_contents_def)
  from stream_read_into_array [OF ok ss _ rk, of 6 "()"] show ?thesis
    unfolding c by (auto simp: sevens_def Let_def overwrite_def)
qed

end
