(* ===== verification/Ragel.thy ===== *)
theory Ragel
  imports C_String
begin

text \<open>
  State machines in the form of the parsers Ragel generated, \<open>*_rl.cpp\<close>. Each \<open>case n:\<close> of the source
  is a row: the gotos of its \<open>switch\<close> and its nested comparisons as intervals of the tested value, and
  the \<open>goto\<close> at its end for all other values. Each \<open>trm:\<close> is a list of actions and the state
  it goes on to. A table is a list of chunks, each holding the rows and transitions of a stretch of the
  source, with an index of which chunk holds what. \<open>p\<close> counts from the start of the buffer.
\<close>

text \<open>The value of a \<open>char\<close>, which is signed.\<close>

definition char_value :: "char \<Rightarrow> int" where
  "char_value c = (if char_code c < 128 then int (char_code c) else int (char_code c) - 256)"

datatype goto = St nat | Tr nat

datatype row = Row bool "(int \<times> int \<times> goto) list" goto

text \<open>
  A row that is marked tests \<open>_widec\<close>: three characters are moved out of the range of \<open>char\<close>, and
  farther when the parser's \<open>uri_relaxed\<close> is set.
\<close>

definition widen :: "bool \<Rightarrow> int \<Rightarrow> int" where
  "widen relaxed v = (if v = 94 \<or> v = 123 \<or> v = 125 then v + 256 + (if relaxed then 256 else 0) else v)"

fun row_goto :: "(int \<times> int \<times> goto) list \<Rightarrow> goto \<Rightarrow> int \<Rightarrow> goto" where
  "row_goto [] d v = d"
| "row_goto ((lo, hi, g) # ivs) d v = (if lo \<le> v \<and> v \<le> hi then g else row_goto ivs d v)"

fun row_next :: "bool \<Rightarrow> row \<Rightarrow> char \<Rightarrow> goto" where
  "row_next relaxed (Row w ivs d) c =
    row_goto ivs d (if w then widen relaxed (char_value c) else char_value c)"

type_synonym 'a chunk = "(nat \<times> row) list \<times> (nat \<times> 'a list \<times> nat) list"
type_synonym 'a index = "(nat list \<times> nat list \<times> 'a chunk) list"

fun find_row :: "'a index \<Rightarrow> nat \<Rightarrow> row option" where
  "find_row [] n = None"
| "find_row ((ss, ts, c) # ix) n = (if n \<in> set ss then map_of (fst c) n else find_row ix n)"

fun find_trans :: "'a index \<Rightarrow> nat \<Rightarrow> ('a list \<times> nat) option" where
  "find_trans [] m = None"
| "find_trans ((ss, ts, c) # ix) m = (if m \<in> set ts then map_of (snd c) m else find_trans ix m)"

text \<open>\<open>m_stop\<close> tells the actions that end with \<open>p++; cs = n; goto _out\<close>.\<close>

record ('a, 's) machine =
  m_index :: "'a index"
  m_stop :: "'a \<Rightarrow> bool"
  m_act :: "'a \<Rightarrow> nat \<Rightarrow> 's \<Rightarrow> 's"

text \<open>
  From \<open>switch(cs)\<close> at \<open>p\<close> to \<open>_out\<close>: the state, \<open>p\<close> and what the actions left. A state the source has
  no \<open>case\<close> for falls out of the \<open>switch\<close>.
\<close>

fun machine_run :: "('a, 's) machine \<Rightarrow> bool \<Rightarrow> nat \<Rightarrow> nat \<Rightarrow> string \<Rightarrow> 's \<Rightarrow> nat \<times> nat \<times> 's" where
  "machine_run M relaxed cs p [] s = (cs, p, s)"
| "machine_run M relaxed cs p (c # buf) s =
    (case find_row (m_index M) cs of
       None \<Rightarrow> (cs, p, s)
     | Some r \<Rightarrow>
         (case row_next relaxed r c of
            St n \<Rightarrow> (if n = 0 then (0, p, s) else machine_run M relaxed n (Suc p) buf s)
          | Tr m \<Rightarrow>
              (case find_trans (m_index M) m of
                 None \<Rightarrow> (cs, p, s)
               | Some (acts, n) \<Rightarrow>
                   (let s = fold (\<lambda>a. m_act M a p) acts s in
                    if list_ex (m_stop M) acts then (n, Suc p, s)
                    else machine_run M relaxed n (Suc p) buf s))))"

subsection \<open>Runs\<close>

text \<open>One character, by the kind of the \<open>goto\<close> it takes.\<close>

lemma run_St:
  assumes "find_row (m_index M) cs = Some r" "row_next w r c = St n" "n \<noteq> 0"
  shows "machine_run M w cs p (c # buf) s = machine_run M w n (Suc p) buf s"
  using assms by simp

lemma run_Tr:
  assumes "find_row (m_index M) cs = Some r" "row_next w r c = Tr m"
    "find_trans (m_index M) m = Some (acts, n)" "\<not> list_ex (m_stop M) acts"
  shows "machine_run M w cs p (c # buf) s =
    machine_run M w n (Suc p) buf (fold (\<lambda>a. m_act M a p) acts s)"
  using assms by simp

lemma run_stop:
  assumes "find_row (m_index M) cs = Some r" "row_next w r c = Tr m"
    "find_trans (m_index M) m = Some (acts, n)" "list_ex (m_stop M) acts"
  shows "machine_run M w cs p (c # buf) s = (n, Suc p, fold (\<lambda>a. m_act M a p) acts s)"
  using assms by simp

lemma run_loop:
  assumes "find_row (m_index M) cs = Some r" "\<forall>c \<in> set xs. row_next w r c = St cs" "cs \<noteq> 0"
  shows "machine_run M w cs p (xs @ buf) s = machine_run M w cs (p + length xs) buf s"
  using assms(2)
proof (induction xs arbitrary: p)
  case (Cons c xs)
  then show ?case using run_St [OF assms(1) _ assms(3)] by simp
qed simp

text \<open>The position after a run lies between the one before it and the end of the buffer.\<close>

lemma run_position:
  "case machine_run M w cs p buf s of (cs', p', s') \<Rightarrow> p \<le> p' \<and> p' \<le> p + length buf"
proof (induction buf arbitrary: cs p s)
  case (Cons c buf)
  have "case machine_run M w n (Suc p) buf t of (cs', p', s') \<Rightarrow> p \<le> p' \<and> p' \<le> p + length (c # buf)" for n t
    using Cons.IH [where cs = n and p = "Suc p" and s = t] by auto
  then show ?case by (auto simp: Let_def split: option.split goto.split)
qed simp

text \<open>A run that has not moved has done nothing, and one that ends within a part of the buffer needs no more of it.\<close>

lemma run_still:
  "machine_run M w cs p buf s = (cs', p, s') \<Longrightarrow> cs' = 0 \<or> cs' = cs \<and> s' = s"
proof (cases buf)
  case (Cons c buf')
  have "\<not> (case machine_run M w n (Suc p) buf' t of (cs', p', s') \<Rightarrow> p' = p)" for n t
    using run_position [where M = M and w = w and cs = n and p = "Suc p" and buf = buf' and s = t] by auto
  then show "machine_run M w cs p buf s = (cs', p, s') \<Longrightarrow> cs' = 0 \<or> cs' = cs \<and> s' = s"
    unfolding Cons machine_run.simps
    by (fastforce simp: Let_def split: option.splits goto.splits if_splits prod.splits)
qed simp

lemma run_prefix:
  assumes "machine_run M w cs p (xs @ ys) s = (cs', p', s')" "cs' \<noteq> 0" "p' \<le> p + length xs"
  shows "machine_run M w cs p xs s = (cs', p', s')"
  using assms
proof (induction xs arbitrary: cs p s)
  case Nil
  have "p \<le> p'" using run_position [where M = M and w = w and cs = cs and p = p and buf = ys and s = s] Nil by simp
  then have "p' = p" using Nil by simp
  then show ?case using run_still [where M = M and w = w and cs = cs and p = p and buf = ys] Nil by auto
next
  case (Cons c xs)
  then show ?case
    by (auto simp: Let_def split: option.splits goto.splits if_splits prod.splits)
qed

subsection \<open>Tables\<close>

text \<open>
  What a generated table promises: a row for every state, and every \<open>goto\<close> leads to a state or a
  transition that is there.
\<close>

definition goto_closed :: "'a index \<Rightarrow> nat \<Rightarrow> goto \<Rightarrow> bool" where
  "goto_closed ix lim g =
    (case g of St n \<Rightarrow> n \<le> lim
     | Tr m \<Rightarrow> (case find_trans ix m of None \<Rightarrow> False | Some (acts, n) \<Rightarrow> 1 \<le> n \<and> n \<le> lim))"

fun row_closed :: "'a index \<Rightarrow> nat \<Rightarrow> row \<Rightarrow> bool" where
  "row_closed ix lim (Row w ivs d) \<longleftrightarrow>
    goto_closed ix lim d \<and> list_all (\<lambda>(lo, hi, g). goto_closed ix lim g) ivs"

lemma row_goto_mem: "row_goto ivs d v = d \<or> row_goto ivs d v \<in> (snd \<circ> snd) ` set ivs"
  by (induction ivs d v rule: row_goto.induct) auto

lemma row_next_closed: "row_closed ix lim r \<Longrightarrow> goto_closed ix lim (row_next w r c)"
proof (cases r)
  case (Row wide ivs d)
  assume "row_closed ix lim r"
  then show ?thesis
    using row_goto_mem [of ivs d "if wide then widen w (char_value c) else char_value c"] Row
    by (auto simp: list_all_iff)
qed

locale closed_table =
  fixes ix :: "'a index" and lim :: nat
  assumes row_of: "1 \<le> n \<Longrightarrow> n \<le> lim \<Longrightarrow> \<exists>r. find_row ix n = Some r \<and> row_closed ix lim r"
begin

text \<open>A run is total: it ends in a state of the table, and before the end of the buffer only in
  the error state or after an action that stops it.\<close>

lemma run_total:
  assumes "m_index M = ix" "1 \<le> cs" "cs \<le> lim"
  shows "case machine_run M w cs p buf s of
    (cs', p', s') \<Rightarrow> cs' \<le> lim \<and>
      (p' < p + length buf \<longrightarrow> cs' = 0 \<or>
        (\<exists>m acts. find_trans ix m = Some (acts, cs') \<and> list_ex (m_stop M) acts))"
  using assms(2,3)
proof (induction buf arbitrary: cs p s)
  case (Cons c buf)
  obtain r where r: "find_row ix cs = Some r" "row_closed ix lim r"
    using row_of Cons.prems by blast
  show ?case
  proof (cases "row_next w r c")
    case (St n)
    with row_next_closed [OF r(2), of w c] have "n \<le> lim" by (simp add: goto_closed_def)
    with Cons.IH [of n "Suc p" s] r St assms(1) show ?thesis by auto
  next
    case (Tr m)
    with row_next_closed [OF r(2), of w c] obtain acts n
      where t: "find_trans ix m = Some (acts, n)" "1 \<le> n" "n \<le> lim"
      by (auto simp: goto_closed_def split: option.splits)
    show ?thesis
    proof (cases "list_ex (m_stop M) acts")
      case True
      with r Tr t assms(1) show ?thesis by auto
    next
      case False
      with Cons.IH [OF t(2,3), of "Suc p"] r Tr t assms(1) show ?thesis by auto
    qed
  qed
qed simp

end

text \<open>The check of a table that gives the law, chunk by chunk.\<close>

definition chunk_closed :: "'a index \<Rightarrow> nat \<Rightarrow> 'a chunk \<Rightarrow> bool" where
  "chunk_closed ix lim c \<longleftrightarrow> list_all (\<lambda>(n, r). row_closed ix lim r) (fst c)"

text \<open>The first number from \<open>n\<close> on that a list, read from left to right, does not hold.\<close>

fun next_missing :: "nat \<Rightarrow> nat list \<Rightarrow> nat" where
  "next_missing n [] = n"
| "next_missing n (x # xs) = next_missing (if x = n then n + 1 else n) xs"

lemma next_missing_mem: "n \<le> k \<Longrightarrow> k < next_missing n xs \<Longrightarrow> k \<in> set xs"
proof (induction xs arbitrary: n)
  case (Cons x xs)
  then show ?case using Cons.IH [of n] Cons.IH [of "n + 1"] by (cases "x = n"; cases "k = n") auto
qed simp

definition index_closed :: "'a index \<Rightarrow> nat \<Rightarrow> bool" where
  "index_closed ix lim \<longleftrightarrow>
    list_all (\<lambda>(ss, ts, c). map fst (fst c) = ss \<and> chunk_closed ix lim c) ix \<and>
    (let states = concat (map fst ix) in lim < next_missing 1 (states @ states))"

lemma find_row_mem:
  assumes "list_all (\<lambda>(ss, ts, c). map fst (fst c) = ss) ix" "n \<in> set (concat (map fst ix))"
  shows "\<exists>r ss ts c. find_row ix n = Some r \<and> (ss, ts, c) \<in> set ix \<and> (n, r) \<in> set (fst c)"
  using assms
proof (induction ix n rule: find_row.induct)
  case (2 ss ts c ix n)
  show ?case
  proof (cases "n \<in> set ss")
    case True
    with 2(2) have "n \<in> fst ` set (fst c)" by auto
    then obtain r where "map_of (fst c) n = Some r"
      by (metis map_of_eq_None_iff not_None_eq)
    then have "find_row ((ss, ts, c) # ix) n = Some r" "(n, r) \<in> set (fst c)"
      using True by (auto dest: map_of_SomeD)
    then show ?thesis by (intro exI [of _ r] exI [of _ ss] exI [of _ ts] exI [of _ c]) simp
  next
    case False
    with 2(2,3) have "list_all (\<lambda>(ss, ts, c). map fst (fst c) = ss) ix" "n \<in> set (concat (map fst ix))"
      by auto
    with 2(1) False obtain r ss' ts' c'
      where "find_row ix n = Some r" "(ss', ts', c') \<in> set ix" "(n, r) \<in> set (fst c')"
      by blast
    with False show ?thesis by (intro exI [of _ r] exI [of _ ss'] exI [of _ ts'] exI [of _ c']) simp
  qed
qed simp

lemma index_closed_table:
  assumes "index_closed ix lim"
  shows "closed_table ix lim"
proof
  fix n assume "1 \<le> n" "n \<le> lim"
  then have "n \<in> set (concat (map fst ix) @ concat (map fst ix))"
    using assms by (intro next_missing_mem [of 1]) (simp_all add: index_closed_def Let_def)
  then have "n \<in> set (concat (map fst ix))" by simp
  moreover have "list_all (\<lambda>(ss, ts, c). map fst (fst c) = ss) ix"
    using assms by (auto simp: index_closed_def list_all_iff)
  ultimately obtain r ss ts c
    where "find_row ix n = Some r" "(ss, ts, c) \<in> set ix" "(n, r) \<in> set (fst c)"
    using find_row_mem by blast
  with assms show "\<exists>r. find_row ix n = Some r \<and> row_closed ix lim r"
    by (fastforce simp: index_closed_def chunk_closed_def list_all_iff)
qed

declare machine_run.simps(2) [simp del]

end
