(* ===== verification/Http_Table.thy ===== *)
theory Http_Table
  imports Ragel
begin

text \<open>
  The table of the request parser, \<open>src/http/http11_parser_rl.cpp\<close>: states 1 to 349 and the
  transitions with actions, in the order of the source. The actions are those of
  \<open>http11_parser.rl\<close>, by their names there.
\<close>

datatype http_action =
    HMark
  | HStartField
  | HWriteField
  | HStartValue
  | HWriteValue
  | HRequestMethod
  | HRequestUri
  | HFragment
  | HStartQuery
  | HQueryString
  | HHttpVersion
  | HRequestPath
  | HDone
  | HXml
  | HJson

definition http_chunk_1 :: "http_action chunk" where
  "http_chunk_1 =
    ([(1, Row False [(48, 57, Tr 0), (60, 60, Tr 2), (64, 64, Tr 3), (65, 90, Tr 0)] (St 0)),
      (2, Row False [(32, 32, Tr 4), (48, 57, St 175), (65, 90, St 175)] (St 0)),
      (3, Row True [
        (32, 32, Tr 6), (33, 33, Tr 7), (35, 35, Tr 8), (36, 36, Tr 7), (37, 37, Tr 9), (38, 46, Tr 7),
        (47, 47, Tr 10), (48, 57, Tr 7), (59, 59, Tr 7), (61, 61, Tr 7), (63, 63, Tr 11), (64, 64, Tr 7),
        (65, 90, Tr 12), (95, 95, Tr 7), (97, 122, Tr 12), (126, 126, Tr 7), (606, 606, Tr 7), (635, 635, Tr 7),
        (637, 637, Tr 7)] (St 0))],
     [(0, [HMark], 2),
      (4, [HRequestMethod], 3),
      (6, [HMark, HRequestPath, HRequestUri], 4),
      (37, [HRequestPath, HRequestUri], 4),
      (44, [HMark, HFragment], 4),
      (47, [HFragment], 4),
      (54, [HStartQuery, HQueryString, HRequestUri], 4)])"

definition http_chunk_2 :: "http_action chunk" where
  "http_chunk_2 =
    ([(4, Row False [(72, 72, Tr 13)] (St 0)),
      (5, Row False [(84, 84, St 6)] (St 0)),
      (6, Row False [(84, 84, St 7)] (St 0)),
      (7, Row False [(80, 80, St 8)] (St 0)),
      (8, Row False [(47, 47, St 9)] (St 0)),
      (9, Row False [(49, 49, St 10)] (St 0)),
      (10, Row False [(46, 46, St 11)] (St 0)),
      (11, Row False [(48, 49, St 12)] (St 0)),
      (12, Row False [(10, 10, Tr 21), (13, 13, Tr 22)] (St 0)),
      (13, Row False [
        (1, 8, Tr 23), (10, 10, Tr 24), (11, 12, Tr 23), (13, 13, Tr 25), (14, 31, Tr 23), (33, 33, Tr 23),
        (35, 39, Tr 23), (42, 43, Tr 23), (45, 46, Tr 23), (48, 57, Tr 23), (65, 90, Tr 23), (94, 122, Tr 23),
        (124, 124, Tr 23), (126, 126, Tr 23)] (St 0))],
     [(58, [HQueryString, HRequestUri], 4),
      (13, [HMark], 5),
      (21, [HHttpVersion], 13),
      (30, [HStartValue, HWriteValue], 13),
      (33, [HWriteValue], 13),
      (23, [HStartField], 14)])"

definition http_chunk_3 :: "http_action chunk" where
  "http_chunk_3 =
    ([(14, Row False [
        (1, 8, St 14), (10, 31, St 14), (33, 33, St 14), (35, 39, St 14), (42, 43, St 14), (45, 46, St 14),
        (48, 57, St 14), (58, 58, Tr 27), (65, 90, St 14), (94, 122, St 14), (124, 124, St 14),
        (126, 126, St 14)] (St 0)),
      (15, Row False [
        (0, 0, St 0), (9, 9, Tr 29), (10, 10, Tr 30), (13, 13, Tr 31), (32, 32, Tr 29), (127, 127, St 0)] (Tr 28)),
      (16, Row False [(0, 0, St 0), (10, 10, Tr 33), (13, 13, Tr 34), (127, 127, St 0)] (St 16)),
      (17, Row False [(10, 10, St 13)] (St 0))],
     [(27, [HWriteField], 15),
      (29, [HStartValue], 15),
      (28, [HStartValue], 16),
      (22, [HHttpVersion], 17),
      (31, [HStartValue, HWriteValue], 17),
      (34, [HWriteValue], 17),
      (24, [HStartField, HDone], 348),
      (36, [HDone], 348)])"

definition http_chunk_4 :: "http_action chunk" where
  "http_chunk_4 =
    ([(348, Row False [
        (1, 8, St 14), (10, 31, St 14), (33, 33, St 14), (35, 39, St 14), (42, 43, St 14), (45, 46, St 14),
        (48, 57, St 14), (58, 58, Tr 27), (65, 90, St 14), (94, 122, St 14), (124, 124, St 14),
        (126, 126, St 14)] (St 0)),
      (18, Row False [
        (1, 8, St 14), (10, 10, Tr 36), (11, 31, St 14), (33, 33, St 14), (35, 39, St 14), (42, 43, St 14),
        (45, 46, St 14), (48, 57, St 14), (58, 58, Tr 27), (65, 90, St 14), (94, 122, St 14), (124, 124, St 14),
        (126, 126, St 14)] (St 0)),
      (19, Row True [
        (32, 32, Tr 37), (33, 33, St 19), (35, 35, Tr 39), (36, 36, St 19), (37, 37, St 24), (38, 46, St 19),
        (47, 47, St 26), (48, 57, St 19), (59, 59, St 19), (61, 61, St 19), (63, 63, Tr 42), (64, 90, St 19),
        (95, 95, St 19), (97, 122, St 19), (126, 126, St 19), (606, 606, St 19), (635, 635, St 19),
        (637, 637, St 19)] (St 0))],
     [(25, [HStartField], 18),
      (7, [HMark], 19),
      (8, [HMark, HRequestPath, HRequestUri], 20)])"

definition http_chunk_5 :: "http_action chunk" where
  "http_chunk_5 =
    ([(20, Row True [
        (- 128, - 1, Tr 43), (32, 32, Tr 44), (33, 33, Tr 43), (36, 36, Tr 43), (37, 37, Tr 45),
        (38, 59, Tr 43), (61, 61, Tr 43), (63, 90, Tr 43), (95, 95, Tr 43), (97, 122, Tr 43), (126, 126, Tr 43),
        (606, 606, Tr 43), (635, 635, Tr 43), (637, 637, Tr 43)] (St 0)),
      (21, Row True [
        (- 128, - 1, St 21), (32, 32, Tr 47), (33, 33, St 21), (36, 36, St 21), (37, 37, St 22),
        (38, 59, St 21), (61, 61, St 21), (63, 90, St 21), (95, 95, St 21), (97, 122, St 21), (126, 126, St 21),
        (606, 606, St 21), (635, 635, St 21), (637, 637, St 21)] (St 0))],
     [(39, [HRequestPath, HRequestUri], 20),
      (55, [HStartQuery, HQueryString, HRequestUri], 20),
      (59, [HQueryString, HRequestUri], 20),
      (43, [HMark], 21),
      (45, [HMark], 22)])"

definition http_chunk_6 :: "http_action chunk" where
  "http_chunk_6 =
    ([(22, Row False [(48, 57, St 23), (65, 70, St 23), (97, 102, St 23)] (St 0)),
      (23, Row False [(48, 57, St 21), (65, 70, St 21), (97, 102, St 21)] (St 0)),
      (24, Row False [(48, 57, St 25), (65, 70, St 25), (97, 102, St 25)] (St 0)),
      (25, Row False [(48, 57, St 19), (65, 70, St 19), (97, 102, St 19)] (St 0)),
      (26, Row True [
        (- 128, - 1, St 26), (32, 32, Tr 37), (33, 33, St 26), (35, 35, Tr 39), (36, 36, St 26),
        (37, 37, St 27), (38, 59, St 26), (61, 61, St 26), (63, 63, Tr 42), (64, 90, St 26), (95, 95, St 26),
        (97, 122, St 26), (126, 126, St 26), (606, 606, St 26), (635, 635, St 26), (637, 637, St 26)] (St 0)),
      (27, Row False [(48, 57, St 28), (65, 70, St 28), (97, 102, St 28)] (St 0)),
      (28, Row False [(48, 57, St 26), (65, 70, St 26), (97, 102, St 26)] (St 0))],
     [(9, [HMark], 24),
      (203, [HMark], 26),
      (204, [HMark], 27),
      (11, [HMark, HRequestPath], 29)])"

definition http_chunk_7 :: "http_action chunk" where
  "http_chunk_7 =
    ([(29, Row True [
        (- 128, - 1, Tr 53), (32, 32, Tr 54), (33, 33, Tr 53), (35, 35, Tr 55), (36, 36, Tr 53),
        (37, 37, Tr 56), (38, 59, Tr 53), (61, 61, Tr 53), (63, 90, Tr 53), (95, 95, Tr 53), (97, 122, Tr 53),
        (126, 126, Tr 53), (606, 606, Tr 53), (635, 635, Tr 53), (637, 637, Tr 53)] (St 0)),
      (30, Row True [
        (- 128, - 1, St 30), (32, 32, Tr 58), (33, 33, St 30), (35, 35, Tr 59), (36, 36, St 30),
        (37, 37, St 31), (38, 59, St 30), (61, 61, St 30), (63, 90, St 30), (95, 95, St 30), (97, 122, St 30),
        (126, 126, St 30), (606, 606, St 30), (635, 635, St 30), (637, 637, St 30)] (St 0)),
      (31, Row False [(48, 57, St 32), (65, 70, St 32), (97, 102, St 32)] (St 0)),
      (32, Row False [(48, 57, St 30), (65, 70, St 30), (97, 102, St 30)] (St 0))],
     [(42, [HRequestPath], 29),
      (53, [HStartQuery], 30),
      (56, [HStartQuery], 31),
      (10, [HMark], 33)])"

definition http_chunk_8 :: "http_action chunk" where
  "http_chunk_8 =
    ([(33, Row True [
        (- 128, - 1, St 26), (32, 32, Tr 37), (33, 33, St 26), (35, 35, Tr 39), (36, 36, St 26),
        (37, 37, St 27), (38, 46, St 26), (47, 47, St 34), (48, 59, St 26), (61, 61, St 26), (63, 63, Tr 42),
        (64, 90, St 26), (95, 95, St 26), (97, 122, St 26), (126, 126, St 26), (606, 606, St 26),
        (635, 635, St 26), (637, 637, St 26)] (St 0)),
      (34, Row True [
        (32, 32, Tr 37), (33, 33, St 35), (35, 35, Tr 39), (36, 36, St 35), (37, 37, St 36), (38, 46, St 35),
        (47, 47, St 26), (48, 57, St 35), (58, 58, St 38), (59, 59, St 35), (61, 61, St 35), (63, 63, Tr 42),
        (64, 64, St 42), (65, 90, St 35), (91, 91, St 47), (95, 95, St 35), (97, 122, St 35), (126, 126, St 35),
        (606, 606, St 35), (635, 635, St 35), (637, 637, St 35)] (St 0)),
      (35, Row True [
        (32, 32, Tr 37), (33, 33, St 35), (35, 35, Tr 39), (36, 36, St 35), (37, 37, St 36), (38, 46, St 35),
        (47, 47, St 26), (48, 57, St 35), (58, 58, St 38), (59, 59, St 35), (61, 61, St 35), (63, 63, Tr 42),
        (64, 64, St 42), (65, 90, St 35), (95, 95, St 35), (97, 122, St 35), (126, 126, St 35),
        (606, 606, St 35), (635, 635, St 35), (637, 637, St 35)] (St 0))],
     [])"

definition http_chunk_9 :: "http_action chunk" where
  "http_chunk_9 =
    ([(36, Row False [(48, 57, St 37), (65, 70, St 37), (97, 102, St 37)] (St 0)),
      (37, Row False [(48, 57, St 35), (65, 70, St 35), (97, 102, St 35)] (St 0)),
      (38, Row True [
        (32, 32, Tr 37), (33, 33, St 39), (35, 35, Tr 39), (36, 36, St 39), (37, 37, St 40), (38, 46, St 39),
        (47, 47, St 26), (48, 57, St 38), (58, 59, St 39), (61, 61, St 39), (63, 63, Tr 42), (64, 64, St 42),
        (65, 90, St 39), (95, 95, St 39), (97, 122, St 39), (126, 126, St 39), (606, 606, St 39),
        (635, 635, St 39), (637, 637, St 39)] (St 0)),
      (39, Row True [
        (33, 33, St 39), (36, 36, St 39), (37, 37, St 40), (38, 46, St 39), (48, 59, St 39), (61, 61, St 39),
        (64, 64, St 42), (65, 90, St 39), (95, 95, St 39), (97, 122, St 39), (126, 126, St 39),
        (606, 606, St 39), (635, 635, St 39), (637, 637, St 39)] (St 0)),
      (40, Row False [(48, 57, St 41), (65, 70, St 41), (97, 102, St 41)] (St 0))],
     [])"

definition http_chunk_10 :: "http_action chunk" where
  "http_chunk_10 =
    ([(41, Row False [(48, 57, St 39), (65, 70, St 39), (97, 102, St 39)] (St 0)),
      (42, Row True [
        (32, 32, Tr 37), (33, 33, St 43), (35, 35, Tr 39), (36, 36, St 43), (37, 37, St 44), (38, 46, St 43),
        (47, 47, St 26), (48, 57, St 43), (58, 58, St 46), (59, 59, St 43), (61, 61, St 43), (63, 63, Tr 42),
        (65, 90, St 43), (91, 91, St 47), (95, 95, St 43), (97, 122, St 43), (126, 126, St 43),
        (606, 606, St 43), (635, 635, St 43), (637, 637, St 43)] (St 0)),
      (43, Row True [
        (32, 32, Tr 37), (33, 33, St 43), (35, 35, Tr 39), (36, 36, St 43), (37, 37, St 44), (38, 46, St 43),
        (47, 47, St 26), (48, 57, St 43), (58, 58, St 46), (59, 59, St 43), (61, 61, St 43), (63, 63, Tr 42),
        (65, 90, St 43), (95, 95, St 43), (97, 122, St 43), (126, 126, St 43), (606, 606, St 43),
        (635, 635, St 43), (637, 637, St 43)] (St 0)),
      (44, Row False [(48, 57, St 45), (65, 70, St 45), (97, 102, St 45)] (St 0)),
      (45, Row False [(48, 57, St 43), (65, 70, St 43), (97, 102, St 43)] (St 0)),
      (46, Row False [
        (32, 32, Tr 37), (35, 35, Tr 39), (47, 47, St 26), (48, 57, St 46), (63, 63, Tr 42)] (St 0))],
     [])"

definition http_chunk_11 :: "http_action chunk" where
  "http_chunk_11 =
    ([(47, Row False [
        (6, 6, St 48), (48, 57, St 91), (58, 58, St 167), (65, 70, St 91), (97, 102, St 91), (118, 118, St 169)] (St 0)),
      (48, Row False [(48, 57, St 49), (65, 70, St 49), (97, 102, St 49)] (St 0)),
      (49, Row False [(48, 57, St 50), (58, 58, St 53), (65, 70, St 50), (97, 102, St 50)] (St 0)),
      (50, Row False [(48, 57, St 51), (58, 58, St 53), (65, 70, St 51), (97, 102, St 51)] (St 0)),
      (51, Row False [(48, 57, St 52), (58, 58, St 53), (65, 70, St 52), (97, 102, St 52)] (St 0)),
      (52, Row False [(58, 58, St 53)] (St 0)),
      (53, Row False [
        (48, 48, St 54), (49, 49, St 84), (50, 50, St 87), (51, 57, St 54), (65, 70, St 90), (97, 102, St 90)] (St 0)),
      (54, Row False [
        (46, 46, St 55), (48, 57, St 77), (58, 58, St 80), (65, 70, St 77), (97, 102, St 77)] (St 0)),
      (55, Row False [(48, 48, St 56), (49, 49, St 72), (50, 50, St 74), (51, 57, St 56)] (St 0)),
      (56, Row False [(46, 46, St 57)] (St 0)),
      (57, Row False [(48, 48, St 58), (49, 49, St 67), (50, 50, St 69), (51, 57, St 58)] (St 0))],
     [])"

definition http_chunk_12 :: "http_action chunk" where
  "http_chunk_12 =
    ([(58, Row False [(46, 46, St 59)] (St 0)),
      (59, Row False [(48, 48, St 60), (49, 49, St 62), (50, 50, St 64), (51, 57, St 60)] (St 0)),
      (60, Row False [(93, 93, St 61)] (St 0)),
      (61, Row False [
        (32, 32, Tr 37), (35, 35, Tr 39), (47, 47, St 26), (58, 58, St 46), (63, 63, Tr 42)] (St 0)),
      (62, Row False [(48, 57, St 63), (93, 93, St 61)] (St 0)),
      (63, Row False [(48, 57, St 60), (93, 93, St 61)] (St 0)),
      (64, Row False [(48, 48, St 65), (53, 53, St 66), (93, 93, St 61)] (St 0)),
      (65, Row False [(48, 57, St 60)] (St 0)),
      (66, Row False [(48, 48, St 60)] (St 0)),
      (67, Row False [(46, 46, St 59), (48, 57, St 68)] (St 0)),
      (68, Row False [(46, 46, St 59), (48, 57, St 58)] (St 0)),
      (69, Row False [(46, 46, St 59), (48, 48, St 70), (53, 53, St 71)] (St 0)),
      (70, Row False [(48, 57, St 58)] (St 0)),
      (71, Row False [(48, 48, St 58)] (St 0)),
      (72, Row False [(46, 46, St 57), (48, 57, St 73)] (St 0)),
      (73, Row False [(46, 46, St 57), (48, 57, St 56)] (St 0)),
      (74, Row False [(46, 46, St 57), (48, 48, St 75), (53, 53, St 76)] (St 0))],
     [])"

definition http_chunk_13 :: "http_action chunk" where
  "http_chunk_13 =
    ([(75, Row False [(48, 57, St 56)] (St 0)),
      (76, Row False [(48, 48, St 56)] (St 0)),
      (77, Row False [(48, 57, St 78), (58, 58, St 80), (65, 70, St 78), (97, 102, St 78)] (St 0)),
      (78, Row False [(48, 57, St 79), (58, 58, St 80), (65, 70, St 79), (97, 102, St 79)] (St 0)),
      (79, Row False [(58, 58, St 80)] (St 0)),
      (80, Row False [(48, 57, St 81), (65, 70, St 81), (97, 102, St 81)] (St 0)),
      (81, Row False [(48, 57, St 82), (65, 70, St 82), (93, 93, St 61), (97, 102, St 82)] (St 0)),
      (82, Row False [(48, 57, St 83), (65, 70, St 83), (93, 93, St 61), (97, 102, St 83)] (St 0)),
      (83, Row False [(48, 57, St 60), (65, 70, St 60), (93, 93, St 61), (97, 102, St 60)] (St 0)),
      (84, Row False [
        (46, 46, St 55), (48, 57, St 85), (58, 58, St 80), (65, 70, St 77), (97, 102, St 77)] (St 0)),
      (85, Row False [
        (46, 46, St 55), (48, 57, St 86), (58, 58, St 80), (65, 70, St 78), (97, 102, St 78)] (St 0))],
     [])"

definition http_chunk_14 :: "http_action chunk" where
  "http_chunk_14 =
    ([(86, Row False [
        (46, 46, St 55), (48, 57, St 79), (58, 58, St 80), (65, 70, St 79), (97, 102, St 79)] (St 0)),
      (87, Row False [
        (46, 46, St 55), (48, 48, St 88), (49, 52, St 77), (53, 53, St 89), (54, 57, St 77), (58, 58, St 80),
        (65, 70, St 77), (97, 102, St 77)] (St 0)),
      (88, Row False [(48, 57, St 86), (58, 58, St 80), (65, 70, St 78), (97, 102, St 78)] (St 0)),
      (89, Row False [
        (48, 48, St 86), (49, 57, St 78), (58, 58, St 80), (65, 70, St 78), (97, 102, St 78)] (St 0)),
      (90, Row False [(48, 57, St 77), (58, 58, St 80), (65, 70, St 77), (97, 102, St 77)] (St 0)),
      (91, Row False [(48, 57, St 92), (58, 58, St 95), (65, 70, St 92), (97, 102, St 92)] (St 0)),
      (92, Row False [(48, 57, St 93), (58, 58, St 95), (65, 70, St 93), (97, 102, St 93)] (St 0)),
      (93, Row False [(48, 57, St 94), (58, 58, St 95), (65, 70, St 94), (97, 102, St 94)] (St 0)),
      (94, Row False [(58, 58, St 95)] (St 0)),
      (95, Row False [(48, 57, St 96), (58, 58, St 166), (65, 70, St 96), (97, 102, St 96)] (St 0))],
     [])"

definition http_chunk_15 :: "http_action chunk" where
  "http_chunk_15 =
    ([(96, Row False [(48, 57, St 97), (58, 58, St 100), (65, 70, St 97), (97, 102, St 97)] (St 0)),
      (97, Row False [(48, 57, St 98), (58, 58, St 100), (65, 70, St 98), (97, 102, St 98)] (St 0)),
      (98, Row False [(48, 57, St 99), (58, 58, St 100), (65, 70, St 99), (97, 102, St 99)] (St 0)),
      (99, Row False [(58, 58, St 100)] (St 0)),
      (100, Row False [(48, 57, St 101), (58, 58, St 165), (65, 70, St 101), (97, 102, St 101)] (St 0)),
      (101, Row False [(48, 57, St 102), (58, 58, St 105), (65, 70, St 102), (97, 102, St 102)] (St 0)),
      (102, Row False [(48, 57, St 103), (58, 58, St 105), (65, 70, St 103), (97, 102, St 103)] (St 0)),
      (103, Row False [(48, 57, St 104), (58, 58, St 105), (65, 70, St 104), (97, 102, St 104)] (St 0)),
      (104, Row False [(58, 58, St 105)] (St 0)),
      (105, Row False [(48, 57, St 106), (58, 58, St 164), (65, 70, St 106), (97, 102, St 106)] (St 0)),
      (106, Row False [(48, 57, St 107), (58, 58, St 110), (65, 70, St 107), (97, 102, St 107)] (St 0))],
     [])"

definition http_chunk_16 :: "http_action chunk" where
  "http_chunk_16 =
    ([(107, Row False [(48, 57, St 108), (58, 58, St 110), (65, 70, St 108), (97, 102, St 108)] (St 0)),
      (108, Row False [(48, 57, St 109), (58, 58, St 110), (65, 70, St 109), (97, 102, St 109)] (St 0)),
      (109, Row False [(58, 58, St 110)] (St 0)),
      (110, Row False [(48, 57, St 111), (58, 58, St 163), (65, 70, St 111), (97, 102, St 111)] (St 0)),
      (111, Row False [(48, 57, St 112), (58, 58, St 115), (65, 70, St 112), (97, 102, St 112)] (St 0)),
      (112, Row False [(48, 57, St 113), (58, 58, St 115), (65, 70, St 113), (97, 102, St 113)] (St 0)),
      (113, Row False [(48, 57, St 114), (58, 58, St 115), (65, 70, St 114), (97, 102, St 114)] (St 0)),
      (114, Row False [(58, 58, St 115)] (St 0)),
      (115, Row False [(48, 57, St 116), (58, 58, St 151), (65, 70, St 116), (97, 102, St 116)] (St 0)),
      (116, Row False [(48, 57, St 117), (58, 58, St 120), (65, 70, St 117), (97, 102, St 117)] (St 0)),
      (117, Row False [(48, 57, St 118), (58, 58, St 120), (65, 70, St 118), (97, 102, St 118)] (St 0))],
     [])"

definition http_chunk_17 :: "http_action chunk" where
  "http_chunk_17 =
    ([(118, Row False [(48, 57, St 119), (58, 58, St 120), (65, 70, St 119), (97, 102, St 119)] (St 0)),
      (119, Row False [(58, 58, St 120)] (St 0)),
      (120, Row False [(48, 57, St 121), (58, 58, St 150), (65, 70, St 121), (97, 102, St 121)] (St 0)),
      (121, Row False [(48, 57, St 122), (58, 58, St 125), (65, 70, St 122), (97, 102, St 122)] (St 0)),
      (122, Row False [(48, 57, St 123), (58, 58, St 125), (65, 70, St 123), (97, 102, St 123)] (St 0)),
      (123, Row False [(48, 57, St 124), (58, 58, St 125), (65, 70, St 124), (97, 102, St 124)] (St 0)),
      (124, Row False [(58, 58, St 125)] (St 0)),
      (125, Row False [(48, 57, St 121), (58, 58, St 126), (65, 70, St 121), (97, 102, St 121)] (St 0)),
      (126, Row False [
        (2, 3, St 48), (48, 48, St 127), (49, 49, St 143), (50, 50, St 146), (51, 57, St 127), (65, 70, St 149),
        (93, 93, St 61), (97, 102, St 149)] (St 0)),
      (127, Row False [
        (46, 46, St 55), (48, 57, St 128), (58, 58, St 131), (65, 70, St 128), (93, 93, St 61),
        (97, 102, St 128)] (St 0))],
     [])"

definition http_chunk_18 :: "http_action chunk" where
  "http_chunk_18 =
    ([(128, Row False [
        (48, 57, St 129), (58, 58, St 131), (65, 70, St 129), (93, 93, St 61), (97, 102, St 129)] (St 0)),
      (129, Row False [
        (48, 57, St 130), (58, 58, St 131), (65, 70, St 130), (93, 93, St 61), (97, 102, St 130)] (St 0)),
      (130, Row False [(58, 58, St 131), (93, 93, St 61)] (St 0)),
      (131, Row False [
        (48, 48, St 132), (49, 49, St 136), (50, 50, St 139), (51, 57, St 132), (65, 70, St 142),
        (97, 102, St 142)] (St 0)),
      (132, Row False [
        (46, 46, St 55), (48, 57, St 133), (58, 58, St 80), (65, 70, St 133), (93, 93, St 61), (97, 102, St 133)] (St 0)),
      (133, Row False [
        (48, 57, St 134), (58, 58, St 80), (65, 70, St 134), (93, 93, St 61), (97, 102, St 134)] (St 0)),
      (134, Row False [
        (48, 57, St 135), (58, 58, St 80), (65, 70, St 135), (93, 93, St 61), (97, 102, St 135)] (St 0)),
      (135, Row False [(58, 58, St 80), (93, 93, St 61)] (St 0)),
      (136, Row False [
        (46, 46, St 55), (48, 57, St 137), (58, 58, St 80), (65, 70, St 133), (93, 93, St 61), (97, 102, St 133)] (St 0))],
     [])"

definition http_chunk_19 :: "http_action chunk" where
  "http_chunk_19 =
    ([(137, Row False [
        (46, 46, St 55), (48, 57, St 138), (58, 58, St 80), (65, 70, St 134), (93, 93, St 61), (97, 102, St 134)] (St 0)),
      (138, Row False [
        (46, 46, St 55), (48, 57, St 135), (58, 58, St 80), (65, 70, St 135), (93, 93, St 61), (97, 102, St 135)] (St 0)),
      (139, Row False [
        (46, 46, St 55), (48, 48, St 140), (49, 52, St 133), (53, 53, St 141), (54, 57, St 133),
        (58, 58, St 80), (65, 70, St 133), (93, 93, St 61), (97, 102, St 133)] (St 0)),
      (140, Row False [
        (48, 57, St 138), (58, 58, St 80), (65, 70, St 134), (93, 93, St 61), (97, 102, St 134)] (St 0)),
      (141, Row False [
        (48, 48, St 138), (49, 57, St 134), (58, 58, St 80), (65, 70, St 134), (93, 93, St 61),
        (97, 102, St 134)] (St 0)),
      (142, Row False [
        (48, 57, St 133), (58, 58, St 80), (65, 70, St 133), (93, 93, St 61), (97, 102, St 133)] (St 0)),
      (143, Row False [
        (46, 46, St 55), (48, 57, St 144), (58, 58, St 131), (65, 70, St 128), (93, 93, St 61),
        (97, 102, St 128)] (St 0)),
      (144, Row False [
        (46, 46, St 55), (48, 57, St 145), (58, 58, St 131), (65, 70, St 129), (93, 93, St 61),
        (97, 102, St 129)] (St 0))],
     [])"

definition http_chunk_20 :: "http_action chunk" where
  "http_chunk_20 =
    ([(145, Row False [
        (46, 46, St 55), (48, 57, St 130), (58, 58, St 131), (65, 70, St 130), (93, 93, St 61),
        (97, 102, St 130)] (St 0)),
      (146, Row False [
        (46, 46, St 55), (48, 48, St 147), (49, 52, St 128), (53, 53, St 148), (54, 57, St 128),
        (58, 58, St 131), (65, 70, St 128), (93, 93, St 61), (97, 102, St 128)] (St 0)),
      (147, Row False [
        (48, 57, St 145), (58, 58, St 131), (65, 70, St 129), (93, 93, St 61), (97, 102, St 129)] (St 0)),
      (148, Row False [
        (48, 48, St 145), (49, 57, St 129), (58, 58, St 131), (65, 70, St 129), (93, 93, St 61),
        (97, 102, St 129)] (St 0)),
      (149, Row False [
        (48, 57, St 128), (58, 58, St 131), (65, 70, St 128), (93, 93, St 61), (97, 102, St 128)] (St 0)),
      (150, Row False [
        (2, 3, St 48), (48, 48, St 127), (49, 49, St 143), (50, 50, St 146), (51, 57, St 127), (65, 70, St 149),
        (97, 102, St 149)] (St 0)),
      (151, Row False [
        (2, 3, St 48), (48, 48, St 152), (49, 49, St 156), (50, 50, St 159), (51, 57, St 152), (65, 70, St 162),
        (97, 102, St 162)] (St 0)),
      (152, Row False [
        (46, 46, St 55), (48, 57, St 153), (58, 58, St 131), (65, 70, St 153), (97, 102, St 153)] (St 0))],
     [])"

definition http_chunk_21 :: "http_action chunk" where
  "http_chunk_21 =
    ([(153, Row False [(48, 57, St 154), (58, 58, St 131), (65, 70, St 154), (97, 102, St 154)] (St 0)),
      (154, Row False [(48, 57, St 155), (58, 58, St 131), (65, 70, St 155), (97, 102, St 155)] (St 0)),
      (155, Row False [(58, 58, St 131)] (St 0)),
      (156, Row False [
        (46, 46, St 55), (48, 57, St 157), (58, 58, St 131), (65, 70, St 153), (97, 102, St 153)] (St 0)),
      (157, Row False [
        (46, 46, St 55), (48, 57, St 158), (58, 58, St 131), (65, 70, St 154), (97, 102, St 154)] (St 0)),
      (158, Row False [
        (46, 46, St 55), (48, 57, St 155), (58, 58, St 131), (65, 70, St 155), (97, 102, St 155)] (St 0)),
      (159, Row False [
        (46, 46, St 55), (48, 48, St 160), (49, 52, St 153), (53, 53, St 161), (54, 57, St 153),
        (58, 58, St 131), (65, 70, St 153), (97, 102, St 153)] (St 0)),
      (160, Row False [(48, 57, St 158), (58, 58, St 131), (65, 70, St 154), (97, 102, St 154)] (St 0)),
      (161, Row False [
        (48, 48, St 158), (49, 57, St 154), (58, 58, St 131), (65, 70, St 154), (97, 102, St 154)] (St 0))],
     [])"

definition http_chunk_22 :: "http_action chunk" where
  "http_chunk_22 =
    ([(162, Row False [(48, 57, St 153), (58, 58, St 131), (65, 70, St 153), (97, 102, St 153)] (St 0)),
      (163, Row False [(2, 3, St 48), (48, 57, St 49), (65, 70, St 49), (97, 102, St 49)] (St 0)),
      (164, Row False [(2, 3, St 48)] (St 0)),
      (165, Row False [(3, 3, St 48)] (St 0)),
      (166, Row False [(4, 4, St 48)] (St 0)),
      (167, Row False [(58, 58, St 168)] (St 0)),
      (168, Row False [
        (2, 5, St 48), (48, 48, St 127), (49, 49, St 143), (50, 50, St 146), (51, 57, St 127), (65, 70, St 149),
        (93, 93, St 61), (97, 102, St 149)] (St 0)),
      (169, Row False [(48, 57, St 170), (65, 70, St 170), (97, 102, St 170)] (St 0)),
      (170, Row False [(46, 46, St 171), (48, 57, St 170), (65, 70, St 170), (97, 102, St 170)] (St 0))],
     [])"

definition http_chunk_23 :: "http_action chunk" where
  "http_chunk_23 =
    ([(171, Row True [
        (33, 33, St 172), (36, 36, St 172), (38, 46, St 172), (48, 59, St 172), (61, 61, St 172),
        (65, 90, St 172), (95, 95, St 172), (97, 122, St 172), (126, 126, St 172), (606, 606, St 172),
        (635, 635, St 172), (637, 637, St 172)] (St 0)),
      (172, Row True [
        (33, 33, St 172), (36, 36, St 172), (38, 46, St 172), (48, 59, St 172), (61, 61, St 172),
        (65, 90, St 172), (93, 93, St 61), (95, 95, St 172), (97, 122, St 172), (126, 126, St 172),
        (606, 606, St 172), (635, 635, St 172), (637, 637, St 172)] (St 0))],
     [(12, [HMark], 173)])"

definition http_chunk_24 :: "http_action chunk" where
  "http_chunk_24 =
    ([(173, Row True [
        (32, 32, Tr 37), (33, 33, St 19), (35, 35, Tr 39), (36, 36, St 19), (37, 37, St 24), (38, 42, St 19),
        (43, 43, St 173), (44, 44, St 19), (45, 46, St 173), (47, 47, St 26), (48, 57, St 173),
        (58, 58, St 174), (59, 59, St 19), (61, 61, St 19), (63, 63, Tr 42), (64, 64, St 19), (65, 90, St 173),
        (95, 95, St 19), (97, 122, St 173), (126, 126, St 19), (606, 606, St 19), (635, 635, St 19),
        (637, 637, St 19)] (St 0)),
      (174, Row True [
        (- 128, - 1, Tr 203), (32, 32, Tr 6), (33, 33, Tr 203), (35, 35, Tr 8), (36, 36, Tr 203),
        (37, 37, Tr 204), (38, 46, Tr 203), (47, 47, Tr 10), (48, 59, Tr 203), (61, 61, Tr 203),
        (63, 63, Tr 11), (64, 90, Tr 203), (95, 95, Tr 203), (97, 122, Tr 203), (126, 126, Tr 203),
        (606, 606, Tr 203), (635, 635, Tr 203), (637, 637, Tr 203)] (St 0)),
      (175, Row False [(32, 32, Tr 4), (48, 57, St 176), (65, 90, St 176)] (St 0)),
      (176, Row False [(32, 32, Tr 4), (48, 57, St 177), (65, 90, St 177)] (St 0)),
      (177, Row False [(32, 32, Tr 4), (48, 57, St 178), (65, 90, St 178)] (St 0))],
     [])"

definition http_chunk_25 :: "http_action chunk" where
  "http_chunk_25 =
    ([(178, Row False [(32, 32, Tr 4), (48, 57, St 179), (65, 90, St 179)] (St 0)),
      (179, Row False [(32, 32, Tr 4), (48, 57, St 180), (65, 90, St 180)] (St 0)),
      (180, Row False [(32, 32, Tr 4), (48, 57, St 181), (65, 90, St 181)] (St 0)),
      (181, Row False [(32, 32, Tr 4), (48, 57, St 182), (65, 90, St 182)] (St 0)),
      (182, Row False [(32, 32, Tr 4), (48, 57, St 183), (65, 90, St 183)] (St 0)),
      (183, Row False [(32, 32, Tr 4), (48, 57, St 184), (65, 90, St 184)] (St 0)),
      (184, Row False [(32, 32, Tr 4), (48, 57, St 185), (65, 90, St 185)] (St 0)),
      (185, Row False [(32, 32, Tr 4), (48, 57, St 186), (65, 90, St 186)] (St 0)),
      (186, Row False [(32, 32, Tr 4), (48, 57, St 187), (65, 90, St 187)] (St 0)),
      (187, Row False [(32, 32, Tr 4), (48, 57, St 188), (65, 90, St 188)] (St 0)),
      (188, Row False [(32, 32, Tr 4), (48, 57, St 189), (65, 90, St 189)] (St 0)),
      (189, Row False [(32, 32, Tr 4), (48, 57, St 190), (65, 90, St 190)] (St 0))],
     [])"

definition http_chunk_26 :: "http_action chunk" where
  "http_chunk_26 =
    ([(190, Row False [(32, 32, Tr 4), (48, 57, St 191), (65, 90, St 191)] (St 0)),
      (191, Row False [(32, 32, Tr 4), (48, 57, St 192), (65, 90, St 192)] (St 0)),
      (192, Row False [(32, 32, Tr 4), (48, 57, St 193), (65, 90, St 193)] (St 0)),
      (193, Row False [(32, 32, Tr 4)] (St 0)),
      (194, Row False [(45, 46, St 195), (48, 57, St 195), (65, 90, St 195), (97, 122, St 195)] (St 0)),
      (195, Row False [
        (9, 13, Tr 224), (32, 32, Tr 224), (45, 46, St 195), (47, 47, Tr 224), (48, 57, St 195),
        (62, 62, Tr 224), (65, 90, St 195), (97, 122, St 195)] (St 0)),
      (196, Row False [(62, 62, St 197)] (St 196)),
      (197, Row False [(0, 0, Tr 227), (62, 62, St 197)] (St 196))],
     [(2, [HMark], 194),
      (224, [HRequestPath], 196),
      (227, [HXml, HDone], 349),
      (235, [HJson, HDone], 349)])"

definition http_chunk_27 :: "http_action chunk" where
  "http_chunk_27 =
    ([(349, Row False [] (St 0)),
      (198, Row True [
        (32, 32, Tr 228), (33, 33, St 202), (36, 36, St 202), (37, 37, St 203), (38, 46, St 202),
        (47, 47, St 208), (48, 57, St 202), (59, 59, St 202), (61, 61, St 202), (64, 90, St 202),
        (95, 95, St 202), (97, 122, St 202), (126, 126, St 202), (606, 606, St 202), (635, 635, St 202),
        (637, 637, St 202)] (St 0)),
      (199, Row False [(123, 123, Tr 232)] (St 0)),
      (200, Row False [(125, 125, St 201)] (St 200)),
      (201, Row False [(0, 0, Tr 235), (125, 125, St 201)] (St 200)),
      (202, Row True [
        (32, 32, Tr 228), (33, 33, St 202), (36, 36, St 202), (37, 37, St 203), (38, 46, St 202),
        (47, 47, St 205), (48, 57, St 202), (59, 59, St 202), (61, 61, St 202), (64, 90, St 202),
        (95, 95, St 202), (97, 122, St 202), (126, 126, St 202), (606, 606, St 202), (635, 635, St 202),
        (637, 637, St 202)] (St 0))],
     [(3, [HMark], 198),
      (228, [HRequestPath], 199),
      (232, [HMark], 200)])"

definition http_chunk_28 :: "http_action chunk" where
  "http_chunk_28 =
    ([(203, Row False [(48, 57, St 204), (65, 70, St 204), (97, 102, St 204)] (St 0)),
      (204, Row False [(48, 57, St 202), (65, 70, St 202), (97, 102, St 202)] (St 0)),
      (205, Row True [
        (- 128, - 1, St 205), (32, 32, Tr 228), (33, 33, St 205), (36, 36, St 205), (37, 37, St 206),
        (38, 59, St 205), (61, 61, St 205), (64, 90, St 205), (95, 95, St 205), (97, 122, St 205),
        (126, 126, St 205), (606, 606, St 205), (635, 635, St 205), (637, 637, St 205)] (St 0)),
      (206, Row False [(48, 57, St 207), (65, 70, St 207), (97, 102, St 207)] (St 0)),
      (207, Row False [(48, 57, St 205), (65, 70, St 205), (97, 102, St 205)] (St 0)),
      (208, Row True [
        (- 128, - 1, St 205), (32, 32, Tr 228), (33, 33, St 205), (36, 36, St 205), (37, 37, St 206),
        (38, 46, St 205), (47, 47, St 209), (48, 59, St 205), (61, 61, St 205), (64, 90, St 205),
        (95, 95, St 205), (97, 122, St 205), (126, 126, St 205), (606, 606, St 205), (635, 635, St 205),
        (637, 637, St 205)] (St 0))],
     [])"

definition http_chunk_29 :: "http_action chunk" where
  "http_chunk_29 =
    ([(209, Row True [
        (32, 32, Tr 228), (33, 33, St 210), (36, 36, St 210), (37, 37, St 211), (38, 46, St 210),
        (47, 47, St 205), (48, 57, St 210), (58, 58, St 213), (59, 59, St 210), (61, 61, St 210),
        (64, 64, St 217), (65, 90, St 210), (91, 91, St 222), (95, 95, St 210), (97, 122, St 210),
        (126, 126, St 210), (606, 606, St 210), (635, 635, St 210), (637, 637, St 210)] (St 0)),
      (210, Row True [
        (32, 32, Tr 228), (33, 33, St 210), (36, 36, St 210), (37, 37, St 211), (38, 46, St 210),
        (47, 47, St 205), (48, 57, St 210), (58, 58, St 213), (59, 59, St 210), (61, 61, St 210),
        (64, 64, St 217), (65, 90, St 210), (95, 95, St 210), (97, 122, St 210), (126, 126, St 210),
        (606, 606, St 210), (635, 635, St 210), (637, 637, St 210)] (St 0)),
      (211, Row False [(48, 57, St 212), (65, 70, St 212), (97, 102, St 212)] (St 0)),
      (212, Row False [(48, 57, St 210), (65, 70, St 210), (97, 102, St 210)] (St 0))],
     [])"

definition http_chunk_30 :: "http_action chunk" where
  "http_chunk_30 =
    ([(213, Row True [
        (32, 32, Tr 228), (33, 33, St 214), (36, 36, St 214), (37, 37, St 215), (38, 46, St 214),
        (47, 47, St 205), (48, 57, St 213), (58, 59, St 214), (61, 61, St 214), (64, 64, St 217),
        (65, 90, St 214), (95, 95, St 214), (97, 122, St 214), (126, 126, St 214), (606, 606, St 214),
        (635, 635, St 214), (637, 637, St 214)] (St 0)),
      (214, Row True [
        (33, 33, St 214), (36, 36, St 214), (37, 37, St 215), (38, 46, St 214), (48, 59, St 214),
        (61, 61, St 214), (64, 64, St 217), (65, 90, St 214), (95, 95, St 214), (97, 122, St 214),
        (126, 126, St 214), (606, 606, St 214), (635, 635, St 214), (637, 637, St 214)] (St 0)),
      (215, Row False [(48, 57, St 216), (65, 70, St 216), (97, 102, St 216)] (St 0)),
      (216, Row False [(48, 57, St 214), (65, 70, St 214), (97, 102, St 214)] (St 0))],
     [])"

definition http_chunk_31 :: "http_action chunk" where
  "http_chunk_31 =
    ([(217, Row True [
        (32, 32, Tr 228), (33, 33, St 218), (36, 36, St 218), (37, 37, St 219), (38, 46, St 218),
        (47, 47, St 205), (48, 57, St 218), (58, 58, St 221), (59, 59, St 218), (61, 61, St 218),
        (65, 90, St 218), (91, 91, St 222), (95, 95, St 218), (97, 122, St 218), (126, 126, St 218),
        (606, 606, St 218), (635, 635, St 218), (637, 637, St 218)] (St 0)),
      (218, Row True [
        (32, 32, Tr 228), (33, 33, St 218), (36, 36, St 218), (37, 37, St 219), (38, 46, St 218),
        (47, 47, St 205), (48, 57, St 218), (58, 58, St 221), (59, 59, St 218), (61, 61, St 218),
        (65, 90, St 218), (95, 95, St 218), (97, 122, St 218), (126, 126, St 218), (606, 606, St 218),
        (635, 635, St 218), (637, 637, St 218)] (St 0)),
      (219, Row False [(48, 57, St 220), (65, 70, St 220), (97, 102, St 220)] (St 0)),
      (220, Row False [(48, 57, St 218), (65, 70, St 218), (97, 102, St 218)] (St 0)),
      (221, Row False [(32, 32, Tr 228), (47, 47, St 205), (48, 57, St 221)] (St 0)),
      (222, Row False [
        (6, 6, St 223), (48, 57, St 266), (58, 58, St 342), (65, 70, St 266), (97, 102, St 266),
        (118, 118, St 344)] (St 0))],
     [])"

definition http_chunk_32 :: "http_action chunk" where
  "http_chunk_32 =
    ([(223, Row False [(48, 57, St 224), (65, 70, St 224), (97, 102, St 224)] (St 0)),
      (224, Row False [(48, 57, St 225), (58, 58, St 228), (65, 70, St 225), (97, 102, St 225)] (St 0)),
      (225, Row False [(48, 57, St 226), (58, 58, St 228), (65, 70, St 226), (97, 102, St 226)] (St 0)),
      (226, Row False [(48, 57, St 227), (58, 58, St 228), (65, 70, St 227), (97, 102, St 227)] (St 0)),
      (227, Row False [(58, 58, St 228)] (St 0)),
      (228, Row False [
        (48, 48, St 229), (49, 49, St 259), (50, 50, St 262), (51, 57, St 229), (65, 70, St 265),
        (97, 102, St 265)] (St 0)),
      (229, Row False [
        (46, 46, St 230), (48, 57, St 252), (58, 58, St 255), (65, 70, St 252), (97, 102, St 252)] (St 0)),
      (230, Row False [(48, 48, St 231), (49, 49, St 247), (50, 50, St 249), (51, 57, St 231)] (St 0)),
      (231, Row False [(46, 46, St 232)] (St 0)),
      (232, Row False [(48, 48, St 233), (49, 49, St 242), (50, 50, St 244), (51, 57, St 233)] (St 0)),
      (233, Row False [(46, 46, St 234)] (St 0)),
      (234, Row False [(48, 48, St 235), (49, 49, St 237), (50, 50, St 239), (51, 57, St 235)] (St 0)),
      (235, Row False [(93, 93, St 236)] (St 0))],
     [])"

definition http_chunk_33 :: "http_action chunk" where
  "http_chunk_33 =
    ([(236, Row False [(32, 32, Tr 228), (47, 47, St 205), (58, 58, St 221)] (St 0)),
      (237, Row False [(48, 57, St 238), (93, 93, St 236)] (St 0)),
      (238, Row False [(48, 57, St 235), (93, 93, St 236)] (St 0)),
      (239, Row False [(48, 48, St 240), (53, 53, St 241), (93, 93, St 236)] (St 0)),
      (240, Row False [(48, 57, St 235)] (St 0)),
      (241, Row False [(48, 48, St 235)] (St 0)),
      (242, Row False [(46, 46, St 234), (48, 57, St 243)] (St 0)),
      (243, Row False [(46, 46, St 234), (48, 57, St 233)] (St 0)),
      (244, Row False [(46, 46, St 234), (48, 48, St 245), (53, 53, St 246)] (St 0)),
      (245, Row False [(48, 57, St 233)] (St 0)),
      (246, Row False [(48, 48, St 233)] (St 0)),
      (247, Row False [(46, 46, St 232), (48, 57, St 248)] (St 0)),
      (248, Row False [(46, 46, St 232), (48, 57, St 231)] (St 0)),
      (249, Row False [(46, 46, St 232), (48, 48, St 250), (53, 53, St 251)] (St 0)),
      (250, Row False [(48, 57, St 231)] (St 0)),
      (251, Row False [(48, 48, St 231)] (St 0))],
     [])"

definition http_chunk_34 :: "http_action chunk" where
  "http_chunk_34 =
    ([(252, Row False [(48, 57, St 253), (58, 58, St 255), (65, 70, St 253), (97, 102, St 253)] (St 0)),
      (253, Row False [(48, 57, St 254), (58, 58, St 255), (65, 70, St 254), (97, 102, St 254)] (St 0)),
      (254, Row False [(58, 58, St 255)] (St 0)),
      (255, Row False [(48, 57, St 256), (65, 70, St 256), (97, 102, St 256)] (St 0)),
      (256, Row False [(48, 57, St 257), (65, 70, St 257), (93, 93, St 236), (97, 102, St 257)] (St 0)),
      (257, Row False [(48, 57, St 258), (65, 70, St 258), (93, 93, St 236), (97, 102, St 258)] (St 0)),
      (258, Row False [(48, 57, St 235), (65, 70, St 235), (93, 93, St 236), (97, 102, St 235)] (St 0)),
      (259, Row False [
        (46, 46, St 230), (48, 57, St 260), (58, 58, St 255), (65, 70, St 252), (97, 102, St 252)] (St 0)),
      (260, Row False [
        (46, 46, St 230), (48, 57, St 261), (58, 58, St 255), (65, 70, St 253), (97, 102, St 253)] (St 0)),
      (261, Row False [
        (46, 46, St 230), (48, 57, St 254), (58, 58, St 255), (65, 70, St 254), (97, 102, St 254)] (St 0))],
     [])"

definition http_chunk_35 :: "http_action chunk" where
  "http_chunk_35 =
    ([(262, Row False [
        (46, 46, St 230), (48, 48, St 263), (49, 52, St 252), (53, 53, St 264), (54, 57, St 252),
        (58, 58, St 255), (65, 70, St 252), (97, 102, St 252)] (St 0)),
      (263, Row False [(48, 57, St 261), (58, 58, St 255), (65, 70, St 253), (97, 102, St 253)] (St 0)),
      (264, Row False [
        (48, 48, St 261), (49, 57, St 253), (58, 58, St 255), (65, 70, St 253), (97, 102, St 253)] (St 0)),
      (265, Row False [(48, 57, St 252), (58, 58, St 255), (65, 70, St 252), (97, 102, St 252)] (St 0)),
      (266, Row False [(48, 57, St 267), (58, 58, St 270), (65, 70, St 267), (97, 102, St 267)] (St 0)),
      (267, Row False [(48, 57, St 268), (58, 58, St 270), (65, 70, St 268), (97, 102, St 268)] (St 0)),
      (268, Row False [(48, 57, St 269), (58, 58, St 270), (65, 70, St 269), (97, 102, St 269)] (St 0)),
      (269, Row False [(58, 58, St 270)] (St 0)),
      (270, Row False [(48, 57, St 271), (58, 58, St 341), (65, 70, St 271), (97, 102, St 271)] (St 0)),
      (271, Row False [(48, 57, St 272), (58, 58, St 275), (65, 70, St 272), (97, 102, St 272)] (St 0))],
     [])"

definition http_chunk_36 :: "http_action chunk" where
  "http_chunk_36 =
    ([(272, Row False [(48, 57, St 273), (58, 58, St 275), (65, 70, St 273), (97, 102, St 273)] (St 0)),
      (273, Row False [(48, 57, St 274), (58, 58, St 275), (65, 70, St 274), (97, 102, St 274)] (St 0)),
      (274, Row False [(58, 58, St 275)] (St 0)),
      (275, Row False [(48, 57, St 276), (58, 58, St 340), (65, 70, St 276), (97, 102, St 276)] (St 0)),
      (276, Row False [(48, 57, St 277), (58, 58, St 280), (65, 70, St 277), (97, 102, St 277)] (St 0)),
      (277, Row False [(48, 57, St 278), (58, 58, St 280), (65, 70, St 278), (97, 102, St 278)] (St 0)),
      (278, Row False [(48, 57, St 279), (58, 58, St 280), (65, 70, St 279), (97, 102, St 279)] (St 0)),
      (279, Row False [(58, 58, St 280)] (St 0)),
      (280, Row False [(48, 57, St 281), (58, 58, St 339), (65, 70, St 281), (97, 102, St 281)] (St 0)),
      (281, Row False [(48, 57, St 282), (58, 58, St 285), (65, 70, St 282), (97, 102, St 282)] (St 0)),
      (282, Row False [(48, 57, St 283), (58, 58, St 285), (65, 70, St 283), (97, 102, St 283)] (St 0))],
     [])"

definition http_chunk_37 :: "http_action chunk" where
  "http_chunk_37 =
    ([(283, Row False [(48, 57, St 284), (58, 58, St 285), (65, 70, St 284), (97, 102, St 284)] (St 0)),
      (284, Row False [(58, 58, St 285)] (St 0)),
      (285, Row False [(48, 57, St 286), (58, 58, St 338), (65, 70, St 286), (97, 102, St 286)] (St 0)),
      (286, Row False [(48, 57, St 287), (58, 58, St 290), (65, 70, St 287), (97, 102, St 287)] (St 0)),
      (287, Row False [(48, 57, St 288), (58, 58, St 290), (65, 70, St 288), (97, 102, St 288)] (St 0)),
      (288, Row False [(48, 57, St 289), (58, 58, St 290), (65, 70, St 289), (97, 102, St 289)] (St 0)),
      (289, Row False [(58, 58, St 290)] (St 0)),
      (290, Row False [(48, 57, St 291), (58, 58, St 326), (65, 70, St 291), (97, 102, St 291)] (St 0)),
      (291, Row False [(48, 57, St 292), (58, 58, St 295), (65, 70, St 292), (97, 102, St 292)] (St 0)),
      (292, Row False [(48, 57, St 293), (58, 58, St 295), (65, 70, St 293), (97, 102, St 293)] (St 0)),
      (293, Row False [(48, 57, St 294), (58, 58, St 295), (65, 70, St 294), (97, 102, St 294)] (St 0))],
     [])"

definition http_chunk_38 :: "http_action chunk" where
  "http_chunk_38 =
    ([(294, Row False [(58, 58, St 295)] (St 0)),
      (295, Row False [(48, 57, St 296), (58, 58, St 325), (65, 70, St 296), (97, 102, St 296)] (St 0)),
      (296, Row False [(48, 57, St 297), (58, 58, St 300), (65, 70, St 297), (97, 102, St 297)] (St 0)),
      (297, Row False [(48, 57, St 298), (58, 58, St 300), (65, 70, St 298), (97, 102, St 298)] (St 0)),
      (298, Row False [(48, 57, St 299), (58, 58, St 300), (65, 70, St 299), (97, 102, St 299)] (St 0)),
      (299, Row False [(58, 58, St 300)] (St 0)),
      (300, Row False [(48, 57, St 296), (58, 58, St 301), (65, 70, St 296), (97, 102, St 296)] (St 0)),
      (301, Row False [
        (2, 3, St 223), (48, 48, St 302), (49, 49, St 318), (50, 50, St 321), (51, 57, St 302),
        (65, 70, St 324), (93, 93, St 236), (97, 102, St 324)] (St 0)),
      (302, Row False [
        (46, 46, St 230), (48, 57, St 303), (58, 58, St 306), (65, 70, St 303), (93, 93, St 236),
        (97, 102, St 303)] (St 0)),
      (303, Row False [
        (48, 57, St 304), (58, 58, St 306), (65, 70, St 304), (93, 93, St 236), (97, 102, St 304)] (St 0))],
     [])"

definition http_chunk_39 :: "http_action chunk" where
  "http_chunk_39 =
    ([(304, Row False [
        (48, 57, St 305), (58, 58, St 306), (65, 70, St 305), (93, 93, St 236), (97, 102, St 305)] (St 0)),
      (305, Row False [(58, 58, St 306), (93, 93, St 236)] (St 0)),
      (306, Row False [
        (48, 48, St 307), (49, 49, St 311), (50, 50, St 314), (51, 57, St 307), (65, 70, St 317),
        (97, 102, St 317)] (St 0)),
      (307, Row False [
        (46, 46, St 230), (48, 57, St 308), (58, 58, St 255), (65, 70, St 308), (93, 93, St 236),
        (97, 102, St 308)] (St 0)),
      (308, Row False [
        (48, 57, St 309), (58, 58, St 255), (65, 70, St 309), (93, 93, St 236), (97, 102, St 309)] (St 0)),
      (309, Row False [
        (48, 57, St 310), (58, 58, St 255), (65, 70, St 310), (93, 93, St 236), (97, 102, St 310)] (St 0)),
      (310, Row False [(58, 58, St 255), (93, 93, St 236)] (St 0)),
      (311, Row False [
        (46, 46, St 230), (48, 57, St 312), (58, 58, St 255), (65, 70, St 308), (93, 93, St 236),
        (97, 102, St 308)] (St 0)),
      (312, Row False [
        (46, 46, St 230), (48, 57, St 313), (58, 58, St 255), (65, 70, St 309), (93, 93, St 236),
        (97, 102, St 309)] (St 0))],
     [])"

definition http_chunk_40 :: "http_action chunk" where
  "http_chunk_40 =
    ([(313, Row False [
        (46, 46, St 230), (48, 57, St 310), (58, 58, St 255), (65, 70, St 310), (93, 93, St 236),
        (97, 102, St 310)] (St 0)),
      (314, Row False [
        (46, 46, St 230), (48, 48, St 315), (49, 52, St 308), (53, 53, St 316), (54, 57, St 308),
        (58, 58, St 255), (65, 70, St 308), (93, 93, St 236), (97, 102, St 308)] (St 0)),
      (315, Row False [
        (48, 57, St 313), (58, 58, St 255), (65, 70, St 309), (93, 93, St 236), (97, 102, St 309)] (St 0)),
      (316, Row False [
        (48, 48, St 313), (49, 57, St 309), (58, 58, St 255), (65, 70, St 309), (93, 93, St 236),
        (97, 102, St 309)] (St 0)),
      (317, Row False [
        (48, 57, St 308), (58, 58, St 255), (65, 70, St 308), (93, 93, St 236), (97, 102, St 308)] (St 0)),
      (318, Row False [
        (46, 46, St 230), (48, 57, St 319), (58, 58, St 306), (65, 70, St 303), (93, 93, St 236),
        (97, 102, St 303)] (St 0)),
      (319, Row False [
        (46, 46, St 230), (48, 57, St 320), (58, 58, St 306), (65, 70, St 304), (93, 93, St 236),
        (97, 102, St 304)] (St 0)),
      (320, Row False [
        (46, 46, St 230), (48, 57, St 305), (58, 58, St 306), (65, 70, St 305), (93, 93, St 236),
        (97, 102, St 305)] (St 0))],
     [])"

definition http_chunk_41 :: "http_action chunk" where
  "http_chunk_41 =
    ([(321, Row False [
        (46, 46, St 230), (48, 48, St 322), (49, 52, St 303), (53, 53, St 323), (54, 57, St 303),
        (58, 58, St 306), (65, 70, St 303), (93, 93, St 236), (97, 102, St 303)] (St 0)),
      (322, Row False [
        (48, 57, St 320), (58, 58, St 306), (65, 70, St 304), (93, 93, St 236), (97, 102, St 304)] (St 0)),
      (323, Row False [
        (48, 48, St 320), (49, 57, St 304), (58, 58, St 306), (65, 70, St 304), (93, 93, St 236),
        (97, 102, St 304)] (St 0)),
      (324, Row False [
        (48, 57, St 303), (58, 58, St 306), (65, 70, St 303), (93, 93, St 236), (97, 102, St 303)] (St 0)),
      (325, Row False [
        (2, 3, St 223), (48, 48, St 302), (49, 49, St 318), (50, 50, St 321), (51, 57, St 302),
        (65, 70, St 324), (97, 102, St 324)] (St 0)),
      (326, Row False [
        (2, 3, St 223), (48, 48, St 327), (49, 49, St 331), (50, 50, St 334), (51, 57, St 327),
        (65, 70, St 337), (97, 102, St 337)] (St 0)),
      (327, Row False [
        (46, 46, St 230), (48, 57, St 328), (58, 58, St 306), (65, 70, St 328), (97, 102, St 328)] (St 0)),
      (328, Row False [(48, 57, St 329), (58, 58, St 306), (65, 70, St 329), (97, 102, St 329)] (St 0))],
     [])"

definition http_chunk_42 :: "http_action chunk" where
  "http_chunk_42 =
    ([(329, Row False [(48, 57, St 330), (58, 58, St 306), (65, 70, St 330), (97, 102, St 330)] (St 0)),
      (330, Row False [(58, 58, St 306)] (St 0)),
      (331, Row False [
        (46, 46, St 230), (48, 57, St 332), (58, 58, St 306), (65, 70, St 328), (97, 102, St 328)] (St 0)),
      (332, Row False [
        (46, 46, St 230), (48, 57, St 333), (58, 58, St 306), (65, 70, St 329), (97, 102, St 329)] (St 0)),
      (333, Row False [
        (46, 46, St 230), (48, 57, St 330), (58, 58, St 306), (65, 70, St 330), (97, 102, St 330)] (St 0)),
      (334, Row False [
        (46, 46, St 230), (48, 48, St 335), (49, 52, St 328), (53, 53, St 336), (54, 57, St 328),
        (58, 58, St 306), (65, 70, St 328), (97, 102, St 328)] (St 0)),
      (335, Row False [(48, 57, St 333), (58, 58, St 306), (65, 70, St 329), (97, 102, St 329)] (St 0)),
      (336, Row False [
        (48, 48, St 333), (49, 57, St 329), (58, 58, St 306), (65, 70, St 329), (97, 102, St 329)] (St 0)),
      (337, Row False [(48, 57, St 328), (58, 58, St 306), (65, 70, St 328), (97, 102, St 328)] (St 0))],
     [])"

definition http_chunk_43 :: "http_action chunk" where
  "http_chunk_43 =
    ([(338, Row False [(2, 3, St 223), (48, 57, St 224), (65, 70, St 224), (97, 102, St 224)] (St 0)),
      (339, Row False [(2, 3, St 223)] (St 0)),
      (340, Row False [(3, 3, St 223)] (St 0)),
      (341, Row False [(4, 4, St 223)] (St 0)),
      (342, Row False [(58, 58, St 343)] (St 0)),
      (343, Row False [
        (2, 5, St 223), (48, 48, St 302), (49, 49, St 318), (50, 50, St 321), (51, 57, St 302),
        (65, 70, St 324), (93, 93, St 236), (97, 102, St 324)] (St 0)),
      (344, Row False [(48, 57, St 345), (65, 70, St 345), (97, 102, St 345)] (St 0)),
      (345, Row False [(46, 46, St 346), (48, 57, St 345), (65, 70, St 345), (97, 102, St 345)] (St 0)),
      (346, Row True [
        (33, 33, St 347), (36, 36, St 347), (38, 46, St 347), (48, 59, St 347), (61, 61, St 347),
        (65, 90, St 347), (95, 95, St 347), (97, 122, St 347), (126, 126, St 347), (606, 606, St 347),
        (635, 635, St 347), (637, 637, St 347)] (St 0))],
     [])"

definition http_chunk_44 :: "http_action chunk" where
  "http_chunk_44 =
    ([(347, Row True [
        (33, 33, St 347), (36, 36, St 347), (38, 46, St 347), (48, 59, St 347), (61, 61, St 347),
        (65, 90, St 347), (93, 93, St 236), (95, 95, St 347), (97, 122, St 347), (126, 126, St 347),
        (606, 606, St 347), (635, 635, St 347), (637, 637, St 347)] (St 0))],
     [])"

definition http_index :: "http_action index" where
  "http_index =
    [([1, 2, 3], [0, 4, 6, 37, 44, 47, 54], http_chunk_1),
     ([4, 5, 6, 7, 8, 9, 10, 11, 12, 13], [58, 13, 21, 30, 33, 23], http_chunk_2),
     ([14, 15, 16, 17], [27, 29, 28, 22, 31, 34, 24, 36], http_chunk_3),
     ([348, 18, 19], [25, 7, 8], http_chunk_4),
     ([20, 21], [39, 55, 59, 43, 45], http_chunk_5),
     ([22, 23, 24, 25, 26, 27, 28], [9, 203, 204, 11], http_chunk_6),
     ([29, 30, 31, 32], [42, 53, 56, 10], http_chunk_7),
     ([33, 34, 35], [], http_chunk_8),
     ([36, 37, 38, 39, 40], [], http_chunk_9),
     ([41, 42, 43, 44, 45, 46], [], http_chunk_10),
     ([47, 48, 49, 50, 51, 52, 53, 54, 55, 56, 57], [], http_chunk_11),
     ([58, 59, 60, 61, 62, 63, 64, 65, 66, 67, 68, 69, 70, 71, 72, 73, 74], [], http_chunk_12),
     ([75, 76, 77, 78, 79, 80, 81, 82, 83, 84, 85], [], http_chunk_13),
     ([86, 87, 88, 89, 90, 91, 92, 93, 94, 95], [], http_chunk_14),
     ([96, 97, 98, 99, 100, 101, 102, 103, 104, 105, 106], [], http_chunk_15),
     ([107, 108, 109, 110, 111, 112, 113, 114, 115, 116, 117], [], http_chunk_16),
     ([118, 119, 120, 121, 122, 123, 124, 125, 126, 127], [], http_chunk_17),
     ([128, 129, 130, 131, 132, 133, 134, 135, 136], [], http_chunk_18),
     ([137, 138, 139, 140, 141, 142, 143, 144], [], http_chunk_19),
     ([145, 146, 147, 148, 149, 150, 151, 152], [], http_chunk_20),
     ([153, 154, 155, 156, 157, 158, 159, 160, 161], [], http_chunk_21),
     ([162, 163, 164, 165, 166, 167, 168, 169, 170], [], http_chunk_22),
     ([171, 172], [12], http_chunk_23),
     ([173, 174, 175, 176, 177], [], http_chunk_24),
     ([178, 179, 180, 181, 182, 183, 184, 185, 186, 187, 188, 189], [], http_chunk_25),
     ([190, 191, 192, 193, 194, 195, 196, 197], [2, 224, 227, 235], http_chunk_26),
     ([349, 198, 199, 200, 201, 202], [3, 228, 232], http_chunk_27),
     ([203, 204, 205, 206, 207, 208], [], http_chunk_28),
     ([209, 210, 211, 212], [], http_chunk_29),
     ([213, 214, 215, 216], [], http_chunk_30),
     ([217, 218, 219, 220, 221, 222], [], http_chunk_31),
     ([223, 224, 225, 226, 227, 228, 229, 230, 231, 232, 233, 234, 235], [], http_chunk_32),
     ([236, 237, 238, 239, 240, 241, 242, 243, 244, 245, 246, 247, 248, 249, 250, 251], [], http_chunk_33),
     ([252, 253, 254, 255, 256, 257, 258, 259, 260, 261], [], http_chunk_34),
     ([262, 263, 264, 265, 266, 267, 268, 269, 270, 271], [], http_chunk_35),
     ([272, 273, 274, 275, 276, 277, 278, 279, 280, 281, 282], [], http_chunk_36),
     ([283, 284, 285, 286, 287, 288, 289, 290, 291, 292, 293], [], http_chunk_37),
     ([294, 295, 296, 297, 298, 299, 300, 301, 302, 303], [], http_chunk_38),
     ([304, 305, 306, 307, 308, 309, 310, 311, 312], [], http_chunk_39),
     ([313, 314, 315, 316, 317, 318, 319, 320], [], http_chunk_40),
     ([321, 322, 323, 324, 325, 326, 327, 328], [], http_chunk_41),
     ([329, 330, 331, 332, 333, 334, 335, 336, 337], [], http_chunk_42),
     ([338, 339, 340, 341, 342, 343, 344, 345, 346], [], http_chunk_43),
     ([347], [], http_chunk_44)]"

text \<open>The transitions, by number, and the closedness of the table.\<close>

lemma http_trans_of:
  "snd http_chunk_1 =
     [(0, [HMark], 2),
      (4, [HRequestMethod], 3),
      (6, [HMark, HRequestPath, HRequestUri], 4),
      (37, [HRequestPath, HRequestUri], 4),
      (44, [HMark, HFragment], 4),
      (47, [HFragment], 4),
      (54, [HStartQuery, HQueryString, HRequestUri], 4)]"
  "snd http_chunk_2 =
     [(58, [HQueryString, HRequestUri], 4),
      (13, [HMark], 5),
      (21, [HHttpVersion], 13),
      (30, [HStartValue, HWriteValue], 13),
      (33, [HWriteValue], 13),
      (23, [HStartField], 14)]"
  "snd http_chunk_3 =
     [(27, [HWriteField], 15),
      (29, [HStartValue], 15),
      (28, [HStartValue], 16),
      (22, [HHttpVersion], 17),
      (31, [HStartValue, HWriteValue], 17),
      (34, [HWriteValue], 17),
      (24, [HStartField, HDone], 348),
      (36, [HDone], 348)]"
  "snd http_chunk_4 =
     [(25, [HStartField], 18),
      (7, [HMark], 19),
      (8, [HMark, HRequestPath, HRequestUri], 20)]"
  "snd http_chunk_5 =
     [(39, [HRequestPath, HRequestUri], 20),
      (55, [HStartQuery, HQueryString, HRequestUri], 20),
      (59, [HQueryString, HRequestUri], 20),
      (43, [HMark], 21),
      (45, [HMark], 22)]"
  "snd http_chunk_6 =
     [(9, [HMark], 24),
      (203, [HMark], 26),
      (204, [HMark], 27),
      (11, [HMark, HRequestPath], 29)]"
  "snd http_chunk_7 =
     [(42, [HRequestPath], 29),
      (53, [HStartQuery], 30),
      (56, [HStartQuery], 31),
      (10, [HMark], 33)]"
  "snd http_chunk_8 = []"
  "snd http_chunk_9 = []"
  "snd http_chunk_10 = []"
  "snd http_chunk_11 = []"
  "snd http_chunk_12 = []"
  "snd http_chunk_13 = []"
  "snd http_chunk_14 = []"
  "snd http_chunk_15 = []"
  "snd http_chunk_16 = []"
  "snd http_chunk_17 = []"
  "snd http_chunk_18 = []"
  "snd http_chunk_19 = []"
  "snd http_chunk_20 = []"
  "snd http_chunk_21 = []"
  "snd http_chunk_22 = []"
  "snd http_chunk_23 =
     [(12, [HMark], 173)]"
  "snd http_chunk_24 = []"
  "snd http_chunk_25 = []"
  "snd http_chunk_26 =
     [(2, [HMark], 194),
      (224, [HRequestPath], 196),
      (227, [HXml, HDone], 349),
      (235, [HJson, HDone], 349)]"
  "snd http_chunk_27 =
     [(3, [HMark], 198),
      (228, [HRequestPath], 199),
      (232, [HMark], 200)]"
  "snd http_chunk_28 = []"
  "snd http_chunk_29 = []"
  "snd http_chunk_30 = []"
  "snd http_chunk_31 = []"
  "snd http_chunk_32 = []"
  "snd http_chunk_33 = []"
  "snd http_chunk_34 = []"
  "snd http_chunk_35 = []"
  "snd http_chunk_36 = []"
  "snd http_chunk_37 = []"
  "snd http_chunk_38 = []"
  "snd http_chunk_39 = []"
  "snd http_chunk_40 = []"
  "snd http_chunk_41 = []"
  "snd http_chunk_42 = []"
  "snd http_chunk_43 = []"
  "snd http_chunk_44 = []"
  unfolding http_chunk_1_def http_chunk_2_def http_chunk_3_def http_chunk_4_def http_chunk_5_def http_chunk_6_def
    http_chunk_7_def http_chunk_8_def http_chunk_9_def http_chunk_10_def http_chunk_11_def http_chunk_12_def
    http_chunk_13_def http_chunk_14_def http_chunk_15_def http_chunk_16_def http_chunk_17_def http_chunk_18_def
    http_chunk_19_def http_chunk_20_def http_chunk_21_def http_chunk_22_def http_chunk_23_def http_chunk_24_def
    http_chunk_25_def http_chunk_26_def http_chunk_27_def http_chunk_28_def http_chunk_29_def http_chunk_30_def
    http_chunk_31_def http_chunk_32_def http_chunk_33_def http_chunk_34_def http_chunk_35_def http_chunk_36_def
    http_chunk_37_def http_chunk_38_def http_chunk_39_def http_chunk_40_def http_chunk_41_def http_chunk_42_def
    http_chunk_43_def http_chunk_44_def
  by (rule snd_conv)+

lemma http_trans:
  "find_trans http_index 0 = Some ([HMark], 2)"
  "find_trans http_index 4 = Some ([HRequestMethod], 3)"
  "find_trans http_index 6 = Some ([HMark, HRequestPath, HRequestUri], 4)"
  "find_trans http_index 37 = Some ([HRequestPath, HRequestUri], 4)"
  "find_trans http_index 44 = Some ([HMark, HFragment], 4)"
  "find_trans http_index 47 = Some ([HFragment], 4)"
  "find_trans http_index 54 = Some ([HStartQuery, HQueryString, HRequestUri], 4)"
  "find_trans http_index 58 = Some ([HQueryString, HRequestUri], 4)"
  "find_trans http_index 13 = Some ([HMark], 5)"
  "find_trans http_index 21 = Some ([HHttpVersion], 13)"
  "find_trans http_index 30 = Some ([HStartValue, HWriteValue], 13)"
  "find_trans http_index 33 = Some ([HWriteValue], 13)"
  "find_trans http_index 23 = Some ([HStartField], 14)"
  "find_trans http_index 27 = Some ([HWriteField], 15)"
  "find_trans http_index 29 = Some ([HStartValue], 15)"
  "find_trans http_index 28 = Some ([HStartValue], 16)"
  "find_trans http_index 22 = Some ([HHttpVersion], 17)"
  "find_trans http_index 31 = Some ([HStartValue, HWriteValue], 17)"
  "find_trans http_index 34 = Some ([HWriteValue], 17)"
  "find_trans http_index 24 = Some ([HStartField, HDone], 348)"
  "find_trans http_index 36 = Some ([HDone], 348)"
  "find_trans http_index 25 = Some ([HStartField], 18)"
  "find_trans http_index 7 = Some ([HMark], 19)"
  "find_trans http_index 8 = Some ([HMark, HRequestPath, HRequestUri], 20)"
  "find_trans http_index 39 = Some ([HRequestPath, HRequestUri], 20)"
  "find_trans http_index 55 = Some ([HStartQuery, HQueryString, HRequestUri], 20)"
  "find_trans http_index 59 = Some ([HQueryString, HRequestUri], 20)"
  "find_trans http_index 43 = Some ([HMark], 21)"
  "find_trans http_index 45 = Some ([HMark], 22)"
  "find_trans http_index 9 = Some ([HMark], 24)"
  "find_trans http_index 203 = Some ([HMark], 26)"
  "find_trans http_index 204 = Some ([HMark], 27)"
  "find_trans http_index 11 = Some ([HMark, HRequestPath], 29)"
  "find_trans http_index 42 = Some ([HRequestPath], 29)"
  "find_trans http_index 53 = Some ([HStartQuery], 30)"
  "find_trans http_index 56 = Some ([HStartQuery], 31)"
  "find_trans http_index 10 = Some ([HMark], 33)"
  "find_trans http_index 12 = Some ([HMark], 173)"
  "find_trans http_index 2 = Some ([HMark], 194)"
  "find_trans http_index 224 = Some ([HRequestPath], 196)"
  "find_trans http_index 227 = Some ([HXml, HDone], 349)"
  "find_trans http_index 235 = Some ([HJson, HDone], 349)"
  "find_trans http_index 3 = Some ([HMark], 198)"
  "find_trans http_index 228 = Some ([HRequestPath], 199)"
  "find_trans http_index 232 = Some ([HMark], 200)"
  by (simp_all add: http_index_def http_trans_of)

lemma http_closed:
  "chunk_closed http_index 349 http_chunk_1"
  "chunk_closed http_index 349 http_chunk_2"
  "chunk_closed http_index 349 http_chunk_3"
  "chunk_closed http_index 349 http_chunk_4"
  "chunk_closed http_index 349 http_chunk_5"
  "chunk_closed http_index 349 http_chunk_6"
  "chunk_closed http_index 349 http_chunk_7"
  "chunk_closed http_index 349 http_chunk_8"
  "chunk_closed http_index 349 http_chunk_9"
  "chunk_closed http_index 349 http_chunk_10"
  "chunk_closed http_index 349 http_chunk_11"
  "chunk_closed http_index 349 http_chunk_12"
  "chunk_closed http_index 349 http_chunk_13"
  "chunk_closed http_index 349 http_chunk_14"
  "chunk_closed http_index 349 http_chunk_15"
  "chunk_closed http_index 349 http_chunk_16"
  "chunk_closed http_index 349 http_chunk_17"
  "chunk_closed http_index 349 http_chunk_18"
  "chunk_closed http_index 349 http_chunk_19"
  "chunk_closed http_index 349 http_chunk_20"
  "chunk_closed http_index 349 http_chunk_21"
  "chunk_closed http_index 349 http_chunk_22"
  "chunk_closed http_index 349 http_chunk_23"
  "chunk_closed http_index 349 http_chunk_24"
  "chunk_closed http_index 349 http_chunk_25"
  "chunk_closed http_index 349 http_chunk_26"
  "chunk_closed http_index 349 http_chunk_27"
  "chunk_closed http_index 349 http_chunk_28"
  "chunk_closed http_index 349 http_chunk_29"
  "chunk_closed http_index 349 http_chunk_30"
  "chunk_closed http_index 349 http_chunk_31"
  "chunk_closed http_index 349 http_chunk_32"
  "chunk_closed http_index 349 http_chunk_33"
  "chunk_closed http_index 349 http_chunk_34"
  "chunk_closed http_index 349 http_chunk_35"
  "chunk_closed http_index 349 http_chunk_36"
  "chunk_closed http_index 349 http_chunk_37"
  "chunk_closed http_index 349 http_chunk_38"
  "chunk_closed http_index 349 http_chunk_39"
  "chunk_closed http_index 349 http_chunk_40"
  "chunk_closed http_index 349 http_chunk_41"
  "chunk_closed http_index 349 http_chunk_42"
  "chunk_closed http_index 349 http_chunk_43"
  "chunk_closed http_index 349 http_chunk_44"
  by (simp_all add: chunk_closed_def goto_closed_def http_trans
    http_chunk_1_def http_chunk_2_def http_chunk_3_def http_chunk_4_def http_chunk_5_def http_chunk_6_def
    http_chunk_7_def http_chunk_8_def http_chunk_9_def http_chunk_10_def http_chunk_11_def http_chunk_12_def
    http_chunk_13_def http_chunk_14_def http_chunk_15_def http_chunk_16_def http_chunk_17_def http_chunk_18_def
    http_chunk_19_def http_chunk_20_def http_chunk_21_def http_chunk_22_def http_chunk_23_def http_chunk_24_def
    http_chunk_25_def http_chunk_26_def http_chunk_27_def http_chunk_28_def http_chunk_29_def http_chunk_30_def
    http_chunk_31_def http_chunk_32_def http_chunk_33_def http_chunk_34_def http_chunk_35_def http_chunk_36_def
    http_chunk_37_def http_chunk_38_def http_chunk_39_def http_chunk_40_def http_chunk_41_def http_chunk_42_def
    http_chunk_43_def http_chunk_44_def)

lemma http_chunk_states: "list_all (\<lambda>(ss, ts, c). map fst (fst c) = ss) http_index"
  by (simp add: http_index_def
    http_chunk_1_def
    http_chunk_2_def
    http_chunk_3_def
    http_chunk_4_def
    http_chunk_5_def
    http_chunk_6_def
    http_chunk_7_def
    http_chunk_8_def
    http_chunk_9_def
    http_chunk_10_def
    http_chunk_11_def
    http_chunk_12_def
    http_chunk_13_def
    http_chunk_14_def
    http_chunk_15_def
    http_chunk_16_def
    http_chunk_17_def
    http_chunk_18_def
    http_chunk_19_def
    http_chunk_20_def
    http_chunk_21_def
    http_chunk_22_def
    http_chunk_23_def
    http_chunk_24_def
    http_chunk_25_def
    http_chunk_26_def
    http_chunk_27_def
    http_chunk_28_def
    http_chunk_29_def
    http_chunk_30_def
    http_chunk_31_def
    http_chunk_32_def
    http_chunk_33_def
    http_chunk_34_def
    http_chunk_35_def
    http_chunk_36_def
    http_chunk_37_def
    http_chunk_38_def
    http_chunk_39_def
    http_chunk_40_def
    http_chunk_41_def
    http_chunk_42_def
    http_chunk_43_def
    http_chunk_44_def)

lemma http_chunks_closed: "list_all (\<lambda>(ss, ts, c). chunk_closed http_index 349 c) http_index"
proof -
  have "list_all (chunk_closed http_index 349) (map (snd \<circ> snd) http_index)"
    by (subst http_index_def) (simp add: http_closed)
  then show ?thesis by (simp add: list_all_iff split_beta)
qed

lemma http_states: "349 < next_missing 1 (concat (map fst http_index) @ concat (map fst http_index))"
  by (simp add: http_index_def)

interpretation http_tab: closed_table http_index 349
proof (rule index_closed_table)
  show "index_closed http_index 349"
    using http_chunk_states http_chunks_closed http_states by (simp add: index_closed_def list_all_iff split_beta)
qed

end
