(* ===== verification/Http_Parser.thy ===== *)
theory Http_Parser
  imports Http_Table Http_Message
begin

text \<open>
  The request parser: \<open>http_parser_init\<close>, \<open>http_parser_execute\<close> and their companions of
  \<open>src/http/http11_parser_rl.cpp\<close> over the table of \<open>Http_Table\<close>, and the callbacks and the class
  \<open>HttpRequestParser\<close> of \<open>src/http/http_parser.cpp\<close>. Offsets count from the start of the
  buffer given to one call. What leaves a call other than by a return is a value: a failed assertion,
  the \<open>std::length_error\<close> of a string constructor, and a read past the end of the buffer.
\<close>

subsection \<open>Strings out of a buffer\<close>

datatype parse_error = AssertFailed | LengthError | OutOfBuffer

text \<open>
  \<open>std::string(buffer + at, length)\<close>. The longest string is given by \<open>max_size()\<close>; the lengths the
  parsers ask for are at most the size of the buffer or have wrapped around to near \<open>2 ^ 64\<close>.
\<close>

definition std_string :: "string \<Rightarrow> nat \<Rightarrow> nat \<Rightarrow> parse_error + string" where
  "std_string buffer at len =
    (if max_string < len then Inl LengthError
     else if length buffer < at + len then Inl OutOfBuffer
     else Inr (take len (drop at buffer)))"

text \<open>\<open>strncmp(a, b, n) == 0\<close>\<close>

definition strncmp_eq :: "string \<Rightarrow> string \<Rightarrow> nat \<Rightarrow> bool" where
  "strncmp_eq a b n \<longleftrightarrow> take n (c_str a) = take n (c_str b)"

subsection \<open>The parser\<close>

record http_parser =
  hp_cs :: nat
  hp_body_start :: nat
  hp_content_len :: int
  hp_nread :: nat
  hp_mark :: nat
  hp_field_start :: nat
  hp_field_len :: nat
  hp_query_start :: nat
  hp_xml_sent :: bool
  hp_json_sent :: bool
  hp_uri_relaxed :: bool

text \<open>
  The callbacks of the structure, each of them possibly \<open>NULL\<close>. One gets the buffer, the offset and the
  length it is called with, and what \<open>data\<close> points to.
\<close>

type_synonym 'd element_cb = "string \<Rightarrow> nat \<Rightarrow> nat \<Rightarrow> 'd \<Rightarrow> parse_error + 'd"
type_synonym 'd field_cb = "string \<Rightarrow> nat \<Rightarrow> nat \<Rightarrow> nat \<Rightarrow> nat \<Rightarrow> 'd \<Rightarrow> parse_error + 'd"

record 'd http_callbacks =
  cb_http_field :: "'d field_cb option"
  cb_request_method :: "'d element_cb option"
  cb_request_uri :: "'d element_cb option"
  cb_fragment :: "'d element_cb option"
  cb_request_path :: "'d element_cb option"
  cb_query_string :: "'d element_cb option"
  cb_http_version :: "'d element_cb option"
  cb_header_done :: "'d element_cb option"

text \<open>\<open>query_start\<close> and \<open>uri_relaxed\<close> are not set: they keep what the memory held.\<close>

definition http_parser_init :: "http_parser \<Rightarrow> http_parser" where
  "http_parser_init hp =
    hp\<lparr>hp_cs := 1, hp_body_start := 0, hp_content_len := 0, hp_mark := 0, hp_nread := 0,
       hp_field_len := 0, hp_field_start := 0, hp_xml_sent := False, hp_json_sent := False\<rparr>"

definition http_parser_has_error :: "http_parser \<Rightarrow> bool" where
  "http_parser_has_error hp \<longleftrightarrow> hp_cs hp = 0"

definition http_parser_is_finished :: "http_parser \<Rightarrow> bool" where
  "http_parser_is_finished hp \<longleftrightarrow> 348 \<le> hp_cs hp"

definition http_parser_finish :: "http_parser \<Rightarrow> int" where
  "http_parser_finish hp =
    (if http_parser_has_error hp then - 1 else if http_parser_is_finished hp then 1 else 0)"

definition call_element ::
    "'d element_cb option \<Rightarrow> string \<Rightarrow> nat \<Rightarrow> nat \<Rightarrow> http_parser \<times> 'd \<Rightarrow> parse_error + http_parser \<times> 'd" where
  "call_element cb buffer at len s =
    (case cb of None \<Rightarrow> Inr s | Some f \<Rightarrow> bindR (f buffer at len (snd s)) (\<lambda>d. Inr (fst s, d)))"

text \<open>
  The actions, at offset \<open>p\<close> of a buffer whose received part ends at \<open>pe\<close>. \<open>LEN(AT, FPC)\<close> is a
  subtraction of \<open>size_t\<close> values; \<open>content_len\<close> is an \<open>int\<close>.
\<close>

fun http_do ::
    "'d http_callbacks \<Rightarrow> string \<Rightarrow> nat \<Rightarrow> http_action \<Rightarrow> nat \<Rightarrow> http_parser \<times> 'd \<Rightarrow>
      parse_error + http_parser \<times> 'd" where
  "http_do cb buffer pe HMark p (hp, d) = Inr (hp\<lparr>hp_mark := p\<rparr>, d)"
| "http_do cb buffer pe HStartField p (hp, d) = Inr (hp\<lparr>hp_field_start := p\<rparr>, d)"
| "http_do cb buffer pe HWriteField p (hp, d) = Inr (hp\<lparr>hp_field_len := usub64 p (hp_field_start hp)\<rparr>, d)"
| "http_do cb buffer pe HStartValue p (hp, d) = Inr (hp\<lparr>hp_mark := p\<rparr>, d)"
| "http_do cb buffer pe HWriteValue p (hp, d) =
    (case cb_http_field cb of
       None \<Rightarrow> Inr (hp, d)
     | Some f \<Rightarrow>
         bindR (f buffer (hp_field_start hp) (hp_field_len hp) (hp_mark hp) (usub64 p (hp_mark hp)) d)
           (\<lambda>d. Inr (hp, d)))"
| "http_do cb buffer pe HRequestMethod p (hp, d) =
    call_element (cb_request_method cb) buffer (hp_mark hp) (usub64 p (hp_mark hp)) (hp, d)"
| "http_do cb buffer pe HRequestUri p (hp, d) =
    call_element (cb_request_uri cb) buffer (hp_mark hp) (usub64 p (hp_mark hp)) (hp, d)"
| "http_do cb buffer pe HFragment p (hp, d) =
    call_element (cb_fragment cb) buffer (hp_mark hp) (usub64 p (hp_mark hp)) (hp, d)"
| "http_do cb buffer pe HStartQuery p (hp, d) = Inr (hp\<lparr>hp_query_start := p\<rparr>, d)"
| "http_do cb buffer pe HQueryString p (hp, d) =
    call_element (cb_query_string cb) buffer (hp_query_start hp) (usub64 p (hp_query_start hp)) (hp, d)"
| "http_do cb buffer pe HHttpVersion p (hp, d) =
    call_element (cb_http_version cb) buffer (hp_mark hp) (usub64 p (hp_mark hp)) (hp, d)"
| "http_do cb buffer pe HRequestPath p (hp, d) =
    call_element (cb_request_path cb) buffer (hp_mark hp) (usub64 p (hp_mark hp)) (hp, d)"
| "http_do cb buffer pe HDone p (hp, d) =
    (if hp_xml_sent hp \<or> hp_json_sent hp then
       Inr (hp\<lparr>hp_body_start := hp_mark hp,
               hp_content_len := signed_take_bit 31 (int p - int (hp_mark hp) + 1)\<rparr>, d)
     else call_element (cb_header_done cb) buffer (p + 1) (usub64 pe (p + 1)) (hp\<lparr>hp_body_start := p + 1\<rparr>, d))"
| "http_do cb buffer pe HXml p (hp, d) = Inr (hp\<lparr>hp_xml_sent := True\<rparr>, d)"
| "http_do cb buffer pe HJson p (hp, d) = Inr (hp\<lparr>hp_json_sent := True\<rparr>, d)"

text \<open>An exception of a callback ends the run: what follows it is not done.\<close>

definition http_machine ::
    "'d http_callbacks \<Rightarrow> string \<Rightarrow> nat \<Rightarrow> (http_action, parse_error + http_parser \<times> 'd) machine" where
  "http_machine cb buffer pe =
    \<lparr>m_index = http_index, m_stop = (\<lambda>a. a = HDone),
     m_act = (\<lambda>a p s. bindR s (http_do cb buffer pe a p))\<rparr>"

text \<open>
  The assertion \<open>pe - p == (int)len - (int)off\<close>: the distance of two pointers against a difference of
  two sizes cut to \<open>int\<close>. It fails when the cut changes the length, from \<open>2 ^ 31\<close> on.
\<close>

definition int_limit :: nat where
  "int_limit = 2 ^ 31"

definition same_distance :: "nat \<Rightarrow> nat \<Rightarrow> bool" where
  "same_distance len off \<longleftrightarrow> int len - int off = sint (of_nat len :: i32) - sint (of_nat off :: i32)"

lemma same_distance_small: "off \<le> len \<Longrightarrow> len < int_limit \<Longrightarrow> same_distance len off"
  by (simp add: same_distance_def int_limit_def signed_of_nat signed_take_bit_int_eq_self)

lemma same_distance_large: "int_limit \<le> len \<Longrightarrow> \<not> same_distance len 0"
proof -
  assume a: "int_limit \<le> len"
  have "sint (of_nat len :: i32) < 2 ^ 31" using sint_lt [of "of_nat len :: i32"] by simp
  with a show ?thesis by (simp add: same_distance_def int_limit_def)
qed

lemma int_limit_string: "n < int_limit \<Longrightarrow> n < max_string"
  by (simp add: int_limit_def max_string_def)

definition http_parser_execute ::
    "'d http_callbacks \<Rightarrow> string \<Rightarrow> nat \<Rightarrow> nat \<Rightarrow> http_parser \<Rightarrow> 'd \<Rightarrow> parse_error + nat \<times> http_parser \<times> 'd" where
  "http_parser_execute cb buffer len off hp d =
    (if len = 0 then Inr (0, hp, d)
     else
       let hp = hp\<lparr>hp_nread := 0, hp_mark := 0, hp_field_len := 0, hp_field_start := 0\<rparr>
       in if len < off \<or> \<not> same_distance len off then Inl AssertFailed
          else
            case machine_run (http_machine cb buffer len) (hp_uri_relaxed hp) (hp_cs hp) off
                   (drop off (take len buffer)) (Inr (hp, d)) of
              (cs, p, s) \<Rightarrow>
                bindR s (\<lambda>(hp, d).
                  let hp = (if http_parser_has_error hp then hp else hp\<lparr>hp_cs := cs\<rparr>);
                      hp = hp\<lparr>hp_nread := hp_nread hp + (p - off)\<rparr>
                  in if hp_nread hp \<le> len \<and> hp_body_start hp \<le> len \<and> hp_mark hp < len \<and>
                        hp_field_len hp \<le> len \<and> hp_field_start hp < len
                     then Inr (hp_nread hp, hp, d) else Inl AssertFailed))"

subsection \<open>The callbacks\<close>

text \<open>What \<open>data\<close> points to: the \<open>m_data\<close> and the \<open>m_error\<close> of an \<open>HttpRequestParser\<close>.\<close>

type_synonym request_sink = "http_request \<times> int"

definition on_request_method :: "request_sink element_cb" where
  "on_request_method buffer at len d =
    (let m = CharsToHttpMethod (drop at buffer)
     in if m = INVALID_METHOD then bindR (std_string buffer at len) (\<lambda>_. Inr (fst d, 1000))
        else Inr ((fst d)\<lparr>rq_method := m\<rparr>, snd d))"

definition on_request_uri :: "request_sink element_cb" where
  "on_request_uri buffer at len d = Inr d"

definition on_request_fragment :: "request_sink element_cb" where
  "on_request_fragment buffer at len d =
    bindR (std_string buffer at len) (\<lambda>v. Inr ((fst d)\<lparr>rq_fragment := v\<rparr>, snd d))"

definition on_request_path :: "request_sink element_cb" where
  "on_request_path buffer at len d =
    bindR (std_string buffer at len) (\<lambda>v. Inr ((fst d)\<lparr>rq_path := v\<rparr>, snd d))"

definition on_request_query :: "request_sink element_cb" where
  "on_request_query buffer at len d =
    bindR (std_string buffer at len) (\<lambda>v. Inr ((fst d)\<lparr>rq_query := v\<rparr>, snd d))"

definition on_request_version :: "request_sink element_cb" where
  "on_request_version buffer at len d =
    (if strncmp_eq (drop at buffer) ''HTTP/1.1'' len then Inr ((fst d)\<lparr>rq_version := 0x11\<rparr>, snd d)
     else if strncmp_eq (drop at buffer) ''HTTP/1.0'' len then Inr ((fst d)\<lparr>rq_version := 0x10\<rparr>, snd d)
     else bindR (std_string buffer at len) (\<lambda>_. Inr (fst d, 1001)))"

definition on_request_header_done :: "request_sink element_cb" where
  "on_request_header_done buffer at len d = Inr d"

definition on_request_http_field :: "request_sink field_cb" where
  "on_request_http_field buffer field flen value vlen d =
    (if flen = 0 then Inr d
     else bindR (std_string buffer field flen) (\<lambda>k.
          bindR (std_string buffer value vlen) (\<lambda>v. Inr (rq_setHeader (fst d) k v, snd d))))"

definition request_callbacks :: "request_sink http_callbacks" where
  "request_callbacks =
    \<lparr>cb_http_field = Some on_request_http_field, cb_request_method = Some on_request_method,
     cb_request_uri = Some on_request_uri, cb_fragment = Some on_request_fragment,
     cb_request_path = Some on_request_path, cb_query_string = Some on_request_query,
     cb_http_version = Some on_request_version, cb_header_done = Some on_request_header_done\<rparr>"

subsection \<open>The class \<open>HttpRequestParser\<close>\<close>

record request_parser =
  rp_parser :: http_parser
  rp_data :: http_request
  rp_error :: int

text \<open>The constructor, on the memory the structure \<open>m_parser\<close> is laid out in.\<close>

definition new_request_parser :: "http_parser \<Rightarrow> request_parser" where
  "new_request_parser raw =
    \<lparr>rp_parser = http_parser_init raw, rp_data = new_request 0x11 True, rp_error = 0\<rparr>"

definition rp_isFinished :: "request_parser \<Rightarrow> int" where
  "rp_isFinished rp = http_parser_finish (rp_parser rp)"

definition rp_hasError :: "request_parser \<Rightarrow> bool" where
  "rp_hasError rp \<longleftrightarrow> rp_error rp \<noteq> 0 \<or> http_parser_has_error (rp_parser rp)"

definition rp_setError :: "int \<Rightarrow> request_parser \<Rightarrow> request_parser" where
  "rp_setError v rp = rp\<lparr>rp_error := v\<rparr>"

text \<open>\<open>memmove(data, data + offset, len - offset)\<close>: the bytes behind the moved ones stay.\<close>

definition memmove_down :: "string \<Rightarrow> nat \<Rightarrow> nat \<Rightarrow> string" where
  "memmove_down data off len = take (len - off) (drop off data) @ drop (len - off) data"

definition rp_execute :: "string \<Rightarrow> nat \<Rightarrow> request_parser \<Rightarrow> parse_error + nat \<times> string \<times> request_parser" where
  "rp_execute data len rp =
    bindR (http_parser_execute request_callbacks data len 0 (rp_parser rp) (rp_data rp, rp_error rp))
      (\<lambda>(offset, hp, rq, err).
        Inr (offset, memmove_down data offset len, \<lparr>rp_parser = hp, rp_data = rq, rp_error = err\<rparr>))"

text \<open>\<open>cast\<close> is \<open>boost::lexical_cast<uint64_t>\<close>.\<close>

definition rp_getContentLength :: "(string \<Rightarrow> u64 option) \<Rightarrow> request_parser \<Rightarrow> u64" where
  "rp_getContentLength cast rp = getHeaderAs cast (rp_data rp) ''content-length'' 0"

end
