(* ===== verification/Ragel_Runs.thy ===== *)
theory Ragel_Runs
  imports Ragel
begin

text \<open>
  Reasoning about runs of a machine: invariants that depend on the state, and the static check that an
  action which reads a variable is only reached, in every run, behind one that has set it.
\<close>

text \<open>\<open>I\<close> holds while the machine runs, \<open>J\<close> of what it leaves.\<close>

lemma run_invariant:
  assumes stay: "\<And>cs q s. I cs q s \<Longrightarrow> J cs q s" "\<And>cs q s. I cs q s \<Longrightarrow> J 0 q s"
    and St: "\<And>cs q c r n s. I cs q s \<Longrightarrow> q < e \<Longrightarrow> find_row (m_index M) cs = Some r \<Longrightarrow>
      row_next w r c = St n \<Longrightarrow> n \<noteq> 0 \<Longrightarrow> I n (Suc q) s"
    and Tr: "\<And>cs q c r m acts n s. I cs q s \<Longrightarrow> q < e \<Longrightarrow> find_row (m_index M) cs = Some r \<Longrightarrow>
      row_next w r c = Tr m \<Longrightarrow> find_trans (m_index M) m = Some (acts, n) \<Longrightarrow>
      (if list_ex (m_stop M) acts then J else I) n (Suc q) (fold (\<lambda>a. m_act M a q) acts s)"
    and "I cs p s" "p + length buf \<le> e"
  shows "case machine_run M w cs p buf s of (cs', p', s') \<Rightarrow> J cs' p' s'"
  using assms(5,6)
proof (induction buf arbitrary: cs p s)
  case Nil
  then show ?case by (simp add: stay)
next
  case (Cons c buf)
  have e: "p < e" "Suc p + length buf \<le> e" using Cons.prems by simp_all
  show ?case
  proof (cases "find_row (m_index M) cs")
    case None
    with Cons.prems stay show ?thesis by (simp add: machine_run.simps)
  next
    case (Some r)
    show ?thesis
    proof (cases "row_next w r c")
      case (St n)
      show ?thesis
        using assms(3) [OF Cons.prems(1) e(1) Some St] Cons.IH [OF _ e(2), of n s] Some St stay Cons.prems(1)
        by (cases "n = 0") (auto simp: machine_run.simps)
    next
      case (Tr m)
      show ?thesis
      proof (cases "find_trans (m_index M) m")
        case None
        with Some Tr Cons.prems stay show ?thesis by (simp add: machine_run.simps)
      next
        case t: (Some an)
        obtain acts n where an: "an = (acts, n)" by (cases an)
        show ?thesis
          using assms(4) [OF Cons.prems(1) e(1) Some Tr t [unfolded an]]
            Cons.IH [OF _ e(2), of n "fold (\<lambda>a. m_act M a p) acts s"] Some Tr t an
          by (auto simp: machine_run.simps Let_def split: if_splits)
      qed
    qed
  qed
qed

subsection \<open>Setting before reading\<close>

text \<open>
  \<open>eff\<close> tells which actions make the variable valid or invalid, \<open>needs\<close> which ones read it. A list of
  actions begun with a variable that is valid or not leaves it so or so, or reads it while it is not.
\<close>

fun flow :: "('a \<Rightarrow> bool option) \<Rightarrow> ('a \<Rightarrow> bool) \<Rightarrow> bool \<Rightarrow> 'a list \<Rightarrow> bool option" where
  "flow eff needs b [] = Some b"
| "flow eff needs b (a # acts) =
    (if needs a \<and> \<not> b then None
     else flow eff needs (case eff a of None \<Rightarrow> b | Some b' \<Rightarrow> b') acts)"

text \<open>\<open>V\<close> tells the states in which the variable is known to be valid.\<close>

definition goto_flow ::
    "'a index \<Rightarrow> ('a \<Rightarrow> bool option) \<Rightarrow> ('a \<Rightarrow> bool) \<Rightarrow> (nat \<Rightarrow> bool) \<Rightarrow> bool \<Rightarrow> goto \<Rightarrow> bool" where
  "goto_flow ix eff needs V b g =
    (case g of St n \<Rightarrow> n = 0 \<or> (V n \<longrightarrow> b)
     | Tr m \<Rightarrow>
         (case find_trans ix m of None \<Rightarrow> True
          | Some (acts, n) \<Rightarrow> (case flow eff needs b acts of None \<Rightarrow> False | Some b' \<Rightarrow> V n \<longrightarrow> b')))"

fun row_flow ::
    "'a index \<Rightarrow> ('a \<Rightarrow> bool option) \<Rightarrow> ('a \<Rightarrow> bool) \<Rightarrow> (nat \<Rightarrow> bool) \<Rightarrow> bool \<Rightarrow> row \<Rightarrow> bool" where
  "row_flow ix eff needs V b (Row w ivs d) \<longleftrightarrow>
    goto_flow ix eff needs V b d \<and> list_all (\<lambda>(lo, hi, g). goto_flow ix eff needs V b g) ivs"

definition chunk_flow ::
    "'a index \<Rightarrow> ('a \<Rightarrow> bool option) \<Rightarrow> ('a \<Rightarrow> bool) \<Rightarrow> (nat \<Rightarrow> bool) \<Rightarrow> 'a chunk \<Rightarrow> bool" where
  "chunk_flow ix eff needs V c \<longleftrightarrow> list_all (\<lambda>(n, r). row_flow ix eff needs V (V n) r) (fst c)"

definition index_flow :: "'a index \<Rightarrow> ('a \<Rightarrow> bool option) \<Rightarrow> ('a \<Rightarrow> bool) \<Rightarrow> (nat \<Rightarrow> bool) \<Rightarrow> bool" where
  "index_flow ix eff needs V \<longleftrightarrow> list_all (chunk_flow ix eff needs V) (map (snd \<circ> snd) ix)"

lemma row_next_flow: "row_flow ix eff needs V b r \<Longrightarrow> goto_flow ix eff needs V b (row_next w r c)"
proof (cases r)
  case (Row wide ivs d)
  assume "row_flow ix eff needs V b r"
  then show ?thesis
    using row_goto_mem [of ivs d "if wide then widen w (char_value c) else char_value c"] Row
    by (auto simp: list_all_iff)
qed

lemma find_row_in: "find_row ix n = Some r \<Longrightarrow> \<exists>c \<in> set (map (snd \<circ> snd) ix). (n, r) \<in> set (fst c)"
  by (induction ix n rule: find_row.induct) (auto split: if_splits dest: map_of_SomeD)

lemma find_trans_in: "find_trans ix m = Some t \<Longrightarrow> \<exists>c \<in> set (map (snd \<circ> snd) ix). (m, t) \<in> set (snd c)"
  by (induction ix m rule: find_trans.induct) (auto split: if_splits dest: map_of_SomeD)

text \<open>The law a table gives to a variable: what a step of the machine does to its validity.\<close>

locale flow_table =
  fixes ix :: "'a index" and eff :: "'a \<Rightarrow> bool option" and needs :: "'a \<Rightarrow> bool" and V :: "nat \<Rightarrow> bool"
  assumes flow_ix: "index_flow ix eff needs V"
begin

lemma row_flow_of: "find_row ix n = Some r \<Longrightarrow> row_flow ix eff needs V (V n) r"
  using flow_ix find_row_in [of ix n r] by (fastforce simp: index_flow_def chunk_flow_def list_all_iff)

lemma step_St: "find_row ix cs = Some r \<Longrightarrow> row_next w r c = St n \<Longrightarrow> n \<noteq> 0 \<Longrightarrow> V n \<Longrightarrow> V cs"
  using row_next_flow [OF row_flow_of, of cs r w c] by (auto simp: goto_flow_def)

lemma step_Tr:
  assumes "find_row ix cs = Some r" "row_next w r c = Tr m" "find_trans ix m = Some (acts, n)"
  shows "\<exists>b. flow eff needs (V cs) acts = Some b \<and> (V n \<longrightarrow> b)"
  using row_next_flow [OF row_flow_of, OF assms(1), of w c] assms(2,3)
  by (auto simp: goto_flow_def split: option.splits)

end
subsection \<open>Runs over a class of characters\<close>

lemma char_value_range: "- 128 \<le> char_value c \<and> char_value c \<le> 127"
  using char_code_less [of c] by (simp add: char_value_def)

text \<open>A class of characters, as intervals of their values.\<close>

definition in_class :: "(int \<times> int) list \<Rightarrow> char \<Rightarrow> bool" where
  "in_class cls c \<longleftrightarrow> list_ex (\<lambda>(lo, hi). lo \<le> char_value c \<and> char_value c \<le> hi) cls"

definition hex_class :: "(int \<times> int) list" where
  "hex_class = [(48, 57), (65, 70), (97, 102)]"

text \<open>A row sends every value between two bounds to the same place.\<close>

fun covers :: "(int \<times> int \<times> goto) list \<Rightarrow> goto \<Rightarrow> goto \<Rightarrow> int \<Rightarrow> int \<Rightarrow> bool" where
  "covers [] d g lo hi = (d = g)"
| "covers ((a, b, g') # ivs) d g lo hi =
    (if hi < a \<or> b < lo then covers ivs d g lo hi
     else g' = g \<and> (a \<le> lo \<and> hi \<le> b \<or> covers ivs d g lo hi))"

lemma covers_goto: "covers ivs d g lo hi \<Longrightarrow> lo \<le> v \<Longrightarrow> v \<le> hi \<Longrightarrow> row_goto ivs d v = g"
  by (induction ivs d g lo hi rule: covers.induct) (auto split: if_splits)

fun row_covers :: "row \<Rightarrow> goto \<Rightarrow> (int \<times> int) list \<Rightarrow> bool" where
  "row_covers (Row w ivs d) g cls \<longleftrightarrow>
    list_all (\<lambda>(lo, hi). covers ivs d g lo hi \<and>
      (w \<longrightarrow> (hi < 94 \<or> 94 < lo) \<and> (hi < 123 \<or> 123 < lo) \<and> (hi < 125 \<or> 125 < lo))) cls"

lemma row_covers_next: "row_covers r g cls \<Longrightarrow> in_class cls c \<Longrightarrow> row_next w r c = g"
  by (cases r) (auto simp: in_class_def list_ex_iff list_all_iff widen_def intro: covers_goto)

definition goes :: "'a index \<Rightarrow> nat \<Rightarrow> (int \<times> int) list \<Rightarrow> goto \<Rightarrow> bool" where
  "goes ix cs cls g \<longleftrightarrow> (case find_row ix cs of None \<Rightarrow> False | Some r \<Rightarrow> row_covers r g cls)"

lemma run_goes:
  assumes "goes (m_index M) cs cls g" "in_class cls c"
  shows "machine_run M w cs p (c # buf) s =
    (case g of
       St n \<Rightarrow> (if n = 0 then (0, p, s) else machine_run M w n (Suc p) buf s)
     | Tr m \<Rightarrow>
         (case find_trans (m_index M) m of
            None \<Rightarrow> (cs, p, s)
          | Some (acts, n) \<Rightarrow>
              (let s = fold (\<lambda>a. m_act M a p) acts s
               in if list_ex (m_stop M) acts then (n, Suc p, s) else machine_run M w n (Suc p) buf s)))"
proof -
  obtain r where "find_row (m_index M) cs = Some r" "row_next w r c = g"
    using assms row_covers_next by (auto simp: goes_def split: option.splits)
  then show ?thesis by (simp add: machine_run.simps)
qed

lemma run_class:
  assumes "goes (m_index M) cs cls (St cs)" "cs \<noteq> 0" "list_all (in_class cls) xs"
  shows "machine_run M w cs p (xs @ buf) s = machine_run M w cs (p + length xs) buf s"
  using assms(3)
proof (induction xs arbitrary: p)
  case (Cons c xs)
  then show ?case using assms(2) by (simp add: run_goes [OF assms(1)])
qed simp

text \<open>Text of the characters of a class and of percent signs with two hexadecimal digits each.\<close>

fun pct_text :: "(int \<times> int) list \<Rightarrow> string \<Rightarrow> bool" where
  "pct_text cls [] = True"
| "pct_text cls (c # s) =
    (if c = CHR ''%'' then (case s of h # l # s' \<Rightarrow> in_class hex_class h \<and> in_class hex_class l \<and> pct_text cls s' | _ \<Rightarrow> False)
     else in_class cls c \<and> pct_text cls s)"

text \<open>Three states that read such a text: \<open>a\<close> at its characters, \<open>b\<close> and \<open>d\<close> at the digits.\<close>

definition pct_states :: "'a index \<Rightarrow> (int \<times> int) list \<Rightarrow> nat \<Rightarrow> nat \<Rightarrow> nat \<Rightarrow> bool" where
  "pct_states ix cls a b d \<longleftrightarrow> a \<noteq> 0 \<and> b \<noteq> 0 \<and> d \<noteq> 0 \<and>
    goes ix a [(37, 37)] (St b) \<and> goes ix a cls (St a) \<and>
    goes ix b hex_class (St d) \<and> goes ix d hex_class (St a)"

lemma percent_class: "in_class [(37, 37)] (CHR ''%'')"
  by (simp add: in_class_def char_value_def char_code_def)

lemma run_pct:
  assumes "pct_states (m_index M) cls a b d" "pct_text cls xs"
  shows "machine_run M w a p (xs @ buf) s = machine_run M w a (p + length xs) buf s"
  using assms(2)
proof (induction xs arbitrary: p rule: length_induct)
  case (1 xs)
  from assms(1) have a: "a \<noteq> 0" "b \<noteq> 0" "d \<noteq> 0"
    and goes: "goes (m_index M) a [(37, 37)] (St b)" "goes (m_index M) a cls (St a)"
      "goes (m_index M) b hex_class (St d)" "goes (m_index M) d hex_class (St a)"
    by (auto simp: pct_states_def)
  note steps = a percent_class goes [THEN run_goes]
  show ?case
  proof (cases xs)
    case (Cons c ys)
    show ?thesis
    proof (cases "c = CHR ''%''")
      case True
      with 1 Cons obtain h l zs
        where "ys = h # l # zs" "in_class hex_class h" "in_class hex_class l" "pct_text cls zs"
        by (auto split: list.splits)
      with 1 Cons True steps show ?thesis by simp
    next
      case False
      with 1 Cons steps show ?thesis by simp
    qed
  qed simp
qed

text \<open>The same where the first character is read in a state \<open>e\<close> of its own.\<close>

lemma run_pct_from:
  assumes states: "pct_states (m_index M) cls a b d" and xs: "pct_text cls xs" "xs \<noteq> []"
    and percent: "\<And>ys. machine_run M w e p (CHR ''%'' # ys) s = machine_run M w b (Suc p) ys s'"
    and other: "\<And>ys. hd xs \<noteq> CHR ''%'' \<Longrightarrow> in_class cls (hd xs) \<Longrightarrow>
      machine_run M w e p (hd xs # ys) s = machine_run M w a (Suc p) ys s'"
  shows "machine_run M w e p (xs @ buf) s = machine_run M w a (p + length xs) buf s'"
proof (cases "hd xs = CHR ''%''")
  case False
  with xs obtain c ys where "xs = c # ys" "c \<noteq> CHR ''%''" "in_class cls c" "pct_text cls ys"
    by (cases xs) auto
  with other run_pct [OF states] show ?thesis by simp
next
  case True
  with xs obtain h l zs where "xs = CHR ''%'' # h # l # zs"
      "in_class hex_class h" "in_class hex_class l" "pct_text cls zs"
    by (cases xs) (auto split: list.splits)
  moreover have "goes (m_index M) b hex_class (St d)" "goes (m_index M) d hex_class (St a)" "a \<noteq> 0" "d \<noteq> 0"
    using states by (simp_all add: pct_states_def)
  ultimately show ?thesis
    using percent run_pct [OF states] by (simp add: run_goes [of M b hex_class] run_goes [of M d hex_class])
qed

end
