(* ===== verification/Http_Parser_Safe.thy ===== *)
theory Http_Parser_Safe
  imports Http_Parser Ragel_Runs
begin

text \<open>
  What a call of the request parser can do to its memory: every access of a callback lies inside the bytes
  received, no assertion fails, and the one exception there is.
\<close>

subsection \<open>What is set before it is read\<close>

text \<open>
  Two variables are read by one action and set by another: \<open>query_start\<close>, by \<open>query_string\<close>, and the pair
  \<open>field_start\<close> and \<open>field_len\<close>, by \<open>write_value\<close>. The table sets them before it reads them: in the states
  within a query \<open>query_start\<close> is valid, and only within a field name is \<open>field_len\<close> not.
\<close>

definition query_eff :: "http_action \<Rightarrow> bool option" where
  "query_eff a = (if a = HStartQuery then Some True else None)"

definition query_valid :: "nat \<Rightarrow> bool" where
  "query_valid n \<longleftrightarrow> n = 30 \<or> n = 31 \<or> n = 32"

definition field_eff :: "http_action \<Rightarrow> bool option" where
  "field_eff a = (if a = HWriteField then Some True else if a = HStartField then Some False else None)"

definition field_valid :: "nat \<Rightarrow> bool" where
  "field_valid n \<longleftrightarrow> n \<noteq> 0 \<and> n \<noteq> 14 \<and> n \<noteq> 18 \<and> n \<noteq> 348"

lemma query_flow_chunks:
  "chunk_flow http_index query_eff ((=) HQueryString) query_valid http_chunk_1"
  "chunk_flow http_index query_eff ((=) HQueryString) query_valid http_chunk_2"
  "chunk_flow http_index query_eff ((=) HQueryString) query_valid http_chunk_3"
  "chunk_flow http_index query_eff ((=) HQueryString) query_valid http_chunk_4"
  "chunk_flow http_index query_eff ((=) HQueryString) query_valid http_chunk_5"
  "chunk_flow http_index query_eff ((=) HQueryString) query_valid http_chunk_6"
  "chunk_flow http_index query_eff ((=) HQueryString) query_valid http_chunk_7"
  "chunk_flow http_index query_eff ((=) HQueryString) query_valid http_chunk_8"
  "chunk_flow http_index query_eff ((=) HQueryString) query_valid http_chunk_9"
  "chunk_flow http_index query_eff ((=) HQueryString) query_valid http_chunk_10"
  "chunk_flow http_index query_eff ((=) HQueryString) query_valid http_chunk_11"
  "chunk_flow http_index query_eff ((=) HQueryString) query_valid http_chunk_12"
  "chunk_flow http_index query_eff ((=) HQueryString) query_valid http_chunk_13"
  "chunk_flow http_index query_eff ((=) HQueryString) query_valid http_chunk_14"
  "chunk_flow http_index query_eff ((=) HQueryString) query_valid http_chunk_15"
  "chunk_flow http_index query_eff ((=) HQueryString) query_valid http_chunk_16"
  "chunk_flow http_index query_eff ((=) HQueryString) query_valid http_chunk_17"
  "chunk_flow http_index query_eff ((=) HQueryString) query_valid http_chunk_18"
  "chunk_flow http_index query_eff ((=) HQueryString) query_valid http_chunk_19"
  "chunk_flow http_index query_eff ((=) HQueryString) query_valid http_chunk_20"
  "chunk_flow http_index query_eff ((=) HQueryString) query_valid http_chunk_21"
  "chunk_flow http_index query_eff ((=) HQueryString) query_valid http_chunk_22"
  "chunk_flow http_index query_eff ((=) HQueryString) query_valid http_chunk_23"
  "chunk_flow http_index query_eff ((=) HQueryString) query_valid http_chunk_24"
  "chunk_flow http_index query_eff ((=) HQueryString) query_valid http_chunk_25"
  "chunk_flow http_index query_eff ((=) HQueryString) query_valid http_chunk_26"
  "chunk_flow http_index query_eff ((=) HQueryString) query_valid http_chunk_27"
  "chunk_flow http_index query_eff ((=) HQueryString) query_valid http_chunk_28"
  "chunk_flow http_index query_eff ((=) HQueryString) query_valid http_chunk_29"
  "chunk_flow http_index query_eff ((=) HQueryString) query_valid http_chunk_30"
  "chunk_flow http_index query_eff ((=) HQueryString) query_valid http_chunk_31"
  "chunk_flow http_index query_eff ((=) HQueryString) query_valid http_chunk_32"
  "chunk_flow http_index query_eff ((=) HQueryString) query_valid http_chunk_33"
  "chunk_flow http_index query_eff ((=) HQueryString) query_valid http_chunk_34"
  "chunk_flow http_index query_eff ((=) HQueryString) query_valid http_chunk_35"
  "chunk_flow http_index query_eff ((=) HQueryString) query_valid http_chunk_36"
  "chunk_flow http_index query_eff ((=) HQueryString) query_valid http_chunk_37"
  "chunk_flow http_index query_eff ((=) HQueryString) query_valid http_chunk_38"
  "chunk_flow http_index query_eff ((=) HQueryString) query_valid http_chunk_39"
  "chunk_flow http_index query_eff ((=) HQueryString) query_valid http_chunk_40"
  "chunk_flow http_index query_eff ((=) HQueryString) query_valid http_chunk_41"
  "chunk_flow http_index query_eff ((=) HQueryString) query_valid http_chunk_42"
  "chunk_flow http_index query_eff ((=) HQueryString) query_valid http_chunk_43"
  "chunk_flow http_index query_eff ((=) HQueryString) query_valid http_chunk_44"
  by (simp_all add: chunk_flow_def goto_flow_def http_trans query_eff_def query_valid_def
    http_chunk_1_def http_chunk_2_def http_chunk_3_def http_chunk_4_def http_chunk_5_def http_chunk_6_def
    http_chunk_7_def http_chunk_8_def http_chunk_9_def http_chunk_10_def http_chunk_11_def http_chunk_12_def
    http_chunk_13_def http_chunk_14_def http_chunk_15_def http_chunk_16_def http_chunk_17_def http_chunk_18_def
    http_chunk_19_def http_chunk_20_def http_chunk_21_def http_chunk_22_def http_chunk_23_def http_chunk_24_def
    http_chunk_25_def http_chunk_26_def http_chunk_27_def http_chunk_28_def http_chunk_29_def http_chunk_30_def
    http_chunk_31_def http_chunk_32_def http_chunk_33_def http_chunk_34_def http_chunk_35_def http_chunk_36_def
    http_chunk_37_def http_chunk_38_def http_chunk_39_def http_chunk_40_def http_chunk_41_def http_chunk_42_def
    http_chunk_43_def http_chunk_44_def)

interpretation query_flow: flow_table http_index query_eff "(=) HQueryString" query_valid
  by unfold_locales (simp add: index_flow_def, subst http_index_def, simp add: query_flow_chunks)

lemma field_flow_chunks:
  "chunk_flow http_index field_eff ((=) HWriteValue) field_valid http_chunk_1"
  "chunk_flow http_index field_eff ((=) HWriteValue) field_valid http_chunk_2"
  "chunk_flow http_index field_eff ((=) HWriteValue) field_valid http_chunk_3"
  "chunk_flow http_index field_eff ((=) HWriteValue) field_valid http_chunk_4"
  "chunk_flow http_index field_eff ((=) HWriteValue) field_valid http_chunk_5"
  "chunk_flow http_index field_eff ((=) HWriteValue) field_valid http_chunk_6"
  "chunk_flow http_index field_eff ((=) HWriteValue) field_valid http_chunk_7"
  "chunk_flow http_index field_eff ((=) HWriteValue) field_valid http_chunk_8"
  "chunk_flow http_index field_eff ((=) HWriteValue) field_valid http_chunk_9"
  "chunk_flow http_index field_eff ((=) HWriteValue) field_valid http_chunk_10"
  "chunk_flow http_index field_eff ((=) HWriteValue) field_valid http_chunk_11"
  "chunk_flow http_index field_eff ((=) HWriteValue) field_valid http_chunk_12"
  "chunk_flow http_index field_eff ((=) HWriteValue) field_valid http_chunk_13"
  "chunk_flow http_index field_eff ((=) HWriteValue) field_valid http_chunk_14"
  "chunk_flow http_index field_eff ((=) HWriteValue) field_valid http_chunk_15"
  "chunk_flow http_index field_eff ((=) HWriteValue) field_valid http_chunk_16"
  "chunk_flow http_index field_eff ((=) HWriteValue) field_valid http_chunk_17"
  "chunk_flow http_index field_eff ((=) HWriteValue) field_valid http_chunk_18"
  "chunk_flow http_index field_eff ((=) HWriteValue) field_valid http_chunk_19"
  "chunk_flow http_index field_eff ((=) HWriteValue) field_valid http_chunk_20"
  "chunk_flow http_index field_eff ((=) HWriteValue) field_valid http_chunk_21"
  "chunk_flow http_index field_eff ((=) HWriteValue) field_valid http_chunk_22"
  "chunk_flow http_index field_eff ((=) HWriteValue) field_valid http_chunk_23"
  "chunk_flow http_index field_eff ((=) HWriteValue) field_valid http_chunk_24"
  "chunk_flow http_index field_eff ((=) HWriteValue) field_valid http_chunk_25"
  "chunk_flow http_index field_eff ((=) HWriteValue) field_valid http_chunk_26"
  "chunk_flow http_index field_eff ((=) HWriteValue) field_valid http_chunk_27"
  "chunk_flow http_index field_eff ((=) HWriteValue) field_valid http_chunk_28"
  "chunk_flow http_index field_eff ((=) HWriteValue) field_valid http_chunk_29"
  "chunk_flow http_index field_eff ((=) HWriteValue) field_valid http_chunk_30"
  "chunk_flow http_index field_eff ((=) HWriteValue) field_valid http_chunk_31"
  "chunk_flow http_index field_eff ((=) HWriteValue) field_valid http_chunk_32"
  "chunk_flow http_index field_eff ((=) HWriteValue) field_valid http_chunk_33"
  "chunk_flow http_index field_eff ((=) HWriteValue) field_valid http_chunk_34"
  "chunk_flow http_index field_eff ((=) HWriteValue) field_valid http_chunk_35"
  "chunk_flow http_index field_eff ((=) HWriteValue) field_valid http_chunk_36"
  "chunk_flow http_index field_eff ((=) HWriteValue) field_valid http_chunk_37"
  "chunk_flow http_index field_eff ((=) HWriteValue) field_valid http_chunk_38"
  "chunk_flow http_index field_eff ((=) HWriteValue) field_valid http_chunk_39"
  "chunk_flow http_index field_eff ((=) HWriteValue) field_valid http_chunk_40"
  "chunk_flow http_index field_eff ((=) HWriteValue) field_valid http_chunk_41"
  "chunk_flow http_index field_eff ((=) HWriteValue) field_valid http_chunk_42"
  "chunk_flow http_index field_eff ((=) HWriteValue) field_valid http_chunk_43"
  "chunk_flow http_index field_eff ((=) HWriteValue) field_valid http_chunk_44"
  by (simp_all add: chunk_flow_def goto_flow_def http_trans field_eff_def field_valid_def
    http_chunk_1_def http_chunk_2_def http_chunk_3_def http_chunk_4_def http_chunk_5_def http_chunk_6_def
    http_chunk_7_def http_chunk_8_def http_chunk_9_def http_chunk_10_def http_chunk_11_def http_chunk_12_def
    http_chunk_13_def http_chunk_14_def http_chunk_15_def http_chunk_16_def http_chunk_17_def http_chunk_18_def
    http_chunk_19_def http_chunk_20_def http_chunk_21_def http_chunk_22_def http_chunk_23_def http_chunk_24_def
    http_chunk_25_def http_chunk_26_def http_chunk_27_def http_chunk_28_def http_chunk_29_def http_chunk_30_def
    http_chunk_31_def http_chunk_32_def http_chunk_33_def http_chunk_34_def http_chunk_35_def http_chunk_36_def
    http_chunk_37_def http_chunk_38_def http_chunk_39_def http_chunk_40_def http_chunk_41_def http_chunk_42_def
    http_chunk_43_def http_chunk_44_def)

interpretation field_flow: flow_table http_index field_eff "(=) HWriteValue" field_valid
  by unfold_locales (simp add: index_flow_def, subst http_index_def, simp add: field_flow_chunks)

subsection \<open>Inside the buffer\<close>

text \<open>
  Between two actions at offset \<open>p\<close> of \<open>e\<close> received bytes. With \<open>strict\<close>, a valid \<open>query_start\<close> lies before
  \<open>p\<close>; without, it may be left from a longer buffer of an earlier call.
\<close>

definition offsets_ok :: "bool \<Rightarrow> nat \<Rightarrow> nat \<Rightarrow> bool \<Rightarrow> bool \<Rightarrow> http_parser \<Rightarrow> bool" where
  "offsets_ok strict e p qb fb hp \<longleftrightarrow>
    hp_mark hp \<le> p \<and> hp_mark hp < e \<and> hp_field_start hp \<le> p \<and> hp_field_start hp < e \<and>
    hp_field_len hp \<le> e \<and> (fb \<longrightarrow> hp_field_start hp + hp_field_len hp \<le> p) \<and>
    (qb \<longrightarrow> hp_query_start hp \<le> p \<or> \<not> strict \<and> hp_query_start hp < max_string)"

definition run_ok ::
    "bool \<Rightarrow> nat \<Rightarrow> nat \<Rightarrow> nat \<Rightarrow> bool \<Rightarrow> bool \<Rightarrow> bool \<Rightarrow> parse_error + http_parser \<times> 'd \<Rightarrow> bool" where
  "run_ok strict e cs p dn qb fb s \<longleftrightarrow>
    (case s of Inl err \<Rightarrow> \<not> strict \<and> err = LengthError
     | Inr (hp, d) \<Rightarrow> offsets_ok strict e p qb fb hp \<and> hp_body_start hp \<le> e \<and>
         (dn \<or> hp_body_start hp = 0) \<and> hp_cs hp = cs \<and> hp_nread hp = 0)"

lemma std_string_inside [simp]:
  "at \<le> p \<Longrightarrow> p \<le> length buffer \<Longrightarrow> length buffer \<le> max_string \<Longrightarrow>
    std_string buffer at (p - at) = Inr (take (p - at) (drop at buffer))"
  by (simp add: std_string_def)

lemma std_string_wrapped:
  "p < at \<Longrightarrow> at < max_string \<Longrightarrow> std_string buffer at (usub64 p at) = Inl LengthError"
  by (simp add: std_string_def usub64_def max_string_def)

lemma field_inside:
  assumes "offsets_ok strict e p qb True hp" "p < e" "e \<le> length buffer" "length buffer \<le> max_string"
  shows "\<exists>d'. on_request_http_field buffer (hp_field_start hp) (hp_field_len hp) (hp_mark hp)
    (usub64 p (hp_mark hp)) d = Inr d'"
  using assms by (auto simp: on_request_http_field_def offsets_ok_def std_string_def)

lemmas request_callback_defs =
  on_request_method_def on_request_uri_def on_request_fragment_def on_request_path_def
  on_request_query_def on_request_version_def on_request_header_done_def

lemma http_do_ok:
  assumes "run_ok strict e cs p dn qb fb (Inr (hp, d))" "p < e" "e \<le> length buffer" "length buffer \<le> max_string"
    and "HQueryString = a \<Longrightarrow> qb" "HWriteValue = a \<Longrightarrow> fb"
  shows "run_ok strict e cs p (dn \<or> HDone = a) (case query_eff a of None \<Rightarrow> qb | Some b \<Rightarrow> b)
    (case field_eff a of None \<Rightarrow> fb | Some b \<Rightarrow> b) (http_do request_callbacks buffer e a p (hp, d))"
proof (cases a)
  case HWriteValue
  with assms(6) have "offsets_ok strict e p qb True hp" using assms(1) by (simp add: run_ok_def)
  from field_inside [OF this assms(2-4), of d] HWriteValue assms(1) show ?thesis
    by (auto simp: request_callbacks_def query_eff_def field_eff_def run_ok_def)
next
  case HQueryString
  with assms(1,5) have "hp_query_start hp \<le> p \<or> \<not> strict \<and> hp_query_start hp < max_string"
    by (simp add: run_ok_def offsets_ok_def)
  with HQueryString assms(1-4) show ?thesis
    by (cases "hp_query_start hp \<le> p")
      (auto simp: request_callbacks_def call_element_def request_callback_defs std_string_wrapped
        query_eff_def field_eff_def run_ok_def simp del: usub64_less)
qed (use assms(1-4) in \<open>auto simp: request_callbacks_def call_element_def request_callback_defs Let_def
        query_eff_def field_eff_def run_ok_def offsets_ok_def\<close>)

lemma actions_ok:
  assumes "p < e" "e \<le> length buffer" "length buffer \<le> max_string"
    and "flow query_eff ((=) HQueryString) qb acts = Some qb'"
    and "flow field_eff ((=) HWriteValue) fb acts = Some fb'"
    and "run_ok strict e cs p dn qb fb s"
  shows "run_ok strict e cs p (dn \<or> HDone \<in> set acts) qb' fb'
    (fold (\<lambda>a. m_act (http_machine request_callbacks buffer e) a p) acts s)"
  using assms(4-6)
proof (induction acts arbitrary: dn qb fb s)
  case (Cons a acts)
  let ?s = "m_act (http_machine request_callbacks buffer e) a p s"
  have "run_ok strict e cs p (dn \<or> HDone = a) (case query_eff a of None \<Rightarrow> qb | Some b \<Rightarrow> b)
    (case field_eff a of None \<Rightarrow> fb | Some b \<Rightarrow> b) ?s"
  proof (cases s)
    case (Inl err)
    with Cons.prems(3) show ?thesis by (simp add: http_machine_def run_ok_def)
  next
    case (Inr x)
    obtain hp d where "x = (hp, d)" by (cases x)
    with Inr Cons.prems http_do_ok [OF _ assms(1-3), of strict cs dn qb fb hp d a] show ?thesis
      by (simp add: http_machine_def split: if_splits)
  qed
  with Cons.IH [of _ _ "dn \<or> HDone = a" ?s] Cons.prems show ?case
    by (auto simp: ac_simps split: if_splits)
qed simp

lemma run_ok_weaken:
  "run_ok strict e cs p dn qb fb s \<Longrightarrow> (dn \<Longrightarrow> dn') \<Longrightarrow> (qb' \<Longrightarrow> qb) \<Longrightarrow> (fb' \<Longrightarrow> fb) \<Longrightarrow> p \<le> p' \<Longrightarrow>
    run_ok strict e cs p' dn' qb' fb' s"
  by (auto simp: run_ok_def offsets_ok_def split: sum.splits)


lemma done_is_final:
  assumes "find_trans http_index m = Some (acts, n)" "HDone \<in> set acts"
  shows "348 \<le> n"
proof -
  have "list_all (\<lambda>c. list_all (\<lambda>(m, acts, n). HDone \<in> set acts \<longrightarrow> 348 \<le> n) (snd c)) (map (snd \<circ> snd) http_index)"
    by (simp add: http_index_def http_trans_of)
  with find_trans_in [OF assms(1)] assms(2) show ?thesis by (fastforce simp: list_all_iff)
qed

lemma http_run_ok:
  assumes "e \<le> length buffer" "length buffer \<le> max_string" "p + length buf \<le> e" 
    and "run_ok strict e cs0 p False (query_valid cs) (field_valid cs) s"
  shows "case machine_run (http_machine request_callbacks buffer e) w cs p buf s of
    (cs', p', s') \<Rightarrow> run_ok strict e cs0 p' (348 \<le> cs') (query_valid cs') (field_valid cs') s'"
proof (rule run_invariant [where e = e and
      I = "\<lambda>cs q s. run_ok strict e cs0 q False (query_valid cs) (field_valid cs) s"])
  fix cs q r n and c :: char and s :: "parse_error + http_parser \<times> request_sink"
  let ?M = "http_machine request_callbacks buffer e"
  assume I: "run_ok strict e cs0 q False (query_valid cs) (field_valid cs) s" and "q < e"
    and row: "find_row (m_index ?M) cs = Some r"
  show "run_ok strict e cs0 (Suc q) False (query_valid n) (field_valid n) s" if "row_next w r c = St n" "n \<noteq> 0"
    using query_flow.step_St [OF _ that] field_flow.step_St [OF _ that] row
    by (intro run_ok_weaken [OF I]) (auto simp: http_machine_def)
  show "(if list_ex (m_stop ?M) acts
     then (\<lambda>cs' p' s'. run_ok strict e cs0 p' (348 \<le> cs') (query_valid cs') (field_valid cs') s')
     else (\<lambda>cs q s. run_ok strict e cs0 q False (query_valid cs) (field_valid cs) s))
    n (Suc q) (fold (\<lambda>a. m_act ?M a q) acts s)"
    if "row_next w r c = Tr m" "find_trans (m_index ?M) m = Some (acts, n)" for m acts
  proof -
    note tr = that
    have ix: "find_row http_index cs = Some r" "find_trans http_index m = Some (acts, n)"
      using row tr(2) by (simp_all add: http_machine_def)
    obtain qb where qb: "flow query_eff ((=) HQueryString) (query_valid cs) acts = Some qb" "query_valid n \<longrightarrow> qb"
      using query_flow.step_Tr [OF ix(1) tr(1) ix(2)] by blast
    obtain fb where fb: "flow field_eff ((=) HWriteValue) (field_valid cs) acts = Some fb" "field_valid n \<longrightarrow> fb"
      using field_flow.step_Tr [OF ix(1) tr(1) ix(2)] by blast
    have "run_ok strict e cs0 q (False \<or> HDone \<in> set acts) qb fb (fold (\<lambda>a. m_act ?M a q) acts s)"
      by (rule actions_ok [OF \<open>q < e\<close> assms(1,2) qb(1) fb(1) I])
    then show ?thesis
      using qb(2) fb(2) done_is_final [OF ix(2)]
      by (auto simp: http_machine_def list_ex_iff elim!: run_ok_weaken)
  qed
qed (use assms in \<open>auto simp: query_valid_def field_valid_def elim!: run_ok_weaken\<close>)

subsection \<open>Calls\<close>

text \<open>
  What holds of a parser between two calls: a state of the table, no body before the end of the header,
  and a \<open>query_start\<close> that an earlier call has set when the bytes so far end within a query.
\<close>

definition request_parser_ok :: "request_parser \<Rightarrow> bool" where
  "request_parser_ok rp \<longleftrightarrow>
    (let hp = rp_parser rp
     in hp_cs hp \<le> 349 \<and> (hp_cs hp < 348 \<longrightarrow> hp_body_start hp = 0) \<and>
        (query_valid (hp_cs hp) \<longrightarrow> hp_query_start hp < max_string))"

lemma new_request_parser_ok: "request_parser_ok (new_request_parser raw) \<and> rp_isFinished (new_request_parser raw) = 0"
  by (simp add: request_parser_ok_def new_request_parser_def http_parser_init_def query_valid_def
      rp_isFinished_def http_parser_finish_def http_parser_has_error_def http_parser_is_finished_def)

lemma rp_isFinished_0: "rp_isFinished rp = 0 \<longleftrightarrow> 1 \<le> hp_cs (rp_parser rp) \<and> hp_cs (rp_parser rp) < 348"
  by (auto simp: rp_isFinished_def http_parser_finish_def http_parser_has_error_def http_parser_is_finished_def)

lemma memmove_down_take:
  "off \<le> len \<Longrightarrow> len \<le> length data \<Longrightarrow>
    length (memmove_down data off len) = length data \<and>
    take (len - off) (memmove_down data off len) = drop off (take len data)"
  by (simp add: memmove_down_def drop_take)

text \<open>A call in terms of its run: the assertions hold, and what the run left is stored.\<close>

definition reset_offsets :: "http_parser \<Rightarrow> http_parser" where
  "reset_offsets hp = hp\<lparr>hp_nread := 0, hp_mark := 0, hp_field_len := 0, hp_field_start := 0\<rparr>"

lemma execute_run:
  assumes ok: "request_parser_ok rp" "rp_isFinished rp = 0"
    and len: "0 < len" "len \<le> length data" "length data < max_string" and small: "len < int_limit"
    and run: "machine_run (http_machine request_callbacks data len) (hp_uri_relaxed (rp_parser rp))
      (hp_cs (rp_parser rp)) 0 (take len data) (Inr (reset_offsets (rp_parser rp), rp_data rp, rp_error rp)) = (cs', p, s)"
  shows "run_ok (\<not> query_valid (hp_cs (rp_parser rp))) len (hp_cs (rp_parser rp)) p (348 \<le> cs')
      (query_valid cs') (field_valid cs') s"
    and "p \<le> len" and "cs' \<le> 349" and "p < len \<Longrightarrow> cs' = 0 \<or> 348 \<le> cs'"
    and "rp_execute data len rp =
      (case s of Inl err \<Rightarrow> Inl err
       | Inr (hp, d) \<Rightarrow> Inr (p, memmove_down data p len,
           \<lparr>rp_parser = hp\<lparr>hp_cs := cs', hp_nread := p\<rparr>, rp_data = fst d, rp_error = snd d\<rparr>))"
proof -
  let ?hp = "rp_parser rp" and ?d = "(rp_data rp, rp_error rp)"
  let ?M = "http_machine request_callbacks data len" and ?w = "hp_uri_relaxed ?hp"
  have cs: "1 \<le> hp_cs ?hp" "hp_cs ?hp < 348" using ok(2) by (simp_all add: rp_isFinished_0)
  have "run_ok (\<not> query_valid (hp_cs ?hp)) len (hp_cs ?hp) 0 False (query_valid (hp_cs ?hp))
      (field_valid (hp_cs ?hp)) (Inr (reset_offsets ?hp, ?d))"
    using len ok cs by (auto simp: run_ok_def offsets_ok_def request_parser_ok_def Let_def reset_offsets_def)
  from http_run_ok [OF len(2) _ _ this, of "take len data" ?w] len run
  show s: "run_ok (\<not> query_valid (hp_cs ?hp)) len (hp_cs ?hp) p (348 \<le> cs') (query_valid cs') (field_valid cs') s"
    by simp
  show p: "p \<le> len"
    using run_position [where M = ?M and w = ?w and cs = "hp_cs ?hp" and p = 0 and buf = "take len data" and
      s = "Inr (reset_offsets ?hp, ?d)"] run len by simp
  have ix: "m_index ?M = http_index" by (simp add: http_machine_def)
  have t: "cs' \<le> 349 \<and> (p < len \<longrightarrow> cs' = 0 \<or>
      (\<exists>m acts. find_trans http_index m = Some (acts, cs') \<and> list_ex (m_stop ?M) acts))"
    using http_tab.run_total [OF ix, of "hp_cs ?hp" 0 "take len data" ?w "Inr (reset_offsets ?hp, ?d)"] cs run len
    by simp
  then show "cs' \<le> 349" by simp
  show "cs' = 0 \<or> 348 \<le> cs'" if "p < len"
    using t that by (auto simp: http_machine_def list_ex_iff dest: done_is_final)
  show "rp_execute data len rp =
      (case s of Inl err \<Rightarrow> Inl err
       | Inr (hp, d) \<Rightarrow> Inr (p, memmove_down data p len,
           \<lparr>rp_parser = hp\<lparr>hp_cs := cs', hp_nread := p\<rparr>, rp_data = fst d, rp_error = snd d\<rparr>))"
    using s run len p cs same_distance_small [OF _ small, of 0]
    by (auto simp: rp_execute_def http_parser_execute_def http_parser_has_error_def reset_offsets_def Let_def
        run_ok_def offsets_ok_def split: sum.splits prod.splits)
qed

lemma execute_safe:
  assumes ok: "request_parser_ok rp" "rp_isFinished rp = 0"
    and len: "len \<le> length data" "length data < max_string" and small: "len < int_limit"
  shows "case rp_execute data len rp of
      Inl err \<Rightarrow> err = LengthError \<and> query_valid (hp_cs (rp_parser rp))
    | Inr (off, data', rp') \<Rightarrow> request_parser_ok rp' \<and> off \<le> len \<and> length data' = length data \<and>
        take (len - off) data' = drop off (take len data) \<and> (rp_isFinished rp' = 0 \<longrightarrow> off = len)"
proof (cases "len = 0")
  case True
  with ok show ?thesis
    by (cases rp) (simp add: rp_execute_def http_parser_execute_def memmove_down_def)
next
  case False
  obtain cs' p s where "machine_run (http_machine request_callbacks data len) (hp_uri_relaxed (rp_parser rp))
      (hp_cs (rp_parser rp)) 0 (take len data) (Inr (reset_offsets (rp_parser rp), rp_data rp, rp_error rp)) = (cs', p, s)"
    using prod_cases3 by blast
  note ex = execute_run [OF ok _ len small this]
  show ?thesis
  proof (cases s)
    case (Inl err)
    with ex(1,5) False show ?thesis by (simp add: run_ok_def)
  next
    case (Inr x)
    obtain hp d where x: "x = (hp, d)" by (cases x)
    have "hp_body_start hp \<le> len" "348 \<le> cs' \<or> hp_body_start hp = 0"
      "query_valid cs' \<Longrightarrow> hp_query_start hp < max_string"
      using ex(1,2) False len Inr x by (auto simp: run_ok_def offsets_ok_def)
    moreover have "p = len" if "1 \<le> cs'" "cs' < 348" using ex(2,4) False that by linarith
    ultimately show ?thesis
      using ex(2,3,5) False len Inr x
      by (auto simp: request_parser_ok_def Let_def rp_isFinished_0 memmove_down_take)
  qed
qed

lemma execute_too_long:
  assumes "rp_isFinished rp = 0" "int_limit \<le> len"
  shows "rp_execute data len rp = Inl AssertFailed"
proof -
  have "0 < len" using assms(2) by (simp add: int_limit_def)
  with assms same_distance_large [OF assms(2)] show ?thesis
    by (simp add: rp_execute_def http_parser_execute_def)
qed



end
