(* ===== verification/Http_Request_Wire.thy ===== *)
theory Http_Request_Wire
  imports Http_Parser_Safe
begin

text \<open>
  The request parser reads what \<open>HttpRequest::dump\<close> writes. The characters each part of a request may hold
  are those its states stay at; each part is followed through the table, then the parts are put together.
\<close>

subsection \<open>The states along a request\<close>

definition method_class :: "(int \<times> int) list" where
  "method_class = [(48, 57), (65, 90)]"

definition path_class :: "(int \<times> int) list" where
  "path_class = [(- 128, - 1), (33, 33), (36, 36), (38, 59), (61, 61), (64, 90), (95, 95), (97, 122), (126, 126)]"

definition query_class :: "(int \<times> int) list" where
  "query_class = (63, 63) # path_class"

definition name_class :: "(int \<times> int) list" where
  "name_class = [(33, 33), (35, 39), (42, 43), (45, 46), (48, 57), (65, 90), (94, 122), (124, 124), (126, 126)]"

definition value_class :: "(int \<times> int) list" where
  "value_class = [(- 128, - 1), (1, 9), (11, 12), (14, 126)]"

definition value_start :: "(int \<times> int) list" where
  "value_start = [(- 128, - 1), (1, 8), (11, 12), (14, 31), (33, 126)]"

definition path_start :: "(int \<times> int) list" where
  "path_start =
    [(- 128, - 1), (33, 33), (36, 36), (38, 46), (48, 59), (61, 61), (64, 90), (95, 95), (97, 122), (126, 126)]"

lemmas class_defs =
  hex_class_def method_class_def path_class_def query_class_def name_class_def value_class_def value_start_def
  path_start_def

definition method_states :: "nat list" where
  "method_states = [2, 175, 176, 177, 178, 179, 180, 181, 182, 183, 184, 185, 186, 187, 188, 189, 190, 191, 192, 193]"

lemma method_goes:
  "goes http_index 1 method_class (Tr 0)"
  "goes http_index 2 [(32, 32)] (Tr 4)"  "goes http_index 175 [(32, 32)] (Tr 4)"
  "goes http_index 176 [(32, 32)] (Tr 4)"  "goes http_index 177 [(32, 32)] (Tr 4)"
  "goes http_index 178 [(32, 32)] (Tr 4)"  "goes http_index 179 [(32, 32)] (Tr 4)"
  "goes http_index 180 [(32, 32)] (Tr 4)"  "goes http_index 181 [(32, 32)] (Tr 4)"
  "goes http_index 182 [(32, 32)] (Tr 4)"  "goes http_index 183 [(32, 32)] (Tr 4)"
  "goes http_index 184 [(32, 32)] (Tr 4)"  "goes http_index 185 [(32, 32)] (Tr 4)"
  "goes http_index 186 [(32, 32)] (Tr 4)"  "goes http_index 187 [(32, 32)] (Tr 4)"
  "goes http_index 188 [(32, 32)] (Tr 4)"  "goes http_index 189 [(32, 32)] (Tr 4)"
  "goes http_index 190 [(32, 32)] (Tr 4)"  "goes http_index 191 [(32, 32)] (Tr 4)"
  "goes http_index 192 [(32, 32)] (Tr 4)"  "goes http_index 193 [(32, 32)] (Tr 4)"
  "goes http_index 2 method_class (St 175)"  "goes http_index 175 method_class (St 176)"
  "goes http_index 176 method_class (St 177)"  "goes http_index 177 method_class (St 178)"
  "goes http_index 178 method_class (St 179)"  "goes http_index 179 method_class (St 180)"
  "goes http_index 180 method_class (St 181)"  "goes http_index 181 method_class (St 182)"
  "goes http_index 182 method_class (St 183)"  "goes http_index 183 method_class (St 184)"
  "goes http_index 184 method_class (St 185)"  "goes http_index 185 method_class (St 186)"
  "goes http_index 186 method_class (St 187)"  "goes http_index 187 method_class (St 188)"
  "goes http_index 188 method_class (St 189)"  "goes http_index 189 method_class (St 190)"
  "goes http_index 190 method_class (St 191)"  "goes http_index 191 method_class (St 192)"
  "goes http_index 192 method_class (St 193)"
  by (simp_all add: goes_def http_index_def)
    (simp_all add: class_defs http_chunk_1_def http_chunk_24_def http_chunk_25_def http_chunk_26_def)

lemma path_goes:
  "goes http_index 3 [(47, 47)] (Tr 10)"
  "goes http_index 33 path_start (St 26)" "goes http_index 33 [(37, 37)] (St 27)"
  "goes http_index 33 [(32, 32)] (Tr 37)" "goes http_index 26 [(32, 32)] (Tr 37)"
  "goes http_index 33 [(35, 35)] (Tr 39)" "goes http_index 26 [(35, 35)] (Tr 39)"
  "goes http_index 33 [(63, 63)] (Tr 42)" "goes http_index 26 [(63, 63)] (Tr 42)"
  "pct_states http_index path_class 26 27 28"
  by (simp_all add: goes_def pct_states_def http_index_def)
    (simp_all add: class_defs http_chunk_1_def http_chunk_6_def http_chunk_8_def)

lemma query_goes:
  "pct_states http_index query_class 30 31 32" "pct_states http_index query_class 21 22 23"
  "goes http_index 29 query_class (Tr 53)" "goes http_index 29 [(37, 37)] (Tr 56)"
  "goes http_index 30 [(32, 32)] (Tr 58)" "goes http_index 30 [(35, 35)] (Tr 59)"
  "goes http_index 20 query_class (Tr 43)" "goes http_index 20 [(37, 37)] (Tr 45)"
  "goes http_index 21 [(32, 32)] (Tr 47)"
  by (simp_all add: goes_def pct_states_def class_defs http_index_def http_chunk_5_def http_chunk_6_def
      http_chunk_7_def)

lemma version_goes:
  "goes http_index 4 [(72, 72)] (Tr 13)" "goes http_index 5 [(84, 84)] (St 6)"
  "goes http_index 6 [(84, 84)] (St 7)" "goes http_index 7 [(80, 80)] (St 8)"
  "goes http_index 8 [(47, 47)] (St 9)" "goes http_index 9 [(49, 49)] (St 10)"
  "goes http_index 10 [(46, 46)] (St 11)" "goes http_index 11 [(48, 49)] (St 12)"
  "goes http_index 12 [(13, 13)] (Tr 22)" "goes http_index 17 [(10, 10)] (St 13)"
  by (simp_all add: goes_def http_index_def http_chunk_2_def http_chunk_3_def)

lemma field_goes:
  "goes http_index 13 name_class (Tr 23)" "goes http_index 14 name_class (St 14)"
  "goes http_index 14 [(58, 58)] (Tr 27)" "goes http_index 15 [(32, 32)] (Tr 29)"
  "goes http_index 15 [(13, 13)] (Tr 31)" "goes http_index 15 value_start (Tr 28)"
  "goes http_index 16 value_class (St 16)" "goes http_index 16 [(13, 13)] (Tr 34)"
  "goes http_index 13 [(13, 13)] (Tr 25)" "goes http_index 18 [(10, 10)] (Tr 36)"
  by (simp_all add: goes_def class_defs http_index_def http_chunk_2_def http_chunk_3_def http_chunk_4_def)

subsection \<open>Reading the parts\<close>

abbreviation reader :: "string \<Rightarrow> nat \<Rightarrow> (http_action, parse_error + http_parser \<times> request_sink) machine" where
  "reader B e \<equiv> http_machine request_callbacks B e"

lemma reader_simps [simp]:
  "m_index (reader B e) = http_index"
  "m_stop (reader B e) a \<longleftrightarrow> a = HDone"
  "m_act (reader B e) a p (Inr s) = http_do request_callbacks B e a p s"
  by (simp_all add: http_machine_def)

lemma callbacks [simp]:
  "cb_http_field request_callbacks = Some on_request_http_field"
  "cb_request_method request_callbacks = Some on_request_method"
  "cb_request_uri request_callbacks = Some on_request_uri"
  "cb_fragment request_callbacks = Some on_request_fragment"
  "cb_request_path request_callbacks = Some on_request_path"
  "cb_query_string request_callbacks = Some on_request_query"
  "cb_http_version request_callbacks = Some on_request_version"
  "cb_header_done request_callbacks = Some on_request_header_done"
  by (simp_all add: request_callbacks_def)

lemmas reader_actions = call_element_def request_callback_defs on_request_http_field_def

text \<open>What follows an offset of the buffer.\<close>

definition rest_at :: "string \<Rightarrow> nat \<Rightarrow> string \<Rightarrow> bool" where
  "rest_at B p r \<longleftrightarrow> p \<le> length B \<and> drop p B = r"

lemma rest_at_length: "rest_at B p r \<Longrightarrow> length B = p + length r"
  using length_drop [of p B] by (auto simp: rest_at_def)

lemma rest_at_append: "rest_at B p (xs @ ys) \<Longrightarrow> rest_at B (p + length xs) ys"
  unfolding rest_at_def
  by (metis add.commute add_leD2 append_eq_conv_conj drop_drop drop_all le_add_diff_inverse2 length_append
      length_drop linear nat_add_left_cancel_le trans_le_add1)

lemma rest_at_Cons: "rest_at B p (c # ys) \<Longrightarrow> rest_at B (Suc p) ys"
  using rest_at_append [of B p "[c]" ys] by simp

lemma std_string_at:
  assumes "rest_at B p (xs @ ys)" "length B \<le> max_string"
  shows "std_string B p (length xs) = Inr xs"
proof -
  have "length B = p + length xs + length ys" using rest_at_length [OF assms(1)] by simp
  with assms show ?thesis by (simp add: std_string_def rest_at_def)
qed

text \<open>Punctuation, as classes of one character.\<close>

lemma punctuation [simp]:
  "in_class [(32, 32)] (CHR '' '')" "in_class [(47, 47)] (CHR ''/'')" "in_class [(63, 63)] (CHR ''?'')"
  "in_class [(35, 35)] (CHR ''#'')" "in_class [(58, 58)] (CHR '':'')" "in_class [(13, 13)] CR"
  "in_class [(10, 10)] (CHR 0x0A)" "in_class [(72, 72)] (CHR ''H'')" "in_class [(84, 84)] (CHR ''T'')"
  "in_class [(80, 80)] (CHR ''P'')" "in_class [(49, 49)] (CHR ''1'')" "in_class [(46, 46)] (CHR ''.'')"
  "in_class [(48, 49)] (CHR ''0'')" "in_class [(48, 49)] (CHR ''1'')"
  by (simp_all add: in_class_def char_value_def char_code_def)

lemmas reader_step = run_goes [where M = "http_machine request_callbacks B e" for B e, unfolded reader_simps(1)]

lemma run_along:
  assumes "list_all (\<lambda>(q, q'). q' \<noteq> 0 \<and> goes (m_index M) q cls (St q')) (zip (q # qs) qs)"
    and "list_all (in_class cls) xs" "length xs \<le> length qs"
  shows "machine_run M w q p (xs @ buf) s = machine_run M w ((q # qs) ! length xs) (p + length xs) buf s"
  using assms
proof (induction xs arbitrary: q qs p)
  case (Cons c xs)
  then obtain q' qs' where qs: "qs = q' # qs'" by (cases qs) auto
  with Cons.prems have "goes (m_index M) q cls (St q')" by simp
  from run_goes [OF this] Cons.prems Cons.IH [of q' qs' "Suc p"] qs show ?case by simp
qed simp

lemma read_method:
  assumes m: "list_all (in_class method_class) m" "m \<noteq> []" "length m \<le> 20"
    and B: "rest_at B p (m @ CHR '' '' # rest)" "CharsToHttpMethod (drop p B) = mt" "mt \<noteq> INVALID_METHOD"
  shows "machine_run (reader B e) w 1 p (m @ CHR '' '' # rest) (Inr (hp, rq, err)) =
    machine_run (reader B e) w 3 (Suc (p + length m)) rest (Inr (hp\<lparr>hp_mark := p\<rparr>, rq\<lparr>rq_method := mt\<rparr>, err))"
proof -
  obtain c m' where m': "m = c # m'" using m(2) by (cases m) auto
  let ?q = "method_states ! length m'"
  have "list_all (\<lambda>(q, q'). q' \<noteq> 0 \<and> goes http_index q method_class (St q')) (zip (2 # tl method_states) (tl method_states))"
    by (simp add: method_states_def method_goes)
  then have run: "machine_run (reader B e) w 2 (Suc p) (m' @ CHR '' '' # rest) s =
      machine_run (reader B e) w ?q (Suc p + length m') (CHR '' '' # rest) s" for s
    using run_along [of "reader B e" method_class 2 "tl method_states" m'] m m'
    by (simp add: method_states_def)
  have "list_all (\<lambda>q. goes http_index q [(32, 32)] (Tr 4)) method_states"
    by (simp add: method_states_def method_goes)
  moreover have "length m' < length method_states" using m(3) m' by (simp add: method_states_def)
  ultimately have "goes http_index ?q [(32, 32)] (Tr 4)" by (simp add: list_all_length)
  then show ?thesis
    using m m' B by (simp add: rest_at_def reader_step [OF method_goes(1)] run reader_step [of ?q "[(32, 32)]" "Tr 4"] http_trans reader_actions Let_def
        del: One_nat_def)
qed


lemma char_value_inject: "char_value a = char_value b \<Longrightarrow> a = b"
  using char_code_less [of a] char_code_less [of b] char_code_inject [of a b]
  by (auto simp: char_value_def split: if_splits)

lemma read_path:
  assumes "path = CHR ''/'' # t" "pct_text path_class t" "t = [] \<or> hd t \<noteq> CHR ''/''"
  shows "machine_run (reader B e) w 3 p (path @ buf) (Inr (hp, d)) =
    machine_run (reader B e) w (if t = [] then 33 else 26) (p + length path) buf (Inr (hp\<lparr>hp_mark := p\<rparr>, d))"
proof (cases "t = []")
  case True
  with assms(1) show ?thesis by (simp add: reader_step [OF path_goes(1)] http_trans)
next
  case False
  have "machine_run (reader B e) w 33 (Suc p) (t @ buf) s =
    machine_run (reader B e) w 26 (Suc p + length t) buf s" for s
  proof (rule run_pct_from)
    show "pct_states (m_index (reader B e)) path_class 26 27 28" by (simp add: path_goes)
    show "machine_run (reader B e) w 33 (Suc p) (CHR ''%'' # ys) s =
        machine_run (reader B e) w 27 (Suc (Suc p)) ys s" for ys
      by (simp add: reader_step [OF path_goes(3)] percent_class)
    show "machine_run (reader B e) w 33 (Suc p) (hd t # ys) s =
        machine_run (reader B e) w 26 (Suc (Suc p)) ys s" if "in_class path_class (hd t)" for ys
    proof -
      have "char_value (hd t) \<noteq> char_value (CHR ''/'')"
        using assms(3) False char_value_inject by blast
      then have "char_value (hd t) \<noteq> 47" by (simp add: char_value_def char_code_def)
      with that have "in_class path_start (hd t)" by (auto simp: in_class_def class_defs)
      then show ?thesis by (simp add: reader_step [OF path_goes(2)])
    qed
  qed (use assms False in auto)
  with assms(1) False show ?thesis by (simp add: reader_step [OF path_goes(1)] http_trans)
qed

lemma read_query:
  assumes "pct_text query_class q" "q \<noteq> []"
  shows "machine_run (reader B e) w 29 p (q @ buf) (Inr (hp, d)) =
    machine_run (reader B e) w 30 (p + length q) buf (Inr (hp\<lparr>hp_query_start := p\<rparr>, d))"
  by (rule run_pct_from [of _ query_class 30 31 32])
    (use assms in \<open>simp_all add: query_goes(1) reader_step [OF query_goes(3)] reader_step [OF query_goes(4)]
      percent_class http_trans\<close>)

lemma read_fragment:
  assumes "pct_text query_class f" "f \<noteq> []"
  shows "machine_run (reader B e) w 20 p (f @ buf) (Inr (hp, d)) =
    machine_run (reader B e) w 21 (p + length f) buf (Inr (hp\<lparr>hp_mark := p\<rparr>, d))"
  by (rule run_pct_from [of _ query_class 21 22 23])
    (use assms in \<open>simp_all add: query_goes(2) reader_step [OF query_goes(7)] reader_step [OF query_goes(8)]
      percent_class http_trans\<close>)


text \<open>The request target, up to the blank behind it. \<open>same_kind_of\<close> hides the offsets the parser keeps.\<close>

definition sent_flags :: "http_parser \<Rightarrow> bool \<times> bool" where
  "sent_flags hp = (hp_xml_sent hp, hp_json_sent hp)"

definition target_text :: "string \<Rightarrow> string \<Rightarrow> string \<Rightarrow> string" where
  "target_text path q f =
    path @ (if q = [] then [] else CHR ''?'' # q) @ (if f = [] then [] else CHR ''#'' # f)"

definition target_ok :: "string \<Rightarrow> string \<Rightarrow> string \<Rightarrow> bool" where
  "target_ok path q f \<longleftrightarrow>
    (\<exists>t. path = CHR ''/'' # t \<and> pct_text path_class t \<and> (t = [] \<or> hd t \<noteq> CHR ''/'')) \<and>
    pct_text query_class q \<and> pct_text query_class f"

lemma read_target:
  assumes ok: "target_ok path q f" and B: "rest_at B p (target_text path q f @ CHR '' '' # rest)"
    and len: "length B \<le> max_string" and rq: "rq_query rq = []" "rq_fragment rq = []"
  shows "\<exists>hp'. sent_flags hp' = sent_flags hp \<and>
    machine_run (reader B e) w 3 p (target_text path q f @ CHR '' '' # rest) (Inr (hp, rq, err)) =
    machine_run (reader B e) w 4 (Suc (p + length (target_text path q f))) rest
      (Inr (hp', rq\<lparr>rq_path := path, rq_query := q, rq_fragment := f\<rparr>, err))"
proof -
  obtain t where t: "path = CHR ''/'' # t" "pct_text path_class t" "t = [] \<or> hd t \<noteq> CHR ''/''"
    and q: "pct_text query_class q" and f: "pct_text query_class f"
    using ok by (auto simp: target_ok_def)
  let ?s = "if t = [] then 33 else 26"
  have goes: "goes http_index ?s [(32, 32)] (Tr 37)" "goes http_index ?s [(35, 35)] (Tr 39)"
    "goes http_index ?s [(63, 63)] (Tr 42)"
    by (auto simp: path_goes)
  have B': "rest_at B p (path @ (if q = [] then [] else CHR ''?'' # q) @
      (if f = [] then [] else CHR ''#'' # f) @ CHR '' '' # rest)"
    using B by (simp add: target_text_def)
  note path = std_string_at [OF B' len]
  note steps = goes [THEN reader_step] query_goes(5,6,9) [THEN reader_step]
  note run = read_path [OF t] steps http_trans reader_actions sent_flags_def Let_def target_text_def path add.assoc
  let ?p1 = "Suc (p + length path)"
  note at1 = rest_at_append [OF B']
  show ?thesis
  proof (cases "q = []"; cases "f = []")
    assume "q = []" "f = []"
    with rq show ?thesis
      by (intro exI [of _ "hp\<lparr>hp_mark := p\<rparr>"]) (cases rq, simp add: run)
  next
    assume *: "q = []" "f \<noteq> []"
    with at1 have "rest_at B ?p1 (f @ CHR '' '' # rest)" by (simp add: rest_at_Cons)
    note f' = std_string_at [OF this len]
    from * rq f show ?thesis
      by (intro exI [of _ "hp\<lparr>hp_mark := ?p1\<rparr>"]) (cases rq, simp add: run read_fragment f')
  next
    assume *: "q \<noteq> []" "f = []"
    with at1 have "rest_at B ?p1 (q @ CHR '' '' # rest)" by (simp add: rest_at_Cons)
    note q' = std_string_at [OF this len]
    from * rq q show ?thesis
      by (intro exI [of _ "hp\<lparr>hp_mark := p, hp_query_start := ?p1\<rparr>"]) (cases rq, simp add: run read_query q')
  next
    assume *: "q \<noteq> []" "f \<noteq> []"
    let ?p2 = "Suc (?p1 + length q)"
    from * at1 have at2: "rest_at B ?p1 (q @ CHR ''#'' # f @ CHR '' '' # rest)" by (simp add: rest_at_Cons)
    note q' = std_string_at [OF this len]
    from rest_at_append [OF at2] have "rest_at B ?p2 (f @ CHR '' '' # rest)" by (simp add: rest_at_Cons)
    note f' = std_string_at [OF this len, simplified, unfolded add.assoc]
    from * rq q f show ?thesis
      by (intro exI [of _ "hp\<lparr>hp_query_start := ?p1, hp_mark := ?p2\<rparr>"])
        (cases rq, simp add: run read_query read_fragment q' f')
  qed
qed


lemma version_text_cases: "version_text 0x11 = ''1.1''" "version_text 0x10 = ''1.0''"
  by code_simp+

lemma read_version:
  assumes v: "v = 0x10 \<or> v = 0x11" and B: "rest_at B p (''HTTP/'' @ version_text v @ crlf @ rest)"
    and len: "length B \<le> max_string"
  shows "machine_run (reader B e) w 4 p (''HTTP/'' @ version_text v @ crlf @ rest) (Inr (hp, rq, err)) =
    machine_run (reader B e) w 13 (p + 10) rest (Inr (hp\<lparr>hp_mark := p\<rparr>, rq\<lparr>rq_version := v\<rparr>, err))"
proof -
  have "strncmp_eq (drop p B) ''HTTP/1.1'' 8 = (v = 0x11)" "v = 0x10 \<Longrightarrow> strncmp_eq (drop p B) ''HTTP/1.0'' 8"
    using B v by (auto simp: rest_at_def strncmp_eq_def c_str_def version_text_cases)
  with v show ?thesis
    by (auto simp: version_text_cases crlf_def version_goes [THEN reader_step] http_trans reader_actions Let_def)
      (simp_all add: eval_nat_numeral)
qed

text \<open>A field as the parser takes it: a name of name characters, a value that does not begin with a blank.\<close>

definition field_ok :: "string \<times> string \<Rightarrow> bool" where
  "field_ok kv \<longleftrightarrow> fst kv \<noteq> [] \<and> list_all (in_class name_class) (fst kv) \<and>
    list_all (in_class value_class) (snd kv) \<and> (snd kv = [] \<or> in_class value_start (hd (snd kv)))"

lemma read_field_value:
  assumes "list_all (in_class value_class) v" "v = [] \<or> in_class value_start (hd v)"
  shows "machine_run (reader B e) w 15 p (v @ crlf @ rest) (Inr (hp, rq, err)) =
    machine_run (reader B e) w 13 (p + length v + 2) rest
      (bindR (on_request_http_field B (hp_field_start hp) (hp_field_len hp) p (length v) (rq, err))
        (\<lambda>d. Inr (hp\<lparr>hp_mark := p\<rparr>, d)))"
proof (cases v)
  case Nil
  then show ?thesis
    by (simp add: crlf_def field_goes [THEN reader_step] version_goes(10) [THEN reader_step] http_trans)
next
  case (Cons c v')
  have "machine_run (reader B e) w 16 (Suc p) (v' @ CR # CHR 0x0A # rest) s =
    machine_run (reader B e) w 16 (Suc p + length v') (CR # CHR 0x0A # rest) s" for s
    using assms(1) Cons by (intro run_class [where cls = value_class]) (simp_all add: field_goes)
  with assms Cons show ?thesis
    by (simp add: crlf_def field_goes [THEN reader_step] version_goes(10) [THEN reader_step] http_trans)
qed

lemma read_field:
  assumes ok: "field_ok kv" and B: "rest_at B p (field_line kv @ crlf @ rest)" and len: "length B \<le> max_string"
  shows "machine_run (reader B e) w 13 p (field_line kv @ crlf @ rest) (Inr (hp, rq, err)) =
    machine_run (reader B e) w 13 (p + length (field_line kv) + 2) rest
      (Inr (hp\<lparr>hp_field_start := p, hp_field_len := length (fst kv), hp_mark := p + length (fst kv) + 2\<rparr>,
        rq_setHeader rq (fst kv) (snd kv), err))"
proof -
  obtain k v where kv: "kv = (k, v)" by (cases kv)
  with ok obtain c k' where k: "k = c # k'" by (cases k) (auto simp: field_ok_def)
  have at: "rest_at B p (k @ '': '' @ v @ crlf @ rest)" using B kv by (simp add: field_line_def)
  have "rest_at B (p + length k + 2) (v @ crlf @ rest)"
    using rest_at_append [OF at] by (auto dest!: rest_at_Cons)
  note slices = std_string_at [OF at len] std_string_at [OF this len]
  have run: "machine_run (reader B e) w 14 (Suc p) (k' @ buf) s =
    machine_run (reader B e) w 14 (Suc p + length k') buf s" for buf s
    using ok kv k by (intro run_class [where cls = name_class]) (simp_all add: field_goes field_ok_def)
  show ?thesis
    using ok kv k slices
    by (simp add: field_ok_def field_line_def field_goes [THEN reader_step] http_trans run read_field_value
        reader_actions add.assoc)
qed

lemma length_crlf: "length crlf = 2"
  by (simp add: crlf_def)

lemma read_fields:
  assumes "list_all field_ok kvs" "rest_at B p (join_lines (map field_line kvs) @ rest)" "length B \<le> max_string"
  shows "\<exists>hp'. sent_flags hp' = sent_flags hp \<and>
    machine_run (reader B e) w 13 p (join_lines (map field_line kvs) @ rest) (Inr (hp, rq, err)) =
    machine_run (reader B e) w 13 (p + length (join_lines (map field_line kvs))) rest
      (Inr (hp', fold (\<lambda>kv rq. rq_setHeader rq (fst kv) (snd kv)) kvs rq, err))"
  using assms(1,2)
proof (induction kvs arbitrary: p hp rq)
  case Nil
  then show ?case by (auto intro: exI [of _ hp])
next
  case (Cons kv kvs)
  let ?rest = "join_lines (map field_line kvs) @ rest"
  have B: "rest_at B p (field_line kv @ crlf @ ?rest)" using Cons.prems(2) by simp
  have at: "rest_at B (p + length (field_line kv) + 2) ?rest"
    using rest_at_append [OF B] by (auto simp: crlf_def dest!: rest_at_Cons)
  have kv: "field_ok kv" "list_all field_ok kvs" using Cons.prems(1) by simp_all
  let ?hp = "hp\<lparr>hp_field_start := p, hp_field_len := length (fst kv), hp_mark := p + length (fst kv) + 2\<rparr>"
  obtain hp' where "sent_flags hp' = sent_flags ?hp"
    "machine_run (reader B e) w 13 (p + length (field_line kv) + 2) ?rest
        (Inr (?hp, rq_setHeader rq (fst kv) (snd kv), err)) =
      machine_run (reader B e) w 13 (p + length (field_line kv) + 2 + length (join_lines (map field_line kvs))) rest
        (Inr (hp', fold (\<lambda>kv rq. rq_setHeader rq (fst kv) (snd kv)) kvs (rq_setHeader rq (fst kv) (snd kv)), err))"
    using Cons.IH [OF kv(2) at] by blast
  with read_field [OF kv(1) B assms(3)] show ?case
    by (intro exI [of _ hp']) (simp add: sent_flags_def split_beta ac_simps length_crlf)
qed


lemma read_end:
  assumes "sent_flags hp = (False, False)" "e = p + 2 + length rest"
  shows "machine_run (reader B e) w 13 p (crlf @ rest) (Inr (hp, d)) =
    (348, p + 2, Inr (hp\<lparr>hp_field_start := p, hp_body_start := p + 2\<rparr>, d))"
  using assms
  by (simp add: sent_flags_def crlf_def field_goes [THEN reader_step] http_trans reader_actions)

subsection \<open>Whole requests\<close>

text \<open>A request whose text the grammar of the parser covers.\<close>

definition rq_parsable :: "http_request \<Rightarrow> bool" where
  "rq_parsable rq \<longleftrightarrow>
    rq_method rq \<noteq> INVALID_METHOD \<and> rq_method rq \<noteq> MSEARCH \<and>
    target_ok (rq_path rq) (rq_query rq) (rq_fragment rq) \<and>
    (rq_version rq = 0x10 \<or> rq_version rq = 0x11) \<and> list_all field_ok (rq_headers rq)"

definition rq_fields :: "http_request \<Rightarrow> (string \<times> string) list" where
  "rq_fields rq = connection_field (rq_websocket rq) (rq_close rq) @
    other_fields (rq_websocket rq) (rq_headers rq) @ length_field (rq_body rq)"

text \<open>What a fresh request becomes when the start line and the fields of \<open>rq\<close> are put into it.\<close>

definition rq_received :: "http_request \<Rightarrow> http_request" where
  "rq_received rq =
    (new_request 0x11 True)
      \<lparr>rq_method := rq_method rq, rq_path := rq_path rq, rq_query := rq_query rq,
       rq_fragment := rq_fragment rq, rq_version := rq_version rq,
       rq_headers := fold (\<lambda>kv. omap_put CaseInsensitiveLess (fst kv) (snd kv)) (rq_fields rq) []\<rparr>"

text \<open>The text before the body.\<close>

definition rq_head :: "http_request \<Rightarrow> string" where
  "rq_head rq = HttpMethodToString (rq_method rq) @ CHR '' '' #
    target_text (rq_path rq) (rq_query rq) (rq_fragment rq) @ CHR '' '' #
    ''HTTP/'' @ version_text (rq_version rq) @ crlf @ join_lines (map field_line (rq_fields rq)) @ crlf"

lemma rq_dump_head: "rq_dump rq = rq_head rq @ rq_body rq"
  by (simp add: rq_dump_def rq_head_def rq_fields_def target_text_def dump_headers_lines dump_connection_lines
      dump_body_lines)

lemma rq_dump_parts:
  "rq_dump rq = HttpMethodToString (rq_method rq) @ CHR '' '' #
    target_text (rq_path rq) (rq_query rq) (rq_fragment rq) @ CHR '' '' #
    ''HTTP/'' @ version_text (rq_version rq) @ crlf @
    join_lines (map field_line (rq_fields rq)) @ crlf @ rq_body rq"
  by (simp add: rq_dump_def rq_fields_def target_text_def dump_headers_lines dump_connection_lines
      dump_body_lines)

lemma method_text_ok:
  assumes "m \<noteq> INVALID_METHOD" "m \<noteq> MSEARCH"
  shows "list_all (in_class method_class) (HttpMethodToString m) \<and> HttpMethodToString m \<noteq> [] \<and>
    length (HttpMethodToString m) \<le> 20"
proof -
  have "list_all (\<lambda>(_, m, str). m = MSEARCH \<or> list_all (in_class method_class) str \<and> str \<noteq> [] \<and> length str \<le> 20)
    HTTP_METHOD_MAP"
    by code_simp
  with method_entry [OF assms(1)] assms(2) show ?thesis unfolding list_all_iff by fastforce
qed

lemma show_nat_value: "list_all (in_class value_class) (show_nat n) \<and> (in_class value_start (hd (show_nat n)))"
proof -
  have "in_class value_class c \<and> in_class value_start c" if "c \<in> set (show_nat n)" for c
    using show_nat_digits [OF that] by (auto simp: isdigit_def in_class_def class_defs char_value_def)
  then show ?thesis using hd_in_set [OF show_nat_not_Nil] by (auto simp: list_all_iff)
qed

lemma rq_fields_ok:
  assumes "list_all field_ok (rq_headers rq)"
  shows "list_all field_ok (rq_fields rq)"
proof -
  have "field_ok (''connection'', ''close'')" "field_ok (''connection'', ''keep-alive'')"
    by (simp_all add: field_ok_def in_class_def class_defs char_value_def char_code_def)
  moreover have "field_ok (''content-length'', show_nat n)" for n
    using show_nat_value by (simp add: field_ok_def in_class_def class_defs char_value_def char_code_def)
  ultimately show ?thesis
    using assms
    by (auto simp: rq_fields_def connection_field_def length_field_def list_all_iff
        dest!: subsetD [OF other_fields_subset])
qed


lemma c_str_append: "c_str a = a \<Longrightarrow> c_str (a @ b) = a @ c_str b"
  unfolding c_str_def by (metis set_takeWhileD takeWhile_append2)

text \<open>From the version to the last line feed of the head.\<close>

lemma read_rest:
  assumes v: "v = 0x10 \<or> v = 0x11" and kvs: "list_all field_ok kvs" and len: "length B \<le> max_string"
    and at: "rest_at B p (''HTTP/'' @ version_text v @ crlf @ join_lines (map field_line kvs) @ crlf @ b)"
    and flags: "sent_flags hp = (False, False)"
  shows "\<exists>hp'. machine_run (reader B (length B)) w 4 p
      (''HTTP/'' @ version_text v @ crlf @ join_lines (map field_line kvs) @ crlf @ b) (Inr (hp, rq, err)) =
    (348, length B - length b,
      Inr (hp', fold (\<lambda>kv rq. rq_setHeader rq (fst kv) (snd kv)) kvs (rq\<lparr>rq_version := v\<rparr>), err))"
proof -
  let ?M = "reader B (length B)" and ?f = "join_lines (map field_line kvs)"
  let ?r3 = "?f @ crlf @ b"
  note step3 = read_version [OF v at len, where e = "length B" and w = w and hp = hp and rq = rq and err = err]
  have at3: "rest_at B (p + 10) ?r3"
  proof -
    have "length (''HTTP/'' @ version_text v @ crlf) = 10"
      using v by (auto simp: version_text_cases length_crlf)
    with rest_at_append [of B p "''HTTP/'' @ version_text v @ crlf" ?r3] at
    show ?thesis by (metis append.assoc)
  qed
  obtain hp4 where hp4: "sent_flags hp4 = sent_flags (hp\<lparr>hp_mark := p\<rparr>)"
    and step4: "machine_run ?M w 13 (p + 10) ?r3 (Inr (hp\<lparr>hp_mark := p\<rparr>, rq\<lparr>rq_version := v\<rparr>, err)) =
      machine_run ?M w 13 (p + 10 + length ?f) (crlf @ b)
        (Inr (hp4, fold (\<lambda>kv rq. rq_setHeader rq (fst kv) (snd kv)) kvs (rq\<lparr>rq_version := v\<rparr>), err))"
    using read_fields [OF kvs at3 len] by blast
  have flags4: "sent_flags hp4 = (False, False)" using hp4 flags by (simp add: sent_flags_def)
  have len_B: "length B = p + 10 + length ?f + 2 + length b"
    using rest_at_length [OF at] v by (auto simp: length_crlf version_text_cases)
  from step3 step4 read_end [OF flags4 len_B, where w = w] len_B show ?thesis by auto
qed

lemma fold_setHeader:
  "fold (\<lambda>kv rq. rq_setHeader rq (fst kv) (snd kv)) kvs r =
    r\<lparr>rq_headers := fold (\<lambda>kv. omap_put CaseInsensitiveLess (fst kv) (snd kv)) kvs (rq_headers r)\<rparr>"
  by (induction kvs arbitrary: r) (auto simp: rq_setHeader_def)

text \<open>The method and the blank behind it.\<close>

lemma read_start:
  assumes "m \<noteq> INVALID_METHOD" "m \<noteq> MSEARCH" "B = HttpMethodToString m @ CHR '' '' # rest"
  shows "machine_run (reader B e) w 1 0 B (Inr (hp, rq, err)) =
      machine_run (reader B e) w 3 (Suc (length (HttpMethodToString m))) rest
        (Inr (hp\<lparr>hp_mark := 0\<rparr>, rq\<lparr>rq_method := m\<rparr>, err)) \<and>
    rest_at B (Suc (length (HttpMethodToString m))) rest"
proof -
  let ?m = "HttpMethodToString m"
  have at: "rest_at B 0 (?m @ CHR '' '' # rest)" by (simp add: rest_at_def assms(3))
  have "CharsToHttpMethod (drop 0 B) = m"
    using chars_to_method [OF assms(1), of B] c_str_append [OF method_c_str [OF assms(1)]]
    by (simp add: assms(3))
  from read_method [OF _ _ _ at this assms(1), where e = e and w = w and hp = hp and rq = rq and err = err]
  have "machine_run (reader B e) w 1 0 (?m @ CHR '' '' # rest) (Inr (hp, rq, err)) =
      machine_run (reader B e) w 3 (Suc (length ?m)) rest (Inr (hp\<lparr>hp_mark := 0\<rparr>, rq\<lparr>rq_method := m\<rparr>, err))"
    using method_text_ok [OF assms(1,2)] by simp
  moreover have "rest_at B (Suc (length ?m)) rest"
    using rest_at_append [OF at] by (auto dest: rest_at_Cons)
  ultimately show ?thesis by (simp only: assms(3) [symmetric])
qed

text \<open>The whole request, from the start state to the last line feed of its head.\<close>

lemma read_request:
  assumes ok: "rq_parsable rq" and len: "length B \<le> max_string" and B: "B = rq_head rq @ b"
    and flags: "sent_flags hp = (False, False)"
  shows "\<exists>hp'. machine_run (reader B (length B)) w 1 0 B (Inr (hp, new_request 0x11 True, err)) =
    (348, length B - length b, Inr (hp', rq_received rq, err))"
proof -
  let ?t = "target_text (rq_path rq) (rq_query rq) (rq_fragment rq)" and ?M = "reader B (length B)" and ?p1 = "Suc (length (HttpMethodToString (rq_method rq)))"
  let ?r2 = "''HTTP/'' @ version_text (rq_version rq) @ crlf @ join_lines (map field_line (rq_fields rq)) @ crlf @ b"
  let ?rq1 = "(new_request 0x11 True)\<lparr>rq_method := rq_method rq\<rparr>" and ?hp1 = "hp\<lparr>hp_mark := 0\<rparr>"
  let ?rq2 = "?rq1\<lparr>rq_path := rq_path rq, rq_query := rq_query rq, rq_fragment := rq_fragment rq\<rparr>"
  have m: "rq_method rq \<noteq> INVALID_METHOD" "rq_method rq \<noteq> MSEARCH"
    and t: "target_ok (rq_path rq) (rq_query rq) (rq_fragment rq)"
    and v: "rq_version rq = 0x10 \<or> rq_version rq = 0x11" and f: "list_all field_ok (rq_headers rq)"
    using ok by (simp_all add: rq_parsable_def)
  have "B = HttpMethodToString (rq_method rq) @ CHR '' '' # ?t @ CHR '' '' # ?r2" by (simp add: B rq_head_def)
  note start = read_start [OF m this]
  have "rq_query ?rq1 = []" "rq_fragment ?rq1 = []" by (simp_all add: new_request_def)
  then obtain hp2 where hp2: "sent_flags hp2 = sent_flags ?hp1"
    and step2: "machine_run ?M w 3 ?p1 (?t @ CHR '' '' # ?r2) (Inr (?hp1, ?rq1, err)) =
      machine_run ?M w 4 (Suc (?p1 + length ?t)) ?r2 (Inr (hp2, ?rq2, err))"
    using read_target [OF t conjunct2 [OF start] len] by blast
  have at2: "rest_at B (Suc (?p1 + length ?t)) ?r2"
    using rest_at_append [OF conjunct2 [OF start]] by (rule rest_at_Cons)
  have "sent_flags hp2 = (False, False)" using hp2 flags by (simp add: sent_flags_def)
  from read_rest [OF v rq_fields_ok [OF f] len at2 this] obtain hp'
    where "machine_run ?M w 4 (Suc (?p1 + length ?t)) ?r2 (Inr (hp2, ?rq2, err)) =
      (348, length B - length b, Inr (hp', fold (\<lambda>kv rq. rq_setHeader rq (fst kv) (snd kv)) (rq_fields rq)
        (?rq2\<lparr>rq_version := rq_version rq\<rparr>), err))"
    by blast
  moreover have "fold (\<lambda>kv rq. rq_setHeader rq (fst kv) (snd kv)) (rq_fields rq) (?rq2\<lparr>rq_version := rq_version rq\<rparr>) =
      rq_received rq"
    by (simp add: fold_setHeader rq_received_def new_request_def)
  ultimately show ?thesis using conjunct1 [OF start] step2 by auto
qed

text \<open>The run does not depend on where the received part ends, and stops at the end of the head.\<close>

lemma reader_length: "http_machine request_callbacks B e = http_machine request_callbacks B e'"
proof -
  have "http_do request_callbacks B e a p s = http_do request_callbacks B e' a p s" for a p s
    by (cases s; cases a) (simp_all add: call_element_def request_callback_defs)
  then have "http_do request_callbacks B e = http_do request_callbacks B e'" by (intro ext)
  then show ?thesis by (simp add: http_machine_def)
qed

lemma parse_head:
  assumes "rq_parsable rq" "len \<le> length data" "length data < max_string" "take len data = rq_head rq @ b"
    and small: "len < int_limit"
  shows "\<exists>data' rp. rp_execute data len (new_request_parser raw) = Inr (length (rq_head rq), data', rp) \<and>
    rp_isFinished rp = 1 \<and> \<not> rp_hasError rp \<and> rp_data rp = rq_received rq \<and>
    take (length b) data' = b \<and> length data' = length data"
proof -
  let ?rp = "new_request_parser raw" and ?off = "length (rq_head rq)"
  have n: "0 < len" using arg_cong [OF assms(4), of length] assms(2) by (simp add: rq_head_def)
  have len: "len = ?off + length b" using arg_cong [OF assms(4), of length] assms(2) by simp
  have B: "data = rq_head rq @ b @ drop len data" using assms(4) append_take_drop_id [of len data] by simp
  have hp: "hp_cs (rp_parser ?rp) = 1" "sent_flags (reset_offsets (rp_parser ?rp)) = (False, False)"
    by (simp_all add: new_request_parser_def http_parser_init_def sent_flags_def reset_offsets_def)
  have ok: "request_parser_ok ?rp" "rp_isFinished ?rp = 0" using new_request_parser_ok by blast+
  have d: "rp_data ?rp = new_request 0x11 True" "rp_error ?rp = 0" by (simp_all add: new_request_parser_def)
  let ?run = "\<lambda>B e buf hp. machine_run (reader B e) (hp_uri_relaxed (rp_parser ?rp)) 1 0 buf
    (Inr (hp, new_request 0x11 True, 0))"
  obtain hp' where "?run data (length data) data (reset_offsets (rp_parser ?rp)) = (348, ?off, Inr (hp', rq_received rq, 0))"
    using read_request [OF assms(1) less_imp_le [OF assms(3)] B hp(2)] B
    by (metis add_diff_cancel_right' length_append)
  then have "?run data len (take len data @ drop len data) (reset_offsets (rp_parser ?rp)) =
      (348, ?off, Inr (hp', rq_received rq, 0))"
    unfolding append_take_drop_id reader_length [of data len "length data"] .
  then have "?run data len (take len data) (reset_offsets (rp_parser ?rp)) = (348, ?off, Inr (hp', rq_received rq, 0))"
    by (rule run_prefix) (use len assms(2) in simp_all)
  then have run: "machine_run (reader data len) (hp_uri_relaxed (rp_parser ?rp)) (hp_cs (rp_parser ?rp)) 0 (take len data)
      (Inr (reset_offsets (rp_parser ?rp), rp_data ?rp, rp_error ?rp)) = (348, ?off, Inr (hp', rq_received rq, 0))"
    by (simp only: hp d)
  have "take (length b) (memmove_down data ?off len) = b \<and> length (memmove_down data ?off len) = length data"
    using memmove_down_take [of ?off len data] assms(2) len unfolding assms(4) by simp
  then show ?thesis
    using execute_run(5) [OF ok n assms(2,3) small run]
    by (simp add: rp_isFinished_def rp_hasError_def http_parser_finish_def http_parser_has_error_def
        http_parser_is_finished_def)
qed

text \<open>
  C27: the request parser reads back what \<open>HttpRequest::dump\<close> writes. On the text of a request of the
  grammar (\<open>rq_parsable\<close>), followed by any bytes and less than 2 GiB in all, one call of a fresh parser
  finishes without an error, has read exactly the head, has stored the method, the target, the version and
  every field, and leaves the body at the front of the buffer.
\<close>

theorem parse_dump_roundtrip:
  assumes "rq_parsable rq" "length data < 2 ^ 31" "data = rq_dump rq @ tl'"
  shows "\<exists>off data' rp. rp_execute data (length data) (new_request_parser raw) = Inr (off, data', rp) \<and>
    rp_isFinished rp = 1 \<and> \<not> rp_hasError rp \<and> rp_data rp = rq_received rq \<and>
    off = length data - length (rq_body rq @ tl') \<and>
    take (length data - off) data' = rq_body rq @ tl'"
proof -
  have "take (length data) data = rq_head rq @ rq_body rq @ tl'" by (simp add: assms(3) rq_dump_head)
  moreover have "length data < int_limit" using assms(2) by (simp add: int_limit_def)
  ultimately show ?thesis
    using parse_head [OF assms(1) order_refl int_limit_string, of data "rq_body rq @ tl'" raw]
    by (auto simp: assms(3) rq_dump_head)
qed

definition sample_request :: http_request where
  "sample_request =
    (new_request 0x11 False)
      \<lparr>rq_method := POST, rq_path := ''/a/b%20c'', rq_query := ''x=1&y'', rq_fragment := ''top'',
       rq_body := ''hello'', rq_headers := [(''host'', ''example.org'')]\<rparr>"

definition sample_parser :: http_parser where
  "sample_parser =
    \<lparr>hp_cs = 7, hp_body_start = 1, hp_content_len = 2, hp_nread = 3, hp_mark = 4, hp_field_start = 5,
     hp_field_len = 6, hp_query_start = 7, hp_xml_sent = True, hp_json_sent = True, hp_uri_relaxed = False\<rparr>"

lemma sample_parsable: "rq_parsable sample_request"
proof -
  have "pct_text path_class ''a/b%20c''" "pct_text query_class ''x=1&y''" "pct_text query_class ''top''"
    "field_ok (''host'', ''example.org'')"
    by code_simp+
  then show ?thesis by (simp add: rq_parsable_def sample_request_def new_request_def target_ok_def)
qed

theorem parse_dump_roundtrip_witness:
  "\<exists>off data' rp. rp_execute (rq_dump sample_request) (length (rq_dump sample_request)) (new_request_parser sample_parser) =
      Inr (off, data', rp) \<and> rp_isFinished rp = 1 \<and> rq_path (rp_data rp) = ''/a/b%20c''"
proof -
  note sample_parsable
  moreover have "length (rq_dump sample_request) < 2 ^ 31"
  proof -
    have "length (rq_dump sample_request) \<le> 200" by code_simp
    then show ?thesis by simp
  qed
  ultimately have "\<exists>off data' rp. rp_execute (rq_dump sample_request) (length (rq_dump sample_request))
      (new_request_parser sample_parser) = Inr (off, data', rp) \<and> rp_isFinished rp = 1 \<and>
      rp_data rp = rq_received sample_request"
    using parse_dump_roundtrip [of sample_request "rq_dump sample_request" "[]" sample_parser] by auto
  then show ?thesis by (auto simp: rq_received_def sample_request_def)
qed

end
