(* ===== verification/Http_Request_Pieces.thy ===== *)
theory Http_Request_Pieces
  imports Http_Request_Wire
begin

text \<open>
  Requests that arrive in two pieces. A call of \<open>http_parser_execute\<close> resets \<open>mark\<close>, \<open>field_start\<close> and
  \<open>field_len\<close> but not \<open>query_start\<close>, while \<open>HttpRequestParser::execute\<close> drops the bytes it has read: what
  a piece ends within is lost to the next call.
\<close>

text \<open>A piece that ends within the path, and one that ends within the query.\<close>

definition path_piece :: "HttpMethod \<Rightarrow> string \<Rightarrow> string" where
  "path_piece m t = HttpMethodToString m @ CHR '' '' # CHR ''/'' # t"

definition query_piece :: "HttpMethod \<Rightarrow> string \<Rightarrow> string \<Rightarrow> string" where
  "query_piece m t q = path_piece m t @ CHR ''?'' # q"

definition ends_request :: "string \<Rightarrow> string" where
  "ends_request t = t @ CHR '' '' # ''HTTP/'' @ version_text 0x11 @ crlf @ crlf"

definition piece_ok :: "HttpMethod \<Rightarrow> string \<Rightarrow> bool" where
  "piece_ok m t \<longleftrightarrow> m \<noteq> INVALID_METHOD \<and> m \<noteq> MSEARCH \<and> pct_text path_class t \<and> t \<noteq> [] \<and> hd t \<noteq> CHR ''/''"

lemma new_parser_facts:
  "request_parser_ok (new_request_parser raw)" "rp_isFinished (new_request_parser raw) = 0"
  "hp_cs (rp_parser (new_request_parser raw)) = 1" "rp_data (new_request_parser raw) = new_request 0x11 True"
  "rp_error (new_request_parser raw) = 0"
  using new_request_parser_ok by (simp_all add: new_request_parser_def http_parser_init_def)

lemma run_first_piece:
  assumes "piece_ok m t" "B = path_piece m t @ rest"
  shows "machine_run (reader B e) w 1 0 B (Inr (hp, rq, err)) =
    machine_run (reader B e) w 26 (length (path_piece m t)) rest
      (Inr (hp\<lparr>hp_mark := Suc (length (HttpMethodToString m))\<rparr>, rq\<lparr>rq_method := m\<rparr>, err))"
proof -
  have m: "m \<noteq> INVALID_METHOD" "m \<noteq> MSEARCH" and t: "pct_text path_class t" "t = [] \<or> hd t \<noteq> CHR ''/''" "t \<noteq> []"
    using assms(1) by (auto simp: piece_ok_def)
  have "B = HttpMethodToString m @ CHR '' '' # (CHR ''/'' # t) @ rest" using assms(2) by (simp add: path_piece_def)
  from read_start [OF m this] show ?thesis
    using read_path [OF refl t(1,2), of B e w _ rest] t(3) by (simp add: path_piece_def)
qed

text \<open>The parser the first piece leaves.\<close>

lemma after_path_piece:
  assumes "piece_ok m t" "length (path_piece m t) < int_limit"
  obtains rp data' where
    "rp_execute (path_piece m t) (length (path_piece m t)) (new_request_parser raw) =
      Inr (length (path_piece m t), data', rp)"
    "hp_cs (rp_parser rp) = 26" "sent_flags (rp_parser rp) = (False, False)" "rp_error rp = 0"
    "hp_body_start (rp_parser rp) = 0"
proof -
  let ?B = "path_piece m t" and ?rp = "new_request_parser raw"
  have "0 < length ?B" by (simp add: path_piece_def)
  note run = execute_run(5) [OF new_parser_facts(1,2) this order_refl int_limit_string [OF assms(2)] assms(2)]
  have "machine_run (reader ?B (length ?B)) (hp_uri_relaxed (rp_parser ?rp)) 1 0 ?B
      (Inr (reset_offsets (rp_parser ?rp), new_request 0x11 True, 0)) =
    (26, length ?B, Inr ((reset_offsets (rp_parser ?rp))\<lparr>hp_mark := Suc (length (HttpMethodToString m))\<rparr>,
      (new_request 0x11 True)\<lparr>rq_method := m\<rparr>, 0))"
    using run_first_piece [OF assms(1), of ?B "[]"] by simp
  from run [unfolded new_parser_facts take_all [OF order_refl], OF this] show ?thesis
    by (intro that)
      (auto simp: sent_flags_def reset_offsets_def new_request_parser_def http_parser_init_def)
qed

lemma after_query_piece:
  assumes "piece_ok m t" "pct_text query_class q" "q \<noteq> []" "length (query_piece m t q) < int_limit"
  obtains rp data' where
    "rp_execute (query_piece m t q) (length (query_piece m t q)) (new_request_parser raw) =
      Inr (length (query_piece m t q), data', rp)"
    "hp_cs (rp_parser rp) = 30" "hp_query_start (rp_parser rp) = Suc (length (path_piece m t))"
    "hp_body_start (rp_parser rp) = 0" "rp_error rp = 0"
proof -
  let ?B = "query_piece m t q" and ?rp = "new_request_parser raw" and ?p = "length (path_piece m t)"
  have "0 < length ?B" by (simp add: query_piece_def)
  note run = execute_run(5) [OF new_parser_facts(1,2) this order_refl int_limit_string [OF assms(4)] assms(4)]
  let ?hp = "(reset_offsets (rp_parser ?rp))\<lparr>hp_mark := Suc (length (HttpMethodToString m))\<rparr>"
    and ?M = "reader ?B (length ?B)" and ?w = "hp_uri_relaxed (rp_parser ?rp)"
  have B: "?B = path_piece m t @ CHR ''?'' # q" by (simp add: query_piece_def)
  obtain rq where d: "machine_run ?M ?w 26 ?p (CHR ''?'' # q) (Inr (?hp, (new_request 0x11 True)\<lparr>rq_method := m\<rparr>, 0)) =
      machine_run ?M ?w 29 (Suc ?p) q (Inr (?hp, rq, 0))"
  proof (rule that)
    have "rest_at ?B (Suc (length (HttpMethodToString m))) ((CHR ''/'' # t) @ CHR ''?'' # q)"
      by (simp add: rest_at_def query_piece_def path_piece_def)
    note path = std_string_at [OF this less_imp_le [OF int_limit_string [OF assms(4)]]]
    then show "machine_run ?M ?w 26 ?p (CHR ''?'' # q) (Inr (?hp, (new_request 0x11 True)\<lparr>rq_method := m\<rparr>, 0)) =
      machine_run ?M ?w 29 (Suc ?p) q (Inr (?hp, (new_request 0x11 True)\<lparr>rq_method := m, rq_path := CHR ''/'' # t\<rparr>, 0))"
      by (simp add: path_goes(9) [THEN reader_step] http_trans reader_actions path_piece_def)
  qed
  have "machine_run ?M ?w 1 0 ?B (Inr (reset_offsets (rp_parser ?rp), new_request 0x11 True, 0)) =
    (30, length ?B, Inr (?hp\<lparr>hp_query_start := Suc ?p\<rparr>, rq, 0))"
  proof -
    have "machine_run ?M ?w 29 (Suc ?p) q (Inr (?hp, rq, 0)) =
        (30, length ?B, Inr (?hp\<lparr>hp_query_start := Suc ?p\<rparr>, rq, 0))"
      using read_query [OF assms(2,3), of ?B "length ?B" ?w "Suc ?p" "[]"] by (simp add: query_piece_def)
    with run_first_piece [OF assms(1) B] d show ?thesis by simp
  qed
  from run [unfolded new_parser_facts take_all [OF order_refl], OF this] show ?thesis
    by (intro that) (auto simp: reset_offsets_def new_request_parser_def http_parser_init_def)
qed

lemma continue_path:
  assumes rp: "hp_cs (rp_parser rp) = 26" "sent_flags (rp_parser rp) = (False, False)"
      "hp_body_start (rp_parser rp) = 0"
    and t: "pct_text path_class t" and small: "length (ends_request t) < int_limit"
  shows "\<exists>data' rp'. rp_execute (ends_request t) (length (ends_request t)) rp =
      Inr (length (ends_request t), data', rp') \<and>
    hp_cs (rp_parser rp') = 348 \<and> rq_path (rp_data rp') = t \<and> rp_error rp' = rp_error rp"
proof -
  note len = int_limit_string [OF small]
  let ?B = "ends_request t" and ?hp = "reset_offsets (rp_parser rp)" and ?w = "hp_uri_relaxed (rp_parser rp)"
  let ?M = "reader ?B (length ?B)" and ?r = "''HTTP/'' @ version_text 0x11 @ crlf @ join_lines (map field_line []) @ crlf @ []"
  have ok: "request_parser_ok rp" "rp_isFinished rp = 0"
    using rp by (simp_all add: request_parser_ok_def query_valid_def rp_isFinished_0)
  have at: "rest_at ?B 0 (t @ CHR '' '' # ?r)" by (simp add: rest_at_def ends_request_def)
  note path = std_string_at [OF at less_imp_le [OF len]]
  have B: "t @ CHR '' '' # ?r = ?B" by (simp add: ends_request_def)
  have step1: "machine_run ?M ?w 26 0 (t @ CHR '' '' # ?r) (Inr (?hp, rp_data rp, rp_error rp)) =
      machine_run ?M ?w 4 (Suc (length t)) ?r (Inr (?hp, (rp_data rp)\<lparr>rq_path := t\<rparr>, rp_error rp))"
    using run_pct [of ?M path_class 26 27 28 t ?w 0] path_goes t path
    by (simp add: path_goes(5) [THEN reader_step] http_trans reader_actions reset_offsets_def)
  have at2: "rest_at ?B (Suc (length t)) ?r" using rest_at_append [OF at] by (auto dest: rest_at_Cons)
  have flags: "sent_flags ?hp = (False, False)" using rp(2) by (simp add: sent_flags_def reset_offsets_def)
  from read_rest [OF _ _ less_imp_le [OF len] at2 flags, where w = ?w and rq = "(rp_data rp)\<lparr>rq_path := t\<rparr>" and err = "rp_error rp"]
  obtain hp' where "machine_run ?M ?w 4 (Suc (length t)) ?r (Inr (?hp, (rp_data rp)\<lparr>rq_path := t\<rparr>, rp_error rp)) =
      (348, length ?B, Inr (hp', (rp_data rp)\<lparr>rq_path := t, rq_version := 0x11\<rparr>, rp_error rp))"
    by auto
  with step1 have run: "machine_run ?M ?w (hp_cs (rp_parser rp)) 0 (take (length ?B) ?B)
      (Inr (?hp, rp_data rp, rp_error rp)) =
      (348, length ?B, Inr (hp', (rp_data rp)\<lparr>rq_path := t, rq_version := 0x11\<rparr>, rp_error rp))"
    by (simp only: B rp(1) take_all order_refl)
  have "0 < length ?B" by (simp add: ends_request_def)
  from execute_run(5) [OF ok this order_refl len small run] show ?thesis by simp
qed

lemma continue_query:
  assumes rp: "hp_cs (rp_parser rp) = 30" "hp_body_start (rp_parser rp) = 0"
    and q: "pct_text query_class q" "length q < hp_query_start (rp_parser rp)"
      "hp_query_start (rp_parser rp) < max_string"
    and B: "B = q @ CHR '' '' # rest" and small: "length B < int_limit"
  shows "rp_execute B (length B) rp = Inl LengthError"
proof -
  note len = int_limit_string [OF small]
  let ?hp = "reset_offsets (rp_parser rp)" and ?w = "hp_uri_relaxed (rp_parser rp)" and ?M = "reader B (length B)"
  have ok: "request_parser_ok rp" "rp_isFinished rp = 0"
    using rp q(3) by (simp_all add: request_parser_ok_def rp_isFinished_0)
  have stuck: "m_act ?M a p (Inl err) = Inl err" for a p err by (simp add: http_machine_def)
  have fold: "fold (\<lambda>a. m_act ?M a p) acts (Inl err) = Inl err" for acts p err
    by (induction acts) (simp_all add: stuck)
  have dead: "case machine_run ?M ?w cs p buf (Inl err) of (cs', p', s') \<Rightarrow> s' = Inl err" for cs p buf err
    by (rule run_invariant [where I = "\<lambda>_ _ s. s = Inl err" and e = "p + length buf"]) (auto simp: fold)
  have "hp_query_start ?hp = hp_query_start (rp_parser rp)" by (simp add: reset_offsets_def)
  then have "on_request_query B (hp_query_start ?hp) (usub64 (length q) (hp_query_start ?hp)) (rp_data rp, rp_error rp) = Inl LengthError"
    using std_string_wrapped q(2,3) by (simp add: on_request_query_def del: usub64_less)
  then have "machine_run ?M ?w 30 0 (q @ CHR '' '' # rest) (Inr (?hp, rp_data rp, rp_error rp)) =
      machine_run ?M ?w 4 (Suc (length q)) rest (Inl LengthError)"
    using run_pct [of ?M query_class 30 31 32 q ?w 0] query_goes(1) q(1)
    by (simp add: query_goes(5) [THEN reader_step] http_trans call_element_def stuck del: usub64_less)
  moreover obtain cs p s where run: "machine_run ?M ?w 4 (Suc (length q)) rest (Inl LengthError) = (cs, p, s)"
    using prod_cases3 by blast
  moreover have "s = Inl LengthError" using dead [where cs = 4 and p = "Suc (length q)" and buf = rest and err = LengthError] run by simp
  ultimately have "machine_run ?M ?w (hp_cs (rp_parser rp)) 0 (take (length B) B) (Inr (?hp, rp_data rp, rp_error rp)) =
      (cs, p, Inl LengthError)"
    by (simp add: rp(1) B [symmetric])
  moreover have "0 < length B" by (simp add: B)
  ultimately show ?thesis using execute_run(5) [OF ok _ order_refl len small] by fastforce
qed

text \<open>
  C29: a request that arrives in two pieces, each of less than 2 GiB, and is cut within its path is accepted,
  without an error, with only the second half of the path: the first half is gone.
\<close>

theorem split_path_truncated:
  assumes "piece_ok m t1" "pct_text path_class t2"
    and "length (path_piece m t1) < 2 ^ 31" "length (ends_request t2) < 2 ^ 31"
  shows "\<exists>d1 rp1 d2 rp2.
    rp_execute (path_piece m t1) (length (path_piece m t1)) (new_request_parser raw) =
      Inr (length (path_piece m t1), d1, rp1) \<and>
    rp_execute (ends_request t2) (length (ends_request t2)) rp1 = Inr (length (ends_request t2), d2, rp2) \<and>
    rp_isFinished rp2 = 1 \<and> \<not> rp_hasError rp2 \<and> rq_path (rp_data rp2) = t2"
proof -
  obtain rp1 d1 where first: "rp_execute (path_piece m t1) (length (path_piece m t1)) (new_request_parser raw) =
      Inr (length (path_piece m t1), d1, rp1)"
    and rp1: "hp_cs (rp_parser rp1) = 26" "sent_flags (rp_parser rp1) = (False, False)" "rp_error rp1 = 0"
      "hp_body_start (rp_parser rp1) = 0"
    by (rule after_path_piece [OF assms(1) assms(3) [folded int_limit_def], of raw])
  obtain d2 rp2 where "rp_execute (ends_request t2) (length (ends_request t2)) rp1 =
      Inr (length (ends_request t2), d2, rp2)"
    and "hp_cs (rp_parser rp2) = 348" "rq_path (rp_data rp2) = t2" "rp_error rp2 = 0"
    using continue_path [OF rp1(1,2,4) assms(2) assms(4) [folded int_limit_def]] rp1(3) by auto
  with first show ?thesis
    by (auto simp: rp_isFinished_def rp_hasError_def http_parser_finish_def http_parser_has_error_def
        http_parser_is_finished_def)
qed

lemma get_text: "HttpMethodToString GET = ''GET''" "piece_ok GET ''ab''" "version_text 0x11 = ''1.1''"
    "pct_text path_class ''cd''" "pct_text query_class ''k=12345''" "pct_text query_class ''67''"
  by code_simp+

theorem split_path_truncated_witness:
  "\<exists>d1 rp1 d2 rp2.
    rp_execute (path_piece GET ''ab'') (length (path_piece GET ''ab'')) (new_request_parser sample_parser) =
      Inr (length (path_piece GET ''ab''), d1, rp1) \<and>
    rp_execute (ends_request ''cd'') (length (ends_request ''cd'')) rp1 = Inr (length (ends_request ''cd''), d2, rp2) \<and>
    rp_isFinished rp2 = 1 \<and> \<not> rp_hasError rp2 \<and> rq_path (rp_data rp2) = ''cd''"
  by (rule split_path_truncated) (simp_all add: get_text path_piece_def ends_request_def crlf_def del: pct_text.simps)

text \<open>
  A request cut within its query is not answered at all when the part of the query in the second piece
  is shorter than what came before the query: \<open>query_start\<close> still counts from the first piece, the
  length of the query wraps around, and the string constructor throws.
\<close>

lemma split_query_throws:
  assumes "piece_ok m t" "pct_text query_class q1" "q1 \<noteq> []" "pct_text query_class q2"
    and "length q2 \<le> length (path_piece m t)"
    and "length (query_piece m t q1) < int_limit" "length (ends_request q2) < int_limit"
  shows "\<exists>d1 rp1.
    rp_execute (query_piece m t q1) (length (query_piece m t q1)) (new_request_parser raw) =
      Inr (length (query_piece m t q1), d1, rp1) \<and>
    rp_isFinished rp1 = 0 \<and> \<not> rp_hasError rp1 \<and>
    rp_execute (ends_request q2) (length (ends_request q2)) rp1 = Inl LengthError"
proof -
  obtain rp1 d1 where "rp_execute (query_piece m t q1) (length (query_piece m t q1)) (new_request_parser raw) =
      Inr (length (query_piece m t q1), d1, rp1)"
    and rp1: "hp_cs (rp_parser rp1) = 30" "hp_query_start (rp_parser rp1) = Suc (length (path_piece m t))"
      "hp_body_start (rp_parser rp1) = 0" "rp_error rp1 = 0"
    by (rule after_query_piece [OF assms(1-3,6), of raw])
  moreover have "rp_execute (ends_request q2) (length (ends_request q2)) rp1 = Inl LengthError"
    using assms rp1 int_limit_string [OF assms(6)] by (intro continue_query) (auto simp: ends_request_def query_piece_def)
  ultimately show ?thesis
    by (auto simp: rp_isFinished_def rp_hasError_def http_parser_finish_def http_parser_has_error_def
        http_parser_is_finished_def)
qed

end
