(* ===== verification/Client_Table.thy ===== *)
theory Client_Table
  imports Ragel
begin

text \<open>
  The table of the response parser, \<open>src/http/httpclient_parser_rl.cpp\<close>: states 1 to 123 and the
  transitions with actions, in the order of the source, the actions by their names in
  \<open>httpclient_parser.rl\<close>.
\<close>

datatype client_action =
    CMark
  | CStartField
  | CWriteField
  | CStartValue
  | CContentLength
  | CConnClose
  | CWriteValue
  | CReasonPhrase
  | CStatusCode
  | CHttpVersion
  | CChunkSize
  | CTransferChunked
  | CDone

definition client_chunk_1 :: "client_action chunk" where
  "client_chunk_1 =
    ([(1, Row False [(48, 57, Tr 0), (65, 70, Tr 0), (72, 72, Tr 2), (97, 102, Tr 0)] (St 0)),
      (2, Row False [
        (10, 10, Tr 3), (13, 13, Tr 4), (48, 57, St 2), (59, 59, Tr 6), (65, 70, St 2), (97, 102, St 2)] (St 0)),
      (120, Row False [] (St 0))],
     [(0, [CMark], 2),
      (3, [CChunkSize, CDone], 120),
      (7, [CDone], 120),
      (9, [CWriteField, CStartValue, CWriteValue, CDone], 120),
      (15, [CWriteValue, CDone], 120),
      (74, [CConnClose, CDone], 120),
      (4, [CChunkSize], 3)])"

definition client_chunk_2 :: "client_action chunk" where
  "client_chunk_2 =
    ([(3, Row False [(10, 10, Tr 7)] (St 0)),
      (4, Row False [
        (33, 33, Tr 8), (35, 39, Tr 8), (42, 43, Tr 8), (45, 46, Tr 8), (48, 57, Tr 8), (65, 90, Tr 8),
        (94, 122, Tr 8), (124, 124, Tr 8), (126, 126, Tr 8)] (St 0)),
      (5, Row False [
        (10, 10, Tr 9), (13, 13, Tr 10), (33, 33, St 5), (35, 39, St 5), (42, 43, St 5), (45, 46, St 5),
        (48, 57, St 5), (59, 59, Tr 12), (61, 61, Tr 13), (65, 90, St 5), (94, 122, St 5), (124, 124, St 5),
        (126, 126, St 5)] (St 0))],
     [(10, [CWriteField, CStartValue, CWriteValue], 3),
      (16, [CWriteValue], 3),
      (75, [CConnClose], 3),
      (6, [CChunkSize], 4),
      (12, [CWriteField, CStartValue, CWriteValue], 4),
      (18, [CWriteValue], 4),
      (8, [CStartField], 5),
      (13, [CWriteField, CStartValue], 6)])"

definition client_chunk_3 :: "client_action chunk" where
  "client_chunk_3 =
    ([(6, Row False [
        (33, 33, Tr 14), (35, 39, Tr 14), (42, 43, Tr 14), (45, 46, Tr 14), (48, 57, Tr 14), (65, 90, Tr 14),
        (94, 122, Tr 14), (124, 124, Tr 14), (126, 126, Tr 14)] (St 0)),
      (7, Row False [
        (10, 10, Tr 15), (13, 13, Tr 16), (33, 33, St 7), (35, 39, St 7), (42, 43, St 7), (45, 46, St 7),
        (48, 57, St 7), (59, 59, Tr 18), (65, 90, St 7), (94, 122, St 7), (124, 124, St 7), (126, 126, St 7)] (St 0)),
      (8, Row False [(84, 84, St 9)] (St 0)),
      (9, Row False [(84, 84, St 10)] (St 0)),
      (10, Row False [(80, 80, St 11)] (St 0)),
      (11, Row False [(47, 47, St 12)] (St 0)),
      (12, Row False [(48, 57, St 13)] (St 0)),
      (13, Row False [(46, 46, St 14), (48, 57, St 13)] (St 0)),
      (14, Row False [(48, 57, St 15)] (St 0)),
      (15, Row False [(32, 32, Tr 26), (48, 57, St 15)] (St 0)),
      (16, Row False [(48, 57, Tr 27)] (St 0))],
     [(14, [CStartValue], 7),
      (2, [CMark], 8),
      (26, [CHttpVersion], 16),
      (27, [CMark], 17)])"

definition client_chunk_4 :: "client_action chunk" where
  "client_chunk_4 =
    ([(17, Row False [(32, 32, Tr 28), (48, 57, St 17)] (St 0)),
      (18, Row False [(10, 10, St 0)] (Tr 30)),
      (19, Row False [(10, 10, Tr 32), (13, 13, Tr 33)] (St 19)),
      (20, Row False [
        (10, 10, Tr 7), (13, 13, St 3), (33, 33, Tr 35), (35, 39, Tr 35), (42, 43, Tr 35), (45, 46, Tr 35),
        (48, 57, Tr 35), (65, 66, Tr 35), (67, 67, Tr 36), (68, 83, Tr 35), (84, 84, Tr 37), (85, 90, Tr 35),
        (94, 98, Tr 35), (99, 99, Tr 36), (100, 115, Tr 35), (116, 116, Tr 37), (117, 122, Tr 35),
        (124, 124, Tr 35), (126, 126, Tr 35)] (St 0))],
     [(28, [CStatusCode], 18),
      (30, [CMark], 19),
      (45, [CWriteValue], 20),
      (32, [CReasonPhrase], 20),
      (42, [CStartValue, CWriteValue], 20),
      (111, [CWriteValue, CTransferChunked], 20),
      (113, [CTransferChunked], 20),
      (158, [CContentLength, CWriteValue], 20),
      (35, [CStartField], 21),
      (76, [CConnClose, CStartField], 21)])"

definition client_chunk_5 :: "client_action chunk" where
  "client_chunk_5 =
    ([(21, Row False [
        (33, 33, St 21), (35, 39, St 21), (42, 43, St 21), (45, 46, St 21), (48, 57, St 21), (58, 58, Tr 39),
        (65, 90, St 21), (94, 122, St 21), (124, 124, St 21), (126, 126, St 21)] (St 0)),
      (22, Row False [
        (9, 9, Tr 41), (10, 10, Tr 42), (11, 12, Tr 41), (13, 13, Tr 43), (32, 32, Tr 41)] (Tr 40)),
      (23, Row False [(10, 10, Tr 45), (13, 13, Tr 46)] (St 23)),
      (24, Row False [(10, 10, St 20)] (St 0))],
     [(41, [CStartValue], 22),
      (39, [CWriteField], 22),
      (40, [CStartValue], 23),
      (46, [CWriteValue], 24),
      (33, [CReasonPhrase], 24),
      (43, [CStartValue, CWriteValue], 24),
      (159, [CContentLength, CWriteValue], 24),
      (36, [CStartField], 25),
      (77, [CConnClose, CStartField], 25)])"

definition client_chunk_6 :: "client_action chunk" where
  "client_chunk_6 =
    ([(25, Row False [
        (33, 33, St 21), (35, 39, St 21), (42, 43, St 21), (45, 46, St 21), (48, 57, St 21), (58, 58, Tr 39),
        (65, 78, St 21), (79, 79, St 26), (80, 90, St 21), (94, 110, St 21), (111, 111, St 26),
        (112, 122, St 21), (124, 124, St 21), (126, 126, St 21)] (St 0)),
      (26, Row False [
        (33, 33, St 21), (35, 39, St 21), (42, 43, St 21), (45, 46, St 21), (48, 57, St 21), (58, 58, Tr 39),
        (65, 77, St 21), (78, 78, St 27), (79, 90, St 21), (94, 109, St 21), (110, 110, St 27),
        (111, 122, St 21), (124, 124, St 21), (126, 126, St 21)] (St 0)),
      (27, Row False [
        (33, 33, St 21), (35, 39, St 21), (42, 43, St 21), (45, 46, St 21), (48, 57, St 21), (58, 58, Tr 39),
        (65, 77, St 21), (78, 78, St 28), (79, 83, St 21), (84, 84, St 101), (85, 90, St 21), (94, 109, St 21),
        (110, 110, St 28), (111, 115, St 21), (116, 116, St 101), (117, 122, St 21), (124, 124, St 21),
        (126, 126, St 21)] (St 0)),
      (28, Row False [
        (33, 33, St 21), (35, 39, St 21), (42, 43, St 21), (45, 46, St 21), (48, 57, St 21), (58, 58, Tr 39),
        (65, 68, St 21), (69, 69, St 29), (70, 90, St 21), (94, 100, St 21), (101, 101, St 29),
        (102, 122, St 21), (124, 124, St 21), (126, 126, St 21)] (St 0)),
      (29, Row False [
        (33, 33, St 21), (35, 39, St 21), (42, 43, St 21), (45, 46, St 21), (48, 57, St 21), (58, 58, Tr 39),
        (65, 66, St 21), (67, 67, St 30), (68, 90, St 21), (94, 98, St 21), (99, 99, St 30), (100, 122, St 21),
        (124, 124, St 21), (126, 126, St 21)] (St 0))],
     [])"

definition client_chunk_7 :: "client_action chunk" where
  "client_chunk_7 =
    ([(30, Row False [
        (33, 33, St 21), (35, 39, St 21), (42, 43, St 21), (45, 46, St 21), (48, 57, St 21), (58, 58, Tr 39),
        (65, 83, St 21), (84, 84, St 31), (85, 90, St 21), (94, 115, St 21), (116, 116, St 31),
        (117, 122, St 21), (124, 124, St 21), (126, 126, St 21)] (St 0)),
      (31, Row False [
        (33, 33, St 21), (35, 39, St 21), (42, 43, St 21), (45, 46, St 21), (48, 57, St 21), (58, 58, Tr 39),
        (65, 72, St 21), (73, 73, St 32), (74, 90, St 21), (94, 104, St 21), (105, 105, St 32),
        (106, 122, St 21), (124, 124, St 21), (126, 126, St 21)] (St 0)),
      (32, Row False [
        (33, 33, St 21), (35, 39, St 21), (42, 43, St 21), (45, 46, St 21), (48, 57, St 21), (58, 58, Tr 39),
        (65, 78, St 21), (79, 79, St 33), (80, 90, St 21), (94, 110, St 21), (111, 111, St 33),
        (112, 122, St 21), (124, 124, St 21), (126, 126, St 21)] (St 0)),
      (33, Row False [
        (33, 33, St 21), (35, 39, St 21), (42, 43, St 21), (45, 46, St 21), (48, 57, St 21), (58, 58, Tr 39),
        (65, 77, St 21), (78, 78, St 34), (79, 90, St 21), (94, 109, St 21), (110, 110, St 34),
        (111, 122, St 21), (124, 124, St 21), (126, 126, St 21)] (St 0)),
      (34, Row False [
        (33, 33, St 21), (35, 39, St 21), (42, 43, St 21), (45, 46, St 21), (48, 57, St 21), (58, 58, Tr 58),
        (65, 90, St 21), (94, 122, St 21), (124, 124, St 21), (126, 126, St 21)] (St 0))],
     [])"

definition client_chunk_8 :: "client_action chunk" where
  "client_chunk_8 =
    ([(35, Row False [
        (9, 9, Tr 59), (10, 10, Tr 60), (11, 12, Tr 59), (13, 13, Tr 61), (32, 32, Tr 59), (67, 67, Tr 62),
        (99, 99, Tr 62)] (Tr 40)),
      (36, Row False [
        (9, 9, St 37), (10, 10, Tr 64), (11, 12, St 37), (13, 13, St 89), (32, 32, St 37), (33, 33, Tr 35),
        (35, 39, Tr 35), (42, 43, Tr 35), (45, 46, Tr 35), (48, 57, Tr 35), (65, 66, Tr 35), (67, 67, Tr 66),
        (68, 83, Tr 35), (84, 84, Tr 37), (85, 90, Tr 35), (94, 98, Tr 35), (99, 99, Tr 66), (100, 115, Tr 35),
        (116, 116, Tr 37), (117, 122, Tr 35), (124, 124, Tr 35), (126, 126, Tr 35)] (St 0)),
      (37, Row False [(9, 13, St 37), (32, 32, St 37), (67, 67, St 38), (99, 99, St 38)] (St 0)),
      (38, Row False [(76, 76, St 39), (108, 108, St 39)] (St 0)),
      (39, Row False [(79, 79, St 40), (111, 111, St 40)] (St 0)),
      (40, Row False [(83, 83, St 41), (115, 115, St 41)] (St 0)),
      (41, Row False [(69, 69, St 42), (101, 101, St 42)] (St 0)),
      (42, Row False [(10, 10, St 43), (13, 13, St 88)] (St 0))],
     [(59, [CStartValue], 35),
      (58, [CWriteField], 35),
      (60, [CStartValue, CWriteValue], 36),
      (136, [CWriteValue], 43)])"

definition client_chunk_9 :: "client_action chunk" where
  "client_chunk_9 =
    ([(43, Row False [
        (10, 10, Tr 74), (13, 13, Tr 75), (33, 33, Tr 76), (35, 39, Tr 76), (42, 43, Tr 76), (45, 46, Tr 76),
        (48, 57, Tr 76), (65, 66, Tr 76), (67, 67, Tr 77), (68, 83, Tr 76), (84, 84, Tr 78), (85, 90, Tr 76),
        (94, 98, Tr 76), (99, 99, Tr 77), (100, 115, Tr 76), (116, 116, Tr 78), (117, 122, Tr 76),
        (124, 124, Tr 76), (126, 126, Tr 76)] (St 0)),
      (44, Row False [
        (33, 33, St 21), (35, 39, St 21), (42, 43, St 21), (45, 46, St 21), (48, 57, St 21), (58, 58, Tr 39),
        (65, 81, St 21), (82, 82, St 45), (83, 90, St 21), (94, 113, St 21), (114, 114, St 45),
        (115, 122, St 21), (124, 124, St 21), (126, 126, St 21)] (St 0)),
      (45, Row False [
        (33, 33, St 21), (35, 39, St 21), (42, 43, St 21), (45, 46, St 21), (48, 57, St 21), (58, 58, Tr 39),
        (65, 65, St 46), (66, 90, St 21), (94, 96, St 21), (97, 97, St 46), (98, 122, St 21), (124, 124, St 21),
        (126, 126, St 21)] (St 0)),
      (46, Row False [
        (33, 33, St 21), (35, 39, St 21), (42, 43, St 21), (45, 46, St 21), (48, 57, St 21), (58, 58, Tr 39),
        (65, 77, St 21), (78, 78, St 47), (79, 90, St 21), (94, 109, St 21), (110, 110, St 47),
        (111, 122, St 21), (124, 124, St 21), (126, 126, St 21)] (St 0))],
     [(37, [CStartField], 44),
      (78, [CConnClose, CStartField], 44)])"

definition client_chunk_10 :: "client_action chunk" where
  "client_chunk_10 =
    ([(47, Row False [
        (33, 33, St 21), (35, 39, St 21), (42, 43, St 21), (45, 46, St 21), (48, 57, St 21), (58, 58, Tr 39),
        (65, 82, St 21), (83, 83, St 48), (84, 90, St 21), (94, 114, St 21), (115, 115, St 48),
        (116, 122, St 21), (124, 124, St 21), (126, 126, St 21)] (St 0)),
      (48, Row False [
        (33, 33, St 21), (35, 39, St 21), (42, 43, St 21), (45, 46, St 21), (48, 57, St 21), (58, 58, Tr 39),
        (65, 69, St 21), (70, 70, St 49), (71, 90, St 21), (94, 101, St 21), (102, 102, St 49),
        (103, 122, St 21), (124, 124, St 21), (126, 126, St 21)] (St 0)),
      (49, Row False [
        (33, 33, St 21), (35, 39, St 21), (42, 43, St 21), (45, 46, St 21), (48, 57, St 21), (58, 58, Tr 39),
        (65, 68, St 21), (69, 69, St 50), (70, 90, St 21), (94, 100, St 21), (101, 101, St 50),
        (102, 122, St 21), (124, 124, St 21), (126, 126, St 21)] (St 0)),
      (50, Row False [
        (33, 33, St 21), (35, 39, St 21), (42, 43, St 21), (45, 46, St 21), (48, 57, St 21), (58, 58, Tr 39),
        (65, 81, St 21), (82, 82, St 51), (83, 90, St 21), (94, 113, St 21), (114, 114, St 51),
        (115, 122, St 21), (124, 124, St 21), (126, 126, St 21)] (St 0)),
      (51, Row False [
        (33, 33, St 21), (35, 39, St 21), (42, 43, St 21), (45, 45, St 52), (46, 46, St 21), (48, 57, St 21),
        (58, 58, Tr 39), (65, 90, St 21), (94, 122, St 21), (124, 124, St 21), (126, 126, St 21)] (St 0))],
     [])"

definition client_chunk_11 :: "client_action chunk" where
  "client_chunk_11 =
    ([(52, Row False [
        (33, 33, St 21), (35, 39, St 21), (42, 43, St 21), (45, 46, St 21), (48, 57, St 21), (58, 58, Tr 39),
        (65, 68, St 21), (69, 69, St 53), (70, 90, St 21), (94, 100, St 21), (101, 101, St 53),
        (102, 122, St 21), (124, 124, St 21), (126, 126, St 21)] (St 0)),
      (53, Row False [
        (33, 33, St 21), (35, 39, St 21), (42, 43, St 21), (45, 46, St 21), (48, 57, St 21), (58, 58, Tr 39),
        (65, 77, St 21), (78, 78, St 54), (79, 90, St 21), (94, 109, St 21), (110, 110, St 54),
        (111, 122, St 21), (124, 124, St 21), (126, 126, St 21)] (St 0)),
      (54, Row False [
        (33, 33, St 21), (35, 39, St 21), (42, 43, St 21), (45, 46, St 21), (48, 57, St 21), (58, 58, Tr 39),
        (65, 66, St 21), (67, 67, St 55), (68, 90, St 21), (94, 98, St 21), (99, 99, St 55), (100, 122, St 21),
        (124, 124, St 21), (126, 126, St 21)] (St 0)),
      (55, Row False [
        (33, 33, St 21), (35, 39, St 21), (42, 43, St 21), (45, 46, St 21), (48, 57, St 21), (58, 58, Tr 39),
        (65, 78, St 21), (79, 79, St 56), (80, 90, St 21), (94, 110, St 21), (111, 111, St 56),
        (112, 122, St 21), (124, 124, St 21), (126, 126, St 21)] (St 0)),
      (56, Row False [
        (33, 33, St 21), (35, 39, St 21), (42, 43, St 21), (45, 46, St 21), (48, 57, St 21), (58, 58, Tr 39),
        (65, 67, St 21), (68, 68, St 57), (69, 90, St 21), (94, 99, St 21), (100, 100, St 57),
        (101, 122, St 21), (124, 124, St 21), (126, 126, St 21)] (St 0))],
     [])"

definition client_chunk_12 :: "client_action chunk" where
  "client_chunk_12 =
    ([(57, Row False [
        (33, 33, St 21), (35, 39, St 21), (42, 43, St 21), (45, 46, St 21), (48, 57, St 21), (58, 58, Tr 39),
        (65, 72, St 21), (73, 73, St 58), (74, 90, St 21), (94, 104, St 21), (105, 105, St 58),
        (106, 122, St 21), (124, 124, St 21), (126, 126, St 21)] (St 0)),
      (58, Row False [
        (33, 33, St 21), (35, 39, St 21), (42, 43, St 21), (45, 46, St 21), (48, 57, St 21), (58, 58, Tr 39),
        (65, 77, St 21), (78, 78, St 59), (79, 90, St 21), (94, 109, St 21), (110, 110, St 59),
        (111, 122, St 21), (124, 124, St 21), (126, 126, St 21)] (St 0)),
      (59, Row False [
        (33, 33, St 21), (35, 39, St 21), (42, 43, St 21), (45, 46, St 21), (48, 57, St 21), (58, 58, Tr 39),
        (65, 70, St 21), (71, 71, St 60), (72, 90, St 21), (94, 102, St 21), (103, 103, St 60),
        (104, 122, St 21), (124, 124, St 21), (126, 126, St 21)] (St 0)),
      (60, Row False [
        (33, 33, St 21), (35, 39, St 21), (42, 43, St 21), (45, 46, St 21), (48, 57, St 21), (58, 58, Tr 95),
        (65, 90, St 21), (94, 122, St 21), (124, 124, St 21), (126, 126, St 21)] (St 0)),
      (61, Row False [
        (9, 9, Tr 96), (10, 10, Tr 97), (11, 12, Tr 96), (13, 13, Tr 98), (32, 32, Tr 96), (67, 67, Tr 99),
        (99, 99, Tr 99)] (Tr 40))],
     [(96, [CStartValue], 61),
      (95, [CWriteField], 61),
      (97, [CStartValue, CWriteValue], 62)])"

definition client_chunk_13 :: "client_action chunk" where
  "client_chunk_13 =
    ([(62, Row False [
        (9, 9, St 63), (10, 10, Tr 101), (11, 12, St 63), (13, 13, St 72), (32, 32, St 63), (33, 33, Tr 35),
        (35, 39, Tr 35), (42, 43, Tr 35), (45, 46, Tr 35), (48, 57, Tr 35), (65, 66, Tr 35), (67, 67, Tr 103),
        (68, 83, Tr 35), (84, 84, Tr 37), (85, 90, Tr 35), (94, 98, Tr 35), (99, 99, Tr 103), (100, 115, Tr 35),
        (116, 116, Tr 37), (117, 122, Tr 35), (124, 124, Tr 35), (126, 126, Tr 35)] (St 0)),
      (63, Row False [(9, 13, St 63), (32, 32, St 63), (67, 67, Tr 104), (99, 99, Tr 104)] (St 0)),
      (64, Row False [(72, 72, St 65), (104, 104, St 65)] (St 0)),
      (65, Row False [(85, 85, St 66), (117, 117, St 66)] (St 0)),
      (66, Row False [(78, 78, St 67), (110, 110, St 67)] (St 0)),
      (67, Row False [(75, 75, St 68), (107, 107, St 68)] (St 0)),
      (68, Row False [(69, 69, St 69), (101, 101, St 69)] (St 0)),
      (69, Row False [(68, 68, St 70), (100, 100, St 70)] (St 0)),
      (70, Row False [(10, 10, Tr 111), (13, 13, Tr 112)] (St 0)),
      (71, Row False [(10, 10, Tr 113)] (St 0))],
     [(104, [CStartValue], 64),
      (112, [CWriteValue], 71),
      (101, [CDone], 121)])"

definition client_chunk_14 :: "client_action chunk" where
  "client_chunk_14 =
    ([(121, Row False [(9, 13, St 63), (32, 32, St 63), (67, 67, Tr 104), (99, 99, Tr 104)] (St 0)),
      (72, Row False [
        (9, 9, St 63), (10, 10, Tr 101), (11, 13, St 63), (32, 32, St 63), (67, 67, Tr 104), (99, 99, Tr 104)] (St 0)),
      (73, Row False [
        (33, 33, St 21), (35, 39, St 21), (42, 43, St 21), (45, 46, St 21), (48, 57, St 21), (58, 58, Tr 39),
        (65, 71, St 21), (72, 72, St 74), (73, 78, St 21), (79, 79, St 26), (80, 90, St 21), (94, 103, St 21),
        (104, 104, St 74), (105, 110, St 21), (111, 111, St 26), (112, 122, St 21), (124, 124, St 21),
        (126, 126, St 21)] (St 0)),
      (74, Row False [
        (33, 33, St 21), (35, 39, St 21), (42, 43, St 21), (45, 46, St 21), (48, 57, St 21), (58, 58, Tr 39),
        (65, 84, St 21), (85, 85, St 75), (86, 90, St 21), (94, 116, St 21), (117, 117, St 75),
        (118, 122, St 21), (124, 124, St 21), (126, 126, St 21)] (St 0)),
      (75, Row False [
        (33, 33, St 21), (35, 39, St 21), (42, 43, St 21), (45, 46, St 21), (48, 57, St 21), (58, 58, Tr 39),
        (65, 77, St 21), (78, 78, St 76), (79, 90, St 21), (94, 109, St 21), (110, 110, St 76),
        (111, 122, St 21), (124, 124, St 21), (126, 126, St 21)] (St 0))],
     [(103, [CStartValue, CStartField], 73)])"

definition client_chunk_15 :: "client_action chunk" where
  "client_chunk_15 =
    ([(76, Row False [
        (33, 33, St 21), (35, 39, St 21), (42, 43, St 21), (45, 46, St 21), (48, 57, St 21), (58, 58, Tr 39),
        (65, 74, St 21), (75, 75, St 77), (76, 90, St 21), (94, 106, St 21), (107, 107, St 77),
        (108, 122, St 21), (124, 124, St 21), (126, 126, St 21)] (St 0)),
      (77, Row False [
        (33, 33, St 21), (35, 39, St 21), (42, 43, St 21), (45, 46, St 21), (48, 57, St 21), (58, 58, Tr 39),
        (65, 68, St 21), (69, 69, St 78), (70, 90, St 21), (94, 100, St 21), (101, 101, St 78),
        (102, 122, St 21), (124, 124, St 21), (126, 126, St 21)] (St 0)),
      (78, Row False [
        (33, 33, St 21), (35, 39, St 21), (42, 43, St 21), (45, 46, St 21), (48, 57, St 21), (58, 58, Tr 39),
        (65, 67, St 21), (68, 68, St 79), (69, 90, St 21), (94, 99, St 21), (100, 100, St 79),
        (101, 122, St 21), (124, 124, St 21), (126, 126, St 21)] (St 0)),
      (79, Row False [
        (10, 10, Tr 111), (13, 13, Tr 112), (33, 33, St 21), (35, 39, St 21), (42, 43, St 21), (45, 46, St 21),
        (48, 57, St 21), (58, 58, Tr 39), (65, 90, St 21), (94, 122, St 21), (124, 124, St 21),
        (126, 126, St 21)] (St 0)),
      (80, Row False [
        (9, 9, St 63), (10, 10, St 62), (11, 13, St 63), (32, 32, St 63), (67, 67, Tr 104), (99, 99, Tr 104)] (St 0))],
     [(98, [CStartValue, CWriteValue], 80),
      (99, [CStartValue], 81)])"

definition client_chunk_16 :: "client_action chunk" where
  "client_chunk_16 =
    ([(81, Row False [(10, 10, Tr 45), (13, 13, Tr 46), (72, 72, St 82), (104, 104, St 82)] (St 23)),
      (82, Row False [(10, 10, Tr 45), (13, 13, Tr 46), (85, 85, St 83), (117, 117, St 83)] (St 23)),
      (83, Row False [(10, 10, Tr 45), (13, 13, Tr 46), (78, 78, St 84), (110, 110, St 84)] (St 23)),
      (84, Row False [(10, 10, Tr 45), (13, 13, Tr 46), (75, 75, St 85), (107, 107, St 85)] (St 23)),
      (85, Row False [(10, 10, Tr 45), (13, 13, Tr 46), (69, 69, St 86), (101, 101, St 86)] (St 23)),
      (86, Row False [(10, 10, Tr 45), (13, 13, Tr 46), (68, 68, St 87), (100, 100, St 87)] (St 23)),
      (87, Row False [(10, 10, Tr 111), (13, 13, Tr 112)] (St 23)),
      (88, Row False [(10, 10, St 43)] (St 0)),
      (122, Row False [(9, 13, St 37), (32, 32, St 37), (67, 67, St 38), (99, 99, St 38)] (St 0)),
      (89, Row False [
        (9, 9, St 37), (10, 10, Tr 64), (11, 13, St 37), (32, 32, St 37), (67, 67, St 38), (99, 99, St 38)] (St 0))],
     [(137, [CWriteValue], 88),
      (64, [CDone], 122),
      (66, [CStartField], 90)])"

definition client_chunk_17 :: "client_action chunk" where
  "client_chunk_17 =
    ([(90, Row False [
        (33, 33, St 21), (35, 39, St 21), (42, 43, St 21), (45, 46, St 21), (48, 57, St 21), (58, 58, Tr 39),
        (65, 75, St 21), (76, 76, St 91), (77, 78, St 21), (79, 79, St 26), (80, 90, St 21), (94, 107, St 21),
        (108, 108, St 91), (109, 110, St 21), (111, 111, St 26), (112, 122, St 21), (124, 124, St 21),
        (126, 126, St 21)] (St 0)),
      (91, Row False [
        (33, 33, St 21), (35, 39, St 21), (42, 43, St 21), (45, 46, St 21), (48, 57, St 21), (58, 58, Tr 39),
        (65, 78, St 21), (79, 79, St 92), (80, 90, St 21), (94, 110, St 21), (111, 111, St 92),
        (112, 122, St 21), (124, 124, St 21), (126, 126, St 21)] (St 0)),
      (92, Row False [
        (33, 33, St 21), (35, 39, St 21), (42, 43, St 21), (45, 46, St 21), (48, 57, St 21), (58, 58, Tr 39),
        (65, 82, St 21), (83, 83, St 93), (84, 90, St 21), (94, 114, St 21), (115, 115, St 93),
        (116, 122, St 21), (124, 124, St 21), (126, 126, St 21)] (St 0)),
      (93, Row False [
        (33, 33, St 21), (35, 39, St 21), (42, 43, St 21), (45, 46, St 21), (48, 57, St 21), (58, 58, Tr 39),
        (65, 68, St 21), (69, 69, St 94), (70, 90, St 21), (94, 100, St 21), (101, 101, St 94),
        (102, 122, St 21), (124, 124, St 21), (126, 126, St 21)] (St 0)),
      (94, Row False [
        (10, 10, St 43), (13, 13, St 88), (33, 33, St 21), (35, 39, St 21), (42, 43, St 21), (45, 46, St 21),
        (48, 57, St 21), (58, 58, Tr 39), (65, 90, St 21), (94, 122, St 21), (124, 124, St 21),
        (126, 126, St 21)] (St 0))],
     [])"

definition client_chunk_18 :: "client_action chunk" where
  "client_chunk_18 =
    ([(95, Row False [
        (9, 9, St 37), (10, 10, St 36), (11, 13, St 37), (32, 32, St 37), (67, 67, St 38), (99, 99, St 38)] (St 0)),
      (96, Row False [(10, 10, Tr 45), (13, 13, Tr 46), (76, 76, St 97), (108, 108, St 97)] (St 23)),
      (97, Row False [(10, 10, Tr 45), (13, 13, Tr 46), (79, 79, St 98), (111, 111, St 98)] (St 23)),
      (98, Row False [(10, 10, Tr 45), (13, 13, Tr 46), (83, 83, St 99), (115, 115, St 99)] (St 23)),
      (99, Row False [(10, 10, Tr 45), (13, 13, Tr 46), (69, 69, St 100), (101, 101, St 100)] (St 23)),
      (100, Row False [(10, 10, Tr 136), (13, 13, Tr 137)] (St 23)),
      (101, Row False [
        (33, 33, St 21), (35, 39, St 21), (42, 43, St 21), (45, 46, St 21), (48, 57, St 21), (58, 58, Tr 39),
        (65, 68, St 21), (69, 69, St 102), (70, 90, St 21), (94, 100, St 21), (101, 101, St 102),
        (102, 122, St 21), (124, 124, St 21), (126, 126, St 21)] (St 0)),
      (102, Row False [
        (33, 33, St 21), (35, 39, St 21), (42, 43, St 21), (45, 46, St 21), (48, 57, St 21), (58, 58, Tr 39),
        (65, 77, St 21), (78, 78, St 103), (79, 90, St 21), (94, 109, St 21), (110, 110, St 103),
        (111, 122, St 21), (124, 124, St 21), (126, 126, St 21)] (St 0))],
     [(61, [CStartValue, CWriteValue], 95),
      (62, [CStartValue], 96)])"

definition client_chunk_19 :: "client_action chunk" where
  "client_chunk_19 =
    ([(103, Row False [
        (33, 33, St 21), (35, 39, St 21), (42, 43, St 21), (45, 46, St 21), (48, 57, St 21), (58, 58, Tr 39),
        (65, 83, St 21), (84, 84, St 104), (85, 90, St 21), (94, 115, St 21), (116, 116, St 104),
        (117, 122, St 21), (124, 124, St 21), (126, 126, St 21)] (St 0)),
      (104, Row False [
        (33, 33, St 21), (35, 39, St 21), (42, 43, St 21), (45, 45, St 105), (46, 46, St 21), (48, 57, St 21),
        (58, 58, Tr 39), (65, 90, St 21), (94, 122, St 21), (124, 124, St 21), (126, 126, St 21)] (St 0)),
      (105, Row False [
        (33, 33, St 21), (35, 39, St 21), (42, 43, St 21), (45, 46, St 21), (48, 57, St 21), (58, 58, Tr 39),
        (65, 75, St 21), (76, 76, St 106), (77, 90, St 21), (94, 107, St 21), (108, 108, St 106),
        (109, 122, St 21), (124, 124, St 21), (126, 126, St 21)] (St 0)),
      (106, Row False [
        (33, 33, St 21), (35, 39, St 21), (42, 43, St 21), (45, 46, St 21), (48, 57, St 21), (58, 58, Tr 39),
        (65, 68, St 21), (69, 69, St 107), (70, 90, St 21), (94, 100, St 21), (101, 101, St 107),
        (102, 122, St 21), (124, 124, St 21), (126, 126, St 21)] (St 0)),
      (107, Row False [
        (33, 33, St 21), (35, 39, St 21), (42, 43, St 21), (45, 46, St 21), (48, 57, St 21), (58, 58, Tr 39),
        (65, 77, St 21), (78, 78, St 108), (79, 90, St 21), (94, 109, St 21), (110, 110, St 108),
        (111, 122, St 21), (124, 124, St 21), (126, 126, St 21)] (St 0))],
     [])"

definition client_chunk_20 :: "client_action chunk" where
  "client_chunk_20 =
    ([(108, Row False [
        (33, 33, St 21), (35, 39, St 21), (42, 43, St 21), (45, 46, St 21), (48, 57, St 21), (58, 58, Tr 39),
        (65, 70, St 21), (71, 71, St 109), (72, 90, St 21), (94, 102, St 21), (103, 103, St 109),
        (104, 122, St 21), (124, 124, St 21), (126, 126, St 21)] (St 0)),
      (109, Row False [
        (33, 33, St 21), (35, 39, St 21), (42, 43, St 21), (45, 46, St 21), (48, 57, St 21), (58, 58, Tr 39),
        (65, 83, St 21), (84, 84, St 110), (85, 90, St 21), (94, 115, St 21), (116, 116, St 110),
        (117, 122, St 21), (124, 124, St 21), (126, 126, St 21)] (St 0)),
      (110, Row False [
        (33, 33, St 21), (35, 39, St 21), (42, 43, St 21), (45, 46, St 21), (48, 57, St 21), (58, 58, Tr 39),
        (65, 71, St 21), (72, 72, St 111), (73, 90, St 21), (94, 103, St 21), (104, 104, St 111),
        (105, 122, St 21), (124, 124, St 21), (126, 126, St 21)] (St 0)),
      (111, Row False [
        (33, 33, St 21), (35, 39, St 21), (42, 43, St 21), (45, 46, St 21), (48, 57, St 21), (58, 58, Tr 148),
        (65, 90, St 21), (94, 122, St 21), (124, 124, St 21), (126, 126, St 21)] (St 0)),
      (112, Row False [
        (9, 9, Tr 149), (10, 10, Tr 150), (11, 12, Tr 149), (13, 13, Tr 151), (32, 32, Tr 149), (48, 57, Tr 152)] (Tr 40))],
     [(149, [CStartValue], 112),
      (148, [CWriteField], 112)])"

definition client_chunk_21 :: "client_action chunk" where
  "client_chunk_21 =
    ([(113, Row False [
        (9, 9, St 114), (10, 10, Tr 154), (11, 12, St 114), (13, 13, St 116), (32, 32, St 114), (33, 33, Tr 35),
        (35, 39, Tr 35), (42, 43, Tr 35), (45, 46, Tr 35), (48, 57, Tr 156), (65, 66, Tr 35), (67, 67, Tr 36),
        (68, 83, Tr 35), (84, 84, Tr 37), (85, 90, Tr 35), (94, 98, Tr 35), (99, 99, Tr 36), (100, 115, Tr 35),
        (116, 116, Tr 37), (117, 122, Tr 35), (124, 124, Tr 35), (126, 126, Tr 35)] (St 0)),
      (114, Row False [(9, 13, St 114), (32, 32, St 114), (48, 57, Tr 157)] (St 0)),
      (115, Row False [(10, 10, Tr 158), (13, 13, Tr 159), (48, 57, St 115)] (St 0)),
      (123, Row False [(9, 13, St 114), (32, 32, St 114), (48, 57, Tr 157)] (St 0)),
      (116, Row False [
        (9, 9, St 114), (10, 10, Tr 154), (11, 13, St 114), (32, 32, St 114), (48, 57, Tr 157)] (St 0)),
      (117, Row False [
        (10, 10, Tr 158), (13, 13, Tr 159), (33, 33, St 21), (35, 39, St 21), (42, 43, St 21), (45, 46, St 21),
        (48, 57, St 117), (58, 58, Tr 39), (65, 90, St 21), (94, 122, St 21), (124, 124, St 21),
        (126, 126, St 21)] (St 0))],
     [(150, [CStartValue, CWriteValue], 113),
      (157, [CStartValue], 115),
      (154, [CDone], 123),
      (156, [CStartValue, CStartField], 117)])"

definition client_chunk_22 :: "client_action chunk" where
  "client_chunk_22 =
    ([(118, Row False [
        (9, 9, St 114), (10, 10, St 113), (11, 13, St 114), (32, 32, St 114), (48, 57, Tr 157)] (St 0)),
      (119, Row False [(10, 10, Tr 158), (13, 13, Tr 159), (48, 57, St 119)] (St 23))],
     [(151, [CStartValue, CWriteValue], 118),
      (152, [CStartValue], 119)])"

definition client_index :: "client_action index" where
  "client_index =
    [([1, 2, 120], [0, 3, 7, 9, 15, 74, 4], client_chunk_1),
     ([3, 4, 5], [10, 16, 75, 6, 12, 18, 8, 13], client_chunk_2),
     ([6, 7, 8, 9, 10, 11, 12, 13, 14, 15, 16], [14, 2, 26, 27], client_chunk_3),
     ([17, 18, 19, 20], [28, 30, 45, 32, 42, 111, 113, 158, 35, 76], client_chunk_4),
     ([21, 22, 23, 24], [41, 39, 40, 46, 33, 43, 159, 36, 77], client_chunk_5),
     ([25, 26, 27, 28, 29], [], client_chunk_6),
     ([30, 31, 32, 33, 34], [], client_chunk_7),
     ([35, 36, 37, 38, 39, 40, 41, 42], [59, 58, 60, 136], client_chunk_8),
     ([43, 44, 45, 46], [37, 78], client_chunk_9),
     ([47, 48, 49, 50, 51], [], client_chunk_10),
     ([52, 53, 54, 55, 56], [], client_chunk_11),
     ([57, 58, 59, 60, 61], [96, 95, 97], client_chunk_12),
     ([62, 63, 64, 65, 66, 67, 68, 69, 70, 71], [104, 112, 101], client_chunk_13),
     ([121, 72, 73, 74, 75], [103], client_chunk_14),
     ([76, 77, 78, 79, 80], [98, 99], client_chunk_15),
     ([81, 82, 83, 84, 85, 86, 87, 88, 122, 89], [137, 64, 66], client_chunk_16),
     ([90, 91, 92, 93, 94], [], client_chunk_17),
     ([95, 96, 97, 98, 99, 100, 101, 102], [61, 62], client_chunk_18),
     ([103, 104, 105, 106, 107], [], client_chunk_19),
     ([108, 109, 110, 111, 112], [149, 148], client_chunk_20),
     ([113, 114, 115, 123, 116, 117], [150, 157, 154, 156], client_chunk_21),
     ([118, 119], [151, 152], client_chunk_22)]"

text \<open>The transitions, by number, and the closedness of the table.\<close>

lemma client_trans_of:
  "snd client_chunk_1 =
     [(0, [CMark], 2),
      (3, [CChunkSize, CDone], 120),
      (7, [CDone], 120),
      (9, [CWriteField, CStartValue, CWriteValue, CDone], 120),
      (15, [CWriteValue, CDone], 120),
      (74, [CConnClose, CDone], 120),
      (4, [CChunkSize], 3)]"
  "snd client_chunk_2 =
     [(10, [CWriteField, CStartValue, CWriteValue], 3),
      (16, [CWriteValue], 3),
      (75, [CConnClose], 3),
      (6, [CChunkSize], 4),
      (12, [CWriteField, CStartValue, CWriteValue], 4),
      (18, [CWriteValue], 4),
      (8, [CStartField], 5),
      (13, [CWriteField, CStartValue], 6)]"
  "snd client_chunk_3 =
     [(14, [CStartValue], 7),
      (2, [CMark], 8),
      (26, [CHttpVersion], 16),
      (27, [CMark], 17)]"
  "snd client_chunk_4 =
     [(28, [CStatusCode], 18),
      (30, [CMark], 19),
      (45, [CWriteValue], 20),
      (32, [CReasonPhrase], 20),
      (42, [CStartValue, CWriteValue], 20),
      (111, [CWriteValue, CTransferChunked], 20),
      (113, [CTransferChunked], 20),
      (158, [CContentLength, CWriteValue], 20),
      (35, [CStartField], 21),
      (76, [CConnClose, CStartField], 21)]"
  "snd client_chunk_5 =
     [(41, [CStartValue], 22),
      (39, [CWriteField], 22),
      (40, [CStartValue], 23),
      (46, [CWriteValue], 24),
      (33, [CReasonPhrase], 24),
      (43, [CStartValue, CWriteValue], 24),
      (159, [CContentLength, CWriteValue], 24),
      (36, [CStartField], 25),
      (77, [CConnClose, CStartField], 25)]"
  "snd client_chunk_6 = []"
  "snd client_chunk_7 = []"
  "snd client_chunk_8 =
     [(59, [CStartValue], 35),
      (58, [CWriteField], 35),
      (60, [CStartValue, CWriteValue], 36),
      (136, [CWriteValue], 43)]"
  "snd client_chunk_9 =
     [(37, [CStartField], 44),
      (78, [CConnClose, CStartField], 44)]"
  "snd client_chunk_10 = []"
  "snd client_chunk_11 = []"
  "snd client_chunk_12 =
     [(96, [CStartValue], 61),
      (95, [CWriteField], 61),
      (97, [CStartValue, CWriteValue], 62)]"
  "snd client_chunk_13 =
     [(104, [CStartValue], 64),
      (112, [CWriteValue], 71),
      (101, [CDone], 121)]"
  "snd client_chunk_14 =
     [(103, [CStartValue, CStartField], 73)]"
  "snd client_chunk_15 =
     [(98, [CStartValue, CWriteValue], 80),
      (99, [CStartValue], 81)]"
  "snd client_chunk_16 =
     [(137, [CWriteValue], 88),
      (64, [CDone], 122),
      (66, [CStartField], 90)]"
  "snd client_chunk_17 = []"
  "snd client_chunk_18 =
     [(61, [CStartValue, CWriteValue], 95),
      (62, [CStartValue], 96)]"
  "snd client_chunk_19 = []"
  "snd client_chunk_20 =
     [(149, [CStartValue], 112),
      (148, [CWriteField], 112)]"
  "snd client_chunk_21 =
     [(150, [CStartValue, CWriteValue], 113),
      (157, [CStartValue], 115),
      (154, [CDone], 123),
      (156, [CStartValue, CStartField], 117)]"
  "snd client_chunk_22 =
     [(151, [CStartValue, CWriteValue], 118),
      (152, [CStartValue], 119)]"
  unfolding client_chunk_1_def client_chunk_2_def client_chunk_3_def client_chunk_4_def client_chunk_5_def client_chunk_6_def
    client_chunk_7_def client_chunk_8_def client_chunk_9_def client_chunk_10_def client_chunk_11_def client_chunk_12_def
    client_chunk_13_def client_chunk_14_def client_chunk_15_def client_chunk_16_def client_chunk_17_def client_chunk_18_def
    client_chunk_19_def client_chunk_20_def client_chunk_21_def client_chunk_22_def
  by (rule snd_conv)+

lemma client_trans:
  "find_trans client_index 0 = Some ([CMark], 2)"
  "find_trans client_index 3 = Some ([CChunkSize, CDone], 120)"
  "find_trans client_index 7 = Some ([CDone], 120)"
  "find_trans client_index 9 = Some ([CWriteField, CStartValue, CWriteValue, CDone], 120)"
  "find_trans client_index 15 = Some ([CWriteValue, CDone], 120)"
  "find_trans client_index 74 = Some ([CConnClose, CDone], 120)"
  "find_trans client_index 4 = Some ([CChunkSize], 3)"
  "find_trans client_index 10 = Some ([CWriteField, CStartValue, CWriteValue], 3)"
  "find_trans client_index 16 = Some ([CWriteValue], 3)"
  "find_trans client_index 75 = Some ([CConnClose], 3)"
  "find_trans client_index 6 = Some ([CChunkSize], 4)"
  "find_trans client_index 12 = Some ([CWriteField, CStartValue, CWriteValue], 4)"
  "find_trans client_index 18 = Some ([CWriteValue], 4)"
  "find_trans client_index 8 = Some ([CStartField], 5)"
  "find_trans client_index 13 = Some ([CWriteField, CStartValue], 6)"
  "find_trans client_index 14 = Some ([CStartValue], 7)"
  "find_trans client_index 2 = Some ([CMark], 8)"
  "find_trans client_index 26 = Some ([CHttpVersion], 16)"
  "find_trans client_index 27 = Some ([CMark], 17)"
  "find_trans client_index 28 = Some ([CStatusCode], 18)"
  "find_trans client_index 30 = Some ([CMark], 19)"
  "find_trans client_index 45 = Some ([CWriteValue], 20)"
  "find_trans client_index 32 = Some ([CReasonPhrase], 20)"
  "find_trans client_index 42 = Some ([CStartValue, CWriteValue], 20)"
  "find_trans client_index 111 = Some ([CWriteValue, CTransferChunked], 20)"
  "find_trans client_index 113 = Some ([CTransferChunked], 20)"
  "find_trans client_index 158 = Some ([CContentLength, CWriteValue], 20)"
  "find_trans client_index 35 = Some ([CStartField], 21)"
  "find_trans client_index 76 = Some ([CConnClose, CStartField], 21)"
  "find_trans client_index 41 = Some ([CStartValue], 22)"
  "find_trans client_index 39 = Some ([CWriteField], 22)"
  "find_trans client_index 40 = Some ([CStartValue], 23)"
  "find_trans client_index 46 = Some ([CWriteValue], 24)"
  "find_trans client_index 33 = Some ([CReasonPhrase], 24)"
  "find_trans client_index 43 = Some ([CStartValue, CWriteValue], 24)"
  "find_trans client_index 159 = Some ([CContentLength, CWriteValue], 24)"
  "find_trans client_index 36 = Some ([CStartField], 25)"
  "find_trans client_index 77 = Some ([CConnClose, CStartField], 25)"
  "find_trans client_index 59 = Some ([CStartValue], 35)"
  "find_trans client_index 58 = Some ([CWriteField], 35)"
  "find_trans client_index 60 = Some ([CStartValue, CWriteValue], 36)"
  "find_trans client_index 136 = Some ([CWriteValue], 43)"
  "find_trans client_index 37 = Some ([CStartField], 44)"
  "find_trans client_index 78 = Some ([CConnClose, CStartField], 44)"
  "find_trans client_index 96 = Some ([CStartValue], 61)"
  "find_trans client_index 95 = Some ([CWriteField], 61)"
  "find_trans client_index 97 = Some ([CStartValue, CWriteValue], 62)"
  "find_trans client_index 104 = Some ([CStartValue], 64)"
  "find_trans client_index 112 = Some ([CWriteValue], 71)"
  "find_trans client_index 101 = Some ([CDone], 121)"
  "find_trans client_index 103 = Some ([CStartValue, CStartField], 73)"
  "find_trans client_index 98 = Some ([CStartValue, CWriteValue], 80)"
  "find_trans client_index 99 = Some ([CStartValue], 81)"
  "find_trans client_index 137 = Some ([CWriteValue], 88)"
  "find_trans client_index 64 = Some ([CDone], 122)"
  "find_trans client_index 66 = Some ([CStartField], 90)"
  "find_trans client_index 61 = Some ([CStartValue, CWriteValue], 95)"
  "find_trans client_index 62 = Some ([CStartValue], 96)"
  "find_trans client_index 149 = Some ([CStartValue], 112)"
  "find_trans client_index 148 = Some ([CWriteField], 112)"
  "find_trans client_index 150 = Some ([CStartValue, CWriteValue], 113)"
  "find_trans client_index 157 = Some ([CStartValue], 115)"
  "find_trans client_index 154 = Some ([CDone], 123)"
  "find_trans client_index 156 = Some ([CStartValue, CStartField], 117)"
  "find_trans client_index 151 = Some ([CStartValue, CWriteValue], 118)"
  "find_trans client_index 152 = Some ([CStartValue], 119)"
  by (simp_all add: client_index_def client_trans_of)

lemma client_closed:
  "chunk_closed client_index 123 client_chunk_1"
  "chunk_closed client_index 123 client_chunk_2"
  "chunk_closed client_index 123 client_chunk_3"
  "chunk_closed client_index 123 client_chunk_4"
  "chunk_closed client_index 123 client_chunk_5"
  "chunk_closed client_index 123 client_chunk_6"
  "chunk_closed client_index 123 client_chunk_7"
  "chunk_closed client_index 123 client_chunk_8"
  "chunk_closed client_index 123 client_chunk_9"
  "chunk_closed client_index 123 client_chunk_10"
  "chunk_closed client_index 123 client_chunk_11"
  "chunk_closed client_index 123 client_chunk_12"
  "chunk_closed client_index 123 client_chunk_13"
  "chunk_closed client_index 123 client_chunk_14"
  "chunk_closed client_index 123 client_chunk_15"
  "chunk_closed client_index 123 client_chunk_16"
  "chunk_closed client_index 123 client_chunk_17"
  "chunk_closed client_index 123 client_chunk_18"
  "chunk_closed client_index 123 client_chunk_19"
  "chunk_closed client_index 123 client_chunk_20"
  "chunk_closed client_index 123 client_chunk_21"
  "chunk_closed client_index 123 client_chunk_22"
  by (simp_all add: chunk_closed_def goto_closed_def client_trans
    client_chunk_1_def client_chunk_2_def client_chunk_3_def client_chunk_4_def client_chunk_5_def client_chunk_6_def
    client_chunk_7_def client_chunk_8_def client_chunk_9_def client_chunk_10_def client_chunk_11_def client_chunk_12_def
    client_chunk_13_def client_chunk_14_def client_chunk_15_def client_chunk_16_def client_chunk_17_def client_chunk_18_def
    client_chunk_19_def client_chunk_20_def client_chunk_21_def client_chunk_22_def)

lemma client_chunk_states: "list_all (\<lambda>(ss, ts, c). map fst (fst c) = ss) client_index"
  by (simp add: client_index_def
    client_chunk_1_def
    client_chunk_2_def
    client_chunk_3_def
    client_chunk_4_def
    client_chunk_5_def
    client_chunk_6_def
    client_chunk_7_def
    client_chunk_8_def
    client_chunk_9_def
    client_chunk_10_def
    client_chunk_11_def
    client_chunk_12_def
    client_chunk_13_def
    client_chunk_14_def
    client_chunk_15_def
    client_chunk_16_def
    client_chunk_17_def
    client_chunk_18_def
    client_chunk_19_def
    client_chunk_20_def
    client_chunk_21_def
    client_chunk_22_def)

lemma client_chunks_closed: "list_all (\<lambda>(ss, ts, c). chunk_closed client_index 123 c) client_index"
proof -
  have "list_all (chunk_closed client_index 123) (map (snd \<circ> snd) client_index)"
    by (subst client_index_def) (simp add: client_closed)
  then show ?thesis by (simp add: list_all_iff split_beta)
qed

lemma client_states: "123 < next_missing 1 (concat (map fst client_index) @ concat (map fst client_index))"
  by (simp add: client_index_def)

interpretation client_tab: closed_table client_index 123
proof (rule index_closed_table)
  show "index_closed client_index 123"
    using client_chunk_states client_chunks_closed client_states by (simp add: index_closed_def list_all_iff split_beta)
qed

end
