(* ===== verification/Http_Client_Parser.thy ===== *)
theory Http_Client_Parser
  imports Client_Table Http_Request_Wire
begin

text \<open>
  The response parser: \<open>httpclient_parser_init\<close>, \<open>httpclient_parser_execute\<close> and their companions of
  \<open>src/http/httpclient_parser_rl.cpp\<close> over the table of \<open>Client_Table\<close>, and the callbacks and the
  class \<open>HttpResponseParser\<close> of \<open>src/http/http_parser.cpp\<close>. The conventions are those of \<open>Http_Parser\<close>.
\<close>

subsection \<open>Numbers\<close>

text \<open>
  \<open>strtol(s, NULL, base)\<close> for the bases 10 and 16: blanks, a sign, for base 16 the prefix \<open>0x\<close> when a digit
  follows it, then digits; a value out of range becomes the nearest \<open>long\<close>.
\<close>

definition isspace :: "char \<Rightarrow> bool" where
  "isspace c \<longleftrightarrow> 9 \<le> char_code c \<and> char_code c \<le> 13 \<or> char_code c = 32"

definition digit_of :: "nat \<Rightarrow> char \<Rightarrow> nat option" where
  "digit_of base c =
    (let n = char_code c;
         d = (if 48 \<le> n \<and> n \<le> 57 then n - 48 else if 65 \<le> n \<and> n \<le> 90 then n - 55
              else if 97 \<le> n \<and> n \<le> 122 then n - 87 else base)
     in if d < base then Some d else None)"

definition digits_value :: "nat \<Rightarrow> string \<Rightarrow> nat" where
  "digits_value base s =
    foldl (\<lambda>n c. n * base + the (digit_of base c)) 0 (takeWhile (\<lambda>c. digit_of base c \<noteq> None) s)"

definition skip_prefix :: "nat \<Rightarrow> string \<Rightarrow> string" where
  "skip_prefix base s =
    (case s of
       z # x # d # s' \<Rightarrow>
         if base = 16 \<and> z = CHR ''0'' \<and> (x = CHR ''x'' \<or> x = CHR ''X'') \<and> digit_of 16 d \<noteq> None then d # s' else s
     | _ \<Rightarrow> s)"

definition split_sign :: "string \<Rightarrow> bool \<times> string" where
  "split_sign s =
    (case s of
       [] \<Rightarrow> (False, s)
     | c # t \<Rightarrow> if c = CHR ''-'' then (True, t) else if c = CHR ''+'' then (False, t) else (False, s))"

definition strtol :: "nat \<Rightarrow> string \<Rightarrow> int" where
  "strtol base s =
    (let (negative, s) = split_sign (dropWhile isspace (c_str s));
         v = int (digits_value base (skip_prefix base s));
         v = (if negative then - v else v)
     in max (- (2 ^ 63)) (min (2 ^ 63 - 1) v))"

text \<open>The conversions of a \<open>long\<close> to \<open>int\<close>, and \<open>atoi\<close>.\<close>

definition long_to_int :: "int \<Rightarrow> int" where
  "long_to_int v = signed_take_bit 31 v"

definition atoi :: "string \<Rightarrow> int" where
  "atoi s = long_to_int (strtol 10 s)"

subsection \<open>The parser\<close>

record httpclient_parser =
  cp_cs :: nat
  cp_body_start :: nat
  cp_content_len :: int
  cp_status :: int
  cp_chunked :: bool
  cp_chunks_done :: bool
  cp_close :: bool
  cp_nread :: nat
  cp_mark :: nat
  cp_field_start :: nat
  cp_field_len :: nat

record 'd client_callbacks =
  cc_http_field :: "'d field_cb option"
  cc_reason_phrase :: "'d element_cb option"
  cc_status_code :: "'d element_cb option"
  cc_chunk_size :: "'d element_cb option"
  cc_http_version :: "'d element_cb option"
  cc_header_done :: "'d element_cb option"
  cc_last_chunk :: "'d element_cb option"

text \<open>\<open>status\<close> is not set.\<close>

definition httpclient_parser_init :: "httpclient_parser \<Rightarrow> httpclient_parser" where
  "httpclient_parser_init cp =
    cp\<lparr>cp_cs := 1, cp_body_start := 0, cp_content_len := - 1, cp_chunked := False, cp_chunks_done := False,
       cp_mark := 0, cp_nread := 0, cp_field_len := 0, cp_field_start := 0, cp_close := False\<rparr>"

definition httpclient_parser_has_error :: "httpclient_parser \<Rightarrow> bool" where
  "httpclient_parser_has_error cp \<longleftrightarrow> cp_cs cp = 0"

definition httpclient_parser_is_finished :: "httpclient_parser \<Rightarrow> bool" where
  "httpclient_parser_is_finished cp \<longleftrightarrow> cp_cs cp = 120"

definition httpclient_parser_finish :: "httpclient_parser \<Rightarrow> int" where
  "httpclient_parser_finish cp =
    (if httpclient_parser_has_error cp then - 1 else if httpclient_parser_is_finished cp then 1 else 0)"

definition call_client ::
    "'d element_cb option \<Rightarrow> string \<Rightarrow> nat \<Rightarrow> nat \<Rightarrow> httpclient_parser \<times> 'd \<Rightarrow> parse_error + httpclient_parser \<times> 'd"
  where
  "call_client cb buffer at len s =
    (case cb of None \<Rightarrow> Inr s | Some f \<Rightarrow> bindR (f buffer at len (snd s)) (\<lambda>d. Inr (fst s, d)))"

fun client_do ::
    "'d client_callbacks \<Rightarrow> string \<Rightarrow> nat \<Rightarrow> client_action \<Rightarrow> nat \<Rightarrow> httpclient_parser \<times> 'd \<Rightarrow>
      parse_error + httpclient_parser \<times> 'd" where
  "client_do cb buffer pe CMark p (cp, d) = Inr (cp\<lparr>cp_mark := p\<rparr>, d)"
| "client_do cb buffer pe CStartField p (cp, d) = Inr (cp\<lparr>cp_field_start := p\<rparr>, d)"
| "client_do cb buffer pe CWriteField p (cp, d) = Inr (cp\<lparr>cp_field_len := usub64 p (cp_field_start cp)\<rparr>, d)"
| "client_do cb buffer pe CStartValue p (cp, d) = Inr (cp\<lparr>cp_mark := p\<rparr>, d)"
| "client_do cb buffer pe CContentLength p (cp, d) =
    Inr (cp\<lparr>cp_content_len := long_to_int (strtol 10 (drop (cp_mark cp) buffer))\<rparr>, d)"
| "client_do cb buffer pe CConnClose p (cp, d) = Inr (cp\<lparr>cp_close := True\<rparr>, d)"
| "client_do cb buffer pe CWriteValue p (cp, d) =
    (case cc_http_field cb of
       None \<Rightarrow> Inr (cp, d)
     | Some f \<Rightarrow>
         bindR (f buffer (cp_field_start cp) (cp_field_len cp) (cp_mark cp) (usub64 p (cp_mark cp)) d)
           (\<lambda>d. Inr (cp, d)))"
| "client_do cb buffer pe CReasonPhrase p (cp, d) =
    call_client (cc_reason_phrase cb) buffer (cp_mark cp) (usub64 p (cp_mark cp)) (cp, d)"
| "client_do cb buffer pe CStatusCode p (cp, d) =
    call_client (cc_status_code cb) buffer (cp_mark cp) (usub64 p (cp_mark cp))
      (cp\<lparr>cp_status := long_to_int (strtol 10 (drop (cp_mark cp) buffer))\<rparr>, d)"
| "client_do cb buffer pe CHttpVersion p (cp, d) =
    call_client (cc_http_version cb) buffer (cp_mark cp) (usub64 p (cp_mark cp)) (cp, d)"
| "client_do cb buffer pe CChunkSize p (cp, d) =
    (let n = long_to_int (strtol 16 (drop (cp_mark cp) buffer));
         cp = cp\<lparr>cp_chunked := True, cp_content_len := n, cp_chunks_done := (n \<le> 0)\<rparr>
     in if cp_chunks_done cp \<and> cc_last_chunk cb \<noteq> None
        then call_client (cc_last_chunk cb) buffer (cp_mark cp) (usub64 p (cp_mark cp)) (cp, d)
        else call_client (cc_chunk_size cb) buffer (cp_mark cp) (usub64 p (cp_mark cp)) (cp, d))"
| "client_do cb buffer pe CTransferChunked p (cp, d) = Inr (cp\<lparr>cp_chunked := True\<rparr>, d)"
| "client_do cb buffer pe CDone p (cp, d) =
    call_client (cc_header_done cb) buffer (p + 1) (usub64 pe (p + 1)) (cp\<lparr>cp_body_start := p + 1\<rparr>, d)"

definition client_machine ::
    "'d client_callbacks \<Rightarrow> string \<Rightarrow> nat \<Rightarrow> (client_action, parse_error + httpclient_parser \<times> 'd) machine" where
  "client_machine cb buffer pe =
    \<lparr>m_index = client_index, m_stop = (\<lambda>a. a = CDone),
     m_act = (\<lambda>a p s. bindR s (client_do cb buffer pe a p))\<rparr>"

text \<open>
  The result is an \<open>int\<close>; a failed \<open>check\<close> gives \<open>-1\<close>. The byte behind the received ones is read and has
  to be NUL.
\<close>

definition httpclient_parser_execute ::
    "'d client_callbacks \<Rightarrow> string \<Rightarrow> nat \<Rightarrow> nat \<Rightarrow> httpclient_parser \<Rightarrow> 'd \<Rightarrow>
      parse_error + int \<times> httpclient_parser \<times> 'd" where
  "httpclient_parser_execute cb buffer len off cp d =
    (let cp = cp\<lparr>cp_nread := 0, cp_mark := 0, cp_field_len := 0, cp_field_start := 0\<rparr>
     in if len < off then Inl AssertFailed
        else if length buffer \<le> len then Inl OutOfBuffer
        else if buffer ! len \<noteq> CHR 0x00 \<or> \<not> same_distance len off then Inl AssertFailed
        else
          case machine_run (client_machine cb buffer len) False (cp_cs cp) off
                 (drop off (take len buffer)) (Inr (cp, d)) of
            (cs, p, s) \<Rightarrow>
              bindR s (\<lambda>(cp, d).
                let cp = cp\<lparr>cp_cs := cs, cp_nread := cp_nread cp + (p - off)\<rparr>
                in if cp_nread cp \<le> len \<and> cp_body_start cp \<le> len then
                     if cp_mark cp < len \<and> cp_field_len cp \<le> len \<and> cp_field_start cp < len
                     then Inr (int (cp_nread cp), cp, d) else Inr (- 1, cp, d)
                   else Inl AssertFailed))"

subsection \<open>The callbacks\<close>

type_synonym response_sink = "http_response \<times> int"

definition on_response_reason :: "response_sink element_cb" where
  "on_response_reason buffer at len d =
    bindR (std_string buffer at len) (\<lambda>v. Inr ((fst d)\<lparr>rs_reason := v\<rparr>, snd d))"

definition on_response_status :: "response_sink element_cb" where
  "on_response_status buffer at len d = Inr ((fst d)\<lparr>rs_status := atoi (drop at buffer)\<rparr>, snd d)"

definition on_response_chunk :: "response_sink element_cb" where
  "on_response_chunk buffer at len d = Inr d"

definition on_response_version :: "response_sink element_cb" where
  "on_response_version buffer at len d =
    (if strncmp_eq (drop at buffer) ''HTTP/1.1'' len then Inr ((fst d)\<lparr>rs_version := 0x11\<rparr>, snd d)
     else if strncmp_eq (drop at buffer) ''HTTP/1.0'' len then Inr ((fst d)\<lparr>rs_version := 0x10\<rparr>, snd d)
     else bindR (std_string buffer at len) (\<lambda>_. Inr (fst d, 1001)))"

definition on_response_header_done :: "response_sink element_cb" where
  "on_response_header_done buffer at len d = Inr d"

definition on_response_last_chunk :: "response_sink element_cb" where
  "on_response_last_chunk buffer at len d = Inr d"

definition on_response_http_field :: "response_sink field_cb" where
  "on_response_http_field buffer field flen value vlen d =
    (if flen = 0 then Inr d
     else bindR (std_string buffer field flen) (\<lambda>k.
          bindR (std_string buffer value vlen) (\<lambda>v. Inr (rs_setHeader (fst d) k v, snd d))))"

definition response_callbacks :: "response_sink client_callbacks" where
  "response_callbacks =
    \<lparr>cc_http_field = Some on_response_http_field, cc_reason_phrase = Some on_response_reason,
     cc_status_code = Some on_response_status, cc_chunk_size = Some on_response_chunk,
     cc_http_version = Some on_response_version, cc_header_done = Some on_response_header_done,
     cc_last_chunk = Some on_response_last_chunk\<rparr>"

subsection \<open>The class \<open>HttpResponseParser\<close>\<close>

record response_parser =
  qp_parser :: httpclient_parser
  qp_data :: http_response
  qp_error :: int

definition new_response_parser :: "httpclient_parser \<Rightarrow> response_parser" where
  "new_response_parser raw =
    \<lparr>qp_parser = httpclient_parser_init raw, qp_data = new_response 0x11 True, qp_error = 0\<rparr>"

definition qp_isFinished :: "response_parser \<Rightarrow> int" where
  "qp_isFinished qp = httpclient_parser_finish (qp_parser qp)"

definition qp_hasError :: "response_parser \<Rightarrow> bool" where
  "qp_hasError qp \<longleftrightarrow> qp_error qp \<noteq> 0 \<or> httpclient_parser_has_error (qp_parser qp)"

definition qp_setError :: "int \<Rightarrow> response_parser \<Rightarrow> response_parser" where
  "qp_setError v qp = qp\<lparr>qp_error := v\<rparr>"

text \<open>
  \<open>execute\<close>. The \<open>-1\<close> of a failed check becomes a \<open>size_t\<close>: the copy begins one byte before the buffer.
\<close>

definition qp_execute ::
    "string \<Rightarrow> nat \<Rightarrow> bool \<Rightarrow> response_parser \<Rightarrow> parse_error + nat \<times> string \<times> response_parser" where
  "qp_execute data len chunck qp =
    (let cp = (if chunck then httpclient_parser_init (qp_parser qp) else qp_parser qp)
     in bindR (httpclient_parser_execute response_callbacks data len 0 cp (qp_data qp, qp_error qp))
          (\<lambda>(n, cp, rs, err).
            if n < 0 then Inl OutOfBuffer
            else Inr (nat n, memmove_down data (nat n) len, \<lparr>qp_parser = cp, qp_data = rs, qp_error = err\<rparr>)))"

text \<open>\<open>cast\<close> is \<open>boost::lexical_cast<uint64_t>\<close>.\<close>

definition qp_getContentLength :: "(string \<Rightarrow> u64 option) \<Rightarrow> response_parser \<Rightarrow> u64" where
  "qp_getContentLength cast qp = rs_getHeaderAs cast (qp_data qp) ''content-length'' 0"

subsection \<open>The size line of a chunk\<close>

abbreviation client_reader ::
    "string \<Rightarrow> nat \<Rightarrow> (client_action, parse_error + httpclient_parser \<times> response_sink) machine" where
  "client_reader B e \<equiv> client_machine response_callbacks B e"

lemma client_reader_simps [simp]:
  "m_index (client_reader B e) = client_index"
  "m_stop (client_reader B e) a \<longleftrightarrow> a = CDone"
  "m_act (client_reader B e) a p (Inr s) = client_do response_callbacks B e a p s"
  by (simp_all add: client_machine_def)

lemmas client_step =
  run_goes [where M = "client_machine response_callbacks B e" for B e, unfolded client_reader_simps(1)]

lemma client_callback_simps [simp]:
  "cc_http_field response_callbacks = Some on_response_http_field"
  "cc_reason_phrase response_callbacks = Some on_response_reason"
  "cc_status_code response_callbacks = Some on_response_status"
  "cc_chunk_size response_callbacks = Some on_response_chunk"
  "cc_http_version response_callbacks = Some on_response_version"
  "cc_header_done response_callbacks = Some on_response_header_done"
  "cc_last_chunk response_callbacks = Some on_response_last_chunk"
  by (simp_all add: response_callbacks_def)

lemma chunk_goes:
  "goes client_index 1 hex_class (Tr 0)" "goes client_index 2 hex_class (St 2)"
  "goes client_index 2 [(13, 13)] (Tr 4)" "goes client_index 3 [(10, 10)] (Tr 7)"
  by (simp_all add: goes_def hex_class_def client_index_def)
    (simp_all add: client_chunk_1_def client_chunk_2_def)

lemma hex_char_digit:
  assumes "in_class hex_class c"
  shows "digit_of 16 c \<noteq> None" "\<not> isspace c" "c \<noteq> CHR 0x00" "c \<noteq> CHR ''-''" "c \<noteq> CHR ''+''"
    "c \<noteq> CHR ''x''" "c \<noteq> CHR ''X''"
proof -
  have "48 \<le> char_code c \<and> char_code c \<le> 57 \<or> 65 \<le> char_code c \<and> char_code c \<le> 70 \<or>
      97 \<le> char_code c \<and> char_code c \<le> 102"
    using assms char_code_less [of c] by (auto simp: in_class_def hex_class_def char_value_def split: if_splits)
  then show "digit_of 16 c \<noteq> None" "\<not> isspace c" "c \<noteq> CHR 0x00" "c \<noteq> CHR ''-''" "c \<noteq> CHR ''+''"
      "c \<noteq> CHR ''x''" "c \<noteq> CHR ''X''"
    by (auto simp: digit_of_def isspace_def char_code_def Let_def)
qed

lemma strtol_hex:
  assumes "hex \<noteq> []" "list_all (in_class hex_class) hex"
  shows "strtol 16 (hex @ crlf @ rest) = min (2 ^ 63 - 1) (int (digits_value 16 hex))"
proof -
  let ?t = "hex @ CR # LF # c_str rest"
  obtain c hex' where hex: "hex = c # hex'" using assms(1) by (cases hex) auto
  have digits: "\<And>x. x \<in> set hex \<Longrightarrow> in_class hex_class x" using assms(2) by (simp add: list_all_iff)
  have "c_str (hex @ crlf @ rest) = hex @ c_str (crlf @ rest)"
    using hex_char_digit(3) digits by (intro c_str_append c_str_nul_free) blast
  then have "c_str (hex @ crlf @ rest) = ?t" by (simp add: crlf_def c_str_def)
  moreover have "dropWhile isspace ?t = ?t" using hex digits hex_char_digit(2) by simp
  moreover have "split_sign ?t = (False, ?t)"
    using hex digits hex_char_digit(4,5) by (auto simp: split_sign_def)
  moreover have "skip_prefix 16 ?t = ?t"
    using hex digits hex_char_digit(6,7) by (cases hex') (auto simp: skip_prefix_def split: list.split)
  moreover have "digit_of 16 CR = None" by (simp add: digit_of_def char_code_def)
  then have "takeWhile (\<lambda>c. digit_of 16 c \<noteq> None) ?t = takeWhile (\<lambda>c. digit_of 16 c \<noteq> None) hex"
    using hex_char_digit(1) digits by (subst takeWhile_append2) (auto simp: takeWhile_eq_all_conv [THEN iffD2])
  then have "digits_value 16 ?t = digits_value 16 hex" by (simp add: digits_value_def)
  ultimately show ?thesis by (simp add: strtol_def)
qed

lemma chunk_run:
  assumes hex: "hex \<noteq> []" "list_all (in_class hex_class) hex"
    and B: "B = hex @ crlf @ rest"
  shows "machine_run (client_reader B e) w 1 0 (hex @ crlf @ buf) (Inr (cp, d)) =
    (120, length hex + 2,
      (let n = long_to_int (min (2 ^ 63 - 1) (int (digits_value 16 hex)))
       in Inr (cp\<lparr>cp_mark := 0, cp_chunked := True, cp_content_len := n, cp_chunks_done := (n \<le> 0),
                  cp_body_start := length hex + 2\<rparr>, d)))"
proof -
  obtain c hex' where c: "hex = c # hex'" using hex(1) by (cases hex) auto
  have loop: "machine_run (client_reader B e) w 2 (Suc 0) (hex' @ CR # LF # buf) s =
      machine_run (client_reader B e) w 2 (Suc 0 + length hex') (CR # LF # buf) s" for s
    using hex(2) c by (intro run_class [where cls = hex_class]) (simp_all add: chunk_goes)
  have "strtol 16 B = min (2 ^ 63 - 1) (int (digits_value 16 hex))" using strtol_hex [OF hex] B by simp
  with c hex loop show ?thesis
    by (auto simp: crlf_def chunk_goes [THEN client_step] client_trans call_client_def Let_def
        on_response_last_chunk_def on_response_chunk_def on_response_header_done_def simp del: One_nat_def)
qed

lemma chunk_execute:
  assumes hex: "hex \<noteq> []" "list_all (in_class hex_class) hex"
    and data: "data = hex @ crlf @ rest @ CHR 0x00 # junk" and len: "len = length hex + 2 + length rest" and small: "len < int_limit"
  shows "\<exists>data' qp'. qp_execute data len True qp = Inr (length hex + 2, data', qp') \<and>
    cp_cs (qp_parser qp') = 120 \<and> qp_data qp' = qp_data qp \<and> qp_error qp' = qp_error qp \<and>
    cp_chunked (qp_parser qp') \<and>
    cp_content_len (qp_parser qp') = long_to_int (min (2 ^ 63 - 1) (int (digits_value 16 hex))) \<and>
    (cp_chunks_done (qp_parser qp') \<longleftrightarrow> cp_content_len (qp_parser qp') \<le> 0) \<and>
    take (length rest) data' = rest \<and> length data' = length data"
proof -
  have "take len data = hex @ crlf @ rest" "data ! len = CHR 0x00" "len < length data"
    by (simp_all add: data len crlf_def nth_append)
  moreover have "drop (length hex + 2) data = rest @ CHR 0x00 # junk" by (simp add: data crlf_def)
  moreover have "nat (2 + int (length hex)) = Suc (Suc (length hex))" by arith
  moreover have "same_distance (length hex + 2 + length rest) 0" using same_distance_small [OF _ small] len by simp
  ultimately show ?thesis
    using chunk_run [OF hex data, of len False rest] hex(1)
    by (simp add: qp_execute_def httpclient_parser_execute_def httpclient_parser_init_def Let_def len
        memmove_down_def)
qed

end
