(* ===== verification/Http_Response_Pieces.thy ===== *)
theory Http_Response_Pieces
  imports Http_Client_Parser
begin

text \<open>
  What the response parser makes of the pieces of an answer: the size line of a chunk is read exactly, for
  the sizes that fit an \<open>int\<close>. Then two ways in which a server's answer takes the response parser out of its bounds. The grammar allows a
  line feed among the blanks before a field's value, and a lone line feed as the end of a line: behind
  \<open>Content-Length:\<close> and a line feed, the table follows a value and a new field at once.
\<close>

subsection \<open>The steps\<close>

lemma fault_goes:
  "goes client_index 1 [(72, 72)] (Tr 2)" "goes client_index 8 [(84, 84)] (St 9)"
  "goes client_index 9 [(84, 84)] (St 10)" "goes client_index 10 [(80, 80)] (St 11)"
  "goes client_index 11 [(47, 47)] (St 12)" "goes client_index 12 [(49, 49)] (St 13)"
  "goes client_index 13 [(46, 46)] (St 14)" "goes client_index 14 [(49, 49)] (St 15)"
  "goes client_index 15 [(32, 32)] (Tr 26)" "goes client_index 16 [(50, 50)] (Tr 27)"
  "goes client_index 17 [(48, 48)] (St 17)" "goes client_index 17 [(32, 32)] (Tr 28)"
  "goes client_index 18 [(79, 79)] (Tr 30)" "goes client_index 19 [(75, 75)] (St 19)"
  "goes client_index 19 [(13, 13)] (Tr 33)" "goes client_index 24 [(10, 10)] (St 20)"
  "goes client_index 20 [(67, 67)] (Tr 36)" "goes client_index 25 [(111, 111)] (St 26)"
  "goes client_index 26 [(110, 110)] (St 27)" "goes client_index 27 [(116, 116)] (St 101)"
  "goes client_index 101 [(101, 101)] (St 102)" "goes client_index 102 [(110, 110)] (St 103)"
  "goes client_index 103 [(116, 116)] (St 104)" "goes client_index 104 [(45, 45)] (St 105)"
  "goes client_index 105 [(76, 76)] (St 106)" "goes client_index 106 [(101, 101)] (St 107)"
  "goes client_index 107 [(110, 110)] (St 108)" "goes client_index 108 [(103, 103)] (St 109)"
  "goes client_index 109 [(116, 116)] (St 110)" "goes client_index 110 [(104, 104)] (St 111)"
  "goes client_index 111 [(58, 58)] (Tr 148)" "goes client_index 112 [(10, 10)] (Tr 150)"
  "goes client_index 113 [(53, 53)] (Tr 156)" "goes client_index 117 [(13, 13)] (Tr 159)"
  "goes client_index 113 [(10, 10)] (Tr 154)" "goes client_index 123 [(32, 32)] (St 114)"
  by (simp_all add: goes_def client_index_def)
    (simp_all add: client_chunk_1_def client_chunk_3_def client_chunk_4_def client_chunk_5_def client_chunk_6_def client_chunk_18_def client_chunk_19_def client_chunk_20_def client_chunk_21_def)

lemma fault_chars:
  "in_class [(10, 10)] LF" "in_class [(13, 13)] CR" "in_class [(32, 32)] (CHR '' '')"
  "in_class [(45, 45)] (CHR ''-'')" "in_class [(46, 46)] (CHR ''.'')" "in_class [(47, 47)] (CHR ''/'')"
  "in_class [(48, 48)] (CHR ''0'')" "in_class [(49, 49)] (CHR ''1'')" "in_class [(50, 50)] (CHR ''2'')"
  "in_class [(53, 53)] (CHR ''5'')" "in_class [(58, 58)] (CHR '':'')" "in_class [(67, 67)] (CHR ''C'')"
  "in_class [(72, 72)] (CHR ''H'')" "in_class [(75, 75)] (CHR ''K'')" "in_class [(76, 76)] (CHR ''L'')"
  "in_class [(79, 79)] (CHR ''O'')" "in_class [(80, 80)] (CHR ''P'')" "in_class [(84, 84)] (CHR ''T'')"
  "in_class [(101, 101)] (CHR ''e'')" "in_class [(103, 103)] (CHR ''g'')" "in_class [(104, 104)] (CHR ''h'')"
  "in_class [(110, 110)] (CHR ''n'')" "in_class [(111, 111)] (CHR ''o'')" "in_class [(116, 116)] (CHR ''t'')"
  by (simp_all add: in_class_def char_value_def char_code_def)

definition answer_head :: string where
  "answer_head = ''HTTP/1.1 200 OK'' @ crlf @ ''Content-Length:'' @ [LF]"

definition answer_parser :: "httpclient_parser \<Rightarrow> httpclient_parser" where
  "answer_parser cp = cp\<lparr>cp_status := 200, cp_field_start := 17, cp_field_len := 14, cp_mark := 32\<rparr>"

lemma answer_head_text:
  "answer_head = [CHR ''H'', CHR ''T'', CHR ''T'', CHR ''P'', CHR ''/'', CHR ''1'', CHR ''.'', CHR ''1'', CHR '' '',
     CHR ''2'', CHR ''0'', CHR ''0'', CHR '' '', CHR ''O'', CHR ''K'', CR, LF,
     CHR ''C'', CHR ''o'', CHR ''n'', CHR ''t'', CHR ''e'', CHR ''n'', CHR ''t'', CHR ''-'',
     CHR ''L'', CHR ''e'', CHR ''n'', CHR ''g'', CHR ''t'', CHR ''h'', CHR '':'', LF]"
  by (simp add: answer_head_def crlf_def)

text \<open>Up to the line feed behind the colon, whatever the callbacks do.\<close>

lemma answer_run:
  assumes "on_response_version B 0 8 d = Inr d1" "on_response_status B 9 3 d1 = Inr d2"
    "on_response_reason B 13 2 d2 = Inr d3" "on_response_http_field B 17 14 32 0 d3 = Inr d4"
    "strtol 10 (drop 9 B) = 200"
  shows "machine_run (client_reader B e) w 1 0 (answer_head @ tl') (Inr (cp, d)) =
    machine_run (client_reader B e) w 113 33 tl' (Inr (answer_parser cp, d4))"
  using assms
  by (simp add: answer_head_text fault_goes [THEN client_step] fault_chars client_trans call_client_def
      long_to_int_def answer_parser_def One_nat_def [symmetric] del: One_nat_def)


text \<open>What the callbacks do with a buffer that begins with the answer.\<close>

definition answer_response :: http_response where
  "answer_response = (new_response 0x11 True)\<lparr>rs_reason := ''OK'', rs_headers := [(''Content-Length'', [])]\<rparr>"

lemma first_header: "omap_put CaseInsensitiveLess ''Content-Length'' [] [] = [(''Content-Length'', [] :: string)]"
  by code_simp

lemma answer_callbacks:
  assumes "B = answer_head @ tl'" "length B \<le> max_string"
  shows "on_response_version B 0 8 (new_response 0x11 True, 0) = Inr (new_response 0x11 True, 0)"
    "on_response_status B 9 3 (new_response 0x11 True, 0) = Inr (new_response 0x11 True, 0)"
    "on_response_reason B 13 2 (new_response 0x11 True, 0) = Inr ((new_response 0x11 True)\<lparr>rs_reason := ''OK''\<rparr>, 0)"
    "on_response_http_field B 17 14 32 0 ((new_response 0x11 True)\<lparr>rs_reason := ''OK''\<rparr>, 0) = Inr (answer_response, 0)"
    "strtol 10 (drop 9 B) = 200"
proof -
  have n: "strtol 10 (drop 9 B) = 200"
    by (simp add: assms(1) answer_head_text strtol_def c_str_def isspace_def char_code_def split_sign_def
        skip_prefix_def digits_value_def digit_of_def Let_def)
  then show "strtol 10 (drop 9 B) = 200" .
  show "on_response_version B 0 8 (new_response 0x11 True, 0) = Inr (new_response 0x11 True, 0)"
    by (simp add: assms(1) answer_head_text on_response_version_def strncmp_eq_def c_str_def new_response_def)
  show "on_response_status B 9 3 (new_response 0x11 True, 0) = Inr (new_response 0x11 True, 0)"
    by (simp add: on_response_status_def atoi_def n long_to_int_def new_response_def)
  show "on_response_reason B 13 2 (new_response 0x11 True, 0) = Inr ((new_response 0x11 True)\<lparr>rs_reason := ''OK''\<rparr>, 0)"
    by (simp add: on_response_reason_def std_string_def assms(1) answer_head_text max_string_def)
  show "on_response_http_field B 17 14 32 0 ((new_response 0x11 True)\<lparr>rs_reason := ''OK''\<rparr>, 0) = Inr (answer_response, 0)"
    by (simp add: on_response_http_field_def std_string_def assms(1) answer_head_text max_string_def
        rs_setHeader_def new_response_def answer_response_def first_header)
qed


lemma answer_execute:
  assumes "B = answer_head @ tl' @ CHR 0x00 # junk" "len = 33 + length tl'" "length B \<le> max_string"
    and small: "len < int_limit"
  shows "qp_execute B len False (new_response_parser raw) =
    (case machine_run (client_reader B len) False 113 33 tl'
        (Inr (answer_parser (httpclient_parser_init raw), answer_response, 0)) of
      (cs, p, s) \<Rightarrow>
        bindR s (\<lambda>(cp, d).
          if cp_nread cp + p \<le> len \<and> cp_body_start cp \<le> len then
            if cp_mark cp < len \<and> cp_field_len cp \<le> len \<and> cp_field_start cp < len
            then Inr (cp_nread cp + p, memmove_down B (cp_nread cp + p) len,
              \<lparr>qp_parser = cp\<lparr>cp_cs := cs, cp_nread := cp_nread cp + p\<rparr>, qp_data = fst d, qp_error = snd d\<rparr>)
            else Inl OutOfBuffer
          else Inl AssertFailed))"
proof -
  have "length answer_head = 33" by (simp add: answer_head_text)
  then have "take len B = answer_head @ tl'" "len < length B" "B ! len = CHR 0x00"
    using assms(1,2) by (simp_all add: nth_append)
  moreover note answer_run [OF answer_callbacks [OF assms(1,3)], where w = False and e = len and tl' = tl' and
      cp = "httpclient_parser_init raw"]
  moreover have "same_distance len 0" using same_distance_small [OF _ small] by simp
  moreover have "cp_cs (httpclient_parser_init raw) = 1" "cp_nread (answer_parser (httpclient_parser_init raw)) = 0"
    by (simp_all add: httpclient_parser_init_def answer_parser_def)
  moreover have "(httpclient_parser_init raw)\<lparr>cp_nread := 0, cp_mark := 0, cp_field_len := 0, cp_field_start := 0\<rparr> =
      httpclient_parser_init raw"
    by (simp add: httpclient_parser_init_def)
  moreover obtain cs p s where "machine_run (client_reader B len) False 113 33 tl'
      (Inr (answer_parser (httpclient_parser_init raw), answer_response, 0)) = (cs, p, s)"
    using prod_cases3 by blast
  ultimately show ?thesis
    by (cases s) (auto simp: qp_execute_def httpclient_parser_execute_def new_response_parser_def Let_def nat_add_distrib)
qed

lemma stale_key:
  "omap_put CaseInsensitiveLess ([CHR ''5'', CR, CHR 0x00] @ s) ''5'' [(''Content-Length'', [])] =
    [([CHR ''5'', CR, CHR 0x00] @ s, ''5''), (''Content-Length'', [])]"
proof -
  have "strcasecmp ([CHR ''5'', CR, CHR 0x00] @ s) ''Content-Length'' < 0"
    by (simp add: strcasecmp_def c_str_def tolower_def char_code_def)
  moreover have "\<not> strcasecmp ''Content-Length'' ([CHR ''5'', CR, CHR 0x00] @ s) < 0"
    by (simp add: strcasecmp_def c_str_def tolower_def char_code_def)
  ultimately show ?thesis
    by (simp add: omap_put_def omap_find_def oset_insert_def oset_find_def oset_lower_bound_def by_key_def CaseInsensitiveLess_def)
qed

text \<open>
  Behind \<open>Content-Length:\<close> and a line feed, a digit is taken as the beginning of a value and of a name.
  At the carriage return the name is stored with the length of the one before: the key of the new header
  is fourteen bytes of the buffer, of which the server has sent two.
\<close>

lemma content_length_overread:
  assumes "11 \<le> length stale" "length stale < 2 ^ 60"
  shows "\<exists>data' qp. qp_execute (answer_head @ [CHR ''5'', CR] @ CHR 0x00 # stale) 35 False (new_response_parser raw) =
      Inr (35, data', qp) \<and> \<not> qp_hasError qp \<and>
    rs_headers (qp_data qp) = [([CHR ''5'', CR, CHR 0x00] @ take 11 stale, ''5''), (''Content-Length'', [])]"
proof -
  let ?B = "answer_head @ [CHR ''5'', CR] @ CHR 0x00 # stale"
  let ?k = "[CHR ''5'', CR, CHR 0x00] @ take 11 stale"
  let ?cp = "(answer_parser (httpclient_parser_init raw))\<lparr>cp_mark := 33, cp_field_start := 33,
    cp_content_len := long_to_int (strtol 10 (drop 33 ?B))\<rparr>"
  have "std_string ?B 33 14 = Inr ?k" "std_string ?B 33 1 = Inr ''5''"
    using assms(1) by (simp_all add: answer_head_text std_string_def max_string_def)
  then have run: "machine_run (client_reader ?B 35) False 113 33 [CHR ''5'', CR]
      (Inr (answer_parser (httpclient_parser_init raw), answer_response, 0)) =
      (24, 35, Inr (?cp, rs_setHeader answer_response ?k ''5'', 0))"
    by (simp add: fault_goes [THEN client_step] fault_chars client_trans on_response_http_field_def
        answer_parser_def long_to_int_def)
  have "length ?B \<le> max_string" using assms(2) by (simp add: answer_head_text max_string_def)
  from answer_execute [OF refl _ this, of 35 raw] run show ?thesis
    by (simp add: int_limit_def answer_parser_def httpclient_parser_init_def qp_hasError_def httpclient_parser_has_error_def
        rs_setHeader_def answer_response_def new_response_def stale_key [simplified])
qed

text \<open>
  An answer whose head ends with \<open>Content-Length:\<close> and two line feeds is complete for the table, but not
  for \<open>httpclient_parser_is_finished\<close>, which knows one final state of four. The caller reads on, and the
  next call, with fewer bytes than the head had, fails an assertion: the server has stopped the client.
\<close>

lemma finished_state_aborts:
  "\<exists>data' qp. qp_execute (answer_head @ [LF, CHR 0x00]) 34 False (new_response_parser raw) = Inr (34, data', qp) \<and>
    \<not> qp_hasError qp \<and> qp_isFinished qp = 0 \<and> cp_body_start (qp_parser qp) = 34 \<and>
    (\<forall>junk. qp_execute ([CHR '' '', CHR 0x00] @ junk) 1 False qp = Inl AssertFailed)"
proof -
  let ?B = "answer_head @ [LF, CHR 0x00]"
  let ?cp = "(answer_parser (httpclient_parser_init raw))\<lparr>cp_body_start := 34\<rparr>"
  have "machine_run (client_reader ?B 34) False 113 33 [LF]
      (Inr (answer_parser (httpclient_parser_init raw), answer_response, 0)) = (123, 34, Inr (?cp, answer_response, 0))"
    by (simp add: fault_goes [THEN client_step] fault_chars client_trans on_response_http_field_def
        on_response_header_done_def call_client_def answer_parser_def)
  moreover have "length ?B \<le> max_string" by (simp add: answer_head_text max_string_def)
  moreover have "34 < int_limit" "same_distance 1 0"
    using same_distance_small [of 0 1] by (simp_all add: int_limit_def)
  ultimately show ?thesis
    using answer_execute [where B = ?B and tl' = "[LF]" and junk = "[]" and len = 34 and raw = raw]
    by (simp add: answer_parser_def httpclient_parser_init_def qp_hasError_def httpclient_parser_has_error_def
        qp_isFinished_def httpclient_parser_finish_def httpclient_parser_is_finished_def qp_execute_def
        httpclient_parser_execute_def Let_def fault_goes [THEN client_step] fault_chars)
qed

subsection \<open>Chunks\<close>

lemma signed_31_id:
  fixes v :: int
  assumes "0 \<le> v" "v < 2 ^ 31"
  shows "signed_take_bit 31 v = v"
  using assms by (simp add: signed_take_bit_int_eq_self)

lemma signed_31_neg:
  fixes v :: int
  assumes "2 ^ 31 \<le> v" "v < 2 ^ 32"
  shows "signed_take_bit 31 v = v - 2 ^ 32"
proof -
  have "(v + 2 ^ 31) mod 2 ^ 32 = (v - 2 ^ 31) mod 2 ^ 32"
    using mod_add_self2 [of "v - 2 ^ 31" "2 ^ 32"] by (simp add: add.commute)
  also have "\<dots> = v - 2 ^ 31" using assms by (intro mod_pos_pos_trivial) simp_all
  finally show ?thesis by (simp add: signed_take_bit_eq_take_bit_shift take_bit_eq_mod)
qed

text \<open>
  The size line of a chunk is read to its end and no further, and the bytes behind it move to the front of
  the buffer. A size below \<open>2\<^sup>3\<^sup>1\<close> is kept as it is, and only 0 ends the chunks; a size from there up to
  \<open>2\<^sup>3\<^sup>2\<close> becomes negative and counts as the last chunk.
\<close>

lemma chunk_header_exact:
  assumes hex: "hex \<noteq> []" "list_all (in_class hex_class) hex"
    and data: "data = hex @ crlf @ rest @ CHR 0x00 # junk" and len: "len = length hex + 2 + length rest" and small: "len < int_limit"
    and num: "v = int (digits_value 16 hex)" "v < 2 ^ 32"
  shows "\<exists>data' qp'. qp_execute data len True qp = Inr (length hex + 2, data', qp') \<and>
    qp_isFinished qp' = 1 \<and> qp_data qp' = qp_data qp \<and> cp_chunked (qp_parser qp') \<and>
    take (length rest) data' = rest \<and>
    cp_content_len (qp_parser qp') = (if v < 2 ^ 31 then v else v - 2 ^ 32) \<and>
    (cp_chunks_done (qp_parser qp') \<longleftrightarrow> v = 0 \<or> 2 ^ 31 \<le> v)"
proof -
  have n: "long_to_int (min (2 ^ 63 - 1) v) = (if v < 2 ^ 31 then v else v - 2 ^ 32)"
    using num signed_31_id [of v] signed_31_neg [of v] by (simp add: long_to_int_def min_def)
  have "(if v < 2 ^ 31 then v else v - 2 ^ 32) \<le> 0 \<longleftrightarrow> v = 0 \<or> 2 ^ 31 \<le> v" using num by auto
  moreover obtain data' qp' where
    ex: "qp_execute data len True qp = Inr (length hex + 2, data', qp')" "cp_cs (qp_parser qp') = 120"
      "qp_data qp' = qp_data qp" "cp_chunked (qp_parser qp')" "take (length rest) data' = rest"
    and n': "cp_content_len (qp_parser qp') = long_to_int (min (2 ^ 63 - 1) v)"
      "cp_chunks_done (qp_parser qp') \<longleftrightarrow> cp_content_len (qp_parser qp') \<le> 0"
    using chunk_execute [OF hex data len small, of qp] unfolding num(1) by blast
  moreover have "qp_isFinished qp' = 1"
    using ex(2) by (simp add: qp_isFinished_def httpclient_parser_finish_def httpclient_parser_has_error_def
        httpclient_parser_is_finished_def)
  ultimately show ?thesis unfolding n by (intro exI [of _ data'] exI [of _ qp']) simp
qed

end
