(* ===== verification/Http_Session.thy ===== *)
theory Http_Session
  imports Http_Request_Wire Socket_Stream
begin

text \<open>
  The server's end of a connection, \<open>inc/http/http_session.h\<close> and \<open>src/http/http_session.cpp\<close>. A session is
  a stream: its \<open>read\<close>, \<open>write\<close> and \<open>close\<close> are those of \<open>SocketStream\<close>, and the functions here take
  them as a structure over the stream's state. What is thrown out of a function is \<open>Inl\<close>, a
  null pointer \<open>None\<close>; a loop that never ends has no value. Memory suffices for what stays below
  \<open>max_size()\<close>: \<open>std::bad_alloc\<close> from \<open>body.resize\<close> is not modelled.
\<close>

subsection \<open>The stream of a session\<close>

record 's stream_ops =
  so_read :: "('s, char) reader"
  so_write :: "('s, char) writer"
  so_close :: "'s \<Rightarrow> 's"

definition socket_ops ::
    "(int \<Rightarrow> nat \<Rightarrow> int \<Rightarrow> 'k \<Rightarrow> (int \<times> char list) \<times> 'k) \<Rightarrow> (int \<Rightarrow> char list \<Rightarrow> int \<Rightarrow> 'k \<Rightarrow> (int \<times> unit) \<times> 'k) \<Rightarrow>
      'k sock_calls \<Rightarrow> (socket_stream \<times> 'k) stream_ops" where
  "socket_ops os_recv os_send os =
    \<lparr>so_read = (\<lambda>(ss, k) n. let ((rt, bs), k) = ss_read os_recv ss (nat n) k in (rt, bs, (ss, k))),
     so_write = (\<lambda>(ss, k) bs. let (rt, k) = ss_write os_send ss bs k in (rt, (ss, k))),
     so_close = (\<lambda>(ss, k). ss_close os ss k)\<rparr>"

subsection \<open>Receiving a request\<close>

text \<open>
  The loop that reads until the head is complete: the buffer, the number of bytes left in it, the parser and the
  stream. \<open>buff_size\<close> is a \<open>uint64_t\<close>, \<open>len\<close> and \<open>offset\<close> are \<open>int\<close>.
\<close>

partial_function (option) recv_head ::
    "'s stream_ops \<Rightarrow> nat \<Rightarrow> string \<Rightarrow> int \<Rightarrow> request_parser \<Rightarrow> 's \<Rightarrow>
      ((parse_error + (string \<times> int \<times> request_parser) option) \<times> 's) option" where
  "recv_head io buff_size data offset rp s =
    (let (len, bs, s) = so_read io s ((int buff_size - offset) mod 2 ^ 64)
     in if len \<le> 0 then Some (Inr None, so_close io s)
        else
          let data = overwrite data (nat offset) bs;
              len = len + offset
          in (case rp_execute data (nat len) rp of
                Inl err \<Rightarrow> Some (Inl err, s)
              | Inr (nparse, data, rp) \<Rightarrow>
                  if rp_hasError rp then Some (Inr None, so_close io s)
                  else
                    let offset = to_int (len - int nparse)
                    in if offset = to_int (int buff_size) then Some (Inr None, so_close io s)
                       else if rp_isFinished rp \<noteq> 0 then Some (Inr (Some (data, offset, rp)), s)
                       else recv_head io buff_size data offset rp s))"

text \<open>The body, from the bytes behind the head and from the stream; \<open>resize\<close> to an impossible length throws.\<close>

definition recv_body ::
    "'s stream_ops \<Rightarrow> u64 \<Rightarrow> string \<Rightarrow> int \<Rightarrow> http_request \<Rightarrow> 's \<Rightarrow> (parse_error + http_request option) \<times> 's" where
  "recv_body io content_length data offset rq s =
    (let length = sint content_length
     in if length > 0 then
          if max_string < nat length then (Inl LengthError, s)
          else
            let body = replicate (nat length) (CHR 0x00);
                len = (if length \<ge> offset then offset else to_int length);
                body = overwrite body 0 (take (nat len) data);
                left = length - offset
            in if left > 0 then
                 let (r, bs, s) = readFixSize (so_read io) s (nat left)
                 in if r \<le> 0 then (Inr None, so_close io s)
                    else (Inr (Some (rq\<lparr>rq_body := overwrite body (nat len) bs\<rparr>)), s)
               else (Inr (Some (rq\<lparr>rq_body := body\<rparr>)), s)
        else (Inr (Some rq), s))"

text \<open>\<open>mem\<close> and \<open>raw\<close> are what the memory of the new buffer and of the parser held.\<close>

definition recvRequest ::
    "'s stream_ops \<Rightarrow> nat \<Rightarrow> (string \<Rightarrow> u64 option) \<Rightarrow> string \<Rightarrow> http_parser \<Rightarrow> 's \<Rightarrow>
      ((parse_error + http_request option) \<times> 's) option" where
  "recvRequest io buff_size cast mem raw s =
    (case recv_head io buff_size mem 0 (new_request_parser raw) s of
       None \<Rightarrow> None
     | Some (Inl err, s) \<Rightarrow> Some (Inl err, s)
     | Some (Inr None, s) \<Rightarrow> Some (Inr None, s)
     | Some (Inr (Some (data, offset, rp)), s) \<Rightarrow>
         (case recv_body io (rp_getContentLength cast rp) data offset (rp_data rp) s of
            (Inr (Some rq), s) \<Rightarrow> Some (Inr (Some (rq_init rq)), s)
          | (res, s) \<Rightarrow> Some (res, s)))"

definition sendResponse :: "'s stream_ops \<Rightarrow> http_response \<Rightarrow> 's \<Rightarrow> int \<times> 's" where
  "sendResponse io rsp s = (let data = rs_dump rsp in writeFixSize (so_write io) s data (length data))"

subsection \<open>The head is read to its end\<close>

lemma execute_progress:
  assumes ok: "request_parser_ok rp" "rp_isFinished rp = 0"
    and len: "0 < len" "len \<le> length data" "length data < max_string" and small: "len < int_limit"
    and ex: "rp_execute data len rp = Inr (off, data', rp')" and fin: "\<not> rp_hasError rp'" "rp_isFinished rp' \<noteq> 0"
  shows "0 < off \<and> rp_isFinished rp' = 1"
proof -
  obtain cs' p s where run: "machine_run (http_machine request_callbacks data len) (hp_uri_relaxed (rp_parser rp))
      (hp_cs (rp_parser rp)) 0 (take len data) (Inr (reset_offsets (rp_parser rp), rp_data rp, rp_error rp)) = (cs', p, s)"
    using prod_cases3 by blast
  from execute_run(5) [OF ok len small run] ex have off: "off = p" "hp_cs (rp_parser rp') = cs'"
    by (auto split: sum.splits prod.splits)
  have "cs' \<noteq> hp_cs (rp_parser rp) \<and> cs' \<noteq> 0"
    using fin off(2) ok(2)
    by (auto simp: rp_hasError_def rp_isFinished_def http_parser_finish_def http_parser_has_error_def
        http_parser_is_finished_def split: if_splits)
  with run run_still [where p = 0] have "p \<noteq> 0" by metis
  with off fin show ?thesis
    by (auto simp: rp_hasError_def rp_isFinished_def http_parser_finish_def http_parser_has_error_def
        split: if_splits)
qed

text \<open>
  Between two reads the parser is not finished, has read all it was given and the buffer is empty: every read
  is of the whole buffer.
\<close>

lemma recv_head_step:
  assumes io: "reads_from (so_read io) src" and buff: "0 < buff_size" "buff_size < 2 ^ 31"
    and mem: "length data = buff_size" and rp: "request_parser_ok rp" "rp_isFinished rp = 0"
    and read: "so_read io s (int buff_size) = (len, bs, s')" "0 < len"
  shows "src s = bs @ src s'" "0 < length bs" "length bs \<le> buff_size"
    and "recv_head io buff_size data 0 rp s =
      (case rp_execute (overwrite data 0 bs) (length bs) rp of
         Inl err \<Rightarrow> Some (Inl err, s')
       | Inr (nparse, data, rp) \<Rightarrow>
           if rp_hasError rp then Some (Inr None, so_close io s')
           else if rp_isFinished rp \<noteq> 0 then Some (Inr (Some (data, int (length bs - nparse), rp)), s')
           else recv_head io buff_size data 0 rp s')"
    and "case rp_execute (overwrite data 0 bs) (length bs) rp of
         Inl err \<Rightarrow> err = LengthError
       | Inr (nparse, data', rp') \<Rightarrow> request_parser_ok rp' \<and> length data' = buff_size \<and> nparse \<le> length bs \<and>
           take (length bs - nparse) data' = drop nparse bs \<and> (rp_isFinished rp' = 0 \<longrightarrow> nparse = length bs)"
proof -
  have n: "0 < int buff_size" using buff by simp
  note rd = reads_fromD [OF io n read(1)]
  show src: "src s = bs @ src s'" and pos: "0 < length bs" and le: "length bs \<le> buff_size"
    using rd read(2) by auto
  let ?data = "overwrite data 0 bs"
  have len: "length ?data = buff_size" "take (length bs) ?data = bs" "length ?data < max_string"
    using mem le buff(2) by (simp_all add: overwrite_def max_string_def)
  have small: "length bs < int_limit" using le buff(2) by (simp add: int_limit_def)
  have safe: "case rp_execute ?data (length bs) rp of
         Inl err \<Rightarrow> err = LengthError
       | Inr (nparse, data', rp') \<Rightarrow> request_parser_ok rp' \<and> length data' = buff_size \<and> nparse \<le> length bs \<and>
           take (length bs - nparse) data' = drop nparse bs \<and> (rp_isFinished rp' = 0 \<longrightarrow> nparse = length bs)"
    using execute_safe [OF rp, of "length bs" ?data] len le small by (auto split: sum.splits)
  then show "case rp_execute ?data (length bs) rp of
         Inl err \<Rightarrow> err = LengthError
       | Inr (nparse, data', rp') \<Rightarrow> request_parser_ok rp' \<and> length data' = buff_size \<and> nparse \<le> length bs \<and>
           take (length bs - nparse) data' = drop nparse bs \<and> (rp_isFinished rp' = 0 \<longrightarrow> nparse = length bs)" .
  have l: "len = int (length bs)" using rd(3) read(2) by simp
  have ti: "to_int (int k) = int k" if "k \<le> buff_size" for k using that buff(2) by (simp add: to_int_id)
  show "recv_head io buff_size data 0 rp s =
      (case rp_execute ?data (length bs) rp of
         Inl err \<Rightarrow> Some (Inl err, s')
       | Inr (nparse, data, rp) \<Rightarrow>
           if rp_hasError rp then Some (Inr None, so_close io s')
           else if rp_isFinished rp \<noteq> 0 then Some (Inr (Some (data, int (length bs - nparse), rp)), s')
           else recv_head io buff_size data 0 rp s')"
  proof (cases "rp_execute ?data (length bs) rp")
    case (Inl err)
    then show ?thesis using read buff l by (subst recv_head.simps) simp
  next
    case (Inr x)
    obtain nparse data' rp' where x: "x = (nparse, data', rp')" by (cases x)
    from safe Inr x have np: "nparse \<le> length bs" and unfin: "rp_isFinished rp' = 0 \<longrightarrow> nparse = length bs" by simp_all
    have prog: "0 < nparse" if "\<not> rp_hasError rp'" "rp_isFinished rp' \<noteq> 0"
      using execute_progress [OF rp pos _ len(3) small Inr [unfolded x] that] len(1) le by simp
    have off: "to_int (int (length bs) - int nparse) = int (length bs - nparse)"
      using ti [of "length bs - nparse"] np le by (simp add: of_nat_diff)
    have "to_int (int buff_size) = int buff_size" using ti by simp
    with off prog unfin np le pos Inr x read l buff show ?thesis
      by (subst recv_head.simps) auto
  qed
qed

lemma recv_head_closed:
  assumes "0 < buff_size" "buff_size < 2 ^ 31" "so_read io s (int buff_size) = (len, bs, s')" "len \<le> 0"
  shows "recv_head io buff_size data 0 rp s = Some (Inr None, so_close io s')"
  using assms by (subst recv_head.simps) simp

text \<open>What the loop gives, whatever the stream carries, as long as that has an end.\<close>

definition head_read :: "('s \<Rightarrow> string) \<Rightarrow> nat \<Rightarrow> 's \<Rightarrow> (parse_error + (string \<times> int \<times> request_parser) option) \<times> 's \<Rightarrow> bool" where
  "head_read src buff_size s res =
    (case res of
       (Inl err, _) \<Rightarrow> err = LengthError
     | (Inr None, _) \<Rightarrow> True
     | (Inr (Some (data, offset, rp)), s') \<Rightarrow>
         rp_isFinished rp = 1 \<and> \<not> rp_hasError rp \<and> 0 \<le> offset \<and> offset \<le> int buff_size \<and> length data = buff_size \<and>
         (\<exists>head. src s = head @ take (nat offset) data @ src s'))"

lemma recv_head_total:
  assumes io: "reads_from (so_read io) src" and buff: "0 < buff_size" "buff_size < 2 ^ 31"
    and mem: "length data = buff_size" and rp: "request_parser_ok rp" "rp_isFinished rp = 0"
  shows "\<exists>res. recv_head io buff_size data 0 rp s = Some res \<and> head_read src buff_size s res"
  using mem rp
proof (induction "length (src s)" arbitrary: s data rp rule: less_induct)
  case less
  obtain len bs s' where read: "so_read io s (int buff_size) = (len, bs, s')" using prod_cases3 by blast
  show ?case
  proof (cases "len \<le> 0")
    case True
    then show ?thesis using recv_head_closed [OF buff read] by (simp add: head_read_def)
  next
    case False
    note step = recv_head_step [OF io buff less.prems read, simplified not_le, OF False [simplified not_le]]
    show ?thesis
    proof (cases "rp_execute (overwrite data 0 bs) (length bs) rp")
      case (Inl err)
      with step(4,5) show ?thesis by (simp add: head_read_def)
    next
      case (Inr x)
      obtain nparse data' rp' where x: "x = (nparse, data', rp')" by (cases x)
      note safe = step(5) [unfolded Inr x sum.case prod.case]
      have "\<exists>res. recv_head io buff_size data' 0 rp' s' = Some res \<and> head_read src buff_size s' res"
        if "rp_isFinished rp' = 0"
        using less.hyps [of s' data' rp'] step(1,2) safe that by simp
      moreover have "head_read src buff_size s res" if "head_read src buff_size s' res" for res
        using that step(1) by (auto simp: head_read_def split: sum.splits option.splits)
      moreover have "head_read src buff_size s (Inr (Some (data', int (length bs - nparse), rp')), s')"
        if "\<not> rp_hasError rp'" "rp_isFinished rp' \<noteq> 0"
      proof -
        have "src s = take nparse bs @ take (length bs - nparse) data' @ src s'"
          using step(1) safe by simp
        then have "\<exists>head. src s = head @ take (length bs - nparse) data' @ src s'" by blast
        moreover have "rp_isFinished rp' = 1"
          using that by (auto simp: rp_hasError_def rp_isFinished_def http_parser_finish_def split: if_splits)
        moreover have "nat (int (length bs - nparse)) = length bs - nparse" by simp
        ultimately show ?thesis using that safe step(3) unfolding head_read_def by auto
      qed
      ultimately show ?thesis
        using step(4) [unfolded Inr x sum.case prod.case] by (auto simp: head_read_def)
    qed
  qed
qed

subsection \<open>The body\<close>

lemma recv_body_spec:
  assumes io: "reads_from (so_read io) src" and off: "0 \<le> offset" "nat offset \<le> length data" "offset < 2 ^ 31"
    and n: "n = sint content_length" and res: "recv_body io content_length data offset rq s = (res, s')"
  shows "case res of
      Inl err \<Rightarrow> err = LengthError \<and> max_string < nat n
    | Inr None \<Rightarrow> offset < n
    | Inr (Some rq') \<Rightarrow>
        (if 0 < n then
           \<exists>body. rq' = rq\<lparr>rq_body := body\<rparr> \<and> length body = nat n \<and>
             (if offset < n then take (nat offset) data @ src s = body @ src s' else body = take (nat n) data \<and> s' = s)
         else rq' = rq \<and> s' = s)"
proof -
  let ?body = "overwrite (replicate (nat n) (CHR 0x00)) 0 (take (nat offset) data)"
  consider "n \<le> 0" | "0 < n" "max_string < nat n" | "0 < n" "nat n \<le> max_string" "n \<le> offset"
    | "0 < n" "nat n \<le> max_string" "offset < n" by linarith
  then show ?thesis
  proof cases
    case 4
    have big: "sint (of_nat (nat (n - offset)) :: i64) = n - offset"
      using 4 off by (subst size_as_int64) (simp_all add: max_string_def)
    have left: "int (nat (n - offset)) = n - offset" using 4(3) by simp
    obtain q bs t where q: "read_fix_loop (so_read io) s (n - offset) = (q, bs, t)" using prod_cases3 by blast
    define r where "r = (case q of Some len \<Rightarrow> to_int len | None \<Rightarrow> to_int (n - offset))"
    have rd: "readFixSize (so_read io) s (nat (n - offset)) = (r, bs, t)"
      unfolding readFixSize_def big q left r_def by simp
    note spec = read_fix_loop_spec [OF io q]
    have eq: "recv_body io content_length data offset rq s =
        (if r \<le> 0 then (Inr None, so_close io t) else (Inr (Some (rq\<lparr>rq_body := overwrite ?body (nat offset) bs\<rparr>)), t))"
      using 4 rd unfolding recv_body_def n [symmetric] Let_def by simp
    show ?thesis
    proof (cases "r \<le> 0")
      case True
      with res 4(3) show ?thesis unfolding eq by auto
    next
      case False
      have "q = None"
      proof (rule ccontr)
        assume "q \<noteq> None"
        then obtain len where "q = Some len" by blast
        with spec False show False by (simp add: to_int_id r_def)
      qed
      with spec have bs: "src s = bs @ src t" "length bs = nat (n - offset)" by simp_all
      have "nat n - nat offset = nat (n - offset)" using 4 off by simp
      then have "overwrite ?body (nat offset) bs = take (nat offset) data @ bs"
        using 4 off bs(2) by (simp add: overwrite_def)
      moreover have "length (take (nat offset) data @ bs) = nat n"
        using bs(2) off 4 by simp
      ultimately have "recv_body io content_length data offset rq s =
          (Inr (Some (rq\<lparr>rq_body := take (nat offset) data @ bs\<rparr>)), t)"
        and len: "length (take (nat offset) data @ bs) = nat n"
        using False unfolding eq by simp_all
      with res have res': "res = Inr (Some (rq\<lparr>rq_body := take (nat offset) data @ bs\<rparr>))" "s' = t" by simp_all
      have "take (nat offset) data @ src s = (take (nat offset) data @ bs) @ src t" unfolding bs(1) append.assoc ..
      with len have "\<exists>body. rq\<lparr>rq_body := take (nat offset) data @ bs\<rparr> = rq\<lparr>rq_body := body\<rparr> \<and> length body = nat n \<and>
          take (nat offset) data @ src s = body @ src t"
        by blast
      with 4(1,3) show ?thesis unfolding res' by (simp only: sum.case option.case if_True)
    qed
  next
    case 3
    then have "to_int n = n" using off(3) by (intro to_int_id) simp_all
    moreover have "overwrite (replicate (nat n) (CHR 0x00)) 0 (take (nat n) data) = take (nat n) data"
      using 3 off by (simp add: overwrite_def)
    moreover have "length (take (nat n) data) = nat n" using 3 off by simp
    ultimately have "recv_body io content_length data offset rq s = (Inr (Some (rq\<lparr>rq_body := take (nat n) data\<rparr>)), s)"
      using 3 unfolding recv_body_def n [symmetric] Let_def by (cases "n = offset") simp_all
    with res have res': "res = Inr (Some (rq\<lparr>rq_body := take (nat n) data\<rparr>))" "s' = s" by simp_all
    have "\<not> offset < n" using 3 by simp
    moreover have "\<exists>body. rq\<lparr>rq_body := take (nat n) data\<rparr> = rq\<lparr>rq_body := body\<rparr> \<and> length body = nat n \<and>
        body = take (nat n) data \<and> s = s"
      using \<open>length (take (nat n) data) = nat n\<close> by blast
    ultimately show ?thesis unfolding res' using 3(1) by (simp only: sum.case option.case if_True if_False)
  next
    case 1
    then have "recv_body io content_length data offset rq s = (Inr (Some rq), s)"
      unfolding recv_body_def n [symmetric] Let_def by simp
    with res 1 show ?thesis by auto
  next
    case 2
    then have "recv_body io content_length data offset rq s = (Inl LengthError, s)"
      unfolding recv_body_def n [symmetric] Let_def by simp
    with res 2 show ?thesis by auto
  qed
qed

subsection \<open>Every request comes to an end\<close>

lemma rq_init_unchanged:
  "rq_headers (rq_init rq) = rq_headers rq" "rq_body (rq_init rq) = rq_body rq"
  "rq_init (rq\<lparr>rq_body := body\<rparr>) = (rq_init rq)\<lparr>rq_body := body\<rparr>"
  by (simp_all add: rq_init_def rq_getHeader_def Let_def)

lemma body_in_stream:
  assumes src: "t = h @ take k data @ u" and k: "k \<le> length data" "length data = b" "0 < b" and n: "0 < (n :: int)"
    and body: "length body = nat n" "if int k < n then take k data @ u = body @ u' else body = take (nat n) data \<and> u' = u"
  shows "\<exists>head lost. t = head @ body @ lost @ u' \<and> length lost < b"
proof (cases "int k < n")
  case True
  with src body have "t = h @ body @ [] @ u'" by simp
  with k(3) show ?thesis by (intro exI conjI) (assumption, simp)
next
  case False
  have "take k data = body @ drop (nat n) (take k data)"
    using False body(2) append_take_drop_id [of "nat n" "take k data"] by (simp add: min_absorb1)
  with False body(2) src have "t = h @ body @ drop (nat n) (take k data) @ u'" by (metis append.assoc)
  moreover have "length (drop (nat n) (take k data)) < b" using k n by simp
  ultimately show ?thesis by blast
qed

lemma received_whole:
  assumes io: "reads_from (so_read io) src" and buff: "0 < buff_size" "buff_size < 2 ^ 31"
    and head: "head_read src buff_size s (Inr (Some (data, offset, rp)), s1)"
    and body: "recv_body io (rp_getContentLength cast rp) data offset (rp_data rp) s1 = (res, s2)"
  shows "case res of Inl err \<Rightarrow> err = LengthError | Inr None \<Rightarrow> True
    | Inr (Some rq) \<Rightarrow> rq_headers rq = rq_headers (rp_data rp) \<and>
        (0 < sint (rp_getContentLength cast rp) \<longrightarrow> length (rq_body rq) = nat (sint (rp_getContentLength cast rp)) \<and>
          (\<exists>head lost. src s = head @ rq_body rq @ lost @ src s2 \<and> length lost < buff_size))"
proof -
  let ?n = "sint (rp_getContentLength cast rp)"
  from head obtain h where off: "0 \<le> offset" "offset \<le> int buff_size" "length data = buff_size"
    and src: "src s = h @ take (nat offset) data @ src s1"
    by (auto simp: head_read_def)
  have k: "nat offset \<le> length data" "offset < 2 ^ 31" using off buff by simp_all
  note spec = recv_body_spec [OF io off(1) k refl body]
  have "length (rq_body rq) = nat ?n \<and>
      (\<exists>head lost. src s = head @ rq_body rq @ lost @ src s2 \<and> length lost < buff_size)"
    if "res = Inr (Some rq)" "0 < ?n" for rq
    using body_in_stream [OF src k(1) off(3) buff(1) that(2), of "rq_body rq" "src s2"] spec off(1) that
    by (auto split: if_splits)
  with spec show ?thesis by (auto split: sum.splits option.splits if_splits)
qed

text \<open>
  C32: whatever a stream of finite length carries, however its reads cut it, \<open>recvRequest\<close> returns: it fires
  no assertion and reads nothing outside its buffer; the one exception is \<open>std::length_error\<close>. A request it gives
  with a positive content length has a body of that length, and that body is a piece of the stream:
  behind it only bytes of the one buffer are dropped.
\<close>

theorem recv_request_returns:
  assumes io: "reads_from (so_read io) src" and buff: "0 < buff_size" "buff_size < 2 ^ 31"
    and mem: "length mem = buff_size"
  shows "\<exists>res s'. recvRequest io buff_size cast mem raw s = Some (res, s') \<and>
    (case res of
       Inl err \<Rightarrow> err = LengthError
     | Inr None \<Rightarrow> True
     | Inr (Some rq) \<Rightarrow>
         (let n = sint (getHeaderAs cast rq ''content-length'' 0)
          in 0 < n \<longrightarrow> length (rq_body rq) = nat n \<and>
            (\<exists>head lost. src s = head @ rq_body rq @ lost @ src s' \<and> length lost < buff_size)))"
proof -
  let ?rp = "new_request_parser raw"
  have ok: "request_parser_ok ?rp" "rp_isFinished ?rp = 0" using new_request_parser_ok by blast+
  from recv_head_total [OF io buff mem ok] obtain r s1 where
    head: "recv_head io buff_size mem 0 ?rp s = Some (r, s1)" "head_read src buff_size s (r, s1)"
    by (metis surj_pair)
  show ?thesis
  proof (cases "\<exists>data offset rp. r = Inr (Some (data, offset, rp))")
    case False
    with head show ?thesis by (auto simp: recvRequest_def head_read_def split: sum.splits option.splits)
  next
    case True
    then obtain data offset rp where r: "r = Inr (Some (data, offset, rp))" by blast
    obtain res s2 where body: "recv_body io (rp_getContentLength cast rp) data offset (rp_data rp) s1 = (res, s2)"
      by fastforce
    have run: "recvRequest io buff_size cast mem raw s =
        (case (res, s2) of (Inr (Some rq), s) \<Rightarrow> Some (Inr (Some (rq_init rq)), s) | (res, s) \<Rightarrow> Some (res, s))"
      by (simp add: recvRequest_def head(1) r body)
    note whole = received_whole [OF io buff head(2) [unfolded r] body]
    show ?thesis
    proof (cases "\<exists>rq. res = Inr (Some rq)")
      case True
      then obtain rq where "res = Inr (Some rq)" by blast
      with run whole show ?thesis
        by (simp add: rq_init_unchanged getHeaderAs_def rp_getContentLength_def Let_def)
    next
      case False
      with run whole show ?thesis by (auto split: sum.splits option.splits)
    qed
  qed
qed

subsection \<open>A request on the wire\<close>

text \<open>The last field of a name decides what a lookup gives.\<close>

lemma find_last: "find P (xs @ [y]) = (case find P xs of None \<Rightarrow> if P y then Some y else None | Some x \<Rightarrow> Some x)"
  by (induction xs) auto

lemma value_after_fields:
  "hdr.map_ok m \<Longrightarrow>
    hdr.value_at k (fold (\<lambda>kv. omap_put CaseInsensitiveLess (fst kv) (snd kv)) kvs m) =
    (case find (\<lambda>kv. strcasecmp k (fst kv) = 0) (rev kvs) of None \<Rightarrow> hdr.value_at k m | Some kv \<Rightarrow> Some (snd kv))"
proof (induction kvs arbitrary: m)
  case (Cons kv kvs)
  show ?case
    using Cons.IH [OF hdr.put_ok [OF Cons.prems]] hdr.value_at_put [OF Cons.prems]
    by (simp add: hdr_same_iff find_last split: option.split)
qed simp

lemma received_value:
  "hdr.value_at k (rq_headers (rq_received rq)) =
    map_option snd (find (\<lambda>kv. strcasecmp k (fst kv) = 0) (rev (rq_fields rq)))"
  using value_after_fields [of "[]" k "rq_fields rq"]
  by (simp add: rq_received_def hdr.value_at_def omap_find_def option.case_eq_if map_option_case)

lemma getAs_value:
  "getAs cast m key def = (case hdr.value_at key m of None \<Rightarrow> def | Some s \<Rightarrow> (case cast s of None \<Rightarrow> def | Some v \<Rightarrow> v))"
  by (simp add: getAs_def hdr.value_at_def split: option.splits)

lemma not_content_length:
  "strcasecmp ''content-length'' ''connection'' \<noteq> 0" "strcasecmp ''content-length'' ''content-length'' = 0"
  "strcasecmp ''connection'' ''content-length'' \<noteq> 0" "strcasecmp ''connection'' ''connection'' = 0"
  by code_simp+

definition length_unset :: "http_request \<Rightarrow> bool" where
  "length_unset rq \<longleftrightarrow> rq_body rq \<noteq> [] \<or> list_all (\<lambda>kv. strcasecmp ''content-length'' (fst kv) \<noteq> 0) (rq_headers rq)"

lemma received_length:
  assumes "length_unset rq" "\<forall>n < 2 ^ 64. cast (show_nat n) = Some (of_nat n)" "length (rq_body rq) < 2 ^ 64"
  shows "getHeaderAs cast (rq_received rq) ''content-length'' 0 = of_nat (length (rq_body rq))"
proof (cases "rq_body rq = []")
  case True
  have "find (\<lambda>kv. strcasecmp ''content-length'' (fst kv) = 0) (rev (rq_fields rq)) = None"
    using assms(1) True not_content_length(1)
    by (auto simp: find_None_iff rq_fields_def length_field_def connection_field_def length_unset_def list_all_iff
        dest!: subsetD [OF other_fields_subset])
  with True show ?thesis by (simp add: getHeaderAs_def getAs_value received_value)
next
  case False
  then show ?thesis
    using assms(2,3) by (simp add: getHeaderAs_def getAs_value received_value rq_fields_def length_field_def not_content_length)
qed

lemma strcasecmp_sym: "strcasecmp a b = 0 \<longleftrightarrow> strcasecmp b a = 0"
  by (auto simp: strcasecmp_eq)

lemma find_append:
  "find P (xs @ ys) = (case find P xs of None \<Rightarrow> find P ys | Some x \<Rightarrow> Some x)"
  by (induction xs) auto

lemma received_close:
  assumes "\<not> rq_websocket rq"
  shows "rq_close (rq_init (rq_received rq)) = rq_close rq"
proof -
  have "find (\<lambda>kv. strcasecmp ''connection'' (fst kv) = 0) (rev (rq_fields rq)) =
      Some (''connection'', if rq_close rq then ''close'' else ''keep-alive'')"
  proof -
    have "find (\<lambda>kv. strcasecmp ''connection'' (fst kv) = 0) (rev (other_fields False (rq_headers rq))) = None"
      by (auto simp: find_None_iff other_fields_def strcasecmp_sym [of "''connection''"])
    then show ?thesis
      using assms by (simp add: rq_fields_def length_field_def connection_field_def find_append not_content_length)
  qed
  then have "hdr.value_at ''connection'' (rq_headers (rq_received rq)) =
      Some (if rq_close rq then ''close'' else ''keep-alive'')"
    by (simp add: received_value)
  then have "rq_getHeader (rq_received rq) ''connection'' [] = (if rq_close rq then ''close'' else ''keep-alive'')"
    by (auto simp: rq_getHeader_def hdr.value_at_def)
  moreover have "strcasecmp ''close'' ''keep-alive'' \<noteq> 0" "strcasecmp ''keep-alive'' ''keep-alive'' = 0" by code_simp+
  ultimately show ?thesis by (simp add: rq_init_def Let_def)
qed

subsection \<open>Reading ahead\<close>

text \<open>A stream that gives something as long as it holds something.\<close>

definition reads_ahead :: "('s, 'b) reader \<Rightarrow> ('s \<Rightarrow> 'b list) \<Rightarrow> bool" where
  "reads_ahead rd src \<longleftrightarrow> (\<forall>s n. 0 < n \<and> src s \<noteq> [] \<longrightarrow> 0 < fst (rd s n))"

lemma read_fix_loop_ahead:
  assumes "reads_from rd src" "reads_ahead rd src" "nat left \<le> length (src s)"
  shows "fst (read_fix_loop rd s left) = None"
  using assms
proof (induction rd s left rule: read_fix_loop.induct)
  case (1 rd s left)
  obtain len bs s' where one: "rd s left = (len, bs, s')" by (cases "rd s left") auto
  show ?case
  proof (cases "left > 0")
    case True
    with 1 have "src s \<noteq> []" by auto
    with 1(3) True one have pos: "0 < len" unfolding reads_ahead_def by (metis fst_conv)
    note rd = reads_fromD [OF 1(2) True one]
    have "nat (left - len) \<le> length (src s')" using rd(3,4) [OF pos] 1(4) by simp
    with 1(1) [OF True refl one [symmetric] refl _ 1(2,3)] pos True one show ?thesis
      by (subst read_fix_loop.simps) (simp add: case_prod_beta)
  qed (subst read_fix_loop.simps, simp)
qed

lemma recv_body_ahead:
  assumes io: "reads_from (so_read io) src" "reads_ahead (so_read io) src" and off: "0 \<le> offset" "offset < 2 ^ 31"
    and n: "n = sint content_length" "n < 2 ^ 31" "nat n \<le> nat offset + length (src s)"
  shows "\<exists>rq' s'. recv_body io content_length data offset rq s = (Inr (Some rq'), s')"
proof (cases "offset < n")
  case True
  define k where "k = nat (n - offset)"
  have k: "int k = n - offset" "k < 2 ^ 31" using True off n(2) by (simp_all add: k_def)
  have "sint (of_nat k :: i64) = n - offset" "to_int (n - offset) = n - offset"
    using k size_as_int64 [of k] to_int_id [of "int k"] by simp_all
  moreover have "fst (read_fix_loop (so_read io) s (n - offset)) = None"
    using n(3) off True by (intro read_fix_loop_ahead [OF io]) simp
  ultimately have "0 < fst (readFixSize (so_read io) s (nat (n - offset)))"
    using True k unfolding k_def [symmetric] by (auto simp: readFixSize_def split: prod.splits)
  with n True off show ?thesis
    by (auto simp: recv_body_def Let_def max_string_def split: prod.splits)
next
  case False
  with n off show ?thesis by (auto simp: recv_body_def Let_def max_string_def)
qed

subsection \<open>Whole requests\<close>

text \<open>What a session makes of the text of a request.\<close>

definition rq_delivered :: "http_request \<Rightarrow> http_request" where
  "rq_delivered rq = (rq_init (rq_received rq))\<lparr>rq_body := rq_body rq\<rparr>"

text \<open>\<open>cast\<close> reads back the decimal text of a length.\<close>

definition casts_lengths :: "(string \<Rightarrow> u64 option) \<Rightarrow> bool" where
  "casts_lengths cast \<longleftrightarrow> (\<forall>n < 2 ^ 64. cast (show_nat n) = Some (of_nat n))"

lemma recv_head_request:
  assumes io: "reads_from (so_read io) src" and buff: "0 < buff_size" "buff_size < 2 ^ 31"
    and mem: "length mem = buff_size" and rq: "rq_parsable rq"
    and read: "so_read io s (int buff_size) = (len, bs, s')" and bs: "bs = rq_head rq @ b" "0 < len"
  shows "\<exists>data rp. recv_head io buff_size mem 0 (new_request_parser raw) s = Some (Inr (Some (data, int (length b), rp)), s') \<and>
    rp_data rp = rq_received rq \<and> take (length b) data = b \<and> length b \<le> length data"
proof -
  have ok: "request_parser_ok (new_request_parser raw)" "rp_isFinished (new_request_parser raw) = 0"
    using new_request_parser_ok by blast+
  note step = recv_head_step [OF io buff mem ok read bs(2)]
  let ?data = "overwrite mem 0 bs"
  have "length bs \<le> length ?data" "length ?data < max_string" "take (length bs) ?data = rq_head rq @ b"
    using step(3) mem buff(2) bs(1) by (simp_all add: overwrite_def max_string_def)
  moreover have "length bs < int_limit" using step(3) buff(2) by (simp add: int_limit_def)
  ultimately obtain data' rp where
    ex: "rp_execute ?data (length bs) (new_request_parser raw) = Inr (length (rq_head rq), data', rp)"
    and rp: "rp_isFinished rp = 1" "\<not> rp_hasError rp" "rp_data rp = rq_received rq"
      "take (length b) data' = b" "length data' = length ?data"
    using parse_head [OF rq, of "length bs" ?data b raw] by blast
  moreover have "length b \<le> length data'" using rp(4) by (metis length_take min.cobounded1)
  ultimately show ?thesis using step(4) bs(1) by auto
qed

text \<open>A part of the stream's state that reading leaves alone.\<close>

definition reads_keep :: "('s, 'b) reader \<Rightarrow> ('s \<Rightarrow> 'c) \<Rightarrow> bool" where
  "reads_keep rd sink \<longleftrightarrow> (\<forall>s n. sink (snd (snd (rd s n))) = sink s)"

lemma read_fix_loop_keeps:
  "reads_keep rd sink \<Longrightarrow> sink (snd (snd (read_fix_loop rd s left))) = sink s"
proof (induction rd s left rule: read_fix_loop.induct)
  case (1 rd s left)
  obtain len bs s' where one: "rd s left = (len, bs, s')" by (cases "rd s left") auto
  with 1(2) have keep: "sink s' = sink s" unfolding reads_keep_def by (metis snd_conv)
  show ?case
  proof (cases "0 < left \<and> 0 < len")
    case True
    with 1(1) [OF _ refl one [symmetric] refl _ 1(2)] keep one show ?thesis
      by (subst read_fix_loop.simps) (simp add: case_prod_beta)
  qed (subst read_fix_loop.simps, use one keep in \<open>auto simp: case_prod_beta\<close>)
qed

lemma recv_body_keeps:
  assumes "reads_keep (so_read io) sink" "recv_body io content_length data offset rq s = (Inr (Some rq'), s')"
  shows "sink s' = sink s"
  using assms(2) read_fix_loop_keeps [OF assms(1)]
  by (auto simp: recv_body_def readFixSize_def Let_def case_prod_beta split: if_splits)

lemma recv_request_roundtrip:
  fixes sink :: "'s \<Rightarrow> string"
  assumes io: "reads_from (so_read io) src" "reads_ahead (so_read io) src"
    and buff: "0 < buff_size" "buff_size < 2 ^ 31" "length mem = buff_size"
    and rq: "rq_parsable rq" "length_unset rq" "length (rq_body rq) < 2 ^ 31" and cast: "casts_lengths cast"
    and s: "src s = rq_dump rq @ tl'"
    and read: "so_read io s (int buff_size) = (len, bs, s1)" "length (rq_head rq) \<le> length bs"
  shows "\<exists>s'. recvRequest io buff_size cast mem raw s = Some (Inr (Some (rq_delivered rq)), s') \<and>
    src s' = drop (length bs - length (rq_dump rq)) tl' \<and> (reads_keep (so_read io) sink \<longrightarrow> sink s' = sink s)"
proof -
  have "src s \<noteq> []" using s by (simp add: rq_dump_head rq_head_def)
  then have len: "0 < len" using io(2) buff(1) read(1) unfolding reads_ahead_def by (metis fst_conv of_nat_0_less_iff)
  have "src s = bs @ src s1" using reads_fromD(4) [OF io(1) _ read(1) len] buff(1) by simp
  then have whole: "rq_head rq @ rq_body rq @ tl' = bs @ src s1" using s by (simp add: rq_dump_head)
  with read(2) obtain b where b: "bs = rq_head rq @ b" "b @ src s1 = rq_body rq @ tl'"
    by (metis append_eq_append_conv_if append_take_drop_id)
  from recv_head_request [OF io(1) buff rq(1) read(1) b(1) len] obtain data rp where
    head: "recv_head io buff_size mem 0 (new_request_parser raw) s = Some (Inr (Some (data, int (length b), rp)), s1)"
    and rp: "rp_data rp = rq_received rq" "take (length b) data = b" "length b \<le> length data" by blast
  let ?n = "length (rq_body rq)"
  have n: "rp_getContentLength cast rp = of_nat ?n"
    using received_length [OF rq(2)] cast rq(3) rp(1) by (simp add: rp_getContentLength_def casts_lengths_def)
  then have sn: "int ?n = sint (rp_getContentLength cast rp)" using rq(3) by (simp add: size_as_int64)
  have lb: "0 \<le> int (length b)" "int (length b) < 2 ^ 31" "nat (int (length b)) \<le> length data"
    using reads_fromD(2,3) [OF io(1) _ read(1)] buff len b(1) rp(3) by simp_all
  have "?n \<le> length b + length (src s1)" using arg_cong [OF b(2), of length] by simp
  with recv_body_ahead [OF io lb(1,2) sn] rq(3) obtain rq' s' where
    body: "recv_body io (rp_getContentLength cast rp) data (int (length b)) (rp_data rp) s1 = (Inr (Some rq'), s')"
    by fastforce
  have "rq' = (rq_received rq)\<lparr>rq_body := rq_body rq\<rparr> \<and> src s' = drop (length bs - length (rq_dump rq)) tl'"
  proof (cases "length b < ?n")
    case True
    with recv_body_spec [OF io(1) lb(1,3,2) sn body] rp obtain body' where
      "rq' = (rq_received rq)\<lparr>rq_body := body'\<rparr>" "length body' = ?n" "b @ src s1 = body' @ src s'"
      by (auto split: if_splits)
    with b(2) True show ?thesis by (simp add: b(1) rq_dump_head)
  next
    case False
    have "take ?n data = take ?n b" using arg_cong [OF rp(2), of "take ?n"] False by (simp add: min_def)
    also have "\<dots> = rq_body rq" using arg_cong [OF b(2), of "take ?n"] False by simp
    finally have "rq' = (rq_received rq)\<lparr>rq_body := rq_body rq\<rparr>" "s' = s1"
      using recv_body_spec [OF io(1) lb(1,3,2) sn body] rp(1) False
      by (auto simp: rq_received_def new_request_def split: if_splits)
    moreover have "src s1 = drop (length b - ?n) tl'"
      using arg_cong [OF b(2), of "drop (length b)"] False by simp
    ultimately show ?thesis by (simp add: b(1) rq_dump_head)
  qed
  moreover have "sink s' = sink s" if "reads_keep (so_read io) sink"
    using recv_body_keeps [OF that body] that read(1) unfolding reads_keep_def by (metis snd_conv)
  ultimately show ?thesis
    by (simp add: recvRequest_def head body rq_delivered_def rq_init_unchanged)
qed

text \<open>
  C31: \<open>recvRequest\<close> reads back what \<open>HttpRequest::dump\<close> writes, for a request of the parser's grammar
  (\<open>rq_parsable\<close>: not M-SEARCH, version 1.0 or 1.1, plain path, query, fragment and fields) that has no
  content-length field beside an empty body (\<open>length_unset\<close>), does not ask for a websocket and whose body
  is below 2 GiB, from a stream whose first read brings the whole head and which does not fail while bytes
  are left (\<open>reads_ahead\<close>), with \<open>lexical_cast\<close> reading decimal lengths: method, target, version, fields
  and body arrive, and \<open>m_close\<close> is what the connection field says. Of the bytes behind the request,
  those the first read had taken are gone with its buffer: a second request that a client sends ahead is
  lost.
\<close>

theorem session_roundtrip:
  assumes "reads_from (so_read io) src" "reads_ahead (so_read io) src"
    and "0 < buff_size" "buff_size < 2 ^ 31" "length mem = buff_size"
    and "rq_parsable rq" "length_unset rq" "length (rq_body rq) < 2 ^ 31" "\<not> rq_websocket rq"
    and "casts_lengths cast" "src s = rq_dump rq @ tl'"
    and "so_read io s (int buff_size) = (len, bs, s1)" "length (rq_head rq) \<le> length bs"
  shows "\<exists>rq' s'. recvRequest io buff_size cast mem raw s = Some (Inr (Some rq'), s') \<and>
    rq' = (rq_received rq)\<lparr>rq_body := rq_body rq, rq_close := rq_close rq\<rparr> \<and>
    src s' = drop (length bs - length (rq_dump rq)) tl'"
proof -
  have "rq_delivered rq = (rq_received rq)\<lparr>rq_body := rq_body rq, rq_close := rq_close rq\<rparr>"
    using received_close [OF assms(9)] by (auto simp: rq_delivered_def rq_init_def Let_def split: if_splits)
  with recv_request_roundtrip [OF assms(1-8) assms(10-13), of raw] show ?thesis by auto
qed

subsection \<open>A wire\<close>

text \<open>A stream of what is still to be received and what has been sent.\<close>

definition wire_ops :: "(string \<times> string) stream_ops" where
  "wire_ops =
    \<lparr>so_read = (\<lambda>(inp, out) n. let bs = take (nat n) inp in (int (length bs), bs, (drop (nat n) inp, out))),
     so_write = (\<lambda>(inp, out) bs. (int (length bs), (inp, out @ bs))),
     so_close = (\<lambda>w. w)\<rparr>"

lemma wire_reads: "reads_from (so_read wire_ops) fst" "reads_ahead (so_read wire_ops) fst"
  by (auto simp: reads_from_def reads_ahead_def wire_ops_def Let_def min_def split: if_splits)

definition nat_of_text :: "string \<Rightarrow> nat" where
  "nat_of_text s = foldl (\<lambda>n c. n * 10 + (char_code c - 48)) 0 s"

lemma nat_of_show: "nat_of_text (show_nat n) = n"
proof (induction n rule: show_nat.induct)
  case (1 n)
  show ?case
  proof (cases "n < 10")
    case True
    then show ?thesis by (subst show_nat.simps) (simp add: nat_of_text_def char_code_def)
  next
    case False
    with 1 show ?thesis by (subst show_nat.simps) (simp add: nat_of_text_def char_code_def)
  qed
qed

lemma text_casts: "casts_lengths (\<lambda>s. Some (of_nat (nat_of_text s)))"
  by (simp add: casts_lengths_def nat_of_show)

theorem recv_request_returns_witness:
  "\<exists>res s'. recvRequest wire_ops 100 (\<lambda>s. Some (of_nat (nat_of_text s))) (replicate 100 (CHR ''x'')) sample_parser
      (''GET / HT'', []) = Some (res, s') \<and>
    (case res of Inl err \<Rightarrow> err = LengthError | _ \<Rightarrow> True)"
proof -
  from recv_request_returns [OF wire_reads(1), where buff_size = 100 and mem = "replicate 100 (CHR ''x'')" and
      raw = sample_parser and s = "(''GET / HT'', [])" and cast = "\<lambda>s. Some (of_nat (nat_of_text s))"]
  obtain res s' where r: "recvRequest wire_ops 100 (\<lambda>s. Some (of_nat (nat_of_text s))) (replicate 100 (CHR ''x'')) sample_parser
      (''GET / HT'', []) = Some (res, s')" and "case res of Inl err \<Rightarrow> err = LengthError | _ \<Rightarrow> True"
    by (fastforce split: sum.splits)
  then show ?thesis by (intro exI conjI)
qed

theorem session_roundtrip_witness:
  "\<exists>rq' s'. recvRequest wire_ops 300 (\<lambda>s. Some (of_nat (nat_of_text s))) (replicate 300 (CHR ''x'')) sample_parser
      (rq_dump sample_request @ ''GET'', []) = Some (Inr (Some rq'), s') \<and>
    rq_body rq' = ''hello'' \<and> \<not> rq_close rq' \<and> fst s' = []"
proof -
  have p: "rq_parsable sample_request" by (rule sample_parsable)
  have len: "length (rq_dump sample_request @ ''GET'') \<le> 300" by code_simp
  moreover have "length (rq_head sample_request) \<le> length (rq_dump sample_request @ ''GET'')" by (simp add: rq_dump_head)
  moreover have "length_unset sample_request" "length (rq_body sample_request) < 2 ^ 31" "\<not> rq_websocket sample_request"
    by (simp_all add: length_unset_def sample_request_def new_request_def)
  ultimately obtain rq' s' where
    "recvRequest wire_ops 300 (\<lambda>s. Some (of_nat (nat_of_text s))) (replicate 300 (CHR ''x'')) sample_parser
      (rq_dump sample_request @ ''GET'', []) = Some (Inr (Some rq'), s')"
    "rq' = (rq_received sample_request)\<lparr>rq_body := rq_body sample_request, rq_close := rq_close sample_request\<rparr>"
    "fst s' = drop (length (rq_dump sample_request @ ''GET'') - length (rq_dump sample_request)) ''GET''"
    using session_roundtrip [OF wire_reads, where buff_size = 300 and mem = "replicate 300 (CHR ''x'')" and
        rq = sample_request and cast = "\<lambda>s. Some (of_nat (nat_of_text s))" and raw = sample_parser and
        s = "(rq_dump sample_request @ ''GET'', [])" and tl' = "''GET''" and
        len = "int (length (rq_dump sample_request @ ''GET''))" and bs = "rq_dump sample_request @ ''GET''" and
        ?s1.0 = "([], [])"] p text_casts
    by (auto simp: wire_ops_def Let_def)
  then show ?thesis by (auto simp: sample_request_def new_request_def)
qed

end
