(* ===== verification/Tcp_Server.thy ===== *)
theory Tcp_Server
  imports Socket
begin

text \<open>
  The server that accepts connections, \<open>inc/tcp_server.h\<close> and \<open>src/tcp_server.cpp\<close>. Sockets are shared
  between the server and the fibers that accept on them, so a \<open>Socket::ptr\<close> is an index into a heap of
  sockets. What a function schedules on a worker is part of its result; a virtual \<open>handleClient\<close> is a
  task of its own.
\<close>

subsection \<open>The configuration\<close>

record tcp_server_conf =
  tc_address :: "string list"
  tc_keepalive :: int
  tc_timeout :: int
  tc_ssl :: int
  tc_id :: string
  tc_type :: string
  tc_name :: string
  tc_cert_file :: string
  tc_key_file :: string
  tc_accept_worker :: string
  tc_io_worker :: string
  tc_process_worker :: string
  tc_args :: "string \<Rightarrow> string option"

definition default_conf :: tcp_server_conf where
  "default_conf =
    \<lparr>tc_address = [], tc_keepalive = 0, tc_timeout = 1000 * 2 * 60, tc_ssl = 0, tc_id = [], tc_type = ''http'',
     tc_name = [], tc_cert_file = [], tc_key_file = [], tc_accept_worker = [], tc_io_worker = [],
     tc_process_worker = [], tc_args = Map.empty\<rparr>"

definition conf_isValid :: "tcp_server_conf \<Rightarrow> bool" where
  "conf_isValid c \<longleftrightarrow> tc_address c \<noteq> []"

text \<open>\<open>operator==\<close>: every field is compared.\<close>

definition conf_eq :: "tcp_server_conf \<Rightarrow> tcp_server_conf \<Rightarrow> bool" where
  "conf_eq a b \<longleftrightarrow>
    tc_address a = tc_address b \<and> tc_keepalive a = tc_keepalive b \<and> tc_timeout a = tc_timeout b \<and>
    tc_name a = tc_name b \<and> tc_ssl a = tc_ssl b \<and> tc_cert_file a = tc_cert_file b \<and>
    tc_key_file a = tc_key_file b \<and> tc_accept_worker a = tc_accept_worker b \<and>
    tc_io_worker a = tc_io_worker b \<and> tc_process_worker a = tc_process_worker b \<and>
    tc_args a = tc_args b \<and> tc_id a = tc_id b \<and> tc_type a = tc_type b"

subsection \<open>The server\<close>

record tcp_server =
  ts_socks :: "nat list"
  ts_recvTimeout :: u64
  ts_name :: string
  ts_type :: string
  ts_isStop :: bool
  ts_ssl :: bool
  ts_conf :: "tcp_server_conf option"

datatype tcp_task = StartAccept nat | StopSockets | HandleClient nat

type_synonym sock_heap = "socket list"

text \<open>\<open>read_timeout\<close> is the value of the configuration variable \<open>tcp_server.read_timeout\<close>.\<close>

definition new_tcp_server :: "u64 \<Rightarrow> tcp_server" where
  "new_tcp_server read_timeout =
    \<lparr>ts_socks = [], ts_recvTimeout = read_timeout, ts_name = ''ms v1.0'', ts_type = ''tcp'', ts_isStop = True,
     ts_ssl = False, ts_conf = None\<rparr>"

definition ts_setRecvTimeout :: "u64 \<Rightarrow> tcp_server \<Rightarrow> tcp_server" where
  "ts_setRecvTimeout v srv = srv\<lparr>ts_recvTimeout := v\<rparr>"

definition ts_setName :: "string \<Rightarrow> tcp_server \<Rightarrow> tcp_server" where
  "ts_setName v srv = srv\<lparr>ts_name := v\<rparr>"

definition ts_setConf :: "tcp_server_conf option \<Rightarrow> tcp_server \<Rightarrow> tcp_server" where
  "ts_setConf v srv = srv\<lparr>ts_conf := v\<rparr>"

definition ts_setConf_value :: "tcp_server_conf \<Rightarrow> tcp_server \<Rightarrow> tcp_server" where
  "ts_setConf_value v srv = srv\<lparr>ts_conf := Some v\<rparr>"

text \<open>Closing the sockets of a list of pointers, in order.\<close>

fun close_all :: "'k sock_calls \<Rightarrow> nat list \<Rightarrow> sock_heap \<Rightarrow> 'k \<Rightarrow> sock_heap \<times> 'k" where
  "close_all os [] heap k = (heap, k)"
| "close_all os (p # ps) heap k =
    (let (_, s, k) = sock_close os (heap ! p) k in close_all os ps (heap[p := s]) k)"

definition destroy_tcp_server :: "'k sock_calls \<Rightarrow> tcp_server \<Rightarrow> sock_heap \<Rightarrow> 'k \<Rightarrow> tcp_server \<times> sock_heap \<times> 'k" where
  "destroy_tcp_server os srv heap k =
    (let (heap, k) = close_all os (ts_socks srv) heap k in (srv\<lparr>ts_socks := []\<rparr>, heap, k))"

subsection \<open>Binding\<close>

definition SOMAXCONN :: int where "SOMAXCONN = 4096"

text \<open>
  The loop over the addresses. A socket that cannot be bound or cannot listen goes out of scope at the end of
  its turn: its destructor closes it.
\<close>

fun bind_loop ::
    "endian \<Rightarrow> 'k sock_calls \<Rightarrow> address list \<Rightarrow> tcp_server \<Rightarrow> address list \<Rightarrow> sock_heap \<Rightarrow> 'k \<Rightarrow>
      tcp_server \<times> address list \<times> sock_heap \<times> 'k" where
  "bind_loop h os [] srv fails heap k = (srv, fails, heap, k)"
| "bind_loop h os (addr # addrs) srv fails heap k =
    (let (bound, sock, k) = sock_bind h os (CreateTCP addr) addr k
     in if \<not> bound then
          let (_, _, k) = sock_close os sock k in bind_loop h os addrs srv (fails @ [addr]) heap k
        else
          let (listening, k) = sock_listen os sock SOMAXCONN k
          in if \<not> listening then
               let (_, _, k) = sock_close os sock k in bind_loop h os addrs srv (fails @ [addr]) heap k
             else
               bind_loop h os addrs (srv\<lparr>ts_socks := ts_socks srv @ [length heap]\<rparr>) fails (heap @ [sock]) k)"

text \<open>\<open>fails\<close> is the caller's vector: what it held before counts as a failure.\<close>

definition ts_bind_all ::
    "endian \<Rightarrow> 'k sock_calls \<Rightarrow> address list \<Rightarrow> address list \<Rightarrow> bool \<Rightarrow> tcp_server \<Rightarrow> sock_heap \<Rightarrow> 'k \<Rightarrow>
      bool \<times> tcp_server \<times> address list \<times> sock_heap \<times> 'k" where
  "ts_bind_all h os addrs fails ssl srv heap k =
    (let (srv, fails, heap, k) = bind_loop h os addrs (srv\<lparr>ts_ssl := ssl\<rparr>) fails heap k
     in (fails = [], srv, fails, heap, k))"

definition ts_bind ::
    "endian \<Rightarrow> 'k sock_calls \<Rightarrow> address \<Rightarrow> bool \<Rightarrow> tcp_server \<Rightarrow> sock_heap \<Rightarrow> 'k \<Rightarrow>
      bool \<times> tcp_server \<times> sock_heap \<times> 'k" where
  "ts_bind h os addr ssl srv heap k =
    (let (ok, srv, _, heap, k) = ts_bind_all h os [addr] [] ssl srv heap k in (ok, srv, heap, k))"

subsection \<open>Starting, stopping, accepting\<close>

definition ts_start :: "tcp_server \<Rightarrow> bool \<times> tcp_server \<times> tcp_task list" where
  "ts_start srv =
    (if \<not> ts_isStop srv then (True, srv, [])
     else (True, srv\<lparr>ts_isStop := False\<rparr>, map StartAccept (ts_socks srv)))"

definition ts_stop :: "tcp_server \<Rightarrow> tcp_server \<times> tcp_task list" where
  "ts_stop srv = (srv\<lparr>ts_isStop := True\<rparr>, [StopSockets])"

text \<open>The task that \<open>stop\<close> schedules, on the I/O manager of the thread that runs it.\<close>

fun cancel_and_close ::
    "bool \<Rightarrow> 'k sock_calls \<Rightarrow> nat list \<Rightarrow> 'f io_manager \<Rightarrow> sock_heap \<Rightarrow> 'k \<Rightarrow>
      io_error + ('f io_manager \<times> 'f scheduled list \<times> sock_heap \<times> 'k)" where
  "cancel_and_close fails os [] io heap k = Inr (io, [], heap, k)"
| "cancel_and_close fails os (p # ps) io heap k =
    bindR (sock_cancelAll fails io (heap ! p)) (\<lambda>(_, io, woken).
      let (_, s, k) = sock_close os (heap ! p) k
      in bindR (cancel_and_close fails os ps io (heap[p := s]) k) (\<lambda>(io, woken', heap, k).
           Inr (io, woken @ woken', heap, k)))"

definition ts_stop_task ::
    "bool \<Rightarrow> 'k sock_calls \<Rightarrow> tcp_server \<Rightarrow> 'f io_manager \<Rightarrow> sock_heap \<Rightarrow> 'k \<Rightarrow>
      io_error + (tcp_server \<times> 'f io_manager \<times> 'f scheduled list \<times> sock_heap \<times> 'k)" where
  "ts_stop_task fails os srv io heap k =
    bindR (cancel_and_close fails os (ts_socks srv) io heap k) (\<lambda>(io, woken, heap, k).
      Inr (srv\<lparr>ts_socks := []\<rparr>, io, woken, heap, k))"

text \<open>
  \<open>startAccept\<close>: one turn of the loop, and the loop. The server and the sockets are shared with the threads
  that call \<open>stop\<close> and \<open>start\<close>: \<open>view\<close> says what they are when the loop looks at them.
\<close>

definition accept_turn ::
    "endian \<Rightarrow> 'k sock_calls \<Rightarrow> tcp_server \<Rightarrow> nat \<Rightarrow> sock_heap \<Rightarrow> 'k \<Rightarrow> fd_error + (tcp_task list \<times> sock_heap \<times> 'k)" where
  "accept_turn h os srv p heap k =
    bindR (sock_accept h os (heap ! p) k) (\<lambda>(client, k).
      case client of
        None \<Rightarrow> Inr ([], heap, k)
      | Some c \<Rightarrow>
          Inr ([HandleClient (length heap)], heap @ [c], setRecvTimeout os c (sint (ts_recvTimeout srv)) k))"

partial_function (option) startAccept ::
    "endian \<Rightarrow> 'k sock_calls \<Rightarrow> (sock_heap \<Rightarrow> 'k \<Rightarrow> tcp_server \<times> sock_heap) \<Rightarrow> nat \<Rightarrow> tcp_task list \<Rightarrow> sock_heap \<Rightarrow> 'k \<Rightarrow>
      (fd_error + (tcp_task list \<times> sock_heap \<times> 'k)) option" where
  "startAccept h os view p acc heap k =
    (let (srv, heap) = view heap k
     in if ts_isStop srv then Some (Inr (acc, heap, k))
        else (case accept_turn h os srv p heap k of
                Inl err \<Rightarrow> Some (Inl err)
              | Inr (new, heap, k) \<Rightarrow> startAccept h os view p (acc @ new) heap k))"

text \<open>The text of a server; \<open>worker\<close> and \<open>accept\<close> are the names of its schedulers.\<close>

definition ts_toString :: "endian \<Rightarrow> string option \<Rightarrow> string option \<Rightarrow> tcp_server \<Rightarrow> sock_heap \<Rightarrow> string \<Rightarrow> string" where
  "ts_toString h worker accept srv heap pre =
    (let name = (\<lambda>n. case n of None \<Rightarrow> [] | Some s \<Rightarrow> s);
         pfx = (if pre = [] then ''    '' else pre)
     in pre @ ''[type='' @ ts_type srv @ '' name='' @ ts_name srv @ '' worker='' @ name worker @
        '' accept='' @ name accept @ '' recv_timeout='' @ show_nat (unat (ts_recvTimeout srv)) @ '']'' @ [LF] @
        concat (map (\<lambda>p. pfx @ pfx @ sock_dump h (heap ! p) @ [LF]) (ts_socks srv)))"

subsection \<open>Binding\<close>

lemma ensure_sock_family: "ensure_sock os s k = (s', k') \<Longrightarrow> s_family s' = s_family s"
  by (auto simp: ensure_sock_def newSock_def Let_def split: if_splits prod.splits)

lemma getLocalAddress_keeps:
  "sock_getLocalAddress h os s k = (a, s', k') \<Longrightarrow> s_sock s' = s_sock s \<and> s_family s' = s_family s"
  by (auto simp: sock_getLocalAddress_def split: option.splits prod.splits)

lemma bind_valid:
  assumes "sock_bind h os s addr k = (True, s', k')"
  shows "isValid s'" "s_family s' = s_family s"
  using assms
  by (auto simp: sock_bind_def isValid_def Let_def split: if_splits prod.splits
      dest!: ensure_sock_family getLocalAddress_keeps)

text \<open>A \<open>bind\<close> that succeeds has called the system's on the descriptor of the socket it leaves.\<close>

lemma bind_called:
  assumes "sock_bind h os s addr k = (True, s', k')"
  shows "\<exists>k1 k2. os_bind os (s_sock s') addr k1 = (0, k2)"
proof -
  obtain s1 k1 where e: "ensure_sock os s k = (s1, k1)" by fastforce
  from assms obtain k2 k3 where b: "os_bind os (s_sock s1) addr k2 = (0, k3)"
    and l: "\<exists>a. sock_getLocalAddress h os s1 k3 = (a, s', k')"
    by (auto simp: sock_bind_def e Let_def split: if_splits prod.splits)
  with getLocalAddress_keeps show ?thesis by metis
qed

text \<open>
  What became of one address: a socket of its family whose descriptor the system has bound to it and
  made listen, or a \<open>bind\<close> or \<open>listen\<close> that failed.
\<close>

definition opened_on :: "'k sock_calls \<Rightarrow> address \<Rightarrow> socket \<Rightarrow> bool" where
  "opened_on os a s \<longleftrightarrow> s_sock s \<noteq> - 1 \<and> s_family s = uint (getFamily a) \<and>
     (\<exists>k k'. os_bind os (s_sock s) a k = (0, k')) \<and> (\<exists>k k'. os_listen os (s_sock s) SOMAXCONN k = (0, k'))"

definition refused :: "endian \<Rightarrow> 'k sock_calls \<Rightarrow> address \<Rightarrow> bool" where
  "refused h os a \<longleftrightarrow>
     (\<exists>k bound s k'. sock_bind h os (CreateTCP a) a k = (bound, s, k') \<and>
        (\<not> bound \<or> fst (os_listen os (s_sock s) SOMAXCONN k') \<noteq> 0))"

lemma bind_loop_spec:
  assumes "bind_loop h os addrs srv fails heap k = (srv', fails', heap', k')"
  shows "\<exists>outs. map fst outs = addrs \<and> fails' = fails @ map fst (filter (\<lambda>x. snd x = None) outs) \<and>
    heap' = heap @ List.map_filter snd outs \<and>
    list_all (\<lambda>(a, r). case r of Some s \<Rightarrow> opened_on os a s | None \<Rightarrow> refused h os a) outs \<and>
    srv' = srv\<lparr>ts_socks := ts_socks srv @ [length heap..<length heap']\<rparr>"
  using assms
proof (induction addrs arbitrary: srv fails heap k)
  case Nil
  then show ?case by (simp add: map_filter_simps)
next
  case (Cons addr addrs)
  obtain bound sock k1 where b: "sock_bind h os (CreateTCP addr) addr k = (bound, sock, k1)" using prod_cases3 by blast
  obtain lis k2 where l: "sock_listen os sock SOMAXCONN k1 = (lis, k2)" by fastforce
  show ?case
  proof (cases "bound \<and> lis")
    case True
    with Cons.prems b l have "bind_loop h os addrs (srv\<lparr>ts_socks := ts_socks srv @ [length heap]\<rparr>) fails (heap @ [sock]) k2 =
        (srv', fails', heap', k')" by simp
    from Cons.IH [OF this] obtain outs where r: "map fst outs = addrs"
      "fails' = fails @ map fst (filter (\<lambda>x. snd x = None) outs)" "heap' = heap @ sock # List.map_filter snd outs"
      "list_all (\<lambda>(a, r). case r of Some s \<Rightarrow> opened_on os a s | None \<Rightarrow> refused h os a) outs"
      "srv' = srv\<lparr>ts_socks := ts_socks srv @ [length heap] @ [Suc (length heap)..<length heap']\<rparr>" by auto
    have bt: "sock_bind h os (CreateTCP addr) addr k = (True, sock, k1)" using b True by simp
    have "os_listen os (s_sock sock) SOMAXCONN k1 = (0, k2)"
      using l True by (auto simp: sock_listen_def split: if_splits prod.splits)
    then have "opened_on os addr sock"
      using bind_valid [OF bt] bind_called [OF bt]
      by (auto simp: opened_on_def isValid_def CreateTCP_def new_socket_def)
    moreover have "[length heap..<length heap'] = [length heap] @ [Suc (length heap)..<length heap']"
      unfolding r(3) by (subst upt_conv_Cons) simp_all
    ultimately show ?thesis using r by (intro exI [of _ "(addr, Some sock) # outs"]) (simp add: map_filter_simps)
  next
    case False
    then obtain k3 where "bind_loop h os addrs srv (fails @ [addr]) heap k3 = (srv', fails', heap', k')"
      using Cons.prems b l by (cases bound) (auto simp: case_prod_beta)
    from Cons.IH [OF this] obtain outs where r: "map fst outs = addrs"
      "fails' = (fails @ [addr]) @ map fst (filter (\<lambda>x. snd x = None) outs)" "heap' = heap @ List.map_filter snd outs"
      "list_all (\<lambda>(a, r). case r of Some s \<Rightarrow> opened_on os a s | None \<Rightarrow> refused h os a) outs"
      "srv' = srv\<lparr>ts_socks := ts_socks srv @ [length heap..<length heap']\<rparr>" by blast
    have "refused h os addr"
    proof (cases bound)
      case True
      with False have "\<not> lis" by simp
      with l bind_valid(1) [of h os "CreateTCP addr" addr k sock k1] b True
      have "fst (os_listen os (s_sock sock) SOMAXCONN k1) \<noteq> 0"
        by (auto simp: sock_listen_def split: if_splits prod.splits)
      with b show ?thesis unfolding refused_def by blast
    next
      case False
      with b show ?thesis unfolding refused_def by blast
    qed
    with r show ?thesis by (intro exI [of _ "(addr, None) # outs"]) (simp add: map_filter_simps)
  qed
qed

text \<open>
  C33: binding a list of addresses tries every one, with one outcome each (\<open>outs\<close>). The server keeps,
  in order, a new socket for each address that has one: of the address's family, with a descriptor on
  which the system's \<open>bind\<close> to that address and its \<open>listen\<close> have returned 0. The addresses reported, in
  order, are exactly the others: there \<open>bind\<close> or \<open>listen\<close> failed. The others' sockets are kept even when
  one has failed, and the result is true when nothing has failed, now or before.
\<close>

theorem bind_all_listens:
  assumes "ts_bind_all h os addrs fails ssl srv heap k = (ok, srv', fails', heap', k')"
  shows "\<exists>outs. map fst outs = addrs \<and> fails' = fails @ map fst (filter (\<lambda>x. snd x = None) outs) \<and>
    heap' = heap @ List.map_filter snd outs \<and>
    list_all (\<lambda>(a, r). case r of Some s \<Rightarrow> opened_on os a s | None \<Rightarrow> refused h os a) outs \<and>
    ts_socks srv' = ts_socks srv @ [length heap..<length heap'] \<and> ts_ssl srv' = ssl \<and> (ok \<longleftrightarrow> fails' = [])"
proof -
  from assms have l: "bind_loop h os addrs (srv\<lparr>ts_ssl := ssl\<rparr>) fails heap k = (srv', fails', heap', k')"
    and ok: "ok \<longleftrightarrow> fails' = []"
    by (auto simp: ts_bind_all_def split: prod.splits)
  from bind_loop_spec [OF l] ok show ?thesis by (elim exE conjE) (rule exI, simp)
qed

theorem bind_all_listens_witness:
  "\<exists>srv' s k'. ts_bind_all LittleEndian willing_os [IPv4Address (new_IPv4 LittleEndian 0 80)] [] False
      (new_tcp_server 0) [] () = (True, srv', [], [s], k') \<and>
    opened_on willing_os (IPv4Address (new_IPv4 LittleEndian 0 80)) s \<and> ts_socks srv' = [0]"
proof -
  obtain srv' s k' where
    b: "ts_bind_all LittleEndian willing_os [IPv4Address (new_IPv4 LittleEndian 0 80)] [] False (new_tcp_server 0) [] () =
      (True, srv', [], [s], k')"
    by (simp add: ts_bind_all_def CreateTCP_def new_socket_def sock_bind_def ensure_sock_def newSock_def isValid_def
        willing_os_def getFamily_def new_IPv4_def AF_INET_def sock_getLocalAddress_def name_of_def sock_listen_def
        case_prod_beta Let_def)
  from bind_all_listens [OF b] obtain outs where "map fst outs = [IPv4Address (new_IPv4 LittleEndian 0 80)]"
    "[s] = [] @ List.map_filter snd outs"
    "list_all (\<lambda>(a, r). case r of Some s \<Rightarrow> opened_on willing_os a s | None \<Rightarrow> refused LittleEndian willing_os a) outs"
    "ts_socks srv' = ts_socks (new_tcp_server 0) @ [length ([] :: sock_heap)..<length [s]]" by (elim exE conjE)
  then have "opened_on willing_os (IPv4Address (new_IPv4 LittleEndian 0 80)) s" "ts_socks srv' = [0]"
    by (cases outs; auto simp: map_filter_simps new_tcp_server_def split: option.splits)+
  with b show ?thesis by blast
qed

subsection \<open>Stopping and starting again\<close>

lemma sock_close_closed: "sock_close os s k = (b, s', k') \<Longrightarrow> s_sock s' = - 1"
  by (auto simp: sock_close_def Let_def split: if_splits)

lemma cancel_and_close_closed:
  assumes "cancel_and_close fails os ps io heap k = Inr (io', woken, heap', k')"
  shows "length heap' = length heap \<and> (\<forall>p. s_sock (heap ! p) = - 1 \<and> p < length heap \<longrightarrow> s_sock (heap' ! p) = - 1) \<and>
    (\<forall>p \<in> set ps. p < length heap \<longrightarrow> s_sock (heap' ! p) = - 1)"
  using assms
proof (induction ps arbitrary: io heap k woken)
  case (Cons p ps)
  obtain b s k1 where close: "sock_close os (heap ! p) k = (b, s, k1)" using prod_cases3 by blast
  from Cons.prems close obtain io1 woken1 where "cancel_and_close fails os ps io1 (heap[p := s]) k1 = Inr (io', woken1, heap', k')"
    by (auto simp: bindR_eq_Inr split: prod.splits)
  note IH = Cons.IH [OF this]
  have step: "s_sock (heap[p := s] ! q) = - 1" if "s_sock (heap ! q) = - 1 \<or> q = p" "q < length heap" for q
    using that sock_close_closed [OF close] by (cases "q = p") auto
  from IH have len: "length heap' = length heap" by simp
  from IH have old: "s_sock (heap' ! q) = - 1" if "s_sock (heap ! q) = - 1 \<or> q = p" "q < length heap" for q
    using step [OF that] that(2) by simp
  from IH have rest: "s_sock (heap' ! q) = - 1" if "q \<in> set ps" "q < length heap" for q
    using that by simp
  show ?case by (intro conjI allI ballI impI) (simp only: len, simp add: old, metis old rest set_ConsD)
qed simp

lemma accept_closed:
  assumes "\<And>k. fst (os_accept os (- 1) k) = - 1" "s_sock (heap ! p) = - 1"
  shows "\<exists>k'. accept_turn h os srv p heap k = Inr ([], heap, k')"
  using assms(1) [of k] by (auto simp: accept_turn_def sock_accept_def assms(2) split: prod.splits)

lemma accept_closed_never_returns:
  assumes "startAccept h os view p acc heap k = Some y" "\<not> ts_isStop srv"
  shows "view = (\<lambda>heap k. (srv, heap)) \<longrightarrow> s_sock (heap ! p) = - 1 \<longrightarrow> (\<forall>k. fst (os_accept os (- 1) k) = - 1) \<longrightarrow> False"
proof (rule startAccept.raw_induct [where
      P = "\<lambda>h os view p acc heap k y. view = (\<lambda>heap k. (srv, heap)) \<longrightarrow> s_sock (heap ! p) = - 1 \<longrightarrow>
        (\<forall>k. fst (os_accept os (- 1) k) = - 1) \<longrightarrow> False", OF _ assms(1)], intro impI)
  fix f h os view p acc heap k y
  assume IH: "\<And>h os view p acc heap k y. f h os view p acc heap k = Some y \<Longrightarrow> view = (\<lambda>heap k. (srv, heap)) \<longrightarrow>
      s_sock (heap ! p) = - 1 \<longrightarrow> (\<forall>k. fst (os_accept os (- 1) k) = - 1) \<longrightarrow> False"
    and body: "(let (srv, heap) = view heap k
      in if ts_isStop srv then Some (Inr (acc, heap, k))
         else case accept_turn h os srv p heap k of Inl err \<Rightarrow> Some (Inl err)
              | Inr (new, heap, k) \<Rightarrow> f h os view p (acc @ new) heap k) = Some y"
    and view: "view = (\<lambda>heap k. (srv, heap))" and closed: "s_sock (heap ! p) = - 1"
    and acc: "\<forall>k. fst (os_accept os (- 1) k) = - 1"
  obtain k' where "accept_turn h os srv p heap k = Inr ([], heap, k')"
    using accept_closed [of os heap p h srv k] closed acc by blast
  with body view assms(2) have "f h os view p acc heap k' = Some y" by simp
  from IH [OF this] view closed acc show False by blast
qed

text \<open>
  C34: a server that is started again before the task of its \<open>stop\<close> has run loses its sockets to that task and
  runs on: it schedules new accepting fibers on the same sockets, the task closes them, and each of the
  fibers loops for ever on a closed socket without a client and without a wait.
\<close>

theorem restart_race_spins:
  assumes "ts_stop_task fails os (fst (snd (ts_start (fst (ts_stop srv))))) io heap k = Inr (srv', io', woken, heap', k')"
    and "p \<in> set (ts_socks srv)" "p < length heap" "\<forall>k. fst (os_accept os (- 1) k) = - 1"
  shows "StartAccept p \<in> set (snd (snd (ts_start (fst (ts_stop srv))))) \<and> ts_socks srv' = [] \<and>
    s_sock (heap' ! p) = - 1 \<and> startAccept h os (\<lambda>heap k. (srv', heap)) p [] heap' k'' = None"
proof -
  have start: "fst (snd (ts_start (fst (ts_stop srv)))) = srv\<lparr>ts_isStop := False\<rparr>"
    "snd (snd (ts_start (fst (ts_stop srv)))) = map StartAccept (ts_socks srv)"
    by (simp_all add: ts_start_def ts_stop_def)
  from assms(1) have srv': "srv' = srv\<lparr>ts_isStop := False, ts_socks := []\<rparr>"
    and run: "cancel_and_close fails os (ts_socks srv) io heap k = Inr (io', woken, heap', k')"
    by (auto simp: start ts_stop_task_def bindR_eq_Inr)
  have closed: "s_sock (heap' ! p) = - 1" using cancel_and_close_closed [OF run] assms(2,3) by blast
  moreover have "startAccept h os (\<lambda>heap k. (srv', heap)) p [] heap' k'' = None"
    using accept_closed_never_returns [of h os "\<lambda>heap k. (srv', heap)" p "[]" heap' k'' _ srv'] closed assms(4)
    by (cases "startAccept h os (\<lambda>heap k. (srv', heap)) p [] heap' k''") (auto simp: srv')
  ultimately show ?thesis using assms(2) by (simp add: start srv')
qed

text \<open>A descriptor without a context, and a system whose \<open>accept\<close> fails.\<close>

definition bound_socket :: socket where
  "bound_socket = (new_socket 2 1 0)\<lparr>s_sock := 5\<rparr>"

theorem restart_race_spins_witness:
  "\<exists>heap' srv'. s_sock (heap' ! 0) = - 1 \<and>
    startAccept LittleEndian (willing_os\<lparr>os_accept := \<lambda>_ k. (- 1, k)\<rparr>) (\<lambda>heap k. (srv', heap)) 0 [] heap' () = None"
proof -
  let ?io = "\<lparr>io_heap = Map.empty, io_fdContexts = [], io_pendingEventCount = 0, io_epoll = Map.empty\<rparr> :: nat io_manager"
  let ?os = "willing_os\<lparr>os_accept := \<lambda>_ k. (- 1, k)\<rparr>" and ?srv = "(new_tcp_server 0)\<lparr>ts_socks := [0], ts_isStop := False\<rparr>"
  obtain srv' io' woken heap' k' where
    "ts_stop_task False ?os (fst (snd (ts_start (fst (ts_stop ?srv))))) ?io [bound_socket] () = Inr (srv', io', woken, heap', k')"
    by (simp add: ts_stop_task_def ts_start_def ts_stop_def sock_cancelAll_def cancelAll_def find_context_def
        bound_socket_def new_socket_def case_prod_beta new_tcp_server_def)
  from restart_race_spins [OF this, of 0 LittleEndian "()"] show ?thesis
    by (auto simp: new_tcp_server_def)
qed

end
