(* ===== verification/Http_Server.thy ===== *)
theory Http_Server
  imports Http_Session Http_Servlet Tcp_Server
begin

text \<open>
  The HTTP server, \<open>inc/http/http_server.h\<close> and \<open>src/http/http_server.cpp\<close>: a \<open>TcpServer\<close> whose
  \<open>handleClient\<close> reads requests from a session, dispatches them and writes the responses. A servlet may
  use the session, so the stream's state is part of the exchange.
\<close>

subsection \<open>The server\<close>

record 's http_server =
  hs_tcp :: tcp_server
  hs_isKeepalive :: bool
  hs_dispatch :: "'s dispatch"

definition new_http_server :: "u64 \<Rightarrow> bool \<Rightarrow> 's http_server" where
  "new_http_server read_timeout keepalive =
    \<lparr>hs_tcp = (new_tcp_server read_timeout)\<lparr>ts_type := ''http''\<rparr>, hs_isKeepalive = keepalive,
     hs_dispatch = new_dispatch\<rparr>"

definition setServletDispatch :: "'s dispatch \<Rightarrow> 's http_server \<Rightarrow> 's http_server" where
  "setServletDispatch v srv = srv\<lparr>hs_dispatch := v\<rparr>"

definition hs_setName :: "string \<Rightarrow> 's http_server \<Rightarrow> 's http_server" where
  "hs_setName v srv =
    srv\<lparr>hs_tcp := ts_setName v (hs_tcp srv),
        hs_dispatch := setDefault (Some (NotFoundServlet not_found_content)) (hs_dispatch srv)\<rparr>"

subsection \<open>One client\<close>

datatype serve_error = ParseThrows parse_error | ServletThrows servlet_error

text \<open>The response a request is dispatched with.\<close>

definition prepare_response :: "'s http_server \<Rightarrow> http_request \<Rightarrow> http_response" where
  "prepare_response srv req =
    rs_setHeader (new_response (rq_version req) (rq_close req \<or> \<not> hs_isKeepalive srv)) ''Server'' (ts_name (hs_tcp srv))"

text \<open>
  \<open>handleClient\<close>. \<open>memory\<close> is what the memory of the buffer and the parser of the next request
  holds. What \<open>sendResponse\<close> returns is not looked at.
\<close>

partial_function (option) handleClient ::
    "'s stream_ops \<Rightarrow> nat \<Rightarrow> (string \<Rightarrow> u64 option) \<Rightarrow> (string \<Rightarrow> string \<Rightarrow> bool) \<Rightarrow> ('s \<Rightarrow> string \<times> http_parser) \<Rightarrow>
      's http_server \<Rightarrow> 's \<Rightarrow> ((serve_error + unit) \<times> 's) option" where
  "handleClient io buff_size cast fnmatch memory srv s =
    (case recvRequest io buff_size cast (fst (memory s)) (snd (memory s)) s of
       None \<Rightarrow> None
     | Some (Inl err, s) \<Rightarrow> Some (Inl (ParseThrows err), s)
     | Some (Inr None, s) \<Rightarrow> Some (Inr (), so_close io s)
     | Some (Inr (Some req), s) \<Rightarrow>
         (case dispatch_handle fnmatch (hs_dispatch srv) (req, prepare_response srv req, s) of
            Inl err \<Rightarrow> Some (Inl (ServletThrows err), s)
          | Inr (_, req, rsp, s) \<Rightarrow>
              let s = snd (sendResponse io rsp s)
              in if \<not> hs_isKeepalive srv \<or> rq_close req then Some (Inr (), so_close io s)
                 else handleClient io buff_size cast fnmatch memory srv s))"

subsection \<open>Answers\<close>

definition writes_ahead :: "('s, 'b) writer \<Rightarrow> bool" where
  "writes_ahead wr \<longleftrightarrow> (\<forall>s bs. bs \<noteq> [] \<longrightarrow> 0 < fst (wr s bs))"

lemma write_fix_loop_ahead:
  assumes "writes_to wr sink" "writes_ahead wr" "int (length buf) = max 0 left"
  shows "fst (write_fix_loop wr s buf left) = None"
  using assms
proof (induction wr s buf left rule: write_fix_loop.induct)
  case (1 wr s buf left)
  obtain len t where one: "wr s (take (nat left) buf) = (len, t)" by fastforce
  show ?case
  proof (cases "left > 0")
    case True
    then have all: "take (nat left) buf = buf" "buf \<noteq> []" using 1(4) by auto
    have pos: "0 < len" using 1(3) one all unfolding writes_ahead_def by (metis fst_conv)
    have "int (length (drop (nat len) buf)) = max 0 (left - len)"
      using writes_toD(2) [OF 1(2) all(2) one [unfolded all(1)]] pos 1(4) True by simp
    with 1(1) [OF True one [symmetric] refl _ 1(2,3)] pos True one show ?thesis
      by (subst write_fix_loop.simps) (simp add: case_prod_beta)
  qed (subst write_fix_loop.simps, simp)
qed

lemma send_response_part:
  assumes "writes_to (so_write io) sink" "length (rs_dump rsp) < 2 ^ 31"
  shows "\<exists>k. sink (snd (sendResponse io rsp s)) = sink s @ take k (rs_dump rsp) \<and>
    (writes_ahead (so_write io) \<longrightarrow> k = length (rs_dump rsp))"
proof -
  let ?b = "rs_dump rsp"
  obtain r s' where loop: "write_fix_loop (so_write io) s ?b (int (length ?b)) = (r, s')" by fastforce
  have n: "int (length ?b) = max 0 (int (length ?b))" by simp
  have e: "snd (sendResponse io rsp s) = s'"
    using assms(2) loop by (simp add: sendResponse_def writeFixSize_def size_as_int64 Let_def)
  from write_fix_loop_spec [OF assms(1) n loop] obtain k where k: "sink s' = sink s @ take k ?b"
    "r = None \<longrightarrow> k = length ?b" by (auto split: option.splits)
  moreover have "r = None" if "writes_ahead (so_write io)"
    using write_fix_loop_ahead [OF assms(1) that n, of s] loop by simp
  ultimately show ?thesis unfolding e by auto
qed

text \<open>
  C30: a server answers a request that arrives with its head in one read: the servlet that the
  dispatcher finds for the path sees the request as the client dumped it and a response of the same
  version with the server's name, and what it makes of the response is written behind what was written
  before: whole if no write fails, else a front part, which nobody notices. Then the connection is
  closed when the server or the request wants no other; else the next request is read. The request is
  of the parser's grammar (\<open>rq_parsable\<close>), without a content-length field of its own beside an empty
  body, its body and the response below 2 GiB; reading does not fail while bytes are left and writes
  nothing; \<open>lexical_cast\<close> reads decimal lengths; the servlet is a function that leaves the session
  itself alone.
\<close>

theorem server_answers:
  fixes sink :: "'s \<Rightarrow> string"
  assumes stream: "reads_from (so_read io) src" "reads_ahead (so_read io) src" "reads_keep (so_read io) sink"
      "writes_to (so_write io) sink"
    and buff: "0 < buff_size" "buff_size < 2 ^ 31" "length (fst (memory s)) = buff_size"
    and rq: "rq_parsable rq" "length_unset rq" "length (rq_body rq) < 2 ^ 31" and cast: "casts_lengths cast"
    and s: "src s = rq_dump rq @ tl'"
    and read: "so_read io s (int buff_size) = (len, bs, s1)" "length (rq_head rq) \<le> length bs"
    and slt: "getMatchedServlet fnmatch (hs_dispatch srv) (rq_path rq) = Inr (Some (FunctionServlet (Some f)))"
    and f: "\<And>s. f (rq_delivered rq, prepare_response srv (rq_delivered rq), s) = (n, req, rsp, s)"
    and len: "length (rs_dump rsp) < 2 ^ 31"
  shows "\<exists>s' k. sink s' = sink s @ take k (rs_dump rsp) \<and>
    (writes_ahead (so_write io) \<longrightarrow> k = length (rs_dump rsp)) \<and>
    handleClient io buff_size cast fnmatch memory srv s =
      (if \<not> hs_isKeepalive srv \<or> rq_close req then Some (Inr (), so_close io s')
       else handleClient io buff_size cast fnmatch memory srv s')"
proof -
  from recv_request_roundtrip [OF stream(1,2) buff rq cast s read, of "snd (memory s)" sink] stream(3) obtain s2 where
    recv: "recvRequest io buff_size cast (fst (memory s)) (snd (memory s)) s = Some (Inr (Some (rq_delivered rq)), s2)"
    and keep: "sink s2 = sink s" by blast
  have "rq_path (rq_delivered rq) = rq_path rq"
    by (simp add: rq_delivered_def rq_init_def rq_received_def Let_def)
  then have "dispatch_handle fnmatch (hs_dispatch srv) (rq_delivered rq, prepare_response srv (rq_delivered rq), s2) =
      Inr (0, req, rsp, s2)"
    by (simp add: dispatch_handle_def slt servlet_handle_def f)
  then have "handleClient io buff_size cast fnmatch memory srv s =
      (let s' = snd (sendResponse io rsp s2)
       in if \<not> hs_isKeepalive srv \<or> rq_close req then Some (Inr (), so_close io s')
          else handleClient io buff_size cast fnmatch memory srv s')"
    using recv by (subst handleClient.simps) (simp add: Let_def)
  with send_response_part [OF stream(4) len, of s2] keep show ?thesis by (auto simp: Let_def)
qed

text \<open>A servlet that answers with the request's body.\<close>

definition echo_servlet :: "'s handler" where
  "echo_servlet e = (0, fst e, (fst (snd e))\<lparr>rs_body := rq_body (fst e)\<rparr>, snd (snd e))"

definition echo_server :: "(string \<times> string) http_server" where
  "echo_server =
    (new_http_server 0 False)
      \<lparr>hs_dispatch := addServlet_cb ''/a/b%20c'' (Some echo_servlet) new_dispatch\<rparr>"

lemma wire_writes: "writes_to (so_write wire_ops) snd" "writes_ahead (so_write wire_ops)" "reads_keep (so_read wire_ops) snd"
  by (auto simp: writes_to_def writes_ahead_def reads_keep_def wire_ops_def Let_def)

theorem server_answers_witness:
  "\<exists>s'. snd s' = rs_dump ((prepare_response echo_server (rq_delivered sample_request))\<lparr>rs_body := ''hello''\<rparr>) \<and>
    handleClient wire_ops 300 (\<lambda>s. Some (of_nat (nat_of_text s))) (\<lambda>_ _. False)
      (\<lambda>_. (replicate 300 (CHR ''x''), sample_parser)) echo_server (rq_dump sample_request, []) = Some (Inr (), s')"
proof -
  let ?rsp = "(prepare_response echo_server (rq_delivered sample_request))\<lparr>rs_body := ''hello''\<rparr>"
  have len: "length (rq_dump sample_request) \<le> 300" by code_simp
  have "rq_body (rq_delivered sample_request) = ''hello''"
    by (simp add: rq_delivered_def sample_request_def new_request_def)
  then have f: "echo_servlet (rq_delivered sample_request, prepare_response echo_server (rq_delivered sample_request), s) =
      (0, rq_delivered sample_request, ?rsp, s)" for s :: "string \<times> string"
    by (simp add: echo_servlet_def)
  have "length (rs_dump ?rsp) \<le> 500" by code_simp
  then have l: "length (rs_dump ?rsp) < 2 ^ 31" by simp
  have "rq_path sample_request = ''/a/b%20c''" by (simp add: sample_request_def)
  then have slt: "getMatchedServlet (\<lambda>_ _. False) (hs_dispatch echo_server) (rq_path sample_request) =
      Inr (Some (FunctionServlet (Some echo_servlet)))"
    by (simp add: echo_server_def getMatchedServlet_def addServlet_cb_def deref_get_def creator_get_def)
  have "length_unset sample_request" "length (rq_body sample_request) < 2 ^ 31"
    by (simp_all add: length_unset_def sample_request_def new_request_def)
  moreover have "so_read wire_ops (rq_dump sample_request, []) (int 300) =
      (int (length (rq_dump sample_request)), rq_dump sample_request, ([], []))"
    using len by (simp add: wire_ops_def Let_def)
  moreover have "length (rq_head sample_request) \<le> length (rq_dump sample_request)" by (simp add: rq_dump_head)
  ultimately obtain s' where "snd s' = rs_dump ?rsp"
    "handleClient wire_ops 300 (\<lambda>s. Some (of_nat (nat_of_text s))) (\<lambda>_ _. False)
      (\<lambda>_. (replicate 300 (CHR ''x''), sample_parser)) echo_server (rq_dump sample_request, []) = Some (Inr (), s')"
    using server_answers [OF wire_reads wire_writes(3,1), where buff_size = 300 and
        memory = "\<lambda>_. (replicate 300 (CHR ''x''), sample_parser)" and s = "(rq_dump sample_request, [])" and tl' = "[]",
        OF _ _ _ sample_parsable _ _ text_casts _ _ _ slt f l]
    using wire_writes(2) by (auto simp: echo_server_def new_http_server_def wire_ops_def)
  then show ?thesis by blast
qed

end
