(* ===== verification/Uri_Table.thy ===== *)
theory Uri_Table
  imports Ragel
begin

text \<open>
  The table of the URI parser, \<open>src/uri_rl.cpp\<close>: states 1 to 560 and the transitions with actions,
  in the order of the source. The source marks the start of a token in two actions, kept apart here.
\<close>

datatype uri_action =
    UMarkA
  | UMark
  | UScheme
  | UPort
  | UUserinfo
  | UHost
  | UPath
  | UQuery
  | UFragment

definition uri_chunk_1 :: "uri_action chunk" where
  "uri_chunk_1 =
    ([(451, Row False [
        (0, 32, St 0), (34, 34, St 0), (35, 35, St 453), (37, 37, St 3), (47, 47, St 458), (58, 58, St 0),
        (60, 60, St 0), (62, 62, St 0), (63, 63, St 456), (65, 90, Tr 461), (91, 94, St 0), (96, 96, St 0),
        (97, 122, Tr 461), (123, 125, St 0), (127, 127, St 0)] (St 452)),
      (452, Row False [
        (0, 32, St 0), (34, 34, St 0), (35, 35, St 453), (37, 37, St 3), (47, 47, St 455), (58, 58, St 0),
        (60, 60, St 0), (62, 62, St 0), (63, 63, St 456), (91, 94, St 0), (96, 96, St 0), (123, 125, St 0),
        (127, 127, St 0)] (St 452))],
     [(467, [UMarkA, UQuery], 453),
      (469, [UQuery], 453),
      (474, [UMark, UHost], 453),
      (485, [UHost], 453),
      (489, [UMark, UPort], 453),
      (493, [UPort], 453),
      (548, [UMark, UHost, UPath], 453),
      (559, [UHost, UMark, UPath], 453)])"

definition uri_chunk_2 :: "uri_action chunk" where
  "uri_chunk_2 =
    ([(453, Row False [
        (0, 32, St 0), (34, 35, St 0), (37, 37, Tr 463), (60, 60, St 0), (62, 62, St 0), (91, 94, St 0),
        (96, 96, St 0), (123, 125, St 0), (127, 127, St 0)] (Tr 462)),
      (454, Row False [
        (0, 32, St 0), (34, 35, St 0), (37, 37, St 1), (60, 60, St 0), (62, 62, St 0), (91, 94, St 0),
        (96, 96, St 0), (123, 125, St 0), (127, 127, St 0)] (St 454)),
      (1, Row False [(48, 57, St 2), (65, 70, St 2), (97, 102, St 2)] (St 0)),
      (2, Row False [(48, 57, St 454), (65, 70, St 454), (97, 102, St 454)] (St 0)),
      (3, Row False [(48, 57, St 4), (65, 70, St 4), (97, 102, St 4)] (St 0))],
     [(563, [UPath], 453),
      (566, [UMark, UPort, UPath], 453),
      (570, [UPort, UMark, UPath], 453),
      (462, [UMarkA], 454),
      (463, [UMarkA], 1)])"

definition uri_chunk_3 :: "uri_action chunk" where
  "uri_chunk_3 =
    ([(4, Row False [(48, 57, St 452), (65, 70, St 452), (97, 102, St 452)] (St 0)),
      (455, Row False [
        (0, 32, St 0), (34, 34, St 0), (35, 35, St 453), (37, 37, St 5), (60, 60, St 0), (62, 62, St 0),
        (63, 63, St 456), (91, 94, St 0), (96, 96, St 0), (123, 125, St 0), (127, 127, St 0)] (St 455)),
      (5, Row False [(48, 57, St 6), (65, 70, St 6), (97, 102, St 6)] (St 0)),
      (6, Row False [(48, 57, St 455), (65, 70, St 455), (97, 102, St 455)] (St 0))],
     [(476, [UMark, UHost], 455),
      (486, [UHost], 455),
      (490, [UMark, UPort], 455),
      (494, [UPort], 455),
      (482, [UMark, UHost], 456),
      (488, [UHost], 456),
      (492, [UMark, UPort], 456),
      (496, [UPort], 456)])"

definition uri_chunk_4 :: "uri_action chunk" where
  "uri_chunk_4 =
    ([(456, Row False [
        (0, 32, St 0), (34, 34, St 0), (35, 35, Tr 467), (37, 37, Tr 468), (60, 60, St 0), (62, 62, St 0),
        (91, 94, St 0), (96, 96, St 0), (123, 125, St 0), (127, 127, St 0)] (Tr 466)),
      (457, Row False [
        (0, 32, St 0), (34, 34, St 0), (35, 35, Tr 469), (37, 37, St 7), (60, 60, St 0), (62, 62, St 0),
        (91, 94, St 0), (96, 96, St 0), (123, 125, St 0), (127, 127, St 0)] (St 457)),
      (7, Row False [(48, 57, St 8), (65, 70, St 8), (97, 102, St 8)] (St 0))],
     [(556, [UMark, UHost, UPath], 456),
      (562, [UHost, UMark, UPath], 456),
      (565, [UPath], 456),
      (569, [UMark, UPort, UPath], 456),
      (573, [UPort, UMark, UPath], 456),
      (466, [UMarkA], 457),
      (468, [UMarkA], 7)])"

definition uri_chunk_5 :: "uri_action chunk" where
  "uri_chunk_5 =
    ([(8, Row False [(48, 57, St 457), (65, 70, St 457), (97, 102, St 457)] (St 0)),
      (458, Row False [
        (0, 32, St 0), (34, 34, St 0), (35, 35, St 453), (37, 37, St 5), (47, 47, St 459), (60, 60, St 0),
        (62, 62, St 0), (63, 63, St 456), (91, 94, St 0), (96, 96, St 0), (123, 125, St 0), (127, 127, St 0)] (St 455)),
      (459, Row False [
        (2, 2, Tr 472), (33, 33, Tr 473), (35, 35, Tr 474), (36, 36, Tr 473), (37, 37, Tr 475),
        (38, 46, Tr 473), (47, 47, Tr 476), (48, 48, Tr 477), (49, 49, Tr 478), (50, 50, Tr 479),
        (51, 57, Tr 480), (58, 58, Tr 481), (59, 59, Tr 473), (61, 61, Tr 473), (63, 63, Tr 482),
        (64, 64, Tr 483), (65, 90, Tr 473), (91, 91, Tr 484), (95, 95, Tr 473), (97, 122, Tr 473),
        (126, 126, Tr 473)] (St 0)),
      (9, Row False [(48, 52, St 10)] (St 0)),
      (10, Row False [(48, 57, St 11)] (St 0)),
      (11, Row False [(46, 46, St 12)] (St 0)),
      (12, Row False [
        (2, 2, St 13), (48, 48, St 15), (49, 49, St 27), (50, 50, St 29), (51, 57, St 28)] (St 0)),
      (13, Row False [(48, 52, St 14)] (St 0)),
      (14, Row False [(48, 57, St 15)] (St 0)),
      (15, Row False [(46, 46, St 16)] (St 0)),
      (16, Row False [
        (2, 2, St 17), (48, 48, St 19), (49, 49, St 23), (50, 50, St 25), (51, 57, St 24)] (St 0)),
      (17, Row False [(48, 52, St 18)] (St 0))],
     [(472, [UMark], 9)])"

definition uri_chunk_6 :: "uri_action chunk" where
  "uri_chunk_6 =
    ([(18, Row False [(48, 57, St 19)] (St 0)),
      (19, Row False [(46, 46, St 20)] (St 0)),
      (20, Row False [
        (2, 2, St 21), (48, 48, St 460), (49, 49, St 463), (50, 50, St 465), (51, 57, St 464)] (St 0)),
      (21, Row False [(48, 52, St 22)] (St 0)),
      (22, Row False [(48, 57, St 460)] (St 0)),
      (460, Row False [(35, 35, Tr 485), (47, 47, Tr 486), (58, 58, Tr 487), (63, 63, Tr 488)] (St 0)),
      (461, Row False [(35, 35, Tr 489), (47, 47, Tr 490), (48, 57, Tr 491), (63, 63, Tr 492)] (St 0)),
      (462, Row False [(35, 35, Tr 493), (47, 47, Tr 494), (48, 57, St 462), (63, 63, Tr 496)] (St 0)),
      (463, Row False [
        (35, 35, Tr 485), (47, 47, Tr 486), (48, 57, St 464), (58, 58, Tr 487), (63, 63, Tr 488)] (St 0)),
      (464, Row False [
        (35, 35, Tr 485), (47, 47, Tr 486), (48, 57, St 460), (58, 58, Tr 487), (63, 63, Tr 488)] (St 0)),
      (465, Row False [
        (35, 35, Tr 485), (47, 47, Tr 486), (48, 52, St 460), (53, 53, St 466), (54, 57, St 460),
        (58, 58, Tr 487), (63, 63, Tr 488)] (St 0))],
     [(507, [UMark, UHost], 461),
      (487, [UHost], 461),
      (491, [UMark], 462)])"

definition uri_chunk_7 :: "uri_action chunk" where
  "uri_chunk_7 =
    ([(466, Row False [
        (35, 35, Tr 485), (47, 47, Tr 486), (48, 53, St 460), (58, 58, Tr 487), (63, 63, Tr 488)] (St 0)),
      (23, Row False [(46, 46, St 20), (48, 57, St 24)] (St 0)),
      (24, Row False [(46, 46, St 20), (48, 57, St 19)] (St 0)),
      (25, Row False [(46, 46, St 20), (48, 52, St 19), (53, 53, St 26), (54, 57, St 19)] (St 0)),
      (26, Row False [(46, 46, St 20), (48, 53, St 19)] (St 0)),
      (27, Row False [(46, 46, St 16), (48, 57, St 28)] (St 0)),
      (28, Row False [(46, 46, St 16), (48, 57, St 15)] (St 0)),
      (29, Row False [(46, 46, St 16), (48, 52, St 15), (53, 53, St 30), (54, 57, St 15)] (St 0)),
      (30, Row False [(46, 46, St 16), (48, 53, St 15)] (St 0)),
      (467, Row False [
        (33, 33, St 467), (35, 35, Tr 485), (36, 36, St 467), (37, 37, St 31), (38, 46, St 467),
        (47, 47, Tr 486), (48, 57, St 467), (58, 58, Tr 499), (59, 59, St 467), (61, 61, St 467),
        (63, 63, Tr 488), (64, 64, Tr 38), (65, 90, St 467), (95, 95, St 467), (97, 122, St 467),
        (126, 126, St 467)] (St 0)),
      (31, Row False [(48, 57, St 32), (65, 70, St 32), (97, 102, St 32)] (St 0)),
      (32, Row False [(48, 57, St 467), (65, 70, St 467), (97, 102, St 467)] (St 0))],
     [(473, [UMark], 467),
      (475, [UMark], 31)])"

definition uri_chunk_8 :: "uri_action chunk" where
  "uri_chunk_8 =
    ([(468, Row False [
        (33, 33, St 33), (35, 35, Tr 489), (36, 36, St 33), (37, 37, St 34), (38, 46, St 33), (47, 47, Tr 490),
        (48, 57, Tr 500), (58, 59, St 33), (61, 61, St 33), (63, 63, Tr 492), (64, 64, Tr 38), (65, 90, St 33),
        (95, 95, St 33), (97, 122, St 33), (126, 126, St 33)] (St 0)),
      (33, Row False [
        (33, 33, St 33), (36, 36, St 33), (37, 37, St 34), (38, 46, St 33), (48, 59, St 33), (61, 61, St 33),
        (64, 64, Tr 38), (65, 90, St 33), (95, 95, St 33), (97, 122, St 33), (126, 126, St 33)] (St 0)),
      (34, Row False [(48, 57, St 35), (65, 70, St 35), (97, 102, St 35)] (St 0)),
      (35, Row False [(48, 57, St 33), (65, 70, St 33), (97, 102, St 33)] (St 0))],
     [(481, [UMark, UHost], 468),
      (499, [UHost], 468),
      (38, [UUserinfo], 469),
      (483, [UMark, UUserinfo], 469)])"

definition uri_chunk_9 :: "uri_action chunk" where
  "uri_chunk_9 =
    ([(469, Row False [
        (2, 2, Tr 472), (33, 33, Tr 501), (35, 35, Tr 474), (36, 36, Tr 501), (37, 37, Tr 502),
        (38, 46, Tr 501), (47, 47, Tr 476), (48, 48, Tr 503), (49, 49, Tr 504), (50, 50, Tr 505),
        (51, 57, Tr 506), (58, 58, Tr 507), (59, 59, Tr 501), (61, 61, Tr 501), (63, 63, Tr 482),
        (65, 90, Tr 501), (91, 91, Tr 484), (95, 95, Tr 501), (97, 122, Tr 501), (126, 126, Tr 501)] (St 0)),
      (470, Row False [
        (33, 33, St 470), (35, 35, Tr 485), (36, 36, St 470), (37, 37, St 36), (38, 46, St 470),
        (47, 47, Tr 486), (48, 57, St 470), (58, 58, Tr 487), (59, 59, St 470), (61, 61, St 470),
        (63, 63, Tr 488), (65, 90, St 470), (95, 95, St 470), (97, 122, St 470), (126, 126, St 470)] (St 0)),
      (36, Row False [(48, 57, St 37), (65, 70, St 37), (97, 102, St 37)] (St 0)),
      (37, Row False [(48, 57, St 470), (65, 70, St 470), (97, 102, St 470)] (St 0)),
      (471, Row False [
        (33, 33, St 470), (35, 35, Tr 485), (36, 36, St 470), (37, 37, St 36), (38, 45, St 470),
        (46, 46, St 472), (47, 47, Tr 486), (48, 57, St 470), (58, 58, Tr 487), (59, 59, St 470),
        (61, 61, St 470), (63, 63, Tr 488), (65, 90, St 470), (95, 95, St 470), (97, 122, St 470),
        (126, 126, St 470)] (St 0))],
     [(501, [UMark], 470),
      (502, [UMark], 36),
      (503, [UMark], 471)])"

definition uri_chunk_10 :: "uri_action chunk" where
  "uri_chunk_10 =
    ([(472, Row False [
        (2, 2, St 13), (33, 33, St 470), (35, 35, Tr 485), (36, 36, St 470), (37, 37, St 36), (38, 46, St 470),
        (47, 47, Tr 486), (48, 48, St 473), (49, 49, St 481), (50, 50, St 483), (51, 57, St 482),
        (58, 58, Tr 487), (59, 59, St 470), (61, 61, St 470), (63, 63, Tr 488), (65, 90, St 470),
        (95, 95, St 470), (97, 122, St 470), (126, 126, St 470)] (St 0)),
      (473, Row False [
        (33, 33, St 470), (35, 35, Tr 485), (36, 36, St 470), (37, 37, St 36), (38, 45, St 470),
        (46, 46, St 474), (47, 47, Tr 486), (48, 57, St 470), (58, 58, Tr 487), (59, 59, St 470),
        (61, 61, St 470), (63, 63, Tr 488), (65, 90, St 470), (95, 95, St 470), (97, 122, St 470),
        (126, 126, St 470)] (St 0)),
      (474, Row False [
        (2, 2, St 17), (33, 33, St 470), (35, 35, Tr 485), (36, 36, St 470), (37, 37, St 36), (38, 46, St 470),
        (47, 47, Tr 486), (48, 48, St 475), (49, 49, St 477), (50, 50, St 479), (51, 57, St 478),
        (58, 58, Tr 487), (59, 59, St 470), (61, 61, St 470), (63, 63, Tr 488), (65, 90, St 470),
        (95, 95, St 470), (97, 122, St 470), (126, 126, St 470)] (St 0)),
      (475, Row False [
        (33, 33, St 470), (35, 35, Tr 485), (36, 36, St 470), (37, 37, St 36), (38, 45, St 470),
        (46, 46, St 476), (47, 47, Tr 486), (48, 57, St 470), (58, 58, Tr 487), (59, 59, St 470),
        (61, 61, St 470), (63, 63, Tr 488), (65, 90, St 470), (95, 95, St 470), (97, 122, St 470),
        (126, 126, St 470)] (St 0)),
      (476, Row False [
        (2, 2, St 21), (33, 33, St 470), (35, 35, Tr 485), (36, 36, St 470), (37, 37, St 36), (38, 46, St 470),
        (47, 47, Tr 486), (48, 57, St 470), (58, 58, Tr 487), (59, 59, St 470), (61, 61, St 470),
        (63, 63, Tr 488), (65, 90, St 470), (95, 95, St 470), (97, 122, St 470), (126, 126, St 470)] (St 0))],
     [])"

definition uri_chunk_11 :: "uri_action chunk" where
  "uri_chunk_11 =
    ([(477, Row False [
        (33, 33, St 470), (35, 35, Tr 485), (36, 36, St 470), (37, 37, St 36), (38, 45, St 470),
        (46, 46, St 476), (47, 47, Tr 486), (48, 57, St 478), (58, 58, Tr 487), (59, 59, St 470),
        (61, 61, St 470), (63, 63, Tr 488), (65, 90, St 470), (95, 95, St 470), (97, 122, St 470),
        (126, 126, St 470)] (St 0)),
      (478, Row False [
        (33, 33, St 470), (35, 35, Tr 485), (36, 36, St 470), (37, 37, St 36), (38, 45, St 470),
        (46, 46, St 476), (47, 47, Tr 486), (48, 57, St 475), (58, 58, Tr 487), (59, 59, St 470),
        (61, 61, St 470), (63, 63, Tr 488), (65, 90, St 470), (95, 95, St 470), (97, 122, St 470),
        (126, 126, St 470)] (St 0)),
      (479, Row False [
        (33, 33, St 470), (35, 35, Tr 485), (36, 36, St 470), (37, 37, St 36), (38, 45, St 470),
        (46, 46, St 476), (47, 47, Tr 486), (48, 52, St 475), (53, 53, St 480), (54, 57, St 475),
        (58, 58, Tr 487), (59, 59, St 470), (61, 61, St 470), (63, 63, Tr 488), (65, 90, St 470),
        (95, 95, St 470), (97, 122, St 470), (126, 126, St 470)] (St 0)),
      (480, Row False [
        (33, 33, St 470), (35, 35, Tr 485), (36, 36, St 470), (37, 37, St 36), (38, 45, St 470),
        (46, 46, St 476), (47, 47, Tr 486), (48, 53, St 475), (54, 57, St 470), (58, 58, Tr 487),
        (59, 59, St 470), (61, 61, St 470), (63, 63, Tr 488), (65, 90, St 470), (95, 95, St 470),
        (97, 122, St 470), (126, 126, St 470)] (St 0)),
      (481, Row False [
        (33, 33, St 470), (35, 35, Tr 485), (36, 36, St 470), (37, 37, St 36), (38, 45, St 470),
        (46, 46, St 474), (47, 47, Tr 486), (48, 57, St 482), (58, 58, Tr 487), (59, 59, St 470),
        (61, 61, St 470), (63, 63, Tr 488), (65, 90, St 470), (95, 95, St 470), (97, 122, St 470),
        (126, 126, St 470)] (St 0))],
     [])"

definition uri_chunk_12 :: "uri_action chunk" where
  "uri_chunk_12 =
    ([(482, Row False [
        (33, 33, St 470), (35, 35, Tr 485), (36, 36, St 470), (37, 37, St 36), (38, 45, St 470),
        (46, 46, St 474), (47, 47, Tr 486), (48, 57, St 473), (58, 58, Tr 487), (59, 59, St 470),
        (61, 61, St 470), (63, 63, Tr 488), (65, 90, St 470), (95, 95, St 470), (97, 122, St 470),
        (126, 126, St 470)] (St 0)),
      (483, Row False [
        (33, 33, St 470), (35, 35, Tr 485), (36, 36, St 470), (37, 37, St 36), (38, 45, St 470),
        (46, 46, St 474), (47, 47, Tr 486), (48, 52, St 473), (53, 53, St 484), (54, 57, St 473),
        (58, 58, Tr 487), (59, 59, St 470), (61, 61, St 470), (63, 63, Tr 488), (65, 90, St 470),
        (95, 95, St 470), (97, 122, St 470), (126, 126, St 470)] (St 0)),
      (484, Row False [
        (33, 33, St 470), (35, 35, Tr 485), (36, 36, St 470), (37, 37, St 36), (38, 45, St 470),
        (46, 46, St 474), (47, 47, Tr 486), (48, 53, St 473), (54, 57, St 470), (58, 58, Tr 487),
        (59, 59, St 470), (61, 61, St 470), (63, 63, Tr 488), (65, 90, St 470), (95, 95, St 470),
        (97, 122, St 470), (126, 126, St 470)] (St 0)),
      (485, Row False [
        (33, 33, St 470), (35, 35, Tr 485), (36, 36, St 470), (37, 37, St 36), (38, 45, St 470),
        (46, 46, St 472), (47, 47, Tr 486), (48, 57, St 486), (58, 58, Tr 487), (59, 59, St 470),
        (61, 61, St 470), (63, 63, Tr 488), (65, 90, St 470), (95, 95, St 470), (97, 122, St 470),
        (126, 126, St 470)] (St 0))],
     [(504, [UMark], 485),
      (506, [UMark], 486)])"

definition uri_chunk_13 :: "uri_action chunk" where
  "uri_chunk_13 =
    ([(486, Row False [
        (33, 33, St 470), (35, 35, Tr 485), (36, 36, St 470), (37, 37, St 36), (38, 45, St 470),
        (46, 46, St 472), (47, 47, Tr 486), (48, 57, St 471), (58, 58, Tr 487), (59, 59, St 470),
        (61, 61, St 470), (63, 63, Tr 488), (65, 90, St 470), (95, 95, St 470), (97, 122, St 470),
        (126, 126, St 470)] (St 0)),
      (487, Row False [
        (33, 33, St 470), (35, 35, Tr 485), (36, 36, St 470), (37, 37, St 36), (38, 45, St 470),
        (46, 46, St 472), (47, 47, Tr 486), (48, 52, St 471), (53, 53, St 488), (54, 57, St 471),
        (58, 58, Tr 487), (59, 59, St 470), (61, 61, St 470), (63, 63, Tr 488), (65, 90, St 470),
        (95, 95, St 470), (97, 122, St 470), (126, 126, St 470)] (St 0)),
      (488, Row False [
        (33, 33, St 470), (35, 35, Tr 485), (36, 36, St 470), (37, 37, St 36), (38, 45, St 470),
        (46, 46, St 472), (47, 47, Tr 486), (48, 53, St 471), (54, 57, St 470), (58, 58, Tr 487),
        (59, 59, St 470), (61, 61, St 470), (63, 63, Tr 488), (65, 90, St 470), (95, 95, St 470),
        (97, 122, St 470), (126, 126, St 470)] (St 0)),
      (38, Row False [
        (48, 57, St 39), (58, 58, St 146), (65, 70, St 39), (97, 102, St 39), (118, 118, St 225)] (St 0)),
      (39, Row False [(48, 57, St 40), (58, 58, St 43), (65, 70, St 40), (97, 102, St 40)] (St 0)),
      (40, Row False [(48, 57, St 41), (58, 58, St 43), (65, 70, St 41), (97, 102, St 41)] (St 0))],
     [(505, [UMark], 487),
      (484, [UMark], 38)])"

definition uri_chunk_14 :: "uri_action chunk" where
  "uri_chunk_14 =
    ([(41, Row False [(48, 57, St 42), (58, 58, St 43), (65, 70, St 42), (97, 102, St 42)] (St 0)),
      (42, Row False [(58, 58, St 43)] (St 0)),
      (43, Row False [(48, 57, St 44), (58, 58, St 141), (65, 70, St 44), (97, 102, St 44)] (St 0)),
      (44, Row False [(48, 57, St 45), (58, 58, St 48), (65, 70, St 45), (97, 102, St 45)] (St 0)),
      (45, Row False [(48, 57, St 46), (58, 58, St 48), (65, 70, St 46), (97, 102, St 46)] (St 0)),
      (46, Row False [(48, 57, St 47), (58, 58, St 48), (65, 70, St 47), (97, 102, St 47)] (St 0)),
      (47, Row False [(58, 58, St 48)] (St 0)),
      (48, Row False [(48, 57, St 49), (58, 58, St 136), (65, 70, St 49), (97, 102, St 49)] (St 0)),
      (49, Row False [(48, 57, St 50), (58, 58, St 53), (65, 70, St 50), (97, 102, St 50)] (St 0)),
      (50, Row False [(48, 57, St 51), (58, 58, St 53), (65, 70, St 51), (97, 102, St 51)] (St 0)),
      (51, Row False [(48, 57, St 52), (58, 58, St 53), (65, 70, St 52), (97, 102, St 52)] (St 0))],
     [])"

definition uri_chunk_15 :: "uri_action chunk" where
  "uri_chunk_15 =
    ([(52, Row False [(58, 58, St 53)] (St 0)),
      (53, Row False [(48, 57, St 54), (58, 58, St 131), (65, 70, St 54), (97, 102, St 54)] (St 0)),
      (54, Row False [(48, 57, St 55), (58, 58, St 58), (65, 70, St 55), (97, 102, St 55)] (St 0)),
      (55, Row False [(48, 57, St 56), (58, 58, St 58), (65, 70, St 56), (97, 102, St 56)] (St 0)),
      (56, Row False [(48, 57, St 57), (58, 58, St 58), (65, 70, St 57), (97, 102, St 57)] (St 0)),
      (57, Row False [(58, 58, St 58)] (St 0)),
      (58, Row False [(48, 57, St 59), (58, 58, St 126), (65, 70, St 59), (97, 102, St 59)] (St 0)),
      (59, Row False [(48, 57, St 60), (58, 58, St 63), (65, 70, St 60), (97, 102, St 60)] (St 0)),
      (60, Row False [(48, 57, St 61), (58, 58, St 63), (65, 70, St 61), (97, 102, St 61)] (St 0)),
      (61, Row False [(48, 57, St 62), (58, 58, St 63), (65, 70, St 62), (97, 102, St 62)] (St 0)),
      (62, Row False [(58, 58, St 63)] (St 0))],
     [])"

definition uri_chunk_16 :: "uri_action chunk" where
  "uri_chunk_16 =
    ([(63, Row False [(48, 57, St 64), (58, 58, St 113), (65, 70, St 64), (97, 102, St 64)] (St 0)),
      (64, Row False [(48, 57, St 65), (58, 58, St 68), (65, 70, St 65), (97, 102, St 65)] (St 0)),
      (65, Row False [(48, 57, St 66), (58, 58, St 68), (65, 70, St 66), (97, 102, St 66)] (St 0)),
      (66, Row False [(48, 57, St 67), (58, 58, St 68), (65, 70, St 67), (97, 102, St 67)] (St 0)),
      (67, Row False [(58, 58, St 68)] (St 0)),
      (68, Row False [
        (2, 2, St 69), (48, 48, St 96), (49, 49, St 104), (50, 50, St 107), (51, 57, St 110), (58, 58, St 111),
        (65, 70, St 112), (97, 102, St 112)] (St 0)),
      (69, Row False [(48, 52, St 70)] (St 0)),
      (70, Row False [(48, 57, St 71)] (St 0)),
      (71, Row False [(46, 46, St 72)] (St 0)),
      (72, Row False [
        (2, 2, St 73), (48, 48, St 75), (49, 49, St 92), (50, 50, St 94), (51, 57, St 93)] (St 0)),
      (73, Row False [(48, 52, St 74)] (St 0)),
      (74, Row False [(48, 57, St 75)] (St 0)),
      (75, Row False [(46, 46, St 76)] (St 0))],
     [])"

definition uri_chunk_17 :: "uri_action chunk" where
  "uri_chunk_17 =
    ([(76, Row False [
        (2, 2, St 77), (48, 48, St 79), (49, 49, St 88), (50, 50, St 90), (51, 57, St 89)] (St 0)),
      (77, Row False [(48, 52, St 78)] (St 0)),
      (78, Row False [(48, 57, St 79)] (St 0)),
      (79, Row False [(46, 46, St 80)] (St 0)),
      (80, Row False [
        (2, 2, St 81), (48, 48, St 83), (49, 49, St 84), (50, 50, St 86), (51, 57, St 85)] (St 0)),
      (81, Row False [(48, 52, St 82)] (St 0)),
      (82, Row False [(48, 57, St 83)] (St 0)),
      (83, Row False [(93, 93, St 460)] (St 0)),
      (84, Row False [(48, 57, St 85), (93, 93, St 460)] (St 0)),
      (85, Row False [(48, 57, St 83), (93, 93, St 460)] (St 0)),
      (86, Row False [(48, 52, St 83), (53, 53, St 87), (54, 57, St 83), (93, 93, St 460)] (St 0)),
      (87, Row False [(48, 53, St 83), (93, 93, St 460)] (St 0)),
      (88, Row False [(46, 46, St 80), (48, 57, St 89)] (St 0)),
      (89, Row False [(46, 46, St 80), (48, 57, St 79)] (St 0)),
      (90, Row False [(46, 46, St 80), (48, 52, St 79), (53, 53, St 91), (54, 57, St 79)] (St 0)),
      (91, Row False [(46, 46, St 80), (48, 53, St 79)] (St 0)),
      (92, Row False [(46, 46, St 76), (48, 57, St 93)] (St 0))],
     [])"

definition uri_chunk_18 :: "uri_action chunk" where
  "uri_chunk_18 =
    ([(93, Row False [(46, 46, St 76), (48, 57, St 75)] (St 0)),
      (94, Row False [(46, 46, St 76), (48, 52, St 75), (53, 53, St 95), (54, 57, St 75)] (St 0)),
      (95, Row False [(46, 46, St 76), (48, 53, St 75)] (St 0)),
      (96, Row False [
        (46, 46, St 72), (48, 57, St 97), (58, 58, St 100), (65, 70, St 97), (97, 102, St 97)] (St 0)),
      (97, Row False [(48, 57, St 98), (58, 58, St 100), (65, 70, St 98), (97, 102, St 98)] (St 0)),
      (98, Row False [(48, 57, St 99), (58, 58, St 100), (65, 70, St 99), (97, 102, St 99)] (St 0)),
      (99, Row False [(58, 58, St 100)] (St 0)),
      (100, Row False [(48, 57, St 101), (58, 58, St 83), (65, 70, St 101), (97, 102, St 101)] (St 0)),
      (101, Row False [(48, 57, St 102), (65, 70, St 102), (93, 93, St 460), (97, 102, St 102)] (St 0)),
      (102, Row False [(48, 57, St 103), (65, 70, St 103), (93, 93, St 460), (97, 102, St 103)] (St 0)),
      (103, Row False [(48, 57, St 83), (65, 70, St 83), (93, 93, St 460), (97, 102, St 83)] (St 0))],
     [])"

definition uri_chunk_19 :: "uri_action chunk" where
  "uri_chunk_19 =
    ([(104, Row False [
        (46, 46, St 72), (48, 57, St 105), (58, 58, St 100), (65, 70, St 97), (97, 102, St 97)] (St 0)),
      (105, Row False [
        (46, 46, St 72), (48, 57, St 106), (58, 58, St 100), (65, 70, St 98), (97, 102, St 98)] (St 0)),
      (106, Row False [
        (46, 46, St 72), (48, 57, St 99), (58, 58, St 100), (65, 70, St 99), (97, 102, St 99)] (St 0)),
      (107, Row False [
        (46, 46, St 72), (48, 52, St 108), (53, 53, St 109), (54, 57, St 108), (58, 58, St 100),
        (65, 70, St 97), (97, 102, St 97)] (St 0)),
      (108, Row False [
        (46, 46, St 72), (48, 57, St 98), (58, 58, St 100), (65, 70, St 98), (97, 102, St 98)] (St 0)),
      (109, Row False [
        (46, 46, St 72), (48, 53, St 106), (54, 57, St 98), (58, 58, St 100), (65, 70, St 98), (97, 102, St 98)] (St 0)),
      (110, Row False [
        (46, 46, St 72), (48, 57, St 108), (58, 58, St 100), (65, 70, St 97), (97, 102, St 97)] (St 0)),
      (111, Row False [(48, 57, St 101), (65, 70, St 101), (97, 102, St 101)] (St 0)),
      (112, Row False [(48, 57, St 97), (58, 58, St 100), (65, 70, St 97), (97, 102, St 97)] (St 0))],
     [])"

definition uri_chunk_20 :: "uri_action chunk" where
  "uri_chunk_20 =
    ([(113, Row False [
        (2, 2, St 69), (48, 48, St 114), (49, 49, St 118), (50, 50, St 121), (51, 57, St 124), (65, 70, St 125),
        (97, 102, St 125)] (St 0)),
      (114, Row False [
        (46, 46, St 72), (48, 57, St 115), (58, 58, St 111), (65, 70, St 115), (97, 102, St 115)] (St 0)),
      (115, Row False [(48, 57, St 116), (58, 58, St 111), (65, 70, St 116), (97, 102, St 116)] (St 0)),
      (116, Row False [(48, 57, St 117), (58, 58, St 111), (65, 70, St 117), (97, 102, St 117)] (St 0)),
      (117, Row False [(58, 58, St 111)] (St 0)),
      (118, Row False [
        (46, 46, St 72), (48, 57, St 119), (58, 58, St 111), (65, 70, St 115), (97, 102, St 115)] (St 0)),
      (119, Row False [
        (46, 46, St 72), (48, 57, St 120), (58, 58, St 111), (65, 70, St 116), (97, 102, St 116)] (St 0)),
      (120, Row False [
        (46, 46, St 72), (48, 57, St 117), (58, 58, St 111), (65, 70, St 117), (97, 102, St 117)] (St 0)),
      (121, Row False [
        (46, 46, St 72), (48, 52, St 122), (53, 53, St 123), (54, 57, St 122), (58, 58, St 111),
        (65, 70, St 115), (97, 102, St 115)] (St 0))],
     [])"

definition uri_chunk_21 :: "uri_action chunk" where
  "uri_chunk_21 =
    ([(122, Row False [
        (46, 46, St 72), (48, 57, St 116), (58, 58, St 111), (65, 70, St 116), (97, 102, St 116)] (St 0)),
      (123, Row False [
        (46, 46, St 72), (48, 53, St 120), (54, 57, St 116), (58, 58, St 111), (65, 70, St 116),
        (97, 102, St 116)] (St 0)),
      (124, Row False [
        (46, 46, St 72), (48, 57, St 122), (58, 58, St 111), (65, 70, St 115), (97, 102, St 115)] (St 0)),
      (125, Row False [(48, 57, St 115), (58, 58, St 111), (65, 70, St 115), (97, 102, St 115)] (St 0)),
      (126, Row False [(48, 57, St 127), (65, 70, St 127), (97, 102, St 127)] (St 0)),
      (127, Row False [(48, 57, St 128), (58, 58, St 113), (65, 70, St 128), (97, 102, St 128)] (St 0)),
      (128, Row False [(48, 57, St 129), (58, 58, St 113), (65, 70, St 129), (97, 102, St 129)] (St 0)),
      (129, Row False [(48, 57, St 130), (58, 58, St 113), (65, 70, St 130), (97, 102, St 130)] (St 0)),
      (130, Row False [(58, 58, St 113)] (St 0)),
      (131, Row False [(48, 57, St 132), (65, 70, St 132), (97, 102, St 132)] (St 0))],
     [])"

definition uri_chunk_22 :: "uri_action chunk" where
  "uri_chunk_22 =
    ([(132, Row False [(48, 57, St 133), (58, 58, St 126), (65, 70, St 133), (97, 102, St 133)] (St 0)),
      (133, Row False [(48, 57, St 134), (58, 58, St 126), (65, 70, St 134), (97, 102, St 134)] (St 0)),
      (134, Row False [(48, 57, St 135), (58, 58, St 126), (65, 70, St 135), (97, 102, St 135)] (St 0)),
      (135, Row False [(58, 58, St 126)] (St 0)),
      (136, Row False [(48, 57, St 137), (65, 70, St 137), (97, 102, St 137)] (St 0)),
      (137, Row False [(48, 57, St 138), (58, 58, St 131), (65, 70, St 138), (97, 102, St 138)] (St 0)),
      (138, Row False [(48, 57, St 139), (58, 58, St 131), (65, 70, St 139), (97, 102, St 139)] (St 0)),
      (139, Row False [(48, 57, St 140), (58, 58, St 131), (65, 70, St 140), (97, 102, St 140)] (St 0)),
      (140, Row False [(58, 58, St 131)] (St 0)),
      (141, Row False [(48, 57, St 142), (65, 70, St 142), (97, 102, St 142)] (St 0)),
      (142, Row False [(48, 57, St 143), (58, 58, St 136), (65, 70, St 143), (97, 102, St 143)] (St 0))],
     [])"

definition uri_chunk_23 :: "uri_action chunk" where
  "uri_chunk_23 =
    ([(143, Row False [(48, 57, St 144), (58, 58, St 136), (65, 70, St 144), (97, 102, St 144)] (St 0)),
      (144, Row False [(48, 57, St 145), (58, 58, St 136), (65, 70, St 145), (97, 102, St 145)] (St 0)),
      (145, Row False [(58, 58, St 136)] (St 0)),
      (146, Row False [(58, 58, St 147)] (St 0)),
      (147, Row False [
        (2, 2, St 69), (48, 48, St 148), (49, 49, St 217), (50, 50, St 220), (51, 57, St 223), (65, 70, St 224),
        (93, 93, St 460), (97, 102, St 224)] (St 0)),
      (148, Row False [
        (46, 46, St 72), (48, 57, St 149), (58, 58, St 152), (65, 70, St 149), (93, 93, St 460),
        (97, 102, St 149)] (St 0)),
      (149, Row False [
        (48, 57, St 150), (58, 58, St 152), (65, 70, St 150), (93, 93, St 460), (97, 102, St 150)] (St 0)),
      (150, Row False [
        (48, 57, St 151), (58, 58, St 152), (65, 70, St 151), (93, 93, St 460), (97, 102, St 151)] (St 0)),
      (151, Row False [(58, 58, St 152), (93, 93, St 460)] (St 0)),
      (152, Row False [
        (2, 2, St 69), (48, 48, St 153), (49, 49, St 209), (50, 50, St 212), (51, 57, St 215), (65, 70, St 216),
        (97, 102, St 216)] (St 0))],
     [])"

definition uri_chunk_24 :: "uri_action chunk" where
  "uri_chunk_24 =
    ([(153, Row False [
        (46, 46, St 72), (48, 57, St 154), (58, 58, St 157), (65, 70, St 154), (93, 93, St 460),
        (97, 102, St 154)] (St 0)),
      (154, Row False [
        (48, 57, St 155), (58, 58, St 157), (65, 70, St 155), (93, 93, St 460), (97, 102, St 155)] (St 0)),
      (155, Row False [
        (48, 57, St 156), (58, 58, St 157), (65, 70, St 156), (93, 93, St 460), (97, 102, St 156)] (St 0)),
      (156, Row False [(58, 58, St 157), (93, 93, St 460)] (St 0)),
      (157, Row False [
        (2, 2, St 69), (48, 48, St 158), (49, 49, St 201), (50, 50, St 204), (51, 57, St 207), (65, 70, St 208),
        (97, 102, St 208)] (St 0)),
      (158, Row False [
        (46, 46, St 72), (48, 57, St 159), (58, 58, St 162), (65, 70, St 159), (93, 93, St 460),
        (97, 102, St 159)] (St 0)),
      (159, Row False [
        (48, 57, St 160), (58, 58, St 162), (65, 70, St 160), (93, 93, St 460), (97, 102, St 160)] (St 0)),
      (160, Row False [
        (48, 57, St 161), (58, 58, St 162), (65, 70, St 161), (93, 93, St 460), (97, 102, St 161)] (St 0)),
      (161, Row False [(58, 58, St 162), (93, 93, St 460)] (St 0))],
     [])"

definition uri_chunk_25 :: "uri_action chunk" where
  "uri_chunk_25 =
    ([(162, Row False [
        (2, 2, St 69), (48, 48, St 163), (49, 49, St 193), (50, 50, St 196), (51, 57, St 199), (65, 70, St 200),
        (97, 102, St 200)] (St 0)),
      (163, Row False [
        (46, 46, St 72), (48, 57, St 164), (58, 58, St 167), (65, 70, St 164), (93, 93, St 460),
        (97, 102, St 164)] (St 0)),
      (164, Row False [
        (48, 57, St 165), (58, 58, St 167), (65, 70, St 165), (93, 93, St 460), (97, 102, St 165)] (St 0)),
      (165, Row False [
        (48, 57, St 166), (58, 58, St 167), (65, 70, St 166), (93, 93, St 460), (97, 102, St 166)] (St 0)),
      (166, Row False [(58, 58, St 167), (93, 93, St 460)] (St 0)),
      (167, Row False [
        (2, 2, St 69), (48, 48, St 168), (49, 49, St 185), (50, 50, St 188), (51, 57, St 191), (65, 70, St 192),
        (97, 102, St 192)] (St 0)),
      (168, Row False [
        (46, 46, St 72), (48, 57, St 169), (58, 58, St 172), (65, 70, St 169), (93, 93, St 460),
        (97, 102, St 169)] (St 0)),
      (169, Row False [
        (48, 57, St 170), (58, 58, St 172), (65, 70, St 170), (93, 93, St 460), (97, 102, St 170)] (St 0)),
      (170, Row False [
        (48, 57, St 171), (58, 58, St 172), (65, 70, St 171), (93, 93, St 460), (97, 102, St 171)] (St 0))],
     [])"

definition uri_chunk_26 :: "uri_action chunk" where
  "uri_chunk_26 =
    ([(171, Row False [(58, 58, St 172), (93, 93, St 460)] (St 0)),
      (172, Row False [
        (2, 2, St 69), (48, 48, St 173), (49, 49, St 177), (50, 50, St 180), (51, 57, St 183), (65, 70, St 184),
        (97, 102, St 184)] (St 0)),
      (173, Row False [
        (46, 46, St 72), (48, 57, St 174), (58, 58, St 111), (65, 70, St 174), (93, 93, St 460),
        (97, 102, St 174)] (St 0)),
      (174, Row False [
        (48, 57, St 175), (58, 58, St 111), (65, 70, St 175), (93, 93, St 460), (97, 102, St 175)] (St 0)),
      (175, Row False [
        (48, 57, St 176), (58, 58, St 111), (65, 70, St 176), (93, 93, St 460), (97, 102, St 176)] (St 0)),
      (176, Row False [(58, 58, St 111), (93, 93, St 460)] (St 0)),
      (177, Row False [
        (46, 46, St 72), (48, 57, St 178), (58, 58, St 111), (65, 70, St 174), (93, 93, St 460),
        (97, 102, St 174)] (St 0)),
      (178, Row False [
        (46, 46, St 72), (48, 57, St 179), (58, 58, St 111), (65, 70, St 175), (93, 93, St 460),
        (97, 102, St 175)] (St 0)),
      (179, Row False [
        (46, 46, St 72), (48, 57, St 176), (58, 58, St 111), (65, 70, St 176), (93, 93, St 460),
        (97, 102, St 176)] (St 0))],
     [])"

definition uri_chunk_27 :: "uri_action chunk" where
  "uri_chunk_27 =
    ([(180, Row False [
        (46, 46, St 72), (48, 52, St 181), (53, 53, St 182), (54, 57, St 181), (58, 58, St 111),
        (65, 70, St 174), (93, 93, St 460), (97, 102, St 174)] (St 0)),
      (181, Row False [
        (46, 46, St 72), (48, 57, St 175), (58, 58, St 111), (65, 70, St 175), (93, 93, St 460),
        (97, 102, St 175)] (St 0)),
      (182, Row False [
        (46, 46, St 72), (48, 53, St 179), (54, 57, St 175), (58, 58, St 111), (65, 70, St 175),
        (93, 93, St 460), (97, 102, St 175)] (St 0)),
      (183, Row False [
        (46, 46, St 72), (48, 57, St 181), (58, 58, St 111), (65, 70, St 174), (93, 93, St 460),
        (97, 102, St 174)] (St 0)),
      (184, Row False [
        (48, 57, St 174), (58, 58, St 111), (65, 70, St 174), (93, 93, St 460), (97, 102, St 174)] (St 0)),
      (185, Row False [
        (46, 46, St 72), (48, 57, St 186), (58, 58, St 172), (65, 70, St 169), (93, 93, St 460),
        (97, 102, St 169)] (St 0)),
      (186, Row False [
        (46, 46, St 72), (48, 57, St 187), (58, 58, St 172), (65, 70, St 170), (93, 93, St 460),
        (97, 102, St 170)] (St 0)),
      (187, Row False [
        (46, 46, St 72), (48, 57, St 171), (58, 58, St 172), (65, 70, St 171), (93, 93, St 460),
        (97, 102, St 171)] (St 0))],
     [])"

definition uri_chunk_28 :: "uri_action chunk" where
  "uri_chunk_28 =
    ([(188, Row False [
        (46, 46, St 72), (48, 52, St 189), (53, 53, St 190), (54, 57, St 189), (58, 58, St 172),
        (65, 70, St 169), (93, 93, St 460), (97, 102, St 169)] (St 0)),
      (189, Row False [
        (46, 46, St 72), (48, 57, St 170), (58, 58, St 172), (65, 70, St 170), (93, 93, St 460),
        (97, 102, St 170)] (St 0)),
      (190, Row False [
        (46, 46, St 72), (48, 53, St 187), (54, 57, St 170), (58, 58, St 172), (65, 70, St 170),
        (93, 93, St 460), (97, 102, St 170)] (St 0)),
      (191, Row False [
        (46, 46, St 72), (48, 57, St 189), (58, 58, St 172), (65, 70, St 169), (93, 93, St 460),
        (97, 102, St 169)] (St 0)),
      (192, Row False [
        (48, 57, St 169), (58, 58, St 172), (65, 70, St 169), (93, 93, St 460), (97, 102, St 169)] (St 0)),
      (193, Row False [
        (46, 46, St 72), (48, 57, St 194), (58, 58, St 167), (65, 70, St 164), (93, 93, St 460),
        (97, 102, St 164)] (St 0)),
      (194, Row False [
        (46, 46, St 72), (48, 57, St 195), (58, 58, St 167), (65, 70, St 165), (93, 93, St 460),
        (97, 102, St 165)] (St 0)),
      (195, Row False [
        (46, 46, St 72), (48, 57, St 166), (58, 58, St 167), (65, 70, St 166), (93, 93, St 460),
        (97, 102, St 166)] (St 0))],
     [])"

definition uri_chunk_29 :: "uri_action chunk" where
  "uri_chunk_29 =
    ([(196, Row False [
        (46, 46, St 72), (48, 52, St 197), (53, 53, St 198), (54, 57, St 197), (58, 58, St 167),
        (65, 70, St 164), (93, 93, St 460), (97, 102, St 164)] (St 0)),
      (197, Row False [
        (46, 46, St 72), (48, 57, St 165), (58, 58, St 167), (65, 70, St 165), (93, 93, St 460),
        (97, 102, St 165)] (St 0)),
      (198, Row False [
        (46, 46, St 72), (48, 53, St 195), (54, 57, St 165), (58, 58, St 167), (65, 70, St 165),
        (93, 93, St 460), (97, 102, St 165)] (St 0)),
      (199, Row False [
        (46, 46, St 72), (48, 57, St 197), (58, 58, St 167), (65, 70, St 164), (93, 93, St 460),
        (97, 102, St 164)] (St 0)),
      (200, Row False [
        (48, 57, St 164), (58, 58, St 167), (65, 70, St 164), (93, 93, St 460), (97, 102, St 164)] (St 0)),
      (201, Row False [
        (46, 46, St 72), (48, 57, St 202), (58, 58, St 162), (65, 70, St 159), (93, 93, St 460),
        (97, 102, St 159)] (St 0)),
      (202, Row False [
        (46, 46, St 72), (48, 57, St 203), (58, 58, St 162), (65, 70, St 160), (93, 93, St 460),
        (97, 102, St 160)] (St 0)),
      (203, Row False [
        (46, 46, St 72), (48, 57, St 161), (58, 58, St 162), (65, 70, St 161), (93, 93, St 460),
        (97, 102, St 161)] (St 0))],
     [])"

definition uri_chunk_30 :: "uri_action chunk" where
  "uri_chunk_30 =
    ([(204, Row False [
        (46, 46, St 72), (48, 52, St 205), (53, 53, St 206), (54, 57, St 205), (58, 58, St 162),
        (65, 70, St 159), (93, 93, St 460), (97, 102, St 159)] (St 0)),
      (205, Row False [
        (46, 46, St 72), (48, 57, St 160), (58, 58, St 162), (65, 70, St 160), (93, 93, St 460),
        (97, 102, St 160)] (St 0)),
      (206, Row False [
        (46, 46, St 72), (48, 53, St 203), (54, 57, St 160), (58, 58, St 162), (65, 70, St 160),
        (93, 93, St 460), (97, 102, St 160)] (St 0)),
      (207, Row False [
        (46, 46, St 72), (48, 57, St 205), (58, 58, St 162), (65, 70, St 159), (93, 93, St 460),
        (97, 102, St 159)] (St 0)),
      (208, Row False [
        (48, 57, St 159), (58, 58, St 162), (65, 70, St 159), (93, 93, St 460), (97, 102, St 159)] (St 0)),
      (209, Row False [
        (46, 46, St 72), (48, 57, St 210), (58, 58, St 157), (65, 70, St 154), (93, 93, St 460),
        (97, 102, St 154)] (St 0)),
      (210, Row False [
        (46, 46, St 72), (48, 57, St 211), (58, 58, St 157), (65, 70, St 155), (93, 93, St 460),
        (97, 102, St 155)] (St 0)),
      (211, Row False [
        (46, 46, St 72), (48, 57, St 156), (58, 58, St 157), (65, 70, St 156), (93, 93, St 460),
        (97, 102, St 156)] (St 0))],
     [])"

definition uri_chunk_31 :: "uri_action chunk" where
  "uri_chunk_31 =
    ([(212, Row False [
        (46, 46, St 72), (48, 52, St 213), (53, 53, St 214), (54, 57, St 213), (58, 58, St 157),
        (65, 70, St 154), (93, 93, St 460), (97, 102, St 154)] (St 0)),
      (213, Row False [
        (46, 46, St 72), (48, 57, St 155), (58, 58, St 157), (65, 70, St 155), (93, 93, St 460),
        (97, 102, St 155)] (St 0)),
      (214, Row False [
        (46, 46, St 72), (48, 53, St 211), (54, 57, St 155), (58, 58, St 157), (65, 70, St 155),
        (93, 93, St 460), (97, 102, St 155)] (St 0)),
      (215, Row False [
        (46, 46, St 72), (48, 57, St 213), (58, 58, St 157), (65, 70, St 154), (93, 93, St 460),
        (97, 102, St 154)] (St 0)),
      (216, Row False [
        (48, 57, St 154), (58, 58, St 157), (65, 70, St 154), (93, 93, St 460), (97, 102, St 154)] (St 0)),
      (217, Row False [
        (46, 46, St 72), (48, 57, St 218), (58, 58, St 152), (65, 70, St 149), (93, 93, St 460),
        (97, 102, St 149)] (St 0)),
      (218, Row False [
        (46, 46, St 72), (48, 57, St 219), (58, 58, St 152), (65, 70, St 150), (93, 93, St 460),
        (97, 102, St 150)] (St 0)),
      (219, Row False [
        (46, 46, St 72), (48, 57, St 151), (58, 58, St 152), (65, 70, St 151), (93, 93, St 460),
        (97, 102, St 151)] (St 0))],
     [])"

definition uri_chunk_32 :: "uri_action chunk" where
  "uri_chunk_32 =
    ([(220, Row False [
        (46, 46, St 72), (48, 52, St 221), (53, 53, St 222), (54, 57, St 221), (58, 58, St 152),
        (65, 70, St 149), (93, 93, St 460), (97, 102, St 149)] (St 0)),
      (221, Row False [
        (46, 46, St 72), (48, 57, St 150), (58, 58, St 152), (65, 70, St 150), (93, 93, St 460),
        (97, 102, St 150)] (St 0)),
      (222, Row False [
        (46, 46, St 72), (48, 53, St 219), (54, 57, St 150), (58, 58, St 152), (65, 70, St 150),
        (93, 93, St 460), (97, 102, St 150)] (St 0)),
      (223, Row False [
        (46, 46, St 72), (48, 57, St 221), (58, 58, St 152), (65, 70, St 149), (93, 93, St 460),
        (97, 102, St 149)] (St 0)),
      (224, Row False [
        (48, 57, St 149), (58, 58, St 152), (65, 70, St 149), (93, 93, St 460), (97, 102, St 149)] (St 0)),
      (225, Row False [(48, 57, St 226), (65, 70, St 226), (97, 102, St 226)] (St 0)),
      (226, Row False [(46, 46, St 227), (48, 57, St 226), (65, 70, St 226), (97, 102, St 226)] (St 0)),
      (227, Row False [
        (33, 33, St 228), (36, 36, St 228), (38, 46, St 228), (48, 59, St 228), (61, 61, St 228),
        (65, 90, St 228), (95, 95, St 228), (97, 122, St 228), (126, 126, St 228)] (St 0))],
     [])"

definition uri_chunk_33 :: "uri_action chunk" where
  "uri_chunk_33 =
    ([(228, Row False [
        (33, 33, St 228), (36, 36, St 228), (38, 46, St 228), (48, 59, St 228), (61, 61, St 228),
        (65, 90, St 228), (93, 93, St 460), (95, 95, St 228), (97, 122, St 228), (126, 126, St 228)] (St 0)),
      (489, Row False [
        (33, 33, St 33), (35, 35, Tr 493), (36, 36, St 33), (37, 37, St 34), (38, 46, St 33), (47, 47, Tr 494),
        (48, 57, St 489), (58, 59, St 33), (61, 61, St 33), (63, 63, Tr 496), (64, 64, Tr 38), (65, 90, St 33),
        (95, 95, St 33), (97, 122, St 33), (126, 126, St 33)] (St 0)),
      (490, Row False [
        (33, 33, St 467), (35, 35, Tr 485), (36, 36, St 467), (37, 37, St 31), (38, 45, St 467),
        (46, 46, St 491), (47, 47, Tr 486), (48, 57, St 467), (58, 58, Tr 499), (59, 59, St 467),
        (61, 61, St 467), (63, 63, Tr 488), (64, 64, Tr 38), (65, 90, St 467), (95, 95, St 467),
        (97, 122, St 467), (126, 126, St 467)] (St 0)),
      (491, Row False [
        (2, 2, St 13), (33, 33, St 467), (35, 35, Tr 485), (36, 36, St 467), (37, 37, St 31), (38, 46, St 467),
        (47, 47, Tr 486), (48, 48, St 492), (49, 49, St 500), (50, 50, St 502), (51, 57, St 501),
        (58, 58, Tr 499), (59, 59, St 467), (61, 61, St 467), (63, 63, Tr 488), (64, 64, Tr 38),
        (65, 90, St 467), (95, 95, St 467), (97, 122, St 467), (126, 126, St 467)] (St 0)),
      (492, Row False [
        (33, 33, St 467), (35, 35, Tr 485), (36, 36, St 467), (37, 37, St 31), (38, 45, St 467),
        (46, 46, St 493), (47, 47, Tr 486), (48, 57, St 467), (58, 58, Tr 499), (59, 59, St 467),
        (61, 61, St 467), (63, 63, Tr 488), (64, 64, Tr 38), (65, 90, St 467), (95, 95, St 467),
        (97, 122, St 467), (126, 126, St 467)] (St 0))],
     [(500, [UMark], 489),
      (477, [UMark], 490)])"

definition uri_chunk_34 :: "uri_action chunk" where
  "uri_chunk_34 =
    ([(493, Row False [
        (2, 2, St 17), (33, 33, St 467), (35, 35, Tr 485), (36, 36, St 467), (37, 37, St 31), (38, 46, St 467),
        (47, 47, Tr 486), (48, 48, St 494), (49, 49, St 496), (50, 50, St 498), (51, 57, St 497),
        (58, 58, Tr 499), (59, 59, St 467), (61, 61, St 467), (63, 63, Tr 488), (64, 64, Tr 38),
        (65, 90, St 467), (95, 95, St 467), (97, 122, St 467), (126, 126, St 467)] (St 0)),
      (494, Row False [
        (33, 33, St 467), (35, 35, Tr 485), (36, 36, St 467), (37, 37, St 31), (38, 45, St 467),
        (46, 46, St 495), (47, 47, Tr 486), (48, 57, St 467), (58, 58, Tr 499), (59, 59, St 467),
        (61, 61, St 467), (63, 63, Tr 488), (64, 64, Tr 38), (65, 90, St 467), (95, 95, St 467),
        (97, 122, St 467), (126, 126, St 467)] (St 0)),
      (495, Row False [
        (2, 2, St 21), (33, 33, St 467), (35, 35, Tr 485), (36, 36, St 467), (37, 37, St 31), (38, 46, St 467),
        (47, 47, Tr 486), (48, 57, St 467), (58, 58, Tr 499), (59, 59, St 467), (61, 61, St 467),
        (63, 63, Tr 488), (64, 64, Tr 38), (65, 90, St 467), (95, 95, St 467), (97, 122, St 467),
        (126, 126, St 467)] (St 0)),
      (496, Row False [
        (33, 33, St 467), (35, 35, Tr 485), (36, 36, St 467), (37, 37, St 31), (38, 45, St 467),
        (46, 46, St 495), (47, 47, Tr 486), (48, 57, St 497), (58, 58, Tr 499), (59, 59, St 467),
        (61, 61, St 467), (63, 63, Tr 488), (64, 64, Tr 38), (65, 90, St 467), (95, 95, St 467),
        (97, 122, St 467), (126, 126, St 467)] (St 0)),
      (497, Row False [
        (33, 33, St 467), (35, 35, Tr 485), (36, 36, St 467), (37, 37, St 31), (38, 45, St 467),
        (46, 46, St 495), (47, 47, Tr 486), (48, 57, St 494), (58, 58, Tr 499), (59, 59, St 467),
        (61, 61, St 467), (63, 63, Tr 488), (64, 64, Tr 38), (65, 90, St 467), (95, 95, St 467),
        (97, 122, St 467), (126, 126, St 467)] (St 0))],
     [])"

definition uri_chunk_35 :: "uri_action chunk" where
  "uri_chunk_35 =
    ([(498, Row False [
        (33, 33, St 467), (35, 35, Tr 485), (36, 36, St 467), (37, 37, St 31), (38, 45, St 467),
        (46, 46, St 495), (47, 47, Tr 486), (48, 52, St 494), (53, 53, St 499), (54, 57, St 494),
        (58, 58, Tr 499), (59, 59, St 467), (61, 61, St 467), (63, 63, Tr 488), (64, 64, Tr 38),
        (65, 90, St 467), (95, 95, St 467), (97, 122, St 467), (126, 126, St 467)] (St 0)),
      (499, Row False [
        (33, 33, St 467), (35, 35, Tr 485), (36, 36, St 467), (37, 37, St 31), (38, 45, St 467),
        (46, 46, St 495), (47, 47, Tr 486), (48, 53, St 494), (54, 57, St 467), (58, 58, Tr 499),
        (59, 59, St 467), (61, 61, St 467), (63, 63, Tr 488), (64, 64, Tr 38), (65, 90, St 467),
        (95, 95, St 467), (97, 122, St 467), (126, 126, St 467)] (St 0)),
      (500, Row False [
        (33, 33, St 467), (35, 35, Tr 485), (36, 36, St 467), (37, 37, St 31), (38, 45, St 467),
        (46, 46, St 493), (47, 47, Tr 486), (48, 57, St 501), (58, 58, Tr 499), (59, 59, St 467),
        (61, 61, St 467), (63, 63, Tr 488), (64, 64, Tr 38), (65, 90, St 467), (95, 95, St 467),
        (97, 122, St 467), (126, 126, St 467)] (St 0)),
      (501, Row False [
        (33, 33, St 467), (35, 35, Tr 485), (36, 36, St 467), (37, 37, St 31), (38, 45, St 467),
        (46, 46, St 493), (47, 47, Tr 486), (48, 57, St 492), (58, 58, Tr 499), (59, 59, St 467),
        (61, 61, St 467), (63, 63, Tr 488), (64, 64, Tr 38), (65, 90, St 467), (95, 95, St 467),
        (97, 122, St 467), (126, 126, St 467)] (St 0))],
     [])"

definition uri_chunk_36 :: "uri_action chunk" where
  "uri_chunk_36 =
    ([(502, Row False [
        (33, 33, St 467), (35, 35, Tr 485), (36, 36, St 467), (37, 37, St 31), (38, 45, St 467),
        (46, 46, St 493), (47, 47, Tr 486), (48, 52, St 492), (53, 53, St 503), (54, 57, St 492),
        (58, 58, Tr 499), (59, 59, St 467), (61, 61, St 467), (63, 63, Tr 488), (64, 64, Tr 38),
        (65, 90, St 467), (95, 95, St 467), (97, 122, St 467), (126, 126, St 467)] (St 0)),
      (503, Row False [
        (33, 33, St 467), (35, 35, Tr 485), (36, 36, St 467), (37, 37, St 31), (38, 45, St 467),
        (46, 46, St 493), (47, 47, Tr 486), (48, 53, St 492), (54, 57, St 467), (58, 58, Tr 499),
        (59, 59, St 467), (61, 61, St 467), (63, 63, Tr 488), (64, 64, Tr 38), (65, 90, St 467),
        (95, 95, St 467), (97, 122, St 467), (126, 126, St 467)] (St 0)),
      (504, Row False [
        (33, 33, St 467), (35, 35, Tr 485), (36, 36, St 467), (37, 37, St 31), (38, 45, St 467),
        (46, 46, St 491), (47, 47, Tr 486), (48, 57, St 505), (58, 58, Tr 499), (59, 59, St 467),
        (61, 61, St 467), (63, 63, Tr 488), (64, 64, Tr 38), (65, 90, St 467), (95, 95, St 467),
        (97, 122, St 467), (126, 126, St 467)] (St 0)),
      (505, Row False [
        (33, 33, St 467), (35, 35, Tr 485), (36, 36, St 467), (37, 37, St 31), (38, 45, St 467),
        (46, 46, St 491), (47, 47, Tr 486), (48, 57, St 490), (58, 58, Tr 499), (59, 59, St 467),
        (61, 61, St 467), (63, 63, Tr 488), (64, 64, Tr 38), (65, 90, St 467), (95, 95, St 467),
        (97, 122, St 467), (126, 126, St 467)] (St 0))],
     [(478, [UMark], 504),
      (480, [UMark], 505),
      (479, [UMark], 506)])"

definition uri_chunk_37 :: "uri_action chunk" where
  "uri_chunk_37 =
    ([(506, Row False [
        (33, 33, St 467), (35, 35, Tr 485), (36, 36, St 467), (37, 37, St 31), (38, 45, St 467),
        (46, 46, St 491), (47, 47, Tr 486), (48, 52, St 490), (53, 53, St 507), (54, 57, St 490),
        (58, 58, Tr 499), (59, 59, St 467), (61, 61, St 467), (63, 63, Tr 488), (64, 64, Tr 38),
        (65, 90, St 467), (95, 95, St 467), (97, 122, St 467), (126, 126, St 467)] (St 0)),
      (507, Row False [
        (33, 33, St 467), (35, 35, Tr 485), (36, 36, St 467), (37, 37, St 31), (38, 45, St 467),
        (46, 46, St 491), (47, 47, Tr 486), (48, 53, St 490), (54, 57, St 467), (58, 58, Tr 499),
        (59, 59, St 467), (61, 61, St 467), (63, 63, Tr 488), (64, 64, Tr 38), (65, 90, St 467),
        (95, 95, St 467), (97, 122, St 467), (126, 126, St 467)] (St 0)),
      (508, Row False [
        (0, 32, St 0), (34, 34, St 0), (35, 35, St 453), (37, 37, St 3), (43, 43, St 508), (45, 46, St 508),
        (47, 47, St 455), (48, 57, St 508), (58, 58, Tr 543), (60, 60, St 0), (62, 62, St 0), (63, 63, St 456),
        (65, 90, St 508), (91, 94, St 0), (96, 96, St 0), (97, 122, St 508), (123, 125, St 0), (127, 127, St 0)] (St 452)),
      (509, Row False [
        (0, 32, St 0), (34, 34, St 0), (35, 35, St 453), (37, 37, St 5), (47, 47, St 510), (60, 60, St 0),
        (62, 62, St 0), (63, 63, St 456), (91, 94, St 0), (96, 96, St 0), (123, 125, St 0), (127, 127, St 0)] (St 455))],
     [(461, [UMarkA], 508),
      (543, [UScheme], 509)])"

definition uri_chunk_38 :: "uri_action chunk" where
  "uri_chunk_38 =
    ([(510, Row False [
        (0, 32, St 0), (34, 34, St 0), (35, 35, St 453), (37, 37, St 5), (47, 47, St 511), (60, 60, St 0),
        (62, 62, St 0), (63, 63, St 456), (91, 94, St 0), (96, 96, St 0), (123, 125, St 0), (127, 127, St 0)] (St 455)),
      (511, Row False [
        (2, 2, Tr 546), (33, 33, Tr 547), (35, 35, Tr 548), (36, 36, Tr 547), (37, 37, Tr 549),
        (38, 46, Tr 547), (47, 47, Tr 550), (48, 48, Tr 551), (49, 49, Tr 552), (50, 50, Tr 553),
        (51, 57, Tr 554), (58, 58, Tr 555), (59, 59, Tr 547), (61, 61, Tr 547), (63, 63, Tr 556),
        (64, 64, Tr 557), (65, 90, Tr 547), (91, 91, Tr 558), (95, 95, Tr 547), (97, 122, Tr 547),
        (126, 126, Tr 547)] (St 0)),
      (229, Row False [(48, 52, St 230)] (St 0)),
      (230, Row False [(48, 57, St 231)] (St 0)),
      (231, Row False [(46, 46, St 232)] (St 0)),
      (232, Row False [
        (2, 2, St 233), (48, 48, St 235), (49, 49, St 249), (50, 50, St 251), (51, 57, St 250)] (St 0)),
      (233, Row False [(48, 52, St 234)] (St 0)),
      (234, Row False [(48, 57, St 235)] (St 0)),
      (235, Row False [(46, 46, St 236)] (St 0)),
      (236, Row False [
        (2, 2, St 237), (48, 48, St 239), (49, 49, St 245), (50, 50, St 247), (51, 57, St 246)] (St 0)),
      (237, Row False [(48, 52, St 238)] (St 0)),
      (238, Row False [(48, 57, St 239)] (St 0)),
      (239, Row False [(46, 46, St 240)] (St 0))],
     [(546, [UMark], 229)])"

definition uri_chunk_39 :: "uri_action chunk" where
  "uri_chunk_39 =
    ([(240, Row False [
        (2, 2, St 241), (48, 48, St 512), (49, 49, St 516), (50, 50, St 518), (51, 57, St 517)] (St 0)),
      (241, Row False [(48, 52, St 242)] (St 0)),
      (242, Row False [(48, 57, St 512)] (St 0)),
      (512, Row False [(35, 35, Tr 559), (47, 47, Tr 560), (58, 58, Tr 561), (63, 63, Tr 562)] (St 0)),
      (513, Row False [
        (0, 32, St 0), (34, 34, St 0), (35, 35, Tr 563), (37, 37, St 243), (60, 60, St 0), (62, 62, St 0),
        (63, 63, Tr 565), (91, 94, St 0), (96, 96, St 0), (123, 125, St 0), (127, 127, St 0)] (St 513)),
      (243, Row False [(48, 57, St 244), (65, 70, St 244), (97, 102, St 244)] (St 0)),
      (244, Row False [(48, 57, St 513), (65, 70, St 513), (97, 102, St 513)] (St 0))],
     [(550, [UMark, UHost], 513),
      (567, [UMark, UPort], 513),
      (560, [UHost, UMark], 513),
      (571, [UPort, UMark], 513),
      (584, [UMark, UHost], 514)])"

definition uri_chunk_40 :: "uri_action chunk" where
  "uri_chunk_40 =
    ([(514, Row False [(35, 35, Tr 566), (47, 47, Tr 567), (48, 57, Tr 568), (63, 63, Tr 569)] (St 0)),
      (515, Row False [(35, 35, Tr 570), (47, 47, Tr 571), (48, 57, St 515), (63, 63, Tr 573)] (St 0)),
      (516, Row False [
        (35, 35, Tr 559), (47, 47, Tr 560), (48, 57, St 517), (58, 58, Tr 561), (63, 63, Tr 562)] (St 0)),
      (517, Row False [
        (35, 35, Tr 559), (47, 47, Tr 560), (48, 57, St 512), (58, 58, Tr 561), (63, 63, Tr 562)] (St 0)),
      (518, Row False [
        (35, 35, Tr 559), (47, 47, Tr 560), (48, 52, St 512), (53, 53, St 519), (54, 57, St 512),
        (58, 58, Tr 561), (63, 63, Tr 562)] (St 0)),
      (519, Row False [
        (35, 35, Tr 559), (47, 47, Tr 560), (48, 53, St 512), (58, 58, Tr 561), (63, 63, Tr 562)] (St 0)),
      (245, Row False [(46, 46, St 240), (48, 57, St 246)] (St 0)),
      (246, Row False [(46, 46, St 240), (48, 57, St 239)] (St 0)),
      (247, Row False [(46, 46, St 240), (48, 52, St 239), (53, 53, St 248), (54, 57, St 239)] (St 0)),
      (248, Row False [(46, 46, St 240), (48, 53, St 239)] (St 0)),
      (249, Row False [(46, 46, St 236), (48, 57, St 250)] (St 0)),
      (250, Row False [(46, 46, St 236), (48, 57, St 235)] (St 0))],
     [(561, [UHost], 514),
      (568, [UMark], 515)])"

definition uri_chunk_41 :: "uri_action chunk" where
  "uri_chunk_41 =
    ([(251, Row False [(46, 46, St 236), (48, 52, St 235), (53, 53, St 252), (54, 57, St 235)] (St 0)),
      (252, Row False [(46, 46, St 236), (48, 53, St 235)] (St 0)),
      (520, Row False [
        (33, 33, St 520), (35, 35, Tr 559), (36, 36, St 520), (37, 37, St 253), (38, 46, St 520),
        (47, 47, Tr 560), (48, 57, St 520), (58, 58, Tr 576), (59, 59, St 520), (61, 61, St 520),
        (63, 63, Tr 562), (64, 64, Tr 263), (65, 90, St 520), (95, 95, St 520), (97, 122, St 520),
        (126, 126, St 520)] (St 0)),
      (253, Row False [(48, 57, St 254), (65, 70, St 254), (97, 102, St 254)] (St 0)),
      (254, Row False [(48, 57, St 520), (65, 70, St 520), (97, 102, St 520)] (St 0)),
      (521, Row False [
        (33, 33, St 255), (35, 35, Tr 566), (36, 36, St 255), (37, 37, St 256), (38, 46, St 255),
        (47, 47, Tr 567), (48, 57, Tr 577), (58, 59, St 255), (61, 61, St 255), (63, 63, Tr 569),
        (64, 64, Tr 263), (65, 90, St 255), (95, 95, St 255), (97, 122, St 255), (126, 126, St 255)] (St 0))],
     [(547, [UMark], 520),
      (549, [UMark], 253),
      (555, [UMark, UHost], 521),
      (576, [UHost], 521)])"

definition uri_chunk_42 :: "uri_action chunk" where
  "uri_chunk_42 =
    ([(255, Row False [
        (33, 33, St 255), (36, 36, St 255), (37, 37, St 256), (38, 46, St 255), (48, 59, St 255),
        (61, 61, St 255), (64, 64, Tr 263), (65, 90, St 255), (95, 95, St 255), (97, 122, St 255),
        (126, 126, St 255)] (St 0)),
      (256, Row False [(48, 57, St 257), (65, 70, St 257), (97, 102, St 257)] (St 0)),
      (257, Row False [(48, 57, St 255), (65, 70, St 255), (97, 102, St 255)] (St 0)),
      (522, Row False [
        (2, 2, Tr 546), (33, 33, Tr 578), (35, 35, Tr 548), (36, 36, Tr 578), (37, 37, Tr 579),
        (38, 46, Tr 578), (47, 47, Tr 550), (48, 48, Tr 580), (49, 49, Tr 581), (50, 50, Tr 582),
        (51, 57, Tr 583), (58, 58, Tr 584), (59, 59, Tr 578), (61, 61, Tr 578), (63, 63, Tr 556),
        (65, 90, Tr 578), (91, 91, Tr 558), (95, 95, Tr 578), (97, 122, Tr 578), (126, 126, Tr 578)] (St 0)),
      (523, Row False [
        (33, 33, St 523), (35, 35, Tr 559), (36, 36, St 523), (37, 37, St 258), (38, 46, St 523),
        (47, 47, Tr 560), (48, 57, St 523), (58, 58, Tr 561), (59, 59, St 523), (61, 61, St 523),
        (63, 63, Tr 562), (65, 90, St 523), (95, 95, St 523), (97, 122, St 523), (126, 126, St 523)] (St 0)),
      (258, Row False [(48, 57, St 259), (65, 70, St 259), (97, 102, St 259)] (St 0))],
     [(263, [UUserinfo], 522),
      (557, [UMark, UUserinfo], 522),
      (578, [UMark], 523),
      (579, [UMark], 258)])"

definition uri_chunk_43 :: "uri_action chunk" where
  "uri_chunk_43 =
    ([(259, Row False [(48, 57, St 523), (65, 70, St 523), (97, 102, St 523)] (St 0)),
      (524, Row False [
        (33, 33, St 523), (35, 35, Tr 559), (36, 36, St 523), (37, 37, St 258), (38, 45, St 523),
        (46, 46, St 525), (47, 47, Tr 560), (48, 57, St 523), (58, 58, Tr 561), (59, 59, St 523),
        (61, 61, St 523), (63, 63, Tr 562), (65, 90, St 523), (95, 95, St 523), (97, 122, St 523),
        (126, 126, St 523)] (St 0)),
      (525, Row False [
        (2, 2, St 233), (33, 33, St 523), (35, 35, Tr 559), (36, 36, St 523), (37, 37, St 258),
        (38, 46, St 523), (47, 47, Tr 560), (48, 48, St 526), (49, 49, St 534), (50, 50, St 536),
        (51, 57, St 535), (58, 58, Tr 561), (59, 59, St 523), (61, 61, St 523), (63, 63, Tr 562),
        (65, 90, St 523), (95, 95, St 523), (97, 122, St 523), (126, 126, St 523)] (St 0)),
      (526, Row False [
        (33, 33, St 523), (35, 35, Tr 559), (36, 36, St 523), (37, 37, St 258), (38, 45, St 523),
        (46, 46, St 527), (47, 47, Tr 560), (48, 57, St 523), (58, 58, Tr 561), (59, 59, St 523),
        (61, 61, St 523), (63, 63, Tr 562), (65, 90, St 523), (95, 95, St 523), (97, 122, St 523),
        (126, 126, St 523)] (St 0)),
      (527, Row False [
        (2, 2, St 237), (33, 33, St 523), (35, 35, Tr 559), (36, 36, St 523), (37, 37, St 258),
        (38, 46, St 523), (47, 47, Tr 560), (48, 48, St 528), (49, 49, St 530), (50, 50, St 532),
        (51, 57, St 531), (58, 58, Tr 561), (59, 59, St 523), (61, 61, St 523), (63, 63, Tr 562),
        (65, 90, St 523), (95, 95, St 523), (97, 122, St 523), (126, 126, St 523)] (St 0))],
     [(580, [UMark], 524)])"

definition uri_chunk_44 :: "uri_action chunk" where
  "uri_chunk_44 =
    ([(528, Row False [
        (33, 33, St 523), (35, 35, Tr 559), (36, 36, St 523), (37, 37, St 258), (38, 45, St 523),
        (46, 46, St 529), (47, 47, Tr 560), (48, 57, St 523), (58, 58, Tr 561), (59, 59, St 523),
        (61, 61, St 523), (63, 63, Tr 562), (65, 90, St 523), (95, 95, St 523), (97, 122, St 523),
        (126, 126, St 523)] (St 0)),
      (529, Row False [
        (2, 2, St 241), (33, 33, St 523), (35, 35, Tr 559), (36, 36, St 523), (37, 37, St 258),
        (38, 46, St 523), (47, 47, Tr 560), (48, 57, St 523), (58, 58, Tr 561), (59, 59, St 523),
        (61, 61, St 523), (63, 63, Tr 562), (65, 90, St 523), (95, 95, St 523), (97, 122, St 523),
        (126, 126, St 523)] (St 0)),
      (530, Row False [
        (33, 33, St 523), (35, 35, Tr 559), (36, 36, St 523), (37, 37, St 258), (38, 45, St 523),
        (46, 46, St 529), (47, 47, Tr 560), (48, 57, St 531), (58, 58, Tr 561), (59, 59, St 523),
        (61, 61, St 523), (63, 63, Tr 562), (65, 90, St 523), (95, 95, St 523), (97, 122, St 523),
        (126, 126, St 523)] (St 0)),
      (531, Row False [
        (33, 33, St 523), (35, 35, Tr 559), (36, 36, St 523), (37, 37, St 258), (38, 45, St 523),
        (46, 46, St 529), (47, 47, Tr 560), (48, 57, St 528), (58, 58, Tr 561), (59, 59, St 523),
        (61, 61, St 523), (63, 63, Tr 562), (65, 90, St 523), (95, 95, St 523), (97, 122, St 523),
        (126, 126, St 523)] (St 0)),
      (532, Row False [
        (33, 33, St 523), (35, 35, Tr 559), (36, 36, St 523), (37, 37, St 258), (38, 45, St 523),
        (46, 46, St 529), (47, 47, Tr 560), (48, 52, St 528), (53, 53, St 533), (54, 57, St 528),
        (58, 58, Tr 561), (59, 59, St 523), (61, 61, St 523), (63, 63, Tr 562), (65, 90, St 523),
        (95, 95, St 523), (97, 122, St 523), (126, 126, St 523)] (St 0))],
     [])"

definition uri_chunk_45 :: "uri_action chunk" where
  "uri_chunk_45 =
    ([(533, Row False [
        (33, 33, St 523), (35, 35, Tr 559), (36, 36, St 523), (37, 37, St 258), (38, 45, St 523),
        (46, 46, St 529), (47, 47, Tr 560), (48, 53, St 528), (54, 57, St 523), (58, 58, Tr 561),
        (59, 59, St 523), (61, 61, St 523), (63, 63, Tr 562), (65, 90, St 523), (95, 95, St 523),
        (97, 122, St 523), (126, 126, St 523)] (St 0)),
      (534, Row False [
        (33, 33, St 523), (35, 35, Tr 559), (36, 36, St 523), (37, 37, St 258), (38, 45, St 523),
        (46, 46, St 527), (47, 47, Tr 560), (48, 57, St 535), (58, 58, Tr 561), (59, 59, St 523),
        (61, 61, St 523), (63, 63, Tr 562), (65, 90, St 523), (95, 95, St 523), (97, 122, St 523),
        (126, 126, St 523)] (St 0)),
      (535, Row False [
        (33, 33, St 523), (35, 35, Tr 559), (36, 36, St 523), (37, 37, St 258), (38, 45, St 523),
        (46, 46, St 527), (47, 47, Tr 560), (48, 57, St 526), (58, 58, Tr 561), (59, 59, St 523),
        (61, 61, St 523), (63, 63, Tr 562), (65, 90, St 523), (95, 95, St 523), (97, 122, St 523),
        (126, 126, St 523)] (St 0)),
      (536, Row False [
        (33, 33, St 523), (35, 35, Tr 559), (36, 36, St 523), (37, 37, St 258), (38, 45, St 523),
        (46, 46, St 527), (47, 47, Tr 560), (48, 52, St 526), (53, 53, St 537), (54, 57, St 526),
        (58, 58, Tr 561), (59, 59, St 523), (61, 61, St 523), (63, 63, Tr 562), (65, 90, St 523),
        (95, 95, St 523), (97, 122, St 523), (126, 126, St 523)] (St 0)),
      (537, Row False [
        (33, 33, St 523), (35, 35, Tr 559), (36, 36, St 523), (37, 37, St 258), (38, 45, St 523),
        (46, 46, St 527), (47, 47, Tr 560), (48, 53, St 526), (54, 57, St 523), (58, 58, Tr 561),
        (59, 59, St 523), (61, 61, St 523), (63, 63, Tr 562), (65, 90, St 523), (95, 95, St 523),
        (97, 122, St 523), (126, 126, St 523)] (St 0))],
     [])"

definition uri_chunk_46 :: "uri_action chunk" where
  "uri_chunk_46 =
    ([(538, Row False [
        (33, 33, St 523), (35, 35, Tr 559), (36, 36, St 523), (37, 37, St 258), (38, 45, St 523),
        (46, 46, St 525), (47, 47, Tr 560), (48, 57, St 539), (58, 58, Tr 561), (59, 59, St 523),
        (61, 61, St 523), (63, 63, Tr 562), (65, 90, St 523), (95, 95, St 523), (97, 122, St 523),
        (126, 126, St 523)] (St 0)),
      (539, Row False [
        (33, 33, St 523), (35, 35, Tr 559), (36, 36, St 523), (37, 37, St 258), (38, 45, St 523),
        (46, 46, St 525), (47, 47, Tr 560), (48, 57, St 524), (58, 58, Tr 561), (59, 59, St 523),
        (61, 61, St 523), (63, 63, Tr 562), (65, 90, St 523), (95, 95, St 523), (97, 122, St 523),
        (126, 126, St 523)] (St 0)),
      (540, Row False [
        (33, 33, St 523), (35, 35, Tr 559), (36, 36, St 523), (37, 37, St 258), (38, 45, St 523),
        (46, 46, St 525), (47, 47, Tr 560), (48, 52, St 524), (53, 53, St 541), (54, 57, St 524),
        (58, 58, Tr 561), (59, 59, St 523), (61, 61, St 523), (63, 63, Tr 562), (65, 90, St 523),
        (95, 95, St 523), (97, 122, St 523), (126, 126, St 523)] (St 0)),
      (541, Row False [
        (33, 33, St 523), (35, 35, Tr 559), (36, 36, St 523), (37, 37, St 258), (38, 45, St 523),
        (46, 46, St 525), (47, 47, Tr 560), (48, 53, St 524), (54, 57, St 523), (58, 58, Tr 561),
        (59, 59, St 523), (61, 61, St 523), (63, 63, Tr 562), (65, 90, St 523), (95, 95, St 523),
        (97, 122, St 523), (126, 126, St 523)] (St 0))],
     [(581, [UMark], 538),
      (583, [UMark], 539),
      (582, [UMark], 540),
      (558, [UMark], 260)])"

definition uri_chunk_47 :: "uri_action chunk" where
  "uri_chunk_47 =
    ([(260, Row False [
        (48, 57, St 261), (58, 58, St 368), (65, 70, St 261), (97, 102, St 261), (118, 118, St 447)] (St 0)),
      (261, Row False [(48, 57, St 262), (58, 58, St 265), (65, 70, St 262), (97, 102, St 262)] (St 0)),
      (262, Row False [(48, 57, St 263), (58, 58, St 265), (65, 70, St 263), (97, 102, St 263)] (St 0)),
      (263, Row False [(48, 57, St 264), (58, 58, St 265), (65, 70, St 264), (97, 102, St 264)] (St 0)),
      (264, Row False [(58, 58, St 265)] (St 0)),
      (265, Row False [(48, 57, St 266), (58, 58, St 363), (65, 70, St 266), (97, 102, St 266)] (St 0)),
      (266, Row False [(48, 57, St 267), (58, 58, St 270), (65, 70, St 267), (97, 102, St 267)] (St 0)),
      (267, Row False [(48, 57, St 268), (58, 58, St 270), (65, 70, St 268), (97, 102, St 268)] (St 0)),
      (268, Row False [(48, 57, St 269), (58, 58, St 270), (65, 70, St 269), (97, 102, St 269)] (St 0)),
      (269, Row False [(58, 58, St 270)] (St 0)),
      (270, Row False [(48, 57, St 271), (58, 58, St 358), (65, 70, St 271), (97, 102, St 271)] (St 0))],
     [])"

definition uri_chunk_48 :: "uri_action chunk" where
  "uri_chunk_48 =
    ([(271, Row False [(48, 57, St 272), (58, 58, St 275), (65, 70, St 272), (97, 102, St 272)] (St 0)),
      (272, Row False [(48, 57, St 273), (58, 58, St 275), (65, 70, St 273), (97, 102, St 273)] (St 0)),
      (273, Row False [(48, 57, St 274), (58, 58, St 275), (65, 70, St 274), (97, 102, St 274)] (St 0)),
      (274, Row False [(58, 58, St 275)] (St 0)),
      (275, Row False [(48, 57, St 276), (58, 58, St 353), (65, 70, St 276), (97, 102, St 276)] (St 0)),
      (276, Row False [(48, 57, St 277), (58, 58, St 280), (65, 70, St 277), (97, 102, St 277)] (St 0)),
      (277, Row False [(48, 57, St 278), (58, 58, St 280), (65, 70, St 278), (97, 102, St 278)] (St 0)),
      (278, Row False [(48, 57, St 279), (58, 58, St 280), (65, 70, St 279), (97, 102, St 279)] (St 0)),
      (279, Row False [(58, 58, St 280)] (St 0)),
      (280, Row False [(48, 57, St 281), (58, 58, St 348), (65, 70, St 281), (97, 102, St 281)] (St 0)),
      (281, Row False [(48, 57, St 282), (58, 58, St 285), (65, 70, St 282), (97, 102, St 282)] (St 0))],
     [])"

definition uri_chunk_49 :: "uri_action chunk" where
  "uri_chunk_49 =
    ([(282, Row False [(48, 57, St 283), (58, 58, St 285), (65, 70, St 283), (97, 102, St 283)] (St 0)),
      (283, Row False [(48, 57, St 284), (58, 58, St 285), (65, 70, St 284), (97, 102, St 284)] (St 0)),
      (284, Row False [(58, 58, St 285)] (St 0)),
      (285, Row False [(48, 57, St 286), (58, 58, St 335), (65, 70, St 286), (97, 102, St 286)] (St 0)),
      (286, Row False [(48, 57, St 287), (58, 58, St 290), (65, 70, St 287), (97, 102, St 287)] (St 0)),
      (287, Row False [(48, 57, St 288), (58, 58, St 290), (65, 70, St 288), (97, 102, St 288)] (St 0)),
      (288, Row False [(48, 57, St 289), (58, 58, St 290), (65, 70, St 289), (97, 102, St 289)] (St 0)),
      (289, Row False [(58, 58, St 290)] (St 0)),
      (290, Row False [
        (2, 2, St 291), (48, 48, St 318), (49, 49, St 326), (50, 50, St 329), (51, 57, St 332),
        (58, 58, St 333), (65, 70, St 334), (97, 102, St 334)] (St 0)),
      (291, Row False [(48, 52, St 292)] (St 0)),
      (292, Row False [(48, 57, St 293)] (St 0)),
      (293, Row False [(46, 46, St 294)] (St 0))],
     [])"

definition uri_chunk_50 :: "uri_action chunk" where
  "uri_chunk_50 =
    ([(294, Row False [
        (2, 2, St 295), (48, 48, St 297), (49, 49, St 314), (50, 50, St 316), (51, 57, St 315)] (St 0)),
      (295, Row False [(48, 52, St 296)] (St 0)),
      (296, Row False [(48, 57, St 297)] (St 0)),
      (297, Row False [(46, 46, St 298)] (St 0)),
      (298, Row False [
        (2, 2, St 299), (48, 48, St 301), (49, 49, St 310), (50, 50, St 312), (51, 57, St 311)] (St 0)),
      (299, Row False [(48, 52, St 300)] (St 0)),
      (300, Row False [(48, 57, St 301)] (St 0)),
      (301, Row False [(46, 46, St 302)] (St 0)),
      (302, Row False [
        (2, 2, St 303), (48, 48, St 305), (49, 49, St 306), (50, 50, St 308), (51, 57, St 307)] (St 0)),
      (303, Row False [(48, 52, St 304)] (St 0)),
      (304, Row False [(48, 57, St 305)] (St 0)),
      (305, Row False [(93, 93, St 512)] (St 0)),
      (306, Row False [(48, 57, St 307), (93, 93, St 512)] (St 0)),
      (307, Row False [(48, 57, St 305), (93, 93, St 512)] (St 0)),
      (308, Row False [(48, 52, St 305), (53, 53, St 309), (54, 57, St 305), (93, 93, St 512)] (St 0)),
      (309, Row False [(48, 53, St 305), (93, 93, St 512)] (St 0)),
      (310, Row False [(46, 46, St 302), (48, 57, St 311)] (St 0))],
     [])"

definition uri_chunk_51 :: "uri_action chunk" where
  "uri_chunk_51 =
    ([(311, Row False [(46, 46, St 302), (48, 57, St 301)] (St 0)),
      (312, Row False [(46, 46, St 302), (48, 52, St 301), (53, 53, St 313), (54, 57, St 301)] (St 0)),
      (313, Row False [(46, 46, St 302), (48, 53, St 301)] (St 0)),
      (314, Row False [(46, 46, St 298), (48, 57, St 315)] (St 0)),
      (315, Row False [(46, 46, St 298), (48, 57, St 297)] (St 0)),
      (316, Row False [(46, 46, St 298), (48, 52, St 297), (53, 53, St 317), (54, 57, St 297)] (St 0)),
      (317, Row False [(46, 46, St 298), (48, 53, St 297)] (St 0)),
      (318, Row False [
        (46, 46, St 294), (48, 57, St 319), (58, 58, St 322), (65, 70, St 319), (97, 102, St 319)] (St 0)),
      (319, Row False [(48, 57, St 320), (58, 58, St 322), (65, 70, St 320), (97, 102, St 320)] (St 0)),
      (320, Row False [(48, 57, St 321), (58, 58, St 322), (65, 70, St 321), (97, 102, St 321)] (St 0)),
      (321, Row False [(58, 58, St 322)] (St 0)),
      (322, Row False [(48, 57, St 323), (58, 58, St 305), (65, 70, St 323), (97, 102, St 323)] (St 0)),
      (323, Row False [(48, 57, St 324), (65, 70, St 324), (93, 93, St 512), (97, 102, St 324)] (St 0))],
     [])"

definition uri_chunk_52 :: "uri_action chunk" where
  "uri_chunk_52 =
    ([(324, Row False [(48, 57, St 325), (65, 70, St 325), (93, 93, St 512), (97, 102, St 325)] (St 0)),
      (325, Row False [(48, 57, St 305), (65, 70, St 305), (93, 93, St 512), (97, 102, St 305)] (St 0)),
      (326, Row False [
        (46, 46, St 294), (48, 57, St 327), (58, 58, St 322), (65, 70, St 319), (97, 102, St 319)] (St 0)),
      (327, Row False [
        (46, 46, St 294), (48, 57, St 328), (58, 58, St 322), (65, 70, St 320), (97, 102, St 320)] (St 0)),
      (328, Row False [
        (46, 46, St 294), (48, 57, St 321), (58, 58, St 322), (65, 70, St 321), (97, 102, St 321)] (St 0)),
      (329, Row False [
        (46, 46, St 294), (48, 52, St 330), (53, 53, St 331), (54, 57, St 330), (58, 58, St 322),
        (65, 70, St 319), (97, 102, St 319)] (St 0)),
      (330, Row False [
        (46, 46, St 294), (48, 57, St 320), (58, 58, St 322), (65, 70, St 320), (97, 102, St 320)] (St 0)),
      (331, Row False [
        (46, 46, St 294), (48, 53, St 328), (54, 57, St 320), (58, 58, St 322), (65, 70, St 320),
        (97, 102, St 320)] (St 0))],
     [])"

definition uri_chunk_53 :: "uri_action chunk" where
  "uri_chunk_53 =
    ([(332, Row False [
        (46, 46, St 294), (48, 57, St 330), (58, 58, St 322), (65, 70, St 319), (97, 102, St 319)] (St 0)),
      (333, Row False [(48, 57, St 323), (65, 70, St 323), (97, 102, St 323)] (St 0)),
      (334, Row False [(48, 57, St 319), (58, 58, St 322), (65, 70, St 319), (97, 102, St 319)] (St 0)),
      (335, Row False [
        (2, 2, St 291), (48, 48, St 336), (49, 49, St 340), (50, 50, St 343), (51, 57, St 346),
        (65, 70, St 347), (97, 102, St 347)] (St 0)),
      (336, Row False [
        (46, 46, St 294), (48, 57, St 337), (58, 58, St 333), (65, 70, St 337), (97, 102, St 337)] (St 0)),
      (337, Row False [(48, 57, St 338), (58, 58, St 333), (65, 70, St 338), (97, 102, St 338)] (St 0)),
      (338, Row False [(48, 57, St 339), (58, 58, St 333), (65, 70, St 339), (97, 102, St 339)] (St 0)),
      (339, Row False [(58, 58, St 333)] (St 0)),
      (340, Row False [
        (46, 46, St 294), (48, 57, St 341), (58, 58, St 333), (65, 70, St 337), (97, 102, St 337)] (St 0)),
      (341, Row False [
        (46, 46, St 294), (48, 57, St 342), (58, 58, St 333), (65, 70, St 338), (97, 102, St 338)] (St 0))],
     [])"

definition uri_chunk_54 :: "uri_action chunk" where
  "uri_chunk_54 =
    ([(342, Row False [
        (46, 46, St 294), (48, 57, St 339), (58, 58, St 333), (65, 70, St 339), (97, 102, St 339)] (St 0)),
      (343, Row False [
        (46, 46, St 294), (48, 52, St 344), (53, 53, St 345), (54, 57, St 344), (58, 58, St 333),
        (65, 70, St 337), (97, 102, St 337)] (St 0)),
      (344, Row False [
        (46, 46, St 294), (48, 57, St 338), (58, 58, St 333), (65, 70, St 338), (97, 102, St 338)] (St 0)),
      (345, Row False [
        (46, 46, St 294), (48, 53, St 342), (54, 57, St 338), (58, 58, St 333), (65, 70, St 338),
        (97, 102, St 338)] (St 0)),
      (346, Row False [
        (46, 46, St 294), (48, 57, St 344), (58, 58, St 333), (65, 70, St 337), (97, 102, St 337)] (St 0)),
      (347, Row False [(48, 57, St 337), (58, 58, St 333), (65, 70, St 337), (97, 102, St 337)] (St 0)),
      (348, Row False [(48, 57, St 349), (65, 70, St 349), (97, 102, St 349)] (St 0)),
      (349, Row False [(48, 57, St 350), (58, 58, St 335), (65, 70, St 350), (97, 102, St 350)] (St 0)),
      (350, Row False [(48, 57, St 351), (58, 58, St 335), (65, 70, St 351), (97, 102, St 351)] (St 0))],
     [])"

definition uri_chunk_55 :: "uri_action chunk" where
  "uri_chunk_55 =
    ([(351, Row False [(48, 57, St 352), (58, 58, St 335), (65, 70, St 352), (97, 102, St 352)] (St 0)),
      (352, Row False [(58, 58, St 335)] (St 0)),
      (353, Row False [(48, 57, St 354), (65, 70, St 354), (97, 102, St 354)] (St 0)),
      (354, Row False [(48, 57, St 355), (58, 58, St 348), (65, 70, St 355), (97, 102, St 355)] (St 0)),
      (355, Row False [(48, 57, St 356), (58, 58, St 348), (65, 70, St 356), (97, 102, St 356)] (St 0)),
      (356, Row False [(48, 57, St 357), (58, 58, St 348), (65, 70, St 357), (97, 102, St 357)] (St 0)),
      (357, Row False [(58, 58, St 348)] (St 0)),
      (358, Row False [(48, 57, St 359), (65, 70, St 359), (97, 102, St 359)] (St 0)),
      (359, Row False [(48, 57, St 360), (58, 58, St 353), (65, 70, St 360), (97, 102, St 360)] (St 0)),
      (360, Row False [(48, 57, St 361), (58, 58, St 353), (65, 70, St 361), (97, 102, St 361)] (St 0)),
      (361, Row False [(48, 57, St 362), (58, 58, St 353), (65, 70, St 362), (97, 102, St 362)] (St 0)),
      (362, Row False [(58, 58, St 353)] (St 0))],
     [])"

definition uri_chunk_56 :: "uri_action chunk" where
  "uri_chunk_56 =
    ([(363, Row False [(48, 57, St 364), (65, 70, St 364), (97, 102, St 364)] (St 0)),
      (364, Row False [(48, 57, St 365), (58, 58, St 358), (65, 70, St 365), (97, 102, St 365)] (St 0)),
      (365, Row False [(48, 57, St 366), (58, 58, St 358), (65, 70, St 366), (97, 102, St 366)] (St 0)),
      (366, Row False [(48, 57, St 367), (58, 58, St 358), (65, 70, St 367), (97, 102, St 367)] (St 0)),
      (367, Row False [(58, 58, St 358)] (St 0)),
      (368, Row False [(58, 58, St 369)] (St 0)),
      (369, Row False [
        (2, 2, St 291), (48, 48, St 370), (49, 49, St 439), (50, 50, St 442), (51, 57, St 445),
        (65, 70, St 446), (93, 93, St 512), (97, 102, St 446)] (St 0)),
      (370, Row False [
        (46, 46, St 294), (48, 57, St 371), (58, 58, St 374), (65, 70, St 371), (93, 93, St 512),
        (97, 102, St 371)] (St 0)),
      (371, Row False [
        (48, 57, St 372), (58, 58, St 374), (65, 70, St 372), (93, 93, St 512), (97, 102, St 372)] (St 0)),
      (372, Row False [
        (48, 57, St 373), (58, 58, St 374), (65, 70, St 373), (93, 93, St 512), (97, 102, St 373)] (St 0))],
     [])"

definition uri_chunk_57 :: "uri_action chunk" where
  "uri_chunk_57 =
    ([(373, Row False [(58, 58, St 374), (93, 93, St 512)] (St 0)),
      (374, Row False [
        (2, 2, St 291), (48, 48, St 375), (49, 49, St 431), (50, 50, St 434), (51, 57, St 437),
        (65, 70, St 438), (97, 102, St 438)] (St 0)),
      (375, Row False [
        (46, 46, St 294), (48, 57, St 376), (58, 58, St 379), (65, 70, St 376), (93, 93, St 512),
        (97, 102, St 376)] (St 0)),
      (376, Row False [
        (48, 57, St 377), (58, 58, St 379), (65, 70, St 377), (93, 93, St 512), (97, 102, St 377)] (St 0)),
      (377, Row False [
        (48, 57, St 378), (58, 58, St 379), (65, 70, St 378), (93, 93, St 512), (97, 102, St 378)] (St 0)),
      (378, Row False [(58, 58, St 379), (93, 93, St 512)] (St 0)),
      (379, Row False [
        (2, 2, St 291), (48, 48, St 380), (49, 49, St 423), (50, 50, St 426), (51, 57, St 429),
        (65, 70, St 430), (97, 102, St 430)] (St 0)),
      (380, Row False [
        (46, 46, St 294), (48, 57, St 381), (58, 58, St 384), (65, 70, St 381), (93, 93, St 512),
        (97, 102, St 381)] (St 0)),
      (381, Row False [
        (48, 57, St 382), (58, 58, St 384), (65, 70, St 382), (93, 93, St 512), (97, 102, St 382)] (St 0))],
     [])"

definition uri_chunk_58 :: "uri_action chunk" where
  "uri_chunk_58 =
    ([(382, Row False [
        (48, 57, St 383), (58, 58, St 384), (65, 70, St 383), (93, 93, St 512), (97, 102, St 383)] (St 0)),
      (383, Row False [(58, 58, St 384), (93, 93, St 512)] (St 0)),
      (384, Row False [
        (2, 2, St 291), (48, 48, St 385), (49, 49, St 415), (50, 50, St 418), (51, 57, St 421),
        (65, 70, St 422), (97, 102, St 422)] (St 0)),
      (385, Row False [
        (46, 46, St 294), (48, 57, St 386), (58, 58, St 389), (65, 70, St 386), (93, 93, St 512),
        (97, 102, St 386)] (St 0)),
      (386, Row False [
        (48, 57, St 387), (58, 58, St 389), (65, 70, St 387), (93, 93, St 512), (97, 102, St 387)] (St 0)),
      (387, Row False [
        (48, 57, St 388), (58, 58, St 389), (65, 70, St 388), (93, 93, St 512), (97, 102, St 388)] (St 0)),
      (388, Row False [(58, 58, St 389), (93, 93, St 512)] (St 0)),
      (389, Row False [
        (2, 2, St 291), (48, 48, St 390), (49, 49, St 407), (50, 50, St 410), (51, 57, St 413),
        (65, 70, St 414), (97, 102, St 414)] (St 0)),
      (390, Row False [
        (46, 46, St 294), (48, 57, St 391), (58, 58, St 394), (65, 70, St 391), (93, 93, St 512),
        (97, 102, St 391)] (St 0))],
     [])"

definition uri_chunk_59 :: "uri_action chunk" where
  "uri_chunk_59 =
    ([(391, Row False [
        (48, 57, St 392), (58, 58, St 394), (65, 70, St 392), (93, 93, St 512), (97, 102, St 392)] (St 0)),
      (392, Row False [
        (48, 57, St 393), (58, 58, St 394), (65, 70, St 393), (93, 93, St 512), (97, 102, St 393)] (St 0)),
      (393, Row False [(58, 58, St 394), (93, 93, St 512)] (St 0)),
      (394, Row False [
        (2, 2, St 291), (48, 48, St 395), (49, 49, St 399), (50, 50, St 402), (51, 57, St 405),
        (65, 70, St 406), (97, 102, St 406)] (St 0)),
      (395, Row False [
        (46, 46, St 294), (48, 57, St 396), (58, 58, St 333), (65, 70, St 396), (93, 93, St 512),
        (97, 102, St 396)] (St 0)),
      (396, Row False [
        (48, 57, St 397), (58, 58, St 333), (65, 70, St 397), (93, 93, St 512), (97, 102, St 397)] (St 0)),
      (397, Row False [
        (48, 57, St 398), (58, 58, St 333), (65, 70, St 398), (93, 93, St 512), (97, 102, St 398)] (St 0)),
      (398, Row False [(58, 58, St 333), (93, 93, St 512)] (St 0)),
      (399, Row False [
        (46, 46, St 294), (48, 57, St 400), (58, 58, St 333), (65, 70, St 396), (93, 93, St 512),
        (97, 102, St 396)] (St 0))],
     [])"

definition uri_chunk_60 :: "uri_action chunk" where
  "uri_chunk_60 =
    ([(400, Row False [
        (46, 46, St 294), (48, 57, St 401), (58, 58, St 333), (65, 70, St 397), (93, 93, St 512),
        (97, 102, St 397)] (St 0)),
      (401, Row False [
        (46, 46, St 294), (48, 57, St 398), (58, 58, St 333), (65, 70, St 398), (93, 93, St 512),
        (97, 102, St 398)] (St 0)),
      (402, Row False [
        (46, 46, St 294), (48, 52, St 403), (53, 53, St 404), (54, 57, St 403), (58, 58, St 333),
        (65, 70, St 396), (93, 93, St 512), (97, 102, St 396)] (St 0)),
      (403, Row False [
        (46, 46, St 294), (48, 57, St 397), (58, 58, St 333), (65, 70, St 397), (93, 93, St 512),
        (97, 102, St 397)] (St 0)),
      (404, Row False [
        (46, 46, St 294), (48, 53, St 401), (54, 57, St 397), (58, 58, St 333), (65, 70, St 397),
        (93, 93, St 512), (97, 102, St 397)] (St 0)),
      (405, Row False [
        (46, 46, St 294), (48, 57, St 403), (58, 58, St 333), (65, 70, St 396), (93, 93, St 512),
        (97, 102, St 396)] (St 0)),
      (406, Row False [
        (48, 57, St 396), (58, 58, St 333), (65, 70, St 396), (93, 93, St 512), (97, 102, St 396)] (St 0)),
      (407, Row False [
        (46, 46, St 294), (48, 57, St 408), (58, 58, St 394), (65, 70, St 391), (93, 93, St 512),
        (97, 102, St 391)] (St 0))],
     [])"

definition uri_chunk_61 :: "uri_action chunk" where
  "uri_chunk_61 =
    ([(408, Row False [
        (46, 46, St 294), (48, 57, St 409), (58, 58, St 394), (65, 70, St 392), (93, 93, St 512),
        (97, 102, St 392)] (St 0)),
      (409, Row False [
        (46, 46, St 294), (48, 57, St 393), (58, 58, St 394), (65, 70, St 393), (93, 93, St 512),
        (97, 102, St 393)] (St 0)),
      (410, Row False [
        (46, 46, St 294), (48, 52, St 411), (53, 53, St 412), (54, 57, St 411), (58, 58, St 394),
        (65, 70, St 391), (93, 93, St 512), (97, 102, St 391)] (St 0)),
      (411, Row False [
        (46, 46, St 294), (48, 57, St 392), (58, 58, St 394), (65, 70, St 392), (93, 93, St 512),
        (97, 102, St 392)] (St 0)),
      (412, Row False [
        (46, 46, St 294), (48, 53, St 409), (54, 57, St 392), (58, 58, St 394), (65, 70, St 392),
        (93, 93, St 512), (97, 102, St 392)] (St 0)),
      (413, Row False [
        (46, 46, St 294), (48, 57, St 411), (58, 58, St 394), (65, 70, St 391), (93, 93, St 512),
        (97, 102, St 391)] (St 0)),
      (414, Row False [
        (48, 57, St 391), (58, 58, St 394), (65, 70, St 391), (93, 93, St 512), (97, 102, St 391)] (St 0)),
      (415, Row False [
        (46, 46, St 294), (48, 57, St 416), (58, 58, St 389), (65, 70, St 386), (93, 93, St 512),
        (97, 102, St 386)] (St 0))],
     [])"

definition uri_chunk_62 :: "uri_action chunk" where
  "uri_chunk_62 =
    ([(416, Row False [
        (46, 46, St 294), (48, 57, St 417), (58, 58, St 389), (65, 70, St 387), (93, 93, St 512),
        (97, 102, St 387)] (St 0)),
      (417, Row False [
        (46, 46, St 294), (48, 57, St 388), (58, 58, St 389), (65, 70, St 388), (93, 93, St 512),
        (97, 102, St 388)] (St 0)),
      (418, Row False [
        (46, 46, St 294), (48, 52, St 419), (53, 53, St 420), (54, 57, St 419), (58, 58, St 389),
        (65, 70, St 386), (93, 93, St 512), (97, 102, St 386)] (St 0)),
      (419, Row False [
        (46, 46, St 294), (48, 57, St 387), (58, 58, St 389), (65, 70, St 387), (93, 93, St 512),
        (97, 102, St 387)] (St 0)),
      (420, Row False [
        (46, 46, St 294), (48, 53, St 417), (54, 57, St 387), (58, 58, St 389), (65, 70, St 387),
        (93, 93, St 512), (97, 102, St 387)] (St 0)),
      (421, Row False [
        (46, 46, St 294), (48, 57, St 419), (58, 58, St 389), (65, 70, St 386), (93, 93, St 512),
        (97, 102, St 386)] (St 0)),
      (422, Row False [
        (48, 57, St 386), (58, 58, St 389), (65, 70, St 386), (93, 93, St 512), (97, 102, St 386)] (St 0)),
      (423, Row False [
        (46, 46, St 294), (48, 57, St 424), (58, 58, St 384), (65, 70, St 381), (93, 93, St 512),
        (97, 102, St 381)] (St 0))],
     [])"

definition uri_chunk_63 :: "uri_action chunk" where
  "uri_chunk_63 =
    ([(424, Row False [
        (46, 46, St 294), (48, 57, St 425), (58, 58, St 384), (65, 70, St 382), (93, 93, St 512),
        (97, 102, St 382)] (St 0)),
      (425, Row False [
        (46, 46, St 294), (48, 57, St 383), (58, 58, St 384), (65, 70, St 383), (93, 93, St 512),
        (97, 102, St 383)] (St 0)),
      (426, Row False [
        (46, 46, St 294), (48, 52, St 427), (53, 53, St 428), (54, 57, St 427), (58, 58, St 384),
        (65, 70, St 381), (93, 93, St 512), (97, 102, St 381)] (St 0)),
      (427, Row False [
        (46, 46, St 294), (48, 57, St 382), (58, 58, St 384), (65, 70, St 382), (93, 93, St 512),
        (97, 102, St 382)] (St 0)),
      (428, Row False [
        (46, 46, St 294), (48, 53, St 425), (54, 57, St 382), (58, 58, St 384), (65, 70, St 382),
        (93, 93, St 512), (97, 102, St 382)] (St 0)),
      (429, Row False [
        (46, 46, St 294), (48, 57, St 427), (58, 58, St 384), (65, 70, St 381), (93, 93, St 512),
        (97, 102, St 381)] (St 0)),
      (430, Row False [
        (48, 57, St 381), (58, 58, St 384), (65, 70, St 381), (93, 93, St 512), (97, 102, St 381)] (St 0)),
      (431, Row False [
        (46, 46, St 294), (48, 57, St 432), (58, 58, St 379), (65, 70, St 376), (93, 93, St 512),
        (97, 102, St 376)] (St 0))],
     [])"

definition uri_chunk_64 :: "uri_action chunk" where
  "uri_chunk_64 =
    ([(432, Row False [
        (46, 46, St 294), (48, 57, St 433), (58, 58, St 379), (65, 70, St 377), (93, 93, St 512),
        (97, 102, St 377)] (St 0)),
      (433, Row False [
        (46, 46, St 294), (48, 57, St 378), (58, 58, St 379), (65, 70, St 378), (93, 93, St 512),
        (97, 102, St 378)] (St 0)),
      (434, Row False [
        (46, 46, St 294), (48, 52, St 435), (53, 53, St 436), (54, 57, St 435), (58, 58, St 379),
        (65, 70, St 376), (93, 93, St 512), (97, 102, St 376)] (St 0)),
      (435, Row False [
        (46, 46, St 294), (48, 57, St 377), (58, 58, St 379), (65, 70, St 377), (93, 93, St 512),
        (97, 102, St 377)] (St 0)),
      (436, Row False [
        (46, 46, St 294), (48, 53, St 433), (54, 57, St 377), (58, 58, St 379), (65, 70, St 377),
        (93, 93, St 512), (97, 102, St 377)] (St 0)),
      (437, Row False [
        (46, 46, St 294), (48, 57, St 435), (58, 58, St 379), (65, 70, St 376), (93, 93, St 512),
        (97, 102, St 376)] (St 0)),
      (438, Row False [
        (48, 57, St 376), (58, 58, St 379), (65, 70, St 376), (93, 93, St 512), (97, 102, St 376)] (St 0)),
      (439, Row False [
        (46, 46, St 294), (48, 57, St 440), (58, 58, St 374), (65, 70, St 371), (93, 93, St 512),
        (97, 102, St 371)] (St 0))],
     [])"

definition uri_chunk_65 :: "uri_action chunk" where
  "uri_chunk_65 =
    ([(440, Row False [
        (46, 46, St 294), (48, 57, St 441), (58, 58, St 374), (65, 70, St 372), (93, 93, St 512),
        (97, 102, St 372)] (St 0)),
      (441, Row False [
        (46, 46, St 294), (48, 57, St 373), (58, 58, St 374), (65, 70, St 373), (93, 93, St 512),
        (97, 102, St 373)] (St 0)),
      (442, Row False [
        (46, 46, St 294), (48, 52, St 443), (53, 53, St 444), (54, 57, St 443), (58, 58, St 374),
        (65, 70, St 371), (93, 93, St 512), (97, 102, St 371)] (St 0)),
      (443, Row False [
        (46, 46, St 294), (48, 57, St 372), (58, 58, St 374), (65, 70, St 372), (93, 93, St 512),
        (97, 102, St 372)] (St 0)),
      (444, Row False [
        (46, 46, St 294), (48, 53, St 441), (54, 57, St 372), (58, 58, St 374), (65, 70, St 372),
        (93, 93, St 512), (97, 102, St 372)] (St 0)),
      (445, Row False [
        (46, 46, St 294), (48, 57, St 443), (58, 58, St 374), (65, 70, St 371), (93, 93, St 512),
        (97, 102, St 371)] (St 0)),
      (446, Row False [
        (48, 57, St 371), (58, 58, St 374), (65, 70, St 371), (93, 93, St 512), (97, 102, St 371)] (St 0)),
      (447, Row False [(48, 57, St 448), (65, 70, St 448), (97, 102, St 448)] (St 0))],
     [])"

definition uri_chunk_66 :: "uri_action chunk" where
  "uri_chunk_66 =
    ([(448, Row False [(46, 46, St 449), (48, 57, St 448), (65, 70, St 448), (97, 102, St 448)] (St 0)),
      (449, Row False [
        (33, 33, St 450), (36, 36, St 450), (38, 46, St 450), (48, 59, St 450), (61, 61, St 450),
        (65, 90, St 450), (95, 95, St 450), (97, 122, St 450), (126, 126, St 450)] (St 0)),
      (450, Row False [
        (33, 33, St 450), (36, 36, St 450), (38, 46, St 450), (48, 59, St 450), (61, 61, St 450),
        (65, 90, St 450), (93, 93, St 512), (95, 95, St 450), (97, 122, St 450), (126, 126, St 450)] (St 0)),
      (542, Row False [
        (33, 33, St 255), (35, 35, Tr 570), (36, 36, St 255), (37, 37, St 256), (38, 46, St 255),
        (47, 47, Tr 571), (48, 57, St 542), (58, 59, St 255), (61, 61, St 255), (63, 63, Tr 573),
        (64, 64, Tr 263), (65, 90, St 255), (95, 95, St 255), (97, 122, St 255), (126, 126, St 255)] (St 0)),
      (543, Row False [
        (33, 33, St 520), (35, 35, Tr 559), (36, 36, St 520), (37, 37, St 253), (38, 45, St 520),
        (46, 46, St 544), (47, 47, Tr 560), (48, 57, St 520), (58, 58, Tr 576), (59, 59, St 520),
        (61, 61, St 520), (63, 63, Tr 562), (64, 64, Tr 263), (65, 90, St 520), (95, 95, St 520),
        (97, 122, St 520), (126, 126, St 520)] (St 0))],
     [(577, [UMark], 542),
      (551, [UMark], 543)])"

definition uri_chunk_67 :: "uri_action chunk" where
  "uri_chunk_67 =
    ([(544, Row False [
        (2, 2, St 233), (33, 33, St 520), (35, 35, Tr 559), (36, 36, St 520), (37, 37, St 253),
        (38, 46, St 520), (47, 47, Tr 560), (48, 48, St 545), (49, 49, St 553), (50, 50, St 555),
        (51, 57, St 554), (58, 58, Tr 576), (59, 59, St 520), (61, 61, St 520), (63, 63, Tr 562),
        (64, 64, Tr 263), (65, 90, St 520), (95, 95, St 520), (97, 122, St 520), (126, 126, St 520)] (St 0)),
      (545, Row False [
        (33, 33, St 520), (35, 35, Tr 559), (36, 36, St 520), (37, 37, St 253), (38, 45, St 520),
        (46, 46, St 546), (47, 47, Tr 560), (48, 57, St 520), (58, 58, Tr 576), (59, 59, St 520),
        (61, 61, St 520), (63, 63, Tr 562), (64, 64, Tr 263), (65, 90, St 520), (95, 95, St 520),
        (97, 122, St 520), (126, 126, St 520)] (St 0)),
      (546, Row False [
        (2, 2, St 237), (33, 33, St 520), (35, 35, Tr 559), (36, 36, St 520), (37, 37, St 253),
        (38, 46, St 520), (47, 47, Tr 560), (48, 48, St 547), (49, 49, St 549), (50, 50, St 551),
        (51, 57, St 550), (58, 58, Tr 576), (59, 59, St 520), (61, 61, St 520), (63, 63, Tr 562),
        (64, 64, Tr 263), (65, 90, St 520), (95, 95, St 520), (97, 122, St 520), (126, 126, St 520)] (St 0)),
      (547, Row False [
        (33, 33, St 520), (35, 35, Tr 559), (36, 36, St 520), (37, 37, St 253), (38, 45, St 520),
        (46, 46, St 548), (47, 47, Tr 560), (48, 57, St 520), (58, 58, Tr 576), (59, 59, St 520),
        (61, 61, St 520), (63, 63, Tr 562), (64, 64, Tr 263), (65, 90, St 520), (95, 95, St 520),
        (97, 122, St 520), (126, 126, St 520)] (St 0)),
      (548, Row False [
        (2, 2, St 241), (33, 33, St 520), (35, 35, Tr 559), (36, 36, St 520), (37, 37, St 253),
        (38, 46, St 520), (47, 47, Tr 560), (48, 57, St 520), (58, 58, Tr 576), (59, 59, St 520),
        (61, 61, St 520), (63, 63, Tr 562), (64, 64, Tr 263), (65, 90, St 520), (95, 95, St 520),
        (97, 122, St 520), (126, 126, St 520)] (St 0))],
     [])"

definition uri_chunk_68 :: "uri_action chunk" where
  "uri_chunk_68 =
    ([(549, Row False [
        (33, 33, St 520), (35, 35, Tr 559), (36, 36, St 520), (37, 37, St 253), (38, 45, St 520),
        (46, 46, St 548), (47, 47, Tr 560), (48, 57, St 550), (58, 58, Tr 576), (59, 59, St 520),
        (61, 61, St 520), (63, 63, Tr 562), (64, 64, Tr 263), (65, 90, St 520), (95, 95, St 520),
        (97, 122, St 520), (126, 126, St 520)] (St 0)),
      (550, Row False [
        (33, 33, St 520), (35, 35, Tr 559), (36, 36, St 520), (37, 37, St 253), (38, 45, St 520),
        (46, 46, St 548), (47, 47, Tr 560), (48, 57, St 547), (58, 58, Tr 576), (59, 59, St 520),
        (61, 61, St 520), (63, 63, Tr 562), (64, 64, Tr 263), (65, 90, St 520), (95, 95, St 520),
        (97, 122, St 520), (126, 126, St 520)] (St 0)),
      (551, Row False [
        (33, 33, St 520), (35, 35, Tr 559), (36, 36, St 520), (37, 37, St 253), (38, 45, St 520),
        (46, 46, St 548), (47, 47, Tr 560), (48, 52, St 547), (53, 53, St 552), (54, 57, St 547),
        (58, 58, Tr 576), (59, 59, St 520), (61, 61, St 520), (63, 63, Tr 562), (64, 64, Tr 263),
        (65, 90, St 520), (95, 95, St 520), (97, 122, St 520), (126, 126, St 520)] (St 0)),
      (552, Row False [
        (33, 33, St 520), (35, 35, Tr 559), (36, 36, St 520), (37, 37, St 253), (38, 45, St 520),
        (46, 46, St 548), (47, 47, Tr 560), (48, 53, St 547), (54, 57, St 520), (58, 58, Tr 576),
        (59, 59, St 520), (61, 61, St 520), (63, 63, Tr 562), (64, 64, Tr 263), (65, 90, St 520),
        (95, 95, St 520), (97, 122, St 520), (126, 126, St 520)] (St 0)),
      (553, Row False [
        (33, 33, St 520), (35, 35, Tr 559), (36, 36, St 520), (37, 37, St 253), (38, 45, St 520),
        (46, 46, St 546), (47, 47, Tr 560), (48, 57, St 554), (58, 58, Tr 576), (59, 59, St 520),
        (61, 61, St 520), (63, 63, Tr 562), (64, 64, Tr 263), (65, 90, St 520), (95, 95, St 520),
        (97, 122, St 520), (126, 126, St 520)] (St 0))],
     [])"

definition uri_chunk_69 :: "uri_action chunk" where
  "uri_chunk_69 =
    ([(554, Row False [
        (33, 33, St 520), (35, 35, Tr 559), (36, 36, St 520), (37, 37, St 253), (38, 45, St 520),
        (46, 46, St 546), (47, 47, Tr 560), (48, 57, St 545), (58, 58, Tr 576), (59, 59, St 520),
        (61, 61, St 520), (63, 63, Tr 562), (64, 64, Tr 263), (65, 90, St 520), (95, 95, St 520),
        (97, 122, St 520), (126, 126, St 520)] (St 0)),
      (555, Row False [
        (33, 33, St 520), (35, 35, Tr 559), (36, 36, St 520), (37, 37, St 253), (38, 45, St 520),
        (46, 46, St 546), (47, 47, Tr 560), (48, 52, St 545), (53, 53, St 556), (54, 57, St 545),
        (58, 58, Tr 576), (59, 59, St 520), (61, 61, St 520), (63, 63, Tr 562), (64, 64, Tr 263),
        (65, 90, St 520), (95, 95, St 520), (97, 122, St 520), (126, 126, St 520)] (St 0)),
      (556, Row False [
        (33, 33, St 520), (35, 35, Tr 559), (36, 36, St 520), (37, 37, St 253), (38, 45, St 520),
        (46, 46, St 546), (47, 47, Tr 560), (48, 53, St 545), (54, 57, St 520), (58, 58, Tr 576),
        (59, 59, St 520), (61, 61, St 520), (63, 63, Tr 562), (64, 64, Tr 263), (65, 90, St 520),
        (95, 95, St 520), (97, 122, St 520), (126, 126, St 520)] (St 0)),
      (557, Row False [
        (33, 33, St 520), (35, 35, Tr 559), (36, 36, St 520), (37, 37, St 253), (38, 45, St 520),
        (46, 46, St 544), (47, 47, Tr 560), (48, 57, St 558), (58, 58, Tr 576), (59, 59, St 520),
        (61, 61, St 520), (63, 63, Tr 562), (64, 64, Tr 263), (65, 90, St 520), (95, 95, St 520),
        (97, 122, St 520), (126, 126, St 520)] (St 0))],
     [(552, [UMark], 557),
      (554, [UMark], 558)])"

definition uri_chunk_70 :: "uri_action chunk" where
  "uri_chunk_70 =
    ([(558, Row False [
        (33, 33, St 520), (35, 35, Tr 559), (36, 36, St 520), (37, 37, St 253), (38, 45, St 520),
        (46, 46, St 544), (47, 47, Tr 560), (48, 57, St 543), (58, 58, Tr 576), (59, 59, St 520),
        (61, 61, St 520), (63, 63, Tr 562), (64, 64, Tr 263), (65, 90, St 520), (95, 95, St 520),
        (97, 122, St 520), (126, 126, St 520)] (St 0)),
      (559, Row False [
        (33, 33, St 520), (35, 35, Tr 559), (36, 36, St 520), (37, 37, St 253), (38, 45, St 520),
        (46, 46, St 544), (47, 47, Tr 560), (48, 52, St 543), (53, 53, St 560), (54, 57, St 543),
        (58, 58, Tr 576), (59, 59, St 520), (61, 61, St 520), (63, 63, Tr 562), (64, 64, Tr 263),
        (65, 90, St 520), (95, 95, St 520), (97, 122, St 520), (126, 126, St 520)] (St 0)),
      (560, Row False [
        (33, 33, St 520), (35, 35, Tr 559), (36, 36, St 520), (37, 37, St 253), (38, 45, St 520),
        (46, 46, St 544), (47, 47, Tr 560), (48, 53, St 543), (54, 57, St 520), (58, 58, Tr 576),
        (59, 59, St 520), (61, 61, St 520), (63, 63, Tr 562), (64, 64, Tr 263), (65, 90, St 520),
        (95, 95, St 520), (97, 122, St 520), (126, 126, St 520)] (St 0))],
     [(553, [UMark], 559)])"

definition uri_index :: "uri_action index" where
  "uri_index =
    [([451, 452], [467, 469, 474, 485, 489, 493, 548, 559], uri_chunk_1),
     ([453, 454, 1, 2, 3], [563, 566, 570, 462, 463], uri_chunk_2),
     ([4, 455, 5, 6], [476, 486, 490, 494, 482, 488, 492, 496], uri_chunk_3),
     ([456, 457, 7], [556, 562, 565, 569, 573, 466, 468], uri_chunk_4),
     ([8, 458, 459, 9, 10, 11, 12, 13, 14, 15, 16, 17], [472], uri_chunk_5),
     ([18, 19, 20, 21, 22, 460, 461, 462, 463, 464, 465], [507, 487, 491], uri_chunk_6),
     ([466, 23, 24, 25, 26, 27, 28, 29, 30, 467, 31, 32], [473, 475], uri_chunk_7),
     ([468, 33, 34, 35], [481, 499, 38, 483], uri_chunk_8),
     ([469, 470, 36, 37, 471], [501, 502, 503], uri_chunk_9),
     ([472, 473, 474, 475, 476], [], uri_chunk_10),
     ([477, 478, 479, 480, 481], [], uri_chunk_11),
     ([482, 483, 484, 485], [504, 506], uri_chunk_12),
     ([486, 487, 488, 38, 39, 40], [505, 484], uri_chunk_13),
     ([41, 42, 43, 44, 45, 46, 47, 48, 49, 50, 51], [], uri_chunk_14),
     ([52, 53, 54, 55, 56, 57, 58, 59, 60, 61, 62], [], uri_chunk_15),
     ([63, 64, 65, 66, 67, 68, 69, 70, 71, 72, 73, 74, 75], [], uri_chunk_16),
     ([76, 77, 78, 79, 80, 81, 82, 83, 84, 85, 86, 87, 88, 89, 90, 91, 92], [], uri_chunk_17),
     ([93, 94, 95, 96, 97, 98, 99, 100, 101, 102, 103], [], uri_chunk_18),
     ([104, 105, 106, 107, 108, 109, 110, 111, 112], [], uri_chunk_19),
     ([113, 114, 115, 116, 117, 118, 119, 120, 121], [], uri_chunk_20),
     ([122, 123, 124, 125, 126, 127, 128, 129, 130, 131], [], uri_chunk_21),
     ([132, 133, 134, 135, 136, 137, 138, 139, 140, 141, 142], [], uri_chunk_22),
     ([143, 144, 145, 146, 147, 148, 149, 150, 151, 152], [], uri_chunk_23),
     ([153, 154, 155, 156, 157, 158, 159, 160, 161], [], uri_chunk_24),
     ([162, 163, 164, 165, 166, 167, 168, 169, 170], [], uri_chunk_25),
     ([171, 172, 173, 174, 175, 176, 177, 178, 179], [], uri_chunk_26),
     ([180, 181, 182, 183, 184, 185, 186, 187], [], uri_chunk_27),
     ([188, 189, 190, 191, 192, 193, 194, 195], [], uri_chunk_28),
     ([196, 197, 198, 199, 200, 201, 202, 203], [], uri_chunk_29),
     ([204, 205, 206, 207, 208, 209, 210, 211], [], uri_chunk_30),
     ([212, 213, 214, 215, 216, 217, 218, 219], [], uri_chunk_31),
     ([220, 221, 222, 223, 224, 225, 226, 227], [], uri_chunk_32),
     ([228, 489, 490, 491, 492], [500, 477], uri_chunk_33),
     ([493, 494, 495, 496, 497], [], uri_chunk_34),
     ([498, 499, 500, 501], [], uri_chunk_35),
     ([502, 503, 504, 505], [478, 480, 479], uri_chunk_36),
     ([506, 507, 508, 509], [461, 543], uri_chunk_37),
     ([510, 511, 229, 230, 231, 232, 233, 234, 235, 236, 237, 238, 239], [546], uri_chunk_38),
     ([240, 241, 242, 512, 513, 243, 244], [550, 567, 560, 571, 584], uri_chunk_39),
     ([514, 515, 516, 517, 518, 519, 245, 246, 247, 248, 249, 250], [561, 568], uri_chunk_40),
     ([251, 252, 520, 253, 254, 521], [547, 549, 555, 576], uri_chunk_41),
     ([255, 256, 257, 522, 523, 258], [263, 557, 578, 579], uri_chunk_42),
     ([259, 524, 525, 526, 527], [580], uri_chunk_43),
     ([528, 529, 530, 531, 532], [], uri_chunk_44),
     ([533, 534, 535, 536, 537], [], uri_chunk_45),
     ([538, 539, 540, 541], [581, 583, 582, 558], uri_chunk_46),
     ([260, 261, 262, 263, 264, 265, 266, 267, 268, 269, 270], [], uri_chunk_47),
     ([271, 272, 273, 274, 275, 276, 277, 278, 279, 280, 281], [], uri_chunk_48),
     ([282, 283, 284, 285, 286, 287, 288, 289, 290, 291, 292, 293], [], uri_chunk_49),
     ([294, 295, 296, 297, 298, 299, 300, 301, 302, 303, 304, 305, 306, 307, 308, 309, 310], [], uri_chunk_50),
     ([311, 312, 313, 314, 315, 316, 317, 318, 319, 320, 321, 322, 323], [], uri_chunk_51),
     ([324, 325, 326, 327, 328, 329, 330, 331], [], uri_chunk_52),
     ([332, 333, 334, 335, 336, 337, 338, 339, 340, 341], [], uri_chunk_53),
     ([342, 343, 344, 345, 346, 347, 348, 349, 350], [], uri_chunk_54),
     ([351, 352, 353, 354, 355, 356, 357, 358, 359, 360, 361, 362], [], uri_chunk_55),
     ([363, 364, 365, 366, 367, 368, 369, 370, 371, 372], [], uri_chunk_56),
     ([373, 374, 375, 376, 377, 378, 379, 380, 381], [], uri_chunk_57),
     ([382, 383, 384, 385, 386, 387, 388, 389, 390], [], uri_chunk_58),
     ([391, 392, 393, 394, 395, 396, 397, 398, 399], [], uri_chunk_59),
     ([400, 401, 402, 403, 404, 405, 406, 407], [], uri_chunk_60),
     ([408, 409, 410, 411, 412, 413, 414, 415], [], uri_chunk_61),
     ([416, 417, 418, 419, 420, 421, 422, 423], [], uri_chunk_62),
     ([424, 425, 426, 427, 428, 429, 430, 431], [], uri_chunk_63),
     ([432, 433, 434, 435, 436, 437, 438, 439], [], uri_chunk_64),
     ([440, 441, 442, 443, 444, 445, 446, 447], [], uri_chunk_65),
     ([448, 449, 450, 542, 543], [577, 551], uri_chunk_66),
     ([544, 545, 546, 547, 548], [], uri_chunk_67),
     ([549, 550, 551, 552, 553], [], uri_chunk_68),
     ([554, 555, 556, 557], [552, 554], uri_chunk_69),
     ([558, 559, 560], [553], uri_chunk_70)]"

text \<open>The transitions, by number, and the closedness of the table.\<close>

lemma uri_trans_of:
  "snd uri_chunk_1 =
     [(467, [UMarkA, UQuery], 453),
      (469, [UQuery], 453),
      (474, [UMark, UHost], 453),
      (485, [UHost], 453),
      (489, [UMark, UPort], 453),
      (493, [UPort], 453),
      (548, [UMark, UHost, UPath], 453),
      (559, [UHost, UMark, UPath], 453)]"
  "snd uri_chunk_2 =
     [(563, [UPath], 453),
      (566, [UMark, UPort, UPath], 453),
      (570, [UPort, UMark, UPath], 453),
      (462, [UMarkA], 454),
      (463, [UMarkA], 1)]"
  "snd uri_chunk_3 =
     [(476, [UMark, UHost], 455),
      (486, [UHost], 455),
      (490, [UMark, UPort], 455),
      (494, [UPort], 455),
      (482, [UMark, UHost], 456),
      (488, [UHost], 456),
      (492, [UMark, UPort], 456),
      (496, [UPort], 456)]"
  "snd uri_chunk_4 =
     [(556, [UMark, UHost, UPath], 456),
      (562, [UHost, UMark, UPath], 456),
      (565, [UPath], 456),
      (569, [UMark, UPort, UPath], 456),
      (573, [UPort, UMark, UPath], 456),
      (466, [UMarkA], 457),
      (468, [UMarkA], 7)]"
  "snd uri_chunk_5 =
     [(472, [UMark], 9)]"
  "snd uri_chunk_6 =
     [(507, [UMark, UHost], 461),
      (487, [UHost], 461),
      (491, [UMark], 462)]"
  "snd uri_chunk_7 =
     [(473, [UMark], 467),
      (475, [UMark], 31)]"
  "snd uri_chunk_8 =
     [(481, [UMark, UHost], 468),
      (499, [UHost], 468),
      (38, [UUserinfo], 469),
      (483, [UMark, UUserinfo], 469)]"
  "snd uri_chunk_9 =
     [(501, [UMark], 470),
      (502, [UMark], 36),
      (503, [UMark], 471)]"
  "snd uri_chunk_10 = []"
  "snd uri_chunk_11 = []"
  "snd uri_chunk_12 =
     [(504, [UMark], 485),
      (506, [UMark], 486)]"
  "snd uri_chunk_13 =
     [(505, [UMark], 487),
      (484, [UMark], 38)]"
  "snd uri_chunk_14 = []"
  "snd uri_chunk_15 = []"
  "snd uri_chunk_16 = []"
  "snd uri_chunk_17 = []"
  "snd uri_chunk_18 = []"
  "snd uri_chunk_19 = []"
  "snd uri_chunk_20 = []"
  "snd uri_chunk_21 = []"
  "snd uri_chunk_22 = []"
  "snd uri_chunk_23 = []"
  "snd uri_chunk_24 = []"
  "snd uri_chunk_25 = []"
  "snd uri_chunk_26 = []"
  "snd uri_chunk_27 = []"
  "snd uri_chunk_28 = []"
  "snd uri_chunk_29 = []"
  "snd uri_chunk_30 = []"
  "snd uri_chunk_31 = []"
  "snd uri_chunk_32 = []"
  "snd uri_chunk_33 =
     [(500, [UMark], 489),
      (477, [UMark], 490)]"
  "snd uri_chunk_34 = []"
  "snd uri_chunk_35 = []"
  "snd uri_chunk_36 =
     [(478, [UMark], 504),
      (480, [UMark], 505),
      (479, [UMark], 506)]"
  "snd uri_chunk_37 =
     [(461, [UMarkA], 508),
      (543, [UScheme], 509)]"
  "snd uri_chunk_38 =
     [(546, [UMark], 229)]"
  "snd uri_chunk_39 =
     [(550, [UMark, UHost], 513),
      (567, [UMark, UPort], 513),
      (560, [UHost, UMark], 513),
      (571, [UPort, UMark], 513),
      (584, [UMark, UHost], 514)]"
  "snd uri_chunk_40 =
     [(561, [UHost], 514),
      (568, [UMark], 515)]"
  "snd uri_chunk_41 =
     [(547, [UMark], 520),
      (549, [UMark], 253),
      (555, [UMark, UHost], 521),
      (576, [UHost], 521)]"
  "snd uri_chunk_42 =
     [(263, [UUserinfo], 522),
      (557, [UMark, UUserinfo], 522),
      (578, [UMark], 523),
      (579, [UMark], 258)]"
  "snd uri_chunk_43 =
     [(580, [UMark], 524)]"
  "snd uri_chunk_44 = []"
  "snd uri_chunk_45 = []"
  "snd uri_chunk_46 =
     [(581, [UMark], 538),
      (583, [UMark], 539),
      (582, [UMark], 540),
      (558, [UMark], 260)]"
  "snd uri_chunk_47 = []"
  "snd uri_chunk_48 = []"
  "snd uri_chunk_49 = []"
  "snd uri_chunk_50 = []"
  "snd uri_chunk_51 = []"
  "snd uri_chunk_52 = []"
  "snd uri_chunk_53 = []"
  "snd uri_chunk_54 = []"
  "snd uri_chunk_55 = []"
  "snd uri_chunk_56 = []"
  "snd uri_chunk_57 = []"
  "snd uri_chunk_58 = []"
  "snd uri_chunk_59 = []"
  "snd uri_chunk_60 = []"
  "snd uri_chunk_61 = []"
  "snd uri_chunk_62 = []"
  "snd uri_chunk_63 = []"
  "snd uri_chunk_64 = []"
  "snd uri_chunk_65 = []"
  "snd uri_chunk_66 =
     [(577, [UMark], 542),
      (551, [UMark], 543)]"
  "snd uri_chunk_67 = []"
  "snd uri_chunk_68 = []"
  "snd uri_chunk_69 =
     [(552, [UMark], 557),
      (554, [UMark], 558)]"
  "snd uri_chunk_70 =
     [(553, [UMark], 559)]"
  unfolding uri_chunk_1_def uri_chunk_2_def uri_chunk_3_def uri_chunk_4_def uri_chunk_5_def uri_chunk_6_def
    uri_chunk_7_def uri_chunk_8_def uri_chunk_9_def uri_chunk_10_def uri_chunk_11_def uri_chunk_12_def
    uri_chunk_13_def uri_chunk_14_def uri_chunk_15_def uri_chunk_16_def uri_chunk_17_def uri_chunk_18_def
    uri_chunk_19_def uri_chunk_20_def uri_chunk_21_def uri_chunk_22_def uri_chunk_23_def uri_chunk_24_def
    uri_chunk_25_def uri_chunk_26_def uri_chunk_27_def uri_chunk_28_def uri_chunk_29_def uri_chunk_30_def
    uri_chunk_31_def uri_chunk_32_def uri_chunk_33_def uri_chunk_34_def uri_chunk_35_def uri_chunk_36_def
    uri_chunk_37_def uri_chunk_38_def uri_chunk_39_def uri_chunk_40_def uri_chunk_41_def uri_chunk_42_def
    uri_chunk_43_def uri_chunk_44_def uri_chunk_45_def uri_chunk_46_def uri_chunk_47_def uri_chunk_48_def
    uri_chunk_49_def uri_chunk_50_def uri_chunk_51_def uri_chunk_52_def uri_chunk_53_def uri_chunk_54_def
    uri_chunk_55_def uri_chunk_56_def uri_chunk_57_def uri_chunk_58_def uri_chunk_59_def uri_chunk_60_def
    uri_chunk_61_def uri_chunk_62_def uri_chunk_63_def uri_chunk_64_def uri_chunk_65_def uri_chunk_66_def
    uri_chunk_67_def uri_chunk_68_def uri_chunk_69_def uri_chunk_70_def
  by (rule snd_conv)+

lemma uri_trans:
  "find_trans uri_index 467 = Some ([UMarkA, UQuery], 453)"
  "find_trans uri_index 469 = Some ([UQuery], 453)"
  "find_trans uri_index 474 = Some ([UMark, UHost], 453)"
  "find_trans uri_index 485 = Some ([UHost], 453)"
  "find_trans uri_index 489 = Some ([UMark, UPort], 453)"
  "find_trans uri_index 493 = Some ([UPort], 453)"
  "find_trans uri_index 548 = Some ([UMark, UHost, UPath], 453)"
  "find_trans uri_index 559 = Some ([UHost, UMark, UPath], 453)"
  "find_trans uri_index 563 = Some ([UPath], 453)"
  "find_trans uri_index 566 = Some ([UMark, UPort, UPath], 453)"
  "find_trans uri_index 570 = Some ([UPort, UMark, UPath], 453)"
  "find_trans uri_index 462 = Some ([UMarkA], 454)"
  "find_trans uri_index 463 = Some ([UMarkA], 1)"
  "find_trans uri_index 476 = Some ([UMark, UHost], 455)"
  "find_trans uri_index 486 = Some ([UHost], 455)"
  "find_trans uri_index 490 = Some ([UMark, UPort], 455)"
  "find_trans uri_index 494 = Some ([UPort], 455)"
  "find_trans uri_index 482 = Some ([UMark, UHost], 456)"
  "find_trans uri_index 488 = Some ([UHost], 456)"
  "find_trans uri_index 492 = Some ([UMark, UPort], 456)"
  "find_trans uri_index 496 = Some ([UPort], 456)"
  "find_trans uri_index 556 = Some ([UMark, UHost, UPath], 456)"
  "find_trans uri_index 562 = Some ([UHost, UMark, UPath], 456)"
  "find_trans uri_index 565 = Some ([UPath], 456)"
  "find_trans uri_index 569 = Some ([UMark, UPort, UPath], 456)"
  "find_trans uri_index 573 = Some ([UPort, UMark, UPath], 456)"
  "find_trans uri_index 466 = Some ([UMarkA], 457)"
  "find_trans uri_index 468 = Some ([UMarkA], 7)"
  "find_trans uri_index 472 = Some ([UMark], 9)"
  "find_trans uri_index 507 = Some ([UMark, UHost], 461)"
  "find_trans uri_index 487 = Some ([UHost], 461)"
  "find_trans uri_index 491 = Some ([UMark], 462)"
  "find_trans uri_index 473 = Some ([UMark], 467)"
  "find_trans uri_index 475 = Some ([UMark], 31)"
  "find_trans uri_index 481 = Some ([UMark, UHost], 468)"
  "find_trans uri_index 499 = Some ([UHost], 468)"
  "find_trans uri_index 38 = Some ([UUserinfo], 469)"
  "find_trans uri_index 483 = Some ([UMark, UUserinfo], 469)"
  "find_trans uri_index 501 = Some ([UMark], 470)"
  "find_trans uri_index 502 = Some ([UMark], 36)"
  "find_trans uri_index 503 = Some ([UMark], 471)"
  "find_trans uri_index 504 = Some ([UMark], 485)"
  "find_trans uri_index 506 = Some ([UMark], 486)"
  "find_trans uri_index 505 = Some ([UMark], 487)"
  "find_trans uri_index 484 = Some ([UMark], 38)"
  "find_trans uri_index 500 = Some ([UMark], 489)"
  "find_trans uri_index 477 = Some ([UMark], 490)"
  "find_trans uri_index 478 = Some ([UMark], 504)"
  "find_trans uri_index 480 = Some ([UMark], 505)"
  "find_trans uri_index 479 = Some ([UMark], 506)"
  "find_trans uri_index 461 = Some ([UMarkA], 508)"
  "find_trans uri_index 543 = Some ([UScheme], 509)"
  "find_trans uri_index 546 = Some ([UMark], 229)"
  "find_trans uri_index 550 = Some ([UMark, UHost], 513)"
  "find_trans uri_index 567 = Some ([UMark, UPort], 513)"
  "find_trans uri_index 560 = Some ([UHost, UMark], 513)"
  "find_trans uri_index 571 = Some ([UPort, UMark], 513)"
  "find_trans uri_index 584 = Some ([UMark, UHost], 514)"
  "find_trans uri_index 561 = Some ([UHost], 514)"
  "find_trans uri_index 568 = Some ([UMark], 515)"
  "find_trans uri_index 547 = Some ([UMark], 520)"
  "find_trans uri_index 549 = Some ([UMark], 253)"
  "find_trans uri_index 555 = Some ([UMark, UHost], 521)"
  "find_trans uri_index 576 = Some ([UHost], 521)"
  "find_trans uri_index 263 = Some ([UUserinfo], 522)"
  "find_trans uri_index 557 = Some ([UMark, UUserinfo], 522)"
  "find_trans uri_index 578 = Some ([UMark], 523)"
  "find_trans uri_index 579 = Some ([UMark], 258)"
  "find_trans uri_index 580 = Some ([UMark], 524)"
  "find_trans uri_index 581 = Some ([UMark], 538)"
  "find_trans uri_index 583 = Some ([UMark], 539)"
  "find_trans uri_index 582 = Some ([UMark], 540)"
  "find_trans uri_index 558 = Some ([UMark], 260)"
  "find_trans uri_index 577 = Some ([UMark], 542)"
  "find_trans uri_index 551 = Some ([UMark], 543)"
  "find_trans uri_index 552 = Some ([UMark], 557)"
  "find_trans uri_index 554 = Some ([UMark], 558)"
  "find_trans uri_index 553 = Some ([UMark], 559)"
  by (simp_all add: uri_index_def uri_trans_of)

lemma uri_closed:
  "chunk_closed uri_index 560 uri_chunk_1"
  "chunk_closed uri_index 560 uri_chunk_2"
  "chunk_closed uri_index 560 uri_chunk_3"
  "chunk_closed uri_index 560 uri_chunk_4"
  "chunk_closed uri_index 560 uri_chunk_5"
  "chunk_closed uri_index 560 uri_chunk_6"
  "chunk_closed uri_index 560 uri_chunk_7"
  "chunk_closed uri_index 560 uri_chunk_8"
  "chunk_closed uri_index 560 uri_chunk_9"
  "chunk_closed uri_index 560 uri_chunk_10"
  "chunk_closed uri_index 560 uri_chunk_11"
  "chunk_closed uri_index 560 uri_chunk_12"
  "chunk_closed uri_index 560 uri_chunk_13"
  "chunk_closed uri_index 560 uri_chunk_14"
  "chunk_closed uri_index 560 uri_chunk_15"
  "chunk_closed uri_index 560 uri_chunk_16"
  "chunk_closed uri_index 560 uri_chunk_17"
  "chunk_closed uri_index 560 uri_chunk_18"
  "chunk_closed uri_index 560 uri_chunk_19"
  "chunk_closed uri_index 560 uri_chunk_20"
  "chunk_closed uri_index 560 uri_chunk_21"
  "chunk_closed uri_index 560 uri_chunk_22"
  "chunk_closed uri_index 560 uri_chunk_23"
  "chunk_closed uri_index 560 uri_chunk_24"
  "chunk_closed uri_index 560 uri_chunk_25"
  "chunk_closed uri_index 560 uri_chunk_26"
  "chunk_closed uri_index 560 uri_chunk_27"
  "chunk_closed uri_index 560 uri_chunk_28"
  "chunk_closed uri_index 560 uri_chunk_29"
  "chunk_closed uri_index 560 uri_chunk_30"
  "chunk_closed uri_index 560 uri_chunk_31"
  "chunk_closed uri_index 560 uri_chunk_32"
  "chunk_closed uri_index 560 uri_chunk_33"
  "chunk_closed uri_index 560 uri_chunk_34"
  "chunk_closed uri_index 560 uri_chunk_35"
  "chunk_closed uri_index 560 uri_chunk_36"
  "chunk_closed uri_index 560 uri_chunk_37"
  "chunk_closed uri_index 560 uri_chunk_38"
  "chunk_closed uri_index 560 uri_chunk_39"
  "chunk_closed uri_index 560 uri_chunk_40"
  "chunk_closed uri_index 560 uri_chunk_41"
  "chunk_closed uri_index 560 uri_chunk_42"
  "chunk_closed uri_index 560 uri_chunk_43"
  "chunk_closed uri_index 560 uri_chunk_44"
  "chunk_closed uri_index 560 uri_chunk_45"
  "chunk_closed uri_index 560 uri_chunk_46"
  "chunk_closed uri_index 560 uri_chunk_47"
  "chunk_closed uri_index 560 uri_chunk_48"
  "chunk_closed uri_index 560 uri_chunk_49"
  "chunk_closed uri_index 560 uri_chunk_50"
  "chunk_closed uri_index 560 uri_chunk_51"
  "chunk_closed uri_index 560 uri_chunk_52"
  "chunk_closed uri_index 560 uri_chunk_53"
  "chunk_closed uri_index 560 uri_chunk_54"
  "chunk_closed uri_index 560 uri_chunk_55"
  "chunk_closed uri_index 560 uri_chunk_56"
  "chunk_closed uri_index 560 uri_chunk_57"
  "chunk_closed uri_index 560 uri_chunk_58"
  "chunk_closed uri_index 560 uri_chunk_59"
  "chunk_closed uri_index 560 uri_chunk_60"
  "chunk_closed uri_index 560 uri_chunk_61"
  "chunk_closed uri_index 560 uri_chunk_62"
  "chunk_closed uri_index 560 uri_chunk_63"
  "chunk_closed uri_index 560 uri_chunk_64"
  "chunk_closed uri_index 560 uri_chunk_65"
  "chunk_closed uri_index 560 uri_chunk_66"
  "chunk_closed uri_index 560 uri_chunk_67"
  "chunk_closed uri_index 560 uri_chunk_68"
  "chunk_closed uri_index 560 uri_chunk_69"
  "chunk_closed uri_index 560 uri_chunk_70"
  by (simp_all add: chunk_closed_def goto_closed_def uri_trans
    uri_chunk_1_def uri_chunk_2_def uri_chunk_3_def uri_chunk_4_def uri_chunk_5_def uri_chunk_6_def
    uri_chunk_7_def uri_chunk_8_def uri_chunk_9_def uri_chunk_10_def uri_chunk_11_def uri_chunk_12_def
    uri_chunk_13_def uri_chunk_14_def uri_chunk_15_def uri_chunk_16_def uri_chunk_17_def uri_chunk_18_def
    uri_chunk_19_def uri_chunk_20_def uri_chunk_21_def uri_chunk_22_def uri_chunk_23_def uri_chunk_24_def
    uri_chunk_25_def uri_chunk_26_def uri_chunk_27_def uri_chunk_28_def uri_chunk_29_def uri_chunk_30_def
    uri_chunk_31_def uri_chunk_32_def uri_chunk_33_def uri_chunk_34_def uri_chunk_35_def uri_chunk_36_def
    uri_chunk_37_def uri_chunk_38_def uri_chunk_39_def uri_chunk_40_def uri_chunk_41_def uri_chunk_42_def
    uri_chunk_43_def uri_chunk_44_def uri_chunk_45_def uri_chunk_46_def uri_chunk_47_def uri_chunk_48_def
    uri_chunk_49_def uri_chunk_50_def uri_chunk_51_def uri_chunk_52_def uri_chunk_53_def uri_chunk_54_def
    uri_chunk_55_def uri_chunk_56_def uri_chunk_57_def uri_chunk_58_def uri_chunk_59_def uri_chunk_60_def
    uri_chunk_61_def uri_chunk_62_def uri_chunk_63_def uri_chunk_64_def uri_chunk_65_def uri_chunk_66_def
    uri_chunk_67_def uri_chunk_68_def uri_chunk_69_def uri_chunk_70_def)

lemma uri_chunk_states: "list_all (\<lambda>(ss, ts, c). map fst (fst c) = ss) uri_index"
  by (simp add: uri_index_def
    uri_chunk_1_def
    uri_chunk_2_def
    uri_chunk_3_def
    uri_chunk_4_def
    uri_chunk_5_def
    uri_chunk_6_def
    uri_chunk_7_def
    uri_chunk_8_def
    uri_chunk_9_def
    uri_chunk_10_def
    uri_chunk_11_def
    uri_chunk_12_def
    uri_chunk_13_def
    uri_chunk_14_def
    uri_chunk_15_def
    uri_chunk_16_def
    uri_chunk_17_def
    uri_chunk_18_def
    uri_chunk_19_def
    uri_chunk_20_def
    uri_chunk_21_def
    uri_chunk_22_def
    uri_chunk_23_def
    uri_chunk_24_def
    uri_chunk_25_def
    uri_chunk_26_def
    uri_chunk_27_def
    uri_chunk_28_def
    uri_chunk_29_def
    uri_chunk_30_def
    uri_chunk_31_def
    uri_chunk_32_def
    uri_chunk_33_def
    uri_chunk_34_def
    uri_chunk_35_def
    uri_chunk_36_def
    uri_chunk_37_def
    uri_chunk_38_def
    uri_chunk_39_def
    uri_chunk_40_def
    uri_chunk_41_def
    uri_chunk_42_def
    uri_chunk_43_def
    uri_chunk_44_def
    uri_chunk_45_def
    uri_chunk_46_def
    uri_chunk_47_def
    uri_chunk_48_def
    uri_chunk_49_def
    uri_chunk_50_def
    uri_chunk_51_def
    uri_chunk_52_def
    uri_chunk_53_def
    uri_chunk_54_def
    uri_chunk_55_def
    uri_chunk_56_def
    uri_chunk_57_def
    uri_chunk_58_def
    uri_chunk_59_def
    uri_chunk_60_def
    uri_chunk_61_def
    uri_chunk_62_def
    uri_chunk_63_def
    uri_chunk_64_def
    uri_chunk_65_def
    uri_chunk_66_def
    uri_chunk_67_def
    uri_chunk_68_def
    uri_chunk_69_def
    uri_chunk_70_def)

lemma uri_chunks_closed: "list_all (\<lambda>(ss, ts, c). chunk_closed uri_index 560 c) uri_index"
proof -
  have "list_all (chunk_closed uri_index 560) (map (snd \<circ> snd) uri_index)"
    by (subst uri_index_def) (simp add: uri_closed)
  then show ?thesis by (simp add: list_all_iff split_beta)
qed

lemma uri_states: "560 < next_missing 1 (concat (map fst uri_index) @ concat (map fst uri_index))"
  by (simp add: uri_index_def)

interpretation uri_tab: closed_table uri_index 560
proof (rule index_closed_table)
  show "index_closed uri_index 560"
    using uri_chunk_states uri_chunks_closed uri_states by (simp add: index_closed_def list_all_iff split_beta)
qed

end
