(* ===== verification/Uri_Parser.thy ===== *)
theory Uri_Parser
  imports Uri Uri_Table Ragel_Runs Http_Client_Parser "HOL-Library.Sublist"
begin

text \<open>
  \<open>Uri::Create\<close> of \<open>src/uri_rl.cpp\<close>: the run over the table of \<open>Uri_Table\<close>, its actions and the actions
  at the end of the text. \<open>mark\<close> is a pointer into the text or null. What the construction of a string
  throws, and a null pointer given to \<open>atoi\<close>, are errors.
\<close>

datatype uri_error = LogicError | NullDeref | StringError parse_error

text \<open>\<open>std::string(mark, p - mark)\<close>: from a null pointer it is a \<open>std::logic_error\<close>.\<close>

definition mark_string :: "string \<Rightarrow> nat option \<Rightarrow> nat \<Rightarrow> uri_error + string" where
  "mark_string B mark p =
    (case mark of
       None \<Rightarrow> Inl LogicError
     | Some q \<Rightarrow> (case std_string B q (usub64 p q) of Inl e \<Rightarrow> Inl (StringError e) | Inr t \<Rightarrow> Inr t))"

fun uri_do :: "string \<Rightarrow> uri_action \<Rightarrow> nat \<Rightarrow> nat option \<times> uri \<Rightarrow> uri_error + nat option \<times> uri" where
  "uri_do B UMarkA p (mark, u) = Inr (Some p, u)"
| "uri_do B UMark p (mark, u) = Inr (Some p, u)"
| "uri_do B UScheme p (mark, u) = bindR (mark_string B mark p) (\<lambda>t. Inr (None, u\<lparr>u_scheme := t\<rparr>))"
| "uri_do B UPort p (mark, u) =
    (if mark = Some p then Inr (None, u)
     else case mark of
       None \<Rightarrow> Inl NullDeref
     | Some q \<Rightarrow> Inr (None, u\<lparr>u_port := word_of_int (atoi (drop q B))\<rparr>))"
| "uri_do B UUserinfo p (mark, u) =
    (if mark = None then Inr (None, u)
     else bindR (mark_string B mark p) (\<lambda>t. Inr (None, u\<lparr>u_userinfo := t\<rparr>)))"
| "uri_do B UHost p (mark, u) =
    (if mark = None then Inr (mark, u) else bindR (mark_string B mark p) (\<lambda>t. Inr (mark, u\<lparr>u_host := t\<rparr>)))"
| "uri_do B UPath p (mark, u) = bindR (mark_string B mark p) (\<lambda>t. Inr (None, u\<lparr>u_path := t\<rparr>))"
| "uri_do B UQuery p (mark, u) = bindR (mark_string B mark p) (\<lambda>t. Inr (None, u\<lparr>u_query := t\<rparr>))"
| "uri_do B UFragment p (mark, u) = bindR (mark_string B mark p) (\<lambda>t. Inr (None, u\<lparr>u_fragment := t\<rparr>))"

definition uri_machine :: "string \<Rightarrow> (uri_action, uri_error + nat option \<times> uri) machine" where
  "uri_machine B = \<lparr>m_index = uri_index, m_stop = (\<lambda>a. False), m_act = (\<lambda>a p s. bindR s (uri_do B a p))\<rparr>"

text \<open>The actions of \<open>_test_eof\<close>, by state.\<close>

definition uri_eof :: "(nat list \<times> uri_action list) list" where
  "uri_eof = [
    ([462, 489], [UPort]),
    ([460, 463, 464, 465, 466, 467, 470, 471, 472, 473, 474, 475, 476, 477, 478, 479, 480, 481, 482, 483,
      484, 485, 486, 487, 488, 490, 491, 492, 493, 494, 495, 496, 497, 498, 499, 500, 501, 502, 503, 504, 505,
      506, 507], [UHost]),
    ([513], [UPath]),
    ([457], [UQuery]),
    ([454], [UFragment]),
    ([456], [UMarkA, UQuery]),
    ([453], [UMarkA, UFragment]),
    ([461, 468], [UMark, UPort]),
    ([459, 469], [UMark, UHost]),
    ([514, 521], [UMark, UPort, UPath]),
    ([511, 522], [UMark, UHost, UPath]),
    ([515, 542], [UPort, UMark, UPath]),
    ([512, 516, 517, 518, 519, 520, 523, 524, 525, 526, 527, 528, 529, 530, 531, 532, 533, 534, 535, 536,
      537, 538, 539, 540, 541, 543, 544, 545, 546, 547, 548, 549, 550, 551, 552, 553, 554, 555, 556, 557, 558,
      559, 560], [UHost, UMark, UPath])]"

definition eof_actions :: "nat \<Rightarrow> uri_action list" where
  "eof_actions cs = (case find (\<lambda>(states, acts). cs \<in> set states) uri_eof of None \<Rightarrow> [] | Some (states, acts) \<Rightarrow> acts)"

definition Uri_Create :: "string \<Rightarrow> uri_error + uri option" where
  "Uri_Create uristr =
    (case machine_run (uri_machine uristr) False 451 0 uristr (Inr (None, new_uri)) of
      (cs, p, s) \<Rightarrow>
        bindR (if p = length uristr then fold (\<lambda>a s. bindR s (uri_do uristr a p)) (eof_actions cs) s else s) (\<lambda>(mark, u).
          if cs = 0 then Inr None else if 451 \<le> cs then Inr (Some u) else Inr None))"

subsection \<open>The mark\<close>

definition mark_eff :: "uri_action \<Rightarrow> bool option" where
  "mark_eff a =
    (case a of UMarkA \<Rightarrow> Some True | UMark \<Rightarrow> Some True | UHost \<Rightarrow> None | _ \<Rightarrow> Some False)"

text \<open>The actions that read it unguarded, other than the one for the path.\<close>

definition mark_needs :: "uri_action \<Rightarrow> bool" where
  "mark_needs a \<longleftrightarrow> a = UScheme \<or> a = UPort \<or> a = UQuery \<or> a = UFragment"

definition mark_valid :: "nat \<Rightarrow> bool" where
  "mark_valid n \<longleftrightarrow> n \<notin> {3, 4, 5, 6, 243, 244, 451, 452, 453, 455, 456, 458, 459, 469, 509, 510, 511, 513, 522}"

lemma mark_flow_chunks:
  "chunk_flow uri_index mark_eff mark_needs mark_valid uri_chunk_1"
  "chunk_flow uri_index mark_eff mark_needs mark_valid uri_chunk_2"
  "chunk_flow uri_index mark_eff mark_needs mark_valid uri_chunk_3"
  "chunk_flow uri_index mark_eff mark_needs mark_valid uri_chunk_4"
  "chunk_flow uri_index mark_eff mark_needs mark_valid uri_chunk_5"
  "chunk_flow uri_index mark_eff mark_needs mark_valid uri_chunk_6"
  "chunk_flow uri_index mark_eff mark_needs mark_valid uri_chunk_7"
  "chunk_flow uri_index mark_eff mark_needs mark_valid uri_chunk_8"
  "chunk_flow uri_index mark_eff mark_needs mark_valid uri_chunk_9"
  "chunk_flow uri_index mark_eff mark_needs mark_valid uri_chunk_10"
  "chunk_flow uri_index mark_eff mark_needs mark_valid uri_chunk_11"
  "chunk_flow uri_index mark_eff mark_needs mark_valid uri_chunk_12"
  "chunk_flow uri_index mark_eff mark_needs mark_valid uri_chunk_13"
  "chunk_flow uri_index mark_eff mark_needs mark_valid uri_chunk_14"
  "chunk_flow uri_index mark_eff mark_needs mark_valid uri_chunk_15"
  "chunk_flow uri_index mark_eff mark_needs mark_valid uri_chunk_16"
  "chunk_flow uri_index mark_eff mark_needs mark_valid uri_chunk_17"
  "chunk_flow uri_index mark_eff mark_needs mark_valid uri_chunk_18"
  "chunk_flow uri_index mark_eff mark_needs mark_valid uri_chunk_19"
  "chunk_flow uri_index mark_eff mark_needs mark_valid uri_chunk_20"
  "chunk_flow uri_index mark_eff mark_needs mark_valid uri_chunk_21"
  "chunk_flow uri_index mark_eff mark_needs mark_valid uri_chunk_22"
  "chunk_flow uri_index mark_eff mark_needs mark_valid uri_chunk_23"
  "chunk_flow uri_index mark_eff mark_needs mark_valid uri_chunk_24"
  "chunk_flow uri_index mark_eff mark_needs mark_valid uri_chunk_25"
  "chunk_flow uri_index mark_eff mark_needs mark_valid uri_chunk_26"
  "chunk_flow uri_index mark_eff mark_needs mark_valid uri_chunk_27"
  "chunk_flow uri_index mark_eff mark_needs mark_valid uri_chunk_28"
  "chunk_flow uri_index mark_eff mark_needs mark_valid uri_chunk_29"
  "chunk_flow uri_index mark_eff mark_needs mark_valid uri_chunk_30"
  "chunk_flow uri_index mark_eff mark_needs mark_valid uri_chunk_31"
  "chunk_flow uri_index mark_eff mark_needs mark_valid uri_chunk_32"
  "chunk_flow uri_index mark_eff mark_needs mark_valid uri_chunk_33"
  "chunk_flow uri_index mark_eff mark_needs mark_valid uri_chunk_34"
  "chunk_flow uri_index mark_eff mark_needs mark_valid uri_chunk_35"
  "chunk_flow uri_index mark_eff mark_needs mark_valid uri_chunk_36"
  "chunk_flow uri_index mark_eff mark_needs mark_valid uri_chunk_37"
  "chunk_flow uri_index mark_eff mark_needs mark_valid uri_chunk_38"
  "chunk_flow uri_index mark_eff mark_needs mark_valid uri_chunk_39"
  "chunk_flow uri_index mark_eff mark_needs mark_valid uri_chunk_40"
  "chunk_flow uri_index mark_eff mark_needs mark_valid uri_chunk_41"
  "chunk_flow uri_index mark_eff mark_needs mark_valid uri_chunk_42"
  "chunk_flow uri_index mark_eff mark_needs mark_valid uri_chunk_43"
  "chunk_flow uri_index mark_eff mark_needs mark_valid uri_chunk_44"
  "chunk_flow uri_index mark_eff mark_needs mark_valid uri_chunk_45"
  "chunk_flow uri_index mark_eff mark_needs mark_valid uri_chunk_46"
  "chunk_flow uri_index mark_eff mark_needs mark_valid uri_chunk_47"
  "chunk_flow uri_index mark_eff mark_needs mark_valid uri_chunk_48"
  "chunk_flow uri_index mark_eff mark_needs mark_valid uri_chunk_49"
  "chunk_flow uri_index mark_eff mark_needs mark_valid uri_chunk_50"
  "chunk_flow uri_index mark_eff mark_needs mark_valid uri_chunk_51"
  "chunk_flow uri_index mark_eff mark_needs mark_valid uri_chunk_52"
  "chunk_flow uri_index mark_eff mark_needs mark_valid uri_chunk_53"
  "chunk_flow uri_index mark_eff mark_needs mark_valid uri_chunk_54"
  "chunk_flow uri_index mark_eff mark_needs mark_valid uri_chunk_55"
  "chunk_flow uri_index mark_eff mark_needs mark_valid uri_chunk_56"
  "chunk_flow uri_index mark_eff mark_needs mark_valid uri_chunk_57"
  "chunk_flow uri_index mark_eff mark_needs mark_valid uri_chunk_58"
  "chunk_flow uri_index mark_eff mark_needs mark_valid uri_chunk_59"
  "chunk_flow uri_index mark_eff mark_needs mark_valid uri_chunk_60"
  "chunk_flow uri_index mark_eff mark_needs mark_valid uri_chunk_61"
  "chunk_flow uri_index mark_eff mark_needs mark_valid uri_chunk_62"
  "chunk_flow uri_index mark_eff mark_needs mark_valid uri_chunk_63"
  "chunk_flow uri_index mark_eff mark_needs mark_valid uri_chunk_64"
  "chunk_flow uri_index mark_eff mark_needs mark_valid uri_chunk_65"
  "chunk_flow uri_index mark_eff mark_needs mark_valid uri_chunk_66"
  "chunk_flow uri_index mark_eff mark_needs mark_valid uri_chunk_67"
  "chunk_flow uri_index mark_eff mark_needs mark_valid uri_chunk_68"
  "chunk_flow uri_index mark_eff mark_needs mark_valid uri_chunk_69"
  "chunk_flow uri_index mark_eff mark_needs mark_valid uri_chunk_70"
  by (simp_all add: chunk_flow_def goto_flow_def uri_trans mark_eff_def mark_needs_def mark_valid_def
      uri_chunk_1_def uri_chunk_2_def uri_chunk_3_def uri_chunk_4_def uri_chunk_5_def uri_chunk_6_def
      uri_chunk_7_def uri_chunk_8_def uri_chunk_9_def uri_chunk_10_def uri_chunk_11_def uri_chunk_12_def
      uri_chunk_13_def uri_chunk_14_def uri_chunk_15_def uri_chunk_16_def uri_chunk_17_def uri_chunk_18_def
      uri_chunk_19_def uri_chunk_20_def uri_chunk_21_def uri_chunk_22_def uri_chunk_23_def uri_chunk_24_def
      uri_chunk_25_def uri_chunk_26_def uri_chunk_27_def uri_chunk_28_def uri_chunk_29_def uri_chunk_30_def
      uri_chunk_31_def uri_chunk_32_def uri_chunk_33_def uri_chunk_34_def uri_chunk_35_def uri_chunk_36_def
      uri_chunk_37_def uri_chunk_38_def uri_chunk_39_def uri_chunk_40_def uri_chunk_41_def uri_chunk_42_def
      uri_chunk_43_def uri_chunk_44_def uri_chunk_45_def uri_chunk_46_def uri_chunk_47_def uri_chunk_48_def
      uri_chunk_49_def uri_chunk_50_def uri_chunk_51_def uri_chunk_52_def uri_chunk_53_def uri_chunk_54_def
      uri_chunk_55_def uri_chunk_56_def uri_chunk_57_def uri_chunk_58_def uri_chunk_59_def uri_chunk_60_def
      uri_chunk_61_def uri_chunk_62_def uri_chunk_63_def uri_chunk_64_def uri_chunk_65_def uri_chunk_66_def
      uri_chunk_67_def uri_chunk_68_def uri_chunk_69_def uri_chunk_70_def)

interpretation mark_flow: flow_table uri_index mark_eff mark_needs mark_valid
  by unfold_locales (simp add: index_flow_def, subst uri_index_def, simp add: mark_flow_chunks)

subsection \<open>What \<open>Create\<close> may throw\<close>

definition pieces_of :: "string \<Rightarrow> uri \<Rightarrow> bool" where
  "pieces_of B u \<longleftrightarrow> list_all (\<lambda>t. sublist t B) [u_scheme u, u_userinfo u, u_host u, u_path u, u_query u, u_fragment u]"

text \<open>Before the character at \<open>p\<close>, with a mark that is set if \<open>v\<close>.\<close>

definition create_ok :: "string \<Rightarrow> nat \<Rightarrow> bool \<Rightarrow> uri_error + nat option \<times> uri \<Rightarrow> bool" where
  "create_ok B p v s \<longleftrightarrow>
    (case s of
       Inl err \<Rightarrow> err = LogicError
     | Inr (mark, u) \<Rightarrow> (v \<longrightarrow> mark \<noteq> None) \<and> (\<forall>q. mark = Some q \<longrightarrow> q \<le> p) \<and> pieces_of B u)"

lemma mark_string_ok:
  assumes "\<forall>q. mark = Some q \<longrightarrow> q \<le> p" "p \<le> length B" "length B \<le> max_string"
  shows "case mark_string B mark p of Inl err \<Rightarrow> err = LogicError \<and> mark = None | Inr t \<Rightarrow> sublist t B"
proof (cases mark)
  case (Some q)
  have "sublist (take (p - q) (drop q B)) B"
    unfolding sublist_def
    by (intro exI [of _ "take q B"] exI [of _ "drop (p - q) (drop q B)"]) (metis append_take_drop_id)
  with Some assms show ?thesis by (simp add: mark_string_def std_string_def)
qed (simp add: mark_string_def)

lemma uri_do_ok:
  assumes "create_ok B p v s" "mark_needs a \<longrightarrow> v" "p \<le> length B" "length B \<le> max_string"
  shows "create_ok B p (case mark_eff a of None \<Rightarrow> v | Some v' \<Rightarrow> v') (bindR s (uri_do B a p))"
proof (cases s)
  case (Inr x)
  obtain mark u where x: "x = (mark, u)" by (cases x)
  have ok: "v \<longrightarrow> mark \<noteq> None" "\<forall>q. mark = Some q \<longrightarrow> q \<le> p" "pieces_of B u"
    using assms(1) Inr x by (auto simp: create_ok_def)
  note str = mark_string_ok [OF ok(2) assms(3,4)]
  show ?thesis
    using ok str assms(2) unfolding Inr x
    by (cases a; cases "mark_string B mark p")
      (auto simp: create_ok_def mark_eff_def mark_needs_def pieces_of_def split: option.splits)
qed (use assms(1) in \<open>simp add: create_ok_def\<close>)

lemma uri_acts_ok:
  assumes "create_ok B p v s" "flow mark_eff mark_needs v acts = Some v'" "p \<le> length B" "length B \<le> max_string"
  shows "create_ok B p v' (fold (\<lambda>a s. bindR s (uri_do B a p)) acts s)"
  using assms(1,2)
proof (induction acts arbitrary: v s)
  case (Cons a acts)
  then have "mark_needs a \<longrightarrow> v" "flow mark_eff mark_needs (case mark_eff a of None \<Rightarrow> v | Some v' \<Rightarrow> v') acts = Some v'"
    by (auto split: if_splits)
  with Cons.IH [OF uri_do_ok [OF Cons.prems(1) _ assms(3,4)]] show ?case by simp
qed simp

lemma create_ok_weaken: "create_ok B p v s \<Longrightarrow> (v' \<Longrightarrow> v) \<Longrightarrow> p \<le> p' \<Longrightarrow> create_ok B p' v' s"
  by (auto simp: create_ok_def split: sum.splits)

lemma eof_flow:
  "list_all (\<lambda>(states, acts). list_all (\<lambda>n. flow mark_eff mark_needs (mark_valid n) acts \<noteq> None) states) uri_eof"
  by (simp add: uri_eof_def mark_eff_def mark_needs_def mark_valid_def del: not_None_eq)

lemma eof_actions_flow: "\<exists>v. flow mark_eff mark_needs (mark_valid cs) (eof_actions cs) = Some v"
proof (cases "find (\<lambda>(states, acts). cs \<in> set states) uri_eof")
  case (Some x)
  then have "x \<in> set uri_eof" "cs \<in> set (fst x)" by (auto simp: find_Some_iff) (metis nth_mem)
  with eof_flow Some show ?thesis by (fastforce simp: eof_actions_def list_all_iff)
qed (simp add: eof_actions_def)

lemma create_run_ok:
  assumes "length B \<le> max_string"
  shows "case machine_run (uri_machine B) False 451 0 B (Inr (None, new_uri)) of
    (cs, p, s) \<Rightarrow> create_ok B p (mark_valid cs \<and> cs \<noteq> 0) s \<and> p \<le> length B"
proof -
  have start: "create_ok B 0 (mark_valid 451) (Inr (None, new_uri))"
    by (simp add: create_ok_def mark_valid_def pieces_of_def new_uri_def)
  have "case machine_run (uri_machine B) False 451 0 B (Inr (None, new_uri)) of
      (cs, p, s) \<Rightarrow> create_ok B p (mark_valid cs \<and> cs \<noteq> 0) s"
  proof (rule run_invariant [where e = "length B" and I = "\<lambda>cs q s. create_ok B q (mark_valid cs) s"])
    fix cs q r n and c :: char and s
    assume I: "create_ok B q (mark_valid cs) s" and "q < length B" and row: "find_row (m_index (uri_machine B)) cs = Some r"
    show "create_ok B (Suc q) (mark_valid n) s" if "row_next False r c = St n" "n \<noteq> 0"
      using mark_flow.step_St [OF _ that] row by (intro create_ok_weaken [OF I]) (auto simp: uri_machine_def)
    show "(if list_ex (m_stop (uri_machine B)) acts then (\<lambda>cs p s. create_ok B p (mark_valid cs \<and> cs \<noteq> 0) s)
        else (\<lambda>cs q s. create_ok B q (mark_valid cs) s)) n (Suc q) (fold (\<lambda>a. m_act (uri_machine B) a q) acts s)"
      if "row_next False r c = Tr m" "find_trans (m_index (uri_machine B)) m = Some (acts, n)" for m acts
    proof -
      note tr = that
      have ix: "find_row uri_index cs = Some r" "find_trans uri_index m = Some (acts, n)"
        using row tr(2) by (simp_all add: uri_machine_def)
      obtain v where v: "flow mark_eff mark_needs (mark_valid cs) acts = Some v" "mark_valid n \<longrightarrow> v"
        using mark_flow.step_Tr [OF ix(1) tr(1) ix(2)] by blast
      have "create_ok B q v (fold (\<lambda>a s. bindR s (uri_do B a q)) acts s)"
        using \<open>q < length B\<close> by (intro uri_acts_ok [OF I v(1) _ assms]) simp
      then have "create_ok B (Suc q) (mark_valid n) (fold (\<lambda>a s. bindR s (uri_do B a q)) acts s)"
        by (rule create_ok_weaken) (use v(2) in simp_all)
      moreover have "\<not> list_ex (m_stop (uri_machine B)) acts" by (simp add: uri_machine_def list_ex_iff)
      moreover have "m_act (uri_machine B) = (\<lambda>a p s. bindR s (uri_do B a p))" by (simp add: uri_machine_def)
      ultimately show ?thesis by simp
    qed
  next
    show "create_ok B q (mark_valid cs) s \<Longrightarrow> create_ok B q (mark_valid cs \<and> cs \<noteq> 0) s" for cs q s
      by (erule create_ok_weaken) simp_all
    show "create_ok B q (mark_valid cs) s \<Longrightarrow> create_ok B q (mark_valid 0 \<and> (0 :: nat) \<noteq> 0) s" for cs q s
      by (erule create_ok_weaken) simp_all
    show "create_ok B 0 (mark_valid 451) (Inr (None, new_uri))" by (rule start)
  qed simp
  moreover have "case machine_run (uri_machine B) False 451 0 B (Inr (None, new_uri)) of (cs, p, s) \<Rightarrow> p \<le> length B"
    using run_position [where M = "uri_machine B" and w = False and cs = 451 and p = 0 and buf = B and s = "Inr (None, new_uri)"]
    by (simp add: case_prod_beta)
  ultimately show ?thesis by (simp add: case_prod_beta)
qed

text \<open>
  C20: on any string \<open>Uri::Create\<close> returns or throws: it hands \<open>atoi\<close> no null pointer, forms no string past
  the place it has read to, and the parts of a URI it gives are pieces of the text. The one exception it
  can throw is the \<open>std::logic_error\<close> of a string from a null pointer.
\<close>

theorem create_pieces:
  assumes "length uristr \<le> max_string"
  shows "case Uri_Create uristr of
      Inl err \<Rightarrow> err = LogicError
    | Inr None \<Rightarrow> True
    | Inr (Some u) \<Rightarrow>
        list_all (\<lambda>t. sublist t uristr) [u_scheme u, u_userinfo u, u_host u, u_path u, u_query u, u_fragment u]"
proof -
  obtain cs p s where run: "machine_run (uri_machine uristr) False 451 0 uristr (Inr (None, new_uri)) = (cs, p, s)"
    using prod_cases3 by blast
  with create_run_ok [OF assms] have s: "create_ok uristr p (mark_valid cs \<and> cs \<noteq> 0) s" "p \<le> length uristr" by auto
  let ?s = "if p = length uristr then fold (\<lambda>a s. bindR s (uri_do uristr a p)) (eof_actions cs) s else s"
  have "\<exists>v. create_ok uristr p v ?s"
  proof (cases "cs = 0")
    case True
    then have "eof_actions cs = []" by (simp add: eof_actions_def uri_eof_def)
    with s show ?thesis by auto
  next
    case False
    obtain v where "flow mark_eff mark_needs (mark_valid cs) (eof_actions cs) = Some v" using eof_actions_flow by blast
    from uri_acts_ok [OF _ this s(2) assms] s False show ?thesis by auto
  qed
  then obtain t v where t: "?s = t" "create_ok uristr p v t" by blast
  have "Uri_Create uristr =
      bindR t (\<lambda>(mark, u). if cs = 0 then Inr None else if 451 \<le> cs then Inr (Some u) else Inr None)"
    unfolding Uri_Create_def run prod.case t(1) ..
  with t(2) show ?thesis by (cases t) (auto simp: create_ok_def pieces_of_def)
qed

theorem create_pieces_witness:
  "case Uri_Create ''http://h:/p'' of
      Inl err \<Rightarrow> err = LogicError
    | Inr None \<Rightarrow> True
    | Inr (Some u) \<Rightarrow>
        list_all (\<lambda>t. sublist t ''http://h:/p'') [u_scheme u, u_userinfo u, u_host u, u_path u, u_query u, u_fragment u]"
  by (rule create_pieces) (simp add: max_string_def)

end
