(* ===== verification/Uri_Wire.thy ===== *)
theory Uri_Wire
  imports Uri_Parser
begin

text \<open>
  What \<open>Uri::Create\<close> makes of the text that \<open>Uri::dump\<close> writes, and of a URI whose port is empty.
\<close>

subsection \<open>Reading the text of a URI\<close>

definition scheme_start :: "(int \<times> int) list" where
  "scheme_start = [(65, 90), (97, 122)]"

definition scheme_class :: "(int \<times> int) list" where
  "scheme_class = [(43, 43), (45, 46), (48, 57), (65, 90), (97, 122)]"

definition host_start :: "(int \<times> int) list" where
  "host_start = [(65, 90), (95, 95), (97, 122), (126, 126)]"

definition host_class :: "(int \<times> int) list" where
  "host_class = [(45, 46), (48, 57), (65, 90), (95, 95), (97, 122), (126, 126)]"

definition digit_class :: "(int \<times> int) list" where
  "digit_class = [(48, 57)]"

definition upath_class :: "(int \<times> int) list" where
  "upath_class = [(- 128, - 1), (33, 33), (36, 36), (38, 59), (61, 61), (64, 90), (95, 95), (97, 122), (126, 126)]"

definition uquery_class :: "(int \<times> int) list" where
  "uquery_class = [(- 128, - 1), (33, 33), (36, 36), (38, 59), (61, 61), (63, 90), (95, 95), (97, 122), (126, 126)]"

lemmas uri_class_defs =
  scheme_start_def scheme_class_def host_start_def host_class_def digit_class_def upath_class_def uquery_class_def

lemma uri_goes_1:
  "goes uri_index 451 scheme_start (Tr 461)" "goes uri_index 508 scheme_class (St 508)"
  "goes uri_index 508 [(58, 58)] (Tr 543)" "goes uri_index 509 [(47, 47)] (St 510)"
  "goes uri_index 510 [(47, 47)] (St 511)" "goes uri_index 511 host_start (Tr 547)"
  by (simp_all add: goes_def uri_index_def)
    (simp_all add: uri_chunk_1_def uri_chunk_2_def uri_chunk_4_def uri_chunk_37_def uri_chunk_38_def uri_chunk_39_def
      uri_chunk_40_def uri_chunk_41_def uri_chunk_42_def uri_chunk_66_def uri_class_defs)

lemma uri_goes_2:
  "goes uri_index 520 host_class (St 520)" "goes uri_index 520 [(64, 64)] (Tr 263)"
  "goes uri_index 522 host_start (Tr 578)" "goes uri_index 523 host_class (St 523)"
  "goes uri_index 520 [(58, 58)] (Tr 576)" "goes uri_index 523 [(58, 58)] (Tr 561)"
  by (simp_all add: goes_def uri_index_def)
    (simp_all add: uri_chunk_1_def uri_chunk_2_def uri_chunk_4_def uri_chunk_37_def uri_chunk_38_def uri_chunk_39_def
      uri_chunk_40_def uri_chunk_41_def uri_chunk_42_def uri_chunk_66_def uri_class_defs)

lemma uri_goes_3:
  "goes uri_index 521 digit_class (Tr 577)" "goes uri_index 514 digit_class (Tr 568)"
  "goes uri_index 542 digit_class (St 542)" "goes uri_index 515 digit_class (St 515)"
  "goes uri_index 542 [(47, 47)] (Tr 571)" "goes uri_index 515 [(47, 47)] (Tr 571)"
  by (simp_all add: goes_def uri_index_def)
    (simp_all add: uri_chunk_1_def uri_chunk_2_def uri_chunk_4_def uri_chunk_37_def uri_chunk_38_def uri_chunk_39_def
      uri_chunk_40_def uri_chunk_41_def uri_chunk_42_def uri_chunk_66_def uri_class_defs)

lemma uri_goes_4:
  "goes uri_index 520 [(47, 47)] (Tr 560)" "goes uri_index 523 [(47, 47)] (Tr 560)"
  "goes uri_index 513 upath_class (St 513)" "goes uri_index 513 [(63, 63)] (Tr 565)"
  "goes uri_index 513 [(35, 35)] (Tr 563)" "goes uri_index 456 uquery_class (Tr 466)"
  by (simp_all add: goes_def uri_index_def)
    (simp_all add: uri_chunk_1_def uri_chunk_2_def uri_chunk_4_def uri_chunk_37_def uri_chunk_38_def uri_chunk_39_def
      uri_chunk_40_def uri_chunk_41_def uri_chunk_42_def uri_chunk_66_def uri_class_defs)

lemma uri_goes_5:
  "goes uri_index 457 uquery_class (St 457)" "goes uri_index 457 [(35, 35)] (Tr 469)"
  "goes uri_index 453 uquery_class (Tr 462)" "goes uri_index 454 uquery_class (St 454)"
  "goes uri_index 521 [(47, 47)] (Tr 567)" "goes uri_index 514 [(47, 47)] (Tr 567)"
  by (simp_all add: goes_def uri_index_def)
    (simp_all add: uri_chunk_1_def uri_chunk_2_def uri_chunk_4_def uri_chunk_37_def uri_chunk_38_def uri_chunk_39_def
      uri_chunk_40_def uri_chunk_41_def uri_chunk_42_def uri_chunk_66_def uri_class_defs)

lemmas uri_goes = uri_goes_1 uri_goes_2 uri_goes_3 uri_goes_4 uri_goes_5

lemma uri_machine_simps [simp]:
  "m_index (uri_machine B) = uri_index" "m_stop (uri_machine B) a = False"
  "m_act (uri_machine B) a p s = bindR s (uri_do B a p)"
  by (simp_all add: uri_machine_def)

lemmas uri_step = run_goes [where M = "uri_machine B" for B, unfolded uri_machine_simps(1)]

lemma at_sign [simp]: "in_class [(64, 64)] (CHR ''@'')"
  by (simp add: in_class_def char_value_def char_code_def)

text \<open>A word: its first character sets the mark, the others stay in a state.\<close>

lemma read_word:
  assumes "goes uri_index cs start (Tr m)" "find_trans uri_index m = Some ([a], n)" "a = UMark \<or> a = UMarkA"
    and "goes uri_index n cls (St n)" "n \<noteq> 0" "xs \<noteq> []" "in_class start (hd xs)" "list_all (in_class cls) (tl xs)"
  shows "machine_run (uri_machine B) w cs p (xs @ buf) (Inr (mark, u)) =
    machine_run (uri_machine B) w n (p + length xs) buf (Inr (Some p, u))"
proof -
  obtain c cs' where xs: "xs = c # cs'" using assms(6) by (cases xs) auto
  have "machine_run (uri_machine B) w n (Suc p) (cs' @ buf) s = machine_run (uri_machine B) w n (Suc p + length cs') buf s" for s
    using assms(4,5,8) xs by (intro run_class [where cls = cls]) simp_all
  with assms(2,3,7) xs show ?thesis by (auto simp: uri_step [OF assms(1)])
qed

lemma mark_string_at:
  assumes "rest_at B q (xs @ ys)" "length B \<le> max_string" "p = q + length xs"
  shows "mark_string B (Some q) p = Inr xs"
  using std_string_at [OF assms(1,2)] assms(3) by (simp add: mark_string_def)

text \<open>From the start to the authority.\<close>

lemma read_scheme:
  assumes "sch \<noteq> []" "in_class scheme_start (hd sch)" "list_all (in_class scheme_class) (tl sch)"
    and "B = sch @ ''://'' @ rest" "length B \<le> max_string"
  shows "machine_run (uri_machine B) w 451 0 B (Inr (None, u)) =
    machine_run (uri_machine B) w 511 (length sch + 3) rest (Inr (None, u\<lparr>u_scheme := sch\<rparr>))"
proof -
  have "rest_at B 0 (sch @ ''://'' @ rest)" by (simp add: rest_at_def assms(4))
  then have "mark_string B (Some 0) (length sch) = Inr sch" by (rule mark_string_at [OF _ assms(5)]) simp
  moreover have "machine_run (uri_machine B) w 451 0 (sch @ ''://'' @ rest) (Inr (None, u)) =
      machine_run (uri_machine B) w 508 (0 + length sch) (''://'' @ rest) (Inr (Some 0, u))"
    by (rule read_word [where a = UMarkA, OF uri_goes(1) _ _ uri_goes(2) _ assms(1-3)]) (simp_all add: uri_trans)
  ultimately show ?thesis
    using assms(4) by (simp add: uri_goes [THEN uri_step] uri_trans numeral_3_eq_3)
qed

text \<open>A user and a host, each of them begun with a letter.\<close>

definition word_ok :: "string \<Rightarrow> bool" where
  "word_ok xs \<longleftrightarrow> xs \<noteq> [] \<and> in_class host_start (hd xs) \<and> list_all (in_class host_class) (tl xs)"

definition user_part :: "string \<Rightarrow> string" where
  "user_part user = (if user = [] then [] else user @ ''@'')"

lemma read_host:
  assumes "user = [] \<or> word_ok user" "word_ok host" "rest_at B p (user_part user @ host @ rest)" "length B \<le> max_string"
    and "u_userinfo u = []"
  shows "machine_run (uri_machine B) w 511 p (user_part user @ host @ rest) (Inr (None, u)) =
    machine_run (uri_machine B) w (if user = [] then 520 else 523) (p + length (user_part user @ host)) rest
      (Inr (Some (p + length (user_part user)), u\<lparr>u_userinfo := user\<rparr>))"
proof (cases "user = []")
  case True
  have "machine_run (uri_machine B) w 511 p (host @ rest) (Inr (None, u)) =
      machine_run (uri_machine B) w 520 (p + length host) rest (Inr (Some p, u))"
    by (rule read_word [where a = UMark, OF uri_goes(6) _ _ uri_goes(7)]) (use assms(2) in \<open>simp_all add: word_ok_def uri_trans\<close>)
  moreover have "u\<lparr>u_userinfo := []\<rparr> = u" using assms(5) by simp
  ultimately show ?thesis using True by (simp add: user_part_def)
next
  case False
  have "machine_run (uri_machine B) w 511 p (user @ ''@'' @ host @ rest) (Inr (None, u)) =
      machine_run (uri_machine B) w 520 (p + length user) (''@'' @ host @ rest) (Inr (Some p, u))"
    by (rule read_word [where a = UMark, OF uri_goes(6) _ _ uri_goes(7)]) (use False assms(1) in \<open>simp_all add: word_ok_def uri_trans\<close>)
  moreover have "mark_string B (Some p) (p + length user) = Inr user"
    using assms(3,4) False by (intro mark_string_at) (simp_all add: user_part_def)
  moreover have "machine_run (uri_machine B) w 522 (Suc (p + length user)) (host @ rest) (Inr (None, u\<lparr>u_userinfo := user\<rparr>)) =
      machine_run (uri_machine B) w 523 (Suc (p + length user) + length host) rest
        (Inr (Some (Suc (p + length user)), u\<lparr>u_userinfo := user\<rparr>))"
    by (rule read_word [where a = UMark, OF uri_goes(9) _ _ uri_goes(10)]) (use assms(2) in \<open>simp_all add: word_ok_def uri_trans\<close>)
  ultimately show ?thesis
    using False by (simp add: user_part_def uri_goes [THEN uri_step] uri_trans add.assoc)
qed

text \<open>The port.\<close>

lemma digits_of_show:
  "list_all (in_class digit_class) (show_nat n) \<and> digits_value 10 (show_nat n @ CHR ''/'' # r) = n"
proof -
  have digit: "in_class digit_class c \<and> digit_of 10 c = Some (char_code c - 48)" if "c \<in> set (show_nat m)" for c m
    using show_nat_digits [OF that]
    by (auto simp: isdigit_def in_class_def digit_class_def char_value_def digit_of_def Let_def)
  have digit_char: "digit_of 10 (char_of (48 + k)) = Some k" if "k < 10" for k :: nat
    using that by (simp add: digit_of_def char_code_def Let_def)
  have foldl: "foldl (\<lambda>n c. n * 10 + the (digit_of 10 c)) 0 (show_nat n) = n"
  proof (induction n rule: show_nat.induct)
    case (1 n)
    show ?case
    proof (cases "n < 10")
      case True
      then show ?thesis by (subst show_nat.simps) (simp add: digit_char)
    next
      case False
      with 1 show ?thesis by (subst show_nat.simps) (simp add: digit_char)
    qed
  qed
  have "takeWhile (\<lambda>c. digit_of 10 c \<noteq> None) (show_nat n @ CHR ''/'' # r) = show_nat n"
  proof -
    have "digit_of 10 (CHR ''/'') = None" by (simp add: digit_of_def char_code_def)
    moreover have "\<forall>c \<in> set (show_nat n). digit_of 10 c \<noteq> None" using digit by blast
    ultimately show ?thesis by (simp add: takeWhile_append2)
  qed
  with foldl digit show ?thesis by (simp add: digits_value_def list_all_iff)
qed

lemma atoi_digits:
  assumes "n < 2 ^ 31"
  shows "atoi (show_nat n @ CHR ''/'' # r) = int n"
proof -
  obtain c cs where c: "show_nat n = c # cs" using show_nat_not_Nil by (cases "show_nat n") auto
  have dig: "48 \<le> char_code d \<and> char_code d \<le> 57" if "d \<in> set (show_nat n)" for d
    using show_nat_digits [OF that] by (simp add: isdigit_def)
  have "CHR 0x00 \<notin> set (show_nat n)" using dig by (force simp: char_code_def)
  then have cstr: "c_str (show_nat n @ CHR ''/'' # r) = show_nat n @ CHR ''/'' # c_str r" (is "_ = ?t")
    unfolding c_str_def by (subst takeWhile_append2) auto
  have "48 \<le> char_code c \<and> char_code c \<le> 57" using dig c by simp
  then have start: "\<not> isspace c" "c \<noteq> CHR ''-''" "c \<noteq> CHR ''+''" by (auto simp: isspace_def char_code_def)
  have "dropWhile isspace ?t = ?t" using start(1) by (simp add: c)
  moreover have "split_sign ?t = (False, ?t)" using start(2,3) by (simp add: c split_sign_def)
  moreover have "skip_prefix 10 ?t = ?t" by (simp add: skip_prefix_def split: list.split)
  ultimately have "strtol 10 (show_nat n @ CHR ''/'' # r) = int n"
    using assms digits_of_show [of n "c_str r"] by (simp add: strtol_def cstr)
  with digits_of_show [of n "c_str r"] assms show ?thesis
    by (simp add: atoi_def long_to_int_def signed_take_bit_int_eq_self)
qed

definition port_part :: "uri \<Rightarrow> string" where
  "port_part u = (if isDefaultPort u then [] else '':'' @ show_int (sint (u_port u)))"

text \<open>From the end of the host to the first slash of the path.\<close>

lemma read_port:
  assumes cs: "cs = 520 \<or> cs = 523" and at: "rest_at B q (host @ port @ CHR ''/'' # rest)" and len: "length B \<le> max_string"
    and p: "p = q + length host" and port: "port = [] \<or> (\<exists>n. port = CHR '':'' # show_nat n \<and> n < 2 ^ 31 \<and> v = of_nat n)"
    and none: "port = [] \<longrightarrow> v = u_port u"
  shows "machine_run (uri_machine B) w cs p (port @ CHR ''/'' # rest) (Inr (Some q, u)) =
    machine_run (uri_machine B) w 513 (Suc (p + length port)) rest
      (Inr (Some (p + length port), u\<lparr>u_host := host, u_port := v\<rparr>))"
proof -
  have host: "mark_string B (Some q) p = Inr host" by (rule mark_string_at [OF at len p])
  show ?thesis
  proof (cases "port = []")
    case True
    then show ?thesis using cs host none by (auto simp: uri_goes [THEN uri_step] uri_trans)
  next
    case False
    with port obtain n where n: "port = CHR '':'' # show_nat n" "n < 2 ^ 31" "v = of_nat n" by blast
    obtain c ds where c: "show_nat n = c # ds" using show_nat_not_Nil by (cases "show_nat n") auto
    have digits: "in_class digit_class c" "list_all (in_class digit_class) ds"
      using digits_of_show [of n "[]"] c by simp_all
    have loop: "machine_run (uri_machine B) w cs' p' (ds @ buf) s = machine_run (uri_machine B) w cs' (p' + length ds) buf s"
      if "cs' = 542 \<or> cs' = 515" for cs' p' buf s
      using that digits(2) by (intro run_class [where cls = digit_class]) (auto simp: uri_goes)
    have "rest_at B p (CHR '':'' # show_nat n @ CHR ''/'' # rest)"
      using rest_at_append [OF at] n(1) p by simp
    from rest_at_Cons [OF this] have "drop (Suc p) B = show_nat n @ CHR ''/'' # rest" by (simp add: rest_at_def)
    then have "atoi (drop (Suc p) B) = int n" using atoi_digits [OF n(2)] by simp
    then show ?thesis
      using cs host digits(1) n(1,3) c loop by (auto simp: uri_goes [THEN uri_step] uri_trans)
  qed
qed

text \<open>The end of the run and the actions there.\<close>

definition create_of :: "string \<Rightarrow> nat \<times> nat \<times> (uri_error + nat option \<times> uri) \<Rightarrow> uri_error + uri option" where
  "create_of B r =
    (case r of (cs, p, s) \<Rightarrow>
      bindR (if p = length B then fold (\<lambda>a s. bindR s (uri_do B a p)) (eof_actions cs) s else s) (\<lambda>(mark, u).
        if cs = 0 then Inr None else if 451 \<le> cs then Inr (Some u) else Inr None))"

lemma Uri_Create_of: "Uri_Create B = create_of B (machine_run (uri_machine B) False 451 0 B (Inr (None, new_uri)))"
  by (simp add: Uri_Create_def create_of_def)

lemma eof_simps [simp]:
  "eof_actions 513 = [UPath]" "eof_actions 457 = [UQuery]" "eof_actions 454 = [UFragment]"
  "eof_actions 521 = [UMark, UPort, UPath]" "eof_actions 514 = [UMark, UPort, UPath]"
  by (simp_all add: eof_actions_def uri_eof_def)

lemma create_fragment:
  assumes "fs \<noteq> []" "list_all (in_class uquery_class) fs" "rest_at B p fs" "length B \<le> max_string"
  shows "create_of B (machine_run (uri_machine B) w 453 p fs (Inr (None, u))) = Inr (Some (u\<lparr>u_fragment := fs\<rparr>))"
proof -
  have "machine_run (uri_machine B) w 453 p (fs @ []) (Inr (None, u)) =
      machine_run (uri_machine B) w 454 (p + length fs) [] (Inr (Some p, u))"
    by (rule read_word [where a = UMarkA, OF uri_goes(27) _ _ uri_goes(28)])
      (use assms(1,2) in \<open>simp_all add: uri_trans list_all_iff list.set_sel(2)\<close>)
  moreover have "mark_string B (Some p) (p + length fs) = Inr fs" "p + length fs = length B"
    using assms(3,4) mark_string_at [of B p fs "[]"] by (simp_all add: rest_at_length)
  ultimately show ?thesis by (simp add: create_of_def)
qed

definition tail_part :: "char \<Rightarrow> string \<Rightarrow> string" where
  "tail_part c xs = (if xs = [] then [] else c # xs)"

lemma create_query:
  assumes "qs \<noteq> []" "list_all (in_class uquery_class) (qs @ fs)" "rest_at B p (qs @ tail_part (CHR ''#'') fs)"
    and "length B \<le> max_string" "u_fragment u = []"
  shows "create_of B (machine_run (uri_machine B) w 456 p (qs @ tail_part (CHR ''#'') fs) (Inr (None, u))) =
    Inr (Some (u\<lparr>u_query := qs, u_fragment := fs\<rparr>))"
proof -
  have run: "machine_run (uri_machine B) w 456 p (qs @ buf) (Inr (None, u)) =
      machine_run (uri_machine B) w 457 (p + length qs) buf (Inr (Some p, u))" for buf
    by (rule read_word [where a = UMarkA, OF uri_goes(24) _ _ uri_goes(25)])
      (use assms(1,2) in \<open>simp_all add: uri_trans list_all_iff list.set_sel(2)\<close>)
  have piece: "mark_string B (Some p) (p + length qs) = Inr qs" by (rule mark_string_at [OF assms(3,4)]) simp
  show ?thesis
  proof (cases "fs = []")
    case True
    then have "p + length qs = length B" using assms(3) by (simp add: tail_part_def rest_at_length)
    with True piece assms(5) show ?thesis by (simp add: tail_part_def run [of "[]", simplified] create_of_def)
  next
    case False
    have at: "rest_at B (Suc (p + length qs)) fs"
      using rest_at_Cons [of B _ "CHR ''#''" fs] rest_at_append [OF assms(3)] False by (simp add: tail_part_def)
    show ?thesis
      using False piece create_fragment [OF False _ at assms(4)] assms(2)
      by (simp add: tail_part_def run uri_goes [THEN uri_step] uri_trans)
  qed
qed

lemma create_path:
  assumes "list_all (in_class upath_class) ps" "list_all (in_class uquery_class) (qs @ fs)"
    and at: "rest_at B q (CHR ''/'' # ps @ tail_part (CHR ''?'') qs @ tail_part (CHR ''#'') fs)"
    and "length B \<le> max_string" "u_query u = []" "u_fragment u = []"
  shows "create_of B (machine_run (uri_machine B) w 513 (Suc q)
      (ps @ tail_part (CHR ''?'') qs @ tail_part (CHR ''#'') fs) (Inr (Some q, u))) =
    Inr (Some (u\<lparr>u_path := CHR ''/'' # ps, u_query := qs, u_fragment := fs\<rparr>))"
proof -
  have run: "machine_run (uri_machine B) w 513 (Suc q) (ps @ buf) s =
      machine_run (uri_machine B) w 513 (Suc q + length ps) buf s" for buf s
    using assms(1) by (intro run_class [where cls = upath_class]) (simp_all add: uri_goes)
  have piece: "mark_string B (Some q) (Suc (q + length ps)) = Inr (CHR ''/'' # ps)"
    using at by (intro mark_string_at [OF _ assms(4)]) simp_all
  have after: "rest_at B (Suc (q + length ps)) (tail_part (CHR ''?'') qs @ tail_part (CHR ''#'') fs)"
    using rest_at_append [of B q "CHR ''/'' # ps"] at by simp
  consider (q) "qs \<noteq> []" | (f) "qs = []" "fs \<noteq> []" | (none) "qs = []" "fs = []" by blast
  then show ?thesis
  proof cases
    case q
    have "rest_at B (Suc (Suc (q + length ps))) (qs @ tail_part (CHR ''#'') fs)"
      using rest_at_Cons [of B _ "CHR ''?''"] after q by (simp add: tail_part_def)
    from create_query [OF q assms(2) this assms(4)] q piece assms(6) show ?thesis
      by (simp add: tail_part_def [of _ qs] run uri_goes [THEN uri_step] uri_trans)
  next
    case f
    have "rest_at B (Suc (Suc (q + length ps))) fs"
      using rest_at_Cons [of B _ "CHR ''#''"] after f by (simp add: tail_part_def)
    from create_fragment [OF f(2) _ this assms(4)] f piece assms(2,5) show ?thesis
      by (simp add: tail_part_def run uri_goes [THEN uri_step] uri_trans)
  next
    case none
    with after have "Suc (q + length ps) = length B" by (simp add: tail_part_def rest_at_length)
    with none piece assms(5,6) show ?thesis
      by (simp add: tail_part_def run [of "[]", simplified] create_of_def)
  qed
qed

subsection \<open>What is written is read back\<close>

text \<open>
  A URI with the plain characters of each of its parts, a path, and the port 0 where it is the default
  of the scheme.
\<close>

definition plain_uri :: "uri \<Rightarrow> bool" where
  "plain_uri u \<longleftrightarrow>
    u_scheme u \<noteq> [] \<and> in_class scheme_start (hd (u_scheme u)) \<and> list_all (in_class scheme_class) (tl (u_scheme u)) \<and>
    (u_userinfo u = [] \<or> word_ok (u_userinfo u)) \<and> word_ok (u_host u) \<and>
    0 \<le> sint (u_port u) \<and> (isDefaultPort u \<longrightarrow> u_port u = 0) \<and>
    u_path u \<noteq> [] \<and> hd (u_path u) = CHR ''/'' \<and> list_all (in_class upath_class) (tl (u_path u)) \<and>
    list_all (in_class uquery_class) (u_query u @ u_fragment u)"

lemma port_part_cases:
  assumes "plain_uri u"
  shows "port_part u = [] \<or> (\<exists>n. port_part u = CHR '':'' # show_nat n \<and> n < 2 ^ 31 \<and> u_port u = of_nat n)"
    and "port_part u = [] \<longrightarrow> u_port u = 0"
proof -
  define n where "n = nat (sint (u_port u))"
  have "0 \<le> sint (u_port u)" using assms by (simp add: plain_uri_def)
  then have n: "sint (u_port u) = int n" by (simp add: n_def)
  have "n < 2 ^ 31" using sint_lt [of "u_port u"] n by simp
  moreover have "u_port u = of_nat n" using arg_cong [OF n, of "word_of_int :: int \<Rightarrow> i32"] by simp
  moreover have "show_int (int n) = show_nat n" by (simp add: show_int_def)
  ultimately show "port_part u = [] \<or> (\<exists>n. port_part u = CHR '':'' # show_nat n \<and> n < 2 ^ 31 \<and> u_port u = of_nat n)"
    unfolding port_part_def n by (metis append_Cons append_Nil)
  show "port_part u = [] \<longrightarrow> u_port u = 0" using assms by (simp add: port_part_def plain_uri_def)
qed

lemma uri_toString_parts:
  assumes "u_path u = CHR ''/'' # ps"
  shows "uri_toString u = u_scheme u @ ''://'' @ user_part (u_userinfo u) @ u_host u @ port_part u @
    CHR ''/'' # ps @ tail_part (CHR ''?'') (u_query u) @ tail_part (CHR ''#'') (u_fragment u)"
  using assms by (simp add: uri_toString_def uri_dump_def user_part_def port_part_def uri_getPath_def tail_part_def)

lemma create_plain:
  assumes "plain_uri u" and len: "length (uri_toString u) \<le> max_string"
  shows "Uri_Create (uri_toString u) = Inr (Some u)"
proof -
  obtain ps where ps: "u_path u = CHR ''/'' # ps"
    using assms(1) by (cases "u_path u") (auto simp: plain_uri_def)
  define tail where "tail = ps @ tail_part (CHR ''?'') (u_query u) @ tail_part (CHR ''#'') (u_fragment u)"
  define B where "B = u_scheme u @ ''://'' @ user_part (u_userinfo u) @ u_host u @ port_part u @ CHR ''/'' # tail"
  define p where "p = length (u_scheme u) + 3"
  define q where "q = p + length (user_part (u_userinfo u))"
  have written: "uri_toString u = B" by (simp add: uri_toString_parts [OF ps] B_def tail_def)
  have B: "length B \<le> max_string" using len by (simp add: written)
  have plain: "u_userinfo u = [] \<or> word_ok (u_userinfo u)" "word_ok (u_host u)"
    "list_all (in_class upath_class) ps" "list_all (in_class uquery_class) (u_query u @ u_fragment u)"
    using assms(1) ps by (simp_all add: plain_uri_def)
  have at_p: "rest_at B p (user_part (u_userinfo u) @ u_host u @ port_part u @ CHR ''/'' # tail)"
    by (simp add: rest_at_def B_def p_def)
  have at_q: "rest_at B q (u_host u @ port_part u @ CHR ''/'' # tail)"
    unfolding q_def by (rule rest_at_append [OF at_p])
  have at_path: "rest_at B (q + length (u_host u) + length (port_part u)) (CHR ''/'' # tail)"
    using rest_at_append [OF rest_at_append [OF at_q]] by (simp add: add.assoc)
  let ?u = "new_uri\<lparr>u_scheme := u_scheme u, u_userinfo := u_userinfo u, u_host := u_host u, u_port := u_port u\<rparr>"
  have "machine_run (uri_machine B) False 451 0 B (Inr (None, new_uri)) =
      machine_run (uri_machine B) False 511 p (user_part (u_userinfo u) @ u_host u @ port_part u @ CHR ''/'' # tail)
        (Inr (None, new_uri\<lparr>u_scheme := u_scheme u\<rparr>))"
    unfolding p_def by (rule read_scheme [OF _ _ _ B_def B]) (use assms(1) in \<open>simp_all add: plain_uri_def\<close>)
  also have "\<dots> = machine_run (uri_machine B) False (if u_userinfo u = [] then 520 else 523) (q + length (u_host u))
      (port_part u @ CHR ''/'' # tail) (Inr (Some q, new_uri\<lparr>u_scheme := u_scheme u, u_userinfo := u_userinfo u\<rparr>))"
    using read_host [OF plain(1,2) at_p B, of "new_uri\<lparr>u_scheme := u_scheme u\<rparr>" False]
    by (simp add: q_def new_uri_def add.assoc)
  also have "\<dots> = machine_run (uri_machine B) False 513 (Suc (q + length (u_host u) + length (port_part u))) tail
      (Inr (Some (q + length (u_host u) + length (port_part u)), ?u))"
    using port_part_cases [OF assms(1)]
    by (subst read_port [OF _ at_q B refl port_part_cases(1) [OF assms(1)]]) (simp_all add: new_uri_def)
  finally show ?thesis
    using create_path [OF plain(3,4) at_path [unfolded tail_def] B, of ?u False] ps
    by (simp add: written Uri_Create_of tail_def new_uri_def)
qed

text \<open>
  C19: a URI is read back from its text. For plain parts, \<open>Uri::Create\<close> of what \<open>Uri::toString\<close> writes
  gives the same scheme, user, host, port, path, query and fragment.
\<close>

theorem uri_roundtrip:
  assumes "plain_uri u" and len: "length (uri_toString u) \<le> max_string"
  shows "Uri_Create (uri_toString u) = Inr (Some u)"
  by (rule create_plain [OF assms])

theorem uri_roundtrip_witness:
  "Uri_Create ''http://me@h.org:8080/a/b?k=v#f'' = Inr (Some
    \<lparr>u_scheme = ''http'', u_userinfo = ''me'', u_host = ''h.org'', u_path = ''/a/b'', u_query = ''k=v'',
     u_fragment = ''f'', u_port = 8080\<rparr>)"
proof -
  let ?u = "\<lparr>u_scheme = ''http'', u_userinfo = ''me'', u_host = ''h.org'', u_path = ''/a/b'', u_query = ''k=v'',
     u_fragment = ''f'', u_port = 8080\<rparr>"
  have written: "uri_toString ?u = ''http://me@h.org:8080/a/b?k=v#f''"
    by (simp add: uri_toString_def uri_dump_def isDefaultPort_def uri_getPath_def show_int_def show_nat.simps char_of_def bit_iff_odd)
  have "plain_uri ?u"
    by (simp add: plain_uri_def word_ok_def uri_class_defs in_class_def char_value_def char_code_def isDefaultPort_def)
  moreover have "length (uri_toString ?u) \<le> max_string" by (simp add: written max_string_def)
  ultimately have "Uri_Create (uri_toString ?u) = Inr (Some ?u)" by (rule uri_roundtrip)
  then show ?thesis unfolding written .
qed

subsection \<open>A port that is empty\<close>

text \<open>
  C21: a URI with a colon after its host and no port, followed by its end or a path, is not refused: the
  action of the port sets the mark to null, and the one of the path makes a string of it, so that \<open>Create\<close>
  throws a \<open>std::logic_error\<close>.
\<close>

theorem empty_port_throws:
  assumes "scheme \<noteq> []" "in_class scheme_start (hd scheme)" "list_all (in_class scheme_class) (tl scheme)"
    and "user = [] \<or> word_ok user" "word_ok host" "path = [] \<or> hd path = CHR ''/'' \<and> list_all (in_class upath_class) (tl path)"
    and "B = scheme @ ''://'' @ user_part user @ host @ '':'' @ path" "length B \<le> max_string"
  shows "Uri_Create B = Inl LogicError"
proof -
  define p where "p = length scheme + 3"
  define q where "q = p + length (user_part user)"
  have at_p: "rest_at B p (user_part user @ host @ CHR '':'' # path)"
    by (simp add: rest_at_def assms(7) p_def)
  have at_q: "rest_at B q (host @ CHR '':'' # path)"
    unfolding q_def by (rule rest_at_append [OF at_p])
  have host: "mark_string B (Some q) (q + length host) = Inr host" by (rule mark_string_at [OF at_q assms(8)]) simp
  let ?cs = "if user = [] then 521 else 514 :: nat"
  let ?u = "new_uri\<lparr>u_scheme := scheme, u_userinfo := user, u_host := host\<rparr>"
  have "machine_run (uri_machine B) False 451 0 B (Inr (None, new_uri)) =
      machine_run (uri_machine B) False 511 p (user_part user @ host @ CHR '':'' # path)
        (Inr (None, new_uri\<lparr>u_scheme := scheme\<rparr>))"
    unfolding p_def by (rule read_scheme [OF assms(1-3) _ assms(8)]) (simp add: assms(7))
  also have "\<dots> = machine_run (uri_machine B) False (if user = [] then 520 else 523) (q + length host)
      (CHR '':'' # path) (Inr (Some q, new_uri\<lparr>u_scheme := scheme, u_userinfo := user\<rparr>))"
    using read_host [OF assms(4,5) at_p assms(8), of "new_uri\<lparr>u_scheme := scheme\<rparr>" False]
    by (simp add: q_def new_uri_def add.assoc)
  also have "\<dots> = machine_run (uri_machine B) False ?cs (Suc (q + length host)) path (Inr (Some q, ?u))"
    using host by (simp add: uri_goes [THEN uri_step] uri_trans)
  finally have run: "machine_run (uri_machine B) False 451 0 B (Inr (None, new_uri)) =
      machine_run (uri_machine B) False ?cs (Suc (q + length host)) path (Inr (Some q, ?u))" .
  have total: "length B = Suc (q + length host + length path)" using rest_at_length [OF at_q] by simp
  show ?thesis
  proof (cases path)
    case Nil
    then show ?thesis using total by (simp add: Uri_Create_of run create_of_def mark_string_def)
  next
    case (Cons c ps)
    with assms(6) have ps: "c = CHR ''/''" "list_all (in_class upath_class) ps" by auto
    have "machine_run (uri_machine B) w 513 p' (ps @ []) s = machine_run (uri_machine B) w 513 (p' + length ps) [] s" for w p' s
      using ps(2) by (intro run_class [where cls = upath_class]) (simp_all add: uri_goes)
    then show ?thesis
      using Cons ps(1) total
      by (simp add: Uri_Create_of run uri_goes [THEN uri_step] uri_trans create_of_def mark_string_def)
  qed
qed

theorem empty_port_throws_witness: "Uri_Create ''http://h:/p'' = Inl LogicError"
  by (rule empty_port_throws [where scheme = "''http''" and user = "[]" and host = "''h''" and path = "''/p''"])
    (simp_all add: word_ok_def uri_class_defs in_class_def char_value_def char_code_def user_part_def max_string_def)

end
