(* ===== verification/Http_Connection.thy ===== *)
theory Http_Connection
  imports Http_Session Http_Response_Pieces
begin

text \<open>
  The client's end of a connection, \<open>HttpConnection::recvResponse\<close> and \<open>sendRequest\<close> of
  \<open>src/http/http_connection.cpp\<close>. The conventions are those of \<open>Http_Session\<close>; the buffer has one byte more
  than \<open>buff_size\<close>, for the NUL that the parser wants behind the received bytes. Memory suffices for what stays below
  \<open>max_size()\<close>: \<open>std::bad_alloc\<close> from \<open>body.resize\<close> and \<open>body.append\<close> is not modelled.
\<close>

subsection \<open>Receiving a response\<close>

text \<open>\<open>buff_size - offset\<close>, of type \<open>uint64_t\<close>.\<close>

definition recv_room :: "nat \<Rightarrow> int \<Rightarrow> int" where
  "recv_room buff_size offset = (int buff_size - offset) mod 2 ^ 64"

partial_function (option) recv_response_head ::
    "'s stream_ops \<Rightarrow> nat \<Rightarrow> string \<Rightarrow> int \<Rightarrow> response_parser \<Rightarrow> 's \<Rightarrow>
      ((parse_error + (string \<times> int \<times> response_parser) option) \<times> 's) option" where
  "recv_response_head io buff_size data offset qp s =
    (let (len, bs, s) = so_read io s (recv_room buff_size offset)
     in if len \<le> 0 then Some (Inr None, so_close io s)
        else
          let data = overwrite data (nat offset) bs;
              len = len + offset;
              data = data[nat len := CHR 0x00]
          in (case qp_execute data (nat len) False qp of
                Inl err \<Rightarrow> Some (Inl err, s)
              | Inr (nparse, data, qp) \<Rightarrow>
                  if qp_hasError qp then Some (Inr None, so_close io s)
                  else
                    let offset = to_int (len - int nparse)
                    in if offset = to_int (int buff_size) then Some (Inr None, so_close io s)
                       else if qp_isFinished qp \<noteq> 0 then Some (Inr (Some (data, offset, qp)), s)
                       else recv_response_head io buff_size data offset qp s))"

text \<open>
  The size line of a chunk. A turn reads unless it is the first one and something is left in the buffer; every
  turn starts the parser afresh.
\<close>

definition chunk_more ::
    "'s stream_ops \<Rightarrow> nat \<Rightarrow> bool \<Rightarrow> string \<Rightarrow> int \<Rightarrow> 's \<Rightarrow> (string \<times> int) option \<times> 's" where
  "chunk_more io buff_size first data len s =
    (if \<not> first \<or> len = 0 then
       let (rt, bs, s) = so_read io s (recv_room buff_size len)
       in if rt \<le> 0 then (None, so_close io s) else (Some (overwrite data (nat len) bs, len + rt), s)
     else (Some (data, len), s))"

partial_function (option) chunk_size ::
    "'s stream_ops \<Rightarrow> nat \<Rightarrow> bool \<Rightarrow> string \<Rightarrow> int \<Rightarrow> response_parser \<Rightarrow> 's \<Rightarrow>
      ((parse_error + (string \<times> int \<times> response_parser) option) \<times> 's) option" where
  "chunk_size io buff_size first data len qp s =
    (case chunk_more io buff_size first data len s of
       (None, s) \<Rightarrow> Some (Inr None, s)
     | (Some (data, len), s) \<Rightarrow>
         (case qp_execute (data[nat len := CHR 0x00]) (nat len) True qp of
            Inl err \<Rightarrow> Some (Inl err, s)
          | Inr (nparse, data, qp) \<Rightarrow>
              if qp_hasError qp then Some (Inr None, so_close io s)
              else
                let len = to_int (len - int nparse)
                in if len = to_int (int buff_size) then Some (Inr None, so_close io s)
                   else if qp_isFinished qp \<noteq> 0 then Some (Inr (Some (data, len, qp)), s)
                   else chunk_size io buff_size False data len qp s))"

text \<open>\<open>body.append(data, n)\<close>, the loop that reads what is left of a chunk, and the bytes of a chunk.\<close>

definition body_append :: "string \<Rightarrow> string \<Rightarrow> nat \<Rightarrow> parse_error + string" where
  "body_append body data n =
    (if max_string < length body + n then Inl LengthError else bindR (std_string data 0 n) (\<lambda>t. Inr (body @ t)))"

partial_function (option) chunk_fill ::
    "'s stream_ops \<Rightarrow> nat \<Rightarrow> string \<Rightarrow> string \<Rightarrow> int \<Rightarrow> 's \<Rightarrow>
      ((parse_error + (string \<times> string) option) \<times> 's) option" where
  "chunk_fill io buff_size body data left s =
    (if left > 0 then
       let (rt, bs, s) = so_read io s (if left > to_int (int buff_size) then to_int (int buff_size) else left)
       in if rt \<le> 0 then Some (Inr None, so_close io s)
          else
            let data = overwrite data 0 bs
            in (case body_append body data (nat rt) of
                  Inl err \<Rightarrow> Some (Inl err, s)
                | Inr body \<Rightarrow> chunk_fill io buff_size body data (left - rt) s)
     else Some (Inr (Some (body, data)), s))"

text \<open>\<open>body.resize(body.size() - 2)\<close>: for a shorter body the size wraps around.\<close>

definition drop_crlf :: "string \<Rightarrow> parse_error + string" where
  "drop_crlf body = (if length body < 2 then Inl LengthError else Inr (take (length body - 2) body))"

text \<open>The sum \<open>content_len + 2\<close> is of type \<open>int\<close>.\<close>

definition chunk_data ::
    "'s stream_ops \<Rightarrow> nat \<Rightarrow> string \<Rightarrow> string \<Rightarrow> int \<Rightarrow> int \<Rightarrow> 's \<Rightarrow>
      ((parse_error + (string \<times> string \<times> int) option) \<times> 's) option" where
  "chunk_data io buff_size body data len content_len s =
    (if to_int (content_len + 2) \<le> len then
       (case body_append body data (nat (content_len mod 2 ^ 64)) of
          Inl err \<Rightarrow> Some (Inl err, s)
        | Inr body \<Rightarrow>
            Some (Inr (Some (body, memmove_down data (nat (content_len + 2)) (nat len), len - (content_len + 2))), s))
     else
       (case body_append body data (nat len) of
          Inl err \<Rightarrow> Some (Inl err, s)
        | Inr body \<Rightarrow>
            (case chunk_fill io buff_size body data (to_int (content_len - len + 2)) s of
               None \<Rightarrow> None
             | Some (Inl err, s) \<Rightarrow> Some (Inl err, s)
             | Some (Inr None, s) \<Rightarrow> Some (Inr None, s)
             | Some (Inr (Some (body, data)), s) \<Rightarrow>
                 (case drop_crlf body of
                    Inl err \<Rightarrow> Some (Inl err, s)
                  | Inr body \<Rightarrow> Some (Inr (Some (body, data, 0)), s)))))"

partial_function (option) recv_chunks ::
    "'s stream_ops \<Rightarrow> nat \<Rightarrow> string \<Rightarrow> string \<Rightarrow> int \<Rightarrow> response_parser \<Rightarrow> 's \<Rightarrow>
      ((parse_error + (string \<times> response_parser) option) \<times> 's) option" where
  "recv_chunks io buff_size body data len qp s =
    (case chunk_size io buff_size True data len qp s of
       None \<Rightarrow> None
     | Some (Inl err, s) \<Rightarrow> Some (Inl err, s)
     | Some (Inr None, s) \<Rightarrow> Some (Inr None, s)
     | Some (Inr (Some (data, len, qp)), s) \<Rightarrow>
         (case chunk_data io buff_size body data len (cp_content_len (qp_parser qp)) s of
            None \<Rightarrow> None
          | Some (Inl err, s) \<Rightarrow> Some (Inl err, s)
          | Some (Inr None, s) \<Rightarrow> Some (Inr None, s)
          | Some (Inr (Some (body, data, len)), s) \<Rightarrow>
              if cp_chunks_done (qp_parser qp) then Some (Inr (Some (body, qp)), s)
              else recv_chunks io buff_size body data len qp s))"

text \<open>A body of a known length, as a session receives it.\<close>

definition recv_sized ::
    "'s stream_ops \<Rightarrow> u64 \<Rightarrow> string \<Rightarrow> int \<Rightarrow> 's \<Rightarrow> (parse_error + string option) \<times> 's" where
  "recv_sized io content_length data offset s =
    (let length = sint content_length
     in if length > 0 then
          if max_string < nat length then (Inl LengthError, s)
          else
            let body = replicate (nat length) (CHR 0x00);
                len = (if length \<ge> offset then offset else to_int length);
                body = overwrite body 0 (take (nat len) data);
                left = length - offset
            in if left > 0 then
                 let (r, bs, s) = readFixSize (so_read io) s (nat left)
                 in if r \<le> 0 then (Inr None, so_close io s) else (Inr (Some (overwrite body (nat len) bs)), s)
               else (Inr (Some body), s)
        else (Inr (Some []), s))"

definition response_of :: "response_parser \<Rightarrow> string \<Rightarrow> http_response" where
  "response_of qp body = (if body = [] then qp_data qp else (qp_data qp)\<lparr>rs_body := body\<rparr>)"

text \<open>\<open>mem\<close> and \<open>raw\<close> are what the memory of the new buffer and of the parser held.\<close>

definition recvResponse ::
    "'s stream_ops \<Rightarrow> nat \<Rightarrow> (string \<Rightarrow> u64 option) \<Rightarrow> string \<Rightarrow> httpclient_parser \<Rightarrow> 's \<Rightarrow>
      ((parse_error + http_response option) \<times> 's) option" where
  "recvResponse io buff_size cast mem raw s =
    (case recv_response_head io buff_size mem 0 (new_response_parser raw) s of
       None \<Rightarrow> None
     | Some (Inl err, s) \<Rightarrow> Some (Inl err, s)
     | Some (Inr None, s) \<Rightarrow> Some (Inr None, s)
     | Some (Inr (Some (data, offset, qp)), s) \<Rightarrow>
         if cp_chunked (qp_parser qp) then
           (case recv_chunks io buff_size [] data offset qp s of
              None \<Rightarrow> None
            | Some (Inl err, s) \<Rightarrow> Some (Inl err, s)
            | Some (Inr None, s) \<Rightarrow> Some (Inr None, s)
            | Some (Inr (Some (body, qp)), s) \<Rightarrow> Some (Inr (Some (response_of qp body)), s))
         else
           (case recv_sized io (qp_getContentLength cast qp) data offset s of
              (Inl err, s) \<Rightarrow> Some (Inl err, s)
            | (Inr None, s) \<Rightarrow> Some (Inr None, s)
            | (Inr (Some body), s) \<Rightarrow> Some (Inr (Some (response_of qp body)), s)))"

definition sendRequest :: "'s stream_ops \<Rightarrow> http_request \<Rightarrow> 's \<Rightarrow> int \<times> 's" where
  "sendRequest io rq s = (let data = rq_dump rq in writeFixSize (so_write io) s data (length data))"

subsection \<open>Every response comes to an end\<close>

text \<open>A call of the parser takes no more than it is given, and something if it ends the head.\<close>

lemma qp_execute_bounds:
  assumes ex: "qp_execute data len chunck qp = Inr (n, data', qp')"
  shows "n \<le> len" "length data' = length data"
    and "\<not> qp_hasError qp' \<Longrightarrow> qp_isFinished qp' \<noteq> 0 \<Longrightarrow> chunck \<Longrightarrow> 0 < n"
proof -
  define cp where "cp = (if chunck then httpclient_parser_init (qp_parser qp) else qp_parser qp)"
  obtain m cp' rs err where run: "httpclient_parser_execute response_callbacks data len 0 cp (qp_data qp, qp_error qp) =
      Inr (m, cp', rs, err)" and m: "0 \<le> m" "n = nat m" "data' = memmove_down data n len" and qp': "qp_parser qp' = cp'"
    using ex by (auto simp: qp_execute_def cp_def Let_def bindR_def split: sum.splits if_splits)
  let ?cp = "cp\<lparr>cp_nread := 0, cp_mark := 0, cp_field_len := 0, cp_field_start := 0\<rparr>"
  obtain cs p t where mr: "machine_run (client_machine response_callbacks data len) False (cp_cs cp) 0 (take len data)
      (Inr (?cp, qp_data qp, qp_error qp)) = (cs, p, t)"
    using prod_cases3 by blast
  have len: "len < length data" and t: "\<exists>c d. t = Inr (c, d) \<and> cp' = c\<lparr>cp_cs := cs, cp_nread := cp_nread c + p\<rparr> \<and>
      m = int (cp_nread c + p) \<and> cp_nread c + p \<le> len"
    using run m(1) mr
    by (auto simp: httpclient_parser_execute_def Let_def bindR_def split: if_splits sum.splits)
  then show n: "n \<le> len" using m(2) by auto
  with len show "length data' = length data" by (simp add: m(3) memmove_down_def)
  show "0 < n" if fin: "\<not> qp_hasError qp'" "qp_isFinished qp' \<noteq> 0" and chunck
  proof (rule ccontr)
    assume "\<not> 0 < n"
    with t m(2) have "p = 0" by auto
    with run_still mr have "cs = 0 \<or> cs = cp_cs cp" by metis
    moreover have "cs = 120"
      using fin t by (auto simp: qp' qp_hasError_def qp_isFinished_def httpclient_parser_finish_def
          httpclient_parser_has_error_def httpclient_parser_is_finished_def split: if_splits)
    ultimately show False using \<open>chunck\<close> by (simp add: cp_def httpclient_parser_init_def)
  qed
qed

text \<open>The buffer between two steps.\<close>

definition recv_buffer :: "nat \<Rightarrow> string \<Rightarrow> int \<Rightarrow> bool" where
  "recv_buffer buff_size data len \<longleftrightarrow> length data = Suc buff_size \<and> 0 \<le> len \<and> len \<le> int buff_size"

lemma read_into_buffer:
  assumes io: "reads_from (so_read io) src" and buff: "buff_size < 2 ^ 31"
    and at: "recv_buffer buff_size data offset" "offset < int buff_size"
    and read: "so_read io s (recv_room buff_size offset) = (len, bs, s')" "0 < len"
  shows "recv_buffer buff_size (overwrite data (nat offset) bs) (len + offset)" "length (src s') < length (src s)"
    "nat (len + offset) + length (src s') = nat offset + length (src s)"
proof -
  have n: "recv_room buff_size offset = int buff_size - offset"
    using at buff by (simp add: recv_buffer_def recv_room_def)
  have rd: "len \<le> int buff_size - offset" "int (length bs) = len" "src s = bs @ src s'"
    using reads_fromD [OF io _ read(1)] at(2) read(2) unfolding n by simp_all
  then show "length (src s') < length (src s)" "nat (len + offset) + length (src s') = nat offset + length (src s)"
    using read(2) at(1) by (auto simp: recv_buffer_def nat_add_distrib)
  show "recv_buffer buff_size (overwrite data (nat offset) bs) (len + offset)"
    using rd(1) at read(2) unfolding rd(2) [symmetric] by (auto simp: recv_buffer_def)
qed

lemma execute_in_buffer:
  assumes "buff_size < 2 ^ 31" "recv_buffer buff_size data len"
    and "qp_execute (data[nat len := CHR 0x00]) (nat len) chunck qp = Inr (n, data', qp')"
  shows "recv_buffer buff_size data' (to_int (len - int n))" "to_int (len - int n) = len - int n" "n \<le> nat len"
proof -
  show n: "n \<le> nat len" by (rule qp_execute_bounds(1) [OF assms(3)])
  with assms(1,2) show eq: "to_int (len - int n) = len - int n"
    by (intro to_int_id) (auto simp: recv_buffer_def)
  show "recv_buffer buff_size data' (to_int (len - int n))"
    unfolding eq using n assms(2) qp_execute_bounds(2) [OF assms(3)] by (auto simp: recv_buffer_def le_nat_iff)
qed

lemma buff_size_int:
  assumes "buff_size < 2 ^ 31"
  shows "to_int (int buff_size) = int buff_size"
  using assms by (intro to_int_id) simp_all

lemma recv_response_head_total:
  assumes io: "reads_from (so_read io) src" and buff: "buff_size < 2 ^ 31"
    and at: "recv_buffer buff_size data offset" "offset < int buff_size"
  shows "\<exists>res s'. recv_response_head io buff_size data offset qp s = Some (res, s') \<and>
    (\<forall>data offset qp. res = Inr (Some (data, offset, qp)) \<longrightarrow> recv_buffer buff_size data offset \<and> offset < int buff_size)"
  using at
proof (induction "length (src s)" arbitrary: s data offset qp rule: less_induct)
  case less
  obtain len bs s1 where read: "so_read io s (recv_room buff_size offset) = (len, bs, s1)"
    using prod_cases3 by blast
  show ?case
  proof (cases "0 < len")
    case True
    note into = read_into_buffer [OF io buff less.prems read True]
    show ?thesis
    proof (cases "qp_execute ((overwrite data (nat offset) bs)[nat (len + offset) := CHR 0x00]) (nat (len + offset)) False qp")
      case (Inl err)
      then show ?thesis using True by (subst recv_response_head.simps) (simp add: read)
    next
      case (Inr x)
      obtain n data' qp' where x: "x = (n, data', qp')" by (cases x)
      note ex = execute_in_buffer [OF buff into(1) Inr [unfolded x]]
      have "\<exists>res s'. recv_response_head io buff_size data' (to_int (len + offset - int n)) qp' s1 = Some (res, s') \<and>
          (\<forall>data offset qp. res = Inr (Some (data, offset, qp)) \<longrightarrow>
            recv_buffer buff_size data offset \<and> offset < int buff_size)"
        if "to_int (len + offset - int n) \<noteq> int buff_size"
        using less.hyps [OF into(2) ex(1)] that ex(1) by (simp add: recv_buffer_def)
      then show ?thesis
        using True ex(1) buff_size_int [OF buff]
        by (subst recv_response_head.simps) (auto simp: read Inr x recv_buffer_def Let_def)
    qed
  qed (subst recv_response_head.simps, simp add: read)
qed

text \<open>The size line takes a byte at least: what is buffered and what is in the stream get fewer.\<close>

definition recv_left :: "('s \<Rightarrow> string) \<Rightarrow> int \<Rightarrow> 's \<Rightarrow> nat" where
  "recv_left src len s = nat len + length (src s)"

lemma chunk_more_cases:
  assumes io: "reads_from (so_read io) src" and buff: "buff_size < 2 ^ 31"
    and at: "recv_buffer buff_size data len" "first \<and> len \<noteq> 0 \<or> len < int buff_size"
    and more: "chunk_more io buff_size first data len s = (Some (data', len'), s')"
  shows "recv_buffer buff_size data' len'" "recv_left src len' s' = recv_left src len s"
    "\<not> first \<Longrightarrow> length (src s') < length (src s)" "length (src s') \<le> length (src s)"
  using more at read_into_buffer [OF io buff at(1)] read_into_buffer(2) [OF io buff at(1), THEN less_imp_le]
  by (auto simp: chunk_more_def recv_left_def add.commute split: if_splits prod.splits)

text \<open>The parser keeps the length of a chunk an \<open>int\<close>.\<close>

lemma run_keeps:
  assumes "\<And>a q s. I s \<Longrightarrow> I (m_act M a q s)" "I s"
  shows "case machine_run M w cs p buf s of (cs', p', s') \<Rightarrow> I s'"
proof -
  have "I s \<Longrightarrow> I (fold (\<lambda>a. m_act M a q) acts s)" for acts q s
    by (induction acts arbitrary: s) (simp_all add: assms(1))
  then show ?thesis
    using assms(2) by (intro run_invariant [where I = "\<lambda>_ _. I" and J = "\<lambda>_ _. I" and e = "p + length buf"]) auto
qed

definition content_len_int :: "parse_error + httpclient_parser \<times> 'd \<Rightarrow> bool" where
  "content_len_int s = (case s of Inl _ \<Rightarrow> True | Inr (cp, _) \<Rightarrow> - (2 ^ 31) \<le> cp_content_len cp \<and> cp_content_len cp < 2 ^ 31)"

lemma long_to_int_range: "- (2 ^ 31) \<le> long_to_int v \<and> long_to_int v < 2 ^ 31"
  unfolding long_to_int_def using signed_take_bit_int_greater_eq_minus_exp [of 31 v] signed_take_bit_int_less_exp [of 31 v] by simp

lemma content_len_int_simps [simp]:
  "content_len_int (Inl err)"
  "content_len_int (Inr (cp, d)) \<longleftrightarrow> - (2 ^ 31) \<le> cp_content_len cp \<and> cp_content_len cp < 2 ^ 31"
  by (simp_all add: content_len_int_def)

lemma call_client_int [simp]:
  "content_len_int (Inr (cp, d)) \<Longrightarrow> content_len_int (call_client cb buffer at len (cp, d))"
  by (auto simp: call_client_def bindR_def split: sum.splits option.splits)

lemma client_do_int:
  assumes "content_len_int s"
  shows "content_len_int (bindR s (client_do cb buffer pe a p))"
proof (cases s)
  case (Inr x)
  obtain cp d where x: "x = (cp, d)" by (cases x)
  have cp: "content_len_int (Inr (cp, d))" using assms by (simp add: Inr x)
  have "content_len_int (client_do cb buffer pe a p (cp, d))"
  proof (cases a)
    case CChunkSize
    then show ?thesis
      using long_to_int_range [of "strtol 16 (drop (cp_mark cp) buffer)"] by (simp add: Let_def)
  next
    case CWriteValue
    with cp show ?thesis by (simp add: bindR_def split: option.split sum.split)
  qed (use cp long_to_int_range in \<open>simp_all\<close>)
  then show ?thesis by (simp add: Inr x)
qed simp

lemma qp_execute_int:
  assumes "qp_execute data len True qp = Inr (n, data', qp')"
  shows "- (2 ^ 31) \<le> cp_content_len (qp_parser qp') \<and> cp_content_len (qp_parser qp') < 2 ^ 31"
proof -
  let ?M = "client_machine response_callbacks data len"
  let ?cp = "(httpclient_parser_init (qp_parser qp))\<lparr>cp_nread := 0, cp_mark := 0, cp_field_len := 0, cp_field_start := 0\<rparr>"
  obtain cs p t where run: "machine_run ?M False 1 0 (take len data) (Inr (?cp, qp_data qp, qp_error qp)) = (cs, p, t)"
    using prod_cases3 by blast
  have "content_len_int (Inr (?cp, qp_data qp, qp_error qp))"
    by (simp add: content_len_int_def httpclient_parser_init_def)
  then have "content_len_int t"
    using run_keeps [of content_len_int ?M _ False 1 0 "take len data"] client_do_int run
    by (fastforce simp: client_machine_def)
  then show ?thesis
    using assms run
    by (auto simp: qp_execute_def httpclient_parser_execute_def httpclient_parser_init_def content_len_int_def
        Let_def bindR_def split: sum.splits if_splits)
qed

definition size_read :: "('s \<Rightarrow> string) \<Rightarrow> nat \<Rightarrow> nat \<Rightarrow> (parse_error + (string \<times> int \<times> response_parser) option) \<times> 's \<Rightarrow> bool" where
  "size_read src buff_size k r =
    (\<forall>data len qp s. r = (Inr (Some (data, len, qp)), s) \<longrightarrow>
      recv_buffer buff_size data len \<and> len < int buff_size \<and> recv_left src len s < k \<and>
      - (2 ^ 31) \<le> cp_content_len (qp_parser qp) \<and> cp_content_len (qp_parser qp) < 2 ^ 31)"

lemma chunk_size_total:
  assumes io: "reads_from (so_read io) src" and buff: "buff_size < 2 ^ 31"
    and at: "recv_buffer buff_size data len" "first \<and> len \<noteq> 0 \<or> len < int buff_size"
  shows "\<exists>r. chunk_size io buff_size first data len qp s = Some r \<and> size_read src buff_size (recv_left src len s) r"
  using at
proof (induction "length (src s) + (if first then 1 else 0)" arbitrary: s data len qp first rule: less_induct)
  case less
  show ?case
  proof (cases "chunk_more io buff_size first data len s")
    case (Pair m s1)
    show ?thesis
    proof (cases m)
      case None
      then show ?thesis using Pair by (subst chunk_size.simps) (simp add: size_read_def)
    next
      case (Some y)
      obtain data1 len1 where y: "y = (data1, len1)" by (cases y)
      note more = chunk_more_cases [OF io buff less.prems Pair [unfolded Some y]]
      show ?thesis
      proof (cases "qp_execute (data1[nat len1 := CHR 0x00]) (nat len1) True qp")
        case (Inl err)
        then show ?thesis using Pair Some y by (subst chunk_size.simps) (simp add: size_read_def)
      next
        case (Inr x)
        obtain n data' qp' where x: "x = (n, data', qp')" by (cases x)
        note ex = execute_in_buffer [OF buff more(1) Inr [unfolded x]]
        let ?len = "to_int (len1 - int n)"
        have le: "recv_left src ?len s1 \<le> recv_left src len s"
          using more(2) ex(2) by (simp add: recv_left_def)
        have fin: "size_read src buff_size (recv_left src len s) (Inr (Some (data', ?len, qp')), s1)"
          if "\<not> qp_hasError qp'" "qp_isFinished qp' \<noteq> 0" "?len \<noteq> int buff_size"
          using qp_execute_bounds(3) [OF Inr [unfolded x] that(1,2)] qp_execute_int [OF Inr [unfolded x]] that(3) ex more(1,2)
          by (auto simp: size_read_def recv_left_def recv_buffer_def)
        have "\<exists>r. chunk_size io buff_size False data' ?len qp' s1 = Some r \<and> size_read src buff_size (recv_left src len s) r"
          if "?len \<noteq> int buff_size"
        proof -
          have "length (src s1) + 0 < length (src s) + (if first then 1 else 0)"
            using more(3,4) by (cases first) auto
          with less.hyps [of s1 False data' ?len qp'] ex(1) that obtain r where
            "chunk_size io buff_size False data' ?len qp' s1 = Some r" "size_read src buff_size (recv_left src ?len s1) r"
            by (auto simp: recv_buffer_def)
          with le show ?thesis by (force simp: size_read_def)
        qed
        with fin show ?thesis
          using Pair Some y Inr x buff_size_int [OF buff]
          by (subst chunk_size.simps) (auto simp: Let_def size_read_def)
      qed
    qed
  qed
qed

lemma body_append_length: "body_append body data n = Inr body' \<Longrightarrow> length body' = length body + n"
  by (auto simp: body_append_def std_string_def bindR_def split: if_splits)

text \<open>The bytes that a chunk lacks are read from the stream, exactly.\<close>

definition fill_read :: "('s \<Rightarrow> string) \<Rightarrow> nat \<Rightarrow> string \<Rightarrow> nat \<Rightarrow> 's \<Rightarrow> (parse_error + (string \<times> string) option) \<times> 's \<Rightarrow> bool" where
  "fill_read src buff_size body left s r =
    (\<forall>body' data s'. r = (Inr (Some (body', data)), s') \<longrightarrow>
      length data = Suc buff_size \<and> (\<exists>t. body' = body @ t \<and> src s = t @ src s' \<and> length t = left))"

lemma chunk_fill_total:
  assumes io: "reads_from (so_read io) src" and buff: "0 < buff_size" "buff_size < 2 ^ 31"
    and data: "length data = Suc buff_size"
  shows "\<exists>r. chunk_fill io buff_size body data left s = Some r \<and> fill_read src buff_size body (nat left) s r"
  using data
proof (induction "nat left" arbitrary: s data body left rule: less_induct)
  case less
  show ?case
  proof (cases "0 < left")
    case True
    define n where "n = (if left > int buff_size then int buff_size else left)"
    obtain rt bs s1 where read: "so_read io s n = (rt, bs, s1)" using prod_cases3 by blast
    have n: "0 < n" "n \<le> left" "n \<le> int buff_size" using True buff(1) by (simp_all add: n_def)
    note rd = reads_fromD [OF io n(1) read]
    have step: "chunk_fill io buff_size body data left s =
        (if rt \<le> 0 then Some (Inr None, so_close io s1)
         else case body_append body (overwrite data 0 bs) (nat rt) of
             Inl err \<Rightarrow> Some (Inl err, s1)
           | Inr body \<Rightarrow> chunk_fill io buff_size body (overwrite data 0 bs) (left - rt) s1)"
      using True
      by (subst chunk_fill.simps) (simp only: buff_size_int [OF buff(2)] n_def [symmetric] read Let_def prod.case if_True)
    show ?thesis
    proof (cases "rt \<le> 0")
      case True
      with step show ?thesis by (simp add: fill_read_def)
    next
      case False
      have bs: "nat rt = length bs" "src s = bs @ src s1" "length bs \<le> buff_size" "int (length bs) \<le> left"
        using rd(2-4) False n by simp_all
      have data1: "length (overwrite data 0 bs) = Suc buff_size" using less.prems bs(3) by simp
      show ?thesis
      proof (cases "body_append body (overwrite data 0 bs) (nat rt)")
        case (Inl err)
        with step False show ?thesis by (simp add: fill_read_def)
      next
        case (Inr body1)
        then have body1: "body1 = body @ bs"
          by (auto simp: body_append_def std_string_def bindR_def bs(1) overwrite_def split: if_splits)
        have "nat (left - rt) < nat left" using False True by simp
        from less.hyps [OF this data1, of body1 s1] obtain r where
          r: "chunk_fill io buff_size body1 (overwrite data 0 bs) (left - rt) s1 = Some r"
            "fill_read src buff_size body1 (nat (left - rt)) s1 r" by blast
        have "nat (left - rt) = nat left - length bs" "length bs \<le> nat left" using False bs(1,4) by auto
        with r(2) bs(2) have "fill_read src buff_size body (nat left) s r"
          unfolding fill_read_def body1 by fastforce
        with r(1) step False Inr show ?thesis by simp
      qed
    qed
  qed (subst chunk_fill.simps, simp add: fill_read_def less.prems)
qed

definition data_read :: "('s \<Rightarrow> string) \<Rightarrow> nat \<Rightarrow> nat \<Rightarrow> (parse_error + (string \<times> string \<times> int) option) \<times> 's \<Rightarrow> bool" where
  "data_read src buff_size k r =
    (\<forall>body data len s. r = (Inr (Some (body, data, len)), s) \<longrightarrow>
      recv_buffer buff_size data len \<and> len < int buff_size \<and> recv_left src len s \<le> k)"

lemma drop_crlf_length: "drop_crlf body = Inr body' \<Longrightarrow> body' = take (length body - 2) body"
  by (auto simp: drop_crlf_def split: if_splits)

lemma chunk_data_total:
  assumes io: "reads_from (so_read io) src" and buff: "0 < buff_size" "buff_size < 2 ^ 30"
    and at: "recv_buffer buff_size data len" "len < int buff_size" and n: "- (2 ^ 31) \<le> n" "n < 2 ^ 31"
  shows "\<exists>r. chunk_data io buff_size body data len n s = Some r \<and> data_read src buff_size (recv_left src len s) r"
proof (cases "to_int (n + 2) \<le> len")
  case True
  show ?thesis
  proof (cases "body_append body data (nat (n mod 2 ^ 64))")
    case (Inr body1)
    then have le: "nat (n mod 2 ^ 64) \<le> length data"
      by (auto simp: body_append_def std_string_def bindR_def split: if_splits)
    have "0 \<le> n"
    proof (rule ccontr)
      assume "\<not> 0 \<le> n"
      have "n mod 2 ^ 64 = (n + 2 ^ 64) mod 2 ^ 64" by simp
      also have "\<dots> = n + 2 ^ 64" using n \<open>\<not> 0 \<le> n\<close> by (intro mod_pos_pos_trivial) simp_all
      finally have "n mod 2 ^ 64 = n + 2 ^ 64" .
      with le at buff n show False by (simp add: recv_buffer_def)
    qed
    with n have "n mod 2 ^ 64 = n" by (intro mod_pos_pos_trivial) simp_all
    with le at buff have "n \<le> int buff_size + 1" by (simp add: recv_buffer_def)
    then have ti: "to_int (n + 2) = n + 2" using \<open>0 \<le> n\<close> buff by (intro to_int_id) simp_all
    have "length (memmove_down data (nat (n + 2)) (nat len)) = length data"
      using True ti at by (simp add: memmove_down_def recv_buffer_def)
    with True ti Inr \<open>0 \<le> n\<close> at show ?thesis
      by (auto simp: chunk_data_def data_read_def recv_buffer_def recv_left_def)
  qed (use True in \<open>simp add: chunk_data_def data_read_def\<close>)
next
  case False
  show ?thesis
  proof (cases "body_append body data (nat len)")
    case (Inr body1)
    obtain r where r: "chunk_fill io buff_size body1 data (to_int (n - len + 2)) s = Some r"
      "fill_read src buff_size body1 (nat (to_int (n - len + 2))) s r"
      using chunk_fill_total [OF io buff(1)] buff(2) at by (force simp: recv_buffer_def)
    obtain t s1 where t: "r = (t, s1)" by (cases r)
    have "recv_buffer buff_size data' 0 \<and> recv_left src 0 s1 \<le> recv_left src len s"
      if "t = Inr (Some (body', data'))" for body' data'
      using r(2) that at by (auto simp: fill_read_def t recv_buffer_def recv_left_def)
    with r(1) t False Inr buff(1) show ?thesis
      by (auto simp: chunk_data_def data_read_def split: sum.split option.split)
  qed (use False in \<open>simp add: chunk_data_def data_read_def\<close>)
qed

lemma recv_chunks_total:
  assumes io: "reads_from (so_read io) src" and buff: "0 < buff_size" "buff_size < 2 ^ 30"
    and at: "recv_buffer buff_size data len" "len < int buff_size"
  shows "\<exists>r. recv_chunks io buff_size body data len qp s = Some r"
  using at
proof (induction "recv_left src len s" arbitrary: s body data len qp rule: less_induct)
  case less
  have "buff_size < 2 ^ 31" using buff(2) by simp
  from chunk_size_total [OF io this less.prems(1), of True] less.prems(2) obtain r where
    r: "chunk_size io buff_size True data len qp s = Some r" "size_read src buff_size (recv_left src len s) r"
    by blast
  consider (err) err s1 where "r = (Inl err, s1)" | (null) s1 where "r = (Inr None, s1)"
    | (line) data1 len1 qp1 s1 where "r = (Inr (Some (data1, len1, qp1)), s1)"
    by (cases r) (metis sum.exhaust option.exhaust prod_cases3)
  then show ?case
  proof cases
    case line
    with r(2) have at1: "recv_buffer buff_size data1 len1" "len1 < int buff_size" "recv_left src len1 s1 < recv_left src len s"
      and n: "- (2 ^ 31) \<le> cp_content_len (qp_parser qp1)" "cp_content_len (qp_parser qp1) < 2 ^ 31"
      by (auto simp: size_read_def)
    from chunk_data_total [OF io buff at1(1,2) n] obtain t where
      t: "chunk_data io buff_size body data1 len1 (cp_content_len (qp_parser qp1)) s1 = Some t"
        "data_read src buff_size (recv_left src len1 s1) t" by blast
    consider (err) err s2 where "t = (Inl err, s2)" | (null) s2 where "t = (Inr None, s2)"
      | (data) body2 data2 len2 s2 where "t = (Inr (Some (body2, data2, len2)), s2)"
      by (cases t) (metis sum.exhaust option.exhaust prod_cases3)
    then show ?thesis
    proof cases
      case data
      with t(2) at1(3) have "recv_buffer buff_size data2 len2" "len2 < int buff_size"
        "recv_left src len2 s2 < recv_left src len s"
        by (auto simp: data_read_def)
      from less.hyps [OF this(3,1,2), of body2 qp1] show ?thesis
        using r(1) t(1) line data by (subst recv_chunks.simps) simp
    qed (subst recv_chunks.simps, use r(1) t(1) line in simp)+
  qed (subst recv_chunks.simps, use r(1) in simp)+
qed

text \<open>
  Whatever a stream of finite length carries, however its reads cut it, \<open>recvResponse\<close> returns: its four
  loops, over the head, the size lines, the bytes of a chunk and the chunks, all come to an end.
\<close>

lemma recv_response_returns:
  assumes io: "reads_from (so_read io) src" and buff: "0 < buff_size" "buff_size < 2 ^ 30"
    and mem: "length mem = Suc buff_size"
  shows "\<exists>res s'. recvResponse io buff_size cast mem raw s = Some (res, s')"
proof -
  have b: "buff_size < 2 ^ 31" using buff(2) by simp
  obtain res s1 where run: "recv_response_head io buff_size mem 0 (new_response_parser raw) s = Some (res, s1)"
    and out: "\<And>data offset qp. res = Inr (Some (data, offset, qp)) \<Longrightarrow> recv_buffer buff_size data offset \<and> offset < int buff_size"
    using recv_response_head_total [OF io b, of mem 0 "new_response_parser raw" s] mem buff(1)
    by (auto simp: recv_buffer_def)
  consider (err) err where "res = Inl err" | (null) "res = Inr None"
    | (head) data offset qp where "res = Inr (Some (data, offset, qp))"
    by (metis sum.exhaust option.exhaust prod_cases3)
  then show ?thesis
  proof cases
    case head
    with out have at: "recv_buffer buff_size data offset" "offset < int buff_size" by blast+
    obtain t s2 where "recv_chunks io buff_size [] data offset qp s1 = Some (t, s2)"
      using recv_chunks_total [OF io buff at, of "[]" qp s1] by auto
    then show ?thesis
      using run head
      by (auto simp: recvResponse_def split: sum.split option.split prod.split)
  qed (use run in \<open>simp_all add: recvResponse_def\<close>)
qed

subsection \<open>A chunked body\<close>

text \<open>A chunk, the digits of its size and its bytes, and the text of one.\<close>

definition chunk_ok :: "string \<times> string \<Rightarrow> bool" where
  "chunk_ok c \<longleftrightarrow> fst c \<noteq> [] \<and> list_all (in_class hex_class) (fst c) \<and> digits_value 16 (fst c) = length (snd c)"

definition chunk_text :: "string \<times> string \<Rightarrow> string" where
  "chunk_text c = fst c @ crlf @ snd c @ crlf"

lemma buffer_front:
  assumes "recv_buffer buff_size data len" "take (nat len) data = xs"
  shows "nat len = length xs" "len = int (length xs)"
    "\<exists>junk. data[nat len := CHR 0x00] = xs @ CHR 0x00 # junk \<and> length (xs @ CHR 0x00 # junk) = Suc buff_size"
proof -
  have k: "nat len < length data" using assms(1) by (auto simp: recv_buffer_def nat_less_iff)
  with assms(2) show n: "nat len = length xs" by auto
  with assms(1) show "len = int (length xs)" by (auto simp: recv_buffer_def)
  have "data[nat len := CHR 0x00] = xs @ CHR 0x00 # drop (Suc (nat len)) data"
    using upd_conv_take_nth_drop [OF k] assms(2) by simp
  moreover have "length (data[nat len := CHR 0x00]) = Suc buff_size" using assms(1) by (simp add: recv_buffer_def)
  ultimately show "\<exists>junk. data[nat len := CHR 0x00] = xs @ CHR 0x00 # junk \<and> length (xs @ CHR 0x00 # junk) = Suc buff_size"
    by metis
qed

lemma buffer_small: "recv_buffer buff_size data len \<Longrightarrow> buff_size < 2 ^ 31 \<Longrightarrow> nat len < int_limit"
  by (auto simp: recv_buffer_def int_limit_def)

text \<open>A size line that the buffer holds whole, in the first turn or behind a read.\<close>

lemma chunk_size_whole:
  assumes hex: "hex \<noteq> []" "list_all (in_class hex_class) hex" and v: "digits_value 16 hex < 2 ^ 31"
    and more: "chunk_more io buff_size first data len s = (Some (data1, len1), s1)"
    and at: "recv_buffer buff_size data1 len1" "buff_size < 2 ^ 31" and front: "take (nat len1) data1 = hex @ crlf @ rest"
    and err: "qp_error qp = 0"
  shows "\<exists>data' qp'. chunk_size io buff_size first data len qp s = Some (Inr (Some (data', int (length rest), qp')), s1) \<and>
    recv_buffer buff_size data' (int (length rest)) \<and> take (length rest) data' = rest \<and> qp_data qp' = qp_data qp \<and>
    qp_error qp' = 0 \<and> cp_content_len (qp_parser qp') = int (digits_value 16 hex) \<and>
    (cp_chunks_done (qp_parser qp') \<longleftrightarrow> digits_value 16 hex = 0)"
proof -
  let ?n = "int (digits_value 16 hex)"
  note len = buffer_front(1,2) [OF at(1) front]
  from buffer_front(3) [OF at(1) front] obtain junk where
    data: "data1[nat len1 := CHR 0x00] = hex @ crlf @ rest @ CHR 0x00 # junk" and size: "length (data1[nat len1 := CHR 0x00]) = Suc buff_size"
    by auto
  have n: "nat len1 = length hex + 2 + length rest" using len(1) by (simp add: crlf_def)
  from chunk_execute [OF hex data n buffer_small [OF at], of qp] obtain data' qp' where
    ex: "qp_execute (data1[nat len1 := CHR 0x00]) (nat len1) True qp = Inr (length hex + 2, data', qp')"
    and qp': "cp_cs (qp_parser qp') = 120" "qp_data qp' = qp_data qp" "qp_error qp' = qp_error qp"
      "cp_content_len (qp_parser qp') = long_to_int (min (2 ^ 63 - 1) ?n)"
      "cp_chunks_done (qp_parser qp') \<longleftrightarrow> cp_content_len (qp_parser qp') \<le> 0"
      "take (length rest) data' = rest" "length data' = length (data1[nat len1 := CHR 0x00])" by blast
  have "long_to_int (min (2 ^ 63 - 1) ?n) = ?n"
    using v signed_31_id [of ?n] by (simp add: long_to_int_def min_def)
  moreover have "to_int (len1 - int (length hex + 2)) = int (length rest)"
    using execute_in_buffer(2) [OF at(2,1) ex] len(2) by (simp add: crlf_def)
  moreover have "length rest < buff_size" using n at(1) by (simp add: recv_buffer_def nat_le_iff [symmetric] le_nat_iff)
  moreover have "\<not> qp_hasError qp'" "qp_isFinished qp' \<noteq> 0"
    using qp'(1,3) err by (simp_all add: qp_hasError_def qp_isFinished_def httpclient_parser_finish_def
        httpclient_parser_has_error_def httpclient_parser_is_finished_def)
  ultimately show ?thesis
    using qp' ex size err buff_size_int [OF at(2)]
    by (subst chunk_size.simps) (auto simp: more Let_def recv_buffer_def)
qed

lemma chunk_data_whole:
  assumes at: "recv_buffer buff_size data len" "buff_size < 2 ^ 30"
    and front: "take (nat len) data = t @ crlf @ rest" and fits: "length body + length t \<le> max_string"
  shows "\<exists>data'. chunk_data io buff_size body data len (int (length t)) s =
      Some (Inr (Some (body @ t, data', int (length rest))), s) \<and>
    recv_buffer buff_size data' (int (length rest)) \<and> take (length rest) data' = rest"
proof -
  note len = buffer_front(1,2) [OF at(1) front]
  have data: "data = t @ crlf @ rest @ drop (nat len) data"
    using front by (metis append_take_drop_id append.assoc)
  have le: "length t + 2 + length rest = nat len" using len(1) by (simp add: crlf_def)
  then have small: "length t + 2 + length rest \<le> buff_size" using at(1) by (simp add: recv_buffer_def nat_le_iff)
  let ?data = "memmove_down data (length t + 2) (nat len)"
  have "take (length rest) (drop (length t + 2) data) = rest"
    by (subst data) (simp add: crlf_def)
  moreover have "nat len - (length t + 2) = length rest" using le by simp
  ultimately have "?data = rest @ drop (length rest) data" by (simp add: memmove_down_def)
  then have move: "take (length rest) ?data = rest" "length ?data = length data"
    using small at(1) by (simp_all add: recv_buffer_def)
  have "take (length t) data = t" by (subst data) simp
  then have "body_append body data (length t) = Inr (body @ t)"
    using fits len le at by (simp add: body_append_def std_string_def recv_buffer_def bindR_def)
  moreover have "to_int (int (length t) + 2) = int (length t) + 2" using small at(2) by (intro to_int_id) simp_all
  moreover have "int (length t) mod 2 ^ 64 = int (length t)" using small at(2) by (intro mod_pos_pos_trivial) simp_all
  moreover have "nat (int (length t) + 2) = length t + 2" by simp
  ultimately have "chunk_data io buff_size body data len (int (length t)) s =
      Some (Inr (Some (body @ t, ?data, int (length rest))), s)"
    using len le unfolding chunk_data_def by simp
  with move at(1) small show ?thesis by (auto simp: recv_buffer_def)
qed

lemma recv_chunks_whole:
  assumes at: "recv_buffer buff_size data len" "buff_size < 2 ^ 30" and cs: "list_all chunk_ok cs" "\<forall>c \<in> set cs. snd c \<noteq> []"
    and final: "chunk_ok (z, [])" and front: "take (nat len) data = concat (map chunk_text cs) @ chunk_text (z, []) @ rest"
    and fits: "length body + length (concat (map snd cs)) \<le> max_string" and err: "qp_error qp = 0"
  shows "\<exists>qp'. recv_chunks io buff_size body data len qp s = Some (Inr (Some (body @ concat (map snd cs), qp')), s) \<and>
    qp_data qp' = qp_data qp"
  using at(1) cs front fits err
proof (induction cs arbitrary: body data len qp)
  case Nil
  have b: "buff_size < 2 ^ 31" using at(2) by simp
  have "len \<noteq> 0" using buffer_front(2) [OF Nil.prems(1,4)] by (simp add: chunk_text_def crlf_def)
  then have more: "chunk_more io buff_size True data len s = (Some (data, len), s)" by (simp add: chunk_more_def)
  have hex: "z \<noteq> []" "list_all (in_class hex_class) z" "digits_value 16 z < 2 ^ 31" "digits_value 16 z = 0"
    using final by (simp_all add: chunk_ok_def)
  have line: "take (nat len) data = z @ crlf @ crlf @ rest" using Nil.prems(4) by (simp add: chunk_text_def)
  from chunk_size_whole [OF hex(1-3) more Nil.prems(1) b line Nil.prems(6)] obtain data1 qp1 where
    one: "chunk_size io buff_size True data len qp s = Some (Inr (Some (data1, int (length (crlf @ rest)), qp1)), s)"
      "recv_buffer buff_size data1 (int (length (crlf @ rest)))" "take (length (crlf @ rest)) data1 = crlf @ rest"
    and qp1: "qp_data qp1 = qp_data qp" "cp_content_len (qp_parser qp1) = int (digits_value 16 z)" "cp_chunks_done (qp_parser qp1)"
    using hex(4) by blast
  have held: "take (nat (int (length (crlf @ rest)))) data1 = [] @ crlf @ rest" using one(3) by (simp only: nat_int append_Nil)
  have room: "length body + length ([] :: string) \<le> max_string" using Nil.prems(5) by simp
  from chunk_data_whole [OF one(2) at(2) held room, of io s] obtain data2 where
    "chunk_data io buff_size body data1 (int (length (crlf @ rest))) (int (length ([] :: string))) s =
      Some (Inr (Some (body @ [], data2, int (length rest))), s)"
    by blast
  then have "recv_chunks io buff_size body data len qp s = Some (Inr (Some (body @ [], qp1)), s)"
    using qp1(2,3) hex(4) by (subst recv_chunks.simps) (simp only: one(1) option.case sum.case prod.case list.size of_nat_0 if_True)
  with qp1(1) show ?case by simp
next
  case (Cons c cs)
  obtain hex t where c: "c = (hex, t)" by (cases c)
  have b: "buff_size < 2 ^ 31" using at(2) by simp
  define R where "R = concat (map chunk_text cs) @ chunk_text (z, []) @ rest"
  have hex: "hex \<noteq> []" "list_all (in_class hex_class) hex" "digits_value 16 hex = length t" "length t \<noteq> 0"
    using Cons.prems(2,3) by (simp_all add: c chunk_ok_def)
  have line: "take (nat len) data = hex @ crlf @ t @ crlf @ R"
    using Cons.prems(4) by (simp add: c chunk_text_def [of "(hex, t)"] R_def)
  note front = buffer_front(1,2) [OF Cons.prems(1) line]
  have "len \<noteq> 0" using front(2) by (simp add: crlf_def)
  then have more: "chunk_more io buff_size True data len s = (Some (data, len), s)" by (simp add: chunk_more_def)
  have "nat len \<le> buff_size" using Cons.prems(1) by (simp add: recv_buffer_def nat_le_iff)
  then have "digits_value 16 hex < 2 ^ 31" using front(1) hex(3) at(2) by simp
  from chunk_size_whole [OF hex(1,2) this more Cons.prems(1) b line Cons.prems(6), unfolded hex(3)]
  obtain data1 qp1 where
    one: "chunk_size io buff_size True data len qp s = Some (Inr (Some (data1, int (length (t @ crlf @ R)), qp1)), s)"
      "recv_buffer buff_size data1 (int (length (t @ crlf @ R)))" "take (length (t @ crlf @ R)) data1 = t @ crlf @ R"
      "qp_data qp1 = qp_data qp" "qp_error qp1 = 0" "cp_content_len (qp_parser qp1) = int (length t)"
      "\<not> cp_chunks_done (qp_parser qp1)"
    using hex(4) by blast
  have held: "take (nat (int (length (t @ crlf @ R)))) data1 = t @ crlf @ R" using one(3) by (simp only: nat_int)
  have room: "length body + length t \<le> max_string" using Cons.prems(5) by (simp add: c)
  from chunk_data_whole [OF one(2) at(2) held room, of io s] obtain data2 where
    two: "chunk_data io buff_size body data1 (int (length (t @ crlf @ R))) (int (length t)) s =
      Some (Inr (Some (body @ t, data2, int (length R))), s)"
    "recv_buffer buff_size data2 (int (length R))" "take (length R) data2 = R"
    by blast
  have ih: "list_all chunk_ok cs" "\<forall>c \<in> set cs. snd c \<noteq> []"
    "take (nat (int (length R))) data2 = concat (map chunk_text cs) @ chunk_text (z, []) @ rest"
    "length (body @ t) + length (concat (map snd cs)) \<le> max_string"
    using Cons.prems(2,3,5) two(3) by (simp_all only: nat_int R_def [symmetric]) (simp_all add: c)
  from Cons.IH [OF two(2) ih one(5)] obtain qp' where
    "recv_chunks io buff_size (body @ t) data2 (int (length R)) qp1 s =
      Some (Inr (Some ((body @ t) @ concat (map snd cs), qp')), s)" "qp_data qp' = qp_data qp1"
    by blast
  moreover from this have "recv_chunks io buff_size body data len qp s =
      Some (Inr (Some ((body @ t) @ concat (map snd cs), qp')), s)"
    using one(6,7) by (subst recv_chunks.simps) (simp only: one(1) two(1) option.case sum.case prod.case if_False)
  ultimately show ?case using one(4) by (simp add: c)
qed

text \<open>
  C35: a chunked body is put together exactly: when the buffer holds the chunks whole, each with a size line that
  says how long it is, and the last one, \<open>recvResponse\<close> joins their bytes in order and reads nothing more.
\<close>

theorem chunked_body_exact:
  assumes "recv_buffer buff_size data len" "buff_size < 2 ^ 30" "qp_error qp = 0"
    and "list_all chunk_ok cs" "\<forall>c \<in> set cs. snd c \<noteq> []" "chunk_ok (z, [])"
    and "take (nat len) data = concat (map chunk_text cs) @ chunk_text (z, []) @ rest"
    and "length (concat (map snd cs)) \<le> max_string"
  shows "\<exists>qp'. recv_chunks io buff_size [] data len qp s = Some (Inr (Some (concat (map snd cs), qp')), s) \<and>
    qp_data qp' = qp_data qp"
  using recv_chunks_whole [OF assms(1,2,4-7) _ assms(3), of "[]"] assms(8) by simp

theorem chunked_body_exact_witness:
  "\<forall>raw io s. \<exists>qp'. recv_chunks io 40 [] (''5'' @ crlf @ ''hello'' @ crlf @ ''6'' @ crlf @ '' world'' @ crlf @ ''0'' @ crlf @ crlf @
      replicate 15 (CHR ''?'')) 26 (new_response_parser raw) (s :: unit) = Some (Inr (Some (''hello world'', qp')), s) \<and>
    qp_data qp' = qp_data (new_response_parser raw)"
proof (intro allI)
  fix raw io and s :: unit
  let ?data = "''5'' @ crlf @ ''hello'' @ crlf @ ''6'' @ crlf @ '' world'' @ crlf @ ''0'' @ crlf @ crlf @ replicate 15 (CHR ''?'')"
  have "\<exists>qp'. recv_chunks io 40 [] ?data 26 (new_response_parser raw) s =
      Some (Inr (Some (concat (map snd [(''5'', ''hello''), (''6'', '' world'')]), qp')), s) \<and>
      qp_data qp' = qp_data (new_response_parser raw)"
    by (rule chunked_body_exact [where z = "''0''" and rest = "[]"])
      (simp_all add: recv_buffer_def crlf_def new_response_parser_def chunk_ok_def chunk_text_def in_class_def hex_class_def
        char_value_def char_code_def digits_value_def digit_of_def Let_def max_string_def)
  then show "\<exists>qp'. recv_chunks io 40 [] ?data 26 (new_response_parser raw) s =
      Some (Inr (Some (''hello world'', qp')), s) \<and> qp_data qp' = qp_data (new_response_parser raw)" by simp
qed

subsection \<open>A size line that two reads bring\<close>

lemma chunk_line_part:
  assumes hex: "hex \<noteq> []" "list_all (in_class hex_class) hex"
  shows "machine_run (client_reader B e) w 1 0 hex (Inr (cp, d)) = (2, length hex, Inr (cp\<lparr>cp_mark := 0\<rparr>, d))"
proof -
  obtain c hex' where c: "hex = c # hex'" using hex(1) by (cases hex) auto
  have "machine_run (client_reader B e) w 2 (Suc 0) (hex' @ []) t =
      machine_run (client_reader B e) w 2 (Suc 0 + length hex') [] t" for t
    using hex(2) c by (intro run_class [where cls = hex_class]) (simp_all add: chunk_goes)
  with c hex(2) show ?thesis by (simp add: chunk_goes [THEN client_step] client_trans One_nat_def [symmetric] del: One_nat_def)
qed

lemma part_execute:
  assumes hex: "hex \<noteq> []" "list_all (in_class hex_class) hex" and data: "data = hex @ CHR 0x00 # junk"
    and small: "length hex < int_limit"
  shows "\<exists>data' qp'. qp_execute data (length hex) True qp = Inr (length hex, data', qp') \<and>
    cp_cs (qp_parser qp') = 2 \<and> qp_data qp' = qp_data qp \<and> qp_error qp' = qp_error qp \<and> length data' = length data"
  using chunk_line_part [OF hex, of data "length hex" False] hex(1) same_distance_small [OF _ small, of 0]
  by (simp add: data qp_execute_def httpclient_parser_execute_def httpclient_parser_init_def Let_def memmove_down_def)

text \<open>
  C36: the parser is started afresh on every turn, so of a size line that two reads bring only the second part
  counts: a chunk announced as \<open>h1 @ h2\<close> is taken for one of the size \<open>h2\<close>, and for the last one if that is 0.
\<close>

theorem split_size_line:
  assumes "h1 \<noteq> []" "list_all (in_class hex_class) h1" "h2 \<noteq> []" "list_all (in_class hex_class) h2"
    and "digits_value 16 h2 < 2 ^ 31" and "reads_from (so_read io) src"
    and "recv_buffer buff_size data len" "buff_size < 2 ^ 31" "qp_error qp = 0" "take (nat len) data = h1"
    and "so_read io s (int buff_size) = (k, h2 @ crlf @ rest, s')" "0 < k"
  shows "\<exists>data' qp'. chunk_size io buff_size True data len qp s = Some (Inr (Some (data', int (length rest), qp')), s') \<and>
    take (length rest) data' = rest \<and> cp_content_len (qp_parser qp') = int (digits_value 16 h2) \<and>
    (cp_chunks_done (qp_parser qp') \<longleftrightarrow> digits_value 16 h2 = 0)"
proof -
  have len: "nat len = length h1" "len = int (length h1)" by (rule buffer_front [OF assms(7,10)])+
  have b: "0 < buff_size" using assms(1,7) len(2) by (cases h1) (auto simp: recv_buffer_def)
  obtain junk where front: "data[nat len := CHR 0x00] = h1 @ CHR 0x00 # junk" "length (h1 @ CHR 0x00 # junk) = Suc buff_size"
    using buffer_front(3) [OF assms(7,10)] by blast
  from part_execute [OF assms(1,2) front(1) buffer_small [OF assms(7,8), unfolded len(1)], of qp] obtain data1 qp1 where
    ex: "qp_execute (data[nat len := CHR 0x00]) (nat len) True qp = Inr (length h1, data1, qp1)"
    and cs: "cp_cs (qp_parser qp1) = 2" "qp_error qp1 = qp_error qp" "length data1 = length (data[nat len := CHR 0x00])"
    unfolding len(1) by blast
  then have qp1: "cp_cs (qp_parser qp1) = 2" "qp_error qp1 = 0" "length data1 = Suc buff_size"
    using assms(7,9) by (simp_all add: recv_buffer_def)
  have "len \<noteq> 0" using assms(1) len(2) by simp
  then have more: "chunk_more io buff_size True data len s = (Some (data, len), s)" by (simp add: chunk_more_def)
  have still: "\<not> qp_hasError qp1" "qp_isFinished qp1 = 0"
    using qp1 by (simp_all add: qp_hasError_def qp_isFinished_def httpclient_parser_finish_def
        httpclient_parser_has_error_def httpclient_parser_is_finished_def)
  have "to_int (len - int (length h1)) = 0" by (simp add: len(2) to_int_id)
  then have next_turn: "chunk_size io buff_size True data len qp s = chunk_size io buff_size False data1 0 qp1 s"
    using ex still b buff_size_int [OF assms(8)] by (subst chunk_size.simps) (simp add: more Let_def)
  have at1: "recv_buffer buff_size data1 0" using qp1(3) by (simp add: recv_buffer_def)
  have room: "recv_room buff_size 0 = int buff_size" using assms(8) by (simp add: recv_room_def)
  let ?data = "overwrite data1 0 (h2 @ crlf @ rest)"
  have more1: "chunk_more io buff_size False data1 0 s = (Some (?data, k), s')"
    using assms(11,12) by (simp add: chunk_more_def room)
  have at2: "recv_buffer buff_size ?data k"
    using chunk_more_cases(1) [OF assms(6,8) at1 _ more1] b by simp
  have "int (length (h2 @ crlf @ rest)) = k" using reads_fromD(3) [OF assms(6) _ assms(11,12)] b by simp
  then have "take (nat k) ?data = h2 @ crlf @ rest" by (auto simp: overwrite_def)
  from chunk_size_whole [OF assms(3-5) more1 at2 assms(8) this qp1(2)] show ?thesis
    unfolding next_turn by (elim exE conjE) (intro exI conjI)
qed

theorem split_size_line_witness:
  "\<forall>raw. \<exists>data' qp'. chunk_size wire_ops 40 True (''1'' @ replicate 40 (CHR ''?'')) 1 (new_response_parser raw)
      (''0'' @ crlf @ ''x'', []) = Some (Inr (Some (data', int (length ''x''), qp')), ([], [])) \<and>
    take (length ''x'') data' = ''x'' \<and> cp_content_len (qp_parser qp') = int (digits_value 16 ''0'') \<and>
    (cp_chunks_done (qp_parser qp') \<longleftrightarrow> digits_value 16 ''0'' = 0)"
  by (rule allI, rule split_size_line [where ?h1.0 = "''1''" and src = fst and buff_size = 40 and k = 4])
    (simp_all add: wire_reads(1), simp_all add: recv_buffer_def crlf_def new_response_parser_def in_class_def hex_class_def char_value_def
      char_code_def digits_value_def digit_of_def Let_def wire_ops_def)

end
