(* ===== verification/Http_Client.thy ===== *)
theory Http_Client
  imports Http_Connection Uri_Wire
begin

text \<open>
  Requests of a client, the static functions of \<open>HttpConnection\<close> in \<open>src/http/http_connection.cpp\<close> and
  \<open>HttpResult\<close> of \<open>inc/http/http_connection.h\<close>: a URI is parsed, its host looked up, a socket connected, the
  request sent and the response received; what goes wrong is a code and a text. The overloads of a name are
  told apart by what they take.
\<close>

subsection \<open>Results\<close>

datatype http_error =
  OK | INVALID_URL | INVALID_HOST | CONNECT_FAIL | SEND_CLOSE_BY_PEER | SEND_SOCKET_ERROR | TIMEOUT
| CREATE_SOCKET_ERROR | POOL_GET_CONNECTION | POOL_INVALID_CONNECTION

definition error_code :: "http_error \<Rightarrow> int" where
  "error_code e =
    (case e of OK \<Rightarrow> 0 | INVALID_URL \<Rightarrow> 1 | INVALID_HOST \<Rightarrow> 2 | CONNECT_FAIL \<Rightarrow> 3 | SEND_CLOSE_BY_PEER \<Rightarrow> 4
     | SEND_SOCKET_ERROR \<Rightarrow> 5 | TIMEOUT \<Rightarrow> 6 | CREATE_SOCKET_ERROR \<Rightarrow> 7 | POOL_GET_CONNECTION \<Rightarrow> 8
     | POOL_INVALID_CONNECTION \<Rightarrow> 9)"

record http_result =
  hr_result :: int
  hr_response :: "http_response option"
  hr_error :: string

definition new_result :: "http_error \<Rightarrow> http_response option \<Rightarrow> string \<Rightarrow> http_result" where
  "new_result e rs text = \<lparr>hr_result = error_code e, hr_response = rs, hr_error = text\<rparr>"

definition hr_toString :: "http_result \<Rightarrow> string" where
  "hr_toString r =
    ''[HttpResult result='' @ show_int (hr_result r) @ '' error='' @ hr_error r @ '' response='' @
    (case hr_response r of None \<Rightarrow> ''nullptr'' | Some rs \<Rightarrow> rs_dump rs) @ '']''"

text \<open>What the code calls or finds outside, and what it throws.\<close>

record ('i, 'k) client_env =
  ce_endian :: endian
  ce_gai :: "'i getaddrinfo"
  ce_hints :: 'i
  ce_os :: "'k sock_calls"
  ce_recv :: "int \<Rightarrow> nat \<Rightarrow> int \<Rightarrow> 'k \<Rightarrow> (int \<times> char list) \<times> 'k"
  ce_send :: "int \<Rightarrow> char list \<Rightarrow> int \<Rightarrow> 'k \<Rightarrow> (int \<times> unit) \<times> 'k"
  ce_strerror :: "int \<Rightarrow> string"
  ce_clock :: "'k \<Rightarrow> u64"
  ce_buff_size :: nat
  ce_cast :: "string \<Rightarrow> u64 option"
  ce_mem :: string
  ce_raw :: httpclient_parser

datatype client_error = UriThrows uri_error | ParserThrows parse_error | NullPointer

definition env_ops :: "('i, 'k) client_env \<Rightarrow> (socket_stream \<times> 'k) stream_ops" where
  "env_ops env = socket_ops (ce_recv env) (ce_send env) (ce_os env)"

definition errno_text :: "('i, 'k) client_env \<Rightarrow> 'k \<Rightarrow> string" where
  "errno_text env k =
    show_int (os_errno (ce_os env) k) @ '' errstr='' @ ce_strerror env (os_errno (ce_os env) k)"

subsection \<open>One request over a connection\<close>

datatype answer = PeerClosed | SendFailed string | NoAnswer | Answered http_response

definition exchange ::
    "('i, 'k) client_env \<Rightarrow> http_request \<Rightarrow> socket_stream \<Rightarrow> 'k \<Rightarrow> ((parse_error + answer) \<times> socket_stream \<times> 'k) option" where
  "exchange env rq ss k =
    (let (rt, ss, k) = sendRequest (env_ops env) rq (ss, k)
     in if rt = 0 then Some (Inr PeerClosed, ss, k)
        else if rt < 0 then Some (Inr (SendFailed (errno_text env k)), ss, k)
        else
          (case recvResponse (env_ops env) (ce_buff_size env) (ce_cast env) (ce_mem env) (ce_raw env) (ss, k) of
             None \<Rightarrow> None
           | Some (Inl err, ss, k) \<Rightarrow> Some (Inl err, ss, k)
           | Some (Inr None, ss, k) \<Rightarrow> Some (Inr NoAnswer, ss, k)
           | Some (Inr (Some rs), ss, k) \<Rightarrow> Some (Inr (Answered rs), ss, k)))"

text \<open>The end of a stream and its socket: the stream closes what it owns, and the socket closes itself.\<close>

definition drop_socket :: "'k sock_calls \<Rightarrow> socket \<Rightarrow> 'k \<Rightarrow> 'k" where
  "drop_socket os s k = snd (snd (sock_close os s k))"

definition drop_stream :: "'k sock_calls \<Rightarrow> socket_stream \<Rightarrow> 'k \<Rightarrow> 'k" where
  "drop_stream os ss k =
    (let (ss, k) = destroy_stream os ss k
     in case ss_socket ss of None \<Rightarrow> k | Some s \<Rightarrow> drop_socket os s k)"

text \<open>\<open>CreateTCP\<close> gives a socket whatever the address, so that \<open>CREATE_SOCKET_ERROR\<close> is never reached.\<close>

definition DoRequest ::
    "('i, 'k) client_env \<Rightarrow> http_request \<Rightarrow> uri \<Rightarrow> u64 \<Rightarrow> 'k \<Rightarrow> ((client_error + http_result) \<times> 'k) option" where
  "DoRequest env rq u timeout_ms k =
    (case createAddress (ce_endian env) (ce_gai env) (ce_hints env) u of
       None \<Rightarrow> Some (Inr (new_result INVALID_HOST None (''invalid host: '' @ u_host u)), k)
     | Some addr \<Rightarrow>
         (let os = ce_os env;
              addr_text = addr_toString (ce_endian env) addr;
              (ok, sock, k) = sock_connect (ce_endian env) os (CreateTCP addr) addr (- 1) k
          in if \<not> ok then
               Some (Inr (new_result CONNECT_FAIL None (''connect fail: '' @ addr_text)), drop_socket os sock k)
             else
               (case exchange env rq (new_stream (Some sock) True) (setRecvTimeout os sock (sint timeout_ms) k) of
                  None \<Rightarrow> None
                | Some (Inl err, ss, k) \<Rightarrow> Some (Inl (ParserThrows err), drop_stream os ss k)
                | Some (Inr ans, ss, k) \<Rightarrow>
                    Some (Inr (case ans of
                        PeerClosed \<Rightarrow> new_result SEND_CLOSE_BY_PEER None (''send request: peer closed. : '' @ addr_text)
                      | SendFailed text \<Rightarrow> new_result SEND_SOCKET_ERROR None (''send request socket error errno='' @ text)
                      | NoAnswer \<Rightarrow>
                          new_result TIMEOUT None (''recv response timeout: '' @ addr_text @ '' timeout_ms:'' @
                            show_nat (unat timeout_ms))
                      | Answered rs \<Rightarrow> new_result OK (Some rs) ''ok''),
                      drop_stream os ss k))))"

subsection \<open>The request that is sent\<close>

text \<open>The caller's fields, in the order of their map: whether one named a host, and the request with them.\<close>

fun set_headers :: "(string \<times> string) list \<Rightarrow> bool \<Rightarrow> http_request \<Rightarrow> bool \<times> http_request" where
  "set_headers [] has_host rq = (has_host, rq)"
| "set_headers ((k, v) # headers) has_host rq =
    (if strcasecmp k ''connection'' = 0 then
       set_headers headers has_host (if strcasecmp v ''keep-alive'' = 0 then rq\<lparr>rq_close := False\<rparr> else rq)
     else
       set_headers headers (if \<not> has_host \<and> strcasecmp k ''host'' = 0 then v \<noteq> [] else has_host) (rq_setHeader rq k v))"

definition finish_request :: "(string \<times> string) list \<Rightarrow> string \<Rightarrow> string \<Rightarrow> http_request \<Rightarrow> http_request" where
  "finish_request headers host body rq =
    (let (has_host, rq) = set_headers headers False rq;
         rq = (if has_host then rq else rq_setHeader rq ''Host'' host)
     in rq\<lparr>rq_body := body\<rparr>)"

definition uri_request :: "HttpMethod \<Rightarrow> uri \<Rightarrow> (string \<times> string) list \<Rightarrow> string \<Rightarrow> http_request" where
  "uri_request method u headers body =
    finish_request headers (u_host u) body
      ((new_request 0x11 True)\<lparr>rq_path := uri_getPath u, rq_query := u_query u, rq_fragment := u_fragment u, rq_method := method\<rparr>)"

definition DoRequest_uri ::
    "('i, 'k) client_env \<Rightarrow> HttpMethod \<Rightarrow> uri \<Rightarrow> u64 \<Rightarrow> (string \<times> string) list \<Rightarrow> string \<Rightarrow> 'k \<Rightarrow>
      ((client_error + http_result) \<times> 'k) option" where
  "DoRequest_uri env method u timeout_ms headers body k =
    DoRequest env (uri_request method u headers body) u timeout_ms k"

definition with_url :: "string \<Rightarrow> (uri \<Rightarrow> 'k \<Rightarrow> ((client_error + http_result) \<times> 'k) option) \<Rightarrow> 'k \<Rightarrow>
    ((client_error + http_result) \<times> 'k) option" where
  "with_url url f k =
    (case Uri_Create url of
       Inl err \<Rightarrow> Some (Inl (UriThrows err), k)
     | Inr None \<Rightarrow> Some (Inr (new_result INVALID_URL None (''invalid url: '' @ url)), k)
     | Inr (Some u) \<Rightarrow> f u k)"

definition DoRequest_url ::
    "('i, 'k) client_env \<Rightarrow> HttpMethod \<Rightarrow> string \<Rightarrow> u64 \<Rightarrow> (string \<times> string) list \<Rightarrow> string \<Rightarrow> 'k \<Rightarrow>
      ((client_error + http_result) \<times> 'k) option" where
  "DoRequest_url env method url timeout_ms headers body k =
    with_url url (\<lambda>u. DoRequest_uri env method u timeout_ms headers body) k"

definition DoGet_uri where
  "DoGet_uri env u timeout_ms headers body k = DoRequest_uri env GET u timeout_ms headers body k"

definition DoGet where
  "DoGet env url timeout_ms headers body k = with_url url (\<lambda>u. DoGet_uri env u timeout_ms headers body) k"

definition DoPost_uri where
  "DoPost_uri env u timeout_ms headers body k = DoRequest_uri env POST u timeout_ms headers body k"

definition DoPost where
  "DoPost env url timeout_ms headers body k = with_url url (\<lambda>u. DoPost_uri env u timeout_ms headers body) k"

subsection \<open>The fields that go out\<close>

definition is_named :: "string \<Rightarrow> string \<times> string \<Rightarrow> bool" where
  "is_named name kv \<longleftrightarrow> strcasecmp (fst kv) name = 0"

definition values_of :: "string \<Rightarrow> (string \<times> string) list \<Rightarrow> string list" where
  "values_of name headers = map snd (filter (is_named name) headers)"

lemma set_headers_spec:
  "fst (set_headers hs has_host rq) \<longleftrightarrow> has_host \<or> list_ex (\<lambda>v. v \<noteq> []) (values_of ''host'' (filter (\<lambda>kv. \<not> is_named ''connection'' kv) hs))"
  "rq_headers (snd (set_headers hs has_host rq)) =
    fold (\<lambda>kv. omap_put CaseInsensitiveLess (fst kv) (snd kv)) (filter (\<lambda>kv. \<not> is_named ''connection'' kv) hs) (rq_headers rq)"
  "rq_close (snd (set_headers hs has_host rq)) \<longleftrightarrow>
    rq_close rq \<and> list_all (\<lambda>v. strcasecmp v ''keep-alive'' \<noteq> 0) (values_of ''connection'' hs)"
  by (induction hs has_host rq rule: set_headers.induct)
    (auto simp: values_of_def is_named_def rq_setHeader_def)

lemma host_not_connection: "strcasecmp k ''host'' = 0 \<Longrightarrow> strcasecmp k ''connection'' \<noteq> 0"
proof
  assume "strcasecmp k ''host'' = 0" "strcasecmp k ''connection'' = 0"
  then have "strcasecmp ''host'' ''connection'' = 0" by (simp add: strcasecmp_eq)
  moreover have "strcasecmp ''host'' ''connection'' \<noteq> 0" by code_simp
  ultimately show False by simp
qed

lemma find_rev_values:
  "map_option snd (find (\<lambda>kv. strcasecmp name (fst kv) = 0) (rev hs)) =
    (if values_of name hs = [] then None else Some (last (values_of name hs)))"
  by (induction hs rule: rev_induct)
    (auto simp: values_of_def is_named_def strcasecmp_sym [of name])

lemma fold_put_ok:
  "hdr.map_ok m \<Longrightarrow> hdr.map_ok (fold (\<lambda>kv. omap_put CaseInsensitiveLess (fst kv) (snd kv)) kvs m)"
  by (induction kvs arbitrary: m) (simp_all add: hdr.put_ok)

lemma getHeader_value: "rq_getHeader rq k def = (case hdr.value_at k (rq_headers rq) of None \<Rightarrow> def | Some v \<Rightarrow> v)"
  by (auto simp: rq_getHeader_def hdr.value_at_def split: option.splits)

lemma hasHeader_value: "rq_hasHeader rq k = hdr.value_at k (rq_headers rq)"
  by (auto simp: rq_hasHeader_def hdr.value_at_def split: option.splits)

text \<open>
  C38: the request that \<open>DoRequest\<close> builds carries exactly one host: the last one the caller gave, when one of
  those is not empty, and the host of the URI otherwise. A \<open>connection\<close> field of the caller is never sent: it
  sets \<open>m_close\<close>, which is false just when one of its values is \<open>keep-alive\<close>.
\<close>

theorem request_host:
  "rq_getHeader (uri_request method u headers body) ''host'' [] =
      (if list_all (\<lambda>v. v = []) (values_of ''host'' headers) then u_host u else last (values_of ''host'' headers)) \<and>
    rq_hasHeader (uri_request method u headers body) ''connection'' = None \<and>
    (rq_close (uri_request method u headers body) \<longleftrightarrow>
      list_all (\<lambda>v. strcasecmp v ''keep-alive'' \<noteq> 0) (values_of ''connection'' headers))"
proof -
  let ?rq = "(new_request 0x11 True)\<lparr>rq_path := uri_getPath u, rq_query := u_query u, rq_fragment := u_fragment u, rq_method := method\<rparr>"
  let ?fs = "filter (\<lambda>kv. \<not> is_named ''connection'' kv) headers"
  let ?m = "fold (\<lambda>kv. omap_put CaseInsensitiveLess (fst kv) (snd kv)) ?fs []"
  note set = set_headers_spec [of headers False ?rq]
  have m: "rq_headers (snd (set_headers headers False ?rq)) = ?m" using set(2) by (simp add: new_request_def)
  have ok: "hdr.map_ok ?m" by (rule fold_put_ok) simp
  have held: "hdr.value_at k ?m = (if values_of k ?fs = [] then None else Some (last (values_of k ?fs)))" for k
    using value_after_fields [of "[]" k ?fs] find_rev_values [of k ?fs]
    by (simp add: hdr.value_at_def omap_find_def option.case_eq_if map_option_case split: if_splits)
  have host: "values_of ''host'' ?fs = values_of ''host'' headers"
    using host_not_connection by (auto simp: values_of_def is_named_def intro!: arg_cong [where f = "map snd"] filter_cong)
  have conn: "values_of ''connection'' ?fs = []" by (simp add: values_of_def)
  have names: "strcasecmp ''host'' ''Host'' = 0" "strcasecmp ''connection'' ''Host'' \<noteq> 0" by code_simp+
  have all: "fst (set_headers headers False ?rq) \<longleftrightarrow> \<not> list_all (\<lambda>v. v = []) (values_of ''host'' headers)"
    using set(1) unfolding host by (auto simp: list_all_iff list_ex_iff)
  have req: "uri_request method u headers body =
      (if fst (set_headers headers False ?rq) then snd (set_headers headers False ?rq)
       else rq_setHeader (snd (set_headers headers False ?rq)) ''Host'' (u_host u))\<lparr>rq_body := body\<rparr>"
    by (simp add: uri_request_def finish_request_def case_prod_beta)
  have "rq_close (uri_request method u headers body) = rq_close (snd (set_headers headers False ?rq))"
    unfolding req by (simp add: rq_setHeader_def)
  moreover have "rq_getHeader (uri_request method u headers body) ''host'' [] =
      (if list_all (\<lambda>v. v = []) (values_of ''host'' headers) then u_host u else last (values_of ''host'' headers))"
    unfolding req getHeader_value
    by (auto simp: all m held host rq_setHeader_def hdr.value_at_put [OF ok] hdr_same_iff names)
  moreover have "rq_hasHeader (uri_request method u headers body) ''connection'' = None"
    unfolding req hasHeader_value
    by (simp add: m held conn rq_setHeader_def hdr.value_at_put [OF ok] hdr_same_iff names)
  ultimately show ?thesis using set(3) by (simp add: new_request_def)
qed

subsection \<open>Every request is answered\<close>

lemma exchange_returns:
  assumes "reads_from (so_read (env_ops env)) src" "0 < ce_buff_size env" "ce_buff_size env < 2 ^ 30"
    and "length (ce_mem env) = Suc (ce_buff_size env)"
  shows "\<exists>r ss' k'. exchange env rq ss k = Some (r, ss', k')"
proof -
  obtain rt ss1 k1 where send: "sendRequest (env_ops env) rq (ss, k) = (rt, ss1, k1)" using prod_cases3 by blast
  obtain r s' where "recvResponse (env_ops env) (ce_buff_size env) (ce_cast env) (ce_mem env) (ce_raw env) (ss1, k1) =
      Some (r, s')"
    using recv_response_returns [OF assms] by blast
  with send show ?thesis
    by (auto simp: exchange_def split: sum.split option.split prod.split)
qed

lemma request_url_returns:
  assumes "reads_from (so_read (env_ops env)) src" "0 < ce_buff_size env" "ce_buff_size env < 2 ^ 30"
    and "length (ce_mem env) = Suc (ce_buff_size env)"
  shows "\<exists>r k'. DoRequest_url env method url timeout_ms headers body k = Some (r, k') \<and>
    (case r of
       Inl err \<Rightarrow> (\<exists>e. err = UriThrows e \<and> Uri_Create url = Inl e) \<or> (\<exists>e. err = ParserThrows e)
     | Inr res \<Rightarrow>
         (\<exists>e \<in> {OK, INVALID_URL, INVALID_HOST, CONNECT_FAIL, SEND_CLOSE_BY_PEER, SEND_SOCKET_ERROR, TIMEOUT}.
           hr_result res = error_code e) \<and>
         (hr_response res \<noteq> None \<longleftrightarrow> hr_result res = error_code OK) \<and>
         (hr_result res = error_code INVALID_URL \<longleftrightarrow> Uri_Create url = Inr None))"
proof (cases "Uri_Create url")
  case (Inr out)
  show ?thesis
  proof (cases out)
    case None
    with Inr show ?thesis by (auto simp: DoRequest_url_def with_url_def new_result_def error_code_def)
  next
    case (Some u)
    let ?rq = "uri_request method u headers body"
    have run: "DoRequest_url env method url timeout_ms headers body k = DoRequest env ?rq u timeout_ms k"
      by (simp add: DoRequest_url_def with_url_def DoRequest_uri_def Inr Some)
    show ?thesis
    proof (cases "createAddress (ce_endian env) (ce_gai env) (ce_hints env) u")
      case None
      then show ?thesis
        by (simp add: run DoRequest_def Inr Some new_result_def error_code_def)
    next
      case addr: (Some addr)
      obtain ok sock k1 where conn: "sock_connect (ce_endian env) (ce_os env) (CreateTCP addr) addr (- 1) k = (ok, sock, k1)"
        using prod_cases3 by blast
      show ?thesis
      proof (cases ok)
        case False
        with addr conn show ?thesis
          by (simp add: run DoRequest_def Inr Some new_result_def error_code_def)
      next
        case True
        obtain t ss2 k2 where ex: "exchange env ?rq (new_stream (Some sock) True)
            (setRecvTimeout (ce_os env) sock (sint timeout_ms) k1) = Some (t, ss2, k2)"
          using exchange_returns [OF assms] by blast
        show ?thesis
        proof (cases t)
          case (Inl err)
          with True addr conn ex show ?thesis by (simp add: run DoRequest_def \<open>Uri_Create url = Inr out\<close> Some)
        next
          case ans: (Inr ans)
          with True addr conn ex show ?thesis
            by (cases ans) (simp_all add: run DoRequest_def Inr Some new_result_def error_code_def Let_def)
        qed
      qed
    qed
  qed
qed (simp add: DoRequest_url_def with_url_def)

lemma get_post_url:
  "DoGet env url timeout_ms headers body k = DoRequest_url env GET url timeout_ms headers body k"
  "DoPost env url timeout_ms headers body k = DoRequest_url env POST url timeout_ms headers body k"
  by (auto simp: DoGet_def DoPost_def DoRequest_url_def with_url_def DoGet_uri_def DoPost_uri_def
      split: sum.split option.split)


text \<open>A URL that is one, and an environment: a host with an address, a willing system, and a peer that closes.\<close>

lemma plain_url:
  "Uri_Create ''http://h/p'' = Inr (Some \<lparr>u_scheme = ''http'', u_userinfo = [], u_host = ''h'', u_path = ''/p'',
     u_query = [], u_fragment = [], u_port = 0\<rparr>)"
proof -
  let ?u = "\<lparr>u_scheme = ''http'', u_userinfo = [], u_host = ''h'', u_path = ''/p'', u_query = [], u_fragment = [], u_port = 0\<rparr>"
  have w: "uri_toString ?u = ''http://h/p''"
    by (simp add: uri_toString_def uri_dump_def isDefaultPort_def uri_getPath_def)
  have "plain_uri ?u"
    by (simp add: plain_uri_def word_ok_def uri_class_defs in_class_def char_value_def char_code_def isDefaultPort_def)
  from create_plain [OF this] show ?thesis by (simp add: w max_string_def)
qed

definition quiet_env :: "httpclient_parser \<Rightarrow> (unit, unit) client_env" where
  "quiet_env raw =
    \<lparr>ce_endian = LittleEndian, ce_gai = (\<lambda>_ _ _. Some [Some (RawIn (new_IPv4 LittleEndian 0 0))]), ce_hints = (),
     ce_os = willing_os, ce_recv = (\<lambda>_ _ _ k. ((0, []), k)), ce_send = (\<lambda>_ bs _ k. ((int (length bs), ()), k)),
     ce_strerror = (\<lambda>_. []), ce_clock = (\<lambda>_. 5000), ce_buff_size = 40, ce_cast = (\<lambda>_. None),
     ce_mem = replicate 41 (CHR ''?''), ce_raw = raw\<rparr>"

lemma quiet_env_reads: "reads_from (so_read (env_ops (quiet_env raw))) (\<lambda>_. [])"
  by (auto simp: reads_from_def env_ops_def socket_ops_def ss_read_def sock_recv_def when_connected_def quiet_env_def
      split: option.split)


end
