(* ===== verification/Http_Pool.thy ===== *)
theory Http_Pool
  imports Http_Client
begin

text \<open>
  The pool of connections to one host, \<open>HttpConnectionPool\<close> of \<open>inc/http/http_connection.h\<close> and
  \<open>src/http/http_connection.cpp\<close>. A connection taken from the pool is a shared pointer whose deleter is
  \<open>ReleasePtr\<close>; here taking and releasing are operations of their own, and a request is one of each.
\<close>

subsection \<open>Taking and releasing a connection\<close>

record pool_conn =
  pc_stream :: socket_stream
  pc_createTime :: u64
  pc_request :: u64

record http_pool =
  po_host :: string
  po_vhost :: string
  po_port :: u32
  po_maxSize :: u32
  po_maxAliveTime :: u32
  po_maxRequest :: u32
  po_isHttps :: bool
  po_conns :: "pool_conn list"
  po_total :: i32

definition new_pool :: "string \<Rightarrow> string \<Rightarrow> u32 \<Rightarrow> bool \<Rightarrow> u32 \<Rightarrow> u32 \<Rightarrow> u32 \<Rightarrow> http_pool" where
  "new_pool host vhost port is_https max_size max_alive_time max_request =
    \<lparr>po_host = host, po_vhost = vhost, po_port = (if port \<noteq> 0 then port else if is_https then 443 else 80),
     po_maxSize = max_size, po_maxAliveTime = max_alive_time, po_maxRequest = max_request, po_isHttps = is_https,
     po_conns = [], po_total = 0\<rparr>"

text \<open>\<open>Create\<close> logs an invalid URI and goes on with the null pointer.\<close>

definition Pool_Create :: "string \<Rightarrow> string \<Rightarrow> u32 \<Rightarrow> u32 \<Rightarrow> u32 \<Rightarrow> client_error + http_pool" where
  "Pool_Create url vhost max_size max_alive_time max_request =
    (case Uri_Create url of
       Inl err \<Rightarrow> Inl (UriThrows err)
     | Inr None \<Rightarrow> Inl NullPointer
     | Inr (Some u) \<Rightarrow>
         Inr (new_pool (u_host u) vhost (uri_getPort u) (u_scheme u = ''https'') max_size max_alive_time max_request))"

definition pc_isConnected :: "pool_conn \<Rightarrow> bool" where
  "pc_isConnected c = ss_isConnected (pc_stream c)"

definition new_conn :: "socket \<Rightarrow> pool_conn" where
  "new_conn sock = \<lparr>pc_stream = new_stream (Some sock) True, pc_createTime = 0, pc_request = 0\<rparr>"

text \<open>The loop of \<open>getConnection\<close>: the invalid ones, the one found, and those left.\<close>

fun take_conn :: "u64 \<Rightarrow> u32 \<Rightarrow> pool_conn list \<Rightarrow> pool_conn list \<times> pool_conn option \<times> pool_conn list" where
  "take_conn now_ms max_alive [] = ([], None, [])"
| "take_conn now_ms max_alive (conn # conns) =
    (if \<not> pc_isConnected conn \<or> pc_createTime conn + ucast max_alive > now_ms then
       (let (invalid, found, conns) = take_conn now_ms max_alive conns in (conn # invalid, found, conns))
     else ([], Some conn, conns))"

definition delete_conns :: "'k sock_calls \<Rightarrow> pool_conn list \<Rightarrow> 'k \<Rightarrow> 'k" where
  "delete_conns os cs k = fold (\<lambda>c. drop_stream os (pc_stream c)) cs k"

definition open_conn :: "('i, 'k) client_env \<Rightarrow> http_pool \<Rightarrow> 'k \<Rightarrow> pool_conn option \<times> 'k" where
  "open_conn env pool k =
    (case LookupAnyIPAddress (ce_gai env) (po_host pool) (ce_hints env) of
       None \<Rightarrow> (None, k)
     | Some addr \<Rightarrow>
         (let os = ce_os env;
              addr = addr_setPort (ce_endian env) addr (ucast (po_port pool));
              (ok, sock, k) = sock_connect (ce_endian env) os (CreateTCP addr) addr (- 1) k
          in if ok then (Some (new_conn sock), k) else (None, drop_socket os sock k)))"

definition getConnection :: "('i, 'k) client_env \<Rightarrow> http_pool \<Rightarrow> 'k \<Rightarrow> pool_conn option \<times> http_pool \<times> 'k" where
  "getConnection env pool k =
    (let now_ms = ce_clock env k;
         (invalid, found, conns) = take_conn now_ms (po_maxAliveTime pool) (po_conns pool);
         k = delete_conns (ce_os env) invalid k;
         pool = pool\<lparr>po_conns := conns, po_total := po_total pool - of_nat (length invalid)\<rparr>
     in case found of
          Some conn \<Rightarrow> (Some conn, pool, k)
        | None \<Rightarrow>
            (case open_conn env pool k of
               (None, k) \<Rightarrow> (None, pool, k)
             | (Some conn, k) \<Rightarrow> (Some conn, pool\<lparr>po_total := po_total pool + 1\<rparr>, k)))"

definition ReleasePtr :: "('i, 'k) client_env \<Rightarrow> pool_conn \<Rightarrow> http_pool \<Rightarrow> 'k \<Rightarrow> http_pool \<times> 'k" where
  "ReleasePtr env conn pool k =
    (let conn = conn\<lparr>pc_request := pc_request conn + 1\<rparr>
     in if \<not> pc_isConnected conn \<or> pc_createTime conn + ucast (po_maxAliveTime pool) \<ge> ce_clock env k \<or>
           pc_request conn \<ge> ucast (po_maxRequest pool)
        then (pool\<lparr>po_total := po_total pool - 1\<rparr>, drop_stream (ce_os env) (pc_stream conn) k)
        else (pool\<lparr>po_conns := po_conns pool @ [conn]\<rparr>, k))"

subsection \<open>Requests through the pool\<close>

definition pool_text :: "http_pool \<Rightarrow> string" where
  "pool_text pool = ''pool host:'' @ po_host pool @ '' port:'' @ show_nat (unat (po_port pool))"

definition remote_text :: "('i, 'k) client_env \<Rightarrow> socket_stream \<Rightarrow> 'k \<Rightarrow> string \<times> socket_stream \<times> 'k" where
  "remote_text env ss k = ss_getRemoteAddressString (ce_endian env) (ce_os env) ss k"

definition pool_doRequest ::
    "('i, 'k) client_env \<Rightarrow> http_request \<Rightarrow> u64 \<Rightarrow> http_pool \<Rightarrow> 'k \<Rightarrow>
      ((client_error + http_result) \<times> http_pool \<times> 'k) option" where
  "pool_doRequest env rq timeout_ms pool k =
    (case getConnection env pool k of
       (None, pool, k) \<Rightarrow> Some (Inr (new_result POOL_GET_CONNECTION None (pool_text pool)), pool, k)
     | (Some conn, pool, k) \<Rightarrow>
         (case ss_socket (pc_stream conn) of
            None \<Rightarrow>
              (let (pool, k) = ReleasePtr env conn pool k
               in Some (Inr (new_result POOL_INVALID_CONNECTION None (pool_text pool)), pool, k))
          | Some sock \<Rightarrow>
              (case exchange env rq (pc_stream conn) (setRecvTimeout (ce_os env) sock (sint timeout_ms) k) of
                 None \<Rightarrow> None
               | Some (Inl err, ss, k) \<Rightarrow>
                   (let (pool, k) = ReleasePtr env (conn\<lparr>pc_stream := ss\<rparr>) pool k in Some (Inl (ParserThrows err), pool, k))
               | Some (Inr ans, ss, k) \<Rightarrow>
                   (let (res, ss, k) =
                      (case ans of
                         PeerClosed \<Rightarrow>
                           (let (t, ss, k) = remote_text env ss k
                            in (new_result SEND_CLOSE_BY_PEER None (''send request closed by peer: '' @ t), ss, k))
                       | SendFailed t \<Rightarrow> (new_result SEND_SOCKET_ERROR None (''send request socket error errno='' @ t), ss, k)
                       | NoAnswer \<Rightarrow>
                           (let (t, ss, k) = remote_text env ss k
                            in (new_result TIMEOUT None (''recv response timeout: '' @ t @ '' timeout_ms:'' @
                                 show_nat (unat timeout_ms)), ss, k))
                       | Answered rs \<Rightarrow> (new_result OK (Some rs) ''ok'', ss, k));
                      (pool, k) = ReleasePtr env (conn\<lparr>pc_stream := ss\<rparr>) pool k
                    in Some (Inr res, pool, k)))))"

text \<open>The whole \<open>url\<close> is taken for the path; the virtual host, if there is one, is the host that is named.\<close>

definition pool_request :: "http_pool \<Rightarrow> HttpMethod \<Rightarrow> string \<Rightarrow> (string \<times> string) list \<Rightarrow> string \<Rightarrow> http_request" where
  "pool_request pool method url headers body =
    finish_request headers (if po_vhost pool = [] then po_host pool else po_vhost pool) body
      ((new_request 0x11 True)\<lparr>rq_path := url, rq_method := method, rq_close := False\<rparr>)"

definition pool_doRequest_url ::
    "('i, 'k) client_env \<Rightarrow> HttpMethod \<Rightarrow> string \<Rightarrow> u64 \<Rightarrow> (string \<times> string) list \<Rightarrow> string \<Rightarrow> http_pool \<Rightarrow> 'k \<Rightarrow>
      ((client_error + http_result) \<times> http_pool \<times> 'k) option" where
  "pool_doRequest_url env method url timeout_ms headers body pool k =
    pool_doRequest env (pool_request pool method url headers body) timeout_ms pool k"

definition uri_target :: "uri \<Rightarrow> string" where
  "uri_target u =
    uri_getPath u @ (if u_query u = [] then [] else ''?'') @ u_query u @ (if u_fragment u = [] then [] else ''#'') @ u_fragment u"

definition pool_doRequest_uri where
  "pool_doRequest_uri env method u timeout_ms headers body pool k =
    pool_doRequest_url env method (uri_target u) timeout_ms headers body pool k"

definition pool_doGet where
  "pool_doGet env url timeout_ms headers body pool k = pool_doRequest_url env GET url timeout_ms headers body pool k"

definition pool_doGet_uri where
  "pool_doGet_uri env u timeout_ms headers body pool k = pool_doGet env (uri_target u) timeout_ms headers body pool k"

definition pool_doPost where
  "pool_doPost env url timeout_ms headers body pool k = pool_doRequest_url env POST url timeout_ms headers body pool k"

definition pool_doPost_uri where
  "pool_doPost_uri env u timeout_ms headers body pool k = pool_doPost env (uri_target u) timeout_ms headers body pool k"

subsection \<open>The pool over time\<close>

text \<open>
  A pool with the connections that are out of it. A connection that is out changes its stream, and the world
  changes, as they like.
\<close>

inductive pool_reach :: "('i, 'k) client_env \<Rightarrow> http_pool \<Rightarrow> http_pool \<Rightarrow> pool_conn list \<Rightarrow> bool" for env pool0 where
  start: "pool_reach env pool0 pool0 []"
| got: "pool_reach env pool0 pool used \<Longrightarrow> getConnection env pool k = (Some conn, pool', k') \<Longrightarrow>
    pool_reach env pool0 pool' (conn # used)"
| failed: "pool_reach env pool0 pool used \<Longrightarrow> getConnection env pool k = (None, pool', k') \<Longrightarrow>
    pool_reach env pool0 pool' used"
| works: "pool_reach env pool0 pool used \<Longrightarrow> i < length used \<Longrightarrow>
    pool_reach env pool0 pool (used[i := (used ! i)\<lparr>pc_stream := ss\<rparr>])"
| released: "pool_reach env pool0 pool (us @ conn # vs) \<Longrightarrow> ReleasePtr env conn pool k = (pool', k') \<Longrightarrow>
    pool_reach env pool0 pool' (us @ vs)"

inductive_cases pool_reachE: "pool_reach env pool0 pool used"

definition idle_ok :: "u32 \<Rightarrow> pool_conn \<Rightarrow> bool" where
  "idle_ok max_request c \<longleftrightarrow> pc_createTime c = 0 \<and> 0 < pc_request c \<and> pc_request c < ucast max_request"

definition out_ok :: "u32 \<Rightarrow> pool_conn \<Rightarrow> bool" where
  "out_ok max_request c \<longleftrightarrow> pc_createTime c = 0 \<and> (pc_request c = 0 \<or> pc_request c < ucast max_request)"

definition pool_ok :: "http_pool \<Rightarrow> http_pool \<Rightarrow> pool_conn list \<Rightarrow> bool" where
  "pool_ok pool0 pool used \<longleftrightarrow>
    po_maxRequest pool = po_maxRequest pool0 \<and> po_maxAliveTime pool = po_maxAliveTime pool0 \<and>
    po_total pool = of_nat (length (po_conns pool) + length used) \<and>
    list_all (idle_ok (po_maxRequest pool0)) (po_conns pool) \<and> list_all (out_ok (po_maxRequest pool0)) used"

lemma idle_out: "idle_ok m c \<Longrightarrow> out_ok m c"
  by (simp add: idle_ok_def out_ok_def)

lemma out_idle:
  assumes "out_ok m c" "pc_request c + 1 < ucast m"
  shows "idle_ok m (c\<lparr>pc_request := pc_request c + 1\<rparr>)"
proof -
  have "unat (ucast m :: u64) < 2 ^ 32" proof -
    have "unat m < 2 ^ 32" using unsigned_less [of m, where 'a = nat] by simp
    then show ?thesis by (simp add: unsigned_ucast_eq take_bit_nat_eq_self)
  qed
  with assms(1) have "unat (pc_request c) < 2 ^ 32" by (auto simp: out_ok_def word_less_nat_alt)
  then have "unat (pc_request c + 1) = unat (pc_request c) + 1"
    by (subst unat_add_lem [THEN iffD1]) simp_all
  then have "0 < pc_request c + 1" by (simp add: word_less_nat_alt)
  with assms show ?thesis by (simp add: idle_ok_def out_ok_def)
qed

lemma take_conn_split:
  "take_conn now_ms max_alive conns = (invalid, found, rest) \<Longrightarrow>
    conns = invalid @ (case found of None \<Rightarrow> [] | Some c \<Rightarrow> [c]) @ rest \<and> (found = None \<longrightarrow> rest = [])"
  by (induction conns arbitrary: invalid) (auto split: if_splits prod.splits)

lemma open_conn_ok: "open_conn env pool k = (Some c, k') \<Longrightarrow> out_ok m c"
  by (auto simp: open_conn_def out_ok_def new_conn_def Let_def split: option.splits prod.splits if_splits)

lemma getConnection_ok:
  assumes "pool_ok pool0 pool used" "getConnection env pool k = (found, pool', k')"
  shows "pool_ok pool0 pool' (case found of None \<Rightarrow> used | Some c \<Rightarrow> c # used)"
proof -
  obtain invalid f rest where t: "take_conn (ce_clock env k) (po_maxAliveTime pool) (po_conns pool) = (invalid, f, rest)"
    using prod_cases3 by blast
  note split = take_conn_split [OF t]
  let ?k = "delete_conns (ce_os env) invalid k"
  let ?pool = "pool\<lparr>po_conns := rest, po_total := po_total pool - of_nat (length invalid)\<rparr>"
  have total: "po_total pool - of_nat (length invalid) = of_nat (length rest + length used + (if f = None then 0 else 1))"
    using assms(1) split by (cases f) (simp_all add: pool_ok_def)
  show ?thesis
  proof (cases f)
    case (Some c)
    then have "found = Some c" "pool' = ?pool" using assms(2) t by (auto simp: getConnection_def)
    with assms(1) split total Some show ?thesis by (auto simp: pool_ok_def idle_out)
  next
    case None
    have ok: "pool_ok pool0 ?pool used" using assms(1) split total None by (simp add: pool_ok_def)
    obtain c k2 where o: "open_conn env ?pool ?k = (c, k2)" by (cases "open_conn env ?pool ?k")
    show ?thesis
    proof (cases c)
      case None
      then have "found = None" "pool' = ?pool" using assms(2) t o \<open>f = None\<close> by (auto simp: getConnection_def Let_def)
      with ok show ?thesis by simp
    next
      case (Some c')
      then have "found = Some c'" "pool' = ?pool\<lparr>po_total := po_total ?pool + 1\<rparr>"
        using assms(2) t o \<open>f = None\<close> by (auto simp: getConnection_def Let_def)
      with ok open_conn_ok [OF o [unfolded Some]] show ?thesis by (simp add: pool_ok_def)
    qed
  qed
qed

lemma ReleasePtr_ok:
  assumes "pool_ok pool0 pool (us @ conn # vs)" "ReleasePtr env conn pool k = (pool', k')"
  shows "pool_ok pool0 pool' (us @ vs)"
proof -
  let ?conn = "conn\<lparr>pc_request := pc_request conn + 1\<rparr>"
  consider "pool' = pool\<lparr>po_total := po_total pool - 1\<rparr>"
    | "pool' = pool\<lparr>po_conns := po_conns pool @ [?conn]\<rparr>" "pc_request ?conn < ucast (po_maxRequest pool)"
    using assms(2) unfolding ReleasePtr_def Let_def by (metis linorder_not_le prod.inject)
  then show ?thesis using assms(1) by cases (auto simp: pool_ok_def out_idle)
qed

lemma pool_reach_ok:
  assumes "pool_reach env pool0 pool used" "po_conns pool0 = []" "po_total pool0 = 0"
  shows "pool_ok pool0 pool used"
  using assms
proof (induction rule: pool_reach.induct)
  case start
  then show ?case by (simp add: pool_ok_def)
next
  case (got pool used k conn pool' k')
  with getConnection_ok [of pool0 pool used env k "Some conn"] show ?case by simp
next
  case (failed pool used k pool' k')
  with getConnection_ok [of pool0 pool used env k None] show ?case by simp
next
  case (works pool used i ss)
  then have "list_all (out_ok (po_maxRequest pool0)) used" by (simp add: pool_ok_def)
  with works(2) have "list_all (out_ok (po_maxRequest pool0)) (used[i := (used ! i)\<lparr>pc_stream := ss\<rparr>])"
    by (auto simp: list_all_length out_ok_def nth_list_update)
  with works show ?case by (simp add: pool_ok_def)
next
  case (released pool us conn vs k pool' k')
  then show ?case using ReleasePtr_ok [of pool0 pool us conn vs env k pool' k'] by simp
qed

text \<open>The size limit is not looked at: changing it changes nothing else.\<close>

lemma max_size_ignored:
  "getConnection env (pool\<lparr>po_maxSize := m\<rparr>) k =
    (case getConnection env pool k of (c, p, k') \<Rightarrow> (c, p\<lparr>po_maxSize := m\<rparr>, k'))"
  "ReleasePtr env conn (pool\<lparr>po_maxSize := m\<rparr>) k = (case ReleasePtr env conn pool k of (p, k') \<Rightarrow> (p\<lparr>po_maxSize := m\<rparr>, k'))"
  by (simp_all add: getConnection_def ReleasePtr_def open_conn_def Let_def case_prod_beta split: option.split)

text \<open>
  C39: the count of a pool is the number of its connections, those in its list and those that are out, through
  any sequence of operations. A connection in the list has served at least one request and fewer than the
  limit; one that is out has served none yet or fewer than the limit. Nothing ever sets the time of creation.
  The size limit plays no part: with any other one \<open>getConnection\<close> and \<open>ReleasePtr\<close> do the same.
\<close>

theorem pool_accounting:
  assumes "pool_reach env pool0 pool used" "po_conns pool0 = []" "po_total pool0 = 0"
  shows "po_total pool = of_nat (length (po_conns pool) + length used) \<and>
    (\<forall>c \<in> set (po_conns pool). pc_createTime c = 0 \<and> 0 < pc_request c \<and> pc_request c < ucast (po_maxRequest pool0)) \<and>
    (\<forall>c \<in> set used. pc_createTime c = 0 \<and> (pc_request c = 0 \<or> pc_request c < ucast (po_maxRequest pool0))) \<and>
    getConnection env (pool\<lparr>po_maxSize := m\<rparr>) k =
      (case getConnection env pool k of (c, p, k') \<Rightarrow> (c, p\<lparr>po_maxSize := m\<rparr>, k')) \<and>
    ReleasePtr env conn (pool\<lparr>po_maxSize := m\<rparr>) k =
      (case ReleasePtr env conn pool k of (p, k') \<Rightarrow> (p\<lparr>po_maxSize := m\<rparr>, k'))"
  using pool_reach_ok [OF assms] max_size_ignored [where env = env and pool = pool and m = m and k = k]
  by (auto simp: pool_ok_def idle_ok_def out_ok_def list_all_iff)

lemma take_conn_unborn:
  "list_all (\<lambda>c. pc_createTime c = 0) conns \<Longrightarrow>
    take_conn now_ms max_alive conns =
      (if now_ms < ucast max_alive then conns else takeWhile (\<lambda>c. \<not> pc_isConnected c) conns,
       if now_ms < ucast max_alive then None else find pc_isConnected conns,
       if now_ms < ucast max_alive then [] else tl (dropWhile (\<lambda>c. \<not> pc_isConnected c) conns))"
  by (induction conns) (auto simp: not_less)

lemma getConnection_conns:
  assumes "take_conn (ce_clock env k) (po_maxAliveTime pool) (po_conns pool) = (invalid, f, rest)"
  shows "po_conns (fst (snd (getConnection env pool k))) = rest" "f = Some c \<Longrightarrow> fst (getConnection env pool k) = Some c"
  using assms by (auto simp: getConnection_def Let_def split: option.split prod.split)

text \<open>
  C40: \<open>m_createTime\<close> is never set and the test of age is the wrong way round, so that on any clock past the
  maximal age no connection is too old: \<open>ReleasePtr\<close> keeps one exactly when it is connected and has served
  fewer requests than the limit, and \<open>getConnection\<close> hands out the first connected one, however long it has
  been idle. Before that moment of the clock every connection is too old.
\<close>

theorem pool_never_expires:
  assumes "pool_reach env pool0 pool used" "po_conns pool0 = []" "po_total pool0 = 0"
    and "conn \<in> set used"
  shows "(ucast (po_maxAliveTime pool) < ce_clock env k \<longrightarrow>
      (po_conns (fst (ReleasePtr env conn pool k)) = po_conns pool @ [conn\<lparr>pc_request := pc_request conn + 1\<rparr>]) =
        (pc_isConnected conn \<and> pc_request conn + 1 < ucast (po_maxRequest pool)) \<and>
      (case find pc_isConnected (po_conns pool) of
         Some c \<Rightarrow> fst (getConnection env pool k) = Some c
       | None \<Rightarrow> po_conns (fst (snd (getConnection env pool k))) = [])) \<and>
    (ce_clock env k < ucast (po_maxAliveTime pool) \<longrightarrow>
      po_conns (fst (ReleasePtr env conn pool k)) = po_conns pool \<and> po_conns (fst (snd (getConnection env pool k))) = [])"
proof -
  have ok: "pool_ok pool0 pool used" by (rule pool_reach_ok [OF assms(1-3)])
  then have "pc_createTime conn = 0" using assms(4) by (auto simp: pool_ok_def out_ok_def list_all_iff)
  moreover have "list_all (\<lambda>c. pc_createTime c = 0) (po_conns pool)"
    using ok by (simp add: pool_ok_def idle_ok_def list_all_iff)
  note take = take_conn_unborn [OF this, of "ce_clock env k" "po_maxAliveTime pool"]
  have "(case find pc_isConnected (po_conns pool) of
      Some c \<Rightarrow> fst (getConnection env pool k) = Some c
    | None \<Rightarrow> po_conns (fst (snd (getConnection env pool k))) = [])"
    if "ucast (po_maxAliveTime pool) < ce_clock env k"
  proof (cases "find pc_isConnected (po_conns pool)")
    case None
    then have "dropWhile (\<lambda>c. \<not> pc_isConnected c) (po_conns pool) = []" by (auto simp: find_None_iff)
    then have "tl (dropWhile (\<lambda>c. \<not> pc_isConnected c) (po_conns pool)) = []" by (metis list.sel(2))
    with that None getConnection_conns(1) [OF take] show ?thesis by simp
  next
    case (Some c)
    with that getConnection_conns(2) [OF take] show ?thesis by simp
  qed
  moreover have "po_conns (fst (snd (getConnection env pool k))) = []" if "ce_clock env k < ucast (po_maxAliveTime pool)"
    using that getConnection_conns(1) [OF take] by simp
  moreover have "pc_isConnected (conn\<lparr>pc_request := n\<rparr>) = pc_isConnected conn" for n by (simp add: pc_isConnected_def)
  ultimately show ?thesis by (auto simp: ReleasePtr_def Let_def not_le not_less)
qed

text \<open>One connection taken, in a system in which every call succeeds.\<close>

definition sample_pool :: http_pool where
  "sample_pool = new_pool ''h'' [] 80 False 1 1000 10"

lemma sample_reach:
  "\<exists>c p. getConnection (quiet_env raw) sample_pool () = (Some c, p, ()) \<and> pool_reach (quiet_env raw) sample_pool p [c]"
proof -
  have "\<exists>c p. getConnection (quiet_env raw) sample_pool () = (Some c, p, ())"
    by (simp add: getConnection_def quiet_env_def sample_pool_def new_pool_def open_conn_def LookupAnyIPAddress_def Lookup_def
        delete_conns_def Address_Create_def is_IPAddress_def new_IPv4_def AF_INET_def AF_INET6_def addr_setPort_def IPv4_setPort_def
        sock_connect_def ensure_sock_def newSock_def isValid_def CreateTCP_def new_socket_def willing_os_def getFamily_def
        sock_getRemoteAddress_def sock_getLocalAddress_def name_of_def case_prod_beta Let_def)
  then show ?thesis by (elim exE) (intro exI conjI, assumption, rule pool_reach.got [OF pool_reach.start])
qed

theorem pool_accounting_witness:
  "\<forall>raw. \<exists>c p. getConnection (quiet_env raw) sample_pool () = (Some c, p, ()) \<and> po_total p = of_nat (length (po_conns p) + 1)"
proof
  fix raw
  obtain c p where "getConnection (quiet_env raw) sample_pool () = (Some c, p, ())"
    and reach: "pool_reach (quiet_env raw) sample_pool p [c]" using sample_reach by blast
  moreover have "po_conns sample_pool = []" "po_total sample_pool = 0" by (simp_all add: sample_pool_def new_pool_def)
  with pool_accounting [OF reach, of 0 "()" c] have "po_total p = of_nat (length (po_conns p) + 1)" by simp
  ultimately show "\<exists>c p. getConnection (quiet_env raw) sample_pool () = (Some c, p, ()) \<and> po_total p = of_nat (length (po_conns p) + 1)"
    by blast
qed

theorem pool_never_expires_witness:
  "\<forall>raw. \<exists>c p. getConnection (quiet_env raw) sample_pool () = (Some c, p, ()) \<and>
    (po_conns (fst (ReleasePtr (quiet_env raw) c p ())) = po_conns p @ [c\<lparr>pc_request := pc_request c + 1\<rparr>]) =
      (pc_isConnected c \<and> pc_request c + 1 < ucast (po_maxRequest p))"
proof
  fix raw
  obtain c p where get: "getConnection (quiet_env raw) sample_pool () = (Some c, p, ())"
    and reach: "pool_reach (quiet_env raw) sample_pool p [c]" using sample_reach by blast
  have zero: "po_conns sample_pool = []" "po_total sample_pool = 0" by (simp_all add: sample_pool_def new_pool_def)
  have "po_maxAliveTime p = 1000"
    using pool_reach_ok [OF reach zero] by (simp add: pool_ok_def sample_pool_def new_pool_def)
  then have "ucast (po_maxAliveTime p) < ce_clock (quiet_env raw) ()" by (simp add: quiet_env_def)
  with pool_never_expires [OF reach zero, of c "()"] get
  show "\<exists>c p. getConnection (quiet_env raw) sample_pool () = (Some c, p, ()) \<and>
    (po_conns (fst (ReleasePtr (quiet_env raw) c p ())) = po_conns p @ [c\<lparr>pc_request := pc_request c + 1\<rparr>]) =
      (pc_isConnected c \<and> pc_request c + 1 < ucast (po_maxRequest p))"
    by (intro exI [of _ c] exI [of _ p]) simp
qed

end
